(* ===== verification/Prelude.thy ===== *)
theory Prelude
  imports Main "HOL-Library.Word" "HOL-Library.Monad_Syntax"
begin

text \<open>
  Shared vocabulary of the development: the machine types of the Rust sources, the
  partial operations of \<^verbatim>\<open>Vec\<close> and of slices (an out-of-range access is \<open>None\<close>, the
  model's value for a trap), \<^verbatim>\<open>binary_search\<close>, strictly ascending lists and the lemma
  collections the component theories rely on.

  Convention: a function that can trap, panic or run into undefined behaviour returns
  an \<open>option\<close>, and \<open>None\<close> stands for that outcome. Error values of the sources are
  the left summand of a sum type.
\<close>

section \<open>Machine types\<close>

type_synonym u8 = "8 word"
type_synonym u16 = "16 word"
type_synonym u32 = "32 word"
type_synonym u64 = "64 word"
type_synonym u128 = "128 word"
type_synonym bytes = "8 word list"

named_theorems vec_simps \<open>partial vector operations inside their range\<close>

section \<open>Partial vector operations\<close>

text \<open>\<^verbatim>\<open>xs[i]\<close> and \<^verbatim>\<open>xs.get_unchecked(i)\<close>.\<close>

definition vec_get :: "'a list \<Rightarrow> nat \<Rightarrow> 'a option" where
  "vec_get xs i = (if i < length xs then Some (xs ! i) else None)"

text \<open>\<^verbatim>\<open>xs.insert(i, x)\<close>.\<close>

definition vec_insert :: "nat \<Rightarrow> 'a \<Rightarrow> 'a list \<Rightarrow> 'a list option" where
  "vec_insert i x xs = (if i \<le> length xs then Some (take i xs @ x # drop i xs) else None)"

text \<open>\<^verbatim>\<open>xs.remove(i)\<close>: the removed element and the remaining vector.\<close>

definition vec_remove :: "nat \<Rightarrow> 'a list \<Rightarrow> ('a \<times> 'a list) option" where
  "vec_remove i xs = (if i < length xs then Some (xs ! i, take i xs @ drop (Suc i) xs) else None)"

text \<open>\<^verbatim>\<open>xs.pop().unwrap_abort()\<close>: the last element and the remaining vector.\<close>

definition vec_pop :: "'a list \<Rightarrow> ('a \<times> 'a list) option" where
  "vec_pop xs = (if xs = [] then None else Some (last xs, butlast xs))"

text \<open>\<^verbatim>\<open>xs.split_off(i)\<close>: what stays and what is returned.\<close>

definition vec_split_off :: "nat \<Rightarrow> 'a list \<Rightarrow> ('a list \<times> 'a list) option" where
  "vec_split_off i xs = (if i \<le> length xs then Some (take i xs, drop i xs) else None)"

text \<open>\<^verbatim>\<open>mem::replace(&mut xs[i], x)\<close>: the old element and the updated vector.\<close>

definition vec_replace :: "nat \<Rightarrow> 'a \<Rightarrow> 'a list \<Rightarrow> ('a \<times> 'a list) option" where
  "vec_replace i x xs = (if i < length xs then Some (xs ! i, xs[i := x]) else None)"

lemma vec_get_Some [vec_simps]: "i < length xs \<Longrightarrow> vec_get xs i = Some (xs ! i)"
  by (simp add: vec_get_def)

lemma vec_get_mid [vec_simps]: "vec_get (xs @ y # ys) (length xs) = Some y"
  by (simp add: vec_get_def)

lemma vec_get_eq_Some: "vec_get xs i = Some x \<longleftrightarrow> i < length xs \<and> x = xs ! i"
  by (auto simp: vec_get_def)

lemma vec_insert_mid [vec_simps]: "vec_insert (length xs) y (xs @ ys) = Some (xs @ y # ys)"
  by (simp add: vec_insert_def)

lemma vec_remove_mid [vec_simps]: "vec_remove (length xs) (xs @ y # ys) = Some (y, xs @ ys)"
  by (simp add: vec_remove_def)

lemma vec_pop_snoc [vec_simps]: "vec_pop (xs @ [x]) = Some (x, xs)"
  by (simp add: vec_pop_def)

lemma vec_split_off_append [vec_simps]: "vec_split_off (length xs) (xs @ ys) = Some (xs, ys)"
  by (simp add: vec_split_off_def)

lemma vec_replace_mid [vec_simps]:
  "vec_replace (length xs) z (xs @ y # ys) = Some (y, xs @ z # ys)"
  by (simp add: vec_replace_def)

section \<open>Strictly ascending lists and binary search\<close>

abbreviation ascending :: "'a::linorder list \<Rightarrow> bool" where
  "ascending \<equiv> sorted_wrt (<)"

text \<open>
  \<^verbatim>\<open>slice::binary_search\<close>: \<open>Inr i\<close> (the \<^verbatim>\<open>Ok\<close> of the source) is the index of the key,
  \<open>Inl i\<close> (its \<^verbatim>\<open>Err\<close>) the index at which inserting the key keeps the slice sorted. On
  the strictly ascending slices the library keeps, both are determined by the
  documentation of the standard library; the model computes them by a linear scan.
\<close>

definition binary_search :: "'k::linorder list \<Rightarrow> 'k \<Rightarrow> nat + nat" where
  "binary_search ks k =
     (let i = length (takeWhile (\<lambda>x. x < k) ks)
      in if i < length ks \<and> ks ! i = k then Inr i else Inl i)"

lemma binary_search_Inr:
  assumes "binary_search ks k = Inr i"
  obtains ps qs where "ks = ps @ k # qs" "length ps = i"
proof -
  from assms have i: "i < length ks" "ks ! i = k"
    by (auto simp: binary_search_def Let_def split: if_splits)
  then have "ks = take i ks @ k # drop (Suc i) ks"
    using id_take_nth_drop by blast
  with i show thesis by (intro that [of "take i ks" "drop (Suc i) ks"]) auto
qed

lemma binary_search_Inl:
  assumes "binary_search ks k = Inl i" and "ascending ks"
  obtains ps qs where "ks = ps @ qs" "length ps = i" "\<forall>x \<in> set ps. x < k" "\<forall>x \<in> set qs. k < x"
proof -
  let ?ps = "takeWhile (\<lambda>x. x < k) ks" and ?qs = "dropWhile (\<lambda>x. x < k) ks"
  from assms(1) have i: "i = length ?ps" and ne: "\<not> (i < length ks \<and> ks ! i = k)"
    by (auto simp: binary_search_def Let_def split: if_splits)
  have split: "ks = ?ps @ ?qs" by simp
  have "k < x" if x: "x \<in> set ?qs" for x
  proof -
    from x obtain q qs where qs: "?qs = q # qs" by (cases ?qs) auto
    then have "\<not> q < k" by (simp add: dropWhile_eq_Cons_conv)
    moreover have "q \<noteq> k"
    proof
      assume "q = k"
      then have "ks ! i = k" and "i < length ks"
        using i qs split by (metis nth_append_length, metis length_append_singleton
            append_eq_append_conv_if append.assoc length_append less_add_same_cancel1
            length_greater_0_conv list.distinct(1))
      with ne show False by simp
    qed
    ultimately have "k < q" by auto
    moreover have "q \<le> x"
      using x qs assms(2) split by (metis sorted_wrt_append list.set_intros(1) order.strict_implies_order
          set_ConsD sorted_wrt.simps(2) order_refl)
    ultimately show ?thesis by simp
  qed
  moreover have "\<forall>x \<in> set ?ps. x < k" by (auto dest: set_takeWhileD)
  ultimately show thesis using split i by (intro that [of ?ps ?qs]) auto
qed

lemma ascending_append:
  "ascending (xs @ ys) \<longleftrightarrow> ascending xs \<and> ascending ys \<and> (\<forall>x \<in> set xs. \<forall>y \<in> set ys. x < y)"
  by (simp add: sorted_wrt_append)

section \<open>Words\<close>

lemma unat_of_nat_small: "n < 2 ^ LENGTH('a) \<Longrightarrow> unat (of_nat n :: 'a::len word) = n"
  by (simp add: unsigned_of_nat take_bit_nat_eq_self)

lemmas unat_of_nat_32 = unat_of_nat_small [where 'a = 32, simplified]

lemma unat_succ_cap:
  fixes n :: u64
  assumes "unat n + Suc h < 2 ^ 64"
  shows "n < n + 1" "unat (n + 1) = unat n + 1" "unat (n + 1) + h < 2 ^ 64"
proof -
  show u: "unat (n + 1) = unat n + 1" using assms by (simp add: unat_word_ariths)
  then show "n < n + 1" by (simp add: word_less_nat_alt)
  show "unat (n + 1) + h < 2 ^ 64" using assms u by simp
qed

section \<open>Sequencing\<close>

lemma bind_prod: "Option.bind (case p of (a, b) \<Rightarrow> f a b) g = (case p of (a, b) \<Rightarrow> Option.bind (f a b) g)"
  by (cases p) simp

lemmas bind_simps = Option.bind_assoc bind_prod

text \<open>A monadic computation that returns ran all its parts.\<close>

lemma bind_SomeE:
  assumes "Option.bind m f = Some r"
  obtains x where "m = Some x" "f x = Some r"
  using assms by (cases m) auto

section \<open>Words\<close>

lemma unat_drop_bit: "unat (drop_bit n (v :: 'w::len word)) = unat v div 2 ^ n"
  by (simp add: unat_drop_bit_eq flip: drop_bit_eq_div)

end
