(* ===== verification/BTree_Model.thy ===== *)
theory BTree_Model
  imports Prelude
begin

text \<open>
  The ordered set \<^verbatim>\<open>StateBTreeSet\<close> of \<^verbatim>\<open>concordium-std/src/state_btree.rs\<close>, as the code
  has it: a B-tree of minimum degree \<open>M\<close> whose nodes are separate entries of the
  contract's key-value store. The store below one set's prefix is a map from node
  identifiers to nodes; a \<^verbatim>\<open>StateRefMut\<close> handle to a node is its identifier, and what the
  handle writes back when it is dropped is written at the point where the code mutates
  it (no other handle to the same node is read in between). \<open>None\<close> is a trap, a panic,
  an out-of-range unchecked access or a run that does not end.
\<close>

section \<open>Nodes and the set\<close>

type_synonym node_id = u64

record 'k node =
  keys :: "'k list"
  children :: "node_id list"

record 'k btree_set =
  store :: "node_id \<rightharpoonup> 'k node"
  root :: "node_id option"
  len :: u32
  next_node_id :: node_id

definition MAXIMUM_KEY_LEN :: "nat \<Rightarrow> nat" where
  "MAXIMUM_KEY_LEN M = 2 * M - 1"

definition MINIMUM_KEY_LEN :: "nat \<Rightarrow> nat" where
  "MINIMUM_KEY_LEN M = M - 1"

definition is_full :: "nat \<Rightarrow> 'k node \<Rightarrow> bool" where
  "is_full M n \<longleftrightarrow> length (keys n) = MAXIMUM_KEY_LEN M"

definition is_leaf :: "'k node \<Rightarrow> bool" where
  "is_leaf n \<longleftrightarrow> children n = []"

definition is_at_min :: "nat \<Rightarrow> 'k node \<Rightarrow> bool" where
  "is_at_min M n \<longleftrightarrow> length (keys n) = MINIMUM_KEY_LEN M"

text \<open>\<^verbatim>\<open>StateBTreeSet::new\<close>: no nodes, no root.\<close>

definition btree_set_new :: "'k btree_set" where
  "btree_set_new = \<lparr>store = Map.empty, root = None, len = 0, next_node_id = 0\<rparr>"

text \<open>\<^verbatim>\<open>get_node\<close> and \<^verbatim>\<open>get_node_mut\<close>: trap when the node is absent.\<close>

definition get_node :: "'k btree_set \<Rightarrow> node_id \<Rightarrow> 'k node option" where
  "get_node t i = store t i"

text \<open>The write-back of a handle.\<close>

definition put_node :: "'k btree_set \<Rightarrow> node_id \<Rightarrow> 'k node \<Rightarrow> 'k btree_set" where
  "put_node t i n = t\<lparr>store := (store t)(i \<mapsto> n)\<rparr>"

text \<open>\<^verbatim>\<open>NodeId::fetch_and_add\<close>: the current identifier and the incremented one.\<close>

definition fetch_and_add :: "node_id \<Rightarrow> node_id \<times> node_id" where
  "fetch_and_add i = (i, i + 1)"

definition create_node ::
    "'k btree_set \<Rightarrow> 'k list \<Rightarrow> node_id list \<Rightarrow> node_id \<times> 'k btree_set" where
  "create_node t ks cs =
     (let (i, nxt) = fetch_and_add (next_node_id t)
      in (i, put_node (t\<lparr>next_node_id := nxt\<rparr>) i \<lparr>keys = ks, children = cs\<rparr>))"

definition delete_node :: "'k btree_set \<Rightarrow> node_id \<Rightarrow> 'k btree_set" where
  "delete_node t i = t\<lparr>store := (store t)(i := None)\<rparr>"

section \<open>Lookups\<close>

partial_function (option) contains_loop :: "'k::linorder btree_set \<Rightarrow> node_id \<Rightarrow> 'k \<Rightarrow> bool option" where
  "contains_loop t i k = do {
     node \<leftarrow> get_node t i;
     case binary_search (keys node) k of
       Inr _ \<Rightarrow> Some True
     | Inl child_index \<Rightarrow>
         if is_leaf node then Some False
         else do {
           c \<leftarrow> vec_get (children node) child_index;
           contains_loop t c k
         }
   }"

definition btree_set_contains :: "'k::linorder btree_set \<Rightarrow> 'k \<Rightarrow> bool option" where
  "btree_set_contains t k = (case root t of None \<Rightarrow> Some False | Some r \<Rightarrow> contains_loop t r k)"

definition btree_set_len :: "'k btree_set \<Rightarrow> u32" where
  "btree_set_len t = len t"

definition btree_set_is_empty :: "'k btree_set \<Rightarrow> bool" where
  "btree_set_is_empty t = (root t = None)"

text \<open>\<^verbatim>\<open>clear\<close>: \<^verbatim>\<open>delete_prefix\<close> removes every node of the set.\<close>

definition btree_set_clear :: "'k btree_set \<Rightarrow> 'k btree_set" where
  "btree_set_clear t = t\<lparr>store := Map.empty, root := None, len := 0, next_node_id := 0\<rparr>"

partial_function (option) higher_loop ::
    "'k::linorder btree_set \<Rightarrow> node_id \<Rightarrow> 'k \<Rightarrow> 'k option \<Rightarrow> 'k option option" where
  "higher_loop t i k higher_so_far = do {
     node \<leftarrow> get_node t i;
     let higher_key_index = (case binary_search (keys node) k of Inr j \<Rightarrow> j + 1 | Inl j \<Rightarrow> j);
     let found = (if higher_key_index < length (keys node)
                  then Some (keys node ! higher_key_index) else higher_so_far);
     if is_leaf node then Some found
     else do {
       c \<leftarrow> vec_get (children node) higher_key_index;
       higher_loop t c k found
     }
   }"

definition btree_set_higher :: "'k::linorder btree_set \<Rightarrow> 'k \<Rightarrow> 'k option option" where
  "btree_set_higher t k = (case root t of None \<Rightarrow> Some None | Some r \<Rightarrow> higher_loop t r k None)"

partial_function (option) eq_or_higher_loop ::
    "'k::linorder btree_set \<Rightarrow> node_id \<Rightarrow> 'k \<Rightarrow> 'k option \<Rightarrow> 'k option option" where
  "eq_or_higher_loop t i k higher_so_far = do {
     node \<leftarrow> get_node t i;
     case binary_search (keys node) k of
       Inr j \<Rightarrow> Some (Some (keys node ! j))
     | Inl higher_key_index \<Rightarrow> do {
         let found = (if higher_key_index < length (keys node)
                      then Some (keys node ! higher_key_index) else higher_so_far);
         if is_leaf node then Some found
         else do {
           c \<leftarrow> vec_get (children node) higher_key_index;
           eq_or_higher_loop t c k found
         }
       }
   }"

definition btree_set_eq_or_higher :: "'k::linorder btree_set \<Rightarrow> 'k \<Rightarrow> 'k option option" where
  "btree_set_eq_or_higher t k =
     (case root t of None \<Rightarrow> Some None | Some r \<Rightarrow> eq_or_higher_loop t r k None)"

partial_function (option) lower_loop ::
    "'k::linorder btree_set \<Rightarrow> node_id \<Rightarrow> 'k \<Rightarrow> 'k option \<Rightarrow> 'k option option" where
  "lower_loop t i k lower_so_far = do {
     node \<leftarrow> get_node t i;
     let lower_key_index = (case binary_search (keys node) k of Inr j \<Rightarrow> j | Inl j \<Rightarrow> j);
     found \<leftarrow> (if lower_key_index = 0 then Some lower_so_far
               else map_option Some (vec_get (keys node) (lower_key_index - 1)));
     if is_leaf node then Some found
     else do {
       c \<leftarrow> vec_get (children node) lower_key_index;
       lower_loop t c k found
     }
   }"

definition btree_set_lower :: "'k::linorder btree_set \<Rightarrow> 'k \<Rightarrow> 'k option option" where
  "btree_set_lower t k = (case root t of None \<Rightarrow> Some None | Some r \<Rightarrow> lower_loop t r k None)"

partial_function (option) eq_or_lower_loop ::
    "'k::linorder btree_set \<Rightarrow> node_id \<Rightarrow> 'k \<Rightarrow> 'k option \<Rightarrow> 'k option option" where
  "eq_or_lower_loop t i k lower_so_far = do {
     node \<leftarrow> get_node t i;
     case binary_search (keys node) k of
       Inr j \<Rightarrow> Some (Some (keys node ! j))
     | Inl lower_key_index \<Rightarrow> do {
         found \<leftarrow> (if lower_key_index = 0 then Some lower_so_far
                   else map_option Some (vec_get (keys node) (lower_key_index - 1)));
         if is_leaf node then Some found
         else do {
           c \<leftarrow> vec_get (children node) lower_key_index;
           eq_or_lower_loop t c k found
         }
       }
   }"

definition btree_set_eq_or_lower :: "'k::linorder btree_set \<Rightarrow> 'k \<Rightarrow> 'k option option" where
  "btree_set_eq_or_lower t k =
     (case root t of None \<Rightarrow> Some None | Some r \<Rightarrow> eq_or_lower_loop t r k None)"

partial_function (option) lowest_key_loop :: "'k btree_set \<Rightarrow> node_id \<Rightarrow> 'k option" where
  "lowest_key_loop t i = do {
     node \<leftarrow> get_node t i;
     if is_leaf node then vec_get (keys node) 0
     else do { c \<leftarrow> vec_get (children node) 0; lowest_key_loop t c }
   }"

text \<open>\<^verbatim>\<open>get_lowest_key\<close> and \<^verbatim>\<open>get_highest_key\<close> of a node's child at an index.\<close>

definition get_lowest_key :: "'k btree_set \<Rightarrow> 'k node \<Rightarrow> nat \<Rightarrow> 'k option" where
  "get_lowest_key t node child_index = do {
     c \<leftarrow> vec_get (children node) child_index;
     lowest_key_loop t c
   }"

partial_function (option) highest_key_loop :: "'k btree_set \<Rightarrow> node_id \<Rightarrow> 'k option" where
  "highest_key_loop t i = do {
     node \<leftarrow> get_node t i;
     if is_leaf node then map_option fst (vec_pop (keys node))
     else do { (c, _) \<leftarrow> vec_pop (children node); highest_key_loop t c }
   }"

definition get_highest_key :: "'k btree_set \<Rightarrow> 'k node \<Rightarrow> nat \<Rightarrow> 'k option" where
  "get_highest_key t node child_index = do {
     c \<leftarrow> vec_get (children node) child_index;
     highest_key_loop t c
   }"

definition btree_set_first :: "'k btree_set \<Rightarrow> 'k option option" where
  "btree_set_first t =
     (case root t of
        None \<Rightarrow> Some None
      | Some r \<Rightarrow> do {
          node \<leftarrow> get_node t r;
          if is_leaf node then map_option Some (vec_get (keys node) 0)
          else map_option Some (get_lowest_key t node 0)
        })"

definition btree_set_last :: "'k btree_set \<Rightarrow> 'k option option" where
  "btree_set_last t =
     (case root t of
        None \<Rightarrow> Some None
      | Some r \<Rightarrow> do {
          node \<leftarrow> get_node t r;
          if is_leaf node then map_option (Some \<circ> fst) (vec_pop (keys node))
          else map_option Some (get_highest_key t node (length (children node) - 1))
        })"

section \<open>Insertion\<close>

definition split_child ::
    "nat \<Rightarrow> 'k btree_set \<Rightarrow> node_id \<Rightarrow> nat \<Rightarrow> node_id \<Rightarrow> (node_id \<times> 'k btree_set) option" where
  "split_child M t node_id child_index child_id = do {
     node \<leftarrow> get_node t node_id;
     child \<leftarrow> get_node t child_id;
     let split_index = MINIMUM_KEY_LEN M + 1;
     (child_keys, larger_keys) \<leftarrow> vec_split_off split_index (keys child);
     (child_children, larger_children) \<leftarrow>
       (if is_leaf child then Some (children child, []) else vec_split_off split_index (children child));
     let (new_larger_sibling_id, t) = create_node t larger_keys larger_children;
     (key, child_keys) \<leftarrow> vec_pop child_keys;
     node_children \<leftarrow> vec_insert (child_index + 1) new_larger_sibling_id (children node);
     node_keys \<leftarrow> vec_insert child_index key (keys node);
     let t = put_node t child_id \<lparr>keys = child_keys, children = child_children\<rparr>;
     let t = put_node t node_id \<lparr>keys = node_keys, children = node_children\<rparr>;
     Some (new_larger_sibling_id, t)
   }"

partial_function (option) insert_non_full ::
    "nat \<Rightarrow> 'k::linorder btree_set \<Rightarrow> node_id \<Rightarrow> 'k \<Rightarrow> (bool \<times> 'k btree_set) option" where
  "insert_non_full M t i key = do {
     node \<leftarrow> get_node t i;
     case binary_search (keys node) key of
       Inr _ \<Rightarrow> Some (False, t)
     | Inl insert_index \<Rightarrow>
         if is_leaf node then do {
           ks \<leftarrow> vec_insert insert_index key (keys node);
           Some (True, put_node t i (node\<lparr>keys := ks\<rparr>))
         } else do {
           child_id \<leftarrow> vec_get (children node) insert_index;
           child \<leftarrow> get_node t child_id;
           if \<not> is_full M child then insert_non_full M t child_id key
           else do {
             (larger_child, t) \<leftarrow> split_child M t i insert_index child_id;
             node \<leftarrow> get_node t i;
             moved_up_key \<leftarrow> vec_get (keys node) insert_index;
             if moved_up_key = key then Some (False, t)
             else if moved_up_key < key then insert_non_full M t larger_child key
             else insert_non_full M t child_id key
           }
         }
   }"

text \<open>The update of the element count that follows both calls of \<^verbatim>\<open>insert_non_full\<close>.\<close>

definition count_new :: "bool \<times> 'k btree_set \<Rightarrow> bool \<times> 'k btree_set" where
  "count_new r = (case r of (new, t) \<Rightarrow> (new, if new then t\<lparr>len := len t + 1\<rparr> else t))"

definition btree_set_insert ::
    "nat \<Rightarrow> 'k::linorder btree_set \<Rightarrow> 'k \<Rightarrow> (bool \<times> 'k btree_set) option" where
  "btree_set_insert M t key =
     (case root t of
        None \<Rightarrow>
          (let (node_id, t) = create_node t [key] []
           in Some (True, t\<lparr>root := Some node_id, len := 1\<rparr>))
      | Some root_id \<Rightarrow> do {
          root_node \<leftarrow> get_node t root_id;
          if \<not> is_full M root_node then map_option count_new (insert_non_full M t root_id key)
          else (case binary_search (keys root_node) key of
              Inr _ \<Rightarrow> Some (False, t)
            | Inl _ \<Rightarrow> do {
                let (new_root_id, t) = create_node t [] [root_id];
                let t = t\<lparr>root := Some new_root_id\<rparr>;
                (new_larger_child, t) \<leftarrow> split_child M t new_root_id 0 root_id;
                new_root \<leftarrow> get_node t new_root_id;
                key_in_root \<leftarrow> vec_get (keys new_root) 0;
                let child = (if key_in_root < key then new_larger_child else root_id);
                map_option count_new (insert_non_full M t child key)
              })
        })"

section \<open>Removal\<close>

text \<open>
  \<^verbatim>\<open>merge\<close>: the parent's key at the index and everything in the larger child move to the
  end of the child; the larger child is deleted.
\<close>

definition merge_nodes ::
    "'k btree_set \<Rightarrow> node_id \<Rightarrow> nat \<Rightarrow> node_id \<Rightarrow> node_id \<Rightarrow> 'k btree_set option" where
  "merge_nodes t parent_id index child_id larger_child_handle = do {
     parent \<leftarrow> get_node t parent_id;
     child \<leftarrow> get_node t child_id;
     larger_child \<leftarrow> get_node t larger_child_handle;
     (parent_key, parent_keys) \<leftarrow> vec_remove index (keys parent);
     (larger_child_id, parent_children) \<leftarrow> vec_remove (index + 1) (children parent);
     let t = put_node t parent_id \<lparr>keys = parent_keys, children = parent_children\<rparr>;
     let t = put_node t child_id
               \<lparr>keys = keys child @ parent_key # keys larger_child,
                children = children child @ children larger_child\<rparr>;
     Some (delete_node t larger_child_id)
   }"

text \<open>
  The two rotations of \<^verbatim>\<open>prepare_child_for_key_removal\<close>: a key moves from a sibling that
  can spare one through the parent into the child, with the sibling's outermost subtree.
\<close>

definition rotate_from_smaller ::
    "'k btree_set \<Rightarrow> node_id \<Rightarrow> nat \<Rightarrow> node_id \<Rightarrow> node_id \<Rightarrow> 'k btree_set option" where
  "rotate_from_smaller t node_id index child_id sibling_id = do {
     node \<leftarrow> get_node t node_id;
     child \<leftarrow> get_node t child_id;
     smaller_sibling \<leftarrow> get_node t sibling_id;
     (largest_key_sibling, sibling_keys) \<leftarrow> vec_pop (keys smaller_sibling);
     (swapped_node_key, node_keys) \<leftarrow> vec_replace (index - 1) largest_key_sibling (keys node);
     (child_children, sibling_children) \<leftarrow>
       (if \<not> is_leaf child then do {
          (c, cs) \<leftarrow> vec_pop (children smaller_sibling);
          Some (c # children child, cs)
        } else Some (children child, children smaller_sibling));
     let t = put_node t sibling_id \<lparr>keys = sibling_keys, children = sibling_children\<rparr>;
     let t = put_node t node_id (node\<lparr>keys := node_keys\<rparr>);
     Some (put_node t child_id \<lparr>keys = swapped_node_key # keys child, children = child_children\<rparr>)
   }"

definition rotate_from_larger ::
    "'k btree_set \<Rightarrow> node_id \<Rightarrow> nat \<Rightarrow> node_id \<Rightarrow> node_id \<Rightarrow> 'k btree_set option" where
  "rotate_from_larger t node_id index child_id sibling_id = do {
     node \<leftarrow> get_node t node_id;
     child \<leftarrow> get_node t child_id;
     larger_sibling \<leftarrow> get_node t sibling_id;
     (first_key_sibling, sibling_keys) \<leftarrow> vec_remove 0 (keys larger_sibling);
     (swapped_node_key, node_keys) \<leftarrow> vec_replace index first_key_sibling (keys node);
     (child_children, sibling_children) \<leftarrow>
       (if \<not> is_leaf child then do {
          (c, cs) \<leftarrow> vec_remove 0 (children larger_sibling);
          Some (children child @ [c], cs)
        } else Some (children child, children larger_sibling));
     let t = put_node t sibling_id \<lparr>keys = sibling_keys, children = sibling_children\<rparr>;
     let t = put_node t node_id (node\<lparr>keys := node_keys\<rparr>);
     Some (put_node t child_id \<lparr>keys = keys child @ [swapped_node_key], children = child_children\<rparr>)
   }"

text \<open>A sibling that was looked up: its identifier and its node, when there is one.\<close>

definition get_sibling ::
    "'k btree_set \<Rightarrow> 'k node \<Rightarrow> bool \<Rightarrow> nat \<Rightarrow> (node_id \<times> 'k node) option option" where
  "get_sibling t node has_sibling index =
     (if has_sibling then do {
        j \<leftarrow> vec_get (children node) index;
        n \<leftarrow> get_node t j;
        Some (Some (j, n))
      } else Some None)"

definition can_spare :: "nat \<Rightarrow> (node_id \<times> 'k node) option \<Rightarrow> bool" where
  "can_spare M sibling = (case sibling of None \<Rightarrow> False | Some (_, n) \<Rightarrow> \<not> is_at_min M n)"

definition prepare_child_for_key_removal ::
    "nat \<Rightarrow> 'k btree_set \<Rightarrow> node_id \<Rightarrow> nat \<Rightarrow> (node_id \<times> 'k btree_set) option" where
  "prepare_child_for_key_removal M t node_id index = do {
     node \<leftarrow> get_node t node_id;
     child_id \<leftarrow> vec_get (children node) index;
     child \<leftarrow> get_node t child_id;
     if \<not> is_at_min M child then Some (child_id, t)
     else do {
       smaller_sibling \<leftarrow> get_sibling t node (0 < index) (index - 1);
       if can_spare M smaller_sibling then do {
         (j, _) \<leftarrow> smaller_sibling;
         t \<leftarrow> rotate_from_smaller t node_id index child_id j;
         Some (child_id, t)
       } else do {
         larger_sibling \<leftarrow> get_sibling t node (index < length (children node) - 1) (index + 1);
         if can_spare M larger_sibling then do {
           (j, _) \<leftarrow> larger_sibling;
           t \<leftarrow> rotate_from_larger t node_id index child_id j;
           Some (child_id, t)
         } else
           (case larger_sibling of
              Some (j, _) \<Rightarrow> do {
                t \<leftarrow> merge_nodes t node_id index child_id j;
                Some (child_id, t)
              }
            | None \<Rightarrow> do {
                (j, _) \<leftarrow> smaller_sibling;
                t \<leftarrow> merge_nodes t node_id (index - 1) j child_id;
                Some (j, t)
              })
       }
     }
   }"

partial_function (option) remove_largest_key ::
    "nat \<Rightarrow> 'k btree_set \<Rightarrow> node_id \<Rightarrow> ('k \<times> 'k btree_set) option" where
  "remove_largest_key M t i = do {
     node \<leftarrow> get_node t i;
     if \<not> is_leaf node then do {
       (c, t) \<leftarrow> prepare_child_for_key_removal M t i (length (children node) - 1);
       remove_largest_key M t c
     } else do {
       (k, ks) \<leftarrow> vec_pop (keys node);
       Some (k, put_node t i (node\<lparr>keys := ks\<rparr>))
     }
   }"

partial_function (option) remove_smallest_key ::
    "nat \<Rightarrow> 'k btree_set \<Rightarrow> node_id \<Rightarrow> ('k \<times> 'k btree_set) option" where
  "remove_smallest_key M t i = do {
     node \<leftarrow> get_node t i;
     if \<not> is_leaf node then do {
       (c, t) \<leftarrow> prepare_child_for_key_removal M t i 0;
       remove_smallest_key M t c
     } else do {
       (k, ks) \<leftarrow> vec_remove 0 (keys node);
       Some (k, put_node t i (node\<lparr>keys := ks\<rparr>))
     }
   }"

text \<open>The loop of \<^verbatim>\<open>remove\<close>: whether something was deleted.\<close>

partial_function (option) remove_loop ::
    "nat \<Rightarrow> 'k::linorder btree_set \<Rightarrow> node_id \<Rightarrow> 'k \<Rightarrow> (bool \<times> 'k btree_set) option" where
  "remove_loop M t i key = do {
     node \<leftarrow> get_node t i;
     case binary_search (keys node) key of
       Inr index \<Rightarrow>
         if is_leaf node then do {
           (_, ks) \<leftarrow> vec_remove index (keys node);
           Some (True, put_node t i (node\<lparr>keys := ks\<rparr>))
         } else do {
           left_id \<leftarrow> vec_get (children node) index;
           left_child \<leftarrow> get_node t left_id;
           if \<not> is_at_min M left_child then do {
             (k, t) \<leftarrow> remove_largest_key M t left_id;
             Some (True, put_node t i (node\<lparr>keys := (keys node)[index := k]\<rparr>))
           } else do {
             right_id \<leftarrow> vec_get (children node) (index + 1);
             right_child \<leftarrow> get_node t right_id;
             if \<not> is_at_min M right_child then do {
               (k, t) \<leftarrow> remove_smallest_key M t right_id;
               Some (True, put_node t i (node\<lparr>keys := (keys node)[index := k]\<rparr>))
             } else do {
               t \<leftarrow> merge_nodes t i index left_id right_id;
               remove_loop M t left_id key
             }
           }
         }
     | Inl index \<Rightarrow>
         if is_leaf node then Some (False, t)
         else do {
           (c, t) \<leftarrow> prepare_child_for_key_removal M t i index;
           remove_loop M t c key
         }
   }"

definition btree_set_remove ::
    "nat \<Rightarrow> 'k::linorder btree_set \<Rightarrow> 'k \<Rightarrow> (bool \<times> 'k btree_set) option" where
  "btree_set_remove M t key =
     (case root t of
        None \<Rightarrow> Some (False, t)
      | Some root_id \<Rightarrow> do {
          (deleted_something, t) \<leftarrow> remove_loop M t root_id key;
          root_node \<leftarrow> get_node t root_id;
          let t = (if deleted_something then t\<lparr>len := len t - 1\<rparr> else t);
          if deleted_something \<and> len t = 0 then
            Some (True, delete_node (t\<lparr>root := None\<rparr>) root_id)
          else if keys root_node = [] then do {
            c \<leftarrow> vec_get (children root_node) 0;
            Some (deleted_something, delete_node (t\<lparr>root := Some c\<rparr>) root_id)
          } else Some (deleted_something, t)
        })"

section \<open>Iteration\<close>

text \<open>
  \<^verbatim>\<open>StateBTreeSetIter\<close>: the number of elements left, the node to descend into next, and
  the stack of nodes under iteration with the index of their next key (top of the stack
  first).
\<close>

record 'k set_iter =
  length_left :: nat
  next_node :: "node_id option"
  depth_first_stack :: "('k node \<times> nat) list"

definition btree_set_iter :: "'k btree_set \<Rightarrow> 'k set_iter" where
  "btree_set_iter t = \<lparr>length_left = unat (len t), next_node = root t, depth_first_stack = []\<rparr>"

text \<open>The \<^verbatim>\<open>while let\<close> loop: push the nodes on the way to the leftmost leaf.\<close>

partial_function (option) iter_descend ::
    "'k btree_set \<Rightarrow> 'k set_iter \<Rightarrow> 'k set_iter option" where
  "iter_descend t it =
     (case next_node it of
        None \<Rightarrow> Some it
      | Some i \<Rightarrow> do {
          node \<leftarrow> get_node t i;
          nxt \<leftarrow> (if is_leaf node then Some None else map_option Some (vec_get (children node) 0));
          iter_descend t (it\<lparr>next_node := nxt, depth_first_stack := (node, 0) # depth_first_stack it\<rparr>)
        })"

definition btree_set_iter_next ::
    "'k btree_set \<Rightarrow> 'k set_iter \<Rightarrow> ('k option \<times> 'k set_iter) option" where
  "btree_set_iter_next t it = do {
     it \<leftarrow> iter_descend t it;
     (case depth_first_stack it of
        [] \<Rightarrow> Some (None, it)
      | (node, index) # rest \<Rightarrow> do {
          key \<leftarrow> vec_get (keys node) index;
          let index = index + 1;
          let no_more_keys = (index = length (keys node));
          nxt \<leftarrow> (if is_leaf node then Some (next_node it)
                  else map_option Some (vec_get (children node) index));
          let stack = (if no_more_keys then rest else (node, index) # rest);
          if length_left it = 0 then None
          else Some (Some key, it\<lparr>length_left := length_left it - 1, next_node := nxt,
                                  depth_first_stack := stack\<rparr>)
        })
   }"

end
