(* ===== verification/BTree_Tree.thy ===== *)
theory BTree_Tree
  imports BTree_Model
begin

text \<open>
  The abstract view of the B-tree: finite trees that carry the node identifiers, the
  relation between a tree and the store that represents it, the in-order list of keys,
  the shape invariant (balance and fill), and \<open>step\<close>, the heap part of the effect every
  operation has on a subtree: what it represents afterwards, which identifiers it uses,
  and that nothing else in the store changes.
\<close>

section \<open>Trees\<close>

datatype 'k bt = BT (rid: node_id) (tkeys: "'k list") (subs: "'k bt list")

primrec ids :: "'k bt \<Rightarrow> node_id list" where
  "ids (BT i ks ts) = i # concat (map ids ts)"

fun repr :: "(node_id \<rightharpoonup> 'k node) \<Rightarrow> 'k bt \<Rightarrow> bool" where
  "repr s (BT i ks ts) \<longleftrightarrow>
     s i = Some \<lparr>keys = ks, children = map rid ts\<rparr> \<and> (\<forall>t \<in> set ts. repr s t)"

text \<open>
  Subtree contents and separators interleaved; \<open>lpart\<close> and \<open>rpart\<close> are what lies left
  and right of one subtree.
\<close>

fun ilv :: "'a list list \<Rightarrow> 'a list \<Rightarrow> 'a list" where
  "ilv [] ks = ks"
| "ilv (x # xs) [] = x @ concat xs"
| "ilv (x # xs) (k # ks) = x @ k # ilv xs ks"

definition lpart :: "'a list list \<Rightarrow> 'a list \<Rightarrow> 'a list" where
  "lpart xs ks = concat (map2 (\<lambda>x k. x @ [k]) xs ks)"

definition rpart :: "'a list \<Rightarrow> 'a list list \<Rightarrow> 'a list" where
  "rpart ks xs = concat (map2 (\<lambda>k x. k # x) ks xs)"

primrec inorder :: "'k bt \<Rightarrow> 'k list" where
  "inorder (BT i ks ts) = ilv (map inorder ts) ks"

text \<open>
  \<open>wfn m M h t\<close>: all leaves are at depth \<open>h\<close>, the root of \<open>t\<close> holds at least \<open>m\<close> keys, every
  other node at least \<open>M - 1\<close>, and no node more than \<open>2 * M - 1\<close>.
\<close>

fun wfn :: "nat \<Rightarrow> nat \<Rightarrow> nat \<Rightarrow> 'k bt \<Rightarrow> bool" where
  "wfn m M 0 (BT i ks ts) \<longleftrightarrow> ts = [] \<and> m \<le> length ks \<and> length ks \<le> 2 * M - 1"
| "wfn m M (Suc h) (BT i ks ts) \<longleftrightarrow>
     length ts = Suc (length ks) \<and> m \<le> length ks \<and> length ks \<le> 2 * M - 1 \<and>
     (\<forall>t \<in> set ts. wfn (M - 1) M h t)"

abbreviation wf_node :: "nat \<Rightarrow> nat \<Rightarrow> 'k bt \<Rightarrow> bool" where
  "wf_node M \<equiv> wfn (M - 1) M"

section \<open>Interleaving\<close>

lemma lpart_simps [simp]:
  "lpart [] ks = []" "lpart (x # xs) (k # ks) = x @ k # lpart xs ks"
  by (simp_all add: lpart_def)

lemma rpart_simps [simp]:
  "rpart [] xs = []" "rpart (k # ks) (x # xs) = k # x @ rpart ks xs"
  by (simp_all add: rpart_def)

lemma rpart_Nil2 [simp]: "rpart ks [] = []"
  by (simp add: rpart_def)

lemma lpart_snoc [simp]:
  "length xs = length ks \<Longrightarrow> lpart (xs @ [x]) (ks @ [k]) = lpart xs ks @ x @ [k]"
  by (simp add: lpart_def)

lemma ilv_first: "length xs = length ks \<Longrightarrow> ilv (x # xs) ks = x @ rpart ks xs"
proof (induction ks arbitrary: x xs)
  case Nil
  then show ?case by simp
next
  case (Cons k ks)
  then obtain y ys where "xs = y # ys" by (cases xs) auto
  with Cons show ?case by simp
qed

lemma ilv_split:
  assumes "length xs = length ps" "length ys = length qs"
  shows "ilv (xs @ x # ys) (ps @ qs) = lpart xs ps @ x @ rpart qs ys"
  using assms
proof (induction xs ps rule: list_induct2)
  case Nil
  then show ?case by (simp add: ilv_first)
next
  case (Cons z zs p ps)
  then show ?case by (cases "zs @ x # ys") auto
qed

lemma inorder_split:
  assumes "length ls = length ps" "length rs = length qs"
  shows "inorder (BT i (ps @ qs) (ls @ c # rs)) =
           lpart (map inorder ls) ps @ inorder c @ rpart qs (map inorder rs)"
  using assms by (simp add: ilv_split)

lemma inorder_leaf [simp]: "inorder (BT i ks []) = ks"
  by simp

lemma set_lpart_keys: "length xs = length ks \<Longrightarrow> set ks \<subseteq> set (lpart xs ks)"
  by (induction xs ks rule: list_induct2) auto

lemma set_rpart_keys: "length xs = length ks \<Longrightarrow> set ks \<subseteq> set (rpart ks xs)"
  by (induction xs ks rule: list_induct2) auto

lemma ascending_lpart_less:
  "length xs = length ks \<Longrightarrow> ascending (lpart xs ks) \<Longrightarrow> \<forall>k' \<in> set ks. k' < (k::'a::linorder) \<Longrightarrow>
   \<forall>x \<in> set (lpart xs ks). x < k"
proof (induction xs ks rule: list_induct2)
  case Nil
  then show ?case by simp
next
  case (Cons x xs k' ks)
  then show ?case by (fastforce simp: ascending_append)
qed

lemma ascending_rpart_greater:
  "length xs = length ks \<Longrightarrow> ascending (rpart ks xs) \<Longrightarrow> \<forall>k' \<in> set ks. (k::'a::linorder) < k' \<Longrightarrow>
   \<forall>x \<in> set (rpart ks xs). k < x"
proof (induction xs ks rule: list_induct2)
  case Nil
  then show ?case by simp
next
  case (Cons x xs k' ks)
  then have "k < k'" and "\<forall>y \<in> set x. k' < y" and "\<forall>y \<in> set (rpart ks xs). k < y"
    by (auto simp: ascending_append)
  then show ?case by (auto dest: less_trans)
qed

text \<open>The keys of a node are ascending when its in-order list is.\<close>

lemma ascending_ilv_keys:
  "length xs = Suc (length ks) \<Longrightarrow> ascending (ilv xs ks) \<Longrightarrow> ascending ks"
proof (induction ks arbitrary: xs)
  case Nil
  then show ?case by simp
next
  case (Cons k ks)
  then obtain x y ys where xs: "xs = x # y # ys"
    by (metis length_Suc_conv)
  with Cons.prems have len: "length (y # ys) = Suc (length ks)" by simp
  have "set ks \<subseteq> set (ilv (y # ys) ks)"
    using ilv_first [of ys ks y] len set_rpart_keys [of ys ks] by auto
  with Cons.IH [OF len] Cons.prems xs show ?case by (auto simp: ascending_append)
qed

section \<open>Shape\<close>

lemma wfn_mono: "wfn m M h t \<Longrightarrow> m' \<le> m \<Longrightarrow> wfn m' M h t"
  by (cases h; cases t) auto

lemma wfn_min: "wfn m M h t \<Longrightarrow> m \<le> length (tkeys t)"
  by (cases h; cases t) auto

lemma wfn_max: "wfn m M h t \<Longrightarrow> length (tkeys t) \<le> 2 * M - 1"
  by (cases h; cases t) auto

lemma wfn_raise: "wfn m M h t \<Longrightarrow> m' \<le> length (tkeys t) \<Longrightarrow> wfn m' M h t"
  by (cases h; cases t) auto

lemma wfn_leaf_iff: "wfn m M h t \<Longrightarrow> subs t = [] \<longleftrightarrow> h = 0"
  by (cases h; cases t) auto

lemma wfn_sub_len: "wfn m M (Suc h) t \<Longrightarrow> length (subs t) = Suc (length (tkeys t))"
  by (cases t) auto

lemma wfn_keys_ascending:
  "wfn m M h t \<Longrightarrow> ascending (inorder t) \<Longrightarrow> ascending (tkeys t)"
proof (cases h; cases t)
  fix h' i ks ts
  assume "wfn m M h t" "ascending (inorder t)" "h = Suc h'" "t = BT i ks ts"
  then show ?thesis using ascending_ilv_keys [of "map inorder ts" ks] by simp
qed auto

text \<open>Cutting a node at the child a key belongs to.\<close>

lemma cut_node:
  assumes "wfn m M (Suc h) (BT i ks ts)" "ks = ps @ qs"
  obtains ls c rs where "ts = ls @ c # rs" "length ls = length ps" "length rs = length qs"
proof -
  from assms have len: "length ts = Suc (length ps + length qs)" by simp
  then have lt: "length ps < length ts" by simp
  have "ts = take (length ps) ts @ ts ! length ps # drop (Suc (length ps)) ts"
    by (rule id_take_nth_drop [OF lt])
  with len show thesis
    by (intro that [of "take (length ps) ts" "ts ! length ps" "drop (Suc (length ps)) ts"]) auto
qed

lemma search_cut:
  assumes wf: "wfn m M (Suc h) (BT i ks ts)" and asc: "ascending (inorder (BT i ks ts))"
    and bs: "binary_search ks k = Inl n"
  obtains ps qs ls c rs where "ks = ps @ qs" "n = length ps" "ts = ls @ c # rs"
    "length ls = length ps" "length rs = length qs"
    "\<forall>x \<in> set (lpart (map inorder ls) ps). x < k" "\<forall>x \<in> set (rpart qs (map inorder rs)). k < x"
    "wf_node M h c" "ascending (inorder c)"
proof -
  have "ascending ks" using wfn_keys_ascending [OF wf asc] by simp
  with bs obtain ps qs where ps: "ks = ps @ qs" "length ps = n" "\<forall>x \<in> set ps. x < k" "\<forall>x \<in> set qs. k < x"
    by (rule binary_search_Inl)
  obtain ls c rs where ts: "ts = ls @ c # rs" "length ls = length ps" "length rs = length qs"
    by (rule cut_node [OF wf ps(1)])
  have io: "ascending (lpart (map inorder ls) ps @ inorder c @ rpart qs (map inorder rs))"
    using asc ts ps by (simp add: ilv_split)
  show thesis
  proof (rule that [OF ps(1) _ ts])
    show "\<forall>x \<in> set (lpart (map inorder ls) ps). x < k"
      by (rule ascending_lpart_less) (use io ts ps in \<open>simp_all add: ascending_append\<close>)
    show "\<forall>x \<in> set (rpart qs (map inorder rs)). k < x"
      by (rule ascending_rpart_greater) (use io ts ps in \<open>simp_all add: ascending_append\<close>)
  qed (use io ts ps wf in \<open>simp_all add: ascending_append\<close>)
qed

lemma wfn_keys_in_inorder: "wfn m M h t \<Longrightarrow> set (tkeys t) \<subseteq> set (inorder t)"
proof (cases h; cases t)
  fix h' i ks ts
  assume wf: "wfn m M h t" and [simp]: "h = Suc h'" "t = BT i ks ts"
  then obtain u us where "ts = u # us" "length us = length ks" by (cases ts) auto
  then show ?thesis using set_rpart_keys [of "map inorder us" ks] by (auto simp: ilv_first)
qed auto

lemma rid_in_ids [simp]: "rid t \<in> set (ids t)"
  by (cases t) simp

lemma distinct_cut:
  "distinct (i # xs @ zs @ ys) \<longleftrightarrow>
     distinct zs \<and> distinct (i # xs @ ys) \<and> set zs \<inter> set (i # xs @ ys) = {}"
  by auto

lemma distinct_ids_cut:
  "distinct (ids (BT i ks (ls @ c # rs))) \<longleftrightarrow>
     distinct (ids c) \<and> distinct (i # concat (map ids ls) @ concat (map ids rs)) \<and>
     set (ids c) \<inter> set (i # concat (map ids ls) @ concat (map ids rs)) = {}"
  using distinct_cut [of i "concat (map ids ls)" "ids c" "concat (map ids rs)"] by simp

lemma repr_ids_dom: "repr s t \<Longrightarrow> set (ids t) \<subseteq> dom s"
  by (induction s t rule: repr.induct) auto

lemma repr_frame: "repr s t \<Longrightarrow> (\<And>i. i \<in> set (ids t) \<Longrightarrow> s' i = s i) \<Longrightarrow> repr s' t"
proof (induction s t rule: repr.induct)
  case (1 s i ks ts)
  have "repr s' t" if "t \<in> set ts" for t
    using 1 that by (intro "1.IH") auto
  with 1 show ?case by auto
qed

lemma repr_root: "repr s t \<Longrightarrow> s (rid t) = Some \<lparr>keys = tkeys t, children = map rid (subs t)\<rparr>"
  by (cases t) simp

lemma get_node_repr:
  "repr (store T) t \<Longrightarrow> get_node T (rid t) = Some \<lparr>keys = tkeys t, children = map rid (subs t)\<rparr>"
  by (simp add: get_node_def repr_root)

section \<open>The effect on the store\<close>

definition fresh :: "'k btree_set \<Rightarrow> bool" where
  "fresh T \<longleftrightarrow> (\<forall>i \<in> dom (store T). i < next_node_id T)"

definition step :: "'k btree_set \<Rightarrow> 'k bt \<Rightarrow> 'k btree_set \<Rightarrow> 'k bt \<Rightarrow> bool" where
  "step T t T' t' \<longleftrightarrow>
     rid t' = rid t \<and> repr (store T') t' \<and> distinct (ids t') \<and>
     set (ids t') \<subseteq> set (ids t) \<union> {i. next_node_id T \<le> i \<and> i < next_node_id T'} \<and>
     (\<forall>i. i \<notin> set (ids t') \<longrightarrow> store T' i = (if i \<in> set (ids t) then None else store T i)) \<and>
     next_node_id T \<le> next_node_id T' \<and> root T' = root T \<and> len T' = len T"

lemma step_refl: "repr (store T) t \<Longrightarrow> distinct (ids t) \<Longrightarrow> step T t T t"
  using repr_ids_dom by (fastforce simp: step_def)

lemma step_trans:
  assumes "step T t T1 t1" "step T1 t1 T2 t2" "fresh T"
  shows "step T t T2 t2"
proof -
  have new: "store T i = None" if "i \<in> set (ids t1)" "i \<notin> set (ids t)" for i
  proof -
    have "next_node_id T \<le> i" using assms(1) that by (auto simp: step_def)
    then show ?thesis using assms(3) unfolding fresh_def by (metis domIff leD)
  qed
  have ids: "set (ids t2) \<subseteq> set (ids t) \<union> {i. next_node_id T \<le> i \<and> i < next_node_id T2}"
  proof
    fix i assume "i \<in> set (ids t2)"
    then consider "i \<in> set (ids t1)" | "next_node_id T1 \<le> i" "i < next_node_id T2"
      using assms(2) by (auto simp: step_def)
    then show "i \<in> set (ids t) \<union> {i. next_node_id T \<le> i \<and> i < next_node_id T2}"
    proof cases
      case 1
      then have "i \<in> set (ids t) \<or> (next_node_id T \<le> i \<and> i < next_node_id T1)"
        using assms(1) by (auto simp: step_def)
      then show ?thesis using assms(2) by (auto simp: step_def)
    next
      case 2
      then show ?thesis using assms(1) by (auto simp: step_def)
    qed
  qed
  have st: "store T2 i = (if i \<in> set (ids t) then None else store T i)"
    if "i \<notin> set (ids t2)" for i
    using assms(1,2) that new [of i] unfolding step_def by metis
  show ?thesis using assms(1,2) ids st unfolding step_def by auto
qed

lemma step_fresh:
  assumes "step T t T' t'" "fresh T" "repr (store T) t"
  shows "fresh T'"
proof -
  have "i < next_node_id T'" if "store T' i = Some n" for i n
  proof (cases "i \<in> set (ids t')")
    case True
    then have "i \<in> set (ids t) \<or> i < next_node_id T'"
      using assms(1) by (auto simp: step_def)
    moreover have "i \<in> set (ids t) \<Longrightarrow> i < next_node_id T"
      using assms(2,3) repr_ids_dom by (fastforce simp: fresh_def)
    ultimately show ?thesis using assms(1) by (auto simp: step_def)
  next
    case False
    then have "store T i = Some n" using assms(1) that by (auto simp: step_def split: if_splits)
    then have "i < next_node_id T" using assms(2) by (auto simp: fresh_def)
    then show ?thesis using assms(1) by (auto simp: step_def)
  qed
  then show ?thesis by (auto simp: fresh_def)
qed

text \<open>A step on one child is a step on its parent.\<close>

lemma step_child:
  assumes "step T c T' c'" and rep: "repr (store T) (BT i ks (ls @ c # rs))"
    and dist: "distinct (ids (BT i ks (ls @ c # rs)))" and "fresh T"
  shows "step T (BT i ks (ls @ c # rs)) T' (BT i ks (ls @ c' # rs))"
proof -
  let ?t = "BT i ks (ls @ c # rs)" and ?t' = "BT i ks (ls @ c' # rs)"
  let ?out = "{i} \<union> (\<Union>t \<in> set ls \<union> set rs. set (ids t))"
  have old: "j < next_node_id T" if "j \<in> set (ids ?t)" for j
    using repr_ids_dom [OF rep] assms(4) that by (fastforce simp: fresh_def)
  have out_c: "j \<notin> set (ids c)" if "j \<in> ?out" for j
    using dist that by auto
  have out_c': "j \<notin> set (ids c')" if "j \<in> ?out" for j
  proof
    assume "j \<in> set (ids c')"
    then have "j \<in> set (ids c) \<or> next_node_id T \<le> j" using assms(1) by (auto simp: step_def)
    moreover have "j < next_node_id T" using old that by auto
    ultimately show False using out_c that by auto
  qed
  have same: "store T' j = store T j" if "j \<in> ?out" for j
    using assms(1) out_c out_c' that by (auto simp: step_def)
  have reps: "repr (store T') t" if "t \<in> set ls \<union> set rs" for t
  proof (rule repr_frame [of "store T"])
    show "repr (store T) t" using rep that by auto
    show "store T' j = store T j" if "j \<in> set (ids t)" for j
      using \<open>t \<in> set ls \<union> set rs\<close> that by (intro same) auto
  qed
  have "repr (store T') ?t'"
    using assms(1) rep reps same [of i] by (auto simp: step_def)
  moreover have "distinct (ids ?t')"
  proof -
    have "distinct (ids c')" using assms(1) by (simp add: step_def)
    moreover have "set (ids c') \<inter> set (i # concat (map ids ls) @ concat (map ids rs)) = {}"
      using out_c' by auto
    ultimately show ?thesis using dist unfolding distinct_ids_cut by simp
  qed
  moreover have "set (ids ?t') \<subseteq> set (ids ?t) \<union> {i. next_node_id T \<le> i \<and> i < next_node_id T'}"
    using assms(1) by (auto simp: step_def)
  moreover have "store T' j = (if j \<in> set (ids ?t) then None else store T j)"
    if "j \<notin> set (ids ?t')" for j
    using assms(1) that by (auto simp: step_def)
  ultimately show ?thesis using assms(1) by (simp add: step_def)
qed

lemma step_same_parent:
  assumes "step T t T' t'" "rid t = i" "repr (store T) t" "distinct (ids t)"
  shows "repr (store T') t'" "distinct (ids t')" "rid t' = i"
  using assms by (auto simp: step_def)

lemma repr_upd [simp]: "j \<notin> set (ids t) \<Longrightarrow> repr (s(j := x)) t \<longleftrightarrow> repr s t"
proof
  assume j: "j \<notin> set (ids t)" and r: "repr (s(j := x)) t"
  show "repr s t" by (rule repr_frame [OF r]) (use j in auto)
next
  assume j: "j \<notin> set (ids t)" and r: "repr s t"
  show "repr (s(j := x)) t" by (rule repr_frame [OF r]) (use j in auto)
qed

lemma put_node_simps [simp]:
  "store (put_node T i n) = (store T)(i \<mapsto> n)" "next_node_id (put_node T i n) = next_node_id T"
  "root (put_node T i n) = root T" "len (put_node T i n) = len T"
  by (simp_all add: put_node_def)

lemma delete_node_simps [simp]:
  "store (delete_node T i) = (store T)(i := None)" "next_node_id (delete_node T i) = next_node_id T"
  "root (delete_node T i) = root T" "len (delete_node T i) = len T"
  by (simp_all add: delete_node_def)

lemma get_node_simps [simp]:
  "get_node (put_node T i n) j = (if j = i then Some n else get_node T j)"
  "get_node (T\<lparr>next_node_id := nx\<rparr>) j = get_node T j"
  "get_node (T\<lparr>root := r\<rparr>) j = get_node T j"
  "get_node (T\<lparr>len := l\<rparr>) j = get_node T j"
  by (simp_all add: get_node_def)

lemma step_dom: "step T t T' t' \<Longrightarrow> dom (store T) = set (ids t) \<Longrightarrow> dom (store T') = set (ids t')"
proof
  assume st: "step T t T' t'" and d: "dom (store T) = set (ids t)"
  show "dom (store T') \<subseteq> set (ids t')"
  proof
    fix i assume "i \<in> dom (store T')"
    then show "i \<in> set (ids t')" using st d unfolding step_def by (metis domIff)
  qed
  show "set (ids t') \<subseteq> dom (store T')" using st repr_ids_dom by (auto simp: step_def)
qed

section \<open>The invariant of the set and its abstraction\<close>

text \<open>The abstract value of a set: every key of every node in its store.\<close>

definition elements :: "'k btree_set \<Rightarrow> 'k set" where
  "elements T = (\<Union>n \<in> ran (store T). set (keys n))"

text \<open>
  What \<^verbatim>\<open>check_invariants\<close> of the sources tests, and what it cannot see: the nodes form one
  balanced tree under the root with no node left over in the store, each node but the root
  holds between \<open>M - 1\<close> and \<open>2 * M - 1\<close> keys, the in-order keys ascend strictly, \<^verbatim>\<open>len\<close> counts
  them, and every identifier in use is below \<^verbatim>\<open>next_node_id\<close>.
\<close>

definition tree_of :: "nat \<Rightarrow> 'k::linorder btree_set \<Rightarrow> nat \<Rightarrow> 'k bt \<Rightarrow> bool" where
  "tree_of M T h t \<longleftrightarrow> repr (store T) t \<and> distinct (ids t) \<and> dom (store T) = set (ids t) \<and>
     wfn 1 M h t \<and> ascending (inorder t) \<and> unat (len T) = length (inorder t)"

definition btree_inv :: "nat \<Rightarrow> 'k::linorder btree_set \<Rightarrow> bool" where
  "btree_inv M T \<longleftrightarrow> fresh T \<and>
     (case root T of
        None \<Rightarrow> store T = Map.empty \<and> len T = 0
      | Some r \<Rightarrow> \<exists>h t. rid t = r \<and> tree_of M T h t)"

lemma btree_invI: "fresh T \<Longrightarrow> root T = Some (rid t) \<Longrightarrow> tree_of M T h t \<Longrightarrow> btree_inv M T"
  by (auto simp: btree_inv_def)

lemma btree_invE:
  assumes "btree_inv M T" "root T = Some r"
  obtains h t where "r = rid t" "tree_of M T h t" "fresh T"
  using assms by (auto simp: btree_inv_def)

lemma set_ilv: "length xs = Suc (length ks) \<Longrightarrow> set (ilv xs ks) = set ks \<union> (\<Union>x \<in> set xs. set x)"
proof (induction ks arbitrary: xs)
  case Nil
  then show ?case by (cases xs) auto
next
  case (Cons k ks)
  then obtain x xs' where "xs = x # xs'" "length xs' = Suc (length ks)" by (cases xs) auto
  with Cons.IH [of xs'] show ?case by auto
qed

lemma set_inorder_keys:
  "repr s t \<Longrightarrow> wfn m M h t \<Longrightarrow> set (inorder t) = (\<Union>i \<in> set (ids t). set (keys (the (s i))))"
proof (induction h arbitrary: m t)
  case 0
  then show ?case by (cases t) auto
next
  case (Suc h)
  obtain i ks ts where t: "t = BT i ks ts" by (cases t)
  have "set (inorder u) = (\<Union>i \<in> set (ids u). set (keys (the (s i))))" if "u \<in> set ts" for u
    using Suc.prems t that by (intro Suc.IH) auto
  then have "(\<Union>u \<in> set ts. set (inorder u)) = (\<Union>u \<in> set ts. \<Union>i \<in> set (ids u). set (keys (the (s i))))"
    by (rule SUP_cong [OF refl])
  then show ?case using Suc.prems t by (simp add: set_ilv)
qed

lemma elements_tree:
  assumes "tree_of M T h t"
  shows "elements T = set (inorder t)"
proof -
  have "ran (store T) = (\<lambda>i. the (store T i)) ` dom (store T)"
    by (force simp: ran_def dom_def)
  then show ?thesis
    using assms set_inorder_keys [of "store T" t 1 M h] by (simp add: elements_def tree_of_def)
qed

lemma btree_inv_emptyI: "btree_inv M (btree_set_new :: 'k::linorder btree_set)"
  by (simp add: btree_inv_def btree_set_new_def fresh_def)

lemma elements_empty: "store T = Map.empty \<Longrightarrow> elements T = {}"
  by (simp add: elements_def)

lemma tree_of_card: "tree_of M T h t \<Longrightarrow> card (elements T) = unat (len T)"
  using elements_tree [of M T h t] by (auto simp: tree_of_def distinct_card strict_sorted_iff)

text \<open>The height is logarithmic, so that a set whose size fits in 32 bits has height at most 31.\<close>

lemma length_ilv: "length xs = Suc (length ks) \<Longrightarrow> length (ilv xs ks) = length ks + sum_list (map length xs)"
proof (induction ks arbitrary: xs)
  case Nil
  then show ?case by (cases xs) auto
next
  case (Cons k ks)
  then obtain x xs' where "xs = x # xs'" "length xs' = Suc (length ks)" by (cases xs) auto
  with Cons.IH [of xs'] show ?case by auto
qed

lemma sum_list_ge: "(\<And>x. x \<in> set xs \<Longrightarrow> n \<le> f x) \<Longrightarrow> length xs * n \<le> sum_list (map f xs)" for n :: nat
  by (induction xs) (auto simp: add_mono)

lemma height_log:
  assumes "wfn m M h t" "1 \<le> m" "2 \<le> M"
  shows "2 ^ Suc h \<le> Suc (length (inorder t))"
  using assms
proof (induction h arbitrary: m t)
  case 0
  then show ?case by (cases t) auto
next
  case (Suc h)
  obtain i ks ts where t: "t = BT i ks ts" by (cases t)
  have "2 ^ Suc h - 1 \<le> length (inorder u)" if "u \<in> set ts" for u
  proof -
    have "wfn (M - 1) M h u" "1 \<le> M - 1" using Suc.prems t that by auto
    then have "2 ^ Suc h \<le> Suc (length (inorder u))" using Suc.IH Suc.prems(3) by blast
    then show ?thesis by simp
  qed
  then have "length ts * (2 ^ Suc h - 1) \<le> sum_list (map (\<lambda>u. length (inorder u)) ts)"
    by (rule sum_list_ge)
  moreover have "2 * (2 ^ Suc h - 1) \<le> length ts * (2 ^ Suc h - 1 :: nat)"
    using Suc.prems t by (intro mult_le_mono1) auto
  ultimately have "2 * (2 ^ Suc h - 1) \<le> sum_list (map (\<lambda>u. length (inorder u)) ts)"
    by (rule order_trans [rotated])
  moreover have "1 \<le> length ks" "(1::nat) \<le> 2 ^ Suc h" using Suc.prems t by auto
  ultimately have "2 ^ Suc (Suc h) \<le> Suc (length ks + sum_list (map (\<lambda>u. length (inorder u)) ts))"
    by (simp only: power_Suc)
  then show ?case using Suc.prems t by (simp add: length_ilv comp_def)
qed

lemma tree_of_height:
  assumes "tree_of M T h t" "2 \<le> M"
  shows "h \<le> 31"
proof -
  have "2 ^ Suc h \<le> Suc (unat (len T))"
    using height_log [of 1 M h t] assms by (simp add: tree_of_def)
  also have "\<dots> \<le> 2 ^ 32" using unsigned_less [of "len T", where 'a = nat] by simp
  finally have "(2::nat) ^ Suc h \<le> 2 ^ 32" .
  then have "Suc h \<le> 32" by (rule power_le_imp_le_exp [rotated]) simp
  then show ?thesis by simp
qed

end
