(* ===== verification/BTree_Insert.thy ===== *)
theory BTree_Insert
  imports BTree_Tree
begin

text \<open>
  Insertion into the B-tree: splitting a full child, the descent \<open>insert_non_full\<close>, and the
  growth of the root. Each lemma gives the tree that the store represents afterwards.
\<close>

section \<open>Splitting a full child\<close>

lemma full_node_cut:
  assumes wf: "wf_node M h (BT j ks ts)" and full: "length ks = 2 * M - 1" and M: "2 \<le> M"
  obtains kl m kr tl tr where "ks = kl @ m # kr" "ts = tl @ tr"
    "length kl = M - 1" "length kr = M - 1"
    "if h = 0 then ts = [] else length tl = M \<and> length tr = M"
proof -
  have lt: "M - 1 < length ks" using full M by simp
  let ?kl = "take (M - 1) ks" and ?m = "ks ! (M - 1)" and ?kr = "drop (Suc (M - 1)) ks"
  have ks: "ks = ?kl @ ?m # ?kr" by (rule id_take_nth_drop [OF lt])
  have lens: "length ?kl = M - 1" "length ?kr = M - 1" using full M by auto
  show thesis
  proof (cases h)
    case 0
    then show ?thesis using that [OF ks, of "[]" "[]"] lens wf by simp
  next
    case (Suc h')
    then have "length ts = 2 * M" using wf full M by simp
    then show ?thesis using that [OF ks, of "take M ts" "drop M ts"] lens Suc by simp
  qed
qed

lemma ilv_append:
  assumes "length xs = Suc (length ks)" "length ys = Suc (length js)"
  shows "ilv (xs @ ys) (ks @ m # js) = ilv xs ks @ m # ilv ys js"
  using assms
proof (induction ks arbitrary: xs)
  case Nil
  then show ?case by (cases xs) auto
next
  case (Cons k ks)
  then obtain x xs' where "xs = x # xs'" "length xs' = Suc (length ks)" by (cases xs) auto
  with Cons show ?case by simp
qed

lemma split_child_correct:
  assumes rep: "repr (store T) (BT i (ps @ qs) (ls @ c # rs))" and len: "length ls = length ps"
    and dist: "distinct (ids (BT i (ps @ qs) (ls @ c # rs)))" and fr: "fresh T"
    and cap: "next_node_id T < next_node_id T + 1"
    and wf: "wf_node M h c" and full: "length (tkeys c) = 2 * M - 1" and M: "2 \<le> M"
  obtains l m r T1 where
    "split_child M T i (length ps) (rid c) = Some (rid r, T1)"
    "step T (BT i (ps @ qs) (ls @ c # rs)) T1 (BT i (ps @ m # qs) (ls @ l # r # rs))"
    "next_node_id T1 = next_node_id T + 1" "inorder c = inorder l @ m # inorder r"
    "wf_node M h l" "wf_node M h r" "rid l = rid c"
    "length (tkeys l) = M - 1" "length (tkeys r) = M - 1" "m \<in> set (tkeys c)"
proof -
  obtain j ks ts where c: "c = BT j ks ts" by (cases c)
  obtain kl m kr tl tr where cut: "ks = kl @ m # kr" "ts = tl @ tr"
    "length kl = M - 1" "length kr = M - 1"
    "if h = 0 then ts = [] else length tl = M \<and> length tr = M"
  proof -
    have "wf_node M h (BT j ks ts)" "length ks = 2 * M - 1" using wf full c by auto
    then show thesis by (rule full_node_cut [OF _ _ M]) (rule that)
  qed
  let ?nx = "next_node_id T"
  let ?l = "BT j kl tl" and ?r = "BT ?nx kr tr"
  let ?t = "BT i (ps @ qs) (ls @ c # rs)" and ?t' = "BT i (ps @ m # qs) (ls @ ?l # ?r # rs)"
  have old: "a \<noteq> ?nx" if "a \<in> set (ids ?t)" for a
    using repr_ids_dom [OF rep] fr that by (fastforce simp: fresh_def)
  have nxt: "?nx \<notin> set (ids ?t)" using old by blast
  let ?T1 = "put_node (put_node (snd (create_node T kr (map rid tr))) j
      \<lparr>keys = kl, children = map rid tl\<rparr>) i
      \<lparr>keys = ps @ m # qs, children = map rid (ls @ ?l # ?r # rs)\<rparr>"
  have nodes: "get_node T i = Some \<lparr>keys = ps @ qs, children = map rid (ls @ c # rs)\<rparr>"
    "get_node T j = Some \<lparr>keys = ks, children = map rid ts\<rparr>"
    using rep c by (auto simp: get_node_def)
  have ne: "i \<noteq> j" "i \<noteq> ?nx" "j \<noteq> ?nx" using dist old c by auto
  have split_keys: "vec_split_off (MINIMUM_KEY_LEN M + 1) ks = Some (kl @ [m], kr)"
    using cut M by (simp add: vec_split_off_def MINIMUM_KEY_LEN_def)
  have split_children: "ts = [] \<Longrightarrow> tl = [] \<and> tr = []"
    "ts \<noteq> [] \<Longrightarrow> vec_split_off (Suc (MINIMUM_KEY_LEN M)) (map rid ts) = Some (map rid tl, map rid tr)"
    using cut M by (auto simp: vec_split_off_def MINIMUM_KEY_LEN_def split: if_splits)
  have ins: "vec_insert (Suc (length ps)) ?nx (map rid (ls @ c # rs)) =
      Some (map rid (ls @ ?l # ?r # rs))"
    using len c by (simp add: vec_insert_def)
  have ex: "split_child M T i (length ps) (rid c) = Some (rid ?r, ?T1)"
    using nodes split_keys split_children ins c len
    by (cases "ts = []") (simp_all add: split_child_def create_node_def fetch_and_add_def
        vec_pop_snoc vec_insert_mid is_leaf_def)
  have dsub: "distinct (concat (map ids ls) @ ids c @ concat (map ids rs))"
    "i \<notin> set (concat (map ids ls) @ ids c @ concat (map ids rs))" using dist by auto
  have ids': "ids ?t' = i # concat (map ids ls) @ (j # concat (map ids tl)) @
      (?nx # concat (map ids tr)) @ concat (map ids rs)" by simp
  have idc: "ids c = j # concat (map ids tl) @ concat (map ids tr)" using c cut by simp
  have dist': "distinct (ids ?t')"
    unfolding ids' using dsub idc nxt by auto
  have rep1: "repr (store ?T1) ?t'"
  proof -
    have sub: "repr (store ?T1) t" if t: "t \<in> set ls \<union> set rs \<union> set ts" for t
    proof -
      have "repr (store T) t" using rep t c by auto
      moreover have "set (ids t) \<subseteq> set (ids ?t)" using t c by auto
      moreover have "i \<notin> set (ids t)" "j \<notin> set (ids t)" using dist t c by auto
      moreover have "?nx \<notin> set (ids t)" using nxt calculation(2) by blast
      ultimately show ?thesis by (simp add: create_node_def fetch_and_add_def)
    qed
    then show ?thesis using ne cut by (auto simp: create_node_def fetch_and_add_def)
  qed
  have "step T ?t ?T1 ?t'"
    unfolding step_def
  proof (intro conjI allI impI)
    show "set (ids ?t') \<subseteq> set (ids ?t) \<union> {i. next_node_id T \<le> i \<and> i < next_node_id ?T1}"
      unfolding ids' using idc cap by (auto simp: create_node_def fetch_and_add_def)
    fix a assume "a \<notin> set (ids ?t')"
    then have "a \<notin> set (ids ?t)" "a \<noteq> i" "a \<noteq> j" "a \<noteq> ?nx" using idc by auto
    then show "store ?T1 a = (if a \<in> set (ids ?t) then None else store T a)"
      by (simp add: create_node_def fetch_and_add_def)
  qed (use dist' rep1 cap in \<open>auto simp: create_node_def fetch_and_add_def\<close>)
  moreover have "inorder c = inorder ?l @ m # inorder ?r"
    using c cut wf M by (cases h) (auto simp: ilv_append)
  moreover have "wf_node M h ?l" "wf_node M h ?r"
    using c cut wf M by (cases h; auto)+
  ultimately show thesis
    using ex cut c by (intro that [of ?r ?T1 m ?l]) (auto simp: create_node_def fetch_and_add_def)
qed

section \<open>Inserting into a subtree whose root is not full\<close>

lemma insert_non_full_leaf:
  assumes "repr (store T) (BT i ks [])" "binary_search ks k = Inl (length ps)" "ks = ps @ qs"
  shows "insert_non_full M T i k =
    Some (True, put_node T i \<lparr>keys = ps @ k # qs, children = []\<rparr>)"
  using assms
  by (subst insert_non_full.simps) (simp add: get_node_def is_leaf_def vec_insert_mid)

lemma step_leaf_keys:
  assumes "repr (store T) (BT i ks ts)" "distinct (ids (BT i ks ts))"
  shows "step T (BT i ks ts) (put_node T i \<lparr>keys = ks', children = map rid ts\<rparr>) (BT i ks' ts)"
proof -
  have "repr (store (put_node T i \<lparr>keys = ks', children = map rid ts\<rparr>)) t" if "t \<in> set ts" for t
    using assms that by simp
  then show ?thesis using assms repr_ids_dom [OF assms(1)] by (auto simp: step_def)
qed

lemma insert_non_full_found:
  assumes "repr (store T) t" "binary_search (tkeys t) k = Inr n"
  shows "insert_non_full M T (rid t) k = Some (False, T)"
  using assms by (subst insert_non_full.simps) (simp add: get_node_repr)

lemma insert_non_full_correct:
  assumes "repr (store T) t" "distinct (ids t)" "fresh T" "wfn m M h t" "2 \<le> M"
    "length (tkeys t) < 2 * M - 1" "ascending (inorder t)" "unat (next_node_id T) + h < 2 ^ 64"
  shows "\<exists>T' t'. insert_non_full M T (rid t) k = Some (k \<notin> set (inorder t), T') \<and>
    step T t T' t' \<and> wfn m M h t' \<and> ascending (inorder t') \<and>
    set (inorder t') = insert k (set (inorder t)) \<and>
    unat (next_node_id T') \<le> unat (next_node_id T) + h"
  using assms
proof (induction h arbitrary: T t m)
  case 0
  obtain i ks where t: "t = BT i ks []" using "0.prems"(4) by (cases t) auto
  show ?case
  proof (cases "binary_search ks k")
    case (Inr n)
    then show ?thesis
      using "0.prems" insert_non_full_found [of T t k n M] t step_refl [of T t]
      by (intro exI [of _ T] exI [of _ t]) (auto elim!: binary_search_Inr)
  next
    case (Inl n)
    then obtain ps qs where cut: "ks = ps @ qs" "length ps = n" "\<forall>x \<in> set ps. x < k" "\<forall>x \<in> set qs. k < x"
      using "0.prems"(7) t by (auto elim: binary_search_Inl)
    have "insert_non_full M T (rid t) k =
        Some (True, put_node T i \<lparr>keys = ps @ k # qs, children = []\<rparr>)"
      using insert_non_full_leaf [of T i ks k ps qs M] "0.prems"(1) Inl cut t by simp
    moreover have "step T t (put_node T i \<lparr>keys = ps @ k # qs, children = []\<rparr>) (BT i (ps @ k # qs) [])"
      using step_leaf_keys [of T i ks "[]" "ps @ k # qs"] "0.prems"(1,2) t by simp
    moreover have "k \<notin> set (inorder t)" using cut t by auto
    ultimately show ?thesis using "0.prems" cut t
      by (intro exI [of _ "put_node T i \<lparr>keys = ps @ k # qs, children = []\<rparr>"]
          exI [of _ "BT i (ps @ k # qs) []"]) (auto simp: ascending_append)
  qed
next
  case (Suc h)
  obtain i ks ts where t: "t = BT i ks ts" by (cases t)
  show ?case
  proof (cases "binary_search ks k")
    case (Inr n)
    then have "k \<in> set (inorder t)"
      using wfn_keys_in_inorder [OF Suc.prems(4)] t by (auto elim!: binary_search_Inr)
    with Inr show ?thesis
      using Suc.prems insert_non_full_found [of T t k n M] t step_refl [of T t]
      by (intro exI [of _ T] exI [of _ t]) (auto simp del: inorder.simps)
  next
    case (Inl n)
    obtain ps qs ls c rs where cut: "ks = ps @ qs" "n = length ps" "ts = ls @ c # rs"
      "length ls = length ps" "length rs = length qs"
      "\<forall>x \<in> set (lpart (map inorder ls) ps). x < k" "\<forall>x \<in> set (rpart qs (map inorder rs)). k < x"
      "wf_node M h c" "ascending (inorder c)"
      using search_cut [of m M h i ks ts k n] Suc.prems(4,7) Inl t by blast
    note rep = Suc.prems(1) [unfolded t cut(1,3)] and dist = Suc.prems(2) [unfolded t cut(1,3)]
    have io: "inorder (BT i (ps @ qs) (ls @ c' # rs)) =
        lpart (map inorder ls) ps @ inorder c' @ rpart qs (map inorder rs)" for c'
      using cut by (simp add: ilv_split)
    have mem: "k \<in> set (inorder t) \<longleftrightarrow> k \<in> set (inorder c)"
      unfolding t cut(1,3) io using cut(6,7) by auto
    have node: "get_node T i = Some \<lparr>keys = ks, children = map rid ts\<rparr>"
      "get_node T (rid c) = Some \<lparr>keys = tkeys c, children = map rid (subs c)\<rparr>"
      using rep cut by (auto simp: get_node_def repr_root)
    have repc: "repr (store T) c" and distc: "distinct (ids c)"
      using rep dist by (auto simp: distinct_ids_cut)
    show ?thesis
    proof (cases "length (tkeys c) = 2 * M - 1")
      case False
      then have small: "length (tkeys c) < 2 * M - 1" using wfn_max [OF cut(8)] by simp
      obtain T' c' where IH: "insert_non_full M T (rid c) k = Some (k \<notin> set (inorder c), T')"
        "step T c T' c'" "wf_node M h c'" "ascending (inorder c')"
        "set (inorder c') = insert k (set (inorder c))"
        "unat (next_node_id T') \<le> unat (next_node_id T) + h"
        using Suc.IH [OF repc distc Suc.prems(3) cut(8) Suc.prems(5) small cut(9)] Suc.prems(8) by auto
      have "insert_non_full M T (rid t) k = Some (k \<notin> set (inorder t), T')"
        using node Inl False IH(1) cut t mem
        by (subst insert_non_full.simps)
          (simp add: is_leaf_def is_full_def MAXIMUM_KEY_LEN_def vec_get_def nth_append)
      moreover have "step T t T' (BT i ks (ls @ c' # rs))"
        unfolding t cut(1,3) by (rule step_child [OF IH(2) rep dist Suc.prems(3)])
      moreover have "wfn m M (Suc h) (BT i ks (ls @ c' # rs))"
        using Suc.prems(4) IH(3) t cut by auto
      moreover have "ascending (inorder (BT i ks (ls @ c' # rs))) \<and>
          set (inorder (BT i ks (ls @ c' # rs))) = insert k (set (inorder t))"
        using Suc.prems(7) IH(4,5) cut(6,7) unfolding t cut(1,3) io by (auto simp: ascending_append)
      moreover have "unat (next_node_id T') \<le> unat (next_node_id T) + Suc h" using IH(6) by simp
      ultimately show ?thesis by blast
    next
      case True
      have cap: "next_node_id T < next_node_id T + 1" using unat_succ_cap Suc.prems(8) by blast
      obtain l mk r T1 where sp: "split_child M T i (length ps) (rid c) = Some (rid r, T1)"
        "step T (BT i (ps @ qs) (ls @ c # rs)) T1 (BT i (ps @ mk # qs) (ls @ l # r # rs))"
        "next_node_id T1 = next_node_id T + 1" "inorder c = inorder l @ mk # inorder r"
        "wf_node M h l" "wf_node M h r" "rid l = rid c"
        "length (tkeys l) = M - 1" "length (tkeys r) = M - 1" "mk \<in> set (tkeys c)"
        by (rule split_child_correct [OF rep cut(4) dist Suc.prems(3) cap cut(8) True Suc.prems(5)])
      let ?t1 = "BT i (ps @ mk # qs) (ls @ l # r # rs)"
      have len1: "length (ps @ mk # qs) \<le> 2 * M - 1" "m \<le> length (ps @ mk # qs)"
        using Suc.prems(4,6) t cut by auto
      have io1: "inorder (BT i (ps @ mk # qs) (ls @ l' # r' # rs)) =
          lpart (map inorder ls) ps @ (inorder l' @ mk # inorder r') @ rpart qs (map inorder rs)" for l' r'
        using ilv_split [of "map inorder ls" ps "inorder r' # map inorder rs" "mk # qs" "inorder l'"]
          cut by simp
      have rep1: "repr (store T1) ?t1" and dist1: "distinct (ids ?t1)" using sp(2) by (auto simp: step_def)
      have fresh1: "fresh T1" by (rule step_fresh [OF sp(2) Suc.prems(3) rep])
      have node1: "get_node T1 i = Some \<lparr>keys = ps @ mk # qs, children = map rid (ls @ l # r # rs)\<rparr>"
        using rep1 by (simp add: get_node_def)
      have run: "insert_non_full M T (rid t) k =
          (if mk = k then Some (False, T1) else if mk < k then insert_non_full M T1 (rid r) k
           else insert_non_full M T1 (rid c) k)"
        using node node1 Inl True sp(1) cut t
        by (subst insert_non_full.simps)
          (simp add: is_leaf_def is_full_def MAXIMUM_KEY_LEN_def vec_get_def nth_append)
      have wfs: "\<forall>t \<in> set ls \<union> set rs. wf_node M h t" using Suc.prems(4) t cut by auto
      have lens1: "length (ls @ l' # r' # rs) = Suc (length (ps @ mk # qs))" for l' r'
        using cut by simp
      have asc: "ascending (inorder l @ mk # inorder r)" using cut(9) sp(4) by simp
      have u1: "unat (next_node_id T1) = unat (next_node_id T) + 1"
        "unat (next_node_id T1) + h < 2 ^ 64"
        using unat_succ_cap [OF Suc.prems(8)] sp(3) by auto
      consider "mk = k" | "mk < k" | "k < mk" by fastforce
      then show ?thesis
      proof cases
        case 1
        have "insert_non_full M T (rid t) k = Some (k \<notin> set (inorder t), T1)"
          using run 1 mem sp(4) by simp
        moreover have "step T t T1 ?t1" using sp(2) t cut(1,3) by simp
        moreover have "wfn m M (Suc h) ?t1" using len1 lens1 wfs sp(5,6) by auto
        moreover have "ascending (inorder ?t1) \<and> set (inorder ?t1) = insert k (set (inorder t))"
          using Suc.prems(7) sp(4) 1 unfolding t cut(1,3) io io1 by auto
        moreover have "unat (next_node_id T1) \<le> unat (next_node_id T) + Suc h" using u1(1) by simp
        ultimately show ?thesis by blast
      next
        case 2
        have small: "length (tkeys r) < 2 * M - 1" using sp(9) Suc.prems(5) by simp
        have repr1: "repr (store T1) r" "distinct (ids r)"
          using rep1 dist1 by (auto simp: distinct_ids_cut [of i _ "ls @ [l]" r rs, simplified])
        have ascr: "ascending (inorder r)" using asc by (auto simp: ascending_append)
        obtain T' r' where IH: "insert_non_full M T1 (rid r) k = Some (k \<notin> set (inorder r), T')"
          "step T1 r T' r'" "wf_node M h r'" "ascending (inorder r')"
          "set (inorder r') = insert k (set (inorder r))"
          "unat (next_node_id T') \<le> unat (next_node_id T1) + h"
          using Suc.IH [OF repr1 fresh1 sp(6) Suc.prems(5) small ascr u1(2)] by auto
        have "step T1 (BT i (ps @ mk # qs) ((ls @ [l]) @ r # rs)) T' (BT i (ps @ mk # qs) ((ls @ [l]) @ r' # rs))"
          by (rule step_child [OF IH(2) _ _ fresh1]) (use rep1 dist1 in simp_all)
        then have st: "step T t T' (BT i (ps @ mk # qs) (ls @ l # r' # rs))"
          using step_trans [OF sp(2) _ Suc.prems(3)] t cut(1,3) by simp
        have "k \<in> set (inorder c) \<longleftrightarrow> k \<in> set (inorder r)"
          using 2 asc sp(4) by (auto simp: ascending_append)
        then have "insert_non_full M T (rid t) k = Some (k \<notin> set (inorder t), T')"
          using run 2 IH(1) mem by auto
        moreover have "wfn m M (Suc h) (BT i (ps @ mk # qs) (ls @ l # r' # rs))"
          using len1 lens1 wfs sp(5) IH(3) by auto
        moreover have "ascending (inorder (BT i (ps @ mk # qs) (ls @ l # r' # rs))) \<and>
            set (inorder (BT i (ps @ mk # qs) (ls @ l # r' # rs))) = insert k (set (inorder t))"
          using Suc.prems(7) sp(4) IH(4,5) cut(6,7) 2 unfolding t cut(1,3) io io1
          by (auto simp: ascending_append)
        moreover have "unat (next_node_id T') \<le> unat (next_node_id T) + Suc h" using IH(6) u1(1) by simp
        ultimately show ?thesis using st by blast
      next
        case 3
        have small: "length (tkeys l) < 2 * M - 1" using sp(8) Suc.prems(5) by simp
        have repr1: "repr (store T1) l" "distinct (ids l)"
          using rep1 dist1 by (auto simp: distinct_ids_cut)
        have ascl: "ascending (inorder l)" using asc by (auto simp: ascending_append)
        obtain T' l' where IH: "insert_non_full M T1 (rid l) k = Some (k \<notin> set (inorder l), T')"
          "step T1 l T' l'" "wf_node M h l'" "ascending (inorder l')"
          "set (inorder l') = insert k (set (inorder l))"
          "unat (next_node_id T') \<le> unat (next_node_id T1) + h"
          using Suc.IH [OF repr1 fresh1 sp(5) Suc.prems(5) small ascl u1(2)] by auto
        have "step T1 ?t1 T' (BT i (ps @ mk # qs) (ls @ l' # r # rs))"
          by (rule step_child [OF IH(2) rep1 dist1 fresh1])
        then have st: "step T t T' (BT i (ps @ mk # qs) (ls @ l' # r # rs))"
          using step_trans [OF sp(2) _ Suc.prems(3)] t cut(1,3) by simp
        have "k \<in> set (inorder c) \<longleftrightarrow> k \<in> set (inorder l)"
          using 3 asc sp(4) by (auto simp: ascending_append)
        then have "insert_non_full M T (rid t) k = Some (k \<notin> set (inorder t), T')"
          using run 3 IH(1) mem sp(7) by auto
        moreover have "wfn m M (Suc h) (BT i (ps @ mk # qs) (ls @ l' # r # rs))"
          using len1 lens1 wfs sp(6) IH(3) by auto
        moreover have "\<forall>x \<in> set (inorder r). k < x"
          using asc 3 by (fastforce simp: ascending_append)
        then have "ascending (inorder (BT i (ps @ mk # qs) (ls @ l' # r # rs))) \<and>
            set (inorder (BT i (ps @ mk # qs) (ls @ l' # r # rs))) = insert k (set (inorder t))"
          using Suc.prems(7) sp(4) IH(4,5) cut(6,7) 3 unfolding t cut(1,3) io io1
          by (auto simp: ascending_append)
        moreover have "unat (next_node_id T') \<le> unat (next_node_id T) + Suc h" using IH(6) u1(1) by simp
        ultimately show ?thesis using st by blast
      qed
    qed
  qed
qed

section \<open>Inserting into the set\<close>

lemma binary_search_Inl_notin:
  assumes "binary_search ks k = Inl n" "ascending ks"
  shows "k \<notin> set ks"
proof -
  obtain ps qs where "ks = ps @ qs" "\<forall>x \<in> set ps. x < k" "\<forall>x \<in> set qs. k < x"
    using assms by (rule binary_search_Inl)
  then show ?thesis by auto
qed

text \<open>What a run of \<open>insert_non_full\<close> on the root establishes for the whole set.\<close>

lemma count_new_tree_of:
  assumes st: "step T t T' t'" and dom: "dom (store T) = set (ids t)"
    and wf: "wfn 1 M h t'" and asc: "ascending (inorder t)" "ascending (inorder t')"
    and set: "set (inorder t') = insert k (set (inorder t))"
    and len: "unat (len T) = length (inorder t)" "Suc (unat (len T)) < 2 ^ 32"
  shows "tree_of M (snd (count_new (k \<notin> set (inorder t), T'))) h t'"
proof -
  have card: "length (inorder t') = card (insert k (set (inorder t)))"
    "length (inorder t) = card (set (inorder t))"
    using asc set by (metis distinct_card strict_sorted_iff, simp add: distinct_card strict_sorted_iff)
  have "len T' = len T" using st by (simp add: step_def)
  then have "unat (len (snd (count_new (k \<notin> set (inorder t), T')))) = length (inorder t')"
    using card len by (auto simp: count_new_def card_insert_if unat_word_ariths insert_absorb)
  moreover have "store (snd (count_new (k \<notin> set (inorder t), T'))) = store T'"
    by (simp add: count_new_def)
  ultimately show ?thesis
    using st wf asc(2) step_dom [OF st dom] by (simp add: tree_of_def step_def)
qed

lemma fresh_count_new [simp]: "fresh (snd (count_new (b, T))) = fresh T"
  by (simp add: count_new_def fresh_def)

lemma root_count_new [simp]: "root (snd (count_new (b, T))) = root T"
  by (simp add: count_new_def)

lemma map_count_new:
  "r = Some (b, T) \<Longrightarrow> map_option count_new r = Some (b, snd (count_new (b, T)))"
  by (simp add: count_new_def)

lemma count_new_next [simp]: "next_node_id (snd (count_new (b, T))) = next_node_id T"
  by (simp add: count_new_def)

lemma create_node_fresh:
  assumes "fresh T" "next_node_id T < next_node_id T + 1"
  shows "fresh (snd (create_node T ks cs))"
  using assms by (auto simp: fresh_def create_node_def fetch_and_add_def dest: less_trans)

lemma insert_empty_tree:
  assumes "root T = None" "btree_inv M T" "next_node_id T < next_node_id T + 1" "2 \<le> M"
  shows "\<exists>T'. btree_set_insert M T k = Some (True, T') \<and> btree_inv M T' \<and> elements T' = {k} \<and>
    next_node_id T' = next_node_id T + 1"
proof -
  let ?nx = "next_node_id T"
  define T' where "T' = (snd (create_node T [k] []))\<lparr>root := Some ?nx, len := 1\<rparr>"
  have st: "store T' = [?nx \<mapsto> \<lparr>keys = [k], children = []\<rparr>]" "fresh T"
    using assms(1,2) by (auto simp: T'_def create_node_def fetch_and_add_def btree_inv_def)
  have "tree_of M T' 0 (BT ?nx [k] [])"
    using st assms(4) by (auto simp: tree_of_def T'_def)
  moreover have "fresh T'"
    using create_node_fresh [OF st(2) assms(3), of "[k]" "[]"] by (simp add: T'_def fresh_def)
  moreover have "root T' = Some (rid (BT ?nx [k] []))" by (simp add: T'_def)
  ultimately have "btree_inv M T'"
    by (blast intro: btree_invI)
  moreover have "elements T' = {k}" using st by (simp add: elements_def)
  moreover have "btree_set_insert M T k = Some (True, T')"
    using assms(1) by (simp add: btree_set_insert_def T'_def create_node_def fetch_and_add_def)
  moreover have "next_node_id T' = ?nx + 1" by (simp add: T'_def create_node_def fetch_and_add_def)
  ultimately show ?thesis by blast
qed

lemma insert_full_root:
  assumes tree: "tree_of M T h t" and rt: "root T = Some (rid t)" and fr: "fresh T" and M: "2 \<le> M"
    and full: "length (tkeys t) = 2 * M - 1" and bs: "binary_search (tkeys t) k = Inl n"
    and cap: "unat (next_node_id T) + Suc (Suc h) < 2 ^ 64" and len: "Suc (unat (len T)) < 2 ^ 32"
  shows "\<exists>T' t'. btree_set_insert M T k = Some (k \<notin> set (inorder t), T') \<and> fresh T' \<and>
    root T' = Some (rid t') \<and> tree_of M T' (Suc h) t' \<and> set (inorder t') = insert k (set (inorder t)) \<and>
    unat (next_node_id T') \<le> unat (next_node_id T) + Suc (Suc h)"
proof -
  note t = tree [unfolded tree_of_def]
  let ?nx = "next_node_id T" and ?t0 = "BT (next_node_id T) [] [t]"
  obtain C where cr: "create_node T [] [rid t] = (?nx, C)" by (simp add: create_node_def fetch_and_add_def)
  let ?T0 = "C\<lparr>root := Some (next_node_id T)\<rparr>"
  have caps: "?nx < ?nx + 1" "unat (?nx + 1) + Suc h < 2 ^ 64" using unat_succ_cap [OF cap] by auto
  have nx: "?nx \<notin> set (ids t)" using fr t by (auto simp: fresh_def)
  have s0: "store ?T0 = (store T)(?nx \<mapsto> \<lparr>keys = [], children = [rid t]\<rparr>)" "next_node_id ?T0 = ?nx + 1"
    "len ?T0 = len T" "root ?T0 = Some ?nx"
    using cr by (auto simp: create_node_def fetch_and_add_def)
  have rep0: "repr (store ?T0) (BT ?nx ([] @ []) ([] @ t # []))"
    and dist0: "distinct (ids (BT ?nx ([] @ []) ([] @ t # [])))" using t nx s0 by auto
  have fr0: "fresh ?T0" using create_node_fresh [OF fr caps(1), of "[]" "[rid t]"] by (simp add: cr fresh_def)
  have dom0: "dom (store ?T0) = set (ids ?t0)" using t s0 by auto
  have wf: "wf_node M h t" using t full M by (auto intro: wfn_raise)
  have cap0: "next_node_id ?T0 < next_node_id ?T0 + 1" using unat_succ_cap [OF caps(2)] s0 by simp
  obtain l mk r T1 where sp: "split_child M ?T0 ?nx (length []) (rid t) = Some (rid r, T1)"
    "step ?T0 (BT ?nx ([] @ []) ([] @ t # [])) T1 (BT ?nx ([] @ mk # []) ([] @ l # r # []))"
    "next_node_id T1 = next_node_id ?T0 + 1" "inorder t = inorder l @ mk # inorder r"
    "wf_node M h l" "wf_node M h r" "rid l = rid t" "length (tkeys l) = M - 1" "length (tkeys r) = M - 1"
    "mk \<in> set (tkeys t)"
    by (rule split_child_correct [OF rep0 _ dist0 fr0 cap0 wf full M]) auto
  let ?t1 = "BT ?nx [mk] [l, r]"
  have st1: "step ?T0 ?t0 T1 ?t1" using sp(2) by simp
  have h1: "repr (store T1) ?t1" "distinct (ids ?t1)" "root T1 = Some ?nx" "len T1 = len T"
    using st1 s0 by (auto simp: step_def)
  have fr1: "fresh T1" using step_fresh [OF st1 fr0] rep0 by simp
  have "k \<notin> set (tkeys t)"
    using binary_search_Inl_notin [OF bs] wfn_keys_ascending [of 1 M h t] t by auto
  obtain u where u: "u = (if mk < k then r else l)" by simp
  have asc: "ascending (inorder l @ mk # inorder r)" using t sp(4) by simp
  have ut: "repr (store T1) u" "distinct (ids u)" "wf_node M h u" "length (tkeys u) < 2 * M - 1"
    "ascending (inorder u)"
    using h1 sp(5,6,8,9) M asc u by (auto simp: ascending_append)
  have cap1: "unat (next_node_id T1) + h < 2 ^ 64" and nx1: "unat (next_node_id T1) = unat ?nx + 2"
    using unat_succ_cap [OF caps(2)] unat_succ_cap [OF cap] sp(3) s0 by auto
  obtain T' u' where ins: "insert_non_full M T1 (rid u) k = Some (k \<notin> set (inorder u), T')"
    "step T1 u T' u'" "wf_node M h u'" "ascending (inorder u')"
    "set (inorder u') = insert k (set (inorder u))" "unat (next_node_id T') \<le> unat (next_node_id T1) + h"
    using insert_non_full_correct [OF ut(1,2) fr1 ut(3) M ut(4,5) cap1, of k] by blast
  define t' where "t' = (if mk < k then BT ?nx [mk] [l, u'] else BT ?nx [mk] [u', r])"
  have st2: "step T1 ?t1 T' t'"
    using step_child [OF ins(2), of ?nx "[mk]" "[l]" "[]"] step_child [OF ins(2), of ?nx "[mk]" "[]" "[r]"]
      h1(1,2) fr1 u by (auto simp: t'_def)
  have st: "step ?T0 ?t0 T' t'" by (rule step_trans [OF st1 st2 fr0])
  have neq: "k \<noteq> mk" using sp(10) \<open>k \<notin> set (tkeys t)\<close> by auto
  have side: "mk < k \<Longrightarrow> \<forall>x \<in> set (inorder l). x < k" "k < mk \<Longrightarrow> \<forall>x \<in> set (inorder r). k < x"
    using asc by (fastforce simp: ascending_append)+
  have mem: "k \<in> set (inorder u) \<longleftrightarrow> k \<in> set (inorder t)"
    using asc neq u sp(4) by (auto simp: ascending_append)
  have content: "ascending (inorder t') \<and> set (inorder t') = insert k (set (inorder ?t0))"
    using ins(4,5) asc neq side u sp(4) by (auto simp: t'_def ascending_append)
  have wf': "wfn 1 M (Suc h) t'" using ins(3) sp(5,6) M by (auto simp: t'_def)
  have io0: "inorder ?t0 = inorder t" by simp
  have tree': "tree_of M (snd (count_new (k \<notin> set (inorder ?t0), T'))) (Suc h) t'"
    by (rule count_new_tree_of [OF st dom0 wf']) (use t content len s0 io0 in auto)
  have node1: "get_node T1 ?nx = Some \<lparr>keys = [mk], children = [rid l, rid r]\<rparr>"
    using h1(1) by (simp add: get_node_def)
  have run: "btree_set_insert M T k = map_option count_new (insert_non_full M T1 (rid u) k)"
    using rt t full bs sp(1,7) node1 u
    by (simp add: btree_set_insert_def cr get_node_repr is_full_def MAXIMUM_KEY_LEN_def vec_get_def)
  have "fresh T'" by (rule step_fresh [OF ins(2) fr1 ut(1)])
  moreover have "root T' = Some (rid t')" using st s0 by (simp add: step_def)
  ultimately show ?thesis
    using run map_count_new [OF ins(1)] mem content tree' io0 ins(6) nx1
    by (intro exI [of _ "snd (count_new (k \<notin> set (inorder t), T'))"] exI [of _ t']) simp
qed

lemma insert_not_full_root:
  assumes tree: "tree_of M T h t" and rt: "root T = Some (rid t)" and fr: "fresh T" and M: "2 \<le> M"
    and small: "length (tkeys t) < 2 * M - 1"
    and cap: "unat (next_node_id T) + h < 2 ^ 64" and len: "Suc (unat (len T)) < 2 ^ 32"
  shows "\<exists>T' t'. btree_set_insert M T k = Some (k \<notin> set (inorder t), T') \<and> fresh T' \<and>
    root T' = Some (rid t') \<and> tree_of M T' h t' \<and> set (inorder t') = insert k (set (inorder t)) \<and>
    unat (next_node_id T') \<le> unat (next_node_id T) + Suc (Suc h)"
proof -
  note t = tree [unfolded tree_of_def]
  have pre: "repr (store T) t" "distinct (ids t)" "wfn 1 M h t" "ascending (inorder t)" using t by auto
  obtain T' t' where ins: "insert_non_full M T (rid t) k = Some (k \<notin> set (inorder t), T')"
    "step T t T' t'" "wfn 1 M h t'" "ascending (inorder t')"
    "set (inorder t') = insert k (set (inorder t))" "unat (next_node_id T') \<le> unat (next_node_id T) + h"
    using insert_non_full_correct [OF pre(1,2) fr pre(3) M small pre(4) cap, of k] by blast
  have "tree_of M (snd (count_new (k \<notin> set (inorder t), T'))) h t'"
    by (rule count_new_tree_of [OF ins(2) _ ins(3) pre(4) ins(4,5)]) (use t len in auto)
  moreover have "fresh T'" by (rule step_fresh [OF ins(2) fr pre(1)])
  moreover have "root T' = Some (rid t')" using ins(2) rt by (simp add: step_def)
  moreover have "btree_set_insert M T k = map_option count_new (insert_non_full M T (rid t) k)"
    using rt pre(1) small
    by (simp add: btree_set_insert_def get_node_repr is_full_def MAXIMUM_KEY_LEN_def)
  ultimately show ?thesis
    using map_count_new [OF ins(1)] ins(5,6)
    by (intro exI [of _ "snd (count_new (k \<notin> set (inorder t), T'))"] exI [of _ t']) simp
qed

lemma insert_found_root:
  assumes tree: "tree_of M T h t" and rt: "root T = Some (rid t)"
    and full: "length (tkeys t) = 2 * M - 1" and bs: "binary_search (tkeys t) k = Inr n"
  shows "btree_set_insert M T k = Some (False, T)" "k \<in> set (inorder t)"
proof -
  note t = tree [unfolded tree_of_def]
  have "k \<in> set (tkeys t)" using bs by (auto elim: binary_search_Inr)
  then show "k \<in> set (inorder t)" using wfn_keys_in_inorder t by blast
  show "btree_set_insert M T k = Some (False, T)"
    using rt t full bs by (simp add: btree_set_insert_def get_node_repr is_full_def MAXIMUM_KEY_LEN_def)
qed

lemma btree_set_insert_correct:
  assumes inv: "btree_inv M T" and M: "2 \<le> M" and len: "Suc (unat (len T)) < 2 ^ 32"
    and cap: "unat (next_node_id T) + 34 \<le> 2 ^ 64"
  shows "\<exists>T'. btree_set_insert M T k = Some (k \<notin> elements T, T') \<and> btree_inv M T' \<and>
    elements T' = insert k (elements T) \<and> unat (next_node_id T') \<le> unat (next_node_id T) + 33"
proof (cases "root T")
  case None
  have "unat (next_node_id T) + Suc 0 < 2 ^ 64" using cap by simp
  from unat_succ_cap [OF this] have "next_node_id T < next_node_id T + 1"
    "unat (next_node_id T + 1) = unat (next_node_id T) + 1" by auto
  moreover have "elements T = {}" using inv None by (simp add: btree_inv_def elements_empty)
  ultimately show ?thesis using insert_empty_tree [OF None inv _ M, of k] by fastforce
next
  case (Some r)
  then obtain h t where r: "r = rid t" and tree: "tree_of M T h t" and fr: "fresh T"
    using inv by (auto simp: btree_inv_def)
  have el: "elements T = set (inorder t)" by (rule elements_tree [OF tree])
  have rt: "root T = Some (rid t)" using Some r by simp
  have h: "h \<le> 31" by (rule tree_of_height [OF tree M])
  have caps: "unat (next_node_id T) + h < 2 ^ 64" "unat (next_node_id T) + Suc (Suc h) < 2 ^ 64"
    using h cap by auto
  have lift: ?thesis if "btree_set_insert M T k = Some (k \<notin> set (inorder t), T')" "fresh T'"
      "root T' = Some (rid t')" "tree_of M T' h' t'" "set (inorder t') = insert k (set (inorder t))"
      "unat (next_node_id T') \<le> unat (next_node_id T) + Suc (Suc h)" for T' t' h'
    using that h el elements_tree [OF that(4)] by (auto simp: btree_inv_def)
  consider "length (tkeys t) < 2 * M - 1" | "length (tkeys t) = 2 * M - 1"
    using tree wfn_max [of 1 M h t] by (fastforce simp: tree_of_def)
  then show ?thesis
  proof cases
    case 1
    show ?thesis using insert_not_full_root [OF tree rt fr M 1 caps(1) len, of k] lift by blast
  next
    case 2
    show ?thesis
    proof (cases "binary_search (tkeys t) k")
      case (Inl n)
      show ?thesis using insert_full_root [OF tree rt fr M 2 Inl caps(2) len] lift by blast
    next
      case (Inr n)
      show ?thesis using insert_found_root [OF tree rt 2 Inr] inv el by auto
    qed
  qed
qed

end
