(* ===== verification/BTree_Rebalance.thy ===== *)
theory BTree_Rebalance
  imports BTree_Insert
begin

text \<open>
  Rebalancing before a removal descends: the two rotations and the merge by which
  \<^verbatim>\<open>prepare_child_for_key_removal\<close> gives the child on the path a spare key.
\<close>

section \<open>Rearranging two neighbouring children\<close>

abbreviation node_of :: "'k bt \<Rightarrow> 'k node" where
  "node_of t \<equiv> \<lparr>keys = tkeys t, children = map rid (subs t)\<rparr>"

lemma ids_subs: "ids t = rid t # concat (map ids (subs t))"
  by (cases t) simp

lemma repr_iff: "repr s t \<longleftrightarrow> s (rid t) = Some (node_of t) \<and> (\<forall>u \<in> set (subs t). repr s u)"
  by (cases t) simp

lemma distinct_regroup:
  assumes "distinct (i # xs @ (a # ys) @ (b # zs) @ ws)" "ys' @ zs' = ys @ zs"
  shows "distinct (i # xs @ (a # ys') @ (b # zs') @ ws)"
proof -
  have "distinct (ys @ zs)" using assms(1) by auto
  then have "distinct (ys' @ zs')" using assms(2) by simp
  moreover have "set (ys' @ zs') = set (ys @ zs)" using assms(2) by metis
  ultimately show ?thesis using assms(1) by (simp add: set_eq_iff) blast
qed

lemma inorder_pair:
  assumes "length ls = length ps" "length rs = length qs"
  shows "inorder (BT i (ps @ p # qs) (ls @ l # r # rs)) =
    lpart (map inorder ls) ps @ (inorder l @ p # inorder r) @ rpart qs (map inorder rs)"
  using ilv_split [of "map inorder ls" ps "inorder r # map inorder rs" "p # qs" "inorder l"] assms by simp

text \<open>A rotation: the two children keep their identifiers and, together, their subtrees.\<close>

lemma step_rotate:
  assumes rep: "repr (store T) (BT i ks (ls @ l # r # rs))"
    and dist: "distinct (ids (BT i ks (ls @ l # r # rs)))"
    and same: "rid l' = rid l" "rid r' = rid r" "subs l' @ subs r' = subs l @ subs r"
    and st: "store T' = (store T)(rid l \<mapsto> node_of l', i \<mapsto> \<lparr>keys = ks', children = map rid (ls @ l # r # rs)\<rparr>,
      rid r \<mapsto> node_of r')"
    and rest: "next_node_id T' = next_node_id T" "root T' = root T" "len T' = len T"
  shows "step T (BT i ks (ls @ l # r # rs)) T' (BT i ks' (ls @ l' # r' # rs))"
proof -
  let ?t = "BT i ks (ls @ l # r # rs)" and ?t' = "BT i ks' (ls @ l' # r' # rs)"
  have il: "ids l = rid l # concat (map ids (subs l))" "ids r = rid r # concat (map ids (subs r))"
    "ids l' = rid l # concat (map ids (subs l'))" "ids r' = rid r # concat (map ids (subs r'))"
    using same by (simp_all add: ids_subs)
  have sub: "concat (map ids (subs l')) @ concat (map ids (subs r')) =
      concat (map ids (subs l)) @ concat (map ids (subs r))"
    using same(3) by (metis concat_append map_append)
  let ?sl = "concat (map ids (subs l))" and ?sr = "concat (map ids (subs r))"
  let ?sl' = "concat (map ids (subs l'))" and ?sr' = "concat (map ids (subs r'))"
  have sets: "set ?sl' \<union> set ?sr' = set ?sl \<union> set ?sr"
    using arg_cong [OF sub, of set] by (simp only: set_append)
  have idset: "set (ids ?t') = set (ids ?t)" using sets il by auto
  have d0: "distinct (i # concat (map ids ls) @ concat (map ids rs))" "rid l \<noteq> rid r"
    "(set ?sl \<union> set ?sr) \<inter> set (rid l # rid r # i # concat (map ids ls) @ concat (map ids rs)) = {}"
    "{rid l, rid r} \<inter> set (i # concat (map ids ls) @ concat (map ids rs)) = {}"
    using dist il by auto
  have d': "distinct (ids ?t')"
    using distinct_regroup [of i "concat (map ids ls)" "rid l" ?sl "rid r" ?sr "concat (map ids rs)", OF _ sub]
      dist by (simp only: ids.simps map_append list.map concat_append concat.simps il)
  have keep: "repr (store T') u" if "u \<in> set ls \<union> set rs \<union> set (subs l @ subs r)" for u
  proof -
    have "set (ids u) \<subseteq> set (concat (map ids ls)) \<union> set (concat (map ids rs)) \<union> set ?sl \<union> set ?sr"
      using that by auto
    then have "i \<notin> set (ids u)" "rid l \<notin> set (ids u)" "rid r \<notin> set (ids u)" using d0 by auto
    moreover have "repr (store T) u" using rep that repr_iff [of _ l] repr_iff [of _ r] by auto
    ultimately show ?thesis using st by simp
  qed
  have in_subs: "set (subs l') \<union> set (subs r') = set (subs l @ subs r)"
    using arg_cong [OF same(3), of set] by simp
  have "repr (store T') l'" "repr (store T') r'"
    unfolding repr_iff [of _ l'] repr_iff [of _ r'] same(1,2) using keep in_subs st d0(2) d0(4) by auto
  then have r': "repr (store T') ?t'" using keep same st d0 by auto
  have frame: "store T' a = (if a \<in> set (ids ?t) then None else store T a)" if "a \<notin> set (ids ?t')" for a
    using that idset st il by auto
  show ?thesis using r' d' idset frame rest by (auto simp: step_def)
qed

text \<open>A merge: the right child's subtrees follow the left child's; its node is deleted.\<close>

lemma step_merge:
  assumes rep: "repr (store T) (BT i ks (ls @ l # r # rs))"
    and dist: "distinct (ids (BT i ks (ls @ l # r # rs)))"
    and same: "rid l' = rid l" "subs l' = subs l @ subs r"
    and st: "store T' = (store T)(i \<mapsto> \<lparr>keys = ks', children = map rid (ls @ l # rs)\<rparr>,
      rid l \<mapsto> node_of l', rid r := None)"
    and rest: "next_node_id T' = next_node_id T" "root T' = root T" "len T' = len T"
  shows "step T (BT i ks (ls @ l # r # rs)) T' (BT i ks' (ls @ l' # rs))"
proof -
  let ?t = "BT i ks (ls @ l # r # rs)" and ?t' = "BT i ks' (ls @ l' # rs)"
  let ?sl = "concat (map ids (subs l))" and ?sr = "concat (map ids (subs r))"
  have il: "ids l = rid l # ?sl" "ids r = rid r # ?sr" "ids l' = rid l # ?sl @ ?sr"
    using same by (simp_all add: ids_subs)
  have d0: "distinct (ids ?t')" "rid l \<noteq> rid r" "rid r \<notin> set (ids ?t')"
    "(set ?sl \<union> set ?sr) \<inter> set (rid l # rid r # i # concat (map ids ls) @ concat (map ids rs)) = {}"
    "{rid l, rid r} \<inter> set (i # concat (map ids ls) @ concat (map ids rs)) = {}"
    "i \<notin> set (concat (map ids ls) @ concat (map ids rs))"
    using dist il by auto
  have idset: "set (ids ?t) = insert (rid r) (set (ids ?t'))" using il by auto
  have keep: "repr (store T') u" if "u \<in> set ls \<union> set rs \<union> set (subs l @ subs r)" for u
  proof -
    have "set (ids u) \<subseteq> set (concat (map ids ls)) \<union> set (concat (map ids rs)) \<union> set ?sl \<union> set ?sr"
      using that by auto
    then have "i \<notin> set (ids u)" "rid l \<notin> set (ids u)" "rid r \<notin> set (ids u)" using d0 by auto
    moreover have "repr (store T) u" using rep that repr_iff [of _ l] repr_iff [of _ r] by auto
    ultimately show ?thesis using st by simp
  qed
  have "repr (store T') l'" using keep same st d0 by (simp add: repr_iff [of _ l'])
  then have r': "repr (store T') ?t'" using keep same st d0 by auto
  have frame: "store T' a = (if a \<in> set (ids ?t) then None else store T a)" if "a \<notin> set (ids ?t')" for a
    using that idset st il by auto
  show ?thesis using r' d0(1) idset frame rest by (auto simp: step_def)
qed

section \<open>Giving a child a spare key\<close>

text \<open>
  What \<^verbatim>\<open>prepare_child_for_key_removal\<close> establishes: the node, cut at the child to descend
  into, holds the same keys in order, what is left and right of the child did not grow,
  and the child has at least \<open>M\<close> keys.
\<close>

definition prepared :: "nat \<Rightarrow> nat \<Rightarrow> nat \<Rightarrow> 'k btree_set \<Rightarrow> node_id \<Rightarrow>
    'k list \<Rightarrow> 'k list \<Rightarrow> 'k bt list \<Rightarrow> 'k bt \<Rightarrow> 'k bt list \<Rightarrow> node_id \<times> 'k btree_set \<Rightarrow> bool" where
  "prepared m M h T i ps qs ls c rs r \<longleftrightarrow> (case r of (j, T') \<Rightarrow>
     \<exists>ps' qs' ls' c' rs'. j = rid c' \<and>
       step T (BT i (ps @ qs) (ls @ c # rs)) T' (BT i (ps' @ qs') (ls' @ c' # rs')) \<and>
       wfn (m - 1) M (Suc h) (BT i (ps' @ qs') (ls' @ c' # rs')) \<and> length ls' = length ps' \<and>
       M \<le> length (tkeys c') \<and>
       inorder (BT i (ps' @ qs') (ls' @ c' # rs')) = inorder (BT i (ps @ qs) (ls @ c # rs)) \<and>
       set (lpart (map inorder ls') ps') \<subseteq> set (lpart (map inorder ls) ps) \<and>
       set (rpart qs' (map inorder rs')) \<subseteq> set (rpart qs (map inorder rs)))"

lemma preparedI:
  assumes "step T (BT i (ps @ qs) (ls @ c # rs)) T' (BT i (ps' @ qs') (ls' @ c' # rs'))"
    "wfn (m - 1) M (Suc h) (BT i (ps' @ qs') (ls' @ c' # rs'))" "length ls' = length ps'"
    "M \<le> length (tkeys c')"
    "inorder (BT i (ps' @ qs') (ls' @ c' # rs')) = inorder (BT i (ps @ qs) (ls @ c # rs))"
    "set (lpart (map inorder ls') ps') \<subseteq> set (lpart (map inorder ls) ps)"
    "set (rpart qs' (map inorder rs')) \<subseteq> set (rpart qs (map inorder rs))" "j = rid c'"
  shows "prepared m M h T i ps qs ls c rs (j, T')"
  unfolding prepared_def prod.case using assms by blast

lemma last_key:
  assumes "wf_node M h s" "length (tkeys s) \<noteq> M - 1"
  obtains sk k sl x where "tkeys s = sk @ [k]" "M - 1 \<le> length sk"
    "h = 0 \<longrightarrow> subs s = []" "h \<noteq> 0 \<longrightarrow> subs s = sl @ [x] \<and> length sl = Suc (length sk)"
proof -
  have len: "M - 1 < length (tkeys s)" using assms wfn_min [of "M - 1" M h s] by simp
  then obtain sk k where k: "tkeys s = sk @ [k]" by (cases "tkeys s" rule: rev_cases) auto
  show thesis
  proof (cases h)
    case 0
    then show ?thesis using that [OF k] len k assms(1) wfn_leaf_iff [of "M - 1" M h s] by auto
  next
    case (Suc h')
    then have "length (subs s) = Suc (Suc (length sk))" using assms(1) wfn_sub_len k by fastforce
    then obtain sl x where "subs s = sl @ [x]" "length sl = Suc (length sk)"
      by (cases "subs s" rule: rev_cases) auto
    then show ?thesis using that [OF k, of sl x] len k Suc by auto
  qed
qed

lemma first_key:
  assumes "wf_node M h s" "length (tkeys s) \<noteq> M - 1"
  obtains sk k sl x where "tkeys s = k # sk" "M - 1 \<le> length sk"
    "h = 0 \<longrightarrow> subs s = []" "h \<noteq> 0 \<longrightarrow> subs s = x # sl \<and> length sl = Suc (length sk)"
proof -
  have len: "M - 1 < length (tkeys s)" using assms wfn_min [of "M - 1" M h s] by simp
  then obtain sk k where k: "tkeys s = k # sk" by (cases "tkeys s") auto
  show thesis
  proof (cases h)
    case 0
    then show ?thesis using that [OF k] len k assms(1) wfn_leaf_iff [of "M - 1" M h s] by auto
  next
    case (Suc h')
    then have "length (subs s) = Suc (Suc (length sk))" using assms(1) wfn_sub_len k by fastforce
    then obtain sl x where "subs s = x # sl" "length sl = Suc (length sk)"
      by (cases "subs s") auto
    then show ?thesis using that [OF k, of x sl] len k Suc by auto
  qed
qed

lemma rotate_from_smaller_correct:
  assumes rep: "repr (store T) (BT i (ps @ p # qs) (ls @ s # c # rs))"
    and dist: "distinct (ids (BT i (ps @ p # qs) (ls @ s # c # rs)))"
    and wf: "wfn m M (Suc h) (BT i (ps @ p # qs) (ls @ s # c # rs))" and len: "length ls = length ps"
    and min: "length (tkeys c) = M - 1" and spare: "length (tkeys s) \<noteq> M - 1" and M: "2 \<le> M"
  shows "\<exists>T'. rotate_from_smaller T i (Suc (length ps)) (rid c) (rid s) = Some T' \<and>
    prepared m M h T i (ps @ [p]) qs (ls @ [s]) c rs (rid c, T')"
proof -
  have wfs: "wf_node M h s" and wfc: "wf_node M h c" and lr: "length rs = length qs" using wf len by auto
  obtain sk k sl x where s: "tkeys s = sk @ [k]" "M - 1 \<le> length sk"
    "h = 0 \<longrightarrow> subs s = []" "h \<noteq> 0 \<longrightarrow> subs s = sl @ [x] \<and> length sl = Suc (length sk)"
    by (rule last_key [OF wfs spare])
  let ?s = "BT (rid s) sk (if h = 0 then [] else sl)"
  let ?c = "BT (rid c) (p # tkeys c) (if h = 0 then [] else x # subs c)"
  let ?T' = "put_node (put_node (put_node T (rid s) (node_of ?s)) i
     \<lparr>keys = ps @ k # qs, children = map rid (ls @ s # c # rs)\<rparr>) (rid c) (node_of ?c)"
  have leafc: "subs c = [] \<longleftrightarrow> h = 0" by (rule wfn_leaf_iff [OF wfc])
  have nodes: "get_node T i = Some \<lparr>keys = ps @ p # qs, children = map rid (ls @ s # c # rs)\<rparr>"
    "get_node T (rid s) = Some (node_of s)" "get_node T (rid c) = Some (node_of c)"
    using rep by (auto simp: get_node_repr) (simp add: get_node_def)
  have run: "rotate_from_smaller T i (Suc (length ps)) (rid c) (rid s) = Some ?T'"
    using nodes s leafc
    by (cases "h = 0") (simp_all add: rotate_from_smaller_def vec_simps is_leaf_def)
  have subs: "subs ?s @ subs ?c = subs s @ subs c" using s leafc by auto
  have st: "step T (BT i (ps @ p # qs) (ls @ s # c # rs)) ?T' (BT i (ps @ k # qs) (ls @ ?s # ?c # rs))"
    by (rule step_rotate [OF rep dist _ _ subs]) simp_all
  have io: "inorder ?s @ k # inorder ?c = inorder s @ p # inorder c"
    using s leafc ilv_append [of "map inorder sl" sk "[inorder x]" "[]" k]
    by (cases s; cases c) auto
  have wf2: "wf_node M h ?s" "wf_node M h ?c"
    using wfs wfc s min M leafc by (cases h; cases s; cases c; auto)+
  have wf': "wfn (m - 1) M (Suc h) (BT i (ps @ k # qs) (ls @ ?s # ?c # rs))"
    using wf wf2 by auto
  have same: "inorder (BT i (ps @ k # qs) (ls @ ?s # ?c # rs)) = inorder (BT i (ps @ p # qs) (ls @ s # c # rs))"
    using io by (simp only: inorder_pair [OF len lr])
  have left: "lpart (map inorder (ls @ [?s])) (ps @ [k]) = lpart (map inorder ls) ps @ inorder ?s @ [k]"
    "lpart (map inorder (ls @ [s])) (ps @ [p]) = lpart (map inorder ls) ps @ inorder s @ [p]"
    using len by simp_all
  have ks: "set (inorder ?s @ [k]) \<subseteq> set (inorder s @ [p])"
  proof -
    have "inorder s = inorder ?s @ k # (if h = 0 then [] else inorder x)"
      using s ilv_append [of "map inorder sl" sk "[inorder x]" "[]" k] by (cases s) auto
    then show ?thesis by auto
  qed
  have "prepared m M h T i (ps @ [p]) qs (ls @ [s]) c rs (rid c, ?T')"
  proof (rule preparedI)
    show "step T (BT i ((ps @ [p]) @ qs) ((ls @ [s]) @ c # rs)) ?T' (BT i ((ps @ [k]) @ qs) ((ls @ [?s]) @ ?c # rs))"
      using st by simp
    show "wfn (m - 1) M (Suc h) (BT i ((ps @ [k]) @ qs) ((ls @ [?s]) @ ?c # rs))" using wf' by simp
    show "inorder (BT i ((ps @ [k]) @ qs) ((ls @ [?s]) @ ?c # rs)) =
      inorder (BT i ((ps @ [p]) @ qs) ((ls @ [s]) @ c # rs))" using same by simp
    show "set (lpart (map inorder (ls @ [?s])) (ps @ [k])) \<subseteq> set (lpart (map inorder (ls @ [s])) (ps @ [p]))"
      unfolding left using ks by auto
  qed (use len min M in simp_all)
  then show ?thesis using run by blast
qed

lemma rotate_from_larger_correct:
  assumes rep: "repr (store T) (BT i (ps @ p # qs) (ls @ c # s # rs))"
    and dist: "distinct (ids (BT i (ps @ p # qs) (ls @ c # s # rs)))"
    and wf: "wfn m M (Suc h) (BT i (ps @ p # qs) (ls @ c # s # rs))" and len: "length ls = length ps"
    and min: "length (tkeys c) = M - 1" and spare: "length (tkeys s) \<noteq> M - 1" and M: "2 \<le> M"
  shows "\<exists>T'. rotate_from_larger T i (length ps) (rid c) (rid s) = Some T' \<and>
    prepared m M h T i ps (p # qs) ls c (s # rs) (rid c, T')"
proof -
  have wfs: "wf_node M h s" and wfc: "wf_node M h c" and lr: "length rs = length qs" using wf len by auto
  obtain sk k sl x where s: "tkeys s = k # sk" "M - 1 \<le> length sk"
    "h = 0 \<longrightarrow> subs s = []" "h \<noteq> 0 \<longrightarrow> subs s = x # sl \<and> length sl = Suc (length sk)"
    by (rule first_key [OF wfs spare])
  let ?s = "BT (rid s) sk (if h = 0 then [] else sl)"
  let ?c = "BT (rid c) (tkeys c @ [p]) (if h = 0 then [] else subs c @ [x])"
  let ?T' = "put_node (put_node (put_node T (rid s) (node_of ?s)) i
     \<lparr>keys = ps @ k # qs, children = map rid (ls @ c # s # rs)\<rparr>) (rid c) (node_of ?c)"
  have leafc: "subs c = [] \<longleftrightarrow> h = 0" by (rule wfn_leaf_iff [OF wfc])
  have subc: "h \<noteq> 0 \<longrightarrow> length (subs c) = Suc (length (tkeys c))" using wfc wfn_sub_len by (cases h) auto
  have nodes: "get_node T i = Some \<lparr>keys = ps @ p # qs, children = map rid (ls @ c # s # rs)\<rparr>"
    "get_node T (rid s) = Some (node_of s)" "get_node T (rid c) = Some (node_of c)"
    using rep by (auto simp: get_node_repr) (simp add: get_node_def)
  have run: "rotate_from_larger T i (length ps) (rid c) (rid s) = Some ?T'"
    using nodes s leafc
    by (cases "h = 0") (simp_all add: rotate_from_larger_def vec_simps vec_remove_def is_leaf_def)
  have subs: "subs ?c @ subs ?s = subs c @ subs s" using s leafc by auto
  have ne: "rid s \<noteq> rid c" "rid s \<noteq> i" "rid c \<noteq> i" using dist ids_subs [of s] ids_subs [of c] by auto
  have st: "step T (BT i (ps @ p # qs) (ls @ c # s # rs)) ?T' (BT i (ps @ k # qs) (ls @ ?c # ?s # rs))"
    by (rule step_rotate [OF rep dist _ _ subs]) (use ne in \<open>auto simp: fun_upd_twist\<close>)
  have io: "inorder ?c @ k # inorder ?s = inorder c @ p # inorder s"
    using s leafc subc ilv_append [of "map inorder (subs c)" "tkeys c" "[inorder x]" "[]" p]
    by (cases s; cases c) auto
  have wf2: "wf_node M h ?s" "wf_node M h ?c"
    using wfs wfc s min M leafc subc by (cases h; cases s; cases c; auto)+
  have wf': "wfn (m - 1) M (Suc h) (BT i (ps @ k # qs) (ls @ ?c # ?s # rs))"
    using wf wf2 by auto
  have same: "inorder (BT i (ps @ k # qs) (ls @ ?c # ?s # rs)) = inorder (BT i (ps @ p # qs) (ls @ c # s # rs))"
    using io by (simp only: inorder_pair [OF len lr])
  have ks: "set (k # inorder ?s) \<subseteq> set (inorder s)"
    using s by (cases s) auto
  have "prepared m M h T i ps (p # qs) ls c (s # rs) (rid c, ?T')"
  proof (rule preparedI)
    show "step T (BT i (ps @ p # qs) (ls @ c # s # rs)) ?T' (BT i (ps @ k # qs) (ls @ ?c # ?s # rs))"
      by (rule st)
    show "set (rpart (k # qs) (map inorder (?s # rs))) \<subseteq> set (rpart (p # qs) (map inorder (s # rs)))"
      using ks by auto
  qed (use len min M wf' same in simp_all)
  then show ?thesis using run by blast
qed

text \<open>The merge, seen from the left and from the right child.\<close>

lemma merge_nodes_correct:
  assumes rep: "repr (store T) (BT i (ps @ p # qs) (ls @ l # r # rs))"
    and dist: "distinct (ids (BT i (ps @ p # qs) (ls @ l # r # rs)))"
    and wf: "wfn m M (Suc h) (BT i (ps @ p # qs) (ls @ l # r # rs))" and len: "length ls = length ps"
    and min: "length (tkeys l) = M - 1" "length (tkeys r) = M - 1" and M: "2 \<le> M"
  obtains T' c where "merge_nodes T i (length ps) (rid l) (rid r) = Some T'" "rid c = rid l"
    "step T (BT i (ps @ p # qs) (ls @ l # r # rs)) T' (BT i (ps @ qs) (ls @ c # rs))"
    "wfn (m - 1) M (Suc h) (BT i (ps @ qs) (ls @ c # rs))" "inorder c = inorder l @ p # inorder r"
    "length (tkeys c) = 2 * M - 1" "tkeys c = tkeys l @ p # tkeys r"
proof -
  have wfl: "wf_node M h l" and wfr: "wf_node M h r" and lr: "length rs = length qs" using wf len by auto
  let ?c = "BT (rid l) (tkeys l @ p # tkeys r) (subs l @ subs r)"
  let ?T' = "delete_node (put_node (put_node T i \<lparr>keys = ps @ qs, children = map rid (ls @ l # rs)\<rparr>)
     (rid l) (node_of ?c)) (rid r)"
  have subc: "if h = 0 then subs l = [] \<and> subs r = [] else
     length (subs l) = Suc (length (tkeys l)) \<and> length (subs r) = Suc (length (tkeys r))"
    using wfl wfr by (cases h; cases l; cases r) auto
  have nodes: "get_node T i = Some \<lparr>keys = ps @ p # qs, children = map rid (ls @ l # r # rs)\<rparr>"
    "get_node T (rid l) = Some (node_of l)" "get_node T (rid r) = Some (node_of r)"
    using rep by (auto simp: get_node_repr) (simp add: get_node_def)
  have "vec_remove (Suc (length ps)) (map rid (ls @ l # r # rs)) = Some (rid r, map rid (ls @ l # rs))"
    using vec_remove_mid [of "map rid (ls @ [l])" "rid r" "map rid rs"] len by simp
  then have run: "merge_nodes T i (length ps) (rid l) (rid r) = Some ?T'"
    using nodes by (simp add: merge_nodes_def vec_simps)
  have st: "step T (BT i (ps @ p # qs) (ls @ l # r # rs)) ?T' (BT i (ps @ qs) (ls @ ?c # rs))"
    by (rule step_merge [OF rep dist]) simp_all
  have io: "inorder ?c = inorder l @ p # inorder r"
    using subc ilv_append [of "map inorder (subs l)" "tkeys l" "map inorder (subs r)" "tkeys r" p]
    by (cases l; cases r) (auto split: if_splits)
  have wfc: "wf_node M h ?c"
    using wfl wfr subc min M by (cases h; cases l; cases r) auto
  have "wfn (m - 1) M (Suc h) (BT i (ps @ qs) (ls @ ?c # rs))" using wf wfc by auto
  with run st io show thesis using min M by (intro that [of ?T' ?c]) auto
qed

text \<open>Which sibling is looked at, in terms of the cut.\<close>

lemma get_sibling_left:
  assumes "repr (store T) (BT i ks (ls @ s # c # rs))"
  shows "get_sibling T \<lparr>keys = ks, children = map rid (ls @ s # c # rs)\<rparr> True (length ls) =
    Some (Some (rid s, node_of s))"
  using assms by (simp add: get_sibling_def vec_get_def nth_append get_node_repr)

lemma get_sibling_right:
  assumes "repr (store T) (BT i ks (ls @ c # s # rs))"
  shows "get_sibling T \<lparr>keys = ks, children = map rid (ls @ c # s # rs)\<rparr> True (Suc (length ls)) =
    Some (Some (rid s, node_of s))"
  using assms by (simp add: get_sibling_def vec_get_def nth_append get_node_repr)

lemma get_sibling_none [simp]: "get_sibling T node False j = Some None"
  by (simp add: get_sibling_def)

lemmas prepare_simps = prepare_child_for_key_removal_def is_at_min_def MINIMUM_KEY_LEN_def can_spare_def
  get_node_repr vec_get_def nth_append

lemma prepare_spare:
  assumes rep: "repr (store T) (BT i (ps @ qs) (ls @ c # rs))"
    and dist: "distinct (ids (BT i (ps @ qs) (ls @ c # rs)))"
    and wf: "wfn m M (Suc h) (BT i (ps @ qs) (ls @ c # rs))" and len: "length ls = length ps"
    and spare: "length (tkeys c) \<noteq> M - 1"
  shows "\<exists>r. prepare_child_for_key_removal M T i (length ps) = Some r \<and> prepared m M h T i ps qs ls c rs r"
proof -
  have wfc: "wf_node M h c" using wf by auto
  then have "M \<le> length (tkeys c)" using spare wfn_min [OF wfc] by simp
  then have "prepared m M h T i ps qs ls c rs (rid c, T)"
    using wfn_mono [OF wf, of "m - 1"] len by (intro preparedI [OF step_refl [OF rep dist]]) simp_all
  moreover have "prepare_child_for_key_removal M T i (length ps) = Some (rid c, T)"
    using get_node_repr [OF rep] rep spare len by (simp add: prepare_simps)
  ultimately show ?thesis by blast
qed

lemma prepare_smaller:
  assumes rep: "repr (store T) (BT i (ps @ p # qs) (ls @ s # c # rs))"
    and dist: "distinct (ids (BT i (ps @ p # qs) (ls @ s # c # rs)))"
    and wf: "wfn m M (Suc h) (BT i (ps @ p # qs) (ls @ s # c # rs))" and len: "length ls = length ps"
    and min: "length (tkeys c) = M - 1" and spare: "length (tkeys s) \<noteq> M - 1" and M: "2 \<le> M"
  shows "\<exists>r. prepare_child_for_key_removal M T i (Suc (length ps)) = Some r \<and>
    prepared m M h T i (ps @ [p]) qs (ls @ [s]) c rs r"
proof -
  obtain T' where T': "rotate_from_smaller T i (Suc (length ps)) (rid c) (rid s) = Some T'"
    "prepared m M h T i (ps @ [p]) qs (ls @ [s]) c rs (rid c, T')"
    using rotate_from_smaller_correct [OF assms] by blast
  then have "prepare_child_for_key_removal M T i (Suc (length ps)) = Some (rid c, T')"
    using get_node_repr [OF rep] get_sibling_left [OF rep] rep min spare len
    by (simp add: prepare_simps)
  with T' show ?thesis by blast
qed

lemma prepare_larger:
  assumes rep: "repr (store T) (BT i (ps @ p # qs) (ls @ c # s # rs))"
    and dist: "distinct (ids (BT i (ps @ p # qs) (ls @ c # s # rs)))"
    and wf: "wfn m M (Suc h) (BT i (ps @ p # qs) (ls @ c # s # rs))" and len: "length ls = length ps"
    and min: "length (tkeys c) = M - 1" and M: "2 \<le> M"
    and left: "ls = [] \<or> length (tkeys (last ls)) = M - 1"
  shows "\<exists>r. prepare_child_for_key_removal M T i (length ps) = Some r \<and>
    prepared m M h T i ps (p # qs) ls c (s # rs) r"
proof -
  obtain sib where sib: "get_sibling T \<lparr>keys = ps @ p # qs, children = map rid (ls @ c # s # rs)\<rparr>
      (0 < length ps) (length ps - 1) = Some sib" "\<not> can_spare M sib"
  proof (cases ls rule: rev_cases)
    case Nil
    then show ?thesis using that len by (simp add: can_spare_def)
  next
    case (snoc ls0 a)
    then show ?thesis
      using that get_sibling_left [of T i "ps @ p # qs" ls0 a c "s # rs"] rep len left
      by (simp add: can_spare_def is_at_min_def MINIMUM_KEY_LEN_def flip: len)
  qed
  show ?thesis
  proof (cases "length (tkeys s) = M - 1")
    case False
    obtain T' where T': "rotate_from_larger T i (length ps) (rid c) (rid s) = Some T'"
      "prepared m M h T i ps (p # qs) ls c (s # rs) (rid c, T')"
      using rotate_from_larger_correct [OF rep dist wf len min False M] by blast
    then have "prepare_child_for_key_removal M T i (length ps) = Some (rid c, T')"
      using get_node_repr [OF rep] get_sibling_right [OF rep] sib rep min False len
      by (simp add: prepare_simps)
    with T' show ?thesis by blast
  next
    case True
    obtain T' c' where T': "merge_nodes T i (length ps) (rid c) (rid s) = Some T'" "rid c' = rid c"
      "step T (BT i (ps @ p # qs) (ls @ c # s # rs)) T' (BT i (ps @ qs) (ls @ c' # rs))"
      "wfn (m - 1) M (Suc h) (BT i (ps @ qs) (ls @ c' # rs))" "inorder c' = inorder c @ p # inorder s"
      "length (tkeys c') = 2 * M - 1" "tkeys c' = tkeys c @ p # tkeys s"
      by (rule merge_nodes_correct [OF rep dist wf len min True M])
    have lr: "length rs = length qs" using wf len by simp
    have io: "inorder (BT i (ps @ qs) (ls @ c' # rs)) = inorder (BT i (ps @ p # qs) (ls @ c # s # rs))"
      using T'(5) inorder_pair [OF len lr, of i p c s] inorder_split [OF len lr, of i c'] by simp
    have "prepared m M h T i ps (p # qs) ls c (s # rs) (rid c, T')"
      by (rule preparedI [OF T'(3,4) len _ io]) (use T'(2,6) M in auto)
    moreover have "prepare_child_for_key_removal M T i (length ps) = Some (rid c, T')"
      using T'(1) get_node_repr [OF rep] get_sibling_right [OF rep] sib rep min True len
      by (simp add: prepare_simps)
    ultimately show ?thesis by blast
  qed
qed

lemma prepare_last:
  assumes rep: "repr (store T) (BT i (ps @ [p]) (ls @ [s, c]))"
    and dist: "distinct (ids (BT i (ps @ [p]) (ls @ [s, c])))"
    and wf: "wfn m M (Suc h) (BT i (ps @ [p]) (ls @ [s, c]))" and len: "length ls = length ps"
    and min: "length (tkeys s) = M - 1" "length (tkeys c) = M - 1" and M: "2 \<le> M"
  shows "\<exists>r. prepare_child_for_key_removal M T i (Suc (length ps)) = Some r \<and>
    prepared m M h T i (ps @ [p]) [] (ls @ [s]) c [] r"
proof -
  obtain T' c' where T': "merge_nodes T i (length ps) (rid s) (rid c) = Some T'" "rid c' = rid s"
    "step T (BT i (ps @ [p]) (ls @ [s, c])) T' (BT i (ps @ []) (ls @ [c']))"
    "wfn (m - 1) M (Suc h) (BT i (ps @ []) (ls @ [c']))" "inorder c' = inorder s @ p # inorder c"
    "length (tkeys c') = 2 * M - 1" "tkeys c' = tkeys s @ p # tkeys c"
    by (rule merge_nodes_correct [OF rep dist wf len min M])
  have io: "inorder (BT i (ps @ []) (ls @ [c'])) = inorder (BT i ((ps @ [p]) @ []) ((ls @ [s]) @ [c]))"
    using T'(5) inorder_pair [OF len, of "[]" "[]" i p s c] inorder_split [OF len, of "[]" "[]" i c'] by simp
  have "prepared m M h T i (ps @ [p]) [] (ls @ [s]) c [] (rid s, T')"
    by (rule preparedI [OF _ T'(4) len _ io]) (use T'(2,3,6) M len in auto)
  moreover have "prepare_child_for_key_removal M T i (Suc (length ps)) = Some (rid s, T')"
    using T'(1) get_node_repr [OF rep] get_sibling_left [OF rep] rep min len
    by (simp add: prepare_simps)
  ultimately show ?thesis by blast
qed

lemma prepare_correct:
  assumes rep: "repr (store T) (BT i (ps @ qs) (ls @ c # rs))"
    and dist: "distinct (ids (BT i (ps @ qs) (ls @ c # rs)))"
    and wf: "wfn m M (Suc h) (BT i (ps @ qs) (ls @ c # rs))" and len: "length ls = length ps"
    and m: "1 \<le> m" and M: "2 \<le> M"
  shows "\<exists>r. prepare_child_for_key_removal M T i (length ps) = Some r \<and> prepared m M h T i ps qs ls c rs r"
proof (cases "length (tkeys c) = M - 1")
  case False
  then show ?thesis by (rule prepare_spare [OF rep dist wf len])
next
  case min: True
  have lr: "length rs = length qs" using wf len by simp
  consider (smaller) ls0 s where "ls = ls0 @ [s]" "length (tkeys s) \<noteq> M - 1"
    | (larger) "ls = [] \<or> length (tkeys (last ls)) = M - 1" "qs \<noteq> []"
    | (last) ls0 s where "ls = ls0 @ [s]" "length (tkeys s) = M - 1" "qs = []"
    using wf m len by (cases ls rule: rev_cases; cases qs) auto
  then show ?thesis
  proof cases
    case smaller
    then obtain ps0 p where "ps = ps0 @ [p]" "length ls0 = length ps0" using len by (cases ps rule: rev_cases) auto
    then show ?thesis using prepare_smaller [of T i ps0 p qs ls0 s c rs m M h] rep dist wf min smaller M by simp
  next
    case larger
    then obtain q qs0 r rs0 where "qs = q # qs0" "rs = r # rs0" using lr by (cases qs; cases rs) auto
    then show ?thesis using prepare_larger [of T i ps q qs0 ls c r rs0 m M h] rep dist wf min len larger M by simp
  next
    case last
    then obtain ps0 p where "ps = ps0 @ [p]" "length ls0 = length ps0" using len by (cases ps rule: rev_cases) auto
    then show ?thesis using prepare_last [of T i ps0 p ls0 s c m M h] rep dist wf min last lr M by simp
  qed
qed

end
