(* ===== verification/BTree_Remove.thy ===== *)
theory BTree_Remove
  imports BTree_Rebalance
begin

text \<open>
  Removal from the B-tree: the largest and the smallest key of a subtree, the descent of
  \<^verbatim>\<open>remove\<close>, and the shrinking of the root.
\<close>

section \<open>The largest and the smallest key of a subtree\<close>

lemma rpart_empty: "set (rpart qs xs) \<subseteq> {} \<Longrightarrow> length xs = length qs \<Longrightarrow> qs = []"
  by (cases qs; cases xs) auto

lemma lpart_empty: "set (lpart xs ps) \<subseteq> {} \<Longrightarrow> length xs = length ps \<Longrightarrow> ps = []"
  by (cases ps; cases xs) auto

lemma preparedE:
  assumes "prepared m M h T i ps qs ls c rs r"
  obtains T' ps' qs' ls' c' rs' where "r = (rid c', T')"
    "step T (BT i (ps @ qs) (ls @ c # rs)) T' (BT i (ps' @ qs') (ls' @ c' # rs'))"
    "wfn (m - 1) M (Suc h) (BT i (ps' @ qs') (ls' @ c' # rs'))" "length ls' = length ps'"
    "length rs' = length qs'" "wfn M M h c'"
    "inorder (BT i (ps' @ qs') (ls' @ c' # rs')) = inorder (BT i (ps @ qs) (ls @ c # rs))"
    "set (lpart (map inorder ls') ps') \<subseteq> set (lpart (map inorder ls) ps)"
    "set (rpart qs' (map inorder rs')) \<subseteq> set (rpart qs (map inorder rs))"
proof -
  from assms obtain T' ps' qs' ls' c' rs' where r: "r = (rid c', T')"
    "step T (BT i (ps @ qs) (ls @ c # rs)) T' (BT i (ps' @ qs') (ls' @ c' # rs'))"
    "wfn (m - 1) M (Suc h) (BT i (ps' @ qs') (ls' @ c' # rs'))" "length ls' = length ps'"
    "M \<le> length (tkeys c')"
    "inorder (BT i (ps' @ qs') (ls' @ c' # rs')) = inorder (BT i (ps @ qs) (ls @ c # rs))"
    "set (lpart (map inorder ls') ps') \<subseteq> set (lpart (map inorder ls) ps)"
    "set (rpart qs' (map inorder rs')) \<subseteq> set (rpart qs (map inorder rs))"
    unfolding prepared_def by (cases r) auto
  have "wf_node M h c'" "length rs' = length qs'" using r(3,4) by auto
  then show thesis using r wfn_raise [of "M - 1" M h c' M] by (intro that [of c' T' ps' qs' ls' rs']) auto
qed

text \<open>A step on the prepared child, seen from the node.\<close>

lemma step_prepared:
  assumes "step T (BT i (ps @ qs) (ls @ c # rs)) T1 (BT i ks' (ls' @ c' # rs'))" "step T1 c' T2 c''"
    "repr (store T) (BT i (ps @ qs) (ls @ c # rs))" "fresh T"
  shows "step T (BT i (ps @ qs) (ls @ c # rs)) T2 (BT i ks' (ls' @ c'' # rs'))"
proof (rule step_trans [OF assms(1) step_child [OF assms(2)] assms(4)])
  show "fresh T1" by (rule step_fresh [OF assms(1,4,3)])
qed (use assms(1) in \<open>auto simp: step_def\<close>)

lemma step_parts:
  assumes "step T t T1 (BT i ks' (ls' @ c' # rs'))" "repr (store T) t" "fresh T"
  shows "repr (store T1) c'" "distinct (ids c')" "fresh T1"
  using assms step_fresh [OF assms(1,3,2)] distinct_ids_cut [of i ks' ls' c' rs'] by (auto simp: step_def)

lemma remove_largest_key_correct:
  assumes "repr (store T) t" "distinct (ids t)" "fresh T" "wfn m M h t" "1 \<le> m" "2 \<le> M"
  shows "\<exists>k T' t'. remove_largest_key M T (rid t) = Some (k, T') \<and> step T t T' t' \<and>
    wfn (m - 1) M h t' \<and> inorder t = inorder t' @ [k]"
  using assms
proof (induction h arbitrary: m T t)
  case 0
  obtain i ks where t: "t = BT i ks []" and "1 \<le> length ks" using 0 by (cases t) auto
  then obtain ks' k where ks: "ks = ks' @ [k]" by (cases ks rule: rev_cases) auto
  let ?T' = "put_node T i \<lparr>keys = ks', children = []\<rparr>"
  have "remove_largest_key M T (rid t) = Some (k, ?T')"
    using 0 t ks by (subst remove_largest_key.simps) (simp add: get_node_def is_leaf_def vec_simps)
  moreover have "step T t ?T' (BT i ks' [])"
    using step_leaf_keys [of T i ks "[]" ks'] 0 t by simp
  moreover have "wfn (m - 1) M 0 (BT i ks' [])" using 0 t ks by auto
  ultimately show ?case using t ks by (intro exI conjI) auto
next
  case (Suc h)
  obtain i ks ts where t: "t = BT i ks ts" by (cases t)
  with Suc.prems have "length ts = Suc (length ks)" by simp
  then obtain ls c where ts: "ts = ls @ [c]" "length ls = length ks" by (cases ts rule: rev_cases) auto
  have pre: "repr (store T) (BT i (ks @ []) (ls @ c # []))" "distinct (ids (BT i (ks @ []) (ls @ c # [])))"
    "wfn m M (Suc h) (BT i (ks @ []) (ls @ c # []))" using Suc.prems t ts by simp_all
  obtain r where r: "prepare_child_for_key_removal M T i (length ks) = Some r"
    "prepared m M h T i ks [] ls c [] r"
    using prepare_correct [OF pre ts(2) Suc.prems(5,6)] by blast
  from r(2) obtain T1 ps' qs' ls' c' rs' where p: "r = (rid c', T1)"
    "step T (BT i (ks @ []) (ls @ c # [])) T1 (BT i (ps' @ qs') (ls' @ c' # rs'))"
    "wfn (m - 1) M (Suc h) (BT i (ps' @ qs') (ls' @ c' # rs'))" "length ls' = length ps'"
    "length rs' = length qs'" "wfn M M h c'"
    "inorder (BT i (ps' @ qs') (ls' @ c' # rs')) = inorder (BT i (ks @ []) (ls @ c # []))"
    "set (lpart (map inorder ls') ps') \<subseteq> set (lpart (map inorder ls) ks)"
    "set (rpart qs' (map inorder rs')) \<subseteq> set (rpart [] (map inorder []))" by (rule preparedE)
  have "qs' = []" using rpart_empty [of qs' "map inorder rs'"] p(5,9) by simp
  with p(5) have nil: "qs' = []" "rs' = []" by auto
  note parts = step_parts [OF p(2) pre(1) Suc.prems(3)]
  obtain k T' c'' where IH: "remove_largest_key M T1 (rid c') = Some (k, T')" "step T1 c' T' c''"
    "wfn (M - 1) M h c''" "inorder c' = inorder c'' @ [k]"
    using Suc.IH [OF parts p(6)] Suc.prems(6) by auto
  have "remove_largest_key M T (rid t) = Some (k, T')"
    using Suc.prems(1) t ts r(1) p(1) IH(1)
    by (subst remove_largest_key.simps) (simp add: get_node_def is_leaf_def)
  moreover have "step T t T' (BT i ps' (ls' @ [c'']))"
    using step_prepared [OF p(2) IH(2) pre(1) Suc.prems(3)] t ts nil by simp
  moreover have "wfn (m - 1) M (Suc h) (BT i ps' (ls' @ [c'']))" using p(3) IH(3) nil by auto
  moreover have "inorder t = inorder (BT i ps' (ls' @ [c''])) @ [k]"
    using p(7) IH(4) t ts nil inorder_split [OF p(4), of "[]" "[]" i c'] inorder_split [OF p(4), of "[]" "[]" i c'']
    by simp
  ultimately show ?case by blast
qed

lemma remove_smallest_key_correct:
  assumes "repr (store T) t" "distinct (ids t)" "fresh T" "wfn m M h t" "1 \<le> m" "2 \<le> M"
  shows "\<exists>k T' t'. remove_smallest_key M T (rid t) = Some (k, T') \<and> step T t T' t' \<and>
    wfn (m - 1) M h t' \<and> inorder t = k # inorder t'"
  using assms
proof (induction h arbitrary: m T t)
  case 0
  obtain i ks where t: "t = BT i ks []" and "1 \<le> length ks" using 0 by (cases t) auto
  then obtain ks' k where ks: "ks = k # ks'" by (cases ks) auto
  let ?T' = "put_node T i \<lparr>keys = ks', children = []\<rparr>"
  have "remove_smallest_key M T (rid t) = Some (k, ?T')"
    using 0 t ks by (subst remove_smallest_key.simps) (simp add: get_node_def is_leaf_def vec_remove_def)
  moreover have "step T t ?T' (BT i ks' [])"
    using step_leaf_keys [of T i ks "[]" ks'] 0 t by simp
  moreover have "wfn (m - 1) M 0 (BT i ks' [])" using 0 t ks by auto
  ultimately show ?case using t ks by (intro exI conjI) auto
next
  case (Suc h)
  obtain i ks ts where t: "t = BT i ks ts" by (cases t)
  with Suc.prems have "length ts = Suc (length ks)" by simp
  then obtain rs c where ts: "ts = c # rs" "length rs = length ks" by (cases ts) auto
  have pre: "repr (store T) (BT i ([] @ ks) ([] @ c # rs))" "distinct (ids (BT i ([] @ ks) ([] @ c # rs)))"
    "wfn m M (Suc h) (BT i ([] @ ks) ([] @ c # rs))" using Suc.prems t ts by simp_all
  obtain r where r: "prepare_child_for_key_removal M T i (length ([] :: 'a list)) = Some r"
    "prepared m M h T i [] ks [] c rs r"
    using prepare_correct [OF pre _ Suc.prems(5,6)] by auto
  from r(2) obtain T1 ps' qs' ls' c' rs' where p: "r = (rid c', T1)"
    "step T (BT i ([] @ ks) ([] @ c # rs)) T1 (BT i (ps' @ qs') (ls' @ c' # rs'))"
    "wfn (m - 1) M (Suc h) (BT i (ps' @ qs') (ls' @ c' # rs'))" "length ls' = length ps'"
    "length rs' = length qs'" "wfn M M h c'"
    "inorder (BT i (ps' @ qs') (ls' @ c' # rs')) = inorder (BT i ([] @ ks) ([] @ c # rs))"
    "set (lpart (map inorder ls') ps') \<subseteq> set (lpart (map inorder []) [])"
    "set (rpart qs' (map inorder rs')) \<subseteq> set (rpart ks (map inorder rs))" by (rule preparedE)
  have "ps' = []" using lpart_empty [of "map inorder ls'" ps'] p(4,8) by simp
  with p(4) have nil: "ps' = []" "ls' = []" by auto
  note parts = step_parts [OF p(2) pre(1) Suc.prems(3)]
  obtain k T' c'' where IH: "remove_smallest_key M T1 (rid c') = Some (k, T')" "step T1 c' T' c''"
    "wfn (M - 1) M h c''" "inorder c' = k # inorder c''"
    using Suc.IH [OF parts p(6)] Suc.prems(6) by auto
  have "remove_smallest_key M T (rid t) = Some (k, T')"
    using Suc.prems(1) t ts r(1) p(1) IH(1)
    by (subst remove_smallest_key.simps) (simp add: get_node_def is_leaf_def)
  moreover have "step T t T' (BT i qs' (c'' # rs'))"
    using step_prepared [OF p(2) IH(2) pre(1) Suc.prems(3)] t ts nil by simp
  moreover have "wfn (m - 1) M (Suc h) (BT i qs' (c'' # rs'))" using p(3) IH(3) nil by auto
  moreover have "inorder t = k # inorder (BT i qs' (c'' # rs'))"
    using p(5,7) IH(4) t ts nil by (simp add: ilv_first)
  ultimately show ?case by blast
qed

section \<open>The descent\<close>

lemma ascending_drop_mid:
  assumes "ascending (xs @ k # ys)"
  shows "ascending (xs @ ys)" "set (xs @ ys) = set (xs @ k # ys) - {k}"
  using assms by (auto simp: ascending_append)

lemma ascending_shrink:
  "ascending (xs @ cs @ ys) \<Longrightarrow> ascending cs' \<Longrightarrow> set cs' \<subseteq> set cs \<Longrightarrow> ascending (xs @ cs' @ ys)"
  by (auto simp: ascending_append)

text \<open>What a run of \<open>remove_loop\<close> on a subtree establishes.\<close>

definition removed :: "nat \<Rightarrow> nat \<Rightarrow> nat \<Rightarrow> 'k::linorder btree_set \<Rightarrow> 'k bt \<Rightarrow> 'k \<Rightarrow> bool \<times> 'k btree_set \<Rightarrow> bool" where
  "removed m M h T t k r \<longleftrightarrow> fst r = (k \<in> set (inorder t)) \<and>
     (\<exists>t'. step T t (snd r) t' \<and> wfn (m - 1) M h t' \<and> ascending (inorder t') \<and>
           set (inorder t') = set (inorder t) - {k})"

lemma removedI:
  assumes "step T t T' t'" "wfn (m - 1) M h t'" "ascending (inorder t')"
    "set (inorder t') = set (inorder t) - {k}" "b = (k \<in> set (inorder t))"
  shows "removed m M h T t k (b, T')"
  using assms by (auto simp: removed_def)

lemma remove_loop_leaf:
  assumes rep: "repr (store T) t" and dist: "distinct (ids t)" and wf: "wfn m M 0 t"
    and asc: "ascending (inorder t)"
  shows "\<exists>r. remove_loop M T (rid t) k = Some r \<and> removed m M 0 T t k r"
proof -
  obtain i ks where t: "t = BT i ks []" using wf by (cases t) auto
  have node: "get_node T i = Some \<lparr>keys = ks, children = []\<rparr>" using rep t by (simp add: get_node_def)
  show ?thesis
  proof (cases "binary_search ks k")
    case (Inl n)
    then have "k \<notin> set ks" using binary_search_Inl_notin asc t by fastforce
    then have "removed m M 0 T t k (False, T)"
      using wfn_mono [OF wf] asc t by (intro removedI [OF step_refl [OF rep dist]]) auto
    moreover have "remove_loop M T (rid t) k = Some (False, T)"
      using node t Inl by (subst remove_loop.simps) (simp add: is_leaf_def)
    ultimately show ?thesis by blast
  next
    case (Inr n)
    then obtain ps qs where ks: "ks = ps @ k # qs" "length ps = n" by (rule binary_search_Inr)
    let ?T' = "put_node T i \<lparr>keys = ps @ qs, children = []\<rparr>"
    have st: "step T t ?T' (BT i (ps @ qs) [])" using step_leaf_keys [of T i ks "[]" "ps @ qs"] rep dist t by simp
    have a: "ascending (ps @ k # qs)" using asc t ks by simp
    have "wfn (m - 1) M 0 (BT i (ps @ qs) [])" using wf t ks by auto
    then have "removed m M 0 T t k (True, ?T')"
      using t ks ascending_drop_mid [OF a] by (intro removedI [OF st]) simp_all
    moreover have "remove_loop M T (rid t) k = Some (True, ?T')"
      using node t Inr ks by (subst remove_loop.simps) (auto simp: is_leaf_def vec_remove_mid)
    ultimately show ?thesis by blast
  qed
qed

text \<open>Replacing the key that was found by its neighbour in a subtree.\<close>

lemma removed_replace:
  assumes st: "step T (BT i (ps @ k # qs) ts) T1 (BT i (ps @ k # qs) ts')"
    and rep: "repr (store T) (BT i (ps @ k # qs) ts)" and fr: "fresh T"
    and wf: "wfn m M (Suc h) (BT i (ps @ k # qs) ts)" "wfn (m - 1) M (Suc h) (BT i (ps @ k' # qs) ts')"
    and io: "inorder (BT i (ps @ k # qs) ts) = xs @ k # ys" "inorder (BT i (ps @ k' # qs) ts') = xs @ ys"
    and asc: "ascending (inorder (BT i (ps @ k # qs) ts))"
  shows "removed m M (Suc h) T (BT i (ps @ k # qs) ts) k
    (True, put_node T1 i \<lparr>keys = ps @ k' # qs, children = map rid ts'\<rparr>)"
proof -
  let ?t1 = "BT i (ps @ k # qs) ts'"
  have r1: "repr (store T1) ?t1" "distinct (ids ?t1)" using st by (auto simp: step_def)
  have "step T (BT i (ps @ k # qs) ts) (put_node T1 i \<lparr>keys = ps @ k' # qs, children = map rid ts'\<rparr>)
      (BT i (ps @ k' # qs) ts')"
    by (rule step_trans [OF st step_leaf_keys [OF r1] fr])
  then show ?thesis
  proof (rule removedI [OF _ wf(2)])
    show "ascending (inorder (BT i (ps @ k' # qs) ts'))"
      "set (inorder (BT i (ps @ k' # qs) ts')) = set (inorder (BT i (ps @ k # qs) ts)) - {k}"
      using asc ascending_drop_mid [of xs k ys] unfolding io by blast+
    show "True = (k \<in> set (inorder (BT i (ps @ k # qs) ts)))" unfolding io by simp
  qed
qed

lemma remove_loop_found:
  assumes rep: "repr (store T) (BT i (ps @ k # qs) ts)" and dist: "distinct (ids (BT i (ps @ k # qs) ts))"
    and fr: "fresh T" and wf: "wfn m M (Suc h) (BT i (ps @ k # qs) ts)" and m: "1 \<le> m" and M: "2 \<le> M"
    and asc: "ascending (inorder (BT i (ps @ k # qs) ts))"
    and bs: "binary_search (ps @ k # qs) k = Inr (length ps)"
    and IH: "\<And>T c. repr (store T) c \<Longrightarrow> distinct (ids c) \<Longrightarrow> fresh T \<Longrightarrow> wfn M M h c \<Longrightarrow>
      ascending (inorder c) \<Longrightarrow> \<exists>r. remove_loop M T (rid c) k = Some r \<and> removed M M h T c k r"
  shows "\<exists>r. remove_loop M T i k = Some r \<and> removed m M (Suc h) T (BT i (ps @ k # qs) ts) k r"
proof -
  obtain ls l rs0 where c1: "ts = ls @ l # rs0" "length ls = length ps" "length rs0 = length (k # qs)"
    by (rule cut_node [OF wf refl])
  then obtain r rs where c: "ts = ls @ l # r # rs" and lr: "length rs = length qs" by (cases rs0) auto
  let ?t = "BT i (ps @ k # qs) (ls @ l # r # rs)"
  note pre = rep [unfolded c] dist [unfolded c] wf [unfolded c]
  let ?A = "lpart (map inorder ls) ps" and ?B = "rpart qs (map inorder rs)"
  note pair = inorder_pair [OF c1(2) lr]
  have asc': "ascending (?A @ (inorder l @ k # inorder r) @ ?B)" using asc unfolding c pair .
  have node: "get_node T i = Some \<lparr>keys = ps @ k # qs, children = map rid (ls @ l # r # rs)\<rparr>"
    "get_node T (rid l) = Some (node_of l)" "get_node T (rid r) = Some (node_of r)"
    using pre(1) by (auto simp: get_node_repr) (simp add: get_node_def)
  have dl: "distinct (ids l)" "distinct (ids r)" "repr (store T) l" "repr (store T) r" using pre by auto
  have wl: "wf_node M h l" "wf_node M h r" using wf c by auto
  note run = remove_loop.simps [of M T i k]
  show ?thesis
  proof (cases "length (tkeys l) = M - 1")
    case False
    then have "wfn M M h l" using wfn_raise [OF wl(1)] wfn_min [OF wl(1)] by simp
    then obtain k1 T1 l' where R: "remove_largest_key M T (rid l) = Some (k1, T1)" "step T l T1 l'"
      "wf_node M h l'" "inorder l = inorder l' @ [k1]"
      using remove_largest_key_correct [OF dl(3,1) fr, of M M h] M by auto
    have st: "step T ?t T1 (BT i (ps @ k # qs) (ls @ l' # r # rs))" by (rule step_child [OF R(2) pre(1,2) fr])
    have "removed m M (Suc h) T ?t k (True, put_node T1 i \<lparr>keys = ps @ k1 # qs, children = map rid (ls @ l' # r # rs)\<rparr>)"
      by (rule removed_replace [OF st pre(1) fr pre(3), where xs = "?A @ inorder l" and ys = "inorder r @ ?B"])
        (use wf c R(3,4) asc in \<open>auto simp only: pair append_assoc append.simps wfn.simps length_append list.size set_append set_simps\<close>)
    moreover have "rid l' = rid l" using R(2) by (simp add: step_def)
    ultimately show ?thesis
      using R(1) node False bs c c1(2)
      by (subst run) (simp add: is_leaf_def is_at_min_def MINIMUM_KEY_LEN_def vec_get_def nth_append)
  next
    case l_min: True
    show ?thesis
    proof (cases "length (tkeys r) = M - 1")
      case False
      then have "wfn M M h r" using wfn_raise [OF wl(2)] wfn_min [OF wl(2)] by simp
      then obtain k1 T1 r' where R: "remove_smallest_key M T (rid r) = Some (k1, T1)" "step T r T1 r'"
        "wf_node M h r'" "inorder r = k1 # inorder r'"
        using remove_smallest_key_correct [OF dl(4,2) fr, of M M h] M by auto
      have st: "step T ?t T1 (BT i (ps @ k # qs) (ls @ l # r' # rs))"
        using step_child [OF R(2), of i "ps @ k # qs" "ls @ [l]" rs] pre fr by simp
      have "removed m M (Suc h) T ?t k (True, put_node T1 i \<lparr>keys = ps @ k1 # qs, children = map rid (ls @ l # r' # rs)\<rparr>)"
        by (rule removed_replace [OF st pre(1) fr pre(3), where xs = "?A @ inorder l" and ys = "inorder r @ ?B"])
          (use wf c R(3,4) asc in \<open>auto simp only: pair append_assoc append.simps wfn.simps length_append list.size set_append set_simps\<close>)
      moreover have "rid r' = rid r" using R(2) by (simp add: step_def)
      ultimately show ?thesis
        using R(1) node False l_min bs c c1(2)
        by (subst run) (simp add: is_leaf_def is_at_min_def MINIMUM_KEY_LEN_def vec_get_def nth_append)
    next
      case r_min: True
      obtain T1 u where U: "merge_nodes T i (length ps) (rid l) (rid r) = Some T1" "rid u = rid l"
        "step T ?t T1 (BT i (ps @ qs) (ls @ u # rs))"
        "wfn (m - 1) M (Suc h) (BT i (ps @ qs) (ls @ u # rs))" "inorder u = inorder l @ k # inorder r"
        "length (tkeys u) = 2 * M - 1" "tkeys u = tkeys l @ k # tkeys r"
        by (rule merge_nodes_correct [OF pre c1(2) l_min r_min M])
      note parts = step_parts [OF U(3) pre(1) fr]
      have "wf_node M h u" using U(4) by auto
      then have wu: "wfn M M h u" by (rule wfn_raise) (use U(6) M in simp)
      have au: "ascending (inorder u)" using asc' U(5) by (simp add: ascending_append)
      obtain b T2 where R: "remove_loop M T1 (rid u) k = Some (b, T2)" "removed M M h T1 u k (b, T2)"
        using IH [OF parts wu au] by auto
      then obtain u' where u': "step T1 u T2 u'" "wf_node M h u'" "ascending (inorder u')"
        "set (inorder u') = set (inorder u) - {k}" "b" using U(5) by (auto simp: removed_def)
      have st: "step T ?t T2 (BT i (ps @ qs) (ls @ u' # rs))"
        by (rule step_trans [OF U(3) step_child [OF u'(1)] fr]) (use U(3) parts in \<open>auto simp: step_def\<close>)
      have spl: "inorder (BT i (ps @ qs) (ls @ u' # rs)) = ?A @ inorder u' @ ?B" by (rule inorder_split [OF c1(2) lr])
      have out: "k \<notin> set ?A \<union> set ?B" using asc' by (auto simp: ascending_append)
      have "removed m M (Suc h) T ?t k (b, T2)"
      proof (rule removedI [OF st])
        show "wfn (m - 1) M (Suc h) (BT i (ps @ qs) (ls @ u' # rs))" using U(4) u'(2) by auto
        show "ascending (inorder (BT i (ps @ qs) (ls @ u' # rs)))"
          unfolding spl by (rule ascending_shrink [OF asc' u'(3)]) (use u'(4) U(5) in auto)
        show "set (inorder (BT i (ps @ qs) (ls @ u' # rs))) = set (inorder ?t) - {k}"
          unfolding spl pair using u'(4) U(5) out by auto
        show "b = (k \<in> set (inorder ?t))" unfolding pair using u'(5) by simp
      qed
      then show ?thesis
        using U(1,2) R(1) node l_min r_min bs c c1(2)
        by (subst run) (simp add: is_leaf_def is_at_min_def MINIMUM_KEY_LEN_def vec_get_def nth_append)
    qed
  qed
qed

lemma remove_loop_correct:
  assumes "repr (store T) t" "distinct (ids t)" "fresh T" "wfn m M h t" "1 \<le> m" "2 \<le> M" "ascending (inorder t)"
  shows "\<exists>r. remove_loop M T (rid t) k = Some r \<and> removed m M h T t k r"
  using assms
proof (induction h arbitrary: m T t)
  case 0
  then show ?case by (intro remove_loop_leaf)
next
  case (Suc h)
  obtain i ks ts where t: "t = BT i ks ts" by (cases t)
  have IH: "\<exists>r. remove_loop M T (rid c) k = Some r \<and> removed M M h T c k r"
    if "repr (store T) c" "distinct (ids c)" "fresh T" "wfn M M h c" "ascending (inorder c)" for T c
    using Suc.IH [OF that(1-4) _ Suc.prems(6) that(5)] Suc.prems(6) by simp
  show ?case
  proof (cases "binary_search ks k")
    case (Inr n)
    then obtain ps qs where ks: "ks = ps @ k # qs" "length ps = n" by (rule binary_search_Inr)
    then show ?thesis
      using remove_loop_found [of T i ps k qs ts m M h] Suc.prems Inr IH t by auto
  next
    case (Inl n)
    obtain ps qs ls c rs where cut: "ks = ps @ qs" "n = length ps" "ts = ls @ c # rs"
      "length ls = length ps" "length rs = length qs"
      "\<forall>x \<in> set (lpart (map inorder ls) ps). x < k" "\<forall>x \<in> set (rpart qs (map inorder rs)). k < x"
      "wf_node M h c" "ascending (inorder c)"
      by (rule search_cut [OF Suc.prems(4,7) [unfolded t] Inl])
    note pre = Suc.prems(1,2,4) [unfolded t cut(1,3)]
    obtain r where r: "prepare_child_for_key_removal M T i (length ps) = Some r"
      "prepared m M h T i ps qs ls c rs r"
      using prepare_correct [OF pre cut(4) Suc.prems(5,6)] by blast
    from r(2) obtain T1 ps' qs' ls' c' rs' where p: "r = (rid c', T1)"
      "step T (BT i (ps @ qs) (ls @ c # rs)) T1 (BT i (ps' @ qs') (ls' @ c' # rs'))"
      "wfn (m - 1) M (Suc h) (BT i (ps' @ qs') (ls' @ c' # rs'))" "length ls' = length ps'"
      "length rs' = length qs'" "wfn M M h c'"
      "inorder (BT i (ps' @ qs') (ls' @ c' # rs')) = inorder (BT i (ps @ qs) (ls @ c # rs))"
      "set (lpart (map inorder ls') ps') \<subseteq> set (lpart (map inorder ls) ps)"
      "set (rpart qs' (map inorder rs')) \<subseteq> set (rpart qs (map inorder rs))" by (rule preparedE)
    note parts = step_parts [OF p(2) pre(1) Suc.prems(3)]
    let ?A = "lpart (map inorder ls') ps'" and ?B = "rpart qs' (map inorder rs')"
    have out: "k \<notin> set ?A \<union> set ?B" using p(8,9) cut(6,7) by fastforce
    have io: "inorder t = ?A @ inorder c' @ ?B"
      using p(7) inorder_split [OF p(4,5), of i c'] t cut(1,3) by simp
    have asc: "ascending (?A @ inorder c' @ ?B)" using Suc.prems(7) io by simp
    then have asc_c: "ascending (inorder c')" by (simp add: ascending_append)
    obtain b T2 where R: "remove_loop M T1 (rid c') k = Some (b, T2)" "removed M M h T1 c' k (b, T2)"
      using IH [OF parts p(6) asc_c] by auto
    then obtain u where u: "step T1 c' T2 u" "wf_node M h u" "ascending (inorder u)"
      "set (inorder u) = set (inorder c') - {k}" "b = (k \<in> set (inorder c'))" by (auto simp: removed_def)
    have st: "step T t T2 (BT i (ps' @ qs') (ls' @ u # rs'))"
      using step_prepared [OF p(2) u(1) pre(1) Suc.prems(3)] t cut(1,3) by simp
    have spl: "inorder (BT i (ps' @ qs') (ls' @ u # rs')) = ?A @ inorder u @ ?B"
      by (rule inorder_split [OF p(4,5)])
    have "removed m M (Suc h) T t k (b, T2)"
    proof (rule removedI [OF st])
      show "wfn (m - 1) M (Suc h) (BT i (ps' @ qs') (ls' @ u # rs'))" using p(3) u(2) by auto
      show "ascending (inorder (BT i (ps' @ qs') (ls' @ u # rs')))"
        unfolding spl by (rule ascending_shrink [OF asc u(3)]) (use u(4) in auto)
      show "set (inorder (BT i (ps' @ qs') (ls' @ u # rs'))) = set (inorder t) - {k}"
        unfolding spl io using u(4) out by auto
      show "b = (k \<in> set (inorder t))" unfolding io using u(5) out by auto
    qed
    moreover have "remove_loop M T (rid t) k = Some (b, T2)"
      using R(1) r(1) p(1) Inl cut(1-3) Suc.prems(1) t
      by (subst remove_loop.simps) (simp add: get_node_def is_leaf_def)
    ultimately show ?thesis by blast
  qed
qed

section \<open>Removing from the set\<close>

lemma wfn_inorder_empty:
  assumes "wfn 0 M h t" "inorder t = []" "2 \<le> M"
  shows "h = 0" "tkeys t = []" "subs t = []"
proof -
  show h: "h = 0"
  proof (rule ccontr)
    assume "h \<noteq> 0"
    then obtain h' where h': "h = Suc h'" by (cases h) auto
    obtain i ks ts where t: "t = BT i ks ts" by (cases t)
    have len: "length ts = Suc (length ks)" using assms(1) h' t by simp
    then obtain u us where u: "ts = u # us" by (cases ts) auto
    have "wf_node M h' u" using assms(1) h' t u by simp
    then have "tkeys u \<noteq> []" "set (tkeys u) \<subseteq> set (inorder u)"
      using wfn_min [of "M - 1" M h' u] wfn_keys_in_inorder [of "M - 1" M h' u] assms(3) by auto
    then have "inorder u \<noteq> []" by (cases "tkeys u") auto
    then show False using assms(2) len t u set_ilv [of "map inorder ts" ks] by (cases "inorder u") auto
  qed
  show "tkeys t = []" "subs t = []" using assms h by (cases t; simp)+
qed

lemma shrink_root:
  assumes st: "step T t T1 t'" and tree: "tree_of M T h t" and wf: "wfn 0 M h t'"
    and asc: "ascending (inorder t')" and len: "unat l = length (inorder t')" and fr: "fresh T"
    and ks: "tkeys t' = []" and ne: "inorder t' \<noteq> []" and M: "2 \<le> M"
  obtains c where "subs t' = [c]"
    "btree_inv M (delete_node (T1\<lparr>len := l, root := Some (rid c)\<rparr>) (rid t'))"
    "elements (delete_node (T1\<lparr>len := l, root := Some (rid c)\<rparr>) (rid t')) = set (inorder t')"
proof -
  obtain i ts where t': "t' = BT i [] ts" using ks by (cases t') auto
  obtain h' where h: "h = Suc h'" using wf ne t' by (cases h) auto
  with wf t' obtain c where ts: "ts = [c]" by (auto simp: length_Suc_conv)
  let ?T' = "delete_node (T1\<lparr>len := l, root := Some (rid c)\<rparr>) i"
  have r: "repr (store T1) t'" "distinct (ids t')" using st by (auto simp: step_def)
  have dom: "dom (store T1) = set (ids t')" using step_dom [OF st] tree by (simp add: tree_of_def)
  have io: "inorder t' = inorder c" using t' ts by simp
  have "wfn 1 M h' c" using wf h t' ts M wfn_mono [of "M - 1" M h' c 1] by simp
  moreover have "repr (store ?T') c" "distinct (ids c)" using r t' ts by auto
  moreover have "dom (store ?T') = set (ids c)" using dom t' ts r(2) by auto
  ultimately have tr: "tree_of M ?T' h' c" using asc len io by (simp add: tree_of_def)
  have "fresh T1" by (rule step_fresh [OF st fr]) (use tree in \<open>simp add: tree_of_def\<close>)
  then have "fresh ?T'" by (auto simp: fresh_def)
  then have "btree_inv M ?T'" by (rule btree_invI [OF _ _ tr]) simp
  then show thesis using that [of c] t' ts elements_tree [OF tr] io by simp
qed

lemma btree_set_remove_correct:
  assumes inv: "btree_inv M T" and M: "2 \<le> M"
  shows "\<exists>T'. btree_set_remove M T k = Some (k \<in> elements T, T') \<and> btree_inv M T' \<and>
    elements T' = elements T - {k}"
proof (cases "root T")
  case None
  then show ?thesis using inv by (auto simp: btree_set_remove_def btree_inv_def elements_empty)
next
  case (Some i)
  then obtain h t where i: "i = rid t" and tree: "tree_of M T h t" and fr: "fresh T"
    using inv by (elim btree_invE)
  note t = tree [unfolded tree_of_def]
  have el: "elements T = set (inorder t)" by (rule elements_tree [OF tree])
  obtain T1 t' where R: "remove_loop M T (rid t) k = Some (k \<in> set (inorder t), T1)"
    and st: "step T t T1 t'" and wf: "wfn 0 M h t'" and asc: "ascending (inorder t')"
    and set: "set (inorder t') = set (inorder t) - {k}"
    using remove_loop_correct [of T t 1 M h k] t fr M by (auto simp: removed_def)
  have r1: "rid t' = rid t" "repr (store T1) t'" "len T1 = len T" "root T1 = Some (rid t')"
    using st i Some by (auto simp: step_def)
  have dom: "dom (store T1) = set (ids t')" "distinct (ids t')"
    using step_dom [OF st] t st by (auto simp: step_def)
  have fr1: "fresh T1" by (rule step_fresh [OF st fr]) (use t in simp)
  define l where "l = (if k \<in> set (inorder t) then len T - 1 else len T)"
  have card: "length (inorder t') = card (set (inorder t) - {k})" "length (inorder t) = card (set (inorder t))"
    using asc t set by (metis distinct_card strict_sorted_iff, metis distinct_card strict_sorted_iff)
  have l: "unat l = length (inorder t')"
  proof (cases "k \<in> set (inorder t)")
    case True
    then have "0 < length (inorder t)" by (cases "inorder t") auto
    then have "len T \<noteq> 0" using t by auto
    then have "unat (len T - 1) = unat (len T) - 1" by (rule unat_minus_one)
    then show ?thesis using True card t by (simp add: l_def)
  qed (use card t in \<open>simp add: l_def\<close>)
  let ?d = "k \<in> set (inorder t)"
  let ?T2 = "if ?d then T1\<lparr>len := len T1 - 1\<rparr> else T1"
  have T2: "?T2 = T1\<lparr>len := l\<rparr>" using r1(3) by (simp add: l_def)
  have node: "get_node T1 (rid t) = Some (node_of t')" using get_node_repr [OF r1(2)] r1(1) by simp
  have run: "btree_set_remove M T k = (if ?d \<and> l = 0
      then Some (True, delete_node (T1\<lparr>len := l, root := None\<rparr>) (rid t'))
      else if tkeys t' = [] then
        (case vec_get (map rid (subs t')) 0 of None \<Rightarrow> None
         | Some c \<Rightarrow> Some (?d, delete_node (T1\<lparr>len := l, root := Some c\<rparr>) (rid t')))
      else Some (?d, T1\<lparr>len := l\<rparr>))"
    using Some i R node r1(1,3)
    by (simp add: btree_set_remove_def l_def Option.bind_def Let_def split: option.split)
  consider (empty) "inorder t' = []" | (shrink) "inorder t' \<noteq> []" "tkeys t' = []" | (keep) "tkeys t' \<noteq> []" by blast
  then show ?thesis
  proof cases
    case empty
    note e = wfn_inorder_empty [OF wf empty M]
    have "?d"
    proof (rule ccontr)
      assume "\<not> ?d"
      then have "inorder t = []" using set empty by simp
      then show False using t wfn_inorder_empty [of M h t] wfn_mono [of 1 M h t 0] wfn_min [of 1 M h t] M by auto
    qed
    moreover have "l = 0" using l empty by (simp add: unat_eq_zero)
    moreover have "store (delete_node (T1\<lparr>len := l, root := None\<rparr>) (rid t')) = Map.empty"
      using dom(1) e(3) ids_subs [of t'] by (auto simp: fun_eq_iff domIff)
    ultimately show ?thesis using run el set empty by (auto simp: btree_inv_def fresh_def elements_empty)
  next
    case shrink
    then have "l \<noteq> 0" using l by auto
    obtain c where "subs t' = [c]" "btree_inv M (delete_node (T1\<lparr>len := l, root := Some (rid c)\<rparr>) (rid t'))"
      "elements (delete_node (T1\<lparr>len := l, root := Some (rid c)\<rparr>) (rid t')) = set (inorder t')"
      by (rule shrink_root [OF st tree wf asc l fr shrink(2,1) M])
    then show ?thesis using run \<open>l \<noteq> 0\<close> shrink(2) el set by (auto simp: vec_get_def)
  next
    case keep
    then have "wfn 1 M h t'" using wfn_raise [OF wf, of 1] by (cases "tkeys t'") auto
    then have tr: "tree_of M (T1\<lparr>len := l\<rparr>) h t'" using r1(2) dom asc l by (simp add: tree_of_def)
    have "inorder t' \<noteq> []" using keep wfn_keys_in_inorder [OF wf] by (cases "tkeys t'") auto
    then have "l \<noteq> 0" using l by auto
    moreover have "btree_inv M (T1\<lparr>len := l\<rparr>)"
      by (rule btree_invI [OF _ _ tr]) (use fr1 r1(4) in \<open>simp_all add: fresh_def\<close>)
    ultimately show ?thesis using run keep elements_tree [OF tr] el set by auto
  qed
qed

end
