(* ===== verification/BTree_Lookup.thy ===== *)
theory BTree_Lookup
  imports BTree_Remove
begin

text \<open>
  The read-only operations of the set: membership, the neighbours of a key, the first and
  the last key. Each loop is related to a search in the in-order list of the subtree it
  walks, and that list is the sorted list of the set's elements.
\<close>

section \<open>Cutting a node at a key\<close>

lemma lpart_below:
  "length xs = length ks \<Longrightarrow> ascending (lpart xs ks) \<Longrightarrow> x \<in> set (lpart xs ks) \<Longrightarrow>
   \<exists>k \<in> set ks. x \<le> (k::'a::linorder)"
  by (induction xs ks rule: list_induct2) (auto simp: ascending_append)

lemma rpart_above:
  "length xs = length ks \<Longrightarrow> ascending (rpart ks xs) \<Longrightarrow> x \<in> set (rpart ks xs) \<Longrightarrow>
   \<exists>k \<in> set ks. (k::'a::linorder) \<le> x"
proof (induction xs ks rule: list_induct2)
  case Nil
  then show ?case by simp
next
  case (Cons x' xs k' ks)
  then have a: "\<forall>y \<in> set x'. k' < y" "ascending (rpart ks xs)" by (auto simp: ascending_append)
  from Cons.prems consider "x = k'" | "x \<in> set x'" | "x \<in> set (rpart ks xs)" by auto
  then show ?case
  proof cases
    case 2
    then have "k' \<le> x" using a(1) by auto
    then show ?thesis by simp
  next
    case 3
    then show ?thesis using Cons.IH [OF a(2)] by auto
  qed simp
qed

lemma cut_at:
  assumes wf: "wfn m M (Suc h) (BT i (ps @ qs) ts)" and asc: "ascending (inorder (BT i (ps @ qs) ts))"
  obtains ls c rs where "ts = ls @ c # rs" "length ls = length ps" "length rs = length qs"
    "inorder (BT i (ps @ qs) ts) = lpart (map inorder ls) ps @ inorder c @ rpart qs (map inorder rs)"
    "\<forall>x \<in> set (lpart (map inorder ls) ps). \<exists>k \<in> set ps. x \<le> k"
    "\<forall>x \<in> set (rpart qs (map inorder rs)). \<exists>k \<in> set qs. k \<le> x"
    "wf_node M h c" "ascending (inorder c)"
proof -
  obtain ls c rs where ts: "ts = ls @ c # rs" "length ls = length ps" "length rs = length qs"
    by (rule cut_node [OF wf refl])
  have io: "inorder (BT i (ps @ qs) ts) = lpart (map inorder ls) ps @ inorder c @ rpart qs (map inorder rs)"
    using inorder_split [OF ts(2,3)] ts(1) by simp
  have a: "ascending (lpart (map inorder ls) ps)" "ascending (rpart qs (map inorder rs))" "ascending (inorder c)"
    using asc unfolding io by (auto simp: ascending_append)
  show thesis
    using that [OF ts io] a wf ts lpart_below [of "map inorder ls" ps] rpart_above [of "map inorder rs" qs] by auto
qed

lemma search_split:
  assumes "ascending ks"
  obtains (found) ps qs where "binary_search ks k = Inr (length ps)" "ks = ps @ k # qs"
      "\<forall>x \<in> set ps. x < k" "\<forall>x \<in> set qs. k < x"
  | (absent) ps qs where "binary_search ks k = Inl (length ps)" "ks = ps @ qs"
      "\<forall>x \<in> set ps. x < k" "\<forall>x \<in> set qs. k < x"
proof (cases "binary_search ks k")
  case (Inl n)
  then show thesis by (rule binary_search_Inl [OF _ assms]) (use Inl absent in auto)
next
  case (Inr n)
  then show thesis by (rule binary_search_Inr) (use Inr assms found in \<open>auto simp: ascending_append\<close>)
qed

section \<open>Membership\<close>

lemma contains_loop_correct:
  assumes "repr (store T) t" "wfn m M h t" "ascending (inorder t)"
  shows "contains_loop T (rid t) k = Some (k \<in> set (inorder t))"
  using assms
proof (induction h arbitrary: m t)
  case 0
  then obtain i ks where t: "t = BT i ks []" by (cases t) auto
  show ?case
    using 0 t binary_search_Inl_notin [of ks k]
    by (subst contains_loop.simps)
      (auto simp: get_node_def is_leaf_def split: sum.split elim: binary_search_Inr)
next
  case (Suc h)
  obtain i ks ts where t: "t = BT i ks ts" by (cases t)
  have node: "get_node T (rid t) = Some \<lparr>keys = ks, children = map rid ts\<rparr>" using Suc.prems t by (simp add: get_node_def)
  show ?case
  proof (cases "binary_search ks k")
    case (Inr n)
    then have "k \<in> set ks" by (rule binary_search_Inr) auto
    then have "k \<in> set (inorder t)" using wfn_keys_in_inorder [OF Suc.prems(2)] t by auto
    then show ?thesis using node Inr by (subst contains_loop.simps) simp
  next
    case (Inl n)
    obtain ps qs ls c rs where cut: "ks = ps @ qs" "n = length ps" "ts = ls @ c # rs"
      "length ls = length ps" "length rs = length qs"
      "\<forall>x \<in> set (lpart (map inorder ls) ps). x < k" "\<forall>x \<in> set (rpart qs (map inorder rs)). k < x"
      "wf_node M h c" "ascending (inorder c)"
      by (rule search_cut [OF Suc.prems(2,3) [unfolded t] Inl])
    have "contains_loop T (rid c) k = Some (k \<in> set (inorder c))"
      using Suc.IH [OF _ cut(8,9)] Suc.prems(1) t cut(3) by simp
    moreover have "k \<in> set (inorder t) \<longleftrightarrow> k \<in> set (inorder c)"
      using inorder_split [OF cut(4,5), of i c] t cut(1,3,6,7) by auto
    ultimately show ?thesis
      using node Inl cut(2-4) by (subst contains_loop.simps) (simp add: is_leaf_def vec_get_def nth_append)
  qed
qed

section \<open>Neighbours\<close>

lemma find_append: "List.find P (xs @ ys) = (case List.find P xs of None \<Rightarrow> List.find P ys | Some x \<Rightarrow> Some x)"
  by (induction xs) auto

lemma find_none: "\<forall>x \<in> set xs. \<not> P x \<Longrightarrow> List.find P xs = None"
  by (simp add: find_None_iff)

text \<open>The first element of the right part that satisfies an upward closed predicate is its first key.\<close>

lemma find_rpart:
  "\<forall>q \<in> set qs. P q \<Longrightarrow> length xs = length qs \<Longrightarrow>
   List.find P (rpart qs xs) = (if qs = [] then None else Some (hd qs))"
  by (cases qs; cases xs) auto

lemma find_rev_lpart:
  "\<forall>p \<in> set ps. P p \<Longrightarrow> length xs = length ps \<Longrightarrow>
   List.find P (rev (lpart xs ps)) = (if ps = [] then None else Some (last ps))"
  by (cases ps rule: rev_cases; cases xs rule: rev_cases) auto

abbreviation orelse :: "'a option \<Rightarrow> 'a option \<Rightarrow> 'a option" where
  "orelse x y \<equiv> (case x of None \<Rightarrow> y | Some z \<Rightarrow> Some z)"

lemma pick_right: "qs \<noteq> [] \<Longrightarrow> (ps @ qs) ! length ps = hd qs"
  by (simp add: nth_append hd_conv_nth)

lemma pick_left: "ps \<noteq> [] \<Longrightarrow> vec_get (ps @ qs) (length ps - Suc 0) = Some (last ps)"
  by (cases ps rule: rev_cases) (auto simp: vec_get_def nth_append)

lemma find_right:
  assumes "\<forall>x \<in> set ps. \<not> P x" "\<forall>x \<in> set qs. P x"
  shows "List.find P (ps @ qs) = (if qs = [] then None else Some (hd qs))"
  using assms by (cases qs) (auto simp: find_append find_none)

text \<open>
  One level of the four neighbour searches. \<open>P\<close> holds from some point of the in-order list
  on (searches upwards) or up to some point (downwards).
\<close>

lemma find_up:
  assumes wf: "wfn m M (Suc h) (BT i (ps @ qs) ts)" and asc: "ascending (inorder (BT i (ps @ qs) ts))"
    and no: "\<forall>x \<in> set ps. \<not> P x" and yes: "\<forall>x \<in> set qs. P x" and up: "\<And>x y. x \<le> y \<Longrightarrow> P x \<Longrightarrow> P y"
  obtains ls c rs where "ts = ls @ c # rs" "length ls = length ps" "wf_node M h c" "ascending (inorder c)"
    "List.find P (inorder (BT i (ps @ qs) ts)) =
       orelse (List.find P (inorder c)) (if qs = [] then None else Some (hd qs))"
proof -
  obtain ls c rs where cut: "ts = ls @ c # rs" "length ls = length ps" "length rs = length qs"
    "inorder (BT i (ps @ qs) ts) = lpart (map inorder ls) ps @ inorder c @ rpart qs (map inorder rs)"
    "\<forall>x \<in> set (lpart (map inorder ls) ps). \<exists>k \<in> set ps. x \<le> k"
    "\<forall>x \<in> set (rpart qs (map inorder rs)). \<exists>k \<in> set qs. k \<le> x"
    "wf_node M h c" "ascending (inorder c)"
    by (rule cut_at [OF wf asc])
  have "List.find P (lpart (map inorder ls) ps) = None"
    by (rule find_none) (use cut(5) no up in blast)
  moreover have "List.find P (rpart qs (map inorder rs)) = (if qs = [] then None else Some (hd qs))"
    by (rule find_rpart [OF yes]) (use cut(3) in simp)
  ultimately show thesis using that [OF cut(1,2,7,8)] cut(4) by (simp add: find_append split: option.split)
qed

lemma find_down:
  assumes wf: "wfn m M (Suc h) (BT i (ps @ qs) ts)" and asc: "ascending (inorder (BT i (ps @ qs) ts))"
    and yes: "\<forall>x \<in> set ps. P x" and no: "\<forall>x \<in> set qs. \<not> P x" and down: "\<And>x y. x \<le> y \<Longrightarrow> P y \<Longrightarrow> P x"
  obtains ls c rs where "ts = ls @ c # rs" "length ls = length ps" "wf_node M h c" "ascending (inorder c)"
    "List.find P (rev (inorder (BT i (ps @ qs) ts))) =
       orelse (List.find P (rev (inorder c))) (if ps = [] then None else Some (last ps))"
proof -
  obtain ls c rs where cut: "ts = ls @ c # rs" "length ls = length ps" "length rs = length qs"
    "inorder (BT i (ps @ qs) ts) = lpart (map inorder ls) ps @ inorder c @ rpart qs (map inorder rs)"
    "\<forall>x \<in> set (lpart (map inorder ls) ps). \<exists>k \<in> set ps. x \<le> k"
    "\<forall>x \<in> set (rpart qs (map inorder rs)). \<exists>k \<in> set qs. k \<le> x"
    "wf_node M h c" "ascending (inorder c)"
    by (rule cut_at [OF wf asc])
  have "List.find P (rev (rpart qs (map inorder rs))) = None"
    by (rule find_none) (use cut(6) no down in \<open>auto; blast\<close>)
  moreover have "List.find P (rev (lpart (map inorder ls) ps)) = (if ps = [] then None else Some (last ps))"
    by (rule find_rev_lpart [OF yes]) (use cut(2) in simp)
  ultimately have "List.find P (rev (inorder (BT i (ps @ qs) ts))) =
     orelse (List.find P (rev (inorder c))) (if ps = [] then None else Some (last ps))"
    unfolding cut(4) by (cases "ps = []") (auto simp: find_append split: option.split)
  then show thesis by (rule that [OF cut(1,2,7,8)])
qed

lemma search_gt:
  assumes "ascending ks"
  obtains ps qs where "ks = ps @ qs" "\<forall>x \<in> set ps. \<not> k < x" "\<forall>x \<in> set qs. k < x"
    "(case binary_search ks k of Inr j \<Rightarrow> j + 1 | Inl j \<Rightarrow> j) = length ps"
  using assms
proof (cases rule: search_split [where k = k])
  case (found ps qs)
  then show ?thesis using that [of "ps @ [k]" qs] by (auto simp: not_less order.strict_implies_order)
next
  case (absent ps qs)
  then show ?thesis using that [of ps qs] by (auto simp: not_less order.strict_implies_order)
qed

lemma search_lt:
  assumes "ascending ks"
  obtains ps qs where "ks = ps @ qs" "\<forall>x \<in> set ps. x < k" "\<forall>x \<in> set qs. \<not> x < k"
    "(case binary_search ks k of Inr j \<Rightarrow> j | Inl j \<Rightarrow> j) = length ps"
  using assms
proof (cases rule: search_split [where k = k])
  case (found ps qs)
  then show ?thesis using that [of ps "k # qs"] by (auto simp: not_less order.strict_implies_order)
next
  case (absent ps qs)
  then show ?thesis using that [of ps qs] by (auto simp: not_less order.strict_implies_order)
qed

lemma find_ge_mem: "ascending xs \<Longrightarrow> k \<in> set xs \<Longrightarrow> List.find (\<lambda>x. k \<le> x) xs = Some k"
  by (induction xs) (auto simp: not_le)

lemma find_le_mem: "ascending xs \<Longrightarrow> k \<in> set xs \<Longrightarrow> List.find (\<lambda>x. x \<le> k) (rev xs) = Some k"
  by (induction xs rule: rev_induct) (auto simp: ascending_append not_le)

lemma higher_loop_correct:
  assumes "repr (store T) t" "wfn m M h t" "ascending (inorder t)"
  shows "higher_loop T (rid t) k acc = Some (orelse (List.find (\<lambda>x. k < x) (inorder t)) acc)"
  using assms
proof (induction h arbitrary: m t acc)
  case (0 m t acc)
  then obtain i ks where t: "t = BT i ks []" by (cases t) auto
  then have "ascending ks" using 0 by simp
  then obtain ps qs where ks: "ks = ps @ qs" "\<forall>x \<in> set ps. \<not> k < x" "\<forall>x \<in> set qs. k < x"
    "(case binary_search ks k of Inr j \<Rightarrow> j + 1 | Inl j \<Rightarrow> j) = length ps" by (rule search_gt)
  then show ?case
    using 0 t find_right [OF ks(2,3)] pick_right [of qs ps]
    by (subst higher_loop.simps) (simp add: get_node_def is_leaf_def)
next
  case (Suc h)
  obtain i ks ts where t: "t = BT i ks ts" by (cases t)
  have "ascending ks" using wfn_keys_ascending [OF Suc.prems(2,3)] t by simp
  then obtain ps qs where ks: "ks = ps @ qs" "\<forall>x \<in> set ps. \<not> k < x" "\<forall>x \<in> set qs. k < x"
    "(case binary_search ks k of Inr j \<Rightarrow> j + 1 | Inl j \<Rightarrow> j) = length ps" by (rule search_gt)
  obtain ls c rs where cut: "ts = ls @ c # rs" "length ls = length ps" "wf_node M h c" "ascending (inorder c)"
    "List.find (\<lambda>x. k < x) (inorder (BT i (ps @ qs) ts)) =
       orelse (List.find (\<lambda>x. k < x) (inorder c)) (if qs = [] then None else Some (hd qs))"
    by (rule find_up [OF Suc.prems(2,3) [unfolded t ks(1)] ks(2,3)]) auto
  show ?case
    using Suc.prems(1) t ks(1,4) cut Suc.IH [OF _ cut(3,4)] pick_right [of qs ps]
    by (subst higher_loop.simps) (simp add: get_node_def is_leaf_def vec_get_def nth_append split: option.split)
qed

lemma eq_or_higher_loop_correct:
  assumes "repr (store T) t" "wfn m M h t" "ascending (inorder t)"
  shows "eq_or_higher_loop T (rid t) k acc = Some (orelse (List.find (\<lambda>x. k \<le> x) (inorder t)) acc)"
  using assms
proof (induction h arbitrary: m t acc)
  case (0 m t acc)
  then obtain i ks where t: "t = BT i ks []" by (cases t) auto
  then have asc: "ascending ks" using 0 by simp
  then show ?case
  proof (cases rule: search_split [where k = k])
    case (found ps qs)
    then show ?thesis using 0 t find_ge_mem [OF asc, of k]
      by (subst eq_or_higher_loop.simps) (simp add: get_node_def nth_append)
  next
    case (absent ps qs)
    then show ?thesis using 0 t find_right [of ps "\<lambda>x. k \<le> x" qs] pick_right [of qs ps]
      by (subst eq_or_higher_loop.simps) (simp add: get_node_def is_leaf_def not_le order.strict_implies_order)
  qed
next
  case (Suc h)
  obtain i ks ts where t: "t = BT i ks ts" by (cases t)
  have asc: "ascending ks" using wfn_keys_ascending [OF Suc.prems(2,3)] t by simp
  then show ?case
  proof (cases rule: search_split [where k = k])
    case (found ps qs)
    then have "k \<in> set (inorder t)" using wfn_keys_in_inorder [OF Suc.prems(2)] t by auto
    then show ?thesis using Suc.prems t found find_ge_mem [of "inorder t" k]
      by (subst eq_or_higher_loop.simps) (simp add: get_node_def nth_append)
  next
    case (absent ps qs)
    then have no: "\<forall>x \<in> set ps. \<not> k \<le> x" and yes: "\<forall>x \<in> set qs. k \<le> x" by (auto simp: not_le)
    obtain ls c rs where cut: "ts = ls @ c # rs" "length ls = length ps" "wf_node M h c" "ascending (inorder c)"
      "List.find (\<lambda>x. k \<le> x) (inorder (BT i (ps @ qs) ts)) =
         orelse (List.find (\<lambda>x. k \<le> x) (inorder c)) (if qs = [] then None else Some (hd qs))"
      by (rule find_up [OF Suc.prems(2,3) [unfolded t absent(2)] no yes]) auto
    show ?thesis
      using Suc.prems(1) t absent(1,2) cut Suc.IH [OF _ cut(3,4)] pick_right [of qs ps]
      by (subst eq_or_higher_loop.simps) (simp add: get_node_def is_leaf_def vec_get_def nth_append split: option.split)
  qed
qed

lemma vec_get_child: "length ls = length ps \<Longrightarrow> vec_get (map rid ls @ c # cs) (length ps) = Some c"
  by (simp add: vec_get_def nth_append)

lemma find_left:
  assumes "\<forall>x \<in> set ps. P x" "\<forall>x \<in> set qs. \<not> P x"
  shows "List.find P (rev (ps @ qs)) = (if ps = [] then None else Some (last ps))"
  using assms by (cases ps rule: rev_cases) (auto simp: find_append find_none)

lemma lower_loop_correct:
  assumes "repr (store T) t" "wfn m M h t" "ascending (inorder t)"
  shows "lower_loop T (rid t) k acc = Some (orelse (List.find (\<lambda>x. x < k) (rev (inorder t))) acc)"
  using assms
proof (induction h arbitrary: m t acc)
  case (0 m t acc)
  then obtain i ks where t: "t = BT i ks []" by (cases t) auto
  then have "ascending ks" using 0 by simp
  then obtain ps qs where ks: "ks = ps @ qs" "\<forall>x \<in> set ps. x < k" "\<forall>x \<in> set qs. \<not> x < k"
    "(case binary_search ks k of Inr j \<Rightarrow> j | Inl j \<Rightarrow> j) = length ps" by (rule search_lt)
  then show ?case
    using 0 t find_left [OF ks(2,3)] pick_left [of ps qs]
    by (subst lower_loop.simps) (simp add: get_node_def is_leaf_def)
next
  case (Suc h)
  obtain i ks ts where t: "t = BT i ks ts" by (cases t)
  have "ascending ks" using wfn_keys_ascending [OF Suc.prems(2,3)] t by simp
  then obtain ps qs where ks: "ks = ps @ qs" "\<forall>x \<in> set ps. x < k" "\<forall>x \<in> set qs. \<not> x < k"
    "(case binary_search ks k of Inr j \<Rightarrow> j | Inl j \<Rightarrow> j) = length ps" by (rule search_lt)
  obtain ls c rs where cut: "ts = ls @ c # rs" "length ls = length ps" "wf_node M h c" "ascending (inorder c)"
    "List.find (\<lambda>x. x < k) (rev (inorder (BT i (ps @ qs) ts))) =
       orelse (List.find (\<lambda>x. x < k) (rev (inorder c))) (if ps = [] then None else Some (last ps))"
    by (rule find_down [OF Suc.prems(2,3) [unfolded t ks(1)] ks(2,3)]) auto
  show ?case
    using Suc.prems(1) t ks(1,4) cut Suc.IH [OF _ cut(3,4)] pick_left [of ps qs]
    by (subst lower_loop.simps)
      (simp add: get_node_def is_leaf_def vec_get_child split: option.split)
qed

lemma eq_or_lower_loop_correct:
  assumes "repr (store T) t" "wfn m M h t" "ascending (inorder t)"
  shows "eq_or_lower_loop T (rid t) k acc = Some (orelse (List.find (\<lambda>x. x \<le> k) (rev (inorder t))) acc)"
  using assms
proof (induction h arbitrary: m t acc)
  case (0 m t acc)
  then obtain i ks where t: "t = BT i ks []" by (cases t) auto
  then have asc: "ascending ks" using 0 by simp
  then show ?case
  proof (cases rule: search_split [where k = k])
    case (found ps qs)
    then show ?thesis using 0 t find_le_mem [OF asc, of k]
      by (subst eq_or_lower_loop.simps) (simp add: get_node_def nth_append)
  next
    case (absent ps qs)
    then show ?thesis using 0 t find_left [of ps "\<lambda>x. x \<le> k" qs] pick_left [of ps qs]
      by (subst eq_or_lower_loop.simps) (simp add: get_node_def is_leaf_def not_le order.strict_implies_order)
  qed
next
  case (Suc h)
  obtain i ks ts where t: "t = BT i ks ts" by (cases t)
  have asc: "ascending ks" using wfn_keys_ascending [OF Suc.prems(2,3)] t by simp
  then show ?case
  proof (cases rule: search_split [where k = k])
    case (found ps qs)
    then have "k \<in> set (inorder t)" using wfn_keys_in_inorder [OF Suc.prems(2)] t by auto
    then show ?thesis using Suc.prems t found find_le_mem [of "inorder t" k]
      by (subst eq_or_lower_loop.simps) (simp add: get_node_def nth_append)
  next
    case (absent ps qs)
    then have yes: "\<forall>x \<in> set ps. x \<le> k" and no: "\<forall>x \<in> set qs. \<not> x \<le> k" by (auto simp: not_le)
    obtain ls c rs where cut: "ts = ls @ c # rs" "length ls = length ps" "wf_node M h c" "ascending (inorder c)"
      "List.find (\<lambda>x. x \<le> k) (rev (inorder (BT i (ps @ qs) ts))) =
         orelse (List.find (\<lambda>x. x \<le> k) (rev (inorder c))) (if ps = [] then None else Some (last ps))"
      by (rule find_down [OF Suc.prems(2,3) [unfolded t absent(2)] yes no]) auto
    show ?thesis
      using Suc.prems(1) t absent(1,2) cut Suc.IH [OF _ cut(3,4)] pick_left [of ps qs]
      by (subst eq_or_lower_loop.simps)
        (simp add: get_node_def is_leaf_def vec_get_child split: option.split)
  qed
qed

section \<open>The first and the last key\<close>

lemma lowest_key_loop_correct:
  assumes "repr (store T) t" "wfn m M h t" "1 \<le> m" "2 \<le> M"
  shows "lowest_key_loop T (rid t) = Some (hd (inorder t)) \<and> inorder t \<noteq> []"
  using assms
proof (induction h arbitrary: m t)
  case 0
  then obtain i k ks where t: "t = BT i (k # ks) []" by (cases t; cases "tkeys t") auto
  then show ?case using 0 by (subst lowest_key_loop.simps) (simp add: get_node_def is_leaf_def vec_get_def)
next
  case (Suc h)
  then obtain i ks c ts where t: "t = BT i ks (c # ts)" "length ts = length ks"
    by (cases t; cases "subs t") auto
  then have "lowest_key_loop T (rid c) = Some (hd (inorder c)) \<and> inorder c \<noteq> []"
    using Suc.prems by (intro Suc.IH [of c "M - 1"]) auto
  moreover have "inorder t = inorder c @ rpart ks (map inorder ts)" using t by (simp add: ilv_first)
  ultimately show ?case
    using Suc.prems(1) t by (subst lowest_key_loop.simps) (simp add: get_node_def is_leaf_def vec_get_def)
qed

lemma highest_key_loop_correct:
  assumes "repr (store T) t" "wfn m M h t" "1 \<le> m" "2 \<le> M"
  shows "highest_key_loop T (rid t) = Some (last (inorder t)) \<and> inorder t \<noteq> []"
  using assms
proof (induction h arbitrary: m t)
  case 0
  then obtain i k ks where t: "t = BT i (ks @ [k]) []" by (cases t; cases "tkeys t" rule: rev_cases) auto
  then show ?case using 0 by (subst highest_key_loop.simps) (simp add: get_node_def is_leaf_def vec_simps)
next
  case (Suc h)
  then obtain i ks c ts where t: "t = BT i ks (ts @ [c])" "length ts = length ks"
    by (cases t; cases "subs t" rule: rev_cases) auto
  then have "highest_key_loop T (rid c) = Some (last (inorder c)) \<and> inorder c \<noteq> []"
    using Suc.prems by (intro Suc.IH [of c "M - 1"]) auto
  moreover have "inorder t = lpart (map inorder ts) ks @ inorder c"
    using inorder_split [OF t(2), of "[]" "[]" i c] t by simp
  ultimately show ?case
    using Suc.prems(1) t by (subst highest_key_loop.simps) (simp add: get_node_def is_leaf_def vec_simps)
qed

section \<open>The set and its sorted list of elements\<close>

lemma tree_of_sorted:
  assumes "tree_of M T h t"
  shows "inorder t = sorted_list_of_set (elements T)"
  using assms elements_tree [OF assms]
  by (simp add: tree_of_def sorted_list_of_set.idem_if_sorted_distinct strict_sorted_iff)

lemma btree_set_root_cases:
  assumes "btree_inv M T"
  obtains (none) "root T = None" "elements T = {}" "len T = 0"
  | (some) h t where "root T = Some (rid t)" "tree_of M T h t" "inorder t = sorted_list_of_set (elements T)"
      "set (inorder t) = elements T"
proof (cases "root T")
  case None
  then show thesis using assms none by (simp add: btree_inv_def elements_empty)
next
  case (Some r)
  then obtain h t where "r = rid t" "tree_of M T h t" using assms by (elim btree_invE)
  then show thesis using some Some tree_of_sorted elements_tree by metis
qed

lemma finite_elements: "btree_inv M T \<Longrightarrow> finite (elements T)"
  by (cases rule: btree_set_root_cases) (assumption | metis finite.emptyI | metis List.finite_set)+

lemma btree_set_contains_correct:
  assumes "btree_inv M T"
  shows "btree_set_contains T k = Some (k \<in> elements T)"
  using assms
proof (cases rule: btree_set_root_cases)
  case (some h t)
  then show ?thesis using contains_loop_correct [of T t 1 M h k] by (simp add: btree_set_contains_def tree_of_def)
qed (simp add: btree_set_contains_def)

lemma btree_set_len_correct:
  assumes "btree_inv M T"
  shows "unat (btree_set_len T) = card (elements T)"
  using assms
  by (cases rule: btree_set_root_cases) (auto simp: btree_set_len_def tree_of_card)

lemma btree_set_is_empty_correct:
  assumes "btree_inv M T" "2 \<le> M"
  shows "btree_set_is_empty T \<longleftrightarrow> elements T = {}"
  using assms(1)
proof (cases rule: btree_set_root_cases)
  case (some h t)
  then have "inorder t \<noteq> []"
    using lowest_key_loop_correct [of T t 1 M h] assms(2) by (simp add: tree_of_def)
  then show ?thesis using some by (auto simp: btree_set_is_empty_def)
qed (simp add: btree_set_is_empty_def)

lemma btree_set_neighbours:
  assumes "btree_inv M T"
  shows "btree_set_higher T k = Some (List.find (\<lambda>x. k < x) (sorted_list_of_set (elements T))) \<and>
    btree_set_eq_or_higher T k = Some (List.find (\<lambda>x. k \<le> x) (sorted_list_of_set (elements T))) \<and>
    btree_set_lower T k = Some (List.find (\<lambda>x. x < k) (rev (sorted_list_of_set (elements T)))) \<and>
    btree_set_eq_or_lower T k = Some (List.find (\<lambda>x. x \<le> k) (rev (sorted_list_of_set (elements T))))"
  using assms
proof (cases rule: btree_set_root_cases)
  case (some h t)
  then have t: "repr (store T) t" "wfn 1 M h t" "ascending (inorder t)" by (auto simp: tree_of_def)
  show ?thesis
    using some higher_loop_correct [OF t, of k None] eq_or_higher_loop_correct [OF t, of k None]
      lower_loop_correct [OF t, of k None] eq_or_lower_loop_correct [OF t, of k None]
    by (simp add: btree_set_higher_def btree_set_eq_or_higher_def btree_set_lower_def
        btree_set_eq_or_lower_def split: option.split)
qed (simp add: btree_set_higher_def btree_set_eq_or_higher_def btree_set_lower_def btree_set_eq_or_lower_def)

lemma ascending_hd_last:
  assumes "ascending xs" "xs \<noteq> []"
  shows "hd xs = Min (set xs)" "last xs = Max (set xs)"
proof -
  show "hd xs = Min (set xs)"
    using assms by (cases xs) (auto intro!: Min_eqI [symmetric])
  show "last xs = Max (set xs)"
    using assms by (cases xs rule: rev_cases) (auto simp: ascending_append intro!: Max_eqI [symmetric])
qed

lemma btree_set_ends:
  assumes "btree_inv M T" "2 \<le> M"
  shows "btree_set_first T = Some (if elements T = {} then None else Some (Min (elements T)))"
    and "btree_set_last T = Some (if elements T = {} then None else Some (Max (elements T)))"
proof -
  have "btree_set_first T = Some (if elements T = {} then None else Some (Min (elements T))) \<and>
    btree_set_last T = Some (if elements T = {} then None else Some (Max (elements T)))"
    using assms(1)
  proof (cases rule: btree_set_root_cases)
    case (some h t)
    then have t: "repr (store T) t" "wfn 1 M h t" "ascending (inorder t)" by (auto simp: tree_of_def)
    obtain i ks ts where tt: "t = BT i ks ts" by (cases t)
    note lo = lowest_key_loop_correct [OF t(1,2) order.refl assms(2)]
      and hi = highest_key_loop_correct [OF t(1,2) order.refl assms(2)]
    have ends: "hd (inorder t) = Min (set (inorder t))" "last (inorder t) = Max (set (inorder t))"
      using ascending_hd_last [OF t(3)] lo by auto
    have "btree_set_first T = map_option Some (lowest_key_loop T (rid t))"
      using some(1) get_node_repr [OF t(1)]
      by (subst lowest_key_loop.simps) (simp add: btree_set_first_def get_lowest_key_def map_option_bind comp_def)
    moreover have "btree_set_last T = map_option Some (highest_key_loop T (rid t))"
      using some(1) get_node_repr [OF t(1)]
      by (subst highest_key_loop.simps)
        (simp add: btree_set_last_def get_highest_key_def map_option_bind comp_def vec_get_def vec_pop_def
          is_leaf_def last_conv_nth option.map_comp)
    ultimately show ?thesis using lo hi ends some(4) by auto
  qed (simp_all add: btree_set_first_def btree_set_last_def)
  then show "btree_set_first T = Some (if elements T = {} then None else Some (Min (elements T)))"
    and "btree_set_last T = Some (if elements T = {} then None else Some (Max (elements T)))" by auto
qed

lemma btree_set_clear_correct: "btree_inv M (btree_set_clear T)" "elements (btree_set_clear T) = {}"
  by (auto simp: btree_set_clear_def btree_inv_def fresh_def elements_def)

end
