(* ===== verification/BTree_Iter.thy ===== *)
theory BTree_Iter
  imports BTree_Lookup
begin

text \<open>
  The depth-first iterator over the set: what is still to come is read off its stack, every
  call of \<^verbatim>\<open>next\<close> yields the first element of it, and a fresh iterator yields the elements
  of the set in ascending order, each once.
\<close>

section \<open>What an iterator has still to yield\<close>

text \<open>A frame of the stack: a node of the tree and the index of its next key.\<close>

definition frame_rest :: "'k bt \<Rightarrow> nat \<Rightarrow> 'k list" where
  "frame_rest t j = (if subs t = [] then drop j (tkeys t)
     else rpart (drop j (tkeys t)) (map inorder (drop (Suc j) (subs t))))"

definition sub_ok :: "nat \<Rightarrow> 'k btree_set \<Rightarrow> nat \<Rightarrow> 'k bt \<Rightarrow> bool" where
  "sub_ok M T h t \<longleftrightarrow> repr (store T) t \<and> wfn 1 M h t"

fun stack_rest :: "nat \<Rightarrow> 'k btree_set \<Rightarrow> ('k node \<times> nat) list \<Rightarrow> 'k list \<Rightarrow> bool" where
  "stack_rest M T [] xs \<longleftrightarrow> xs = []"
| "stack_rest M T ((n, j) # st) xs \<longleftrightarrow>
     (\<exists>h t ys. sub_ok M T h t \<and> n = node_of t \<and> j < length (tkeys t) \<and>
        xs = frame_rest t j @ ys \<and> stack_rest M T st ys)"

definition iter_rest :: "nat \<Rightarrow> 'k btree_set \<Rightarrow> 'k set_iter \<Rightarrow> 'k list \<Rightarrow> bool" where
  "iter_rest M T it xs \<longleftrightarrow> length_left it = length xs \<and>
     (case next_node it of
        None \<Rightarrow> stack_rest M T (depth_first_stack it) xs
      | Some i \<Rightarrow> \<exists>h t ys. sub_ok M T h t \<and> i = rid t \<and> xs = inorder t @ ys \<and>
          stack_rest M T (depth_first_stack it) ys)"

lemma stack_rest_ConsI:
  "sub_ok M T h t \<Longrightarrow> j < length (tkeys t) \<Longrightarrow> stack_rest M T st ys \<Longrightarrow>
   stack_rest M T ((node_of t, j) # st) (frame_rest t j @ ys)"
  by (simp only: stack_rest.simps) blast

lemma iter_rest_SomeI:
  "sub_ok M T h t \<Longrightarrow> next_node it = Some (rid t) \<Longrightarrow> length_left it = length (inorder t @ ys) \<Longrightarrow>
   stack_rest M T (depth_first_stack it) ys \<Longrightarrow> iter_rest M T it (inorder t @ ys)"
  by (auto simp: iter_rest_def)

lemma sub_ok_child:
  assumes "sub_ok M T (Suc h) (BT i ks ts)" "c \<in> set ts" "2 \<le> M"
  shows "sub_ok M T h c"
  using assms wfn_mono [of "M - 1" M h c 1] by (auto simp: sub_ok_def)

lemma iter_descend_correct:
  assumes "sub_ok M T h t" "2 \<le> M" "next_node it = Some (rid t)" "length_left it = length (inorder t @ ys)"
    "stack_rest M T (depth_first_stack it) ys"
  shows "\<exists>it'. iter_descend T it = Some it' \<and> next_node it' = None \<and> iter_rest M T it' (inorder t @ ys)"
  using assms
proof (induction h arbitrary: t it ys)
  case 0
  then obtain i ks where t: "t = BT i ks []" by (cases t) (auto simp: sub_ok_def)
  let ?it = "it\<lparr>next_node := None, depth_first_stack := (node_of t, 0) # depth_first_stack it\<rparr>"
  have run: "iter_descend T it = Some ?it"
    using 0 t by (subst iter_descend.simps, simp add: sub_ok_def get_node_def is_leaf_def)
      (subst iter_descend.simps, simp)
  have "stack_rest M T (depth_first_stack ?it) (inorder t @ ys)"
    using 0 t by (auto simp: frame_rest_def sub_ok_def intro!: exI [of _ 0] exI [of _ "BT i ks []"])
  then have "iter_rest M T ?it (inorder t @ ys)" using 0 by (simp add: iter_rest_def)
  then show ?case using run by auto
next
  case (Suc h)
  obtain i ks c ts where t: "t = BT i ks (c # ts)" "length ts = length ks"
    using Suc.prems(1) by (cases t; cases "subs t") (auto simp: sub_ok_def)
  let ?it = "it\<lparr>next_node := Some (rid c), depth_first_stack := (node_of t, 0) # depth_first_stack it\<rparr>"
  have io: "inorder t @ ys = inorder c @ (frame_rest t 0 @ ys)" using t by (simp add: frame_rest_def ilv_first)
  have c: "sub_ok M T h c" using Suc.prems(1,2) t by (intro sub_ok_child [of M T h i ks "c # ts"]) auto
  have "0 < length (tkeys t)" using Suc.prems(1) wfn_min [of 1 M "Suc h" t] by (auto simp: sub_ok_def)
  then have st: "stack_rest M T (depth_first_stack ?it) (frame_rest t 0 @ ys)"
    using stack_rest_ConsI [OF Suc.prems(1) _ Suc.prems(5)] by (simp del: stack_rest.simps)
  have "iter_descend T it = iter_descend T ?it"
    using Suc.prems t by (subst iter_descend.simps) (simp add: sub_ok_def get_node_def is_leaf_def vec_get_def)
  then show ?case using Suc.IH [OF c Suc.prems(2) _ _ st] Suc.prems(4) unfolding io by auto
qed

lemma iter_descend_rest:
  assumes "iter_rest M T it xs" "2 \<le> M"
  shows "\<exists>it'. iter_descend T it = Some it' \<and> next_node it' = None \<and> iter_rest M T it' xs"
proof (cases "next_node it")
  case None
  then show ?thesis using assms by (subst iter_descend.simps) simp
next
  case (Some i)
  then obtain h t ys where "sub_ok M T h t" "i = rid t" "xs = inorder t @ ys" "length_left it = length xs"
    "stack_rest M T (depth_first_stack it) ys" using assms by (auto simp: iter_rest_def)
  then show ?thesis using iter_descend_correct [of M T h t it ys] assms(2) Some by simp
qed

text \<open>Taking the key at an index off a frame.\<close>

lemma frame_rest_leaf:
  "subs t = [] \<Longrightarrow> j < length (tkeys t) \<Longrightarrow> frame_rest t j = tkeys t ! j # frame_rest t (Suc j)"
  by (simp add: frame_rest_def Cons_nth_drop_Suc)

lemma frame_rest_inner:
  assumes "length (subs t) = Suc (length (tkeys t))" "j < length (tkeys t)"
  shows "frame_rest t j = tkeys t ! j # inorder (subs t ! Suc j) @ frame_rest t (Suc j)"
proof -
  have "drop j (tkeys t) = tkeys t ! j # drop (Suc j) (tkeys t)"
    "drop (Suc j) (subs t) = subs t ! Suc j # drop (Suc (Suc j)) (subs t)"
    using assms by (simp_all add: Cons_nth_drop_Suc)
  then show ?thesis using assms by (auto simp: frame_rest_def)
qed

lemma frame_rest_end: "frame_rest t (length (tkeys t)) = []"
  by (simp add: frame_rest_def)

lemma stack_rest_advance:
  assumes "sub_ok M T h t" "j < length (tkeys t)" "stack_rest M T st ys"
  shows "stack_rest M T (if Suc j = length (tkeys t) then st else (node_of t, Suc j) # st) (frame_rest t (Suc j) @ ys)"
  using assms stack_rest_ConsI [of M T h t "Suc j" st ys] by (simp add: frame_rest_end)

section \<open>One call of next\<close>

lemma btree_set_iter_next_correct:
  assumes "iter_rest M T it xs" "2 \<le> M"
  shows "\<exists>it'. btree_set_iter_next T it = Some (case xs of [] \<Rightarrow> None | x # _ \<Rightarrow> Some x, it') \<and>
    iter_rest M T it' (tl xs)"
proof -
  obtain it1 where it1: "iter_descend T it = Some it1" "next_node it1 = None" "iter_rest M T it1 xs"
    using iter_descend_rest [OF assms] by blast
  have left: "length_left it1 = length xs" and st: "stack_rest M T (depth_first_stack it1) xs"
    using it1(2,3) by (auto simp: iter_rest_def)
  show ?thesis
  proof (cases "depth_first_stack it1")
    case Nil
    then show ?thesis using it1 st by (simp add: btree_set_iter_next_def)
  next
    case (Cons f rest)
    then obtain h t j ys where f: "f = (node_of t, j)" "sub_ok M T h t" "j < length (tkeys t)"
      "xs = frame_rest t j @ ys" "stack_rest M T rest ys" using st by (cases f) auto
    note adv = stack_rest_advance [OF f(2,3,5)]
    let ?st = "if Suc j = length (tkeys t) then rest else (node_of t, Suc j) # rest"
    show ?thesis
    proof (cases h)
      case 0
      then have leaf: "subs t = []" using f(2) wfn_leaf_iff by (fastforce simp: sub_ok_def)
      let ?it = "it1\<lparr>length_left := length xs - 1, next_node := None, depth_first_stack := ?st\<rparr>"
      have xs: "xs = tkeys t ! j # frame_rest t (Suc j) @ ys" using frame_rest_leaf [OF leaf f(3)] f(4) by simp
      have "btree_set_iter_next T it = Some (Some (tkeys t ! j), ?it)"
        using it1 Cons f(1,3) leaf left xs
        by (simp add: btree_set_iter_next_def vec_get_def is_leaf_def)
      moreover have "iter_rest M T ?it (tl xs)" using adv xs by (simp add: iter_rest_def)
      ultimately show ?thesis using xs by auto
    next
      case (Suc h')
      then have len: "length (subs t) = Suc (length (tkeys t))" using f(2) wfn_sub_len by (fastforce simp: sub_ok_def)
      let ?c = "subs t ! Suc j"
      let ?it = "it1\<lparr>length_left := length xs - 1, next_node := Some (rid ?c), depth_first_stack := ?st\<rparr>"
      have xs: "xs = tkeys t ! j # inorder ?c @ frame_rest t (Suc j) @ ys"
        using frame_rest_inner [OF len f(3)] f(4) by simp
      have "sub_ok M T h' ?c"
        using sub_ok_child [of M T h' "rid t" "tkeys t" "subs t" ?c] f(2,3) Suc assms(2) len by simp
      then have "iter_rest M T ?it (inorder ?c @ frame_rest t (Suc j) @ ys)"
        by (rule iter_rest_SomeI) (use adv xs in simp_all)
      then have "iter_rest M T ?it (tl xs)" using xs by simp
      moreover have "btree_set_iter_next T it = Some (Some (tkeys t ! j), ?it)"
        using it1 Cons f(1,3) len left xs
        by (cases "subs t") (simp_all add: btree_set_iter_next_def vec_get_def is_leaf_def)
      ultimately show ?thesis using xs by auto
    qed
  qed
qed

section \<open>Iterating over the set\<close>

text \<open>Up to \<open>n\<close> calls of \<^verbatim>\<open>next\<close>, stopping at the first \<^verbatim>\<open>None\<close>: the keys and the iterator.\<close>

fun iter_take :: "'k btree_set \<Rightarrow> nat \<Rightarrow> 'k set_iter \<Rightarrow> ('k list \<times> 'k set_iter) option" where
  "iter_take T 0 it = Some ([], it)"
| "iter_take T (Suc n) it = do {
     (k, it) \<leftarrow> btree_set_iter_next T it;
     (case k of
        None \<Rightarrow> Some ([], it)
      | Some x \<Rightarrow> do { (xs, it) \<leftarrow> iter_take T n it; Some (x # xs, it) })
   }"

lemma iter_take_correct:
  assumes "iter_rest M T it xs" "2 \<le> M"
  shows "\<exists>it'. iter_take T n it = Some (take n xs, it') \<and> iter_rest M T it' (drop n xs)"
  using assms(1)
proof (induction n arbitrary: it xs)
  case (Suc n)
  obtain it1 where n: "btree_set_iter_next T it = Some (case xs of [] \<Rightarrow> None | x # _ \<Rightarrow> Some x, it1)"
    "iter_rest M T it1 (tl xs)" using btree_set_iter_next_correct [OF Suc.prems assms(2)] by blast
  show ?case
  proof (cases xs)
    case Nil
    then show ?thesis using n by simp
  next
    case (Cons x ys)
    then obtain it' where "iter_take T n it1 = Some (take n ys, it')" "iter_rest M T it' (drop n ys)"
      using Suc.IH [OF n(2)] by auto
    then show ?thesis using n(1) Cons by simp
  qed
qed simp

lemma btree_set_iter_rest:
  assumes "btree_inv M T"
  shows "iter_rest M T (btree_set_iter T) (sorted_list_of_set (elements T))"
  using assms
proof (cases rule: btree_set_root_cases)
  case none
  then show ?thesis by (simp add: iter_rest_def btree_set_iter_def)
next
  case (some h t)
  then show ?thesis
    by (auto simp: iter_rest_def btree_set_iter_def sub_ok_def tree_of_def intro!: exI [of _ h] exI [of _ t])
qed

end
