(* ===== verification/BTree_Set.thy ===== *)
theory BTree_Set
  imports BTree_Remove BTree_Lookup BTree_Iter
begin

text \<open>
  The contract of \<^verbatim>\<open>StateBTreeSet\<close> as an ordered set: a locale with the laws a client relies on,
  interpreted on the operations of the B-tree, and what follows for a whole sequence of
  operations.
\<close>

section \<open>Removal allocates nothing\<close>

lemma merge_nodes_next: "merge_nodes T i n c d = Some T' \<Longrightarrow> next_node_id T' = next_node_id T"
  by (auto simp: merge_nodes_def Let_def Option.bind_eq_Some_conv)

lemma rotate_next:
  "rotate_from_smaller T i n c d = Some T' \<Longrightarrow> next_node_id T' = next_node_id T"
  "rotate_from_larger T i n c d = Some T' \<Longrightarrow> next_node_id T' = next_node_id T"
  by (auto simp: rotate_from_smaller_def rotate_from_larger_def Let_def Option.bind_eq_Some_conv)

lemma prepare_next:
  "prepare_child_for_key_removal M T i n = Some (c, T') \<Longrightarrow> next_node_id T' = next_node_id T"
  by (auto simp: prepare_child_for_key_removal_def Option.bind_eq_Some_conv
      dest: merge_nodes_next rotate_next split: if_splits option.splits)

lemma remove_largest_key_next:
  assumes "remove_largest_key M T i = Some r" shows "next_node_id (snd r) = next_node_id T"
  by (rule remove_largest_key.raw_induct [where P = "\<lambda>M T i r. next_node_id (snd r) = next_node_id T", OF _ assms])
    (auto elim!: bind_SomeE split: if_split_asm prod.split_asm dest!: prepare_next)

lemma remove_smallest_key_next:
  assumes "remove_smallest_key M T i = Some r" shows "next_node_id (snd r) = next_node_id T"
  by (rule remove_smallest_key.raw_induct [where P = "\<lambda>M T i r. next_node_id (snd r) = next_node_id T", OF _ assms])
    (auto elim!: bind_SomeE split: if_split_asm prod.split_asm dest!: prepare_next)

lemma remove_loop_next:
  assumes "remove_loop M T i key = Some r" shows "next_node_id (snd r) = next_node_id T"
  by (rule remove_loop.raw_induct [where P = "\<lambda>M T i key r. next_node_id (snd r) = next_node_id T", OF _ assms])
    (auto elim!: bind_SomeE split: if_split_asm sum.split_asm prod.split_asm
      dest!: prepare_next remove_largest_key_next remove_smallest_key_next merge_nodes_next)

lemma btree_set_remove_next:
  assumes "btree_set_remove M T k = Some (b, T')" shows "next_node_id T' = next_node_id T"
proof (cases "root T")
  case (Some i)
  with assms obtain d T1 where loop: "remove_loop M T i k = Some (d, T1)"
    by (cases "remove_loop M T i k") (auto simp: btree_set_remove_def)
  with assms Some obtain n where "get_node T1 i = Some n"
    by (cases "get_node T1 i") (auto simp: btree_set_remove_def)
  with assms Some loop have "next_node_id T' = next_node_id T1"
    by (auto simp: btree_set_remove_def Let_def elim!: bind_SomeE split: if_split_asm)
  then show ?thesis using remove_loop_next [OF loop] by simp
qed (use assms in \<open>simp add: btree_set_remove_def\<close>)

section \<open>The contract\<close>

text \<open>
  What a client of an ordered set relies on. \<open>room\<close> bounds how many operations can still run
  before one of the set's counters overflows.
\<close>

locale ordered_set =
  fixes inv :: "'t \<Rightarrow> bool"
    and elems :: "'t \<Rightarrow> 'k::linorder set"
    and room :: "'t \<Rightarrow> nat"
    and ins rem :: "'t \<Rightarrow> 'k \<Rightarrow> (bool \<times> 't) option"
    and mem :: "'t \<Rightarrow> 'k \<Rightarrow> bool option"
    and enum :: "'t \<Rightarrow> 'k list option"
  assumes finite_elems: "inv t \<Longrightarrow> finite (elems t)"
    and ins_law: "inv t \<Longrightarrow> 0 < room t \<Longrightarrow> \<exists>t'. ins t k = Some (k \<notin> elems t, t') \<and> inv t' \<and>
      elems t' = insert k (elems t) \<and> room t \<le> Suc (room t')"
    and rem_law: "inv t \<Longrightarrow> \<exists>t'. rem t k = Some (k \<in> elems t, t') \<and> inv t' \<and>
      elems t' = elems t - {k} \<and> room t \<le> Suc (room t')"
    and mem_law: "inv t \<Longrightarrow> mem t k = Some (k \<in> elems t)"
    and enum_law: "inv t \<Longrightarrow> enum t = Some (sorted_list_of_set (elems t))"

text \<open>A client's calls, their answers, and the answers of a mathematical set.\<close>

datatype 'k set_op = InsertOp 'k | RemoveOp 'k | ContainsOp 'k

fun run_ops :: "('t \<Rightarrow> 'k \<Rightarrow> (bool \<times> 't) option) \<Rightarrow> ('t \<Rightarrow> 'k \<Rightarrow> (bool \<times> 't) option) \<Rightarrow>
    ('t \<Rightarrow> 'k \<Rightarrow> bool option) \<Rightarrow> 't \<Rightarrow> 'k set_op list \<Rightarrow> (bool list \<times> 't) option" where
  "run_ops ins rem mem t [] = Some ([], t)"
| "run_ops ins rem mem t (op # ops) = do {
     (b, t) \<leftarrow> (case op of InsertOp k \<Rightarrow> ins t k | RemoveOp k \<Rightarrow> rem t k
                | ContainsOp k \<Rightarrow> map_option (\<lambda>b. (b, t)) (mem t k));
     (bs, t) \<leftarrow> run_ops ins rem mem t ops;
     Some (b # bs, t)
   }"

fun set_ops :: "'k set \<Rightarrow> 'k set_op list \<Rightarrow> bool list \<times> 'k set" where
  "set_ops S [] = ([], S)"
| "set_ops S (InsertOp k # ops) = (let (bs, R) = set_ops (insert k S) ops in ((k \<notin> S) # bs, R))"
| "set_ops S (RemoveOp k # ops) = (let (bs, R) = set_ops (S - {k}) ops in ((k \<in> S) # bs, R))"
| "set_ops S (ContainsOp k # ops) = (let (bs, R) = set_ops S ops in ((k \<in> S) # bs, R))"

context ordered_set
begin

text \<open>
  Every sequence of calls runs without a trap and answers as the mathematical set does.
\<close>

lemma run_refines_set:
  assumes "inv t" "length ops \<le> room t"
  shows "\<exists>t'. run_ops ins rem mem t ops = Some (fst (set_ops (elems t) ops), t') \<and> inv t' \<and>
    elems t' = snd (set_ops (elems t) ops)"
  using assms
proof (induction ops arbitrary: t)
  case (Cons op ops)
  show ?case
  proof (cases op)
    case (InsertOp k)
    obtain t1 where t1: "ins t k = Some (k \<notin> elems t, t1)" "inv t1" "elems t1 = insert k (elems t)"
      "room t \<le> Suc (room t1)"
      using ins_law [of t k] Cons.prems by auto
    then show ?thesis using Cons.IH [of t1] Cons.prems InsertOp by (fastforce split: prod.split)
  next
    case (RemoveOp k)
    obtain t1 where t1: "rem t k = Some (k \<in> elems t, t1)" "inv t1" "elems t1 = elems t - {k}"
      "room t \<le> Suc (room t1)"
      using rem_law [of t k] Cons.prems by auto
    then show ?thesis using Cons.IH [of t1] Cons.prems RemoveOp by (fastforce split: prod.split)
  next
    case (ContainsOp k)
    then show ?thesis using Cons.IH [of t] Cons.prems mem_law [of t k] by (fastforce split: prod.split)
  qed
qed simp

lemma enum_after_run:
  assumes "inv t" "length ops \<le> room t"
  shows "\<exists>t'. run_ops ins rem mem t ops = Some (fst (set_ops (elems t) ops), t') \<and>
    enum t' = Some (sorted_list_of_set (snd (set_ops (elems t) ops)))"
  using run_refines_set [OF assms] enum_law by metis

end

section \<open>The B-tree implements it\<close>

text \<open>
  All the keys of the set by its iterator: one call of \<^verbatim>\<open>next\<close> more than the set has elements.
\<close>

definition btree_set_collect :: "'k btree_set \<Rightarrow> 'k list option" where
  "btree_set_collect T = map_option fst (iter_take T (Suc (unat (len T))) (btree_set_iter T))"

text \<open>
  The counters: \<^verbatim>\<open>len\<close> is a \<^verbatim>\<open>u32\<close>, and an insertion takes at most 33 node identifiers of the
  \<^verbatim>\<open>u64\<close> counter, because the tree is at most 32 levels high.
\<close>

definition btree_room :: "'k btree_set \<Rightarrow> nat" where
  "btree_room T = min (2 ^ 32 - 1 - unat (len T)) ((2 ^ 64 - unat (next_node_id T)) div 34)"

lemma btree_roomE:
  assumes "0 < btree_room T"
  shows "Suc (unat (len T)) < 2 ^ 32" "unat (next_node_id T) + 34 \<le> 2 ^ 64"
proof -
  from assms have "0 < (2 ^ 64 - unat (next_node_id T)) div 34" "0 < 2 ^ 32 - 1 - unat (len T)"
    by (simp_all only: btree_room_def min_less_iff_conj)
  then show "Suc (unat (len T)) < 2 ^ 32" "unat (next_node_id T) + 34 \<le> 2 ^ 64"
    by (simp_all add: div_greater_zero_iff)
qed

lemma room_arith:
  fixes a b l l' n n' :: nat
  assumes "l' \<le> Suc l" "n' \<le> n + 33"
  shows "min (a - l) ((b - n) div 34) \<le> Suc (min (a - l') ((b - n') div 34))"
proof -
  have "(b - n) div 34 \<le> (b - n' + 34) div 34" using assms(2) by (intro div_le_mono) simp
  moreover have "(b - n' + 34) div 34 = Suc ((b - n') div 34)" by (rule div_add_self2 [THEN trans]) auto
  moreover have "a - l \<le> Suc (a - l')" using assms(1) by simp
  ultimately show ?thesis by (auto simp: min_def)
qed

lemma btree_room_step:
  assumes "unat (len T') \<le> Suc (unat (len T))" "unat (next_node_id T') \<le> unat (next_node_id T) + 33"
  shows "btree_room T \<le> Suc (btree_room T')"
  unfolding btree_room_def by (rule room_arith [OF assms])

lemma unat_len: "btree_inv M T \<Longrightarrow> unat (len T) = card (elements T)"
  using btree_set_len_correct by (auto simp: btree_set_len_def)

lemma btree_set_collect_correct:
  assumes "btree_inv M T" "2 \<le> M"
  shows "btree_set_collect T = Some (sorted_list_of_set (elements T))"
  using iter_take_correct [OF btree_set_iter_rest [OF assms(1)] assms(2), of "Suc (unat (len T))"]
    unat_len [OF assms(1)] by (auto simp: btree_set_collect_def)

lemma btree_card_insert:
  "btree_inv M T \<Longrightarrow> btree_inv M T' \<Longrightarrow> elements T' \<subseteq> insert k (elements T) \<Longrightarrow>
    unat (len T') \<le> Suc (unat (len T))"
  using card_mono [of "insert k (elements T)" "elements T'"] card_insert_le_m1 [of "Suc (card (elements T))"]
  by (auto simp: unat_len finite_elements card_insert_if split: if_splits)

interpretation bset: ordered_set "\<lambda>T. 2 \<le> M \<and> btree_inv M T" elements btree_room
  "btree_set_insert M" "btree_set_remove M" btree_set_contains btree_set_collect for M
proof (unfold_locales, goal_cases)
  case (1 T)
  then show ?case by (auto intro: finite_elements)
next
  case (2 T k)
  then obtain T' where "btree_set_insert M T k = Some (k \<notin> elements T, T')" "btree_inv M T'"
    "elements T' = insert k (elements T)" "unat (next_node_id T') \<le> unat (next_node_id T) + 33"
    using btree_set_insert_correct btree_roomE by blast
  then show ?case using 2 btree_room_step btree_card_insert by blast
next
  case (3 T k)
  then obtain T' where T': "btree_set_remove M T k = Some (k \<in> elements T, T')" "btree_inv M T'"
    "elements T' = elements T - {k}"
    using btree_set_remove_correct by blast
  then have "unat (len T') \<le> Suc (unat (len T))" using 3 btree_card_insert by blast
  then have "btree_room T \<le> Suc (btree_room T')"
    by (rule btree_room_step) (simp add: btree_set_remove_next [OF T'(1)])
  then show ?case using 3 T' by blast
next
  case (4 T k)
  then show ?case using btree_set_contains_correct by blast
next
  case (5 T)
  then show ?case using btree_set_collect_correct by blast
qed

section \<open>Properties\<close>

text \<open>A set of five keys in three nodes, with the degree 2.\<close>

definition sample_set :: "nat btree_set" where
  "sample_set = \<lparr>store = [0 \<mapsto> \<lparr>keys = [10], children = []\<rparr>, 1 \<mapsto> \<lparr>keys = [30, 40, 50], children = []\<rparr>,
     2 \<mapsto> \<lparr>keys = [20], children = [0, 1]\<rparr>], root = Some 2, len = 5, next_node_id = 3\<rparr>"

lemma tree_of_sample: "tree_of 2 sample_set 1 (BT 2 [20] [BT 0 [10] [], BT 1 [30, 40, 50] []])"
  by (auto simp: tree_of_def sample_set_def)

lemma btree_inv_sample: "btree_inv 2 sample_set"
  by (rule btree_invI [OF _ _ tree_of_sample]) (auto simp: sample_set_def fresh_def)

lemma elements_sample: "elements sample_set = {10, 20, 30, 40, 50}"
  by (simp add: elements_tree [OF tree_of_sample])

lemma btree_inv_new: "btree_inv M btree_set_new" "elements btree_set_new = {}"
  by (simp_all add: btree_inv_def btree_set_new_def fresh_def elements_def)

text \<open>
  C1. Starting from an empty \<^verbatim>\<open>StateBTreeSet\<close>, every sequence of fewer than \<open>2\<^sup>3\<^sup>2\<close> calls of \<^verbatim>\<open>insert\<close>,
  \<^verbatim>\<open>remove\<close> and \<^verbatim>\<open>contains\<close> runs without a trap and gives the answers of a mathematical set; the
  iterator then yields exactly the elements of that set in ascending order, and the tree
  satisfies the invariant.
\<close>

theorem btree_set_refines_set:
  assumes "2 \<le> M" "length ops < 2 ^ 32"
  shows "\<exists>T. run_ops (btree_set_insert M) (btree_set_remove M) btree_set_contains btree_set_new ops =
      Some (fst (set_ops {} ops), T) \<and> btree_inv M T \<and>
    btree_set_collect T = Some (sorted_list_of_set (snd (set_ops {} ops)))"
proof -
  have "length ops \<le> btree_room (btree_set_new :: 'a btree_set)"
    using assms(2) by (simp add: btree_room_def btree_set_new_def)
  then show ?thesis
    using bset.run_refines_set [of M btree_set_new ops] btree_inv_new assms(1) bset.enum_law by metis
qed

theorem btree_set_refines_set_witness:
  "\<exists>T. run_ops (btree_set_insert 2) (btree_set_remove 2) btree_set_contains btree_set_new
      [InsertOp 3, InsertOp (7::nat), InsertOp 3, RemoveOp 7, ContainsOp 7] =
      Some ([True, True, False, True, False], T) \<and> btree_inv 2 T \<and> btree_set_collect T = Some [3]"
  using btree_set_refines_set [of 2 "[InsertOp 3, InsertOp (7::nat), InsertOp 3, RemoveOp 7, ContainsOp 7]"]
  by (simp add: insert_Diff_if)

text \<open>
  C2. \<^verbatim>\<open>insert\<close> on a set that satisfies the invariant returns whether the key is new, adds exactly
  that key and keeps the invariant: the nodes are one balanced tree of the degree with ascending
  keys, no node is lost or left over, and \<^verbatim>\<open>len\<close> is the number of keys. It needs \<^verbatim>\<open>len\<close> and the
  node counter to stay in range.
\<close>

theorem btree_insert_spec:
  assumes "btree_inv M T" "2 \<le> M" "Suc (unat (len T)) < 2 ^ 32" "unat (next_node_id T) + 34 \<le> 2 ^ 64"
  shows "\<exists>T'. btree_set_insert M T k = Some (k \<notin> elements T, T') \<and> btree_inv M T' \<and>
    elements T' = insert k (elements T) \<and> unat (btree_set_len T') = card (insert k (elements T))"
  using btree_set_insert_correct [OF assms] btree_set_len_correct by metis

theorem btree_insert_spec_witness:
  "\<exists>T'. btree_set_insert 2 sample_set 35 = Some (True, T') \<and> btree_inv 2 T' \<and>
    elements T' = {35, 10, 20, 30, 40, 50} \<and> unat (btree_set_len T') = card {35, 10, 20, 30, 40, 50 :: nat}"
  using btree_insert_spec [OF btree_inv_sample, of 35] by (simp add: elements_sample) (simp add: sample_set_def)

text \<open>
  C3. \<^verbatim>\<open>remove\<close> returns whether the key was in the set, takes exactly that key out and keeps the
  invariant, through every rotation, merge, replacement by a neighbouring key and shrinking of the
  root; it never traps.
\<close>

theorem btree_remove_spec:
  assumes "btree_inv M T" "2 \<le> M"
  shows "\<exists>T'. btree_set_remove M T k = Some (k \<in> elements T, T') \<and> btree_inv M T' \<and>
    elements T' = elements T - {k} \<and> unat (btree_set_len T') = card (elements T - {k})"
  using btree_set_remove_correct [OF assms] btree_set_len_correct by metis

theorem btree_remove_spec_witness:
  "\<exists>T'. btree_set_remove 2 sample_set 10 = Some (True, T') \<and> btree_inv 2 T' \<and>
    elements T' = {20, 30, 40, 50} \<and> unat (btree_set_len T') = card {20, 30, 40, 50 :: nat}"
  using btree_remove_spec [OF btree_inv_sample, of 10] by (simp add: elements_sample)

text \<open>
  C12. \<^verbatim>\<open>higher\<close>, \<^verbatim>\<open>eq_or_higher\<close>, \<^verbatim>\<open>lower\<close> and \<^verbatim>\<open>eq_or_lower\<close> return the nearest key of the set on
  the side asked for, and \<^verbatim>\<open>None\<close> exactly when there is none.
\<close>

theorem btree_neighbours_spec:
  assumes "btree_inv M T"
  shows "btree_set_higher T k = Some (List.find (\<lambda>x. k < x) (sorted_list_of_set (elements T))) \<and>
    btree_set_eq_or_higher T k = Some (List.find (\<lambda>x. k \<le> x) (sorted_list_of_set (elements T))) \<and>
    btree_set_lower T k = Some (List.find (\<lambda>x. x < k) (rev (sorted_list_of_set (elements T)))) \<and>
    btree_set_eq_or_lower T k = Some (List.find (\<lambda>x. x \<le> k) (rev (sorted_list_of_set (elements T))))"
  by (rule btree_set_neighbours [OF assms])

theorem btree_neighbours_spec_witness:
  "btree_set_higher sample_set 30 = Some (Some 40) \<and> btree_set_eq_or_higher sample_set 30 = Some (Some 30) \<and>
    btree_set_lower sample_set 30 = Some (Some 20) \<and> btree_set_eq_or_lower sample_set 5 = Some None"
  using btree_neighbours_spec [OF btree_inv_sample, of 30] btree_neighbours_spec [OF btree_inv_sample, of 5]
  by (simp add: elements_sample)

text \<open>
  \<^verbatim>\<open>first\<close> and \<^verbatim>\<open>last\<close> return the least and the greatest key, \<^verbatim>\<open>None\<close> on the empty set,
  \<^verbatim>\<open>contains\<close> decides membership, and \<^verbatim>\<open>is_empty\<close> emptiness.
\<close>

lemma btree_ends_spec:
  assumes "btree_inv M T" "2 \<le> M"
  shows "btree_set_first T = Some (if elements T = {} then None else Some (Min (elements T))) \<and>
    btree_set_last T = Some (if elements T = {} then None else Some (Max (elements T))) \<and>
    btree_set_contains T k = Some (k \<in> elements T) \<and> btree_set_is_empty T = (elements T = {})"
  using btree_set_ends [OF assms] btree_set_contains_correct [OF assms(1)] btree_set_is_empty_correct [OF assms]
  by simp

lemma btree_ends_spec_sample:
  "btree_set_first sample_set = Some (Some 10) \<and> btree_set_last sample_set = Some (Some 50) \<and>
    btree_set_contains sample_set 35 = Some False \<and> \<not> btree_set_is_empty sample_set"
  using btree_ends_spec [OF btree_inv_sample, of 35] by (simp add: elements_sample)

text \<open>
  Any number of calls of the iterator's \<^verbatim>\<open>next\<close> yields that many of the set's keys in ascending
  order, without a trap, and after the last key \<^verbatim>\<open>None\<close>.
\<close>

lemma btree_iter_spec:
  assumes "btree_inv M T" "2 \<le> M"
  shows "map_option fst (iter_take T n (btree_set_iter T)) = Some (take n (sorted_list_of_set (elements T)))"
  using iter_take_correct [OF btree_set_iter_rest [OF assms(1)] assms(2), of n] by auto

lemma btree_iter_spec_sample:
  "map_option fst (iter_take sample_set 3 (btree_set_iter sample_set)) = Some [10, 20, 30] \<and>
    map_option fst (iter_take sample_set 9 (btree_set_iter sample_set)) = Some [10, 20, 30, 40, 50]"
  using btree_iter_spec [OF btree_inv_sample, of 3] btree_iter_spec [OF btree_inv_sample, of 9]
  by (simp add: elements_sample)

text \<open>Child pointers followed in the store from one node on, and the size a tree has at least.\<close>

fun child_path :: "'k btree_set \<Rightarrow> node_id \<Rightarrow> node_id list \<Rightarrow> bool" where
  "child_path T i [] \<longleftrightarrow> True"
| "child_path T i (j # js) \<longleftrightarrow> (case store T i of None \<Rightarrow> False | Some n \<Rightarrow> j \<in> set (children n)) \<and> child_path T j js"

lemma child_path_height:
  assumes "repr (store T) t" "wfn m M h t" "child_path T (rid t) js"
  shows "length js \<le> h \<and> (length js = h \<longleftrightarrow> children (the (store T (last (rid t # js)))) = [])"
  using assms
proof (induction js arbitrary: t m h)
  case Nil
  then show ?case by (cases t; cases h) auto
next
  case (Cons j js)
  obtain i ks ts where t: "t = BT i ks ts" by (cases t)
  then obtain u where u: "u \<in> set ts" "j = rid u" using Cons.prems by auto
  then obtain h' where h: "h = Suc h'" using Cons.prems(2) t by (cases h) auto
  have "repr (store T) u" "wfn (M - 1) M h' u" "child_path T (rid u) js" using Cons.prems t u h by auto
  from Cons.IH [OF this] show ?case using h u by simp
qed

lemma wfn_subtree_size:
  assumes "wfn (M - 1) M h t" "2 \<le> M"
  shows "M ^ Suc h \<le> Suc (length (inorder t))"
  using assms(1)
proof (induction h arbitrary: t)
  case 0
  then show ?case using assms(2) by (cases t) auto
next
  case (Suc h)
  obtain i ks ts where t: "t = BT i ks ts" by (cases t)
  have "M ^ Suc h - 1 \<le> length (inorder u)" if "u \<in> set ts" for u
    using Suc.IH [of u] Suc.prems t that by auto
  then have "length ts * (M ^ Suc h - 1) \<le> length (inorder t) - length ks"
    using sum_list_ge [of ts "M ^ Suc h - 1" "\<lambda>u. length (inorder u)"] Suc.prems t
    by (simp add: length_ilv comp_def)
  moreover have "M \<le> length ts" "length ts = Suc (length ks)" "length ks \<le> length (inorder t)"
    using Suc.prems t by (auto simp: length_ilv)
  moreover have "length ts * (M ^ Suc h - 1) = length ts * M ^ Suc h - length ts" by (simp add: diff_mult_distrib2)
  moreover have "length ts \<le> length ts * M ^ Suc h" using assms(2) by simp
  ultimately have "length ts * M ^ Suc h \<le> Suc (length (inorder t))" by linarith
  moreover have "M ^ Suc (Suc h) \<le> length ts * M ^ Suc h"
    using mult_le_mono1 [OF \<open>M \<le> length ts\<close>, of "M ^ Suc h"] by simp
  ultimately show ?case by linarith
qed

lemma wfn_root_size:
  assumes "wfn 1 M h t" "2 \<le> M"
  shows "2 * M ^ h \<le> Suc (length (inorder t))"
proof (cases h)
  case 0
  then show ?thesis using assms(1) by (cases t) auto
next
  case (Suc h')
  obtain i ks ts where t: "t = BT i ks ts" by (cases t)
  have "M ^ h - 1 \<le> length (inorder u)" if "u \<in> set ts" for u
    using wfn_subtree_size [of M h' u] assms t that Suc by auto
  then have "length ts * (M ^ h - 1) \<le> length (inorder t) - length ks"
    using sum_list_ge [of ts "M ^ h - 1" "\<lambda>u. length (inorder u)"] assms t Suc
    by (simp add: length_ilv comp_def)
  moreover have "2 \<le> length ts" "length ts = Suc (length ks)" "length ks \<le> length (inorder t)"
    using assms t Suc by (auto simp: length_ilv)
  moreover have "length ts * (M ^ h - 1) = length ts * M ^ h - length ts" by (simp add: diff_mult_distrib2)
  moreover have "length ts \<le> length ts * M ^ h" using assms(2) by simp
  ultimately have "length ts * M ^ h \<le> Suc (length (inorder t))" by linarith
  moreover have "2 * M ^ h \<le> length ts * M ^ h" using \<open>2 \<le> length ts\<close> by (rule mult_le_mono1)
  ultimately show ?thesis by linarith
qed

text \<open>
  C13. The tree stays balanced and shallow: after any sequence of fewer than \<open>2\<^sup>3\<^sup>2\<close> calls of \<^verbatim>\<open>insert\<close>, \<^verbatim>\<open>remove\<close> and
  \<^verbatim>\<open>contains\<close> on a new set, all paths of child pointers from the root end in a leaf after the same number \<open>h\<close> of steps,
  and the set has at least \<open>2 * M\<^sup>h - 1\<close> keys, where \<open>M\<close> is the degree; so there are at most 32 levels.
\<close>

theorem btree_height_bound:
  assumes "2 \<le> M" "length ops < 2 ^ 32"
    and "run_ops (btree_set_insert M) (btree_set_remove M) btree_set_contains btree_set_new ops = Some (answers, T)"
    and "root T = Some r"
  shows "\<exists>h \<le> 31. 2 * M ^ h \<le> Suc (card (snd (set_ops {} ops))) \<and>
    (\<forall>js. child_path T r js \<longrightarrow> length js \<le> h \<and> (length js = h \<longleftrightarrow> children (the (store T (last (r # js)))) = []))"
proof -
  have "length ops \<le> btree_room (btree_set_new :: 'a btree_set)"
    using assms(2) by (simp add: btree_room_def btree_set_new_def)
  moreover have "btree_inv M (btree_set_new :: 'a btree_set)" "elements (btree_set_new :: 'a btree_set) = {}"
    by (rule btree_inv_new)+
  ultimately have inv: "btree_inv M T" "elements T = snd (set_ops {} ops)"
    using bset.run_refines_set [of M btree_set_new ops] assms(1,3) by auto
  obtain h t where t: "r = rid t" "tree_of M T h t" by (rule btree_invE [OF inv(1) assms(4)])
  then have "2 * M ^ h \<le> Suc (card (snd (set_ops {} ops)))"
    using wfn_root_size [of M h t] assms(1) unat_len [OF inv(1)] by (simp add: tree_of_def inv(2))
  moreover have "length js \<le> h \<and> (length js = h \<longleftrightarrow> children (the (store T (last (r # js)))) = [])" if "child_path T r js" for js
    using child_path_height [of T t 1 M h js] t that by (simp add: tree_of_def)
  ultimately show ?thesis using tree_of_height [OF t(2) assms(1)] by blast
qed

text \<open>Four insertions with the degree 2.\<close>

theorem btree_height_bound_witness:
  "\<exists>answers T r h. run_ops (btree_set_insert 2) (btree_set_remove 2) btree_set_contains btree_set_new
      [InsertOp 10, InsertOp 20, InsertOp 30, InsertOp (40 :: nat)] = Some (answers, T) \<and> root T = Some r \<and>
    2 * 2 ^ h \<le> (5 :: nat) \<and> (\<forall>js. child_path T r js \<longrightarrow> length js \<le> h)"
proof -
  let ?ops = "[InsertOp 10, InsertOp 20, InsertOp 30, InsertOp (40 :: nat)]"
  have "length ?ops \<le> btree_room (btree_set_new :: nat btree_set)" by (simp add: btree_room_def btree_set_new_def)
  moreover have "btree_inv 2 (btree_set_new :: nat btree_set)" by (rule btree_inv_new)
  ultimately obtain T where T: "run_ops (btree_set_insert 2) (btree_set_remove 2) btree_set_contains btree_set_new ?ops =
      Some (fst (set_ops {} ?ops), T)" "btree_inv 2 T" "elements T = snd (set_ops {} ?ops)"
    using bset.run_refines_set [of 2 btree_set_new ?ops] unfolding btree_inv_new(2) by blast
  have "elements T = {10, 20, 30, 40}" unfolding T(3) by auto
  then obtain r where r: "root T = Some r" using T(2) by (cases "root T") (auto simp: btree_inv_def elements_def)
  have card: "card (snd (set_ops {} ?ops)) = 4" by simp
  obtain h where "2 * 2 ^ h \<le> Suc (card (snd (set_ops {} ?ops)))" "\<And>js. child_path T r js \<Longrightarrow> length js \<le> h"
    using btree_height_bound [OF _ _ T(1) r] by auto
  then show ?thesis unfolding card using T(1) r by (intro exI [of _ T] exI [of _ r] exI [of _ h] exI) auto
qed

end
