(* ===== verification/State_Api.thy ===== *)
theory State_Api
  imports Prelude "HOL-Library.Sublist"
begin

text \<open>
  The contract state as the library sees it: the traits \<^verbatim>\<open>HasStateApi\<close> and \<^verbatim>\<open>HasStateEntry\<close> of
  \<^verbatim>\<open>concordium-std/src/traits.rs\<close> as a record of operations that is an argument of everything
  built on it, and the raw and typed entries of \<^verbatim>\<open>concordium-std/src/impls.rs\<close>. An operation
  that mutates the state returns the state after it. \<open>None\<close> is a trap: every \<^verbatim>\<open>unwrap_abort\<close> on
  an error.
\<close>

section \<open>The interface\<close>

datatype state_error =
    SubtreeLocked | EntryNotFound | IteratorNotFound | ParameterNotFound | SizeTooLarge
  | IteratorLimitForPrefixExceeded | IteratorAlreadyDeleted | SubtreeWithPrefixNotFound

text \<open>
  The operations of the two traits. The errors of the entry operations are dropped (all of
  their callers abort on them): \<open>None\<close> is the \<^verbatim>\<open>Err\<close> of the source.
\<close>

record ('s, 'e, 'i) state_api =
  create_entry :: "'s \<Rightarrow> bytes \<Rightarrow> ((state_error + 'e) \<times> 's) option"
  lookup_entry :: "'s \<Rightarrow> bytes \<Rightarrow> ('e option \<times> 's) option"
  delete_entry :: "'s \<Rightarrow> 'e \<Rightarrow> ((state_error + unit) \<times> 's) option"
  delete_prefix :: "'s \<Rightarrow> bytes \<Rightarrow> ((state_error + bool) \<times> 's) option"
  iterator :: "'s \<Rightarrow> bytes \<Rightarrow> ((state_error + 'i) \<times> 's) option"
  iter_next :: "'s \<Rightarrow> 'i \<Rightarrow> 'e option \<times> 'i \<times> 's"
  delete_iterator :: "'s \<Rightarrow> 'i \<Rightarrow> 's option"
  move_to_start :: "'e \<Rightarrow> 'e"
  get_key :: "'e \<Rightarrow> bytes"
  entry_size :: "'s \<Rightarrow> 'e \<Rightarrow> u32 option"
  entry_truncate :: "'s \<Rightarrow> 'e \<Rightarrow> u32 \<Rightarrow> ('e \<times> 's) option"
  entry_resize :: "'s \<Rightarrow> 'e \<Rightarrow> u32 \<Rightarrow> ('e \<times> 's) option"
  entry_read :: "'s \<Rightarrow> 'e \<Rightarrow> nat \<Rightarrow> (bytes \<times> 'e) option"
  entry_write :: "'s \<Rightarrow> 'e \<Rightarrow> bytes \<Rightarrow> (nat \<times> 'e \<times> 's) option"

text \<open>
  The \<^verbatim>\<open>Serial\<close> and \<^verbatim>\<open>Deserial\<close> implementations of a type: the bytes it is written as, and the
  val read from the front of a byte string with what is left unread.
\<close>

record 'v codec =
  ser :: "'v \<Rightarrow> bytes"
  des :: "bytes \<Rightarrow> ('v \<times> bytes) option"

definition codec_ok :: "'v codec \<Rightarrow> bool" where
  "codec_ok C \<longleftrightarrow> (\<forall>v rest. des C (ser C v @ rest) = Some (v, rest))"

text \<open>\<^verbatim>\<open>write_all\<close>: an error unless all of the buffer was written.\<close>

definition write_all :: "('s, 'e, 'i) state_api \<Rightarrow> 's \<Rightarrow> 'e \<Rightarrow> bytes \<Rightarrow> ('e \<times> 's) option" where
  "write_all A s e buf = do {
     (n, e, s) \<leftarrow> entry_write A s e buf;
     if n = length buf then Some (e, s) else None
   }"

definition serial :: "('s, 'e, 'i) state_api \<Rightarrow> 'v codec \<Rightarrow> 's \<Rightarrow> 'e \<Rightarrow> 'v \<Rightarrow> ('e \<times> 's) option" where
  "serial A C s e v = write_all A s e (ser C v)"

text \<open>
  \<^verbatim>\<open>deserial_with_state\<close> on an entry: the bytes from the cursor on are parsed and the cursor
  moves past what was consumed.
\<close>

definition deserial :: "('s, 'e, 'i) state_api \<Rightarrow> 'v codec \<Rightarrow> 's \<Rightarrow> 'e \<Rightarrow> ('v \<times> 'e) option" where
  "deserial A C s e = do {
     n \<leftarrow> entry_size A s e;
     (bs, _) \<leftarrow> entry_read A s e (unat n);
     (v, rest) \<leftarrow> des C bs;
     (_, e) \<leftarrow> entry_read A s e (length bs - length rest);
     Some (v, e)
   }"

section \<open>Raw entries\<close>

datatype 'e entry_raw = VacantRaw bytes | OccupiedRaw 'e

text \<open>\<^verbatim>\<open>HasStateApi::entry\<close>.\<close>

definition state_entry :: "('s, 'e, 'i) state_api \<Rightarrow> 's \<Rightarrow> bytes \<Rightarrow> ('e entry_raw \<times> 's) option" where
  "state_entry A s k = do {
     (r, s) \<leftarrow> lookup_entry A s k;
     Some (case r of Some e \<Rightarrow> OccupiedRaw e | None \<Rightarrow> VacantRaw k, s)
   }"

text \<open>\<^verbatim>\<open>VacantEntryRaw::insert_raw\<close> and \<^verbatim>\<open>insert\<close>.\<close>

definition vacant_insert_raw ::
    "('s, 'e, 'i) state_api \<Rightarrow> 's \<Rightarrow> bytes \<Rightarrow> bytes \<Rightarrow> ((state_error + 'e) \<times> 's) option" where
  "vacant_insert_raw A s k val = do {
     (r, s) \<leftarrow> create_entry A s k;
     case r of
       Inl err \<Rightarrow> Some (Inl err, s)
     | Inr e \<Rightarrow> do {
         (e, s) \<leftarrow> write_all A s e val;
         Some (Inr (move_to_start A e), s)
       }
   }"

definition vacant_insert ::
    "('s, 'e, 'i) state_api \<Rightarrow> 'v codec \<Rightarrow> 's \<Rightarrow> bytes \<Rightarrow> 'v \<Rightarrow> ((state_error + 'e) \<times> 's) option" where
  "vacant_insert A C s k val = do {
     (r, s) \<leftarrow> create_entry A s k;
     case r of
       Inl err \<Rightarrow> Some (Inl err, s)
     | Inr e \<Rightarrow> do {
         (e, s) \<leftarrow> serial A C s e val;
         Some (Inr (move_to_start A e), s)
       }
   }"

text \<open>\<^verbatim>\<open>OccupiedEntryRaw::insert_raw\<close> and \<^verbatim>\<open>insert\<close>.\<close>

definition occupied_insert_raw ::
    "('s, 'e, 'i) state_api \<Rightarrow> 's \<Rightarrow> 'e \<Rightarrow> bytes \<Rightarrow> ('e \<times> 's) option" where
  "occupied_insert_raw A s e val = do {
     let e = move_to_start A e;
     (e, s) \<leftarrow> write_all A s e val;
     entry_truncate A s e (of_nat (length val))
   }"

definition occupied_insert ::
    "('s, 'e, 'i) state_api \<Rightarrow> 'v codec \<Rightarrow> 's \<Rightarrow> 'e \<Rightarrow> 'v \<Rightarrow> ('e \<times> 's) option" where
  "occupied_insert A C s e val = do {
     (e, s) \<leftarrow> entry_truncate A s e 0;
     let e = move_to_start A e;
     serial A C s e val
   }"

text \<open>\<^verbatim>\<open>unwrap_abort\<close> of a result.\<close>

definition unwrap_abort :: "((state_error + 'a) \<times> 's) option \<Rightarrow> ('a \<times> 's) option" where
  "unwrap_abort r = (case r of Some (Inr x, s) \<Rightarrow> Some (x, s) | _ \<Rightarrow> None)"

text \<open>\<^verbatim>\<open>EntryRaw::or_insert_raw\<close>, \<^verbatim>\<open>or_insert\<close> and \<^verbatim>\<open>key\<close>.\<close>

definition or_insert_raw ::
    "('s, 'e, 'i) state_api \<Rightarrow> 's \<Rightarrow> 'e entry_raw \<Rightarrow> bytes \<Rightarrow> ((state_error + 'e) \<times> 's) option" where
  "or_insert_raw A s er dflt =
     (case er of
        VacantRaw k \<Rightarrow> vacant_insert_raw A s k dflt
      | OccupiedRaw e \<Rightarrow> Some (Inr e, s))"

definition raw_or_insert ::
    "('s, 'e, 'i) state_api \<Rightarrow> 'v codec \<Rightarrow> 's \<Rightarrow> 'e entry_raw \<Rightarrow> 'v \<Rightarrow> ('e \<times> 's) option" where
  "raw_or_insert A C s er dflt =
     (case er of
        VacantRaw k \<Rightarrow> unwrap_abort (vacant_insert A C s k dflt)
      | OccupiedRaw e \<Rightarrow> Some (e, s))"

definition entry_raw_key :: "('s, 'e, 'i) state_api \<Rightarrow> 'e entry_raw \<Rightarrow> bytes" where
  "entry_raw_key A er = (case er of VacantRaw k \<Rightarrow> k | OccupiedRaw e \<Rightarrow> get_key A e)"

section \<open>Root of the state\<close>

text \<open>\<^verbatim>\<open>read_root\<close> (the inner \<open>None\<close> is its \<^verbatim>\<open>ParseError\<close>) and \<^verbatim>\<open>write_root\<close>.\<close>

definition read_root :: "('s, 'e, 'i) state_api \<Rightarrow> 'v codec \<Rightarrow> 's \<Rightarrow> ('v option \<times> 's) option" where
  "read_root A C s = do {
     (r, s) \<leftarrow> lookup_entry A s [];
     Some (case r of None \<Rightarrow> None | Some e \<Rightarrow> map_option fst (deserial A C s e), s)
   }"

definition write_root :: "('s, 'e, 'i) state_api \<Rightarrow> 'v codec \<Rightarrow> 's \<Rightarrow> 'v \<Rightarrow> 's option" where
  "write_root A C s v = do {
     (e, s) \<leftarrow> unwrap_abort (create_entry A s []);
     map_option snd (serial A C s e v)
   }"

text \<open>\<^verbatim>\<open>HasStateEntry::reserve\<close>.\<close>

definition entry_reserve :: "('s, 'e, 'i) state_api \<Rightarrow> 's \<Rightarrow> 'e \<Rightarrow> u32 \<Rightarrow> ('e \<times> 's) option" where
  "entry_reserve A s e n = do {
     sz \<leftarrow> entry_size A s e;
     if sz < n then entry_resize A s e n else Some (e, s)
   }"

section \<open>What an implementation of the interface promises\<close>

text \<open>
  The view of a state is its map from keys to data. A handle is \<open>live\<close> when it points at the
  entry the state has at the handle's key. \<open>locked\<close> holds of the keys on which iterators block
  creation and deletion. An implementation may number the handles it gives out: \<open>room\<close> is how
  many it can still give out before the counter overflows. \<open>cap\<close> bounds the size of an entry.
\<close>

locale state_api_laws =
  fixes A :: "('s, 'e, 'i) state_api"
    and inv :: "'s \<Rightarrow> bool"
    and view :: "'s \<Rightarrow> bytes \<rightharpoonup> bytes"
    and locked :: "'s \<Rightarrow> bytes \<Rightarrow> bool"
    and live :: "'s \<Rightarrow> 'e \<Rightarrow> bool"
    and pos :: "'e \<Rightarrow> nat"
    and room :: "'s \<Rightarrow> nat"
    and cap :: nat
  assumes cap_bounds: "8 < cap \<and> cap \<le> 2 ^ 32"
    and live_view: "inv s \<Longrightarrow> live s e \<Longrightarrow> \<exists>d. view s (get_key A e) = Some d"
    and view_size: "inv s \<Longrightarrow> view s k = Some d \<Longrightarrow> length d < cap"
    and finite_view: "inv s \<Longrightarrow> finite (dom (view s))"
    and lookup_law: "inv s \<Longrightarrow> 0 < room s \<Longrightarrow> \<exists>r s'. lookup_entry A s k = Some (r, s') \<and>
      inv s' \<and> view s' = view s \<and> locked s' = locked s \<and> room s \<le> Suc (room s') \<and>
      (\<forall>e. live s e \<longrightarrow> live s' e) \<and> (r = None \<longleftrightarrow> view s k = None) \<and>
      (\<forall>e. r = Some e \<longrightarrow> live s' e \<and> get_key A e = k \<and> pos e = 0)"
    and create_law: "inv s \<Longrightarrow> 0 < room s \<Longrightarrow> \<not> locked s k \<Longrightarrow> \<exists>e s'. create_entry A s k = Some (Inr e, s') \<and>
      inv s' \<and> view s' = (view s)(k \<mapsto> []) \<and> locked s' = locked s \<and> room s \<le> Suc (room s') \<and>
      live s' e \<and> get_key A e = k \<and> pos e = 0 \<and> (\<forall>e'. live s e' \<and> get_key A e' \<noteq> k \<longrightarrow> live s' e')"
    and create_locked: "inv s \<Longrightarrow> locked s k \<Longrightarrow> create_entry A s k = Some (Inl SubtreeLocked, s)"
    and delete_law: "inv s \<Longrightarrow> live s e \<Longrightarrow> \<not> locked s (get_key A e) \<Longrightarrow> \<exists>s'.
      delete_entry A s e = Some (Inr (), s') \<and> inv s' \<and> view s' = (view s)(get_key A e := None) \<and>
      locked s' = locked s \<and> room s \<le> room s' \<and>
      (\<forall>e'. live s e' \<and> get_key A e' \<noteq> get_key A e \<longrightarrow> live s' e')"
    and delete_prefix_law: "inv s \<Longrightarrow> \<not> locked s p \<Longrightarrow> card {k \<in> dom (view s). prefix p k} \<le> room s \<Longrightarrow>
      \<exists>b s'. delete_prefix A s p = Some (Inr b, s') \<and>
      inv s' \<and> view s' = (\<lambda>k. if prefix p k then None else view s k) \<and> locked s' = locked s \<and>
      (\<forall>e'. live s e' \<and> \<not> prefix p (get_key A e') \<longrightarrow> live s' e')"
    and start_law: "get_key A (move_to_start A e) = get_key A e \<and> pos (move_to_start A e) = 0 \<and>
      live s (move_to_start A e) = live s e"
    and size_law: "inv s \<Longrightarrow> live s e \<Longrightarrow> view s (get_key A e) = Some d \<Longrightarrow>
      entry_size A s e = Some (of_nat (length d))"
    and read_law: "inv s \<Longrightarrow> live s e \<Longrightarrow> view s (get_key A e) = Some d \<Longrightarrow> pos e \<le> length d \<Longrightarrow> n < 2 ^ 32 \<Longrightarrow>
      \<exists>e'. entry_read A s e n = Some (take n (drop (pos e) d), e') \<and> get_key A e' = get_key A e \<and>
        live s e' \<and> pos e' = min (pos e + n) (length d)"
    and write_law: "inv s \<Longrightarrow> live s e \<Longrightarrow> view s (get_key A e) = Some d \<Longrightarrow> pos e \<le> length d \<Longrightarrow>
      pos e + length buf < cap \<Longrightarrow> \<exists>e' s'. entry_write A s e buf = Some (length buf, e', s') \<and> inv s' \<and>
        view s' = (view s)(get_key A e \<mapsto> take (pos e) d @ buf @ drop (pos e + length buf) d) \<and>
        locked s' = locked s \<and> room s' = room s \<and>
        get_key A e' = get_key A e \<and> live s' e' \<and> pos e' = pos e + length buf \<and>
        (\<forall>e''. live s e'' \<longrightarrow> live s' e'')"
    and truncate_law: "inv s \<Longrightarrow> live s e \<Longrightarrow> view s (get_key A e) = Some d \<Longrightarrow> pos e \<le> length d \<Longrightarrow>
      \<exists>e' s'. entry_truncate A s e m = Some (e', s') \<and> inv s' \<and>
        view s' = (view s)(get_key A e \<mapsto> take (unat m) d) \<and> locked s' = locked s \<and> room s' = room s \<and>
        get_key A e' = get_key A e \<and> live s' e' \<and> pos e' = min (pos e) (min (unat m) (length d)) \<and>
        (\<forall>e''. live s e'' \<longrightarrow> live s' e'')"
begin

lemma cap_pos [simp]: "0 < cap" "8 < cap"
  using cap_bounds by auto

lemma cap_unat: "n < cap \<Longrightarrow> unat (of_nat n :: u32) = n"
  using cap_bounds by (simp add: unat_of_nat_32)

lemma cap_less: "n < cap \<Longrightarrow> n < 2 ^ 32"
  using cap_bounds by (meson less_le_trans)

lemma lookupE:
  assumes "inv s" "0 < room s"
  obtains (absent) s' where "lookup_entry A s k = Some (None, s')" "view s k = None" "inv s'" "view s' = view s"
      "locked s' = locked s" "room s \<le> Suc (room s')"
  | (present) e s' d where "lookup_entry A s k = Some (Some e, s')" "view s k = Some d" "inv s'" "view s' = view s"
      "locked s' = locked s" "room s \<le> Suc (room s')" "live s' e" "get_key A e = k" "pos e = 0"
      "view s' (get_key A e) = Some d"
proof -
  obtain r s' where L: "lookup_entry A s k = Some (r, s')" "inv s'" "view s' = view s"
    "locked s' = locked s" "room s \<le> Suc (room s')" "(r = None) = (view s k = None)"
    "\<forall>e. r = Some e \<longrightarrow> live s' e \<and> get_key A e = k \<and> pos e = 0"
    using lookup_law [OF assms, of k] by metis
  show thesis
  proof (cases r)
    case None
    then show ?thesis using L by (intro absent) auto
  next
    case (Some e)
    then obtain d where "view s k = Some d" using L(6) by (cases "view s k") auto
    then show ?thesis using L Some by (intro present [of e s' d]) auto
  qed
qed

lemma write_all_law:
  assumes "inv s" "live s e" "view s (get_key A e) = Some d" "pos e \<le> length d" "pos e + length buf < cap"
  shows "\<exists>e' s'. write_all A s e buf = Some (e', s') \<and> inv s' \<and>
    view s' = (view s)(get_key A e \<mapsto> take (pos e) d @ buf @ drop (pos e + length buf) d) \<and>
    locked s' = locked s \<and> room s' = room s \<and>
    get_key A e' = get_key A e \<and> live s' e' \<and> pos e' = pos e + length buf \<and> (\<forall>e''. live s e'' \<longrightarrow> live s' e'')"
  using write_law [OF assms] by (auto simp: write_all_def)

text \<open>Reading a value back, from an entry whose data starts with its serialization at the cursor.\<close>

lemma deserial_law:
  assumes "inv s" "live s e" "view s (get_key A e) = Some d" "pos e \<le> length d"
    and "codec_ok C" "drop (pos e) d = ser C v @ rest"
  shows "\<exists>e'. deserial A C s e = Some (v, e') \<and> get_key A e' = get_key A e \<and> live s e' \<and>
    pos e' = pos e + length (ser C v)"
proof -
  have len: "length d < cap" by (rule view_size [OF assms(1,3)])
  then have n: "unat (of_nat (length d) :: u32) = length d" by (rule cap_unat)
  note small = cap_less [OF len]
  have all: "take (length d) (drop (pos e) d) = drop (pos e) d" by simp
  obtain e1 where r1: "entry_read A s e (length d) = Some (drop (pos e) d, e1)"
    using read_law [OF assms(1-4) small] all by auto
  let ?c = "length (drop (pos e) d) - length rest"
  have c: "?c = length (ser C v)" using assms(6) by simp
  have "?c < 2 ^ 32" using small by simp
  then obtain e2 where r2: "entry_read A s e ?c = Some (take ?c (drop (pos e) d), e2)" "get_key A e2 = get_key A e"
    "live s e2" "pos e2 = min (pos e + ?c) (length d)"
    using read_law [OF assms(1-4), of ?c] by blast
  have "length d = pos e + length (ser C v) + length rest"
    using assms(4) arg_cong [OF assms(6), of length] by simp
  moreover have "des C (drop (pos e) d) = Some (v, rest)"
    using assms(5,6) by (simp add: codec_ok_def)
  ultimately show ?thesis
    using size_law [OF assms(1-3)] r1 r2 n c by (simp add: deserial_def)
qed

lemma vacant_insert_law:
  assumes "inv s" "0 < room s" "\<not> locked s k" "length (ser C v) < cap"
  shows "\<exists>e s'. vacant_insert A C s k v = Some (Inr e, s') \<and> inv s' \<and> view s' = (view s)(k \<mapsto> ser C v) \<and>
    locked s' = locked s \<and> room s \<le> Suc (room s') \<and> live s' e \<and> get_key A e = k \<and> pos e = 0"
proof -
  obtain e s1 where c: "create_entry A s k = Some (Inr e, s1)" "inv s1" "view s1 = (view s)(k \<mapsto> [])"
    "locked s1 = locked s" "live s1 e" "get_key A e = k" "pos e = 0" "room s \<le> Suc (room s1)"
    using create_law [OF assms(1-3)] by blast
  obtain e' s' where "write_all A s1 e (ser C v) = Some (e', s')" "inv s'" "room s' = room s1"
    "view s' = (view s)(k \<mapsto> ser C v)" "locked s' = locked s" "get_key A e' = k" "live s' e'"
    using write_all_law [OF c(2,5), of "[]" "ser C v"] c assms(4) by auto
  then show ?thesis using c(1,8) start_law [of e' s'] by (auto simp: vacant_insert_def serial_def)
qed

lemma vacant_insert_raw_law:
  assumes "inv s" "0 < room s" "\<not> locked s k" "length val < cap"
  shows "\<exists>e s'. vacant_insert_raw A s k val = Some (Inr e, s') \<and> inv s' \<and> view s' = (view s)(k \<mapsto> val) \<and>
    locked s' = locked s \<and> room s \<le> Suc (room s') \<and> live s' e \<and> get_key A e = k \<and> pos e = 0"
proof -
  let ?C = "\<lparr>ser = (\<lambda>_::unit. val), des = (\<lambda>_. None)\<rparr>"
  have "vacant_insert_raw A s k val = vacant_insert A ?C s k ()"
    unfolding vacant_insert_raw_def vacant_insert_def serial_def codec.simps ..
  then show ?thesis using vacant_insert_law [of s k ?C "()"] assms by simp
qed

lemma occupied_insert_law:
  assumes "inv s" "live s e" "view s (get_key A e) = Some d" "pos e \<le> length d" "length (ser C v) < cap"
  shows "\<exists>e' s'. occupied_insert A C s e v = Some (e', s') \<and> inv s' \<and> room s' = room s \<and>
    view s' = (view s)(get_key A e \<mapsto> ser C v) \<and> locked s' = locked s \<and> live s' e' \<and> get_key A e' = get_key A e"
proof -
  obtain e1 s1 where t: "entry_truncate A s e 0 = Some (e1, s1)" "inv s1" "room s1 = room s"
    "view s1 = (view s)(get_key A e \<mapsto> [])" "locked s1 = locked s" "get_key A e1 = get_key A e" "live s1 e1"
    using truncate_law [OF assms(1-4), of 0] by auto
  let ?e = "move_to_start A e1"
  have e: "get_key A ?e = get_key A e" "pos ?e = 0" "live s1 ?e" using start_law [of e1 s1] t by auto
  obtain e' s' where "write_all A s1 ?e (ser C v) = Some (e', s')" "inv s'" "room s' = room s1"
    "view s' = (view s)(get_key A e \<mapsto> ser C v)" "locked s' = locked s" "get_key A e' = get_key A e" "live s' e'"
    using write_all_law [OF t(2) e(3), of "[]" "ser C v"] e t assms(5) by auto
  then show ?thesis using t(1,3) by (auto simp: occupied_insert_def serial_def)
qed

lemma occupied_insert_raw_law:
  assumes "inv s" "live s e" "view s (get_key A e) = Some d" "length val < cap"
  shows "\<exists>e' s'. occupied_insert_raw A s e val = Some (e', s') \<and> inv s' \<and>
    view s' = (view s)(get_key A e \<mapsto> val) \<and> locked s' = locked s \<and> live s' e' \<and> get_key A e' = get_key A e"
proof -
  let ?e = "move_to_start A e"
  have e: "get_key A ?e = get_key A e" "pos ?e = 0" "live s ?e" using start_law [of e s] assms by auto
  obtain e1 s1 where w: "write_all A s ?e val = Some (e1, s1)" "inv s1"
    "view s1 = (view s)(get_key A e \<mapsto> val @ drop (length val) d)" "locked s1 = locked s"
    "get_key A e1 = get_key A e" "live s1 e1" "pos e1 = length val"
    using write_all_law [OF assms(1) e(3), of d val] e assms(3,4) by auto
  have n: "unat (of_nat (length val) :: u32) = length val" using assms(4) by (rule cap_unat)
  have v1: "view s1 (get_key A e1) = Some (val @ drop (length val) d)" using w by simp
  obtain e' s' where "entry_truncate A s1 e1 (of_nat (length val)) = Some (e', s')" "inv s'"
    "view s' = (view s)(get_key A e \<mapsto> val)" "locked s' = locked s" "get_key A e' = get_key A e" "live s' e'"
    using truncate_law [OF w(2,6) v1, of "of_nat (length val)"] w n by auto
  then show ?thesis using w(1) by (auto simp: occupied_insert_raw_def)
qed

text \<open>What is written at the root is what is read back.\<close>

lemma write_read_root:
  assumes "inv s" "2 \<le> room s" "\<not> locked s []" "codec_ok C" "length (ser C v) < cap"
  shows "\<exists>s' s''. write_root A C s v = Some s' \<and> read_root A C s' = Some (Some v, s'') \<and> inv s' \<and>
    view s' = (view s)([] \<mapsto> ser C v)"
proof -
  have "0 < room s" using assms(2) by simp
  then obtain e s1 where c: "create_entry A s [] = Some (Inr e, s1)" "inv s1" "view s1 = (view s)([] \<mapsto> [])"
    "live s1 e" "get_key A e = []" "pos e = 0" "room s \<le> Suc (room s1)"
    using create_law [OF assms(1) _ assms(3)] by blast
  obtain e' s' where w: "write_all A s1 e (ser C v) = Some (e', s')" "inv s'" "view s' = (view s)([] \<mapsto> ser C v)"
    "room s' = room s1"
    using write_all_law [OF c(2,4), of "[]" "ser C v"] c assms(5) by auto
  have "0 < room s'" using c(7) w(4) assms(2) by simp
  with w(2) show ?thesis
  proof (cases rule: lookupE [where k = "[]"])
    case (present e2 s2 d)
    then obtain e3 where "deserial A C s2 e2 = Some (v, e3)"
      using deserial_law [of s2 e2 "ser C v" C v "[]"] w(3) assms(4) by auto
    then show ?thesis using c(1) w present(1)
      by (auto simp: write_root_def read_root_def serial_def unwrap_abort_def)
  qed (use w(3) in simp)
qed

end

end
