(* ===== verification/State_Containers.thy ===== *)
theory State_Containers
  imports State_Api
begin

text \<open>
  The typed containers of \<^verbatim>\<open>concordium-std/src/impls.rs\<close> over the state interface:
  \<^verbatim>\<open>StateMap\<close> with its entries, \<^verbatim>\<open>StateRefMut\<close>, \<^verbatim>\<open>StateSet\<close>, \<^verbatim>\<open>StateBox\<close> and the
  \<^verbatim>\<open>StateBuilder\<close> that gives each container its key prefix. The serializations of keys and
  values are codecs, arguments of the definitions.
\<close>

section \<open>StateMap\<close>

text \<open>\<^verbatim>\<open>key_with_map_prefix\<close>.\<close>

definition key_with_map_prefix :: "bytes \<Rightarrow> 'k codec \<Rightarrow> 'k \<Rightarrow> bytes" where
  "key_with_map_prefix p KC k = p @ ser KC k"

definition state_map_get ::
    "('s, 'e, 'i) state_api \<Rightarrow> 'k codec \<Rightarrow> 'v codec \<Rightarrow> bytes \<Rightarrow> 's \<Rightarrow> 'k \<Rightarrow> ('v option \<times> 's) option" where
  "state_map_get A KC VC p s k = do {
     (r, s) \<leftarrow> lookup_entry A s (key_with_map_prefix p KC k);
     case r of
       None \<Rightarrow> Some (None, s)
     | Some e \<Rightarrow> do { (v, _) \<leftarrow> deserial A VC s e; Some (Some v, s) }
   }"

definition state_map_insert ::
    "('s, 'e, 'i) state_api \<Rightarrow> 'k codec \<Rightarrow> 'v codec \<Rightarrow> bytes \<Rightarrow> 's \<Rightarrow> 'k \<Rightarrow> 'v \<Rightarrow> ('v option \<times> 's) option" where
  "state_map_insert A KC VC p s k v = do {
     (er, s) \<leftarrow> state_entry A s (key_with_map_prefix p KC k);
     case er of
       VacantRaw key \<Rightarrow> do {
         (_, s) \<leftarrow> unwrap_abort (vacant_insert A VC s key v);
         Some (None, s)
       }
     | OccupiedRaw e \<Rightarrow> do {
         (old, e) \<leftarrow> deserial A VC s e;
         (_, s) \<leftarrow> occupied_insert A VC s e v;
         Some (Some old, s)
       }
   }"

text \<open>\<^verbatim>\<open>is_empty\<close>: a lookup of the prefix itself.\<close>

definition state_map_is_empty :: "('s, 'e, 'i) state_api \<Rightarrow> bytes \<Rightarrow> 's \<Rightarrow> (bool \<times> 's) option" where
  "state_map_is_empty A p s = do {
     (r, s) \<leftarrow> lookup_entry A s p;
     Some (r = None, s)
   }"

definition state_map_clear_flat :: "('s, 'e, 'i) state_api \<Rightarrow> bytes \<Rightarrow> 's \<Rightarrow> 's option" where
  "state_map_clear_flat A p s = do {
     (_, s) \<leftarrow> Option.bind (delete_prefix A s p) (\<lambda>r. unwrap_abort (Some r));
     Some s
   }"

text \<open>\<^verbatim>\<open>remove_and_get\<close>: the result of deleting the entry is dropped.\<close>

definition state_map_remove_and_get ::
    "('s, 'e, 'i) state_api \<Rightarrow> 'k codec \<Rightarrow> 'v codec \<Rightarrow> bytes \<Rightarrow> 's \<Rightarrow> 'k \<Rightarrow> ('v option \<times> 's) option" where
  "state_map_remove_and_get A KC VC p s k = do {
     (er, s) \<leftarrow> state_entry A s (key_with_map_prefix p KC k);
     case er of
       VacantRaw _ \<Rightarrow> Some (None, s)
     | OccupiedRaw e \<Rightarrow> do {
         (old, e) \<leftarrow> deserial A VC s e;
         (_, s) \<leftarrow> delete_entry A s e;
         Some (Some old, s)
       }
   }"

text \<open>\<^verbatim>\<open>remove\<close>, given what \<^verbatim>\<open>Deletable::delete\<close> does on a value.\<close>

definition state_map_remove ::
    "('s, 'e, 'i) state_api \<Rightarrow> 'k codec \<Rightarrow> 'v codec \<Rightarrow> ('s \<Rightarrow> 'v \<Rightarrow> 's option) \<Rightarrow> bytes \<Rightarrow> 's \<Rightarrow> 'k \<Rightarrow> 's option" where
  "state_map_remove A KC VC del p s k = do {
     (r, s) \<leftarrow> state_map_remove_and_get A KC VC p s k;
     case r of None \<Rightarrow> Some s | Some v \<Rightarrow> del s v
   }"

section \<open>Iterating over a map\<close>

text \<open>\<^verbatim>\<open>StateMap::iter\<close> and \<^verbatim>\<open>iter_mut\<close>: no iterator when there is nothing below the prefix.\<close>

definition state_map_iter :: "('s, 'e, 'i) state_api \<Rightarrow> bytes \<Rightarrow> 's \<Rightarrow> ('i option \<times> 's) option" where
  "state_map_iter A p s = do {
     (r, s) \<leftarrow> iterator A s p;
     case r of
       Inr it \<Rightarrow> Some (Some it, s)
     | Inl SubtreeWithPrefixNotFound \<Rightarrow> Some (None, s)
     | Inl _ \<Rightarrow> None
   }"

text \<open>\<^verbatim>\<open>StateMapIter::next\<close>: the key is read from the entry's key behind the eight bytes of the prefix.\<close>

definition state_map_iter_next ::
    "('s, 'e, 'i) state_api \<Rightarrow> 'k codec \<Rightarrow> 'v codec \<Rightarrow> 's \<Rightarrow> 'i option \<Rightarrow> (('k \<times> 'v) option \<times> 'i option \<times> 's) option" where
  "state_map_iter_next A KC VC s it =
     (case it of
        None \<Rightarrow> Some (None, None, s)
      | Some i \<Rightarrow>
          (case iter_next A s i of
             (None, i, s) \<Rightarrow> Some (None, Some i, s)
           | (Some e, i, s) \<Rightarrow> do {
               (k, _) \<leftarrow> des KC (drop 8 (get_key A e));
               (v, _) \<leftarrow> deserial A VC s e;
               Some (Some (k, v), Some i, s)
             }))"

text \<open>The \<^verbatim>\<open>Drop\<close> of \<^verbatim>\<open>StateMapIter\<close>.\<close>

definition state_map_iter_drop :: "('s, 'e, 'i) state_api \<Rightarrow> 's \<Rightarrow> 'i option \<Rightarrow> 's option" where
  "state_map_iter_drop A s it = (case it of None \<Rightarrow> Some s | Some i \<Rightarrow> delete_iterator A s i)"

text \<open>\<^verbatim>\<open>StateMapIterMut::next\<close>: the value is not read.\<close>

definition state_map_iter_mut_next ::
    "('s, 'e, 'i) state_api \<Rightarrow> 'k codec \<Rightarrow> 's \<Rightarrow> 'i option \<Rightarrow> (('k \<times> 'e) option \<times> 'i option \<times> 's) option" where
  "state_map_iter_mut_next A KC s it =
     (case it of
        None \<Rightarrow> Some (None, None, s)
      | Some i \<Rightarrow>
          (case iter_next A s i of
             (None, i, s) \<Rightarrow> Some (None, Some i, s)
           | (Some e, i, s) \<Rightarrow> do {
               (k, _) \<leftarrow> des KC (drop 8 (get_key A e));
               Some (Some (k, e), Some i, s)
             }))"

text \<open>
  The loop of \<^verbatim>\<open>StateMap::clear\<close> over the values, deleting each (with a bound on the number of
  entries), and \<^verbatim>\<open>clear\<close>, which is also \<^verbatim>\<open>Deletable::delete\<close> of a map.
\<close>

fun clear_values ::
    "('s, 'e, 'i) state_api \<Rightarrow> 'k codec \<Rightarrow> 'v codec \<Rightarrow> ('s \<Rightarrow> 'v \<Rightarrow> 's option) \<Rightarrow> nat \<Rightarrow> 's \<Rightarrow> 'i option \<Rightarrow>
     ('i option \<times> 's) option" where
  "clear_values A KC VC del 0 s it = None"
| "clear_values A KC VC del (Suc n) s it = do {
     (r, it, s) \<leftarrow> state_map_iter_next A KC VC s it;
     case r of
       None \<Rightarrow> Some (it, s)
     | Some (_, v) \<Rightarrow> do { s \<leftarrow> del s v; clear_values A KC VC del n s it }
   }"

definition state_map_clear ::
    "('s, 'e, 'i) state_api \<Rightarrow> 'k codec \<Rightarrow> 'v codec \<Rightarrow> ('s \<Rightarrow> 'v \<Rightarrow> 's option) \<Rightarrow> nat \<Rightarrow> bytes \<Rightarrow> 's \<Rightarrow> 's option" where
  "state_map_clear A KC VC del fuel p s = do {
     (it, s) \<leftarrow> state_map_iter A p s;
     (it, s) \<leftarrow> clear_values A KC VC del fuel s it;
     s \<leftarrow> state_map_iter_drop A s it;
     state_map_clear_flat A p s
   }"

section \<open>Entries of a map\<close>

record ('k, 'v, 'e) occupied_entry =
  oe_key :: 'k
  oe_value :: 'v
  oe_modified :: bool
  oe_state_entry :: 'e

datatype ('k, 'v, 'e) map_entry = Vacant 'k bytes | Occupied "('k, 'v, 'e) occupied_entry"

definition state_map_entry ::
    "('s, 'e, 'i) state_api \<Rightarrow> 'k codec \<Rightarrow> 'v codec \<Rightarrow> bytes \<Rightarrow> 's \<Rightarrow> 'k \<Rightarrow> (('k, 'v, 'e) map_entry \<times> 's) option" where
  "state_map_entry A KC VC p s k = do {
     (r, s) \<leftarrow> lookup_entry A s (key_with_map_prefix p KC k);
     case r of
       None \<Rightarrow> Some (Vacant k (key_with_map_prefix p KC k), s)
     | Some e \<Rightarrow> do {
         (v, e) \<leftarrow> deserial A VC s e;
         Some (Occupied \<lparr>oe_key = k, oe_value = v, oe_modified = False, oe_state_entry = e\<rparr>, s)
       }
   }"

text \<open>\<^verbatim>\<open>VacantEntry::insert\<close>.\<close>

definition map_entry_insert ::
    "('s, 'e, 'i) state_api \<Rightarrow> 'v codec \<Rightarrow> 's \<Rightarrow> 'k \<Rightarrow> bytes \<Rightarrow> 'v \<Rightarrow> (('k, 'v, 'e) occupied_entry \<times> 's) option" where
  "map_entry_insert A VC s k key_bytes v = do {
     (e, s) \<leftarrow> unwrap_abort (create_entry A s key_bytes);
     (e, s) \<leftarrow> serial A VC s e v;
     Some (\<lparr>oe_key = k, oe_value = v, oe_modified = False, oe_state_entry = move_to_start A e\<rparr>, s)
   }"

text \<open>\<^verbatim>\<open>OccupiedEntry::store_value\<close>, \<^verbatim>\<open>modify\<close> and \<^verbatim>\<open>try_modify\<close>.\<close>

definition store_value ::
    "('s, 'e, 'i) state_api \<Rightarrow> 'v codec \<Rightarrow> 's \<Rightarrow> ('k, 'v, 'e) occupied_entry \<Rightarrow> (('k, 'v, 'e) occupied_entry \<times> 's) option" where
  "store_value A VC s oe = do {
     (e, s) \<leftarrow> entry_truncate A s (oe_state_entry oe) 0;
     (e, s) \<leftarrow> serial A VC s e (oe_value oe);
     Some (oe\<lparr>oe_state_entry := e\<rparr>, s)
   }"

definition occupied_modify ::
    "('s, 'e, 'i) state_api \<Rightarrow> 'v codec \<Rightarrow> ('v \<Rightarrow> 'a \<times> 'v) \<Rightarrow> 's \<Rightarrow> ('k, 'v, 'e) occupied_entry \<Rightarrow>
     ('a \<times> ('k, 'v, 'e) occupied_entry \<times> 's) option" where
  "occupied_modify A VC f s oe =
     (let (res, v) = f (oe_value oe) in do {
        (oe, s) \<leftarrow> store_value A VC s (oe\<lparr>oe_value := v\<rparr>);
        Some (res, oe, s)
      })"

definition occupied_try_modify ::
    "('s, 'e, 'i) state_api \<Rightarrow> 'v codec \<Rightarrow> ('v \<Rightarrow> ('err + 'a) \<times> 'v) \<Rightarrow> 's \<Rightarrow> ('k, 'v, 'e) occupied_entry \<Rightarrow>
     (('err + 'a) \<times> ('k, 'v, 'e) occupied_entry \<times> 's) option" where
  "occupied_try_modify A VC f s oe =
     (case f (oe_value oe) of
        (Inl err, v) \<Rightarrow> Some (Inl err, oe\<lparr>oe_value := v\<rparr>, s)
      | (Inr res, v) \<Rightarrow> do {
          (oe, s) \<leftarrow> store_value A VC s (oe\<lparr>oe_value := v\<rparr>);
          Some (Inr res, oe, s)
        })"

text \<open>\<^verbatim>\<open>Entry::or_insert\<close> (and \<^verbatim>\<open>or_insert_with\<close>, \<^verbatim>\<open>or_default\<close> with the default's value), \<^verbatim>\<open>and_modify\<close>, \<^verbatim>\<open>and_try_modify\<close>.\<close>

definition map_or_insert ::
    "('s, 'e, 'i) state_api \<Rightarrow> 'v codec \<Rightarrow> 's \<Rightarrow> ('k, 'v, 'e) map_entry \<Rightarrow> 'v \<Rightarrow> (('k, 'v, 'e) occupied_entry \<times> 's) option" where
  "map_or_insert A VC s en v =
     (case en of
        Vacant k key_bytes \<Rightarrow> map_entry_insert A VC s k key_bytes v
      | Occupied oe \<Rightarrow> Some (oe, s))"

definition map_and_modify ::
    "('s, 'e, 'i) state_api \<Rightarrow> 'v codec \<Rightarrow> ('v \<Rightarrow> 'v) \<Rightarrow> 's \<Rightarrow> ('k, 'v, 'e) map_entry \<Rightarrow> (('k, 'v, 'e) map_entry \<times> 's) option" where
  "map_and_modify A VC f s en =
     (case en of
        Vacant k key_bytes \<Rightarrow> Some (en, s)
      | Occupied oe \<Rightarrow> do {
          (_, oe, s) \<leftarrow> occupied_modify A VC (\<lambda>v. ((), f v)) s oe;
          Some (Occupied oe, s)
        })"

definition map_and_try_modify ::
    "('s, 'e, 'i) state_api \<Rightarrow> 'v codec \<Rightarrow> ('v \<Rightarrow> ('err + unit) \<times> 'v) \<Rightarrow> 's \<Rightarrow> ('k, 'v, 'e) map_entry \<Rightarrow>
     (('err + ('k, 'v, 'e) map_entry) \<times> 's) option" where
  "map_and_try_modify A VC f s en =
     (case en of
        Vacant k key_bytes \<Rightarrow> Some (Inr en, s)
      | Occupied oe \<Rightarrow> do {
          (r, oe, s) \<leftarrow> occupied_try_modify A VC f s oe;
          Some (case r of Inl err \<Rightarrow> Inl err | Inr _ \<Rightarrow> Inr (Occupied oe), s)
        })"

definition occupied_or :: "('k, 'v, 'e) map_entry \<Rightarrow> 'err \<Rightarrow> 'err + ('k, 'v, 'e) occupied_entry" where
  "occupied_or en err = (case en of Vacant _ _ \<Rightarrow> Inl err | Occupied oe \<Rightarrow> Inr oe)"

definition vacant_or :: "('k, 'v, 'e) map_entry \<Rightarrow> 'err \<Rightarrow> 'err + 'k \<times> bytes" where
  "vacant_or en err = (case en of Vacant k kb \<Rightarrow> Inr (k, kb) | Occupied _ \<Rightarrow> Inl err)"

definition map_entry_key :: "('k, 'v, 'e) map_entry \<Rightarrow> 'k" where
  "map_entry_key en = (case en of Vacant k _ \<Rightarrow> k | Occupied oe \<Rightarrow> oe_key oe)"

section \<open>StateRefMut\<close>

text \<open>A lazily loaded value with the entry it comes from.\<close>

record ('v, 'e) state_ref_mut =
  rm_entry :: 'e
  rm_lazy :: "'v option"

definition ref_mut_new :: "'e \<Rightarrow> ('v, 'e) state_ref_mut" where
  "ref_mut_new e = \<lparr>rm_entry = e, rm_lazy = None\<rparr>"

definition state_map_get_mut ::
    "('s, 'e, 'i) state_api \<Rightarrow> 'k codec \<Rightarrow> bytes \<Rightarrow> 's \<Rightarrow> 'k \<Rightarrow> (('v, 'e) state_ref_mut option \<times> 's) option" where
  "state_map_get_mut A KC p s k = do {
     (r, s) \<leftarrow> lookup_entry A s (key_with_map_prefix p KC k);
     Some (map_option ref_mut_new r, s)
   }"

text \<open>\<^verbatim>\<open>load_value\<close>, and \<^verbatim>\<open>get\<close> and \<^verbatim>\<open>get_mut\<close>, which load the value once.\<close>

definition ref_mut_load ::
    "('s, 'e, 'i) state_api \<Rightarrow> 'v codec \<Rightarrow> 's \<Rightarrow> ('v, 'e) state_ref_mut \<Rightarrow> ('v \<times> ('v, 'e) state_ref_mut) option" where
  "ref_mut_load A VC s r = do {
     (v, e) \<leftarrow> deserial A VC s (move_to_start A (rm_entry r));
     Some (v, r\<lparr>rm_entry := e\<rparr>)
   }"

definition ref_mut_get ::
    "('s, 'e, 'i) state_api \<Rightarrow> 'v codec \<Rightarrow> 's \<Rightarrow> ('v, 'e) state_ref_mut \<Rightarrow> ('v \<times> ('v, 'e) state_ref_mut) option" where
  "ref_mut_get A VC s r =
     (case rm_lazy r of
        Some v \<Rightarrow> Some (v, r)
      | None \<Rightarrow> do {
          (v, r) \<leftarrow> ref_mut_load A VC s r;
          Some (v, r\<lparr>rm_lazy := Some v\<rparr>)
        })"

definition ref_mut_set ::
    "('s, 'e, 'i) state_api \<Rightarrow> 'v codec \<Rightarrow> 's \<Rightarrow> ('v, 'e) state_ref_mut \<Rightarrow> 'v \<Rightarrow> (('v, 'e) state_ref_mut \<times> 's) option" where
  "ref_mut_set A VC s r v = do {
     (e, s) \<leftarrow> serial A VC s (move_to_start A (rm_entry r)) v;
     Some (r\<lparr>rm_entry := e, rm_lazy := Some v\<rparr>, s)
   }"

definition ref_mut_update ::
    "('s, 'e, 'i) state_api \<Rightarrow> 'v codec \<Rightarrow> ('v \<Rightarrow> 'v) \<Rightarrow> 's \<Rightarrow> ('v, 'e) state_ref_mut \<Rightarrow>
     (('v, 'e) state_ref_mut \<times> 's) option" where
  "ref_mut_update A VC f s r = do {
     (v, r) \<leftarrow> ref_mut_get A VC s r;
     let v = f v;
     (e, s) \<leftarrow> serial A VC s (move_to_start A (rm_entry r)) v;
     Some (r\<lparr>rm_entry := e, rm_lazy := Some v\<rparr>, s)
   }"

text \<open>\<^verbatim>\<open>store_mutations\<close>, which is also the \<^verbatim>\<open>Drop\<close> of \<^verbatim>\<open>StateRefMut\<close>.\<close>

definition store_mutations ::
    "('s, 'e, 'i) state_api \<Rightarrow> 'v codec \<Rightarrow> 's \<Rightarrow> ('v, 'e) state_ref_mut \<Rightarrow> 's option" where
  "store_mutations A VC s r =
     (case rm_lazy r of
        None \<Rightarrow> Some s
      | Some v \<Rightarrow> do {
          (_, s) \<leftarrow> serial A VC s (move_to_start A (rm_entry r)) v;
          Some s
        })"

section \<open>StateSet\<close>

definition key_with_set_prefix :: "bytes \<Rightarrow> 't codec \<Rightarrow> 't \<Rightarrow> bytes" where
  "key_with_set_prefix p C t = p @ ser C t"

text \<open>\<^verbatim>\<open>insert\<close>: the result of inserting the raw entry is dropped.\<close>

definition state_set_insert ::
    "('s, 'e, 'i) state_api \<Rightarrow> 't codec \<Rightarrow> bytes \<Rightarrow> 's \<Rightarrow> 't \<Rightarrow> (bool \<times> 's) option" where
  "state_set_insert A C p s t = do {
     (er, s) \<leftarrow> state_entry A s (key_with_set_prefix p C t);
     case er of
       VacantRaw k \<Rightarrow> do {
         (_, s) \<leftarrow> vacant_insert_raw A s k [];
         Some (True, s)
       }
     | OccupiedRaw _ \<Rightarrow> Some (False, s)
   }"

definition state_set_contains ::
    "('s, 'e, 'i) state_api \<Rightarrow> 't codec \<Rightarrow> bytes \<Rightarrow> 's \<Rightarrow> 't \<Rightarrow> (bool \<times> 's) option" where
  "state_set_contains A C p s t = do {
     (r, s) \<leftarrow> lookup_entry A s (key_with_set_prefix p C t);
     Some (r \<noteq> None, s)
   }"

definition state_set_is_empty :: "('s, 'e, 'i) state_api \<Rightarrow> bytes \<Rightarrow> 's \<Rightarrow> (bool \<times> 's) option" where
  "state_set_is_empty A p s = do {
     (r, s) \<leftarrow> lookup_entry A s p;
     Some (r = None, s)
   }"

text \<open>\<^verbatim>\<open>clear\<close>, also \<^verbatim>\<open>Deletable::delete\<close> of a set.\<close>

definition state_set_clear :: "('s, 'e, 'i) state_api \<Rightarrow> bytes \<Rightarrow> 's \<Rightarrow> 's option" where
  "state_set_clear A p s = do {
     (_, s) \<leftarrow> Option.bind (delete_prefix A s p) (\<lambda>r. unwrap_abort (Some r));
     Some s
   }"

definition state_set_remove ::
    "('s, 'e, 'i) state_api \<Rightarrow> 't codec \<Rightarrow> bytes \<Rightarrow> 's \<Rightarrow> 't \<Rightarrow> (bool \<times> 's) option" where
  "state_set_remove A C p s t = do {
     (er, s) \<leftarrow> state_entry A s (key_with_set_prefix p C t);
     case er of
       VacantRaw _ \<Rightarrow> Some (False, s)
     | OccupiedRaw e \<Rightarrow> do {
         (_, s) \<leftarrow> Option.bind (delete_entry A s e) (\<lambda>r. unwrap_abort (Some r));
         Some (True, s)
       }
   }"

text \<open>\<^verbatim>\<open>StateSetIter::next\<close>.\<close>

definition state_set_iter_next ::
    "('s, 'e, 'i) state_api \<Rightarrow> 't codec \<Rightarrow> 's \<Rightarrow> 'i option \<Rightarrow> ('t option \<times> 'i option \<times> 's) option" where
  "state_set_iter_next A C s it =
     (case it of
        None \<Rightarrow> Some (None, None, s)
      | Some i \<Rightarrow>
          (case iter_next A s i of
             (None, i, s) \<Rightarrow> Some (None, Some i, s)
           | (Some e, i, s) \<Rightarrow> do {
               (t, _) \<leftarrow> des C (drop 8 (get_key A e));
               Some (Some t, Some i, s)
             }))"

section \<open>StateBox\<close>

datatype ('v, 'e) state_box = Loaded 'e bool 'v | Reference bytes

text \<open>\<^verbatim>\<open>get_location\<close>, which is also how a box is serialized.\<close>

definition box_location :: "('s, 'e, 'i) state_api \<Rightarrow> ('v, 'e) state_box \<Rightarrow> bytes" where
  "box_location A b = (case b of Loaded e _ _ \<Rightarrow> get_key A e | Reference p \<Rightarrow> p)"

text \<open>\<^verbatim>\<open>get_with_inner\<close> and \<^verbatim>\<open>ensure_cached\<close>: the loaded box.\<close>

definition box_load ::
    "('s, 'e, 'i) state_api \<Rightarrow> 'v codec \<Rightarrow> 's \<Rightarrow> ('v, 'e) state_box \<Rightarrow> ('e \<times> bool \<times> 'v \<times> 's) option" where
  "box_load A VC s b =
     (case b of
        Loaded e m v \<Rightarrow> Some (e, m, v, s)
      | Reference p \<Rightarrow> do {
          (r, s) \<leftarrow> lookup_entry A s p;
          e \<leftarrow> r;
          (v, e) \<leftarrow> deserial A VC s e;
          Some (e, False, v, s)
        })"

definition box_get ::
    "('s, 'e, 'i) state_api \<Rightarrow> 'v codec \<Rightarrow> 's \<Rightarrow> ('v, 'e) state_box \<Rightarrow> ('v \<times> ('v, 'e) state_box \<times> 's) option" where
  "box_get A VC s b = do {
     (e, m, v, s) \<leftarrow> box_load A VC s b;
     Some (v, Loaded e m v, s)
   }"

text \<open>\<^verbatim>\<open>get_mut\<close> followed by the caller's change of the value: only the flag is set.\<close>

definition box_get_mut ::
    "('s, 'e, 'i) state_api \<Rightarrow> 'v codec \<Rightarrow> ('v \<Rightarrow> 'v) \<Rightarrow> 's \<Rightarrow> ('v, 'e) state_box \<Rightarrow> (('v, 'e) state_box \<times> 's) option" where
  "box_get_mut A VC f s b = do {
     (e, m, v, s) \<leftarrow> box_load A VC s b;
     Some (Loaded e True (f v), s)
   }"

definition box_replace ::
    "('s, 'e, 'i) state_api \<Rightarrow> 'v codec \<Rightarrow> 's \<Rightarrow> ('v, 'e) state_box \<Rightarrow> 'v \<Rightarrow> ('v \<times> ('v, 'e) state_box \<times> 's) option" where
  "box_replace A VC s b new_val = do {
     (e, m, v, s) \<leftarrow> box_load A VC s b;
     (e, s) \<leftarrow> serial A VC s (move_to_start A e) new_val;
     Some (v, Loaded e m new_val, s)
   }"

definition box_update ::
    "('s, 'e, 'i) state_api \<Rightarrow> 'v codec \<Rightarrow> ('v \<Rightarrow> 'a \<times> 'v) \<Rightarrow> 's \<Rightarrow> ('v, 'e) state_box \<Rightarrow>
     ('a \<times> ('v, 'e) state_box \<times> 's) option" where
  "box_update A VC f s b = do {
     (e, m, v, s) \<leftarrow> box_load A VC s b;
     let (res, v) = f v;
     (e, s) \<leftarrow> serial A VC s (move_to_start A e) v;
     Some (res, Loaded e m v, s)
   }"

text \<open>The \<^verbatim>\<open>Drop\<close> of \<^verbatim>\<open>StateBox\<close>.\<close>

definition box_drop :: "('s, 'e, 'i) state_api \<Rightarrow> 'v codec \<Rightarrow> 's \<Rightarrow> ('v, 'e) state_box \<Rightarrow> 's option" where
  "box_drop A VC s b =
     (case b of
        Reference _ \<Rightarrow> Some s
      | Loaded e m v \<Rightarrow>
          if m then do { (_, s) \<leftarrow> serial A VC s (move_to_start A e) v; Some s } else Some s)"

text \<open>\<^verbatim>\<open>Deletable::delete\<close> of a box, given what deleting its value does.\<close>

definition box_delete ::
    "('s, 'e, 'i) state_api \<Rightarrow> 'v codec \<Rightarrow> ('s \<Rightarrow> 'v \<Rightarrow> 's option) \<Rightarrow> 's \<Rightarrow> ('v, 'e) state_box \<Rightarrow> 's option" where
  "box_delete A VC del s b = do {
     (e, _, v, s) \<leftarrow> box_load A VC s b;
     (_, s) \<leftarrow> Option.bind (delete_entry A s e) (\<lambda>r. unwrap_abort (Some r));
     del s v
   }"

section \<open>StateBuilder\<close>

text \<open>\<^verbatim>\<open>to_le_bytes\<close> and \<^verbatim>\<open>from_le_bytes\<close> of a 64-bit integer.\<close>

definition u64_to_le_bytes :: "u64 \<Rightarrow> bytes" where
  "u64_to_le_bytes n = map (\<lambda>i. ucast (drop_bit (8 * i) n)) [0..<8]"

definition u64_from_le_bytes :: "bytes \<Rightarrow> u64" where
  "u64_from_le_bytes bs = foldr (\<lambda>b n. push_bit 8 n + ucast b) bs 0"

definition NEXT_ITEM_PREFIX_KEY :: bytes where
  "NEXT_ITEM_PREFIX_KEY = u64_to_le_bytes 0"

definition INITIAL_NEXT_ITEM_PREFIX :: bytes where
  "INITIAL_NEXT_ITEM_PREFIX = u64_to_le_bytes 2"

text \<open>\<^verbatim>\<open>get_and_update_item_prefix\<close>: reading the counter needs all of its eight bytes.\<close>

definition get_and_update_item_prefix :: "('s, 'e, 'i) state_api \<Rightarrow> 's \<Rightarrow> (bytes \<times> 's) option" where
  "get_and_update_item_prefix A s = do {
     (er, s) \<leftarrow> state_entry A s NEXT_ITEM_PREFIX_KEY;
     (e, s) \<leftarrow> unwrap_abort (or_insert_raw A s er INITIAL_NEXT_ITEM_PREFIX);
     (bs, e) \<leftarrow> entry_read A s e 8;
     if length bs = 8 then do {
       let collection_prefix = u64_from_le_bytes bs;
       let e = move_to_start A e;
       (_, s) \<leftarrow> write_all A s e (u64_to_le_bytes (collection_prefix + 1));
       Some (u64_to_le_bytes collection_prefix, s)
     } else None
   }"

text \<open>\<^verbatim>\<open>new_map\<close> and \<^verbatim>\<open>new_set\<close> only take a prefix; \<^verbatim>\<open>new_box\<close> also stores the value.\<close>

definition new_map :: "('s, 'e, 'i) state_api \<Rightarrow> 's \<Rightarrow> (bytes \<times> 's) option" where
  "new_map A s = get_and_update_item_prefix A s"

definition new_set :: "('s, 'e, 'i) state_api \<Rightarrow> 's \<Rightarrow> (bytes \<times> 's) option" where
  "new_set A s = get_and_update_item_prefix A s"

definition new_box ::
    "('s, 'e, 'i) state_api \<Rightarrow> 'v codec \<Rightarrow> 's \<Rightarrow> 'v \<Rightarrow> (('v, 'e) state_box \<times> 's) option" where
  "new_box A VC s v = do {
     (p, s) \<leftarrow> get_and_update_item_prefix A s;
     (e, s) \<leftarrow> unwrap_abort (create_entry A s p);
     (e, s) \<leftarrow> serial A VC s e v;
     Some (Loaded e True v, s)
   }"

end
