(* ===== verification/State_Trie.thy ===== *)
theory State_Trie
  imports State_Api "HOL-Library.AList"
begin

unbundle bit_operations_syntax

text \<open>
  The state of \<^verbatim>\<open>concordium-std/src/test_infrastructure/trie.rs\<close>: a trie that branches on the
  nibbles of the key, with entry handles that share the data of a node, iterators that lock
  subtrees, and the entries of \<^verbatim>\<open>test_infrastructure.rs\<close>. The reference-counted cells
  (\<^verbatim>\<open>Rc<RefCell<TestStateEntryData>>\<close>) are addresses of an explicit heap, so that two handles to
  one entry see each other's writes.
\<close>

section \<open>Nodes\<close>

text \<open>
  An \<^verbatim>\<open>Index\<close> into the 16 children of a node: the code masks and shifts a byte to get it, so a
  four-bit word holds it exactly and indexing the array of children is total.
\<close>

type_synonym nibble = "4 word"

datatype tnode = TNode (node_data: "nat option") (node_children: "nibble \<Rightarrow> tnode option")

datatype entry_data = EntryDeleted | EntryExists bytes

text \<open>\<^verbatim>\<open>0..BRANCHING_FACTOR\<close>.\<close>

definition branches :: "nibble list" where
  "branches = map of_nat [0..<16]"

definition byte_indexes :: "u8 \<Rightarrow> nibble list" where
  "byte_indexes b = [ucast (drop_bit 4 (b AND 0xF0)), ucast (b AND 0x0F)]"

definition to_indexes :: "bytes \<Rightarrow> nibble list" where
  "to_indexes key = concat (map byte_indexes key)"

text \<open>\<^verbatim>\<open>from_indexes\<close>: indexing the last chunk of an odd number of indexes panics.\<close>

fun from_indexes :: "nibble list \<Rightarrow> bytes option" where
  "from_indexes [] = Some []"
| "from_indexes [a] = None"
| "from_indexes (a # b # ix) =
     map_option (\<lambda>key. (push_bit 4 (ucast a) OR ucast b) # key) (from_indexes ix)"

definition node_new :: tnode where
  "node_new = TNode None (\<lambda>_. None)"

fun lookup_node :: "tnode \<Rightarrow> nibble list \<Rightarrow> tnode option" where
  "lookup_node n [] = Some n"
| "lookup_node n (i # ix) = (case node_children n i of None \<Rightarrow> None | Some c \<Rightarrow> lookup_node c ix)"

definition node_lookup :: "tnode \<Rightarrow> nibble list \<Rightarrow> nat option" where
  "node_lookup n ix = Option.bind (lookup_node n ix) node_data"

text \<open>\<^verbatim>\<open>Node::create\<close>, given the address of the new cell.\<close>

fun node_create :: "nat \<Rightarrow> tnode \<Rightarrow> nibble list \<Rightarrow> tnode" where
  "node_create c n [] = TNode (Some c) (node_children n)"
| "node_create c n (i # ix) =
     TNode (node_data n)
       ((node_children n)(i \<mapsto> node_create c (case node_children n i of None \<Rightarrow> node_new | Some m \<Rightarrow> m) ix))"

definition node_is_empty :: "tnode \<Rightarrow> bool" where
  "node_is_empty n \<longleftrightarrow> node_data n = None \<and> list_all (\<lambda>i. node_children n i = None) branches"

fun node_delete_prefix :: "tnode \<Rightarrow> nibble list \<Rightarrow> bool \<Rightarrow> (state_error + unit) \<times> tnode" where
  "node_delete_prefix n [] exact =
     (if exact \<and> node_data n = None then (Inr (), n)
      else (Inr (), TNode None (if exact then node_children n else (\<lambda>_. None))))"
| "node_delete_prefix n (i # ix) exact =
     (case node_children n i of
        None \<Rightarrow> (Inl (if exact then EntryNotFound else SubtreeWithPrefixNotFound), n)
      | Some c \<Rightarrow>
          (let (r, c') = node_delete_prefix c ix exact
           in (r, TNode (node_data n)
                 ((node_children n)(i := if node_is_empty c' then None else Some c')))))"

definition node_delete_data :: "tnode \<Rightarrow> nibble list \<Rightarrow> (state_error + unit) \<times> tnode" where
  "node_delete_data n ix = node_delete_prefix n ix True"

section \<open>The trie and its entries\<close>

record trie =
  nodes :: tnode
  next_entry_id :: u64
  entry_map :: "u64 \<rightharpoonup> nibble list"
  iterator_counts :: "(nibble list \<times> u32) list"
  cells :: "nat \<rightharpoonup> entry_data"
  next_cell :: nat

text \<open>\<^verbatim>\<open>TestStateEntry\<close>: a cursor on shared data, the key and the identifier of the handle.\<close>

record test_entry =
  te_cell :: nat
  te_offset :: nat
  te_key :: bytes
  te_id :: u64

record test_iter =
  ti_prefix :: "nibble list"
  ti_queue :: "test_entry list"

definition trie_new :: trie where
  "trie_new = \<lparr>nodes = node_new, next_entry_id = 0, entry_map = Map.empty, iterator_counts = [],
     cells = Map.empty, next_cell = 0\<rparr>"

text \<open>The identifiers of handles are 64-bit and the increment traps on overflow.\<close>

definition construct_state_entry_test ::
    "trie \<Rightarrow> nibble list \<Rightarrow> nat \<Rightarrow> bytes \<Rightarrow> (test_entry \<times> trie) option" where
  "construct_state_entry_test T ix c key =
     (let i = next_entry_id T in
      if i + 1 = 0 then None
      else Some (\<lparr>te_cell = c, te_offset = 0, te_key = key, te_id = i\<rparr>,
                 T\<lparr>entry_map := (entry_map T)(i \<mapsto> ix), next_entry_id := i + 1\<rparr>))"

definition trie_is_locked :: "trie \<Rightarrow> nibble list \<Rightarrow> bool" where
  "trie_is_locked T prefx =
     list_ex (\<lambda>(p, _). let m = min (length p) (length prefx) in take m p = take m prefx) (iterator_counts T)"

definition trie_create_entry :: "trie \<Rightarrow> bytes \<Rightarrow> ((state_error + test_entry) \<times> trie) option" where
  "trie_create_entry T key =
     (let ix = to_indexes key in
      if trie_is_locked T ix then Some (Inl SubtreeLocked, T)
      else do {
        let c = next_cell T;
        let T = T\<lparr>nodes := node_create c (nodes T) ix, cells := (cells T)(c \<mapsto> EntryExists []), next_cell := c + 1\<rparr>;
        (e, T) \<leftarrow> construct_state_entry_test T ix c key;
        Some (Inr e, T)
      })"

definition trie_lookup :: "trie \<Rightarrow> bytes \<Rightarrow> (test_entry option \<times> trie) option" where
  "trie_lookup T key =
     (case node_lookup (nodes T) (to_indexes key) of
        None \<Rightarrow> Some (None, T)
      | Some c \<Rightarrow> do {
          (e, T) \<leftarrow> construct_state_entry_test T (to_indexes key) c key;
          Some (Some e, T)
        })"

definition trie_delete_entry :: "trie \<Rightarrow> test_entry \<Rightarrow> ((state_error + unit) \<times> trie) option" where
  "trie_delete_entry T e =
     Some (if trie_is_locked T (to_indexes (te_key e)) then (Inl SubtreeLocked, T)
      else (case entry_map T (te_id e) of
          None \<Rightarrow> (Inl EntryNotFound, T)
        | Some ix \<Rightarrow>
            (let (r, n) = node_delete_data (nodes T) ix
             in (r, T\<lparr>entry_map := (entry_map T)(te_id e := None), nodes := n\<rparr>))))"

text \<open>
  \<^verbatim>\<open>build_queue\<close>: the entries strictly below a node, depth first, a handle for each; the path is
  the one from the root of the trie.
\<close>

fun visit_children ::
    "(nibble \<Rightarrow> (tnode \<times> (nibble list \<Rightarrow> trie \<Rightarrow> (test_entry list \<times> trie) option)) option) \<Rightarrow>
     nibble list \<Rightarrow> nibble list \<Rightarrow> trie \<Rightarrow> (test_entry list \<times> trie) option" where
  "visit_children ch [] ix T = Some ([], T)"
| "visit_children ch (i # is) ix T =
     (case ch i of
        None \<Rightarrow> visit_children ch is ix T
      | Some (child, sub) \<Rightarrow> do {
          let path = ix @ [i];
          (here, T) \<leftarrow> (case node_data child of
              None \<Rightarrow> Some ([], T)
            | Some c \<Rightarrow> do {
                key \<leftarrow> from_indexes path;
                (e, T) \<leftarrow> construct_state_entry_test T path c key;
                Some ([e], T)
              });
          (below, T) \<leftarrow> sub path T;
          (rest, T) \<leftarrow> visit_children ch is ix T;
          Some (here @ below @ rest, T)
        })"

primrec build_queue :: "tnode \<Rightarrow> nibble list \<Rightarrow> trie \<Rightarrow> (test_entry list \<times> trie) option" where
  "build_queue (TNode d ch) =
     visit_children
       (\<lambda>i. map_option (\<lambda>c. (c, build_queue c)) (ch i)) branches"

text \<open>\<^verbatim>\<open>StateTrie::iterator\<close>: counts the iterators per prefix and collects the entries at once.\<close>

definition trie_iterator :: "trie \<Rightarrow> bytes \<Rightarrow> ((state_error + test_iter) \<times> trie) option" where
  "trie_iterator T prefx =
     (let ix = to_indexes prefx in
      case lookup_node (nodes T) ix of
        None \<Rightarrow> Some (Inl SubtreeWithPrefixNotFound, T)
      | Some node \<Rightarrow>
          (case map_of (iterator_counts T) ix of
             Some n \<Rightarrow>
               if n = - 1 then Some (Inl IteratorLimitForPrefixExceeded, T)
               else do {
                 let T = T\<lparr>iterator_counts := AList.update ix (n + 1) (iterator_counts T)\<rparr>;
                 (q, T) \<leftarrow> build_queue node ix T;
                 Some (Inr \<lparr>ti_prefix = ix, ti_queue = q\<rparr>, T)
               }
           | None \<Rightarrow> do {
               let T = T\<lparr>iterator_counts := AList.update ix 1 (iterator_counts T)\<rparr>;
               (q, T) \<leftarrow> build_queue node ix T;
               Some (Inr \<lparr>ti_prefix = ix, ti_queue = q\<rparr>, T)
             }))"

definition trie_iter_next :: "trie \<Rightarrow> test_iter \<Rightarrow> test_entry option \<times> test_iter \<times> trie" where
  "trie_iter_next T it =
     (case ti_queue it of
        [] \<Rightarrow> (None, it, T)
      | e # q \<Rightarrow> (Some e, it\<lparr>ti_queue := q\<rparr>, T))"

definition trie_delete_iterator :: "trie \<Rightarrow> test_iter \<Rightarrow> trie option" where
  "trie_delete_iterator T it =
     (case map_of (iterator_counts T) (ti_prefix it) of
        None \<Rightarrow> None
      | Some n \<Rightarrow>
          Some (T\<lparr>iterator_counts :=
            (if n = 1 then AList.delete (ti_prefix it) (iterator_counts T)
             else AList.update (ti_prefix it) (n - 1) (iterator_counts T))\<rparr>))"

text \<open>Overwriting the data of the entries that \<^verbatim>\<open>delete_prefix\<close> removes.\<close>

definition invalidate :: "trie \<Rightarrow> test_entry list \<Rightarrow> trie" where
  "invalidate T q = T\<lparr>cells := fold (\<lambda>e m. m(te_cell e \<mapsto> EntryDeleted)) q (cells T)\<rparr>"

definition trie_delete_prefix :: "trie \<Rightarrow> bytes \<Rightarrow> ((state_error + bool) \<times> trie) option" where
  "trie_delete_prefix T prefx =
     (let ix = to_indexes prefx in
      if trie_is_locked T ix then Some (Inl SubtreeLocked, T)
      else do {
        (r, T) \<leftarrow> trie_iterator T prefx;
        (case r of
           Inl SubtreeWithPrefixNotFound \<Rightarrow> Some (Inr False, T)
         | Inl _ \<Rightarrow> None
         | Inr it \<Rightarrow> do {
             let T = invalidate T (ti_queue it);
             T \<leftarrow> trie_delete_iterator T it;
             let (r, n) = node_delete_prefix (nodes T) ix False;
             let T = T\<lparr>nodes := n\<rparr>;
             Some (case r of Inl err \<Rightarrow> Inl err | Inr _ \<Rightarrow> Inr True, T)
           })
      })"

section \<open>Operations on an entry\<close>

datatype test_state_error = Overflow | Write | Offset | Default | EntryDeletedError

definition te_data :: "trie \<Rightarrow> test_entry \<Rightarrow> test_state_error + bytes" where
  "te_data T e = (case cells T (te_cell e) of Some (EntryExists v) \<Rightarrow> Inr v | _ \<Rightarrow> Inl EntryDeletedError)"

definition te_move_to_start :: "test_entry \<Rightarrow> test_entry" where
  "te_move_to_start e = e\<lparr>te_offset := 0\<rparr>"

definition te_size :: "trie \<Rightarrow> test_entry \<Rightarrow> test_state_error + u32" where
  "te_size T e = (case te_data T e of Inl err \<Rightarrow> Inl err | Inr v \<Rightarrow> Inr (of_nat (length v)))"

text \<open>\<^verbatim>\<open>Vec::resize\<close> with zeros.\<close>

definition vec_resize :: "nat \<Rightarrow> bytes \<Rightarrow> bytes" where
  "vec_resize n v = take n v @ replicate (n - length v) 0"

definition te_resize :: "trie \<Rightarrow> test_entry \<Rightarrow> u32 \<Rightarrow> test_state_error + test_entry \<times> trie" where
  "te_resize T e new_size =
     (case te_data T e of
        Inl err \<Rightarrow> Inl err
      | Inr v \<Rightarrow>
          Inr (if unat new_size < te_offset e then e\<lparr>te_offset := unat new_size\<rparr> else e,
               T\<lparr>cells := (cells T)(te_cell e \<mapsto> EntryExists (vec_resize (unat new_size) v))\<rparr>))"

definition te_truncate :: "trie \<Rightarrow> test_entry \<Rightarrow> u32 \<Rightarrow> test_state_error + test_entry \<times> trie" where
  "te_truncate T e new_size =
     (case te_size T e of
        Inl err \<Rightarrow> Inl err
      | Inr cur_size \<Rightarrow> if new_size < cur_size then te_resize T e new_size else Inr (e, T))"

text \<open>
  \<^verbatim>\<open>read\<close> into a buffer of a given length: the bytes read. \<open>None\<close> is the panic of the length
  subtraction or the error.
\<close>

definition te_read :: "trie \<Rightarrow> test_entry \<Rightarrow> nat \<Rightarrow> (bytes \<times> test_entry) option" where
  "te_read T e buf_len =
     (case te_data T e of
        Inl _ \<Rightarrow> None
      | Inr v \<Rightarrow>
          if length v < te_offset e then None
          else (let n = min (length v - te_offset e) buf_len
                in Some (take n (drop (te_offset e) v), e\<lparr>te_offset := te_offset e + n\<rparr>)))"

text \<open>\<^verbatim>\<open>write\<close>: grows the entry to the end of what is written, then copies.\<close>

definition te_write :: "trie \<Rightarrow> test_entry \<Rightarrow> bytes \<Rightarrow> (nat \<times> test_entry \<times> trie) option" where
  "te_write T e buf =
     (let fin = te_offset e + length buf in
      case te_data T e of
        Inl _ \<Rightarrow> None
      | Inr v \<Rightarrow> do {
          (e, T) \<leftarrow> (if length v < fin
             then (if fin < 2 ^ 32
                   then (case te_resize T e (of_nat fin) of Inl _ \<Rightarrow> None | Inr r \<Rightarrow> Some r)
                   else None)
             else Some (e, T));
          (case te_data T e of
             Inl _ \<Rightarrow> None
           | Inr v \<Rightarrow>
               if length v < te_offset e then None
               else (let n = min (length v - te_offset e) (length buf) in
                 Some (n, e\<lparr>te_offset := te_offset e + n\<rparr>,
                   T\<lparr>cells := (cells T)(te_cell e \<mapsto>
                     EntryExists (take (te_offset e) v @ take n buf @ drop (te_offset e + n) v))\<rparr>)))
        })"

text \<open>The positions of \<^verbatim>\<open>Seek\<close>, with the offsets of the source's types.\<close>

datatype seek_from = Start u32 | End int | Current int

text \<open>
  \<^verbatim>\<open>seek\<close>: the result and the entry with its new offset. \<open>None\<close> is the panic of negating the
  least offset.
\<close>

definition offset_u32 :: "nat \<Rightarrow> test_state_error + u32" where
  "offset_u32 n = (if n < 2 ^ 32 then Inr (of_nat n) else Inl Overflow)"

definition te_seek ::
    "trie \<Rightarrow> test_entry \<Rightarrow> seek_from \<Rightarrow> ((test_state_error + u32) \<times> test_entry) option" where
  "te_seek T e p =
     (case te_data T e of
        Inl err \<Rightarrow> Some (Inl err, e)
      | Inr v \<Rightarrow>
          (case p of
             Start x \<Rightarrow>
               Some (if unat x \<le> length v then (Inr x, e\<lparr>te_offset := unat x\<rparr>) else (Inl Offset, e))
           | End x \<Rightarrow>
               Some (if x \<le> 0 then
                 (if 2 ^ 32 \<le> length v \<or> x = - (2 ^ 31) then (Inl Overflow, e)
                  else if nat (- x) \<le> length v
                    then (Inr (of_nat (length v - nat (- x))), e\<lparr>te_offset := length v - nat (- x)\<rparr>)
                    else (Inl Offset, e))
               else (Inl Offset, e))
           | Current x \<Rightarrow>
               if x = 0 then Some (offset_u32 (te_offset e), e)
               else if 0 < x then
                 (let new_pos = te_offset e + nat x
                  in Some (if new_pos \<le> length v then (offset_u32 new_pos, e\<lparr>te_offset := new_pos\<rparr>)
                           else (Inl Offset, e)))
               else if x = - (2 ^ 31) then None
               else
                 (let new_pos = te_offset e - nat (- x)
                  in Some (if nat (- x) \<le> te_offset e then (offset_u32 new_pos, e\<lparr>te_offset := new_pos\<rparr>)
                           else (Inl Overflow, e)))))"

text \<open>\<^verbatim>\<open>TestStateApi\<close>: the operations of the interface on the trie.\<close>

definition drop_error :: "'a + 'b \<Rightarrow> 'b option" where
  "drop_error r = (case r of Inl _ \<Rightarrow> None | Inr x \<Rightarrow> Some x)"

definition test_state_api :: "(trie, test_entry, test_iter) state_api" where
  "test_state_api = \<lparr>
     create_entry = trie_create_entry, lookup_entry = trie_lookup, delete_entry = trie_delete_entry,
     delete_prefix = trie_delete_prefix, iterator = trie_iterator, iter_next = trie_iter_next,
     delete_iterator = trie_delete_iterator, move_to_start = te_move_to_start, get_key = te_key,
     entry_size = (\<lambda>T e. drop_error (te_size T e)),
     entry_truncate = (\<lambda>T e n. drop_error (te_truncate T e n)),
     entry_resize = (\<lambda>T e n. drop_error (te_resize T e n)),
     entry_read = te_read, entry_write = te_write\<rparr>"

section \<open>Nibbles and bytes\<close>

lemma branches_all: "i \<in> set branches"
proof -
  have "i = of_nat (unat i)" by simp
  moreover have "unat i < 16" using unsigned_less [of i, where 'a = nat] by simp
  ultimately show ?thesis unfolding branches_def by (metis atLeastLessThan_iff bot_nat_0.extremum imageI list.set_map set_upt)
qed

lemma nibble_masks: "(0xF0 :: u8) = push_bit 4 (mask 4)" "(0x0F :: u8) = mask 4"
  by (simp_all add: mask_eq_exp_minus_1 push_bit_eq_mult)

lemma byte_nibbles:
  "push_bit 4 (ucast (ucast (drop_bit 4 (b AND 0xF0)) :: nibble)) OR ucast (ucast (b AND 0x0F) :: nibble) = (b :: u8)"
  unfolding nibble_masks by (rule bit_word_eqI) (auto simp: bit_simps)

lemma nibbles_byte:
  fixes a c :: nibble
  defines "b \<equiv> push_bit 4 (ucast a) OR ucast c :: u8"
  shows "byte_indexes b = [a, c]"
proof -
  have "ucast (drop_bit 4 (b AND 0xF0)) = a"
    unfolding nibble_masks b_def by (rule bit_word_eqI) (auto simp: bit_simps dest: bit_imp_le_length)
  moreover have "ucast (b AND 0x0F) = c"
    unfolding nibble_masks b_def by (rule bit_word_eqI) (auto simp: bit_simps)
  ultimately show ?thesis by (simp add: byte_indexes_def)
qed

lemma from_to_indexes [simp]: "from_indexes (to_indexes key) = Some key"
  by (induction key) (simp_all add: to_indexes_def byte_indexes_def byte_nibbles [simplified])

lemma to_from_indexes: "from_indexes ix = Some key \<Longrightarrow> to_indexes key = ix"
proof (induction ix arbitrary: key rule: from_indexes.induct)
  case (3 a b ix)
  then obtain key' where k: "from_indexes ix = Some key'" "key = (push_bit 4 (ucast a) OR ucast b) # key'" by auto
  then show ?case using "3.IH" [OF k(1)] nibbles_byte [of a b] by (simp add: to_indexes_def)
qed (auto simp: to_indexes_def)

lemma to_indexes_eq [simp]: "to_indexes k = to_indexes k' \<longleftrightarrow> k = k'"
  by (metis from_to_indexes option.inject)

lemma to_indexes_append: "to_indexes (k @ k') = to_indexes k @ to_indexes k'"
  by (simp add: to_indexes_def)

lemma byte_indexes_eq: "byte_indexes b = byte_indexes b' \<longleftrightarrow> b = b'"
  using to_indexes_eq [of "[b]" "[b']"] by (simp add: to_indexes_def)

lemma prefix_to_indexes [simp]: "prefix (to_indexes p) (to_indexes k) \<longleftrightarrow> prefix p k"
proof (induction p arbitrary: k)
  case (Cons b p)
  show ?case
  proof (cases k)
    case (Cons b' k')
    have len: "length (byte_indexes x) = 2" for x by (simp add: byte_indexes_def)
    have "prefix (byte_indexes b @ xs) (byte_indexes b' @ ys) \<longleftrightarrow> b = b' \<and> prefix xs ys" for xs ys
      using byte_indexes_eq [of b b'] by (auto simp: byte_indexes_def)
    then show ?thesis using Cons.IH Cons by (simp add: to_indexes_def)
  qed (simp add: to_indexes_def byte_indexes_def)
qed (simp add: to_indexes_def)

section \<open>What a node holds\<close>

lemma node_lookup_simps [simp]:
  "node_lookup n [] = node_data n"
  "node_lookup n (i # ix) = (case node_children n i of None \<Rightarrow> None | Some c \<Rightarrow> node_lookup c ix)"
  by (simp_all add: node_lookup_def split: option.split)

lemma node_lookup_new [simp]: "node_lookup node_new ix = None"
  by (cases ix) (simp_all add: node_new_def)

lemma node_lookup_create:
  "node_lookup (node_create c n ix) jx = (if jx = ix then Some c else node_lookup n jx)"
proof (induction ix arbitrary: n jx)
  case Nil
  then show ?case by (cases jx) auto
next
  case (Cons i ix)
  then show ?case by (cases jx) (auto split: option.split)
qed

lemma node_lookup_empty: "node_is_empty n \<Longrightarrow> node_lookup n ix = None"
  using branches_all by (cases ix) (auto simp: node_is_empty_def list_all_iff split: option.split)

lemma node_lookup_delete:
  assumes "node_delete_prefix n ix exact = (r, n')"
  shows "node_lookup n' jx = (if (if exact then jx = ix else prefix ix jx) then None else node_lookup n jx)"
  using assms
proof (induction ix arbitrary: n jx r n')
  case Nil
  then show ?case by (cases jx) (auto split: if_splits)
next
  case (Cons i ix)
  show ?case
  proof (cases "node_children n i")
    case None
    then show ?thesis using Cons.prems by (cases jx) (auto split: option.split if_splits)
  next
    case (Some c)
    obtain r' c' where c': "node_delete_prefix c ix exact = (r', c')" by force
    have n': "n' = TNode (node_data n) ((node_children n)(i := if node_is_empty c' then None else Some c'))"
      using Cons.prems Some c' by simp
    show ?thesis
    proof (cases jx)
      case Nil
      then show ?thesis using n' by simp
    next
      case (Cons j js)
      have "node_is_empty c' \<Longrightarrow> node_lookup c' js = None" by (rule node_lookup_empty)
      then show ?thesis using Cons.IH [OF c', of js] n' Cons Some by auto
    qed
  qed
qed

lemma node_delete_exact_ok: "node_lookup n ix \<noteq> None \<Longrightarrow> fst (node_delete_prefix n ix True) = Inr ()"
  by (induction ix arbitrary: n) (auto split: option.splits prod.splits, force)

lemma node_delete_prefix_ok: "lookup_node n ix \<noteq> None \<Longrightarrow> fst (node_delete_prefix n ix False) = Inr ()"
  by (induction ix arbitrary: n) (auto split: option.splits prod.splits, force)

lemma node_lookup_append:
  "node_lookup n (ix @ jx) = (case lookup_node n ix of None \<Rightarrow> None | Some m \<Rightarrow> node_lookup m jx)"
  by (induction ix arbitrary: n) (auto split: option.split)

end
