(* ===== verification/State_Trie_Laws.thy ===== *)
theory State_Trie_Laws
  imports State_Trie
begin

unbundle bit_operations_syntax

text \<open>
  The trie meets the contract of the state interface: its invariant, its view as a map from
  keys to data, the entries an iterator collects, and the laws of every operation.
\<close>

section \<open>The entries below a node\<close>

text \<open>Paths and cells of the entries strictly below a node, depth first.\<close>

primrec entries_below :: "tnode \<Rightarrow> (nibble list \<times> nat) list" where
  "entries_below (TNode d ch) =
     concat (map (\<lambda>i. case map_option (\<lambda>c. (node_data c, entries_below c)) (ch i) of
         None \<Rightarrow> []
       | Some (dc, sub) \<Rightarrow>
           map (\<lambda>(p, c). (i # p, c)) ((case dc of None \<Rightarrow> [] | Some c \<Rightarrow> [([], c)]) @ sub)) branches)"

definition own_entry :: "tnode \<Rightarrow> (nibble list \<times> nat) list" where
  "own_entry n = (case node_data n of None \<Rightarrow> [] | Some c \<Rightarrow> [([], c)])"

abbreviation branch_entries :: "(nibble \<Rightarrow> tnode option) \<Rightarrow> nibble \<Rightarrow> (nibble list \<times> nat) list" where
  "branch_entries ch i \<equiv> (case ch i of None \<Rightarrow> []
     | Some m \<Rightarrow> map (\<lambda>(p, c). (i # p, c)) (own_entry m @ entries_below m))"

lemma entries_below_TNode: "entries_below (TNode d ch) = concat (map (branch_entries ch) branches)"
  unfolding entries_below.simps own_entry_def
  by (rule arg_cong [where f = concat], rule map_cong [OF refl]) (simp split: option.split)

lemma own_entry_in: "(p, c) \<in> set (own_entry n) \<longleftrightarrow> p = [] \<and> node_data n = Some c"
  by (auto simp: own_entry_def split: option.split)

lemma entries_below_in:
  "(p, c) \<in> set (entries_below n) \<longleftrightarrow> p \<noteq> [] \<and> node_lookup n p = Some c"
proof (induction n arbitrary: p c)
  case (TNode d ch)
  have IH: "(p, c) \<in> set (entries_below m) \<longleftrightarrow> p \<noteq> [] \<and> node_lookup m p = Some c" if "ch i = Some m" for i m p c
    using TNode.IH [of "Some m" m p c] that by (metis option.set_intros rangeI)
  have "(p, c) \<in> set (branch_entries ch i) \<longleftrightarrow> (\<exists>q m. p = i # q \<and> ch i = Some m \<and> node_lookup m q = Some c)" for i
  proof (cases "ch i")
    case (Some m)
    have "(q, c) \<in> set (own_entry m @ entries_below m) \<longleftrightarrow> node_lookup m q = Some c" for q
      using IH [OF Some, of q c] own_entry_in [of q c m] by (cases q) auto
    moreover have "(p, c) \<in> (\<lambda>(p, c). (i # p, c)) ` S \<longleftrightarrow> (\<exists>q. p = i # q \<and> (q, c) \<in> S)" for S
      by (auto simp: image_iff intro: bexI [of _ "(q, c)" for q])
    ultimately show ?thesis using Some by (simp only: option.case set_map) simp
  qed simp
  then have "(p, c) \<in> set (entries_below (TNode d ch)) \<longleftrightarrow>
      (\<exists>i q m. p = i # q \<and> ch i = Some m \<and> node_lookup m q = Some c)"
    unfolding entries_below_TNode using branches_all by auto
  also have "\<dots> \<longleftrightarrow> p \<noteq> [] \<and> node_lookup (TNode d ch) p = Some c"
    by (cases p) (auto split: option.split)
  finally show ?case .
qed

text \<open>The order of the entries is the lexicographic order of their paths.\<close>

abbreviation lex_less :: "'a::linorder list \<Rightarrow> 'a list \<Rightarrow> bool" where
  "lex_less xs ys \<equiv> (xs, ys) \<in> lexord {(a, b). a < b}"

lemma branches_sorted: "sorted_wrt (<) branches"
  by (simp add: branches_def upt_rec)

lemma lex_less_irrefl [simp]: "\<not> lex_less xs xs"
  by (rule lexord_irreflexive) simp

lemma sorted_wrt_concat_map:
  assumes "\<And>i. sorted_wrt R (f i)" "\<And>i j x y. i < j \<Longrightarrow> x \<in> set (f i) \<Longrightarrow> y \<in> set (f j) \<Longrightarrow> R x y"
    and "sorted_wrt (<) is"
  shows "sorted_wrt R (concat (map f is))"
  using assms(3) by (induction "is") (use assms(1,2) in \<open>auto simp: sorted_wrt_append\<close>)

lemma sorted_wrt_distinct: "sorted_wrt R xs \<Longrightarrow> (\<And>x. \<not> R x x) \<Longrightarrow> distinct xs"
  by (induction xs) auto

lemma entries_below_sorted: "sorted_wrt (\<lambda>x y. lex_less (fst x) (fst y)) (entries_below n)"
proof (induction n)
  case (TNode d ch)
  have sub: "sorted_wrt (\<lambda>x y. lex_less (fst x) (fst y)) (branch_entries ch i)" for i
  proof (cases "ch i")
    case (Some m)
    have "sorted_wrt (\<lambda>x y. lex_less (fst x) (fst y)) (entries_below m)"
      using TNode.IH [of "Some m" m] Some by (metis option.set_intros rangeI)
    then have "sorted_wrt (\<lambda>x y. lex_less (fst x) (fst y)) (own_entry m @ entries_below m)"
      using entries_below_in [of "[]" _ m] by (auto simp: own_entry_def sorted_wrt_append neq_Nil_conv split: option.split)
        (metis neq_Nil_conv)
    then show ?thesis using Some by (simp add: sorted_wrt_map case_prod_unfold del: map_append)
  qed simp
  have "lex_less (fst x) (fst y)" if "i < j" "x \<in> set (branch_entries ch i)" "y \<in> set (branch_entries ch j)" for i j x y
    using that by (auto split: option.splits)
  then show ?case unfolding entries_below_TNode by (rule sorted_wrt_concat_map [OF sub _ branches_sorted])
qed

lemma entries_below_distinct: "distinct (map fst (entries_below n))"
proof (rule sorted_wrt_distinct)
  show "sorted_wrt lex_less (map fst (entries_below n))"
    using entries_below_sorted [of n] by (simp add: sorted_wrt_map)
qed simp

text \<open>Handing out handles for a list of paths and cells.\<close>

fun give :: "trie \<Rightarrow> (nibble list \<times> nat) list \<Rightarrow> (test_entry list \<times> trie) option" where
  "give T [] = Some ([], T)"
| "give T ((path, c) # l) = do {
     key \<leftarrow> from_indexes path;
     (e, T) \<leftarrow> construct_state_entry_test T path c key;
     (es, T) \<leftarrow> give T l;
     Some (e # es, T)
   }"

lemma give_append:
  "give T (xs @ ys) = do { (es, T) \<leftarrow> give T xs; (fs, T) \<leftarrow> give T ys; Some (es @ fs, T) }"
proof (induction xs arbitrary: T)
  case Nil
  then show ?case by (cases "give T ys") auto
next
  case (Cons x xs)
  then show ?case by (cases x) (simp add: bind_simps)
qed

abbreviation at_path :: "nibble list \<Rightarrow> (nibble list \<times> nat) list \<Rightarrow> (nibble list \<times> nat) list" where
  "at_path ix l \<equiv> map (\<lambda>(p, c). (ix @ p, c)) l"

lemma visit_children_give:
  assumes "\<And>i m ix T. ch i = Some m \<Longrightarrow> build_queue m ix T = give T (at_path ix (entries_below m))"
  shows "visit_children (\<lambda>i. map_option (\<lambda>c. (c, build_queue c)) (ch i)) is ix T =
    give T (at_path ix (concat (map (branch_entries ch) is)))"
proof (induction "is" arbitrary: T)
  case (Cons i "is")
  show ?case
  proof (cases "ch i")
    case None
    then show ?thesis using Cons.IH by simp
  next
    case (Some m)
    have shift: "at_path ix (map (\<lambda>(p, c). (i # p, c)) l) = at_path (ix @ [i]) l" for l by (induction l) auto
    have cut: "at_path ix (concat (map (branch_entries ch) (i # is))) =
        at_path (ix @ [i]) (own_entry m) @ at_path (ix @ [i]) (entries_below m) @
        at_path ix (concat (map (branch_entries ch) is))"
      using shift by (simp only: Some list.map concat.simps option.case map_append append_assoc)
    have own: "(case node_data m of
              None \<Rightarrow> Some ([], T)
            | Some c \<Rightarrow> do {
                key \<leftarrow> from_indexes (ix @ [i]);
                (e, T) \<leftarrow> construct_state_entry_test T (ix @ [i]) c key;
                Some ([e], T)
              }) = give T (at_path (ix @ [i]) (own_entry m))"
      by (simp add: own_entry_def split: option.split)
    show ?thesis
      unfolding cut visit_children.simps
      by (simp only: Some option.map option.case prod.case Let_def own Cons.IH assms [OF Some] give_append
          bind_simps bind.bind_lunit append_assoc)
  qed
qed simp

lemma build_queue_give: "build_queue n ix T = give T (at_path ix (entries_below n))"
proof (induction n arbitrary: ix T)
  case (TNode d ch)
  have IH: "build_queue m ix T = give T (at_path ix (entries_below m))" if "ch i = Some m" for i m ix T
    using TNode.IH [of "Some m" m] that by (metis option.set_intros rangeI)
  show ?case unfolding entries_below_TNode build_queue.simps by (rule visit_children_give [OF IH])
qed

section \<open>The invariant and the view\<close>

definition trie_inv :: "trie \<Rightarrow> bool" where
  "trie_inv T \<longleftrightarrow>
     (\<forall>ix c. node_lookup (nodes T) ix = Some c \<longrightarrow>
        (\<exists>v. cells T c = Some (EntryExists v) \<and> length v < 2 ^ 32) \<and> (\<exists>k. ix = to_indexes k)) \<and>
     (\<forall>ix jx c. node_lookup (nodes T) ix = Some c \<and> node_lookup (nodes T) jx = Some c \<longrightarrow> ix = jx) \<and>
     (\<forall>c \<in> dom (cells T). c < next_cell T) \<and> (\<forall>i \<in> dom (entry_map T). i < next_entry_id T)"

definition cell_data :: "trie \<Rightarrow> nat \<Rightarrow> bytes option" where
  "cell_data T c = (case cells T c of Some (EntryExists v) \<Rightarrow> Some v | _ \<Rightarrow> None)"

lemma cell_data_update [simp]:
  "cell_data (T\<lparr>entry_map := m\<rparr>) = cell_data T" "cell_data (T\<lparr>next_entry_id := i\<rparr>) = cell_data T"
  "cell_data (T\<lparr>nodes := n\<rparr>) = cell_data T" "cell_data (T\<lparr>iterator_counts := l\<rparr>) = cell_data T"
  by (simp_all add: cell_data_def fun_eq_iff)

definition trie_view :: "trie \<Rightarrow> bytes \<rightharpoonup> bytes" where
  "trie_view T k = Option.bind (node_lookup (nodes T) (to_indexes k)) (cell_data T)"

definition trie_live :: "trie \<Rightarrow> test_entry \<Rightarrow> bool" where
  "trie_live T e \<longleftrightarrow> node_lookup (nodes T) (to_indexes (te_key e)) = Some (te_cell e) \<and>
     entry_map T (te_id e) = Some (to_indexes (te_key e))"

definition trie_room :: "trie \<Rightarrow> nat" where
  "trie_room T = 2 ^ 64 - 1 - unat (next_entry_id T)"

definition trie_locked :: "trie \<Rightarrow> bytes \<Rightarrow> bool" where
  "trie_locked T k = trie_is_locked T (to_indexes k)"

lemma trie_invD:
  assumes "trie_inv T" "node_lookup (nodes T) ix = Some c"
  obtains v k where "cells T c = Some (EntryExists v)" "length v < 2 ^ 32" "ix = to_indexes k"
  using assms unfolding trie_inv_def by metis

lemma trie_inv_inj: "trie_inv T \<Longrightarrow> node_lookup (nodes T) ix = Some c \<Longrightarrow> node_lookup (nodes T) jx = Some c \<Longrightarrow> ix = jx"
  unfolding trie_inv_def by metis

lemma trie_inv_below: "trie_inv T \<Longrightarrow> cells T c = Some x \<Longrightarrow> c < next_cell T"
  "trie_inv T \<Longrightarrow> entry_map T i = Some ix \<Longrightarrow> i < next_entry_id T"
  by (auto simp: trie_inv_def)

lemma trie_live_data:
  assumes "trie_inv T" "trie_live T e"
  obtains v where "cells T (te_cell e) = Some (EntryExists v)" "trie_view T (te_key e) = Some v" "length v < 2 ^ 32"
    "te_data T e = Inr v"
proof -
  obtain v where "cells T (te_cell e) = Some (EntryExists v)" "length v < 2 ^ 32"
    using assms by (auto simp: trie_live_def elim: trie_invD)
  then show thesis using that assms(2) by (auto simp: trie_view_def trie_live_def cell_data_def te_data_def)
qed

lemma trie_view_None: "trie_inv T \<Longrightarrow> trie_view T k = None \<longleftrightarrow> node_lookup (nodes T) (to_indexes k) = None"
  by (cases "node_lookup (nodes T) (to_indexes k)") (auto simp: trie_view_def cell_data_def elim: trie_invD)

definition with_handle :: "trie \<Rightarrow> nibble list \<Rightarrow> trie" where
  "with_handle T ix = T\<lparr>entry_map := (entry_map T)(next_entry_id T \<mapsto> ix), next_entry_id := next_entry_id T + 1\<rparr>"

lemma construct_ok:
  assumes "0 < trie_room T"
  shows "construct_state_entry_test T ix c k =
      Some (\<lparr>te_cell = c, te_offset = 0, te_key = k, te_id = next_entry_id T\<rparr>, with_handle T ix)"
    and "trie_room T = Suc (trie_room (with_handle T ix))" and "next_entry_id T < next_entry_id (with_handle T ix)"
proof -
  have "unat (next_entry_id T) + Suc 0 < 2 ^ 64" using assms(1) by (simp add: trie_room_def)
  note cap = unat_succ_cap [OF this]
  then show "next_entry_id T < next_entry_id (with_handle T ix)" by (simp add: with_handle_def)
  have ne: "next_entry_id T + 1 \<noteq> 0" using cap by auto
  then show "construct_state_entry_test T ix c k =
      Some (\<lparr>te_cell = c, te_offset = 0, te_key = k, te_id = next_entry_id T\<rparr>, with_handle T ix)"
    by (simp add: construct_state_entry_test_def with_handle_def Let_def)
  from cap(2) show "trie_room T = Suc (trie_room (with_handle T ix))" using assms(1) by (auto simp: trie_room_def with_handle_def)
qed

text \<open>A new handle changes nothing else.\<close>

lemma new_handle:
  assumes "trie_inv T" "0 < trie_room T"
  shows "trie_inv (with_handle T ix)" "trie_view (with_handle T ix) = trie_view T" "trie_locked (with_handle T ix) = trie_locked T"
    "trie_live T e \<Longrightarrow> trie_live (with_handle T ix) e"
proof -
  have lt: "next_entry_id T < next_entry_id T + 1" using construct_ok(3) [OF assms(2)] by (simp add: with_handle_def)
  show "trie_inv (with_handle T ix)" using assms(1) lt unfolding trie_inv_def with_handle_def by (auto dest: less_trans)
  show "trie_view (with_handle T ix) = trie_view T" by (simp add: trie_view_def with_handle_def fun_eq_iff)
  show "trie_locked (with_handle T ix) = trie_locked T" by (simp add: trie_locked_def trie_is_locked_def with_handle_def fun_eq_iff)
  assume l: "trie_live T e"
  then have "te_id e < next_entry_id T" using assms(1) by (auto simp: trie_inv_def trie_live_def)
  then show "trie_live (with_handle T ix) e" using l by (auto simp: trie_live_def with_handle_def)
qed

section \<open>Laws of the operations\<close>

lemma trie_lookup_law:
  assumes "trie_inv T" "0 < trie_room T"
  shows "\<exists>r T'. trie_lookup T k = Some (r, T') \<and> trie_inv T' \<and> trie_view T' = trie_view T \<and>
    trie_locked T' = trie_locked T \<and> trie_room T \<le> Suc (trie_room T') \<and> (\<forall>e. trie_live T e \<longrightarrow> trie_live T' e) \<and>
    (r = None \<longleftrightarrow> trie_view T k = None) \<and>
    (\<forall>e. r = Some e \<longrightarrow> trie_live T' e \<and> te_key e = k \<and> te_offset e = 0)"
proof (cases "node_lookup (nodes T) (to_indexes k)")
  case None
  then show ?thesis using assms by (simp add: trie_lookup_def trie_view_None)
next
  case (Some c)
  let ?T' = "with_handle T (to_indexes k)"
  let ?e = "\<lparr>te_cell = c, te_offset = 0, te_key = k, te_id = next_entry_id T\<rparr>"
  have "trie_lookup T k = Some (Some ?e, ?T')" using Some construct_ok(1) [OF assms(2)] by (simp add: trie_lookup_def)
  moreover have "trie_live ?T' ?e" using Some by (simp add: trie_live_def with_handle_def)
  ultimately show ?thesis
    using new_handle [OF assms, where ix = "to_indexes k"] construct_ok(2) [OF assms(2), of "to_indexes k"]
      trie_view_None [OF assms(1), of k] Some
    by (intro exI [of _ "Some ?e"] exI [of _ ?T']) simp
qed

lemma trie_create_law:
  assumes inv: "trie_inv T" and room: "0 < trie_room T" and unlocked: "\<not> trie_locked T k"
  shows "\<exists>e T'. trie_create_entry T k = Some (Inr e, T') \<and> trie_inv T' \<and> trie_view T' = (trie_view T)(k \<mapsto> []) \<and>
    trie_locked T' = trie_locked T \<and> trie_room T \<le> Suc (trie_room T') \<and> trie_live T' e \<and> te_key e = k \<and> te_offset e = 0 \<and>
    (\<forall>e'. trie_live T e' \<and> te_key e' \<noteq> k \<longrightarrow> trie_live T' e')"
proof -
  let ?c = "next_cell T" and ?ix = "to_indexes k"
  let ?T1 = "T\<lparr>nodes := node_create ?c (nodes T) ?ix, cells := (cells T)(?c \<mapsto> EntryExists []), next_cell := ?c + 1\<rparr>"
  let ?e = "\<lparr>te_cell = ?c, te_offset = 0, te_key = k, te_id = next_entry_id T\<rparr>"
  have new: "node_lookup (nodes T) ix \<noteq> Some ?c" for ix
    using trie_inv_below(1) [OF inv, of ?c] by (auto elim: trie_invD [OF inv])
  have inv1: "trie_inv ?T1"
    unfolding trie_inv_def
  proof (intro conjI allI impI ballI)
    fix ix c assume "node_lookup (nodes ?T1) ix = Some c"
    then consider "ix = ?ix" "c = ?c" | "ix \<noteq> ?ix" "node_lookup (nodes T) ix = Some c"
      by (auto simp: node_lookup_create split: if_splits)
    then show "\<exists>v. cells ?T1 c = Some (EntryExists v) \<and> length v < 2 ^ 32" and "\<exists>k. ix = to_indexes k"
      using new by (cases, auto elim: trie_invD [OF inv])+
  next
    fix ix jx c assume "node_lookup (nodes ?T1) ix = Some c \<and> node_lookup (nodes ?T1) jx = Some c"
    then show "ix = jx" using new trie_inv_inj [OF inv, of ix c jx] by (auto simp: node_lookup_create split: if_splits)
  qed (use trie_inv_below [OF inv] in \<open>auto split: if_splits dest: less_SucI\<close>)
  have room1: "0 < trie_room ?T1" using room by (simp add: trie_room_def)
  have view1: "trie_view ?T1 = (trie_view T)(k \<mapsto> [])"
  proof
    fix k' show "trie_view ?T1 k' = ((trie_view T)(k \<mapsto> [])) k'"
      using new [of "to_indexes k'"]
      by (cases "node_lookup (nodes T) (to_indexes k')") (auto simp: trie_view_def node_lookup_create cell_data_def)
  qed
  have lock1: "trie_locked ?T1 = trie_locked T" by (simp add: trie_locked_def trie_is_locked_def fun_eq_iff)
  have live1: "trie_live ?T1 e'" if "trie_live T e'" "te_key e' \<noteq> k" for e'
    using that by (simp add: trie_live_def node_lookup_create)
  have "trie_create_entry T k = Some (Inr ?e, with_handle ?T1 ?ix)"
    using unlocked construct_ok(1) [OF room1, of ?ix ?c k] by (simp add: trie_create_entry_def trie_locked_def Let_def)
  moreover have "trie_live (with_handle ?T1 ?ix) ?e" by (simp add: trie_live_def with_handle_def node_lookup_create)
  moreover have "trie_room T \<le> Suc (trie_room (with_handle ?T1 ?ix))"
    using construct_ok(2) [OF room1, of ?ix] by (simp add: trie_room_def)
  ultimately show ?thesis
    using new_handle [OF inv1 room1, where ix = ?ix] view1 lock1 live1
    by (intro exI [of _ ?e] exI [of _ "with_handle ?T1 ?ix"]) simp
qed

lemma trie_delete_law:
  assumes inv: "trie_inv T" and live: "trie_live T e" and unlocked: "\<not> trie_locked T (te_key e)"
  shows "\<exists>T'. trie_delete_entry T e = Some (Inr (), T') \<and> trie_inv T' \<and> trie_view T' = (trie_view T)(te_key e := None) \<and>
    trie_locked T' = trie_locked T \<and> trie_room T \<le> trie_room T' \<and>
    (\<forall>e'. trie_live T e' \<and> te_key e' \<noteq> te_key e \<longrightarrow> trie_live T' e')"
proof -
  let ?ix = "to_indexes (te_key e)"
  obtain r n where d: "node_delete_prefix (nodes T) ?ix True = (r, n)" by force
  have L: "node_lookup (nodes T) ?ix = Some (te_cell e)" "entry_map T (te_id e) = Some ?ix"
    using live by (auto simp: trie_live_def)
  have r: "r = Inr ()" using node_delete_exact_ok [of "nodes T" ?ix] L d by simp
  note n = node_lookup_delete [OF d]
  let ?T' = "T\<lparr>entry_map := (entry_map T)(te_id e := None), nodes := n\<rparr>"
  have "trie_delete_entry T e = Some (Inr (), ?T')"
    using unlocked L d r by (simp add: trie_delete_entry_def trie_locked_def node_delete_data_def)
  moreover have "trie_inv ?T'"
    using inv unfolding trie_inv_def by (auto simp: n split: if_splits)
  moreover have "trie_view ?T' = (trie_view T)(te_key e := None)"
    by (auto simp: trie_view_def n fun_eq_iff)
  moreover have "trie_live ?T' e'" if "trie_live T e'" "te_key e' \<noteq> te_key e" for e'
    using that L by (auto simp: trie_live_def n)
  moreover have "trie_locked ?T' = trie_locked T" by (simp add: trie_locked_def trie_is_locked_def fun_eq_iff)
  ultimately show ?thesis by (intro exI [of _ ?T']) (simp add: trie_room_def)
qed

text \<open>Writing the data of a live entry.\<close>

lemma cell_update:
  assumes inv: "trie_inv T" and live: "trie_live T e" and len: "length v < 2 ^ 32"
  defines "T' \<equiv> T\<lparr>cells := (cells T)(te_cell e \<mapsto> EntryExists v)\<rparr>"
  shows "trie_inv T'" "trie_view T' = (trie_view T)(te_key e \<mapsto> v)" "trie_locked T' = trie_locked T"
    "trie_room T' = trie_room T" "trie_live T' e' = trie_live T e'"
proof -
  have L: "node_lookup (nodes T) (to_indexes (te_key e)) = Some (te_cell e)" using live by (simp add: trie_live_def)
  obtain w where w: "cells T (te_cell e) = Some w" using trie_live_data [OF inv live] by metis
  show "trie_inv T'"
    unfolding trie_inv_def
  proof (intro conjI allI impI ballI)
    fix ix c assume "node_lookup (nodes T') ix = Some c"
    then have c: "node_lookup (nodes T) ix = Some c" by (simp add: T'_def)
    obtain u k where "cells T c = Some (EntryExists u)" "length u < 2 ^ 32" "ix = to_indexes k"
      by (rule trie_invD [OF inv c])
    then show "\<exists>v. cells T' c = Some (EntryExists v) \<and> length v < 2 ^ 32" "\<exists>k. ix = to_indexes k"
      using len by (auto simp: T'_def)
  qed (use inv trie_inv_below [OF inv] w in \<open>auto simp: T'_def trie_inv_inj split: if_splits\<close>)
  show "trie_view T' = (trie_view T)(te_key e \<mapsto> v)"
  proof
    fix k show "trie_view T' k = ((trie_view T)(te_key e \<mapsto> v)) k"
      using trie_inv_inj [OF inv, of "to_indexes k" "te_cell e" "to_indexes (te_key e)"] L
      by (cases "node_lookup (nodes T) (to_indexes k)") (auto simp: trie_view_def cell_data_def T'_def)
  qed
qed (simp_all add: T'_def trie_locked_def trie_is_locked_def fun_eq_iff trie_room_def trie_live_def)

lemma trie_write_law:
  assumes inv: "trie_inv T" and live: "trie_live T e" and v: "trie_view T (te_key e) = Some v"
    and off: "te_offset e \<le> length v" and fits: "te_offset e + length buf < 2 ^ 32"
  shows "\<exists>e' T'. te_write T e buf = Some (length buf, e', T') \<and> trie_inv T' \<and>
    trie_view T' = (trie_view T)(te_key e \<mapsto> take (te_offset e) v @ buf @ drop (te_offset e + length buf) v) \<and>
    trie_locked T' = trie_locked T \<and> trie_room T' = trie_room T \<and> te_key e' = te_key e \<and> trie_live T' e' \<and>
    te_offset e' = te_offset e + length buf \<and> (\<forall>e''. trie_live T e'' \<longrightarrow> trie_live T' e'')"
proof -
  let ?fin = "te_offset e + length buf"
  let ?v' = "take (te_offset e) v @ buf @ drop ?fin v"
  let ?e' = "e\<lparr>te_offset := ?fin\<rparr>" and ?T' = "T\<lparr>cells := (cells T)(te_cell e \<mapsto> EntryExists ?v')\<rparr>"
  have c: "cells T (te_cell e) = Some (EntryExists v)" "length v < 2 ^ 32" "te_data T e = Inr v"
    using trie_live_data [OF inv live] v by (metis option.inject)+
  have len: "length ?v' < 2 ^ 32" using fits c(2) off by simp
  have run: "te_write T e buf = Some (length buf, ?e', ?T')"
  proof (cases "length v < ?fin")
    case True
    have "unat (of_nat ?fin :: u32) = ?fin" using fits by (simp add: unat_of_nat_32 del: of_nat_add)
    then show ?thesis
      using True c off fits
      by (simp add: te_write_def te_resize_def te_data_def vec_resize_def Let_def del: of_nat_add)
  next
    case False
    then show ?thesis using c off by (simp add: te_write_def Let_def)
  qed
  note u = cell_update [OF inv live len]
  have "trie_live ?T' ?e'" using u(5) live by (simp add: trie_live_def)
  then show ?thesis using run u by (intro exI [of _ ?e'] exI [of _ ?T']) simp
qed

lemma trie_truncate_law:
  assumes inv: "trie_inv T" and live: "trie_live T e" and v: "trie_view T (te_key e) = Some v"
    and off: "te_offset e \<le> length v"
  shows "\<exists>e' T'. te_truncate T e n = Inr (e', T') \<and> trie_inv T' \<and>
    trie_view T' = (trie_view T)(te_key e \<mapsto> take (unat n) v) \<and> trie_locked T' = trie_locked T \<and>
    trie_room T' = trie_room T \<and> te_key e' = te_key e \<and> trie_live T' e' \<and>
    te_offset e' = min (te_offset e) (min (unat n) (length v)) \<and> (\<forall>e''. trie_live T e'' \<longrightarrow> trie_live T' e'')"
proof -
  have c: "cells T (te_cell e) = Some (EntryExists v)" "length v < 2 ^ 32" "te_data T e = Inr v"
    using trie_live_data [OF inv live] v by (metis option.inject)+
  have lt: "n < of_nat (length v) \<longleftrightarrow> unat n < length v" using c(2) by (simp add: word_less_nat_alt unat_of_nat_32)
  show ?thesis
  proof (cases "unat n < length v")
    case True
    let ?e' = "if unat n < te_offset e then e\<lparr>te_offset := unat n\<rparr> else e"
    let ?T' = "T\<lparr>cells := (cells T)(te_cell e \<mapsto> EntryExists (take (unat n) v))\<rparr>"
    have "te_truncate T e n = Inr (?e', ?T')"
      using True lt c by (simp add: te_truncate_def te_size_def te_resize_def vec_resize_def)
    moreover have "length (take (unat n) v) < 2 ^ 32" using c(2) by simp
    note u = cell_update [OF inv live this]
    moreover have "trie_live ?T' ?e'" using u(5) live by (simp add: trie_live_def)
    ultimately show ?thesis using True u by (intro exI [of _ ?e'] exI [of _ ?T']) auto
  next
    case False
    then have "te_truncate T e n = Inr (e, T)" using lt c by (simp add: te_truncate_def te_size_def)
    moreover have "trie_view T = (trie_view T)(te_key e \<mapsto> take (unat n) v)" using v False by auto
    ultimately show ?thesis using inv live off False by (intro exI [of _ e] exI [of _ T]) auto
  qed
qed

lemma trie_read_law:
  assumes inv: "trie_inv T" and live: "trie_live T e" and v: "trie_view T (te_key e) = Some v"
    and off: "te_offset e \<le> length v"
  shows "\<exists>e'. te_read T e n = Some (take n (drop (te_offset e) v), e') \<and> te_key e' = te_key e \<and> trie_live T e' \<and>
    te_offset e' = min (te_offset e + n) (length v)"
proof -
  have c: "te_data T e = Inr v" using trie_live_data [OF inv live] v by (metis option.inject)
  let ?n = "min (length v - te_offset e) n"
  have "take ?n (drop (te_offset e) v) = take n (drop (te_offset e) v)" by (cases "n \<le> length v - te_offset e") auto
  then show ?thesis using c off live by (auto simp: te_read_def trie_live_def Let_def)
qed

section \<open>Iterators and prefixes\<close>

lemma give_ok:
  assumes "trie_inv T" "length l \<le> trie_room T" "\<forall>(path, c) \<in> set l. node_lookup (nodes T) path = Some c"
  shows "\<exists>es T'. give T l = Some (es, T') \<and> map te_cell es = map snd l \<and>
    map (\<lambda>e. to_indexes (te_key e)) es = map fst l \<and> (\<forall>e \<in> set es. te_offset e = 0 \<and> trie_live T' e) \<and>
    nodes T' = nodes T \<and> cells T' = cells T \<and> next_cell T' = next_cell T \<and>
    iterator_counts T' = iterator_counts T \<and> trie_inv T' \<and> (\<forall>e. trie_live T e \<longrightarrow> trie_live T' e)"
  using assms
proof (induction l arbitrary: T)
  case (Cons x l)
  obtain path c where x: "x = (path, c)" by (cases x)
  have n: "node_lookup (nodes T) path = Some c" using Cons.prems(3) x by simp
  then obtain k where k: "path = to_indexes k" using trie_invD [OF Cons.prems(1)] by metis
  have room: "0 < trie_room T" using Cons.prems(2) by simp
  let ?T1 = "with_handle T path" and ?e = "\<lparr>te_cell = c, te_offset = 0, te_key = k, te_id = next_entry_id T\<rparr>"
  note h = new_handle [OF Cons.prems(1) room, where ix = path] construct_ok [OF room, where ix = path]
  have same: "nodes ?T1 = nodes T" "cells ?T1 = cells T" "next_cell ?T1 = next_cell T"
    "iterator_counts ?T1 = iterator_counts T" by (simp_all add: with_handle_def)
  have pre: "length l \<le> trie_room ?T1" "\<forall>(path, c) \<in> set l. node_lookup (nodes ?T1) path = Some c"
    using Cons.prems(2,3) h(6) same(1) by auto
  have live: "trie_live ?T1 ?e" using n k by (simp add: trie_live_def with_handle_def)
  obtain es T' where IH: "give ?T1 l = Some (es, T')" "map te_cell es = map snd l"
    "map (\<lambda>e. to_indexes (te_key e)) es = map fst l" "\<forall>e \<in> set es. te_offset e = 0 \<and> trie_live T' e"
    "nodes T' = nodes ?T1" "cells T' = cells ?T1" "next_cell T' = next_cell ?T1"
    "iterator_counts T' = iterator_counts ?T1" "trie_inv T'" "\<forall>e. trie_live ?T1 e \<longrightarrow> trie_live T' e"
    using Cons.IH [OF h(1) pre] by blast
  have "give T (x # l) = Some (?e # es, T')" using x k h(5) IH(1) by simp
  then show ?case using IH same live h(4) x k by (intro exI [of _ "?e # es"] exI [of _ T']) auto
qed simp

lemma AList_delete_update: "map_of l k = None \<Longrightarrow> AList.delete k (AList.update k v l) = l"
  by (induction l) (auto simp: AList.delete_eq split: if_splits)

lemma trie_locked_self: "\<not> trie_is_locked T ix \<Longrightarrow> map_of (iterator_counts T) ix = None"
  by (auto simp: trie_is_locked_def list_ex_iff map_of_eq_None_iff Let_def)

text \<open>The keys an iterator for a prefix yields: those that extend the prefix, in order.\<close>

lemma below_keys:
  assumes inv: "trie_inv T" and node: "lookup_node (nodes T) (to_indexes p) = Some n"
  shows "set (map fst (at_path (to_indexes p) (entries_below n))) =
    to_indexes ` {k. strict_prefix p k \<and> trie_view T k \<noteq> None}"
proof (intro set_eqI iffI)
  fix path assume "path \<in> set (map fst (at_path (to_indexes p) (entries_below n)))"
  then obtain q c where q: "path = to_indexes p @ q" "q \<noteq> []" "node_lookup n q = Some c"
    using entries_below_in by fastforce
  then have l: "node_lookup (nodes T) path = Some c" using node by (simp add: node_lookup_append)
  then obtain k where k: "path = to_indexes k" using trie_invD [OF inv] by metis
  then have "prefix p k" using q(1) by (metis prefix_def prefix_to_indexes)
  moreover have "p \<noteq> k" using q k by auto
  ultimately show "path \<in> to_indexes ` {k. strict_prefix p k \<and> trie_view T k \<noteq> None}"
    using l k trie_view_None [OF inv, of k] by (auto simp: strict_prefix_def)
next
  fix path assume "path \<in> to_indexes ` {k. strict_prefix p k \<and> trie_view T k \<noteq> None}"
  then obtain k q where k: "path = to_indexes k" "k = p @ q" "q \<noteq> []" "trie_view T k \<noteq> None"
    by (auto simp: strict_prefix_def prefix_def)
  then obtain c where "node_lookup (nodes T) path = Some c" using trie_view_None [OF inv, of k] by auto
  then have "node_lookup n (to_indexes q) = Some c" using node k by (simp add: to_indexes_append node_lookup_append)
  moreover have "to_indexes q \<noteq> []" using k(3) by (cases q) (auto simp: to_indexes_def byte_indexes_def)
  ultimately have "(to_indexes q, c) \<in> set (entries_below n)" by (simp add: entries_below_in)
  then show "path \<in> set (map fst (at_path (to_indexes p) (entries_below n)))"
    using k(1,2) by (force simp: to_indexes_append)
qed

lemma finite_trie_view: "trie_inv T \<Longrightarrow> finite (dom (trie_view T))"
proof -
  assume inv: "trie_inv T"
  have "lookup_node (nodes T) (to_indexes []) = Some (nodes T)" by (simp add: to_indexes_def)
  note b = below_keys [OF inv this]
  have "finite (to_indexes ` {k. strict_prefix [] k \<and> trie_view T k \<noteq> None})" unfolding b [symmetric] by simp
  then have "finite {k. strict_prefix [] k \<and> trie_view T k \<noteq> None}" by (rule finite_imageD) (simp add: inj_on_def)
  moreover have "dom (trie_view T) \<subseteq> insert [] {k. strict_prefix [] k \<and> trie_view T k \<noteq> None}" by (auto simp: neq_Nil_conv)
  ultimately show ?thesis by (meson finite_insert finite_subset)
qed

lemma below_length:
  assumes inv: "trie_inv T" and node: "lookup_node (nodes T) (to_indexes p) = Some n"
  shows "length (entries_below n) \<le> card {k \<in> dom (trie_view T). prefix p k}"
proof -
  let ?l = "at_path (to_indexes p) (entries_below n)" and ?K = "{k. strict_prefix p k \<and> trie_view T k \<noteq> None}"
  have "map fst ?l = map (\<lambda>q. to_indexes p @ q) (map fst (entries_below n))" by auto
  then have "distinct (map fst ?l)" using entries_below_distinct [of n] by (simp add: distinct_map inj_on_def)
  then have "length ?l = card (set (map fst ?l))" by (metis distinct_card length_map)
  also have "\<dots> = card ?K" unfolding below_keys [OF assms] by (rule card_image) (simp add: inj_on_def)
  also have "\<dots> \<le> card {k \<in> dom (trie_view T). prefix p k}"
    by (rule card_mono) (use finite_trie_view [OF inv] in \<open>auto simp: strict_prefix_def\<close>)
  finally show ?thesis by simp
qed

lemma counts_irrelevant:
  "trie_inv (T\<lparr>iterator_counts := l\<rparr>) = trie_inv T" "trie_view (T\<lparr>iterator_counts := l\<rparr>) = trie_view T"
  "trie_live (T\<lparr>iterator_counts := l\<rparr>) = trie_live T" "trie_room (T\<lparr>iterator_counts := l\<rparr>) = trie_room T"
  by (simp_all add: trie_inv_def trie_view_def trie_live_def trie_room_def fun_eq_iff)

text \<open>The handles an iterator collects.\<close>

lemma build_queue_ok:
  assumes inv: "trie_inv T" and node: "lookup_node (nodes T) (to_indexes p) = Some n"
    and room: "card {k \<in> dom (trie_view T). prefix p k} \<le> trie_room T"
  shows "\<exists>es T'. build_queue n (to_indexes p) T = Some (es, T') \<and>
    map te_cell es = map snd (entries_below n) \<and>
    map (\<lambda>e. to_indexes (te_key e)) es = map fst (at_path (to_indexes p) (entries_below n)) \<and>
    (\<forall>e \<in> set es. te_offset e = 0 \<and> trie_live T' e) \<and>
    nodes T' = nodes T \<and> cells T' = cells T \<and> next_cell T' = next_cell T \<and>
    iterator_counts T' = iterator_counts T \<and> trie_inv T' \<and> (\<forall>e. trie_live T e \<longrightarrow> trie_live T' e)"
proof -
  let ?l = "at_path (to_indexes p) (entries_below n)"
  have len: "length ?l \<le> trie_room T" using below_length [OF inv node] room by simp
  have all: "\<forall>(path, c) \<in> set ?l. node_lookup (nodes T) path = Some c"
    using node by (auto simp: node_lookup_append entries_below_in)
  have snds: "map snd ?l = map snd (entries_below n)" by (auto simp: case_prod_unfold)
  from give_ok [OF inv len all] show ?thesis unfolding build_queue_give snds .
qed

lemma fold_invalidate:
  "fold (\<lambda>e m. m(te_cell e \<mapsto> EntryDeleted)) q m c = (if c \<in> te_cell ` set q then Some EntryDeleted else m c)"
  by (induction q arbitrary: m) auto

lemma trie_delete_prefix_law:
  assumes inv: "trie_inv T" and unlocked: "\<not> trie_locked T p"
    and room: "card {k \<in> dom (trie_view T). prefix p k} \<le> trie_room T"
  shows "\<exists>b T'. trie_delete_prefix T p = Some (Inr b, T') \<and> trie_inv T' \<and>
    trie_view T' = (\<lambda>k. if prefix p k then None else trie_view T k) \<and> trie_locked T' = trie_locked T \<and>
    (\<forall>e'. trie_live T e' \<and> \<not> prefix p (te_key e') \<longrightarrow> trie_live T' e')"
proof -
  let ?ix = "to_indexes p"
  have ul: "\<not> trie_is_locked T ?ix" using unlocked by (simp add: trie_locked_def)
  note cnt = trie_locked_self [OF ul]
  show ?thesis
  proof (cases "lookup_node (nodes T) ?ix")
    case None
    have "trie_view T k = None" if "prefix p k" for k
      using that None trie_view_None [OF inv, of k] by (auto simp: prefix_def to_indexes_append node_lookup_append)
    then have "trie_view T = (\<lambda>k. if prefix p k then None else trie_view T k)" by auto
    moreover have "trie_delete_prefix T p = Some (Inr False, T)"
      using ul None by (simp add: trie_delete_prefix_def trie_iterator_def Let_def)
    ultimately show ?thesis using inv by (intro exI [of _ False] exI [of _ T]) auto
  next
    case (Some n)
    let ?T1 = "T\<lparr>iterator_counts := AList.update ?ix 1 (iterator_counts T)\<rparr>"
    obtain q T2 where q: "build_queue n ?ix ?T1 = Some (q, T2)" "map te_cell q = map snd (entries_below n)"
      "nodes T2 = nodes T" "cells T2 = cells T" "next_cell T2 = next_cell T"
      "iterator_counts T2 = AList.update ?ix 1 (iterator_counts T)" "trie_inv T2"
      "\<forall>e. trie_live T e \<longrightarrow> trie_live T2 e"
      using build_queue_ok [of ?T1 p n] inv Some room by (auto simp: counts_irrelevant)
    obtain r n' where d: "node_delete_prefix (nodes T) ?ix False = (r, n')" by force
    have r: "r = Inr ()" using node_delete_prefix_ok [of "nodes T" ?ix] Some d by simp
    note n' = node_lookup_delete [OF d]
    let ?T3 = "invalidate T2 q"
    let ?T' = "?T3\<lparr>iterator_counts := iterator_counts T, nodes := n'\<rparr>"
    have run: "trie_delete_prefix T p = Some (Inr True, ?T')"
      using ul Some cnt q(1,3,6) d r
      by (simp add: trie_delete_prefix_def trie_iterator_def trie_delete_iterator_def invalidate_def Let_def
          AList_delete_update update_conv')
    have qc: "te_cell ` set q = set (map snd (entries_below n))" using q(2) by (metis set_map)
    have cells': "cells ?T' c = cells T c" if "node_lookup n' jx = Some c" for c jx
    proof -
      have jx: "node_lookup (nodes T) jx = Some c" "\<not> prefix ?ix jx" using that n' by (auto split: if_splits)
      have "c \<notin> set (map snd (entries_below n))"
      proof
        assume "c \<in> set (map snd (entries_below n))"
        then obtain path where "node_lookup n path = Some c" by (auto simp: entries_below_in)
        then have "node_lookup (nodes T) (?ix @ path) = Some c" using Some by (simp add: node_lookup_append)
        then show False using trie_inv_inj [OF inv jx(1)] jx(2) by auto
      qed
      then show ?thesis using q(4) by (simp only: qc [symmetric]) (simp add: invalidate_def fold_invalidate)
    qed
    have "trie_inv ?T'"
      unfolding trie_inv_def
    proof (intro conjI allI impI ballI)
      fix jx c assume "node_lookup (nodes ?T') jx = Some c"
      then have c: "node_lookup n' jx = Some c" "node_lookup (nodes T) jx = Some c"
        using n' by (auto split: if_splits)
      obtain u k where "cells T c = Some (EntryExists u)" "length u < 2 ^ 32" "jx = to_indexes k"
        by (rule trie_invD [OF inv c(2)])
      then show "\<exists>v. cells ?T' c = Some (EntryExists v) \<and> length v < 2 ^ 32" "\<exists>k. jx = to_indexes k"
        using cells' [OF c(1)] by auto
    next
      fix jx kx c assume "node_lookup (nodes ?T') jx = Some c \<and> node_lookup (nodes ?T') kx = Some c"
      then show "jx = kx" using trie_inv_inj [OF inv] n' by (auto split: if_splits)
    next
      fix c assume "c \<in> dom (cells ?T')"
      then have "c \<in> dom (cells T2) \<or> c \<in> set (map snd (entries_below n))"
        by (simp only: qc [symmetric]) (auto simp: invalidate_def fold_invalidate split: if_splits)
      moreover have "c \<in> dom (cells T2)" if mem: "c \<in> set (map snd (entries_below n))"
      proof -
        obtain path where "node_lookup n path = Some c" using mem by (auto simp: entries_below_in)
        then have "node_lookup (nodes T) (?ix @ path) = Some c" using Some by (simp add: node_lookup_append)
        then obtain u where "cells T c = Some u" by (rule trie_invD [OF inv])
        then show ?thesis using q(4) by (simp add: domIff)
      qed
      ultimately have "c \<in> dom (cells T2)" by blast
      then show "c < next_cell ?T'" using trie_inv_below(1) [OF q(7)] by (auto simp: invalidate_def)
    next
      fix i assume "i \<in> dom (entry_map ?T')"
      then show "i < next_entry_id ?T'" using q(7) by (auto simp: trie_inv_def invalidate_def)
    qed
    moreover have "trie_view ?T' = (\<lambda>k. if prefix p k then None else trie_view T k)"
    proof
      fix k show "trie_view ?T' k = (if prefix p k then None else trie_view T k)"
        using n' [of "to_indexes k"] cells' [of "to_indexes k"]
        by (cases "node_lookup (nodes T) (to_indexes k)") (auto simp: trie_view_def cell_data_def)
    qed
    moreover have "trie_live ?T' e'" if "trie_live T e'" "\<not> prefix p (te_key e')" for e'
    proof -
      have "trie_live T2 e'" using q(8) that(1) by blast
      then show ?thesis using that(2) n' q(3) by (simp add: trie_live_def invalidate_def)
    qed
    moreover have "trie_locked ?T' = trie_locked T" by (simp add: trie_locked_def trie_is_locked_def fun_eq_iff)
    ultimately show ?thesis using run by (intro exI [of _ True] exI [of _ ?T']) simp
  qed
qed

section \<open>The trie is an implementation of the state interface\<close>

lemma test_state_api_simps [simp]:
  "create_entry test_state_api = trie_create_entry" "lookup_entry test_state_api = trie_lookup"
  "delete_entry test_state_api = trie_delete_entry" "delete_prefix test_state_api = trie_delete_prefix"
  "iterator test_state_api = trie_iterator" "iter_next test_state_api = trie_iter_next"
  "delete_iterator test_state_api = trie_delete_iterator" "move_to_start test_state_api = te_move_to_start"
  "get_key test_state_api = te_key" "entry_read test_state_api = te_read" "entry_write test_state_api = te_write"
  "entry_size test_state_api T e = drop_error (te_size T e)"
  "entry_truncate test_state_api T e n = drop_error (te_truncate T e n)"
  by (simp_all add: test_state_api_def)

interpretation trie: state_api_laws test_state_api trie_inv trie_view trie_locked trie_live te_offset trie_room "2 ^ 32"
proof (unfold_locales, goal_cases)
  case 1
  show ?case by simp
next
  case (2 s e)
  then show ?case by (auto elim: trie_live_data)
next
  case (3 s k d)
  then show ?case
    by (cases "node_lookup (nodes s) (to_indexes k)") (auto simp: trie_view_def cell_data_def elim: trie_invD)
next
  case (4 s)
  then show ?case by (rule finite_trie_view)
next
  case (5 s k)
  then show ?case using trie_lookup_law [of s k] by simp
next
  case (6 s k)
  then show ?case using trie_create_law [of s k] by simp
next
  case (7 s k)
  then show ?case by (simp add: trie_create_entry_def trie_locked_def Let_def)
next
  case (8 s e)
  then show ?case using trie_delete_law [of s e] by simp
next
  case (9 s p)
  then show ?case using trie_delete_prefix_law [of s p] by simp
next
  case (10 e s)
  then show ?case by (simp add: te_move_to_start_def trie_live_def)
next
  case (11 s e d)
  then show ?case by (auto simp: te_size_def drop_error_def elim!: trie_live_data)
next
  case (12 s e d n)
  then show ?case using trie_read_law [of s e d n] by simp
next
  case (13 s e d buf)
  then show ?case using trie_write_law [of s e d buf] by simp
next
  case (14 s e d m)
  then show ?case using trie_truncate_law [of s e d m] by (auto simp: drop_error_def)
qed

section \<open>What an iterator yields and locks\<close>

lemma unat_nibbles:
  "unat (ucast (drop_bit 4 (b AND 0xF0)) :: nibble) = unat (b :: u8) div 16"
  "unat (ucast (b AND 0x0F) :: nibble) = unat (b :: u8) mod 16"
proof -
  have "unat (ucast (drop_bit 4 (b AND 0xF0)) :: nibble) = drop_bit 4 (unat b)"
    unfolding nibble_masks by (rule bit_eqI) (auto simp: bit_simps dest: bit_imp_le_length)
  then show "unat (ucast (drop_bit 4 (b AND 0xF0)) :: nibble) = unat b div 16" by (simp add: drop_bit_eq_div)
  have "unat (ucast (b AND 0x0F) :: nibble) = take_bit 4 (unat b)"
    unfolding nibble_masks by (rule bit_eqI) (auto simp: bit_simps)
  then show "unat (ucast (b AND 0x0F) :: nibble) = unat b mod 16" by (simp add: take_bit_eq_mod)
qed

lemma less_div_mod_16:
  fixes m n :: nat
  shows "m < n \<longleftrightarrow> m div 16 < n div 16 \<or> m div 16 = n div 16 \<and> m mod 16 < n mod 16"
    and "m = n \<longleftrightarrow> m div 16 = n div 16 \<and> m mod 16 = n mod 16"
proof -
  have m: "m = 16 * (m div 16) + m mod 16" "m mod 16 < 16" and n: "n = 16 * (n div 16) + n mod 16" "n mod 16 < 16" by auto
  show "m < n \<longleftrightarrow> m div 16 < n div 16 \<or> m div 16 = n div 16 \<and> m mod 16 < n mod 16"
    using m n by (cases "m div 16" "n div 16" rule: linorder_cases) linarith+
  show "m = n \<longleftrightarrow> m div 16 = n div 16 \<and> m mod 16 = n mod 16" using m n by metis
qed

lemma lex_less_indexes: "lex_less (to_indexes a) (to_indexes b) \<longleftrightarrow> lex_less a b"
proof (induction a arbitrary: b)
  case Nil
  then show ?case by (cases b) (auto simp: to_indexes_def byte_indexes_def)
next
  case (Cons x a)
  show ?case
  proof (cases b)
    case (Cons y b')
    have "lex_less (byte_indexes x @ to_indexes a) (byte_indexes y @ to_indexes b') \<longleftrightarrow>
        x < y \<or> x = y \<and> lex_less (to_indexes a) (to_indexes b')"
      unfolding byte_indexes_def word_less_nat_alt
      using less_div_mod_16 [of "unat x" "unat y"]
      by (simp only: append.simps lexord_cons_cons mem_Collect_eq case_prod_conv word_less_nat_alt
          word_unat_eq_iff unat_nibbles) blast
    then show ?thesis using Cons.IH [of b'] Cons by (simp add: to_indexes_def)
  qed (simp add: to_indexes_def byte_indexes_def)
qed

lemma prefix_take: "prefix xs ys \<longleftrightarrow> length xs \<le> length ys \<and> take (length xs) ys = xs"
  by (auto simp: prefix_def) (metis append_take_drop_id)

lemma trie_is_locked_update:
  "trie_is_locked (T\<lparr>iterator_counts := AList.update ix n l\<rparr>) jx \<longleftrightarrow>
   prefix ix jx \<or> prefix jx ix \<or> trie_is_locked (T\<lparr>iterator_counts := l\<rparr>) jx"
proof -
  have comparable: "take (min (length ix) (length jx)) ix = take (min (length ix) (length jx)) jx \<longleftrightarrow>
      prefix ix jx \<or> prefix jx ix"
    by (cases "length ix \<le> length jx") (auto simp: min_def prefix_take)
  have "list_ex (\<lambda>(p, _). P p) (AList.update ix n l) \<longleftrightarrow> P ix \<or> list_ex (\<lambda>(p, _). P p) l" for P
    by (induction l) auto
  then show ?thesis unfolding trie_is_locked_def by (simp add: Let_def comparable)
qed

lemma trie_iterator_law:
  assumes inv: "trie_inv T" and room: "card {k \<in> dom (trie_view T). prefix p k} \<le> trie_room T"
    and few: "map_of (iterator_counts T) (to_indexes p) \<noteq> Some (- 1)"
    and some: "\<exists>k. prefix p k \<and> trie_view T k \<noteq> None"
  shows "\<exists>it T'. trie_iterator T p = Some (Inr it, T') \<and> trie_inv T' \<and> trie_view T' = trie_view T \<and>
    sorted_wrt lex_less (map te_key (ti_queue it)) \<and>
    set (map te_key (ti_queue it)) = {k. strict_prefix p k \<and> trie_view T k \<noteq> None} \<and>
    (\<forall>e \<in> set (ti_queue it). trie_live T' e \<and> te_offset e = 0) \<and>
    (\<forall>k. trie_locked T' k \<longleftrightarrow> trie_locked T k \<or> prefix p k \<or> prefix k p) \<and>
    ti_prefix it = to_indexes p \<and> iterator_counts T' =
      AList.update (to_indexes p)
        (case map_of (iterator_counts T) (to_indexes p) of None \<Rightarrow> 1 | Some j \<Rightarrow> j + 1) (iterator_counts T)"
proof -
  let ?ix = "to_indexes p"
  obtain k c where k: "prefix p k" "node_lookup (nodes T) (to_indexes k) = Some c"
  proof -
    obtain k where "prefix p k" "trie_view T k \<noteq> None" using some by blast
    then show thesis using that trie_view_None [OF inv, of k] by (metis not_Some_eq)
  qed
  then obtain n where n: "lookup_node (nodes T) ?ix = Some n"
    by (auto simp: prefix_def to_indexes_append node_lookup_append split: option.splits)
  define m where "m = (case map_of (iterator_counts T) ?ix of None \<Rightarrow> 1 | Some j \<Rightarrow> j + 1)"
  have m: "trie_iterator T p = do {
      (q, T) \<leftarrow> build_queue n ?ix (T\<lparr>iterator_counts := AList.update ?ix m (iterator_counts T)\<rparr>);
      Some (Inr \<lparr>ti_prefix = ?ix, ti_queue = q\<rparr>, T) }"
    using n few by (cases "map_of (iterator_counts T) ?ix") (auto simp: trie_iterator_def Let_def m_def)
  let ?T1 = "T\<lparr>iterator_counts := AList.update ?ix m (iterator_counts T)\<rparr>"
  obtain q T2 where q: "build_queue n ?ix ?T1 = Some (q, T2)"
    "map (\<lambda>e. to_indexes (te_key e)) q = map fst (at_path ?ix (entries_below n))"
    "\<forall>e \<in> set q. te_offset e = 0 \<and> trie_live T2 e" "nodes T2 = nodes T" "cells T2 = cells T"
    "iterator_counts T2 = AList.update ?ix m (iterator_counts T)" "trie_inv T2"
    using build_queue_ok [of ?T1 p n] inv n room by (auto simp: counts_irrelevant)
  have "sorted_wrt lex_less (map fst (at_path ?ix (entries_below n)))"
    using entries_below_sorted [of n]
    by (auto simp: sorted_wrt_map case_prod_unfold lexord_append_leftI elim!: sorted_wrt_mono_rel [rotated])
  then have sorted: "sorted_wrt lex_less (map te_key q)"
    unfolding q(2) [symmetric] by (simp add: sorted_wrt_map lex_less_indexes)
  have "to_indexes ` set (map te_key q) = set (map fst (at_path ?ix (entries_below n)))"
    unfolding q(2) [symmetric] by auto
  also have "\<dots> = to_indexes ` {k. strict_prefix p k \<and> trie_view T k \<noteq> None}" by (rule below_keys [OF inv n])
  finally have keys: "set (map te_key q) = {k. strict_prefix p k \<and> trie_view T k \<noteq> None}"
    by (simp add: inj_image_eq_iff inj_def)
  have "cell_data T2 = cell_data T" using q(5) by (simp add: cell_data_def fun_eq_iff)
  then have view: "trie_view T2 = trie_view T" using q(4) by (intro ext) (simp add: trie_view_def)
  have lock: "trie_locked T2 k \<longleftrightarrow> trie_locked T k \<or> prefix p k \<or> prefix k p" for k
    using q(6) trie_is_locked_update [where T = T and ix = ?ix and n = m and l = "iterator_counts T" and jx = "to_indexes k"]
    by (auto simp: trie_locked_def trie_is_locked_def)
  show ?thesis
    using m q(1,3,6,7) sorted keys view lock m_def
    by (intro exI [of _ "\<lparr>ti_prefix = ?ix, ti_queue = q\<rparr>"] exI [of _ T2]) simp
qed

text \<open>Deleting the iterator gives back exactly the locks it took.\<close>

lemma list_ex_keys: "list_ex (\<lambda>(p, _). P p) l \<longleftrightarrow> (\<exists>p \<in> fst ` set l. P p)"
  by (force simp: list_ex_iff)

lemma trie_delete_iterator_law:
  assumes "iterator_counts T' =
      AList.update ix (case map_of l ix of None \<Rightarrow> 1 | Some j \<Rightarrow> j + 1) l" "ti_prefix it = ix"
    and "map_of l ix \<noteq> Some 0" "map_of l ix \<noteq> Some (- 1)"
  shows "\<exists>l'. trie_delete_iterator T' it = Some (T'\<lparr>iterator_counts := l'\<rparr>) \<and> fst ` set l' = fst ` set l"
proof (cases "map_of l ix")
  case None
  then show ?thesis using assms
    by (auto simp: trie_delete_iterator_def AList_delete_update update_conv)
next
  case (Some j)
  then have "ix \<in> fst ` set l" by (metis domI dom_map_of_conv_image_fst)
  moreover have "j + 1 \<noteq> 1" using Some assms(3) by auto
  moreover have "fst ` set (AList.update ix j l) = {ix} \<union> fst ` set l" by (rule dom_update)
  ultimately show ?thesis using assms(1,2) Some
    by (intro exI [of _ "AList.update ix j l"]) (auto simp: trie_delete_iterator_def update_conv insert_absorb)
qed

lemma trie_inv_new: "trie_inv trie_new" "trie_view trie_new = Map.empty" "trie_locked trie_new k \<longleftrightarrow> False"
  "trie_room trie_new = 2 ^ 64 - 1"
  by (simp_all add: trie_inv_def trie_new_def trie_view_def trie_locked_def trie_is_locked_def trie_room_def fun_eq_iff)

end
