(* ===== verification/State_Containers_Laws.thy ===== *)
theory State_Containers_Laws
  imports State_Containers State_Trie_Laws
begin

text \<open>
  The containers implement finite maps, sets and boxes over any state that meets the interface:
  what each operation returns, what the container holds afterwards, and that every key outside
  the container's prefix is left alone.
\<close>

section \<open>Abstract values of containers\<close>

text \<open>
  The map a state holds under a prefix. An entry may have unread bytes after its value:
  \<^verbatim>\<open>StateRefMut\<close> writes without truncating.
\<close>

definition map_of_view :: "'k codec \<Rightarrow> 'v codec \<Rightarrow> bytes \<Rightarrow> (bytes \<rightharpoonup> bytes) \<Rightarrow> 'k \<rightharpoonup> 'v" where
  "map_of_view KC VC p V k = Option.bind (V (p @ ser KC k)) (\<lambda>d. map_option fst (des VC d))"

definition map_wf :: "'k codec \<Rightarrow> 'v codec \<Rightarrow> bytes \<Rightarrow> (bytes \<rightharpoonup> bytes) \<Rightarrow> bool" where
  "map_wf KC VC p V \<longleftrightarrow> (\<forall>key d. V key = Some d \<and> prefix p key \<longrightarrow>
     (\<exists>k v rest. key = p @ ser KC k \<and> d = ser VC v @ rest))"

definition set_of_view :: "'t codec \<Rightarrow> bytes \<Rightarrow> (bytes \<rightharpoonup> bytes) \<Rightarrow> 't set" where
  "set_of_view C p V = {t. V (p @ ser C t) \<noteq> None}"

lemma codec_inj: "codec_ok C \<Longrightarrow> ser C x = ser C y \<longleftrightarrow> x = y"
  unfolding codec_ok_def by (metis append_Nil2 option.inject prod.inject)

lemma map_of_view_ser: "codec_ok VC \<Longrightarrow> V (p @ ser KC k) = Some (ser VC v @ rest) \<Longrightarrow> map_of_view KC VC p V k = Some v"
  by (simp add: map_of_view_def codec_ok_def)

lemma map_of_view_None: "V (p @ ser KC k) = None \<Longrightarrow> map_of_view KC VC p V k = None"
  by (simp add: map_of_view_def)

lemma map_of_view_upd:
  assumes "codec_ok KC" "codec_ok VC"
  shows "map_of_view KC VC p (V(p @ ser KC k \<mapsto> ser VC v)) = (map_of_view KC VC p V)(k \<mapsto> v)"
proof
  fix k'
  show "map_of_view KC VC p (V(p @ ser KC k \<mapsto> ser VC v)) k' = ((map_of_view KC VC p V)(k \<mapsto> v)) k'"
    using codec_inj [OF assms(1), of k' k] assms(2) unfolding codec_ok_def
    by (cases "k' = k") (auto simp: map_of_view_def, metis append_Nil2 fst_conv option.map(2))
qed

lemma map_of_view_del:
  assumes "codec_ok KC"
  shows "map_of_view KC VC p (V(p @ ser KC k := None)) = (map_of_view KC VC p V)(k := None)"
  using codec_inj [OF assms, of _ k] by (auto simp: map_of_view_def fun_eq_iff)

lemma map_wf_upd: "map_wf KC VC p V \<Longrightarrow> map_wf KC VC p (V(p @ ser KC k \<mapsto> ser VC v @ rest))"
  unfolding map_wf_def by auto

lemma map_wf_del: "map_wf KC VC p V \<Longrightarrow> map_wf KC VC p (V(key := None))"
  unfolding map_wf_def by auto

lemma map_wfE:
  assumes "map_wf KC VC p V" "V (p @ ser KC k) = Some d"
  obtains v rest where "d = ser VC v @ rest"
  using assms unfolding map_wf_def by (metis prefixI)

text \<open>Two containers with different prefixes of the same length do not see each other.\<close>

lemma other_prefix: "length p = length q \<Longrightarrow> p \<noteq> q \<Longrightarrow> p @ xs \<noteq> q @ ys"
  by auto

lemma map_of_view_other:
  assumes "length q = length p" "q \<noteq> p"
  shows "map_of_view KC VC q (V(p @ key := d)) = map_of_view KC VC q V"
  using other_prefix [OF assms] by (auto simp: map_of_view_def fun_eq_iff)

text \<open>The eight bytes of a prefix.\<close>

lemma length_u64_to_le_bytes [simp]: "length (u64_to_le_bytes n) = 8"
  by (simp add: u64_to_le_bytes_def)

lemma le_bytes_from:
  assumes "k \<le> 8"
  shows "u64_from_le_bytes (map (\<lambda>i. ucast (drop_bit (8 * i) n)) [k..<8]) = drop_bit (8 * k) n"
  using assms
proof (induction rule: inc_induct)
  case base
  then show ?case by (simp add: u64_from_le_bytes_def)
next
  case (step k)
  have low: "ucast (ucast x :: u8) = take_bit 8 (x :: u64)" for x
    by (rule bit_word_eqI) (auto simp: bit_simps)
  have "push_bit 8 (drop_bit (8 * Suc k) n) + take_bit 8 (drop_bit (8 * k) n) = drop_bit (8 * k) n"
    using bits_ident [of 8 "drop_bit (8 * k) n"] by (simp add: add.commute)
  then show ?case using step by (simp add: upt_conv_Cons u64_from_le_bytes_def low)
qed

lemma u64_le_bytes_roundtrip: "u64_from_le_bytes (u64_to_le_bytes n) = n"
  using le_bytes_from [of 0 n] by (simp add: u64_to_le_bytes_def)

lemma u64_to_le_bytes_inj: "u64_to_le_bytes m = u64_to_le_bytes n \<longleftrightarrow> m = n"
  by (metis u64_le_bytes_roundtrip)

text \<open>The item prefix the state builder hands out next, as the view stores it.\<close>

definition next_item :: "(bytes \<rightharpoonup> bytes) \<Rightarrow> u64 option" where
  "next_item V = (case V NEXT_ITEM_PREFIX_KEY of
     None \<Rightarrow> Some 2
   | Some d \<Rightarrow> if length d = 8 then Some (u64_from_le_bytes d) else None)"

context state_api_laws
begin

section \<open>StateMap\<close>

lemma state_map_get_law:
  assumes "inv s" "0 < room s" "codec_ok VC" "map_wf KC VC p (view s)"
  shows "\<exists>s'. state_map_get A KC VC p s k = Some (map_of_view KC VC p (view s) k, s') \<and> inv s' \<and>
    view s' = view s \<and> locked s' = locked s \<and> room s \<le> Suc (room s')"
  using assms(1,2)
proof (cases rule: lookupE [where k = "p @ ser KC k"])
  case (absent s')
  then show ?thesis by (auto simp: state_map_get_def key_with_map_prefix_def map_of_view_None)
next
  case (present e s' d)
  obtain v rest where d: "d = ser VC v @ rest" using map_wfE [OF assms(4) present(2)] .
  then obtain e' where "deserial A VC s' e = Some (v, e')"
    using deserial_law [OF present(3,7,10), of VC v rest] assms(3) present(9) by auto
  then show ?thesis using present d map_of_view_ser [OF assms(3), of "view s" p KC k v rest]
    by (auto simp: state_map_get_def key_with_map_prefix_def)
qed

lemma state_map_insert_law:
  assumes "inv s" "2 \<le> room s" "codec_ok KC" "codec_ok VC" "map_wf KC VC p (view s)"
    and "\<not> locked s (p @ ser KC k)" "length (ser VC v) < cap"
  shows "\<exists>s'. state_map_insert A KC VC p s k v = Some (map_of_view KC VC p (view s) k, s') \<and> inv s' \<and>
    view s' = (view s)(p @ ser KC k \<mapsto> ser VC v) \<and> locked s' = locked s \<and> room s \<le> room s' + 2"
proof -
  have "0 < room s" using assms(2) by simp
  with assms(1) show ?thesis
  proof (cases rule: lookupE [where k = "p @ ser KC k"])
    case (absent s1)
    obtain e s' where "vacant_insert A VC s1 (p @ ser KC k) v = Some (Inr e, s')" "inv s'"
      "view s' = (view s)(p @ ser KC k \<mapsto> ser VC v)" "locked s' = locked s" "room s1 \<le> Suc (room s')"
      using vacant_insert_law [of s1 "p @ ser KC k" VC v] absent assms(2,6,7) by auto
    then show ?thesis using absent
      by (auto simp: state_map_insert_def state_entry_def key_with_map_prefix_def unwrap_abort_def map_of_view_None)
  next
    case (present e s1 d)
    obtain w rest where d: "d = ser VC w @ rest" using map_wfE [OF assms(5) present(2)] .
    then obtain e1 where e1: "deserial A VC s1 e = Some (w, e1)" "get_key A e1 = p @ ser KC k" "live s1 e1"
      "pos e1 = length (ser VC w)"
      using deserial_law [OF present(3,7,10), of VC w rest] assms(4) present(8,9) by auto
    then obtain e' s' where "occupied_insert A VC s1 e1 v = Some (e', s')" "inv s'" "room s' = room s1"
      "view s' = (view s)(p @ ser KC k \<mapsto> ser VC v)" "locked s' = locked s"
      using occupied_insert_law [OF present(3) e1(3), of d VC v] present d assms(7) by auto
    then show ?thesis using present e1(1) d map_of_view_ser [OF assms(4), of "view s" p KC k w rest]
      by (auto simp: state_map_insert_def state_entry_def key_with_map_prefix_def)
  qed
qed

lemma state_map_remove_and_get_law:
  assumes "inv s" "0 < room s" "codec_ok KC" "codec_ok VC" "map_wf KC VC p (view s)"
    and "\<not> locked s (p @ ser KC k)"
  shows "\<exists>s'. state_map_remove_and_get A KC VC p s k = Some (map_of_view KC VC p (view s) k, s') \<and> inv s' \<and>
    view s' = (view s)(p @ ser KC k := None) \<and> locked s' = locked s \<and> room s \<le> Suc (room s')"
  using assms(1,2)
proof (cases rule: lookupE [where k = "p @ ser KC k"])
  case (absent s1)
  then show ?thesis
    by (auto simp: state_map_remove_and_get_def state_entry_def key_with_map_prefix_def map_of_view_None)
next
  case (present e s1 d)
  obtain w rest where d: "d = ser VC w @ rest" using map_wfE [OF assms(5) present(2)] .
  then obtain e1 where e1: "deserial A VC s1 e = Some (w, e1)" "get_key A e1 = p @ ser KC k" "live s1 e1"
    using deserial_law [OF present(3,7,10), of VC w rest] assms(4) present(8,9) by auto
  then obtain s' where "delete_entry A s1 e1 = Some (Inr (), s')" "inv s'" "room s1 \<le> room s'"
    "view s' = (view s)(p @ ser KC k := None)" "locked s' = locked s"
    using delete_law [OF present(3) e1(3)] present(4,5) assms(6) by auto
  then show ?thesis using present e1(1) d map_of_view_ser [OF assms(4), of "view s" p KC k w rest]
    by (auto simp: state_map_remove_and_get_def state_entry_def key_with_map_prefix_def)
qed

lemma state_map_clear_flat_law:
  assumes "inv s" "\<not> locked s p" "card {k \<in> dom (view s). prefix p k} \<le> room s"
  shows "\<exists>s'. state_map_clear_flat A p s = Some s' \<and> inv s' \<and>
    view s' = (\<lambda>k. if prefix p k then None else view s k) \<and> locked s' = locked s"
  using delete_prefix_law [OF assms] by (auto simp: state_map_clear_flat_def unwrap_abort_def)

lemma state_map_is_empty_law:
  assumes "inv s" "0 < room s"
  shows "\<exists>s'. state_map_is_empty A p s = Some (view s p = None, s') \<and> view s' = view s"
  using assms by (cases rule: lookupE [where k = p]) (auto simp: state_map_is_empty_def)

text \<open>Modifying an occupied entry replaces the value of its key.\<close>

lemma store_value_law:
  assumes "inv s" "live s (oe_state_entry oe)" "view s (get_key A (oe_state_entry oe)) = Some d"
    "pos (oe_state_entry oe) \<le> length d" "length (ser VC (oe_value oe)) < cap"
  shows "\<exists>oe' s'. store_value A VC s oe = Some (oe', s') \<and> inv s' \<and> locked s' = locked s \<and>
    view s' = (view s)(get_key A (oe_state_entry oe) \<mapsto> ser VC (oe_value oe)) \<and> oe_value oe' = oe_value oe"
proof -
  let ?k = "get_key A (oe_state_entry oe)"
  obtain e1 s1 where t: "entry_truncate A s (oe_state_entry oe) 0 = Some (e1, s1)" "inv s1"
    "view s1 = (view s)(?k \<mapsto> [])" "locked s1 = locked s" "get_key A e1 = ?k" "live s1 e1" "pos e1 = 0"
    using truncate_law [OF assms(1-4), of 0] by auto
  obtain e' s' where "write_all A s1 e1 (ser VC (oe_value oe)) = Some (e', s')" "inv s'"
    "view s' = (view s)(?k \<mapsto> ser VC (oe_value oe))" "locked s' = locked s"
    using write_all_law [OF t(2,6), of "[]" "ser VC (oe_value oe)"] t assms(5) by auto
  then show ?thesis using t(1) by (auto simp: store_value_def serial_def)
qed

lemma state_map_modify_law:
  assumes "inv s" "0 < room s" "codec_ok VC" "map_wf KC VC p (view s)"
    and "map_of_view KC VC p (view s) k = Some v" "f v = (res, v')" "length (ser VC v') < cap"
  shows "\<exists>oe s1 oe' s'. state_map_entry A KC VC p s k = Some (Occupied oe, s1) \<and> oe_value oe = v \<and>
    occupied_modify A VC f s1 oe = Some (res, oe', s') \<and> inv s' \<and> view s' = (view s)(p @ ser KC k \<mapsto> ser VC v')"
  using assms(1,2)
proof (cases rule: lookupE [where k = "p @ ser KC k"])
  case (absent s1)
  then show ?thesis using assms(5) by (simp add: map_of_view_None)
next
  case (present e s1 d)
  obtain w rest where d: "d = ser VC w @ rest" using map_wfE [OF assms(4) present(2)] .
  then have w: "w = v" using map_of_view_ser [OF assms(3), of "view s" p KC k w rest] present(2) assms(5) by simp
  obtain e1 where e1: "deserial A VC s1 e = Some (v, e1)" "get_key A e1 = p @ ser KC k" "live s1 e1"
    "pos e1 = length (ser VC v)"
    using deserial_law [OF present(3,7,10), of VC v rest] d w assms(3) present(8,9) by auto
  let ?oe = "\<lparr>oe_key = k, oe_value = v, oe_modified = False, oe_state_entry = e1\<rparr>"
  obtain oe' s' where "store_value A VC s1 (?oe\<lparr>oe_value := v'\<rparr>) = Some (oe', s')" "inv s'"
    "view s' = (view s)(p @ ser KC k \<mapsto> ser VC v')"
    using store_value_law [OF present(3), of "?oe\<lparr>oe_value := v'\<rparr>" d VC] e1 present d w assms(7) by auto
  then show ?thesis using present e1(1) assms(6)
    by (auto simp: state_map_entry_def key_with_map_prefix_def occupied_modify_def)
qed

section \<open>StateRefMut\<close>

text \<open>
  \<^verbatim>\<open>set\<close> writes the value at the start of the entry and keeps what lies behind it: the value read
  back is the new one, and the entry does not shrink.
\<close>

lemma ref_mut_set_law:
  assumes "inv s" "live s (rm_entry r)" "view s (get_key A (rm_entry r)) = Some d" "length (ser VC v) < cap"
  shows "\<exists>r' s'. ref_mut_set A VC s r v = Some (r', s') \<and> inv s' \<and> locked s' = locked s \<and> rm_lazy r' = Some v \<and>
    get_key A (rm_entry r') = get_key A (rm_entry r) \<and> live s' (rm_entry r') \<and>
    view s' = (view s)(get_key A (rm_entry r) \<mapsto> ser VC v @ drop (length (ser VC v)) d)"
proof -
  let ?e = "move_to_start A (rm_entry r)"
  have e: "get_key A ?e = get_key A (rm_entry r)" "pos ?e = 0" "live s ?e" using start_law [of "rm_entry r" s] assms by auto
  obtain e' s' where "write_all A s ?e (ser VC v) = Some (e', s')" "inv s'" "locked s' = locked s"
    "view s' = (view s)(get_key A (rm_entry r) \<mapsto> ser VC v @ drop (length (ser VC v)) d)"
    "get_key A e' = get_key A (rm_entry r)" "live s' e'"
    using write_all_law [OF assms(1) e(3), of d "ser VC v"] e assms(3,4) by auto
  then show ?thesis by (auto simp: ref_mut_set_def serial_def)
qed

lemma state_map_get_mut_set:
  assumes "inv s" "0 < room s" "codec_ok VC" "map_wf KC VC p (view s)"
    and "map_of_view KC VC p (view s) k \<noteq> None" "length (ser VC v) < cap"
  shows "\<exists>r s1 r' s' rest. state_map_get_mut A KC p s k = Some (Some r, s1) \<and> ref_mut_set A VC s1 r v = Some (r', s') \<and>
    inv s' \<and> view s' = (view s)(p @ ser KC k \<mapsto> ser VC v @ rest)"
  using assms(1,2)
proof (cases rule: lookupE [where k = "p @ ser KC k"])
  case (absent s1)
  then show ?thesis using assms(5) by (simp add: map_of_view_None)
next
  case (present e s1 d)
  then obtain r' s' where "ref_mut_set A VC s1 (ref_mut_new e) v = Some (r', s')" "inv s'"
    "view s' = (view s)(p @ ser KC k \<mapsto> ser VC v @ drop (length (ser VC v)) d)"
    using ref_mut_set_law [of s1 "ref_mut_new e" d VC v] assms(6) by (auto simp: ref_mut_new_def)
  then show ?thesis using present(1) by (auto simp: state_map_get_mut_def key_with_map_prefix_def)
qed

section \<open>StateSet\<close>

lemma state_set_insert_law:
  assumes "inv s" "2 \<le> room s" "\<not> locked s (p @ ser C t)"
  shows "\<exists>s'. state_set_insert A C p s t = Some (t \<notin> set_of_view C p (view s), s') \<and> inv s' \<and> locked s' = locked s \<and>
    (\<forall>key. key \<noteq> p @ ser C t \<longrightarrow> view s' key = view s key) \<and> view s' (p @ ser C t) \<noteq> None \<and> room s \<le> room s' + 2"
proof -
  have "0 < room s" using assms(2) by simp
  with assms(1) show ?thesis
  proof (cases rule: lookupE [where k = "p @ ser C t"])
    case (absent s1)
    obtain e s' where "vacant_insert_raw A s1 (p @ ser C t) [] = Some (Inr e, s')" "inv s'"
      "view s' = (view s)(p @ ser C t \<mapsto> [])" "locked s' = locked s" "room s1 \<le> Suc (room s')"
      using vacant_insert_raw_law [of s1 "p @ ser C t" "[]"] absent assms(2,3) by auto
    then show ?thesis using absent
      by (auto simp: state_set_insert_def state_entry_def key_with_set_prefix_def set_of_view_def)
  next
    case (present e s1 d)
    then show ?thesis by (auto simp: state_set_insert_def state_entry_def key_with_set_prefix_def set_of_view_def)
  qed
qed

lemma state_set_contains_law:
  assumes "inv s" "0 < room s"
  shows "\<exists>s'. state_set_contains A C p s t = Some (t \<in> set_of_view C p (view s), s') \<and> inv s' \<and> view s' = view s"
  using assms by (cases rule: lookupE [where k = "p @ ser C t"])
    (auto simp: state_set_contains_def key_with_set_prefix_def set_of_view_def)

lemma state_set_remove_law:
  assumes "inv s" "0 < room s" "\<not> locked s (p @ ser C t)"
  shows "\<exists>s'. state_set_remove A C p s t = Some (t \<in> set_of_view C p (view s), s') \<and> inv s' \<and> locked s' = locked s \<and>
    view s' = (view s)(p @ ser C t := None)"
  using assms(1,2)
proof (cases rule: lookupE [where k = "p @ ser C t"])
  case (absent s1)
  then show ?thesis
    by (auto simp: state_set_remove_def state_entry_def key_with_set_prefix_def set_of_view_def)
next
  case (present e s1 d)
  then obtain s' where "delete_entry A s1 e = Some (Inr (), s')" "inv s'"
    "view s' = (view s)(p @ ser C t := None)" "locked s' = locked s"
    using delete_law [OF present(3,7)] assms(3) by auto
  then show ?thesis using present
    by (auto simp: state_set_remove_def state_entry_def key_with_set_prefix_def set_of_view_def unwrap_abort_def)
qed

section \<open>StateBuilder\<close>

text \<open>
  The counter of the allocator: absent (it counts from 2) or the eight bytes of the next prefix.
\<close>

lemma get_and_update_item_prefix_law:
  assumes "inv s" "2 \<le> room s" "\<not> locked s NEXT_ITEM_PREFIX_KEY" "next_item (view s) = Some n"
    and le: "\<And>d. view s NEXT_ITEM_PREFIX_KEY = Some d \<Longrightarrow> d = u64_to_le_bytes n"
  shows "\<exists>s'. get_and_update_item_prefix A s = Some (u64_to_le_bytes n, s') \<and> inv s' \<and> locked s' = locked s \<and>
    view s' = (view s)(NEXT_ITEM_PREFIX_KEY \<mapsto> u64_to_le_bytes (n + 1)) \<and> room s \<le> room s' + 2"
proof -
  have "\<exists>er e s1. state_entry A s NEXT_ITEM_PREFIX_KEY = Some (er, s1) \<and>
    (\<exists>s2. or_insert_raw A s1 er INITIAL_NEXT_ITEM_PREFIX = Some (Inr e, s2) \<and> inv s2 \<and>
      view s2 = (view s)(NEXT_ITEM_PREFIX_KEY \<mapsto> u64_to_le_bytes n) \<and> locked s2 = locked s \<and> live s2 e \<and>
      get_key A e = NEXT_ITEM_PREFIX_KEY \<and> pos e = 0 \<and> room s \<le> room s2 + 2)"
  proof -
    have "0 < room s" using assms(2) by simp
    with assms(1) show ?thesis
    proof (cases rule: lookupE [where k = NEXT_ITEM_PREFIX_KEY])
      case (absent s1)
      then have n: "n = 2" using assms(4) by (simp add: next_item_def)
      obtain e s2 where "vacant_insert_raw A s1 NEXT_ITEM_PREFIX_KEY INITIAL_NEXT_ITEM_PREFIX = Some (Inr e, s2)"
        "inv s2" "view s2 = (view s)(NEXT_ITEM_PREFIX_KEY \<mapsto> u64_to_le_bytes n)" "locked s2 = locked s"
        "live s2 e" "get_key A e = NEXT_ITEM_PREFIX_KEY" "pos e = 0" "room s1 \<le> Suc (room s2)"
        using vacant_insert_raw_law [of s1 NEXT_ITEM_PREFIX_KEY INITIAL_NEXT_ITEM_PREFIX] absent assms(2,3) n
        by (auto simp: INITIAL_NEXT_ITEM_PREFIX_def)
      then show ?thesis using absent by (auto simp: state_entry_def or_insert_raw_def)
    next
      case (present e s1 d)
      then have "(view s)(NEXT_ITEM_PREFIX_KEY \<mapsto> u64_to_le_bytes n) = view s" using le by auto
      then show ?thesis using present by (auto simp: state_entry_def or_insert_raw_def)
    qed
  qed
  then obtain er e s1 s2 where o: "state_entry A s NEXT_ITEM_PREFIX_KEY = Some (er, s1)"
    "or_insert_raw A s1 er INITIAL_NEXT_ITEM_PREFIX = Some (Inr e, s2)" "inv s2"
    "view s2 = (view s)(NEXT_ITEM_PREFIX_KEY \<mapsto> u64_to_le_bytes n)" "locked s2 = locked s" "live s2 e"
    "get_key A e = NEXT_ITEM_PREFIX_KEY" "pos e = 0" "room s \<le> room s2 + 2" by blast
  have v2: "view s2 (get_key A e) = Some (u64_to_le_bytes n)" using o by simp
  obtain e1 where r: "entry_read A s2 e 8 = Some (u64_to_le_bytes n, e1)" "get_key A e1 = NEXT_ITEM_PREFIX_KEY" "live s2 e1"
    using read_law [OF o(3,6) v2, of 8] o(7,8) by auto
  let ?e = "move_to_start A e1"
  have e: "get_key A ?e = NEXT_ITEM_PREFIX_KEY" "pos ?e = 0" "live s2 ?e" using start_law [of e1 s2] r by auto
  obtain e' s' where "write_all A s2 ?e (u64_to_le_bytes (n + 1)) = Some (e', s')" "inv s'" "locked s' = locked s"
    "view s' = (view s)(NEXT_ITEM_PREFIX_KEY \<mapsto> u64_to_le_bytes (n + 1))" "room s' = room s2"
    using write_all_law [OF o(3) e(3), of "u64_to_le_bytes n" "u64_to_le_bytes (n + 1)"] e o by auto
  then show ?thesis
    using o(1,2,9) r(1) by (auto simp: get_and_update_item_prefix_def unwrap_abort_def u64_le_bytes_roundtrip)
qed

section \<open>StateBox\<close>

lemma box_load_reference:
  assumes "inv s" "0 < room s" "codec_ok VC" "view s p = Some (ser VC v @ rest)"
  shows "\<exists>e s'. box_load A VC s (Reference p) = Some (e, False, v, s') \<and> inv s' \<and> view s' = view s \<and>
    locked s' = locked s \<and> live s' e \<and> get_key A e = p \<and> room s \<le> Suc (room s')"
  using assms(1,2)
proof (cases rule: lookupE [where k = p])
  case (absent s1)
  then show ?thesis using assms(4) by simp
next
  case (present e s1 d)
  then obtain e' where "deserial A VC s1 e = Some (v, e')" "get_key A e' = p" "live s1 e'"
    using deserial_law [OF present(3,7,10), of VC v rest] assms(3,4) by auto
  then show ?thesis using present by (auto simp: box_load_def)
qed

lemma box_replace_law:
  assumes "inv s" "0 < room s" "codec_ok VC" "view s p = Some (ser VC v @ rest)" "length (ser VC w) < cap"
  shows "\<exists>b' s' rest'. box_replace A VC s (Reference p) w = Some (v, b', s') \<and> inv s' \<and> locked s' = locked s \<and>
    box_location A b' = p \<and> view s' = (view s)(p \<mapsto> ser VC w @ rest') \<and> room s \<le> Suc (room s')"
proof -
  obtain e s1 where l: "box_load A VC s (Reference p) = Some (e, False, v, s1)" "inv s1" "view s1 = view s"
    "locked s1 = locked s" "live s1 e" "get_key A e = p" "room s \<le> Suc (room s1)"
    using box_load_reference [OF assms(1-4)] by blast
  let ?e = "move_to_start A e"
  have e: "get_key A ?e = p" "pos ?e = 0" "live s1 ?e" using start_law [of e s1] l by auto
  obtain e' s' where "write_all A s1 ?e (ser VC w) = Some (e', s')" "inv s'" "locked s' = locked s"
    "view s' = (view s)(p \<mapsto> ser VC w @ drop (length (ser VC w)) (ser VC v @ rest))" "get_key A e' = p" "room s' = room s1"
    using write_all_law [OF l(2) e(3), of "ser VC v @ rest" "ser VC w"] e l assms(4,5) by auto
  then show ?thesis using l(1,7) by (auto simp: box_replace_def serial_def box_location_def)
qed

lemma box_delete_law:
  assumes "inv s" "0 < room s" "codec_ok VC" "view s p = Some (ser VC v @ rest)" "\<not> locked s p"
  shows "\<exists>s'. box_delete A VC (\<lambda>s _. Some s) s (Reference p) = Some s' \<and> inv s' \<and> view s' = (view s)(p := None)"
proof -
  obtain e s1 where l: "box_load A VC s (Reference p) = Some (e, False, v, s1)" "inv s1" "view s1 = view s"
    "locked s1 = locked s" "live s1 e" "get_key A e = p"
    using box_load_reference [OF assms(1-4)] by blast
  then obtain s' where "delete_entry A s1 e = Some (Inr (), s')" "inv s'" "view s' = (view s)(p := None)"
    using delete_law [OF l(2,5)] assms(5) by auto
  then show ?thesis using l(1) by (auto simp: box_delete_def unwrap_abort_def)
qed

lemma new_box_law:
  assumes "inv s" "3 \<le> room s" "\<not> locked s NEXT_ITEM_PREFIX_KEY" "next_item (view s) = Some n"
    and "\<And>d. view s NEXT_ITEM_PREFIX_KEY = Some d \<Longrightarrow> d = u64_to_le_bytes n"
    and "\<not> locked s (u64_to_le_bytes n)" "length (ser VC v) < cap"
  shows "\<exists>b s'. new_box A VC s v = Some (b, s') \<and> inv s' \<and> box_location A b = u64_to_le_bytes n \<and>
    view s' = (view s)(NEXT_ITEM_PREFIX_KEY \<mapsto> u64_to_le_bytes (n + 1), u64_to_le_bytes n \<mapsto> ser VC v)"
proof -
  have "2 \<le> room s" using assms(2) by simp
  from get_and_update_item_prefix_law [OF assms(1) this assms(3,4,5)]
  obtain s1 where g: "get_and_update_item_prefix A s = Some (u64_to_le_bytes n, s1)" "inv s1" "locked s1 = locked s"
    "view s1 = (view s)(NEXT_ITEM_PREFIX_KEY \<mapsto> u64_to_le_bytes (n + 1))" "room s \<le> room s1 + 2" by blast
  have "0 < room s1" "\<not> locked s1 (u64_to_le_bytes n)" using g assms(2,6) by auto
  then obtain e s2 where c: "create_entry A s1 (u64_to_le_bytes n) = Some (Inr e, s2)" "inv s2"
    "view s2 = (view s1)(u64_to_le_bytes n \<mapsto> [])" "live s2 e" "get_key A e = u64_to_le_bytes n" "pos e = 0"
    using create_law [OF g(2)] by blast
  obtain e' s' where "write_all A s2 e (ser VC v) = Some (e', s')" "inv s'" "get_key A e' = u64_to_le_bytes n"
    "view s' = (view s1)(u64_to_le_bytes n \<mapsto> ser VC v)"
    using write_all_law [OF c(2,4), of "[]" "ser VC v"] c assms(7) by auto
  then show ?thesis using g c by (auto simp: new_box_def unwrap_abort_def serial_def box_location_def)
qed

end

end
