(* ===== verification/State_Properties.thy ===== *)
theory State_Properties
  imports State_Containers_Laws
begin

text \<open>
  The properties of the contract state and its containers, on the trie that
  \<^verbatim>\<open>concordium-std/src/test_infrastructure/trie.rs\<close> implements: the interface's lemmas at the
  interpretation of the interface by the trie.
\<close>

section \<open>Samples\<close>

text \<open>The codec of \<^verbatim>\<open>u8\<close>.\<close>

definition u8_codec :: "u8 codec" where
  "u8_codec = \<lparr>ser = (\<lambda>b. [b]), des = (\<lambda>bs. case bs of [] \<Rightarrow> None | b # rest \<Rightarrow> Some (b, rest))\<rparr>"

lemma u8_codec_simps [simp]: "ser u8_codec b = [b]" "des u8_codec (b # rest) = Some (b, rest)"
  by (simp_all add: u8_codec_def)

lemma u8_codec_ok [simp]: "codec_ok u8_codec"
  by (simp add: codec_ok_def)

lemma map_wf_empty [simp]: "map_wf KC VC p Map.empty" "map_of_view KC VC p Map.empty = Map.empty"
  by (simp_all add: map_wf_def map_of_view_def fun_eq_iff)

lemmas trie_new_simps [simp] = trie_inv_new

section \<open>The trie\<close>

text \<open>
  C14. An iterator over a prefix yields a handle for every entry strictly below the prefix, in the
  lexicographic order of the keys, each pointing at its data. It locks the subtree of the prefix, as
  documented, and besides, which the documentation does not say, the keys on the way to it, that is those the
  prefix extends; it locks no other key and leaves the stored data alone.
\<close>

theorem trie_iterator_spec:
  assumes "trie_inv T" "card {k \<in> dom (trie_view T). prefix p k} \<le> trie_room T"
    and "map_of (iterator_counts T) (to_indexes p) \<noteq> Some (- 1)" "\<exists>k. prefix p k \<and> trie_view T k \<noteq> None"
  shows "\<exists>it T'. trie_iterator T p = Some (Inr it, T') \<and> trie_inv T' \<and> trie_view T' = trie_view T \<and>
    sorted_wrt lex_less (map te_key (ti_queue it)) \<and>
    set (map te_key (ti_queue it)) = {k. strict_prefix p k \<and> trie_view T k \<noteq> None} \<and>
    (\<forall>e \<in> set (ti_queue it). trie_live T' e \<and> te_offset e = 0) \<and>
    (\<forall>k. trie_locked T' k \<longleftrightarrow> trie_locked T k \<or> prefix p k \<or> prefix k p)"
  using trie_iterator_law [OF assms] by blast

text \<open>A trie with the entries \<open>[7]\<close> and \<open>[7, 1]\<close>.\<close>

definition sample_trie :: trie where
  "sample_trie = snd (the (trie_create_entry (snd (the (trie_create_entry trie_new [7]))) [7, 1]))"

lemma created:
  assumes "trie_inv T" "0 < trie_room T" "\<not> trie_locked T k"
  shows "trie_inv (snd (the (trie_create_entry T k)))" "trie_view (snd (the (trie_create_entry T k))) = (trie_view T)(k \<mapsto> [])"
    "trie_locked (snd (the (trie_create_entry T k))) = trie_locked T"
    "trie_room T \<le> Suc (trie_room (snd (the (trie_create_entry T k))))"
  using trie.create_law [OF assms] by auto

lemma sample_trie_simps:
  "trie_inv sample_trie" "trie_view sample_trie = [[7] \<mapsto> [], [7, 1] \<mapsto> []]" "trie_locked sample_trie k = False"
  "9 < trie_room sample_trie" "iterator_counts sample_trie = []"
proof -
  let ?T = "snd (the (trie_create_entry trie_new [7]))"
  note one = created [of trie_new "[7]", simplified]
  have two: "trie_inv ?T" "0 < trie_room ?T" "\<not> trie_locked ?T [7, 1]" using one by auto
  note two = created [OF two, folded sample_trie_def]
  show "trie_inv sample_trie" "trie_view sample_trie = [[7] \<mapsto> [], [7, 1] \<mapsto> []]" "trie_locked sample_trie k = False"
    "9 < trie_room sample_trie"
    using one two by auto
  show "iterator_counts sample_trie = []"
    by (simp add: sample_trie_def trie_create_entry_def Let_def trie_is_locked_def construct_state_entry_test_def trie_new_def)
qed

theorem trie_iterator_spec_witness:
  "\<exists>it T'. trie_iterator sample_trie [7] = Some (Inr it, T') \<and> set (map te_key (ti_queue it)) = {[7, 1]} \<and>
    trie_locked T' [7, 2]"
proof -
  have keys: "{k \<in> dom (trie_view sample_trie). prefix [7] k} = {[7], [7, 1]}"
    "{k. strict_prefix [7] k \<and> trie_view sample_trie k \<noteq> None} = {[7, 1]}"
    by (auto simp: sample_trie_simps)
  have "\<exists>k. prefix [7] k \<and> trie_view sample_trie k \<noteq> None" by (rule exI [of _ "[7]"]) (simp add: sample_trie_simps)
  from trie_iterator_spec [OF _ _ _ this] sample_trie_simps show ?thesis unfolding keys by force
qed

text \<open>
  The documentation of \<^verbatim>\<open>iterator\<close> in \<^verbatim>\<open>traits.rs\<close> and of \<^verbatim>\<open>state_iterate_prefix\<close> in \<^verbatim>\<open>prims.rs\<close> has only the subtree
  of the prefix locked. The test infrastructure also refuses to create an entry above it: here at the empty key, the
  root, while there is an iterator over \<open>[7]\<close>.
\<close>

lemma trie_iterator_locks_ancestors:
  "\<exists>it T'. trie_iterator sample_trie [7] = Some (Inr it, T') \<and> \<not> prefix [7] ([] :: bytes) \<and>
    trie_create_entry sample_trie [] \<noteq> Some (Inl SubtreeLocked, sample_trie) \<and>
    trie_create_entry T' [] = Some (Inl SubtreeLocked, T')"
proof -
  have keys: "{k \<in> dom (trie_view sample_trie). prefix [7] k} = {[7], [7, 1]}" by (auto simp: sample_trie_simps)
  have "\<exists>k. prefix [7] k \<and> trie_view sample_trie k \<noteq> None" by (rule exI [of _ "[7]"]) (simp add: sample_trie_simps)
  from trie_iterator_law [OF _ _ _ this] sample_trie_simps
  obtain it T' where it: "trie_iterator sample_trie [7] = Some (Inr it, T')" "trie_locked T' []"
    unfolding keys by force
  obtain e T where "trie_create_entry sample_trie [] = Some (Inr e, T)"
    using trie.create_law [of sample_trie "[]"] sample_trie_simps by auto
  moreover have "trie_create_entry T' [] = Some (Inl SubtreeLocked, T')"
    using it(2) by (simp add: trie_create_entry_def trie_locked_def Let_def)
  ultimately show ?thesis using it(1) by simp
qed

text \<open>
  C15. While an iterator over a prefix exists, creating and deleting an entry in the subtree of the prefix, and also
  at a key that the prefix extends, is refused with \<^verbatim>\<open>SubtreeLocked\<close> and changes nothing. Deleting the iterator gives
  back the locks it took and none that another iterator holds, however many there are on the same prefix.
\<close>

theorem trie_iterator_locks:
  assumes "trie_inv T" "card {k \<in> dom (trie_view T). prefix p k} \<le> trie_room T"
    and "\<exists>k. prefix p k \<and> trie_view T k \<noteq> None" "map_of (iterator_counts T) (to_indexes p) \<notin> {Some 0, Some (- 1)}"
    and "prefix p k \<or> prefix k p" "te_key e = k"
  shows "\<exists>it T' T''. trie_iterator T p = Some (Inr it, T') \<and>
    trie_create_entry T' k = Some (Inl SubtreeLocked, T') \<and>
    trie_delete_entry T' e = Some (Inl SubtreeLocked, T') \<and>
    trie_delete_iterator T' it = Some T'' \<and> trie_inv T'' \<and> trie_view T'' = trie_view T \<and>
    trie_locked T'' = trie_locked T"
proof -
  have few: "map_of (iterator_counts T) (to_indexes p) \<noteq> Some (- 1)" "map_of (iterator_counts T) (to_indexes p) \<noteq> Some 0"
    using assms(4) by simp_all
  from trie_iterator_law [OF assms(1,2) few(1) assms(3)]
  obtain it T' where it: "trie_iterator T p = Some (Inr it, T')" "trie_inv T'" "trie_view T' = trie_view T"
    "\<forall>k. trie_locked T' k \<longleftrightarrow> trie_locked T k \<or> prefix p k \<or> prefix k p" "ti_prefix it = to_indexes p"
    "iterator_counts T' = AList.update (to_indexes p)
      (case map_of (iterator_counts T) (to_indexes p) of None \<Rightarrow> 1 | Some j \<Rightarrow> j + 1) (iterator_counts T)"
    by blast
  obtain l' where l': "trie_delete_iterator T' it = Some (T'\<lparr>iterator_counts := l'\<rparr>)"
    "fst ` set l' = fst ` set (iterator_counts T)"
    using trie_delete_iterator_law [OF it(6,5) few(2,1)] by auto
  have "trie_locked (T'\<lparr>iterator_counts := l'\<rparr>) = trie_locked T"
    using l'(2) by (simp add: fun_eq_iff trie_locked_def trie_is_locked_def list_ex_keys)
  moreover have "trie_locked T' k" using it(4) assms(5) by blast
  ultimately show ?thesis
    using it(1-3) l'(1) assms(6)
    by (auto simp: trie_create_entry_def trie_delete_entry_def trie_locked_def Let_def counts_irrelevant)
qed

text \<open>With another iterator over the same prefix, the lock stays when one of the two is deleted.\<close>

theorem trie_iterator_locks_witness:
  "let T = sample_trie\<lparr>iterator_counts := [(to_indexes [7], 1)]\<rparr> in
    \<exists>it T' T''. trie_iterator T [7] = Some (Inr it, T') \<and>
    trie_create_entry T' [7, 2] = Some (Inl SubtreeLocked, T') \<and> trie_delete_iterator T' it = Some T'' \<and>
    trie_locked T'' [7, 2]"
proof -
  let ?T = "sample_trie\<lparr>iterator_counts := [(to_indexes [7], 1)]\<rparr>"
  have T: "trie_inv ?T" "trie_view ?T = [[7] \<mapsto> [], [7, 1] \<mapsto> []]" "9 < trie_room ?T"
    using sample_trie_simps by (simp_all add: counts_irrelevant)
  have lock: "trie_locked ?T [7, 2]"
    by (simp add: trie_locked_def trie_is_locked_def to_indexes_def byte_indexes_def)
  have keys: "{k \<in> dom (trie_view ?T). prefix [7] k} = {[7], [7, 1]}" by (auto simp: T(2))
  have card: "card {k \<in> dom (trie_view ?T). prefix [7] k} \<le> trie_room ?T" unfolding keys using T(3) by simp
  have "\<exists>k. prefix [7] k \<and> trie_view ?T k \<noteq> None" by (rule exI [of _ "[7]"]) (simp add: T(2))
  from trie_iterator_locks [OF T(1) card this, of "[7, 2]" "\<lparr>te_cell = 0, te_offset = 0, te_key = [7, 2], te_id = 0\<rparr>"] lock
  show ?thesis unfolding Let_def by auto
qed

section \<open>Maps\<close>

text \<open>
  C16. \<^verbatim>\<open>StateMap::insert\<close> returns the previous value of the key, and afterwards the map differs from
  before exactly at that key, where \<^verbatim>\<open>get\<close> returns the new value; no map, set or box under another
  prefix of the same length changes.
\<close>

theorem state_map_insert_spec:
  assumes "trie_inv s" "3 \<le> trie_room s" "codec_ok KC" "codec_ok VC" "map_wf KC VC p (trie_view s)"
    and "\<not> trie_locked s (p @ ser KC k)" "length (ser VC v) < 2 ^ 32" "length q = length p" "q \<noteq> p"
  shows "\<exists>s1 s2. state_map_insert test_state_api KC VC p s k v = Some (map_of_view KC VC p (trie_view s) k, s1) \<and>
    trie_inv s1 \<and> map_wf KC VC p (trie_view s1) \<and>
    map_of_view KC VC p (trie_view s1) = (map_of_view KC VC p (trie_view s))(k \<mapsto> v) \<and>
    state_map_get test_state_api KC VC p s1 k = Some (Some v, s2) \<and> trie_view s2 = trie_view s1 \<and>
    (\<forall>suffix. trie_view s1 (q @ suffix) = trie_view s (q @ suffix))"
proof -
  have "2 \<le> trie_room s" using assms(2) by simp
  from trie.state_map_insert_law [OF assms(1) this assms(3-7)]
  obtain s1 where s1: "state_map_insert test_state_api KC VC p s k v = Some (map_of_view KC VC p (trie_view s) k, s1)"
    "trie_inv s1" "trie_view s1 = (trie_view s)(p @ ser KC k \<mapsto> ser VC v)" "trie_room s \<le> trie_room s1 + 2"
    by blast
  have wf: "map_wf KC VC p (trie_view s1)" "0 < trie_room s1"
    using map_wf_upd [OF assms(5), of k v "[]"] s1 assms(2) by auto
  have m: "map_of_view KC VC p (trie_view s1) = (map_of_view KC VC p (trie_view s))(k \<mapsto> v)"
    using map_of_view_upd [OF assms(3,4)] s1(3) by simp
  obtain s2 where "state_map_get test_state_api KC VC p s1 k = Some (Some v, s2)" "trie_view s2 = trie_view s1"
    using trie.state_map_get_law [OF s1(2) wf(2) assms(4) wf(1), of k] m by auto
  then show ?thesis using s1 wf m other_prefix [OF assms(8,9)] by auto
qed

theorem state_map_insert_spec_witness:
  "\<exists>s1 s2. state_map_insert test_state_api u8_codec u8_codec [2, 0] trie_new 5 9 = Some (None, s1) \<and>
    state_map_get test_state_api u8_codec u8_codec [2, 0] s1 5 = Some (Some 9, s2)"
  using state_map_insert_spec [of trie_new u8_codec u8_codec "[2, 0]" 5 9 "[3, 0]"] by auto

text \<open>
  \<^verbatim>\<open>StateMap::remove_and_get\<close> returns the value the key had and takes exactly that key out of the
  map: \<^verbatim>\<open>get\<close> then returns \<^verbatim>\<open>None\<close>.
\<close>

lemma state_map_remove_spec:
  assumes "trie_inv s" "2 \<le> trie_room s" "codec_ok KC" "codec_ok VC" "map_wf KC VC p (trie_view s)"
    and "\<not> trie_locked s (p @ ser KC k)"
  shows "\<exists>s1 s2. state_map_remove_and_get test_state_api KC VC p s k = Some (map_of_view KC VC p (trie_view s) k, s1) \<and>
    trie_inv s1 \<and> map_wf KC VC p (trie_view s1) \<and>
    map_of_view KC VC p (trie_view s1) = (map_of_view KC VC p (trie_view s))(k := None) \<and>
    state_map_get test_state_api KC VC p s1 k = Some (None, s2) \<and> trie_view s2 = trie_view s1"
proof -
  have "0 < trie_room s" using assms(2) by simp
  from trie.state_map_remove_and_get_law [OF assms(1) this assms(3-6)]
  obtain s1 where s1: "state_map_remove_and_get test_state_api KC VC p s k = Some (map_of_view KC VC p (trie_view s) k, s1)"
    "trie_inv s1" "trie_view s1 = (trie_view s)(p @ ser KC k := None)" "trie_room s \<le> Suc (trie_room s1)"
    by blast
  have wf: "map_wf KC VC p (trie_view s1)" "0 < trie_room s1"
    using map_wf_del [OF assms(5)] s1 assms(2) by auto
  have m: "map_of_view KC VC p (trie_view s1) = (map_of_view KC VC p (trie_view s))(k := None)"
    using map_of_view_del [OF assms(3)] s1(3) by simp
  obtain s2 where "state_map_get test_state_api KC VC p s1 k = Some (None, s2)" "trie_view s2 = trie_view s1"
    using trie.state_map_get_law [OF s1(2) wf(2) assms(4) wf(1), of k] m by auto
  then show ?thesis using s1 wf m by auto
qed

text \<open>A state with the entry 5 of a map of bytes under the prefix \<open>[2, 0]\<close>.\<close>

definition sample_state :: trie where
  "sample_state = snd (the (state_map_insert test_state_api u8_codec u8_codec [2, 0] trie_new 5 9))"

lemma sample_state_simps:
  "trie_inv sample_state" "map_wf u8_codec u8_codec [2, 0] (trie_view sample_state)"
  "map_of_view u8_codec u8_codec [2, 0] (trie_view sample_state) = [5 \<mapsto> 9]"
  "trie_locked sample_state = (\<lambda>_. False)" "99 < trie_room sample_state"
  "trie_view sample_state = [[2, 0, 5] \<mapsto> [9]]"
proof -
  obtain s1 where s1: "state_map_insert test_state_api u8_codec u8_codec [2, 0] trie_new 5 9 = Some (None, s1)"
    "trie_inv s1" "trie_view s1 = [[2, 0, 5] \<mapsto> [9]]" "trie_locked s1 = trie_locked trie_new"
    "trie_room trie_new \<le> trie_room s1 + 2"
    using trie.state_map_insert_law [of trie_new u8_codec u8_codec "[2, 0]" 5 9] by auto
  then have s: "sample_state = s1" by (simp add: sample_state_def)
  show "trie_inv sample_state" "trie_locked sample_state = (\<lambda>_. False)" "99 < trie_room sample_state"
    "trie_view sample_state = [[2, 0, 5] \<mapsto> [9]]"
    using s1 s by (auto simp: fun_eq_iff)
  show "map_wf u8_codec u8_codec [2, 0] (trie_view sample_state)"
    "map_of_view u8_codec u8_codec [2, 0] (trie_view sample_state) = [5 \<mapsto> 9]"
    using map_wf_upd [of u8_codec u8_codec "[2, 0]" Map.empty 5 9 "[]"]
      map_of_view_upd [of u8_codec u8_codec "[2, 0]" Map.empty 5 9] s s1(3) by auto
qed

lemma state_map_remove_spec_sample:
  "\<exists>s1 s2. state_map_remove_and_get test_state_api u8_codec u8_codec [2, 0] sample_state 5 = Some (Some 9, s1) \<and>
    state_map_get test_state_api u8_codec u8_codec [2, 0] s1 5 = Some (None, s2)"
  using state_map_remove_spec [of sample_state u8_codec u8_codec "[2, 0]" 5] sample_state_simps by auto

text \<open>
  \<^verbatim>\<open>is_empty\<close> of \<^verbatim>\<open>StateMap\<close> and \<^verbatim>\<open>StateSet\<close>, documented to say whether the collection has no elements, looks at the entry
  whose key is the prefix itself: it answers \<^verbatim>\<open>true\<close> right after an \<^verbatim>\<open>insert\<close> of anything that serializes to at least
  one byte, although the collection now has an element.
\<close>

lemma state_map_is_empty_after_insert:
  assumes "trie_inv s" "3 \<le> trie_room s" "codec_ok KC" "codec_ok VC" "map_wf KC VC p (trie_view s)"
    and "\<not> trie_locked s (p @ ser KC k)" "length (ser VC v) < 2 ^ 32"
    and "trie_view s p = None" "ser KC k \<noteq> []"
  shows "\<exists>old s1 s2. state_map_insert test_state_api KC VC p s k v = Some (old, s1) \<and>
    state_map_is_empty test_state_api p s1 = Some (True, s2) \<and> map_of_view KC VC p (trie_view s1) k = Some v"
proof -
  have "2 \<le> trie_room s" using assms(2) by simp
  from trie.state_map_insert_law [OF assms(1) this assms(3-7)]
  obtain s1 where s1: "state_map_insert test_state_api KC VC p s k v = Some (map_of_view KC VC p (trie_view s) k, s1)"
    "trie_inv s1" "trie_view s1 = (trie_view s)(p @ ser KC k \<mapsto> ser VC v)" "trie_room s \<le> trie_room s1 + 2"
    by blast
  have "0 < trie_room s1" "trie_view s1 p = None" using s1 assms(2,8,9) by auto
  then obtain s2 where "state_map_is_empty test_state_api p s1 = Some (True, s2)"
    using trie.state_map_is_empty_law [OF s1(2), of p] by auto
  moreover have "map_of_view KC VC p (trie_view s1) k = Some v"
    using map_of_view_upd [OF assms(3,4)] s1(3) by simp
  ultimately show ?thesis using s1(1) by auto
qed

lemma state_set_is_empty_after_insert:
  assumes "trie_inv s" "3 \<le> trie_room s" "\<not> trie_locked s (p @ ser C t)" "trie_view s p = None" "ser C t \<noteq> []"
  shows "\<exists>new s1 s2. state_set_insert test_state_api C p s t = Some (new, s1) \<and>
    state_set_is_empty test_state_api p s1 = Some (True, s2) \<and> t \<in> set_of_view C p (trie_view s1)"
proof -
  have "2 \<le> trie_room s" using assms(2) by simp
  from trie.state_set_insert_law [OF assms(1) this assms(3)]
  obtain s1 where s1: "state_set_insert test_state_api C p s t = Some (t \<notin> set_of_view C p (trie_view s), s1)" "trie_inv s1"
    "\<forall>key. key \<noteq> p @ ser C t \<longrightarrow> trie_view s1 key = trie_view s key" "trie_view s1 (p @ ser C t) \<noteq> None"
    "trie_room s \<le> trie_room s1 + 2"
    by blast
  have "0 < trie_room s1" "trie_view s1 p = None" using s1(3,5) assms(2,4,5) by auto
  then obtain s2 where "state_map_is_empty test_state_api p s1 = Some (True, s2)"
    using trie.state_map_is_empty_law [OF s1(2), of p] by auto
  then show ?thesis using s1(1,4) by (auto simp: state_set_is_empty_def state_map_is_empty_def set_of_view_def)
qed

lemma state_is_empty_after_insert_sample:
  "(\<exists>old s1 s2. state_map_insert test_state_api u8_codec u8_codec [2, 0] trie_new 5 9 = Some (old, s1) \<and>
    state_map_is_empty test_state_api [2, 0] s1 = Some (True, s2)) \<and>
   (\<exists>new s1 s2. state_set_insert test_state_api u8_codec [2, 0] trie_new 5 = Some (new, s1) \<and>
    state_set_is_empty test_state_api [2, 0] s1 = Some (True, s2))"
  using state_map_is_empty_after_insert [of trie_new u8_codec u8_codec "[2, 0]" 5 9]
    state_set_is_empty_after_insert [of trie_new "[2, 0]" u8_codec 5] by auto

text \<open>
  \<^verbatim>\<open>StateMap::iter_mut\<close> takes the lock of the map's prefix and its iterator has no \<^verbatim>\<open>Drop\<close>: a new
  key inserted after it, in the map or at any key comparable with the prefix, traps.
\<close>

lemma iter_mut_keeps_lock:
  assumes "trie_inv s" "card {k \<in> dom (trie_view s). prefix p k} \<le> trie_room s"
    and "map_of (iterator_counts s) (to_indexes p) = None"
    and "trie_view s (p @ ser KC k) \<noteq> None" "trie_view s (p @ ser KC j) = None"
  shows "\<exists>it s1. state_map_iter test_state_api p s = Some (Some it, s1) \<and> trie_view s1 = trie_view s \<and>
    state_map_insert test_state_api KC VC p s1 j v = None"
proof -
  have "map_of (iterator_counts s) (to_indexes p) \<noteq> Some (- 1)" using assms(3) by simp
  moreover have "\<exists>k. prefix p k \<and> trie_view s k \<noteq> None"
    by (rule exI [of _ "p @ ser KC k"]) (simp add: assms(4))
  ultimately obtain it s1 where it: "trie_iterator s p = Some (Inr it, s1)" "trie_inv s1" "trie_view s1 = trie_view s"
    "\<forall>k. trie_locked s1 k \<longleftrightarrow> trie_locked s k \<or> prefix p k \<or> prefix k p"
    using trie_iterator_law [OF assms(1,2)] by blast
  have "create_entry test_state_api s1 (p @ ser KC j) = Some (Inl SubtreeLocked, s1)"
    using trie.create_locked [OF it(2)] it(4) by auto
  moreover have "trie_lookup s1 (p @ ser KC j) = Some (None, s1)"
    using trie_view_None [OF it(2)] it(3) assms(5) by (simp add: trie_lookup_def)
  ultimately have "state_map_insert test_state_api KC VC p s1 j v = None"
    by (simp add: state_map_insert_def state_entry_def key_with_map_prefix_def vacant_insert_def unwrap_abort_def)
  then show ?thesis using it by (auto simp: state_map_iter_def)
qed

lemma iter_mut_keeps_lock_sample:
  "\<exists>it s1. state_map_iter test_state_api [7] sample_trie = Some (Some it, s1) \<and>
    state_map_insert test_state_api u8_codec u8_codec [7] s1 2 9 = None"
proof -
  have "{k \<in> dom (trie_view sample_trie). prefix [7] k} = {[7], [7, 1]}"
    by (auto simp: sample_trie_simps)
  then show ?thesis
    using iter_mut_keeps_lock [of sample_trie "[7]" u8_codec 1 2 u8_codec 9] sample_trie_simps by auto
qed

text \<open>
  Modifying the value of an occupied entry of a map (\<^verbatim>\<open>entry\<close>, then \<^verbatim>\<open>modify\<close>) replaces the value
  of that key by what the closure makes of it and returns the closure's result.
\<close>

lemma state_map_modify_spec:
  assumes "trie_inv s" "0 < trie_room s" "codec_ok KC" "codec_ok VC" "map_wf KC VC p (trie_view s)"
    and "map_of_view KC VC p (trie_view s) k = Some v" "f v = (res, v')" "length (ser VC v') < 2 ^ 32"
  shows "\<exists>oe s1 oe' s'. state_map_entry test_state_api KC VC p s k = Some (Occupied oe, s1) \<and> oe_value oe = v \<and>
    occupied_modify test_state_api VC f s1 oe = Some (res, oe', s') \<and> trie_inv s' \<and>
    map_of_view KC VC p (trie_view s') = (map_of_view KC VC p (trie_view s))(k \<mapsto> v')"
  using trie.state_map_modify_law [where f = f, OF assms(1,2,4-8)] map_of_view_upd [OF assms(3,4), of p "trie_view s" k v'] by metis

lemma state_map_modify_spec_sample:
  "\<exists>oe s1 oe' s'. state_map_entry test_state_api u8_codec u8_codec [2, 0] sample_state 5 = Some (Occupied oe, s1) \<and>
    occupied_modify test_state_api u8_codec (\<lambda>v. ((), v + 1)) s1 oe = Some ((), oe', s') \<and>
    map_of_view u8_codec u8_codec [2, 0] (trie_view s') 5 = Some 10"
  using state_map_modify_spec [of sample_state u8_codec u8_codec "[2, 0]" 5 9 "\<lambda>v. ((), v + 1)" "()" 10]
    sample_state_simps by auto

section \<open>Allocation of prefixes\<close>

text \<open>Allocating several prefixes one after another, as \<^verbatim>\<open>new_map\<close>, \<^verbatim>\<open>new_set\<close> and \<^verbatim>\<open>new_box\<close> do.\<close>

fun allocate :: "nat \<Rightarrow> trie \<Rightarrow> (bytes list \<times> trie) option" where
  "allocate 0 s = Some ([], s)"
| "allocate (Suc m) s = do {
     (p, s) \<leftarrow> get_and_update_item_prefix test_state_api s;
     (ps, s) \<leftarrow> allocate m s;
     Some (p # ps, s)
   }"

lemma allocate_law:
  assumes "trie_inv s" "2 * m \<le> trie_room s" "\<not> trie_locked s NEXT_ITEM_PREFIX_KEY"
    and "trie_view s NEXT_ITEM_PREFIX_KEY = None \<and> n = 2 \<or>
         trie_view s NEXT_ITEM_PREFIX_KEY = Some (u64_to_le_bytes n)"
  shows "\<exists>s'. allocate m s = Some (map (\<lambda>i. u64_to_le_bytes (n + of_nat i)) [0..<m], s')"
  using assms
proof (induction m arbitrary: s n)
  case (Suc m)
  have n: "next_item (trie_view s) = Some n" "\<And>d. trie_view s NEXT_ITEM_PREFIX_KEY = Some d \<Longrightarrow> d = u64_to_le_bytes n"
    using Suc.prems(4) by (auto simp: next_item_def u64_le_bytes_roundtrip)
  have "2 \<le> trie_room s" using Suc.prems(2) by simp
  from trie.get_and_update_item_prefix_law [OF Suc.prems(1) this Suc.prems(3) n]
  obtain s1 where s1: "get_and_update_item_prefix test_state_api s = Some (u64_to_le_bytes n, s1)" "trie_inv s1"
    "trie_locked s1 = trie_locked s" "trie_room s \<le> trie_room s1 + 2"
    "trie_view s1 = (trie_view s)(NEXT_ITEM_PREFIX_KEY \<mapsto> u64_to_le_bytes (n + 1))" by blast
  have "\<exists>s'. allocate m s1 = Some (map (\<lambda>i. u64_to_le_bytes (n + 1 + of_nat i)) [0..<m], s')"
    using Suc.IH [of s1 "n + 1"] s1 Suc.prems by auto
  then show ?case
    using s1(1) by (auto simp: upt_rec [of 0 "Suc m"] map_Suc_upt [symmetric] algebra_simps simp del: upt_Suc)
qed simp

lemma of_nat_add_inj:
  fixes n :: u64
  assumes "unat n + i < 2 ^ 64" "unat n + j < 2 ^ 64" "n + of_nat i = n + of_nat j"
  shows "i = j"
proof -
  have "of_nat i = (of_nat j :: u64)" using assms(3) by simp
  moreover have "i < 2 ^ 64" "j < 2 ^ 64" using assms(1,2) by simp_all
  ultimately show ?thesis by (simp add: word_of_nat_eq_iff take_bit_nat_eq_self)
qed

text \<open>
  C17. The state builder never hands out a prefix twice: any number of allocations that stays below
  the \<^verbatim>\<open>u64\<close> counter's limit yields pairwise different prefixes of eight bytes, none of which is
  the key of the counter itself.
\<close>

theorem allocate_distinct:
  assumes "trie_inv s" "2 * m \<le> trie_room s" "\<not> trie_locked s NEXT_ITEM_PREFIX_KEY"
    and "trie_view s NEXT_ITEM_PREFIX_KEY = None \<and> n = 2 \<or>
         trie_view s NEXT_ITEM_PREFIX_KEY = Some (u64_to_le_bytes n)"
    and "0 < unat n" "unat n + m \<le> 2 ^ 64"
  shows "\<exists>ps s'. allocate m s = Some (ps, s') \<and> length ps = m \<and> distinct ps \<and>
    (\<forall>p \<in> set ps. length p = 8 \<and> p \<noteq> NEXT_ITEM_PREFIX_KEY)"
proof -
  let ?ps = "map (\<lambda>i. u64_to_le_bytes (n + of_nat i)) [0..<m]"
  obtain s' where s': "allocate m s = Some (?ps, s')" using allocate_law [OF assms(1-4)] by blast
  have "distinct ?ps"
    using of_nat_add_inj [of n] assms(6) by (auto simp: distinct_map inj_on_def u64_to_le_bytes_inj)
  moreover have "n + of_nat i \<noteq> 0" if "i < m" for i
  proof -
    have "unat (n + of_nat i) = unat n + i"
      using that assms(6) by (simp add: unat_word_ariths unat_of_nat)
    then show ?thesis using assms(5) by (metis add_is_0 neq0_conv unat_0)
  qed
  ultimately show ?thesis using s' by (intro exI [of _ ?ps] exI [of _ s']) (auto simp: u64_to_le_bytes_inj NEXT_ITEM_PREFIX_KEY_def)
qed

theorem allocate_distinct_witness:
  "\<exists>ps s'. allocate 3 trie_new = Some (ps, s') \<and> length ps = 3 \<and> distinct ps"
  using allocate_distinct [of trie_new 3 2] by auto

section \<open>Boxes, sets and the root\<close>

text \<open>
  \<^verbatim>\<open>StateBox::replace\<close> returns the value the box held, and a box read back from the same reference
  then gets the new value; the entry keeps its place.
\<close>

lemma state_box_replace_spec:
  assumes "trie_inv s" "2 \<le> trie_room s" "codec_ok VC" "trie_view s p = Some (ser VC v @ rest)"
    and "length (ser VC w) < 2 ^ 32"
  shows "\<exists>b s1 b' s2. box_replace test_state_api VC s (Reference p) w = Some (v, b, s1) \<and> trie_inv s1 \<and>
    box_location test_state_api b = p \<and> (\<forall>q. q \<noteq> p \<longrightarrow> trie_view s1 q = trie_view s q) \<and>
    box_get test_state_api VC s1 (Reference p) = Some (w, b', s2)"
proof -
  have "0 < trie_room s" using assms(2) by simp
  from trie.box_replace_law [OF assms(1) this assms(3-5)]
  obtain b s1 rest' where b: "box_replace test_state_api VC s (Reference p) w = Some (v, b, s1)" "trie_inv s1"
    "box_location test_state_api b = p" "trie_view s1 = (trie_view s)(p \<mapsto> ser VC w @ rest')"
    "trie_room s \<le> Suc (trie_room s1)" by blast
  then have "0 < trie_room s1" "trie_view s1 p = Some (ser VC w @ rest')" using assms(2) by auto
  then obtain e s2 where "box_load test_state_api VC s1 (Reference p) = Some (e, False, w, s2)"
    using trie.box_load_reference [OF b(2) _ assms(3)] by blast
  then show ?thesis using b by (auto simp: box_get_def)
qed

lemma state_box_replace_spec_sample:
  "\<exists>b s1 b' s2. box_replace test_state_api u8_codec sample_state (Reference [2, 0, 5]) 33 = Some (9, b, s1) \<and>
    box_get test_state_api u8_codec s1 (Reference [2, 0, 5]) = Some (33, b', s2)"
  using state_box_replace_spec [of sample_state u8_codec "[2, 0, 5]" 9 "[]" 33] sample_state_simps by auto

text \<open>
  \<^verbatim>\<open>write_root\<close> followed by \<^verbatim>\<open>read_root\<close> returns the state that was written, and nothing but the
  root entry changes.
\<close>

lemma root_roundtrip:
  assumes "trie_inv s" "2 \<le> trie_room s" "\<not> trie_locked s []" "codec_ok C" "length (ser C v) < 2 ^ 32"
  shows "\<exists>s' s''. write_root test_state_api C s v = Some s' \<and> read_root test_state_api C s' = Some (Some v, s'') \<and>
    trie_inv s' \<and> (\<forall>k. k \<noteq> [] \<longrightarrow> trie_view s' k = trie_view s k)"
  using trie.write_read_root [OF assms] by fastforce

lemma root_roundtrip_sample:
  "\<exists>s' s''. write_root test_state_api u8_codec trie_new 4 = Some s' \<and> read_root test_state_api u8_codec s' = Some (Some 4, s'')"
  using root_roundtrip [of trie_new u8_codec 4] by auto

text \<open>
  \<^verbatim>\<open>StateSet\<close>: \<^verbatim>\<open>insert\<close> returns whether the element is new and \<^verbatim>\<open>remove\<close> whether it was there; each
  changes the membership of that element only.
\<close>

lemma state_set_spec:
  assumes "trie_inv s" "2 \<le> trie_room s" "\<not> trie_locked s (p @ ser C t)" "codec_ok C"
  shows "(\<exists>s'. state_set_insert test_state_api C p s t = Some (t \<notin> set_of_view C p (trie_view s), s') \<and> trie_inv s' \<and>
      set_of_view C p (trie_view s') = insert t (set_of_view C p (trie_view s))) \<and>
    (\<exists>s'. state_set_remove test_state_api C p s t = Some (t \<in> set_of_view C p (trie_view s), s') \<and> trie_inv s' \<and>
      set_of_view C p (trie_view s') = set_of_view C p (trie_view s) - {t}) \<and>
    (\<exists>s'. state_set_contains test_state_api C p s t = Some (t \<in> set_of_view C p (trie_view s), s'))"
proof -
  have room: "0 < trie_room s" using assms(2) by simp
  have key: "p @ ser C x = p @ ser C t \<longleftrightarrow> x = t" for x using codec_inj [OF assms(4)] by simp
  obtain s1 where s1: "state_set_insert test_state_api C p s t = Some (t \<notin> set_of_view C p (trie_view s), s1)" "trie_inv s1"
    "\<forall>key. key \<noteq> p @ ser C t \<longrightarrow> trie_view s1 key = trie_view s key" "trie_view s1 (p @ ser C t) \<noteq> None"
    using trie.state_set_insert_law [OF assms(1-3)] by blast
  have v1: "set_of_view C p (trie_view s1) = insert t (set_of_view C p (trie_view s))"
  proof (rule set_eqI)
    fix x show "x \<in> set_of_view C p (trie_view s1) \<longleftrightarrow> x \<in> insert t (set_of_view C p (trie_view s))"
      using s1(3,4) key [of x] by (cases "x = t") (simp_all add: set_of_view_def)
  qed
  obtain s2 where s2: "state_set_remove test_state_api C p s t = Some (t \<in> set_of_view C p (trie_view s), s2)"
    "trie_inv s2" "trie_view s2 = (trie_view s)(p @ ser C t := None)"
    using trie.state_set_remove_law [OF assms(1) room assms(3)] by blast
  have v2: "set_of_view C p (trie_view s2) = set_of_view C p (trie_view s) - {t}"
    using s2(3) codec_inj [OF assms(4)] by (auto simp: set_of_view_def)
  obtain s3 where "state_set_contains test_state_api C p s t = Some (t \<in> set_of_view C p (trie_view s), s3)"
    using trie.state_set_contains_law [OF assms(1) room, of C p t] by auto
  then show ?thesis
    by (intro conjI exI [of _ s1] exI [of _ s2] exI [of _ s3]) (use s1(1,2) s2(1,2) v1 v2 in simp_all)
qed

lemma state_set_spec_sample:
  "(\<exists>s'. state_set_insert test_state_api u8_codec [2, 0] sample_state 6 = Some (True, s')) \<and>
    (\<exists>s'. state_set_remove test_state_api u8_codec [2, 0] sample_state 6 = Some (False, s'))"
  using state_set_spec [of sample_state "[2, 0]" u8_codec 6] sample_state_simps by (auto simp: set_of_view_def)

text \<open>
  \<^verbatim>\<open>StateMap::clear_flat\<close> empties the map and touches no key outside its prefix.
\<close>

lemma state_map_clear_flat_spec:
  assumes "trie_inv s" "\<not> trie_locked s p" "card {k \<in> dom (trie_view s). prefix p k} \<le> trie_room s"
  shows "\<exists>s'. state_map_clear_flat test_state_api p s = Some s' \<and> trie_inv s' \<and>
    map_of_view KC VC p (trie_view s') = Map.empty \<and> (\<forall>k. \<not> prefix p k \<longrightarrow> trie_view s' k = trie_view s k)"
  using trie.state_map_clear_flat_law [OF assms] by (auto simp: map_of_view_def fun_eq_iff)

lemma state_map_clear_flat_spec_sample:
  "\<exists>s'. state_map_clear_flat test_state_api [7] sample_trie = Some s' \<and>
    map_of_view u8_codec u8_codec [7] (trie_view s') = Map.empty"
proof -
  have "{k \<in> dom (trie_view sample_trie). prefix [7] k} = {[7], [7, 1]}"
    by (auto simp: sample_trie_simps)
  then show ?thesis
    using state_map_clear_flat_spec [of sample_trie "[7]" u8_codec u8_codec] sample_trie_simps by auto
qed

end
