(* ===== verification/BTree_Map.thy ===== *)
theory BTree_Map
  imports BTree_Set State_Properties
begin

text \<open>
  \<^verbatim>\<open>StateBTreeMap\<close> of \<^verbatim>\<open>concordium-std/src/state_btree.rs\<close>: a \<^verbatim>\<open>StateMap\<close> with the values and a
  \<^verbatim>\<open>StateBTreeSet\<close> with the order of the keys, kept consistent by every operation. The values are in the
  contract state under the prefix of the map. The code keeps the nodes of the set in the contract state too, as the
  values of a second \<^verbatim>\<open>StateMap\<close> with a prefix of its own, so they never meet the values; here they are in the
  record of the set (\<open>BTree_Model\<close>), a map from node ids to nodes. The code fixes the state API to that of the
  chain; here it is an argument, as for \<^verbatim>\<open>StateMap\<close>, and the laws hold for every API that meets the contract
  \<open>state_api_laws\<close>. The properties below are stated for the trie of the test infrastructure.
\<close>

section \<open>Operations\<close>

record 'k btree_map =
  key_value :: bytes
  key_order :: "'k btree_set"

definition btree_map_insert ::
    "('s, 'e, 'i) state_api \<Rightarrow> 'k::linorder codec \<Rightarrow> 'v codec \<Rightarrow> nat \<Rightarrow> 's \<Rightarrow> 'k btree_map \<Rightarrow> 'k \<Rightarrow> 'v \<Rightarrow>
     ('v option \<times> 'k btree_map \<times> 's) option" where
  "btree_map_insert A KC VC M s m k v = do {
     (old_value_option, s) \<leftarrow> state_map_insert A KC VC (key_value m) s k v;
     if old_value_option = None then do {
       (inserted, order) \<leftarrow> btree_set_insert M (key_order m) k;
       if inserted then Some (old_value_option, m\<lparr>key_order := order\<rparr>, s) else None
     } else Some (old_value_option, m, s)
   }"

definition btree_map_remove_and_get ::
    "('s, 'e, 'i) state_api \<Rightarrow> 'k::linorder codec \<Rightarrow> 'v codec \<Rightarrow> nat \<Rightarrow> 's \<Rightarrow> 'k btree_map \<Rightarrow> 'k \<Rightarrow>
     ('v option \<times> 'k btree_map \<times> 's) option" where
  "btree_map_remove_and_get A KC VC M s m k = do {
     (v, s) \<leftarrow> state_map_remove_and_get A KC VC (key_value m) s k;
     if v \<noteq> None then do {
       (removed, order) \<leftarrow> btree_set_remove M (key_order m) k;
       if removed then Some (v, m\<lparr>key_order := order\<rparr>, s) else None
     } else Some (v, m, s)
   }"

definition btree_map_remove ::
    "('s, 'e, 'i) state_api \<Rightarrow> 'k::linorder codec \<Rightarrow> 'v codec \<Rightarrow> ('s \<Rightarrow> 'v \<Rightarrow> 's option) \<Rightarrow> nat \<Rightarrow> 's \<Rightarrow>
     'k btree_map \<Rightarrow> 'k \<Rightarrow> ('k btree_map \<times> 's) option" where
  "btree_map_remove A KC VC del M s m k = do {
     (removed, order) \<leftarrow> btree_set_remove M (key_order m) k;
     let m = m\<lparr>key_order := order\<rparr>;
     if removed then do {
       s \<leftarrow> state_map_remove A KC VC del (key_value m) s k;
       Some (m, s)
     } else Some (m, s)
   }"

definition btree_map_get ::
    "('s, 'e, 'i) state_api \<Rightarrow> 'k codec \<Rightarrow> 'v codec \<Rightarrow> 's \<Rightarrow> 'k btree_map \<Rightarrow> 'k \<Rightarrow> ('v option \<times> 's) option" where
  "btree_map_get A KC VC s m k =
     (if btree_set_is_empty (key_order m) then Some (None, s) else state_map_get A KC VC (key_value m) s k)"

definition btree_map_get_mut ::
    "('s, 'e, 'i) state_api \<Rightarrow> 'k codec \<Rightarrow> 's \<Rightarrow> 'k btree_map \<Rightarrow> 'k \<Rightarrow> (('v, 'e) state_ref_mut option \<times> 's) option" where
  "btree_map_get_mut A KC s m k =
     (if btree_set_is_empty (key_order m) then Some (None, s) else state_map_get_mut A KC (key_value m) s k)"

definition btree_map_contains_key :: "'k::linorder btree_map \<Rightarrow> 'k \<Rightarrow> bool option" where
  "btree_map_contains_key m k = btree_set_contains (key_order m) k"

definition btree_map_higher :: "'k::linorder btree_map \<Rightarrow> 'k \<Rightarrow> 'k option option" where
  "btree_map_higher m k = btree_set_higher (key_order m) k"

definition btree_map_eq_or_higher :: "'k::linorder btree_map \<Rightarrow> 'k \<Rightarrow> 'k option option" where
  "btree_map_eq_or_higher m k = btree_set_eq_or_higher (key_order m) k"

definition btree_map_lower :: "'k::linorder btree_map \<Rightarrow> 'k \<Rightarrow> 'k option option" where
  "btree_map_lower m k = btree_set_lower (key_order m) k"

definition btree_map_eq_or_lower :: "'k::linorder btree_map \<Rightarrow> 'k \<Rightarrow> 'k option option" where
  "btree_map_eq_or_lower m k = btree_set_eq_or_lower (key_order m) k"

definition btree_map_first_key :: "'k btree_map \<Rightarrow> 'k option option" where
  "btree_map_first_key m = btree_set_first (key_order m)"

definition btree_map_last_key :: "'k btree_map \<Rightarrow> 'k option option" where
  "btree_map_last_key m = btree_set_last (key_order m)"

definition btree_map_len :: "'k btree_map \<Rightarrow> u32" where
  "btree_map_len m = btree_set_len (key_order m)"

definition btree_map_is_empty :: "'k btree_map \<Rightarrow> bool" where
  "btree_map_is_empty m = btree_set_is_empty (key_order m)"

text \<open>\<^verbatim>\<open>StateBTreeMapIter\<close>: the iterator over the keys; each value is looked up in the map.\<close>

definition btree_map_iter :: "'k btree_map \<Rightarrow> 'k set_iter" where
  "btree_map_iter m = btree_set_iter (key_order m)"

definition btree_map_iter_next ::
    "('s, 'e, 'i) state_api \<Rightarrow> 'k codec \<Rightarrow> 'v codec \<Rightarrow> 's \<Rightarrow> 'k btree_map \<Rightarrow> 'k set_iter \<Rightarrow>
     (('k \<times> 'v) option \<times> 'k set_iter \<times> 's) option" where
  "btree_map_iter_next A KC VC s m it = do {
     (next_key, it) \<leftarrow> btree_set_iter_next (key_order m) it;
     case next_key of
       None \<Rightarrow> Some (None, it, s)
     | Some k \<Rightarrow> do {
         (val, s) \<leftarrow> state_map_get A KC VC (key_value m) s k;
         v \<leftarrow> val;
         Some (Some (k, v), it, s)
       }
   }"

definition btree_map_clear ::
    "('s, 'e, 'i) state_api \<Rightarrow> 'k codec \<Rightarrow> 'v codec \<Rightarrow> ('s \<Rightarrow> 'v \<Rightarrow> 's option) \<Rightarrow> nat \<Rightarrow> 's \<Rightarrow> 'k btree_map \<Rightarrow>
     ('k btree_map \<times> 's) option" where
  "btree_map_clear A KC VC del fuel s m = do {
     s \<leftarrow> state_map_clear A KC VC del fuel (key_value m) s;
     Some (m\<lparr>key_order := btree_set_clear (key_order m)\<rparr>, s)
   }"

definition btree_map_clear_flat :: "('s, 'e, 'i) state_api \<Rightarrow> 's \<Rightarrow> 'k btree_map \<Rightarrow> ('k btree_map \<times> 's) option" where
  "btree_map_clear_flat A s m = do {
     s \<leftarrow> state_map_clear_flat A (key_value m) s;
     Some (m\<lparr>key_order := btree_set_clear (key_order m)\<rparr>, s)
   }"

text \<open>Up to \<open>n\<close> calls of \<^verbatim>\<open>next\<close>, stopping at the first \<^verbatim>\<open>None\<close>.\<close>

fun btree_map_iter_take ::
    "('s, 'e, 'i) state_api \<Rightarrow> 'k codec \<Rightarrow> 'v codec \<Rightarrow> 's \<Rightarrow> 'k btree_map \<Rightarrow> nat \<Rightarrow> 'k set_iter \<Rightarrow>
     (('k \<times> 'v) list \<times> 'k set_iter \<times> 's) option" where
  "btree_map_iter_take A KC VC s m 0 it = Some ([], it, s)"
| "btree_map_iter_take A KC VC s m (Suc n) it = do {
     (r, it, s) \<leftarrow> btree_map_iter_next A KC VC s m it;
     (case r of
        None \<Rightarrow> Some ([], it, s)
      | Some x \<Rightarrow> do { (xs, it, s) \<leftarrow> btree_map_iter_take A KC VC s m n it; Some (x # xs, it, s) })
   }"

section \<open>Consistency of the two parts\<close>

text \<open>
  The map that is stored under the prefix has exactly the keys of the ordered set. A codec
  reads every value it wrote.
\<close>

definition btree_map_ok :: "'k::linorder codec \<Rightarrow> 'v codec \<Rightarrow> nat \<Rightarrow> (bytes \<rightharpoonup> bytes) \<Rightarrow> 'k btree_map \<Rightarrow> bool" where
  "btree_map_ok KC VC M V m \<longleftrightarrow> 2 \<le> M \<and> btree_inv M (key_order m) \<and> map_wf KC VC (key_value m) V \<and>
     dom (map_of_view KC VC (key_value m) V) = elements (key_order m)"

lemma btree_map_okE:
  assumes "btree_map_ok KC VC M V m"
  obtains "2 \<le> M" "btree_inv M (key_order m)" "map_wf KC VC (key_value m) V"
    "dom (map_of_view KC VC (key_value m) V) = elements (key_order m)"
  using assms by (auto simp: btree_map_ok_def)

text \<open>Both depend only on what is under the prefix of the map.\<close>

lemma map_view_same:
  assumes "\<forall>x. prefix p x \<longrightarrow> V' x = V x"
  shows "map_wf KC VC p V' = map_wf KC VC p V" "map_of_view KC VC p V' = map_of_view KC VC p V"
  using assms by (auto simp: map_wf_def map_of_view_def fun_eq_iff)

context state_api_laws
begin

lemma btree_map_insert_law:
  assumes ok: "btree_map_ok KC VC M (view s) m" and s: "inv s" "2 \<le> room s" "0 < btree_room (key_order m)"
    and C: "codec_ok KC" "codec_ok VC" "\<not> locked s (key_value m @ ser KC k)" "length (ser VC v) < cap"
  shows "\<exists>m' s'. btree_map_insert A KC VC M s m k v = Some (map_of_view KC VC (key_value m) (view s) k, m', s') \<and>
    inv s' \<and> locked s' = locked s \<and> key_value m' = key_value m \<and> btree_map_ok KC VC M (view s') m' \<and>
    view s' = (view s)(key_value m @ ser KC k \<mapsto> ser VC v)"
proof -
  from ok have b: "2 \<le> M" "btree_inv M (key_order m)" "map_wf KC VC (key_value m) (view s)"
    "dom (map_of_view KC VC (key_value m) (view s)) = elements (key_order m)"
    by (auto elim: btree_map_okE)
  let ?p = "key_value m"
  obtain s' where s': "state_map_insert A KC VC ?p s k v = Some (map_of_view KC VC ?p (view s) k, s')" "inv s'"
    "view s' = (view s)(?p @ ser KC k \<mapsto> ser VC v)" "locked s' = locked s"
    using state_map_insert_law [OF s(1,2) C(1,2) b(3) C(3,4)] by blast
  have new: "map_wf KC VC ?p (view s')" "map_of_view KC VC ?p (view s') = (map_of_view KC VC ?p (view s))(k \<mapsto> v)"
    using map_wf_upd [OF b(3), of k v "[]"] map_of_view_upd [OF C(1,2)] s'(3) by auto
  show ?thesis
  proof (cases "k \<in> elements (key_order m)")
    case True
    then have "map_of_view KC VC ?p (view s) k \<noteq> None" using b(4) by auto
    moreover have "insert k (elements (key_order m)) = elements (key_order m)" using True by auto
    ultimately show ?thesis using s' new b
      by (intro exI [of _ m] exI [of _ s']) (auto simp: btree_map_insert_def btree_map_ok_def)
  next
    case False
    then have none: "map_of_view KC VC ?p (view s) k = None" using b(4) by auto
    obtain T where T: "btree_set_insert M (key_order m) k = Some (True, T)" "btree_inv M T"
      "elements T = insert k (elements (key_order m))"
      using bset.ins_law [of M "key_order m" k] b(1,2) s(3) False by auto
    show ?thesis using s' new b none T
      by (intro exI [of _ "m\<lparr>key_order := T\<rparr>"] exI [of _ s']) (auto simp: btree_map_insert_def btree_map_ok_def)
  qed
qed

lemma btree_map_remove_and_get_law:
  assumes ok: "btree_map_ok KC VC M (view s) m" and s: "inv s" "0 < room s"
    and C: "codec_ok KC" "codec_ok VC" "\<not> locked s (key_value m @ ser KC k)"
  shows "\<exists>m' s'. btree_map_remove_and_get A KC VC M s m k =
      Some (map_of_view KC VC (key_value m) (view s) k, m', s') \<and>
    inv s' \<and> locked s' = locked s \<and> key_value m' = key_value m \<and> btree_map_ok KC VC M (view s') m' \<and>
    view s' = (view s)(key_value m @ ser KC k := None)"
proof -
  from ok have b: "2 \<le> M" "btree_inv M (key_order m)" "map_wf KC VC (key_value m) (view s)"
    "dom (map_of_view KC VC (key_value m) (view s)) = elements (key_order m)"
    by (auto elim: btree_map_okE)
  let ?p = "key_value m"
  obtain s' where s': "state_map_remove_and_get A KC VC ?p s k = Some (map_of_view KC VC ?p (view s) k, s')" "inv s'"
    "view s' = (view s)(?p @ ser KC k := None)" "locked s' = locked s"
    using state_map_remove_and_get_law [OF s C(1,2) b(3) C(3)] by blast
  have new: "map_wf KC VC ?p (view s')" "map_of_view KC VC ?p (view s') = (map_of_view KC VC ?p (view s))(k := None)"
    using map_wf_del [OF b(3)] map_of_view_del [OF C(1)] s'(3) by auto
  obtain T where T: "btree_set_remove M (key_order m) k = Some (k \<in> elements (key_order m), T)" "btree_inv M T"
    "elements T = elements (key_order m) - {k}"
    using bset.rem_law [of M "key_order m" k] b(1,2) by auto
  show ?thesis
  proof (cases "k \<in> elements (key_order m)")
    case True
    then have "map_of_view KC VC ?p (view s) k \<noteq> None" using b(4) by auto
    then show ?thesis using s' new b T True
      by (intro exI [of _ "m\<lparr>key_order := T\<rparr>"] exI [of _ s']) (auto simp: btree_map_remove_and_get_def btree_map_ok_def)
  next
    case False
    then have "map_of_view KC VC ?p (view s) k = None" using b(4) by auto
    then show ?thesis using s' new b False
      by (intro exI [of _ m] exI [of _ s']) (auto simp: btree_map_remove_and_get_def btree_map_ok_def)
  qed
qed

text \<open>
  \<^verbatim>\<open>remove\<close>. The removed value's own \<^verbatim>\<open>delete\<close> has to succeed there and to leave what is under the map's prefix alone,
  as the deletion of a value does that owns nothing or owns what is under other prefixes.
\<close>

lemma btree_map_remove_law:
  assumes ok: "btree_map_ok KC VC M (view s) m" and s: "inv s" "0 < room s"
    and C: "codec_ok KC" "codec_ok VC" "\<not> locked s (key_value m @ ser KC k)"
    and del: "\<forall>v s1. map_of_view KC VC (key_value m) (view s) k = Some v \<and> inv s1 \<and> room s \<le> Suc (room s1) \<and>
      locked s1 = locked s \<and> view s1 = (view s)(key_value m @ ser KC k := None) \<longrightarrow>
      (\<exists>s2. del s1 v = Some s2 \<and> inv s2 \<and> (\<forall>x. prefix (key_value m) x \<longrightarrow> view s2 x = view s1 x))"
  shows "\<exists>m' s'. btree_map_remove A KC VC del M s m k = Some (m', s') \<and>
    inv s' \<and> key_value m' = key_value m \<and> btree_map_ok KC VC M (view s') m' \<and>
    map_of_view KC VC (key_value m) (view s') = (map_of_view KC VC (key_value m) (view s))(k := None)"
proof -
  from ok have b: "2 \<le> M" "btree_inv M (key_order m)" "map_wf KC VC (key_value m) (view s)"
    "dom (map_of_view KC VC (key_value m) (view s)) = elements (key_order m)"
    by (auto elim: btree_map_okE)
  let ?p = "key_value m"
  obtain s' where s': "state_map_remove_and_get A KC VC ?p s k = Some (map_of_view KC VC ?p (view s) k, s')" "inv s'"
    "view s' = (view s)(?p @ ser KC k := None)" "locked s' = locked s" "room s \<le> Suc (room s')"
    using state_map_remove_and_get_law [OF s C(1,2) b(3) C(3)] by blast
  have new: "map_wf KC VC ?p (view s')" "map_of_view KC VC ?p (view s') = (map_of_view KC VC ?p (view s))(k := None)"
    using map_wf_del [OF b(3)] map_of_view_del [OF C(1)] s'(3) by auto
  obtain T where T: "btree_set_remove M (key_order m) k = Some (k \<in> elements (key_order m), T)" "btree_inv M T"
    "elements T = elements (key_order m) - {k}"
    using bset.rem_law [of M "key_order m" k] b(1,2) by auto
  show ?thesis
  proof (cases "k \<in> elements (key_order m)")
    case True
    then obtain v where v: "map_of_view KC VC ?p (view s) k = Some v" using b(4) by auto
    obtain s2 where s2: "del s' v = Some s2" "inv s2" "\<forall>x. prefix ?p x \<longrightarrow> view s2 x = view s' x"
      using del v s'(2-5) by blast
    have "map_wf KC VC ?p (view s2)" "map_of_view KC VC ?p (view s2) = (map_of_view KC VC ?p (view s))(k := None)"
      using map_view_same [OF s2(3), of KC VC] new by simp_all
    then show ?thesis using s'(1) s2(1,2) b T True v
      by (intro exI [of _ "m\<lparr>key_order := T\<rparr>"] exI [of _ s2])
        (auto simp: btree_map_remove_def btree_map_ok_def state_map_remove_def)
  next
    case False
    then have "(map_of_view KC VC ?p (view s))(k := None) = map_of_view KC VC ?p (view s)" using b(4) by (auto simp: fun_eq_iff)
    then show ?thesis using b T False s(1)
      by (intro exI [of _ "m\<lparr>key_order := T\<rparr>"] exI [of _ s]) (auto simp: btree_map_remove_def btree_map_ok_def)
  qed
qed

lemma btree_map_get_law:
  assumes ok: "btree_map_ok KC VC M (view s) m" and s: "inv s" "0 < room s" and C: "codec_ok VC"
  shows "\<exists>s'. btree_map_get A KC VC s m k = Some (map_of_view KC VC (key_value m) (view s) k, s') \<and>
    inv s' \<and> view s' = view s \<and> locked s' = locked s"
proof (cases "elements (key_order m) = {}")
  case True
  then have "map_of_view KC VC (key_value m) (view s) k = None" "btree_set_is_empty (key_order m)"
    using ok btree_set_is_empty_correct [of M "key_order m"] by (auto simp: btree_map_ok_def)
  then show ?thesis using s by (simp add: btree_map_get_def)
next
  case False
  then have "\<not> btree_set_is_empty (key_order m)"
    using ok btree_set_is_empty_correct [of M "key_order m"] by (auto simp: btree_map_ok_def)
  then show ?thesis using ok state_map_get_law [OF s C, of KC "key_value m" k]
    by (auto simp: btree_map_get_def btree_map_ok_def)
qed

lemma btree_map_clear_flat_law:
  assumes ok: "btree_map_ok KC VC M (view s) m" and s: "inv s" "\<not> locked s (key_value m)"
    "card {k \<in> dom (view s). prefix (key_value m) k} \<le> room s"
  shows "\<exists>m' s'. btree_map_clear_flat A s m = Some (m', s') \<and> inv s' \<and> btree_map_ok KC VC M (view s') m' \<and>
    map_of_view KC VC (key_value m) (view s') = Map.empty \<and>
    (\<forall>k. \<not> prefix (key_value m) k \<longrightarrow> view s' k = view s k)"
proof -
  obtain s' where s': "state_map_clear_flat A (key_value m) s = Some s'" "inv s'"
    "view s' = (\<lambda>k. if prefix (key_value m) k then None else view s k)"
    using state_map_clear_flat_law [OF s] by blast
  then have "map_of_view KC VC (key_value m) (view s') = Map.empty" "map_wf KC VC (key_value m) (view s')"
    by (auto simp: map_of_view_def map_wf_def fun_eq_iff)
  then show ?thesis using s' ok btree_set_clear_correct
    by (auto simp: btree_map_clear_flat_def btree_map_ok_def)
qed

lemma btree_map_iter_take_law:
  assumes "btree_map_ok KC VC M (view s) m" "inv s" "n \<le> room s" "codec_ok VC"
    and "iter_rest M (key_order m) it xs" "set xs \<subseteq> elements (key_order m)"
  shows "\<exists>it' s'. btree_map_iter_take A KC VC s m n it =
      Some (map (\<lambda>k. (k, the (map_of_view KC VC (key_value m) (view s) k))) (take n xs), it', s') \<and> inv s' \<and>
    view s' = view s"
  using assms
proof (induction n arbitrary: s it xs)
  case (Suc n)
  let ?V = "map_of_view KC VC (key_value m) (view s)"
  from Suc.prems(1) have b: "2 \<le> M" "map_wf KC VC (key_value m) (view s)" "dom ?V = elements (key_order m)"
    by (auto elim: btree_map_okE)
  obtain it1 where it1: "btree_set_iter_next (key_order m) it = Some (case xs of [] \<Rightarrow> None | x # _ \<Rightarrow> Some x, it1)"
    "iter_rest M (key_order m) it1 (tl xs)" using btree_set_iter_next_correct [OF Suc.prems(5) b(1)] by blast
  show ?case
  proof (cases xs)
    case Nil
    then show ?thesis using it1 Suc.prems(2) by (simp add: btree_map_iter_next_def)
  next
    case (Cons x ys)
    have "x \<in> dom ?V" using Suc.prems(6) Cons b(3) by simp
    then obtain v where v: "?V x = Some v" by blast
    obtain s1 where s1: "state_map_get A KC VC (key_value m) s x = Some (?V x, s1)" "inv s1" "view s1 = view s"
      "room s \<le> Suc (room s1)"
      using state_map_get_law [OF Suc.prems(2) _ Suc.prems(4) b(2), of x] Suc.prems(3) by auto
    have "\<exists>it' s'. btree_map_iter_take A KC VC s1 m n it1 =
        Some (map (\<lambda>k. (k, the (?V k))) (take n ys), it', s') \<and> inv s' \<and> view s' = view s"
      using Suc.IH [of s1 it1 ys] s1 Suc.prems it1(2) Cons by auto
    then show ?thesis using it1(1) Cons v s1(1) by (auto simp: btree_map_iter_next_def)
  qed
qed simp

lemma btree_map_iter_law:
  assumes "btree_map_ok KC VC M (view s) m" "inv s" "n \<le> room s" "codec_ok VC"
  shows "\<exists>it' s'. btree_map_iter_take A KC VC s m n (btree_map_iter m) =
      Some (map (\<lambda>k. (k, the (map_of_view KC VC (key_value m) (view s) k)))
              (take n (sorted_list_of_set (elements (key_order m)))), it', s') \<and> inv s' \<and> view s' = view s"
proof -
  have b: "btree_inv M (key_order m)" using assms(1) by (auto elim: btree_map_okE)
  show ?thesis unfolding btree_map_iter_def
    by (rule btree_map_iter_take_law [OF assms btree_set_iter_rest [OF b]])
      (simp add: finite_elements [OF b])
qed

end

section \<open>Properties\<close>

text \<open>
  C9. \<^verbatim>\<open>StateBTreeMap::insert\<close> returns the previous value, keeps the stored map and the ordered set of
  its keys consistent (it never reaches the trap for an inconsistency), and \<^verbatim>\<open>get\<close> then returns the
  inserted value.
\<close>

theorem btree_map_insert_spec:
  assumes "btree_map_ok KC VC M (trie_view s) m" "trie_inv s" "3 \<le> trie_room s" "0 < btree_room (key_order m)"
    and "codec_ok KC" "codec_ok VC" "\<not> trie_locked s (key_value m @ ser KC k)" "length (ser VC v) < 2 ^ 32"
  shows "\<exists>m' s'. btree_map_insert test_state_api KC VC M s m k v =
      Some (map_of_view KC VC (key_value m) (trie_view s) k, m', s') \<and> trie_inv s' \<and>
    btree_map_ok KC VC M (trie_view s') m' \<and> key_value m' = key_value m \<and>
    map_of_view KC VC (key_value m) (trie_view s') = (map_of_view KC VC (key_value m) (trie_view s))(k \<mapsto> v) \<and>
    elements (key_order m') = insert k (elements (key_order m))"
proof -
  have "2 \<le> trie_room s" using assms(3) by simp
  from trie.btree_map_insert_law [OF assms(1,2) this assms(4-8)]
  obtain m' s' where r: "btree_map_insert test_state_api KC VC M s m k v =
      Some (map_of_view KC VC (key_value m) (trie_view s) k, m', s')" "trie_inv s'" "key_value m' = key_value m"
    "btree_map_ok KC VC M (trie_view s') m'" "trie_view s' = (trie_view s)(key_value m @ ser KC k \<mapsto> ser VC v)"
    by blast
  have v: "map_of_view KC VC (key_value m) (trie_view s') = (map_of_view KC VC (key_value m) (trie_view s))(k \<mapsto> v)"
    using map_of_view_upd [OF assms(5,6)] r(5) by simp
  then have "elements (key_order m') = insert k (elements (key_order m))"
    using r(3,4) assms(1) by (auto simp: btree_map_ok_def)
  then show ?thesis using r v by blast
qed

text \<open>An empty map of bytes.\<close>

definition sample_map :: "u8 btree_map" where
  "sample_map = \<lparr>key_value = [2, 0], key_order = btree_set_new\<rparr>"

lemma btree_map_ok_sample: "btree_map_ok u8_codec u8_codec 8 (trie_view trie_new) sample_map"
  by (simp add: btree_map_ok_def sample_map_def btree_inv_new)

lemma btree_room_sample: "0 < btree_room (key_order sample_map)"
  by (simp add: btree_room_def sample_map_def btree_set_new_def)

theorem btree_map_insert_spec_witness:
  "\<exists>m' s'. btree_map_insert test_state_api u8_codec u8_codec 8 trie_new sample_map 5 9 = Some (None, m', s') \<and>
    map_of_view u8_codec u8_codec [2, 0] (trie_view s') = [5 \<mapsto> 9] \<and> elements (key_order m') = {5}"
proof -
  have "key_value sample_map = [2, 0]" "elements (key_order sample_map) = {}"
    by (simp_all add: sample_map_def btree_inv_new)
  then show ?thesis
    using btree_map_insert_spec [OF btree_map_ok_sample, of 5 9] btree_room_sample by auto
qed

text \<open>
  C10. \<^verbatim>\<open>StateBTreeMap::remove_and_get\<close> and \<^verbatim>\<open>remove\<close> take the key out of the stored map and out of the ordered
  set, return the value it had, and keep the two consistent; \<^verbatim>\<open>get\<close> answers as the stored map. \<^verbatim>\<open>remove\<close> also deletes
  the value, by a deletion that succeeds and leaves what is under the prefix of the map alone.
\<close>

theorem btree_map_remove_spec:
  assumes "btree_map_ok KC VC M (trie_view s) m" "trie_inv s" "0 < trie_room s"
    and "codec_ok KC" "codec_ok VC" "\<not> trie_locked s (key_value m @ ser KC k)"
    and "\<forall>v s1. map_of_view KC VC (key_value m) (trie_view s) k = Some v \<and> trie_inv s1 \<and>
      trie_room s \<le> Suc (trie_room s1) \<and> trie_locked s1 = trie_locked s \<and>
      trie_view s1 = (trie_view s)(key_value m @ ser KC k := None) \<longrightarrow>
      (\<exists>s2. del s1 v = Some s2 \<and> trie_inv s2 \<and> (\<forall>x. prefix (key_value m) x \<longrightarrow> trie_view s2 x = trie_view s1 x))"
  shows "(\<exists>m' s'. btree_map_remove_and_get test_state_api KC VC M s m k =
      Some (map_of_view KC VC (key_value m) (trie_view s) k, m', s') \<and> trie_inv s' \<and>
      btree_map_ok KC VC M (trie_view s') m' \<and>
      map_of_view KC VC (key_value m) (trie_view s') = (map_of_view KC VC (key_value m) (trie_view s))(k := None)) \<and>
    (\<exists>m' s'. btree_map_remove test_state_api KC VC del M s m k = Some (m', s') \<and> trie_inv s' \<and>
      btree_map_ok KC VC M (trie_view s') m' \<and>
      map_of_view KC VC (key_value m) (trie_view s') = (map_of_view KC VC (key_value m) (trie_view s))(k := None)) \<and>
    (\<exists>s'. btree_map_get test_state_api KC VC s m k = Some (map_of_view KC VC (key_value m) (trie_view s) k, s') \<and>
      trie_view s' = trie_view s)"
proof (intro conjI)
  obtain m' s' where "btree_map_remove_and_get test_state_api KC VC M s m k =
      Some (map_of_view KC VC (key_value m) (trie_view s) k, m', s')" "trie_inv s'"
    "btree_map_ok KC VC M (trie_view s') m'" "trie_view s' = (trie_view s)(key_value m @ ser KC k := None)"
    using trie.btree_map_remove_and_get_law [OF assms(1-6)] by blast
  then show "\<exists>m' s'. btree_map_remove_and_get test_state_api KC VC M s m k =
      Some (map_of_view KC VC (key_value m) (trie_view s) k, m', s') \<and> trie_inv s' \<and>
      btree_map_ok KC VC M (trie_view s') m' \<and>
      map_of_view KC VC (key_value m) (trie_view s') = (map_of_view KC VC (key_value m) (trie_view s))(k := None)"
    using map_of_view_del [OF assms(4)] by auto
next
  show "\<exists>m' s'. btree_map_remove test_state_api KC VC del M s m k = Some (m', s') \<and> trie_inv s' \<and>
      btree_map_ok KC VC M (trie_view s') m' \<and>
      map_of_view KC VC (key_value m) (trie_view s') = (map_of_view KC VC (key_value m) (trie_view s))(k := None)"
    using trie.btree_map_remove_law [OF assms] by blast
next
  show "\<exists>s'. btree_map_get test_state_api KC VC s m k = Some (map_of_view KC VC (key_value m) (trie_view s) k, s') \<and>
      trie_view s' = trie_view s"
    using trie.btree_map_get_law [OF assms(1-3,5), of k] by blast
qed

text \<open>The map with the key 5.\<close>

definition sample_map_1 :: "u8 btree_map" where
  "sample_map_1 = \<lparr>key_value = [2, 0], key_order =
     \<lparr>store = [0 \<mapsto> \<lparr>keys = [5], children = []\<rparr>], root = Some 0, len = 1, next_node_id = 1\<rparr>\<rparr>"

lemma btree_map_ok_sample_1: "btree_map_ok u8_codec u8_codec 8 (trie_view sample_state) sample_map_1"
proof -
  have tree: "tree_of 8 (key_order sample_map_1) 0 (BT 0 [5] [])"
    by (auto simp: tree_of_def sample_map_1_def)
  have "btree_inv 8 (key_order sample_map_1)"
    by (rule btree_invI [OF _ _ tree]) (auto simp: sample_map_1_def fresh_def)
  moreover have "elements (key_order sample_map_1) = {5}"
    using elements_tree [OF tree] by simp
  ultimately show ?thesis
    using sample_state_simps(2,3) by (simp add: btree_map_ok_def sample_map_1_def)
qed

theorem btree_map_remove_spec_witness:
  "(\<exists>m' s'. btree_map_remove_and_get test_state_api u8_codec u8_codec 8 sample_state sample_map_1 5 = Some (Some 9, m', s') \<and>
      map_of_view u8_codec u8_codec [2, 0] (trie_view s') = Map.empty) \<and>
    (\<exists>m' s'. btree_map_remove test_state_api u8_codec u8_codec (\<lambda>s v. Some s) 8 sample_state sample_map_1 5 = Some (m', s') \<and>
      map_of_view u8_codec u8_codec [2, 0] (trie_view s') = Map.empty) \<and>
    (\<exists>s'. btree_map_get test_state_api u8_codec u8_codec sample_state sample_map_1 5 = Some (Some 9, s'))"
proof -
  have k: "key_value sample_map_1 = [2, 0]" by (simp add: sample_map_1_def)
  then show ?thesis
    using btree_map_remove_spec [OF btree_map_ok_sample_1, of 5 "\<lambda>s v. Some s"] sample_state_simps by fastforce
qed

text \<open>
  C11. Iterating over a \<^verbatim>\<open>StateBTreeMap\<close> yields its keys in ascending order, each with the value stored
  for it, and never traps on a key without a value.
\<close>

theorem btree_map_iter_spec:
  assumes "btree_map_ok KC VC M (trie_view s) m" "trie_inv s" "n \<le> trie_room s" "codec_ok VC"
  shows "\<exists>it' s'. btree_map_iter_take test_state_api KC VC s m n (btree_map_iter m) =
    Some (map (\<lambda>k. (k, the (map_of_view KC VC (key_value m) (trie_view s) k)))
            (take n (sorted_list_of_set (dom (map_of_view KC VC (key_value m) (trie_view s))))), it', s')"
proof -
  have "dom (map_of_view KC VC (key_value m) (trie_view s)) = elements (key_order m)"
    using assms(1) by (auto elim: btree_map_okE)
  then show ?thesis using trie.btree_map_iter_law [OF assms] by auto
qed

theorem btree_map_iter_spec_witness:
  "\<exists>it' s'. btree_map_iter_take test_state_api u8_codec u8_codec sample_state sample_map_1 3 (btree_map_iter sample_map_1) =
    Some ([(5, 9)], it', s')"
proof -
  have "key_value sample_map_1 = [2, 0]" by (simp add: sample_map_1_def)
  then show ?thesis
    using btree_map_iter_spec [OF btree_map_ok_sample_1, of 3] sample_state_simps by auto
qed

end
