(* ===== verification/Extern_State.thy ===== *)
theory Extern_State
  imports State_Properties
begin

text \<open>
  \<^verbatim>\<open>StateEntry\<close>, \<^verbatim>\<open>ExternStateApi\<close> and \<^verbatim>\<open>ExternStateIter\<close> of \<^verbatim>\<open>concordium-std/src/impls.rs\<close>: the state
  of a deployed contract, behind the primitives of the chain. The primitives are declared in
  \<^verbatim>\<open>prims.rs\<close> and have no body in the sources: they are an argument, with their documented
  behaviour as the assumptions of a locale. Whatever meets them, the operations here meet the
  interface the containers are built on.
\<close>

section \<open>The primitives\<close>

record 'h prims =
  state_lookup_entry :: "'h \<Rightarrow> bytes \<Rightarrow> u64 \<times> 'h"
  state_create_entry :: "'h \<Rightarrow> bytes \<Rightarrow> u64 \<times> 'h"
  state_delete_entry :: "'h \<Rightarrow> bytes \<Rightarrow> u32 \<times> 'h"
  state_delete_prefix :: "'h \<Rightarrow> bytes \<Rightarrow> u32 \<times> 'h"
  state_iterate_prefix :: "'h \<Rightarrow> bytes \<Rightarrow> u64 \<times> 'h"
  state_iterator_next :: "'h \<Rightarrow> u64 \<Rightarrow> u64 \<times> 'h"
  state_iterator_delete :: "'h \<Rightarrow> u64 \<Rightarrow> u32 \<times> 'h"
  state_iterator_key_size :: "'h \<Rightarrow> u64 \<Rightarrow> u32"
  state_iterator_key_read :: "'h \<Rightarrow> u64 \<Rightarrow> u32 \<Rightarrow> u32 \<Rightarrow> u32 \<times> bytes"
  state_entry_read :: "'h \<Rightarrow> u64 \<Rightarrow> u32 \<Rightarrow> u32 \<Rightarrow> u32 \<times> bytes"
  state_entry_write :: "'h \<Rightarrow> u64 \<Rightarrow> bytes \<Rightarrow> u32 \<Rightarrow> u32 \<times> 'h"
  state_entry_size :: "'h \<Rightarrow> u64 \<Rightarrow> u32"
  state_entry_resize :: "'h \<Rightarrow> u64 \<Rightarrow> u32 \<Rightarrow> u32 \<times> 'h"

section \<open>StateEntry\<close>

record extern_entry =
  state_entry_id :: u64
  se_key :: bytes
  current_position :: u32

definition extern_entry_open :: "u64 \<Rightarrow> bytes \<Rightarrow> extern_entry" where
  "extern_entry_open i key = \<lparr>state_entry_id = i, se_key = key, current_position = 0\<rparr>"

definition se_move_to_start :: "extern_entry \<Rightarrow> extern_entry" where
  "se_move_to_start e = e\<lparr>current_position := 0\<rparr>"

text \<open>\<open>- 1\<close> is \<^verbatim>\<open>u32::MAX\<close>.\<close>

definition se_size :: "'h prims \<Rightarrow> 'h \<Rightarrow> extern_entry \<Rightarrow> u32 option" where
  "se_size P h e = (let res = state_entry_size P h (state_entry_id e) in if res = - 1 then None else Some res)"

definition se_resize :: "'h prims \<Rightarrow> 'h \<Rightarrow> extern_entry \<Rightarrow> u32 \<Rightarrow> (extern_entry \<times> 'h) option" where
  "se_resize P h e new_size =
     (let (res, h) = state_entry_resize P h (state_entry_id e) new_size in
      if res = 1 then
        Some (if current_position e > new_size then e\<lparr>current_position := new_size\<rparr> else e, h)
      else None)"

definition se_truncate :: "'h prims \<Rightarrow> 'h \<Rightarrow> extern_entry \<Rightarrow> u32 \<Rightarrow> (extern_entry \<times> 'h) option" where
  "se_truncate P h e new_size = do {
     cur_size \<leftarrow> se_size P h e;
     if cur_size > new_size then se_resize P h e new_size else Some (e, h)
   }"

text \<open>
  \<^verbatim>\<open>seek\<close>: the offsets of \<^verbatim>\<open>End\<close> and \<^verbatim>\<open>Current\<close> are signed; the sum for \<^verbatim>\<open>End\<close> wraps. The sum for
  \<^verbatim>\<open>Current\<close> wraps when overflow checks are off, as in a contract built for release.
\<close>

datatype extern_seek = SeekStart u32 | SeekEnd u32 | SeekCurrent u32

definition se_seek :: "'h prims \<Rightarrow> 'h \<Rightarrow> extern_entry \<Rightarrow> extern_seek \<Rightarrow> (u32 \<times> extern_entry) option" where
  "se_seek P h e p = do {
     fin \<leftarrow> se_size P h e;
     case p of
       SeekStart offset \<Rightarrow> if offset \<le> fin then Some (offset, e\<lparr>current_position := offset\<rparr>) else None
     | SeekEnd delta \<Rightarrow>
         if sint delta > 0 then None
         else (let new_offset = fin + delta in
               if new_offset \<le> fin then Some (new_offset, e\<lparr>current_position := new_offset\<rparr>) else None)
     | SeekCurrent delta \<Rightarrow>
         (let new_offset = current_position e + delta in
          if new_offset \<le> fin then Some (new_offset, e\<lparr>current_position := new_offset\<rparr>) else None)
   }"

definition se_read :: "'h prims \<Rightarrow> 'h \<Rightarrow> extern_entry \<Rightarrow> nat \<Rightarrow> (bytes \<times> extern_entry) option" where
  "se_read P h e buf_len =
     (if buf_len \<ge> 2 ^ 32 then None
      else (let (num_read, bs) = state_entry_read P h (state_entry_id e) (of_nat buf_len) (current_position e) in
            if num_read = - 1 then None
            else Some (take (unat num_read) bs, e\<lparr>current_position := current_position e + num_read\<rparr>)))"

text \<open>
  The readers of integers that bypass the buffer: the bytes that were read, in little-endian order,
  when there are enough of them. The cursor moves in any case.
\<close>

definition se_read_exact :: "'h prims \<Rightarrow> 'h \<Rightarrow> extern_entry \<Rightarrow> u32 \<Rightarrow> bytes option \<times> extern_entry" where
  "se_read_exact P h e n =
     (let (num_read, bs) = state_entry_read P h (state_entry_id e) n (current_position e) in
      if num_read = - 1 then (None, e)
      else (if num_read = n then Some (take (unat n) bs) else None, e\<lparr>current_position := current_position e + num_read\<rparr>))"

definition se_read_u64 :: "'h prims \<Rightarrow> 'h \<Rightarrow> extern_entry \<Rightarrow> u64 option \<times> extern_entry" where
  "se_read_u64 P h e = (let (bs, e) = se_read_exact P h e 8 in (map_option u64_from_le_bytes bs, e))"

definition u32_from_le_bytes :: "bytes \<Rightarrow> u32" where
  "u32_from_le_bytes bs = foldr (\<lambda>b n. push_bit 8 n + ucast b) bs 0"

definition se_read_u32 :: "'h prims \<Rightarrow> 'h \<Rightarrow> extern_entry \<Rightarrow> u32 option \<times> extern_entry" where
  "se_read_u32 P h e = (let (bs, e) = se_read_exact P h e 4 in (map_option u32_from_le_bytes bs, e))"

definition se_read_u8 :: "'h prims \<Rightarrow> 'h \<Rightarrow> extern_entry \<Rightarrow> u8 option \<times> extern_entry" where
  "se_read_u8 P h e = (let (bs, e) = se_read_exact P h e 1 in (Option.bind bs (\<lambda>b. vec_get b 0), e))"

definition se_write :: "'h prims \<Rightarrow> 'h \<Rightarrow> extern_entry \<Rightarrow> bytes \<Rightarrow> (nat \<times> extern_entry \<times> 'h) option" where
  "se_write P h e buf =
     (if length buf \<ge> 2 ^ 32 then None
      else if unat (current_position e) + length buf \<ge> 2 ^ 32 then None
      else (let (num_bytes, h) = state_entry_write P h (state_entry_id e) buf (current_position e) in
            if num_bytes = - 1 then None
            else Some (unat num_bytes, e\<lparr>current_position := current_position e + num_bytes\<rparr>, h)))"

section \<open>ExternStateApi\<close>

definition OK_NONE :: u64 where "OK_NONE = - 1"
definition ERR :: u64 where "ERR = - 1 - 2 ^ 62"

definition ext_create_entry :: "'h prims \<Rightarrow> 'h \<Rightarrow> bytes \<Rightarrow> ((state_error + extern_entry) \<times> 'h) option" where
  "ext_create_entry P h key =
     (let (entry_id, h) = state_create_entry P h key in
      Some (if entry_id = - 1 then Inl SubtreeLocked else Inr (extern_entry_open entry_id key), h))"

definition ext_lookup_entry :: "'h prims \<Rightarrow> 'h \<Rightarrow> bytes \<Rightarrow> (extern_entry option \<times> 'h) option" where
  "ext_lookup_entry P h key =
     (let (entry_id, h) = state_lookup_entry P h key in
      Some (if entry_id = - 1 then None else Some (extern_entry_open entry_id key), h))"

definition ext_delete_entry :: "'h prims \<Rightarrow> 'h \<Rightarrow> extern_entry \<Rightarrow> ((state_error + unit) \<times> 'h) option" where
  "ext_delete_entry P h entry =
     (let (res, h) = state_delete_entry P h (se_key entry) in
      if res = 0 then Some (Inl SubtreeLocked, h)
      else if res = 1 then Some (Inl EntryNotFound, h)
      else if res = 2 then Some (Inr (), h)
      else None)"

definition ext_delete_prefix :: "'h prims \<Rightarrow> 'h \<Rightarrow> bytes \<Rightarrow> ((state_error + bool) \<times> 'h) option" where
  "ext_delete_prefix P h prefx =
     (let (res, h) = state_delete_prefix P h prefx in
      if res = 0 then Some (Inl SubtreeLocked, h)
      else if res = 1 then Some (Inr False, h)
      else if res = 2 then Some (Inr True, h)
      else None)"

definition ext_iterator :: "'h prims \<Rightarrow> 'h \<Rightarrow> bytes \<Rightarrow> ((state_error + u64) \<times> 'h) option" where
  "ext_iterator P h prefx =
     (let (iterator_id, h) = state_iterate_prefix P h prefx in
      Some (if iterator_id = OK_NONE then Inl SubtreeWithPrefixNotFound
            else if iterator_id = ERR then Inl IteratorLimitForPrefixExceeded
            else Inr iterator_id, h))"

definition ext_delete_iterator :: "'h prims \<Rightarrow> 'h \<Rightarrow> u64 \<Rightarrow> 'h option" where
  "ext_delete_iterator P h iterator_id = Some (snd (state_iterator_delete P h iterator_id))"

definition ext_iter_next :: "'h prims \<Rightarrow> 'h \<Rightarrow> u64 \<Rightarrow> extern_entry option \<times> u64 \<times> 'h" where
  "ext_iter_next P h iterator_id =
     (let (res, h) = state_iterator_next P h iterator_id in
      if res = OK_NONE then (None, iterator_id, h)
      else if res = ERR then (None, iterator_id, h)
      else (let key_size = state_iterator_key_size P h iterator_id;
                (num_read, key) = state_iterator_key_read P h iterator_id key_size 0
            in (Some (extern_entry_open res (take (unat num_read) key)), iterator_id, h)))"

definition extern_state_api :: "'h prims \<Rightarrow> ('h, extern_entry, u64) state_api" where
  "extern_state_api P = \<lparr>create_entry = ext_create_entry P, lookup_entry = ext_lookup_entry P,
     delete_entry = ext_delete_entry P, delete_prefix = ext_delete_prefix P, iterator = ext_iterator P,
     iter_next = ext_iter_next P, delete_iterator = ext_delete_iterator P, move_to_start = se_move_to_start,
     get_key = se_key, entry_size = se_size P, entry_truncate = se_truncate P, entry_resize = se_resize P,
     entry_read = se_read P, entry_write = se_write P\<rparr>"

text \<open>The return value of the contract: \<^verbatim>\<open>ExternReturnValue::write\<close>, the cursor after it.\<close>

definition return_value_write :: "('h \<Rightarrow> bytes \<Rightarrow> u32 \<Rightarrow> u32 \<times> 'h) \<Rightarrow> 'h \<Rightarrow> u32 \<Rightarrow> bytes \<Rightarrow> (nat \<times> u32 \<times> 'h) option" where
  "return_value_write write_output h position buf =
     (if length buf \<ge> 2 ^ 32 then None
      else if unat position + length buf \<ge> 2 ^ 32 then None
      else (let (num_bytes, h) = write_output h buf position in Some (unat num_bytes, position + num_bytes, h)))"

section \<open>What the primitives promise\<close>

text \<open>
  The documented behaviour of the primitives on the part of the state they work on. An identifier
  is \<open>bound\<close> to a key when it denotes the entry the state has at that key. A size of \<^verbatim>\<open>u32::MAX\<close>
  encodes a missing entry, so entries are shorter.
\<close>

locale host_prims =
  fixes P :: "'h prims"
    and hinv :: "'h \<Rightarrow> bool"
    and hview :: "'h \<Rightarrow> bytes \<rightharpoonup> bytes"
    and hlocked :: "'h \<Rightarrow> bytes \<Rightarrow> bool"
    and bound :: "'h \<Rightarrow> u64 \<Rightarrow> bytes \<Rightarrow> bool"
    and hroom :: "'h \<Rightarrow> nat"
    and hcap :: nat
  assumes hcap: "8 < hcap \<and> hcap < 2 ^ 32"
    and bound_view: "hinv h \<Longrightarrow> bound h i k \<Longrightarrow> \<exists>d. hview h k = Some d"
    and hview_size: "hinv h \<Longrightarrow> hview h k = Some d \<Longrightarrow> length d < hcap"
    and hview_finite: "hinv h \<Longrightarrow> finite (dom (hview h))"
    and lookup_prim: "hinv h \<Longrightarrow> 0 < hroom h \<Longrightarrow> \<exists>i h'. state_lookup_entry P h k = (i, h') \<and> hinv h' \<and>
      hview h' = hview h \<and> hlocked h' = hlocked h \<and> hroom h \<le> Suc (hroom h') \<and>
      (\<forall>j q. bound h j q \<longrightarrow> bound h' j q) \<and> (i = - 1 \<longleftrightarrow> hview h k = None) \<and> (i \<noteq> - 1 \<longrightarrow> bound h' i k)"
    and create_prim: "hinv h \<Longrightarrow> 0 < hroom h \<Longrightarrow> \<not> hlocked h k \<Longrightarrow> \<exists>i h'. state_create_entry P h k = (i, h') \<and>
      i \<noteq> - 1 \<and> hinv h' \<and> hview h' = (hview h)(k \<mapsto> []) \<and> hlocked h' = hlocked h \<and> hroom h \<le> Suc (hroom h') \<and>
      bound h' i k \<and> (\<forall>j q. bound h j q \<and> q \<noteq> k \<longrightarrow> bound h' j q)"
    and create_prim_locked: "hinv h \<Longrightarrow> hlocked h k \<Longrightarrow> state_create_entry P h k = (- 1, h)"
    and delete_prim: "hinv h \<Longrightarrow> hview h k \<noteq> None \<Longrightarrow> \<not> hlocked h k \<Longrightarrow> \<exists>h'. state_delete_entry P h k = (2, h') \<and>
      hinv h' \<and> hview h' = (hview h)(k := None) \<and> hlocked h' = hlocked h \<and> hroom h \<le> hroom h' \<and>
      (\<forall>j q. bound h j q \<and> q \<noteq> k \<longrightarrow> bound h' j q)"
    and delete_prefix_prim: "hinv h \<Longrightarrow> \<not> hlocked h p \<Longrightarrow> card {k \<in> dom (hview h). prefix p k} \<le> hroom h \<Longrightarrow>
      \<exists>r h'. state_delete_prefix P h p = (r, h') \<and> r \<in> {1, 2} \<and> hinv h' \<and>
      hview h' = (\<lambda>k. if prefix p k then None else hview h k) \<and> hlocked h' = hlocked h \<and>
      (\<forall>j q. bound h j q \<and> \<not> prefix p q \<longrightarrow> bound h' j q)"
    and size_prim: "hinv h \<Longrightarrow> bound h i k \<Longrightarrow> hview h k = Some d \<Longrightarrow> state_entry_size P h i = of_nat (length d)"
    and read_prim: "hinv h \<Longrightarrow> bound h i k \<Longrightarrow> hview h k = Some d \<Longrightarrow> unat off \<le> length d \<Longrightarrow>
      state_entry_read P h i n off =
        (of_nat (length (take (unat n) (drop (unat off) d))), take (unat n) (drop (unat off) d))"
    and write_prim: "hinv h \<Longrightarrow> bound h i k \<Longrightarrow> hview h k = Some d \<Longrightarrow> unat off \<le> length d \<Longrightarrow>
      unat off + length buf < hcap \<Longrightarrow> \<exists>h'. state_entry_write P h i buf off = (of_nat (length buf), h') \<and> hinv h' \<and>
        hview h' = (hview h)(k \<mapsto> take (unat off) d @ buf @ drop (unat off + length buf) d) \<and>
        hlocked h' = hlocked h \<and> hroom h' = hroom h \<and> (\<forall>j q. bound h j q \<longrightarrow> bound h' j q)"
    and resize_prim: "hinv h \<Longrightarrow> bound h i k \<Longrightarrow> hview h k = Some d \<Longrightarrow> unat m < length d \<Longrightarrow>
      \<exists>h'. state_entry_resize P h i m = (1, h') \<and> hinv h' \<and> hview h' = (hview h)(k \<mapsto> take (unat m) d) \<and>
        hlocked h' = hlocked h \<and> hroom h' = hroom h \<and> (\<forall>j q. bound h j q \<longrightarrow> bound h' j q)"

context host_prims
begin

lemma small_not_max: "n < hcap \<Longrightarrow> (of_nat n :: u32) \<noteq> - 1"
proof
  assume n: "n < hcap" "(of_nat n :: u32) = - 1"
  then have "(of_nat (Suc n) :: u32) = 0" by simp
  then have "unat (of_nat (Suc n) :: u32) = 0" by simp
  moreover have "unat (of_nat (Suc n) :: u32) = Suc n" using n(1) hcap by (intro unat_of_nat_32) simp
  ultimately show False by simp
qed

lemma small_unat: "n < hcap \<Longrightarrow> unat (of_nat n :: u32) = n"
  using hcap by (simp add: unat_of_nat_32)

lemma size_ext:
  assumes "hinv h" "bound h (state_entry_id e) (se_key e)" "hview h (se_key e) = Some d"
  shows "se_size P h e = Some (of_nat (length d))"
  using size_prim [OF assms] small_not_max [OF hview_size [OF assms(1,3)]] by (simp add: se_size_def)

lemma read_ext:
  assumes "hinv h" "bound h (state_entry_id e) (se_key e)" "hview h (se_key e) = Some d"
    and "unat (current_position e) \<le> length d" "n < 2 ^ 32"
  shows "\<exists>e'. se_read P h e n = Some (take n (drop (unat (current_position e)) d), e') \<and> se_key e' = se_key e \<and>
    bound h (state_entry_id e') (se_key e') \<and> unat (current_position e') = min (unat (current_position e) + n) (length d)"
proof -
  let ?p = "unat (current_position e)"
  define bs where "bs = take n (drop ?p d)"
  have n: "unat (of_nat n :: u32) = n" using assms(5) by (simp add: unat_of_nat_32)
  have d: "length d < hcap" by (rule hview_size [OF assms(1,3)])
  then have len: "length bs < hcap" by (simp add: bs_def)
  have run: "state_entry_read P h (state_entry_id e) (of_nat n) (current_position e) = (of_nat (length bs), bs)"
    using read_prim [OF assms(1-4), of "of_nat n"] unfolding n bs_def .
  have min: "?p + length bs = min (?p + n) (length d)" using assms(4) by (auto simp: bs_def)
  then have "?p + length bs < 2 ^ 32" using d hcap by linarith
  then have "unat (current_position e + of_nat (length bs)) = min (?p + n) (length d)"
    using small_unat [OF len] min by (simp add: unat_word_ariths)
  then show ?thesis
    using run assms(2,5) small_not_max [OF len] small_unat [OF len] by (simp add: se_read_def flip: bs_def)
qed

lemma write_ext:
  assumes "hinv h" "bound h (state_entry_id e) (se_key e)" "hview h (se_key e) = Some d"
    and "unat (current_position e) \<le> length d" "unat (current_position e) + length buf < hcap"
  shows "\<exists>e' h'. se_write P h e buf = Some (length buf, e', h') \<and> hinv h' \<and>
    hview h' = (hview h)(se_key e \<mapsto> take (unat (current_position e)) d @ buf @ drop (unat (current_position e) + length buf) d) \<and>
    hlocked h' = hlocked h \<and> hroom h' = hroom h \<and> se_key e' = se_key e \<and> bound h' (state_entry_id e') (se_key e') \<and>
    unat (current_position e') = unat (current_position e) + length buf \<and> (\<forall>j q. bound h j q \<longrightarrow> bound h' j q)"
proof -
  obtain h' where h': "state_entry_write P h (state_entry_id e) buf (current_position e) = (of_nat (length buf), h')" "hinv h'"
    "hview h' = (hview h)(se_key e \<mapsto> take (unat (current_position e)) d @ buf @ drop (unat (current_position e) + length buf) d)"
    "hlocked h' = hlocked h" "hroom h' = hroom h" "\<forall>j q. bound h j q \<longrightarrow> bound h' j q"
    using write_prim [OF assms] by blast
  have len: "length buf < hcap" "unat (current_position e) + length buf < 2 ^ 32" using assms(5) hcap by auto
  have "unat (current_position e + of_nat (length buf)) = unat (current_position e) + length buf"
    using small_unat [OF len(1)] len(2) by (simp add: unat_word_ariths)
  then show ?thesis
    using h' len small_not_max [OF len(1)] small_unat [OF len(1)] assms(2) by (simp add: se_write_def)
qed

lemma truncate_ext:
  assumes "hinv h" "bound h (state_entry_id e) (se_key e)" "hview h (se_key e) = Some d"
    and "unat (current_position e) \<le> length d"
  shows "\<exists>e' h'. se_truncate P h e m = Some (e', h') \<and> hinv h' \<and>
    hview h' = (hview h)(se_key e \<mapsto> take (unat m) d) \<and> hlocked h' = hlocked h \<and> hroom h' = hroom h \<and>
    se_key e' = se_key e \<and> bound h' (state_entry_id e') (se_key e') \<and>
    unat (current_position e') = min (unat (current_position e)) (min (unat m) (length d)) \<and>
    (\<forall>j q. bound h j q \<longrightarrow> bound h' j q)"
proof -
  have d: "unat (of_nat (length d) :: u32) = length d" by (rule small_unat [OF hview_size [OF assms(1,3)]])
  show ?thesis
  proof (cases "unat m < length d")
    case True
    then obtain h' where "state_entry_resize P h (state_entry_id e) m = (1, h')" "hinv h'"
      "hview h' = (hview h)(se_key e \<mapsto> take (unat m) d)" "hlocked h' = hlocked h" "hroom h' = hroom h"
      "\<forall>j q. bound h j q \<longrightarrow> bound h' j q"
      using resize_prim [OF assms(1-3)] by blast
    then show ?thesis using True assms(2,4) size_ext [OF assms(1-3)] d
      by (auto simp: se_truncate_def se_resize_def word_less_nat_alt)
  next
    case False
    then have "(hview h)(se_key e \<mapsto> take (unat m) d) = hview h" using assms(3) by auto
    then show ?thesis using False assms size_ext [OF assms(1-3)] d
      by (auto simp: se_truncate_def word_less_nat_alt)
  qed
qed

end

lemma extern_state_api_simps [simp]:
  "create_entry (extern_state_api P) = ext_create_entry P" "lookup_entry (extern_state_api P) = ext_lookup_entry P"
  "delete_entry (extern_state_api P) = ext_delete_entry P" "delete_prefix (extern_state_api P) = ext_delete_prefix P"
  "iterator (extern_state_api P) = ext_iterator P" "iter_next (extern_state_api P) = ext_iter_next P"
  "delete_iterator (extern_state_api P) = ext_delete_iterator P" "move_to_start (extern_state_api P) = se_move_to_start"
  "get_key (extern_state_api P) = se_key" "entry_size (extern_state_api P) = se_size P"
  "entry_truncate (extern_state_api P) = se_truncate P" "entry_resize (extern_state_api P) = se_resize P"
  "entry_read (extern_state_api P) = se_read P" "entry_write (extern_state_api P) = se_write P"
  by (simp_all add: extern_state_api_def)

text \<open>Whatever primitives meet the documentation, \<^verbatim>\<open>ExternStateApi\<close> over them meets the interface.\<close>

sublocale host_prims \<subseteq> ext: state_api_laws "extern_state_api P" hinv hview hlocked
  "\<lambda>h e. bound h (state_entry_id e) (se_key e)" "\<lambda>e. unat (current_position e)" hroom hcap
proof (unfold_locales, goal_cases)
  case 1
  show ?case using hcap by simp
next
  case (2 s e)
  then show ?case using bound_view by simp
next
  case (3 s k d)
  then show ?case using hview_size by simp
next
  case (4 s)
  then show ?case using hview_finite by simp
next
  case (5 s k)
  then obtain i s' where "state_lookup_entry P s k = (i, s')" "hinv s'" "hview s' = hview s" "hlocked s' = hlocked s"
    "hroom s \<le> Suc (hroom s')" "\<forall>j q. bound s j q \<longrightarrow> bound s' j q" "i = - 1 \<longleftrightarrow> hview s k = None" "i \<noteq> - 1 \<longrightarrow> bound s' i k"
    using lookup_prim [of s k] by auto
  then show ?case by (auto simp: ext_lookup_entry_def extern_entry_open_def)
next
  case (6 s k)
  then obtain i s' where "state_create_entry P s k = (i, s')" "i \<noteq> - 1" "hinv s'" "hview s' = (hview s)(k \<mapsto> [])"
    "hlocked s' = hlocked s" "hroom s \<le> Suc (hroom s')" "bound s' i k" "\<forall>j q. bound s j q \<and> q \<noteq> k \<longrightarrow> bound s' j q"
    using create_prim [of s k] by blast
  then show ?case by (auto simp: ext_create_entry_def extern_entry_open_def)
next
  case (7 s k)
  then show ?case using create_prim_locked by (simp add: ext_create_entry_def)
next
  case (8 s e)
  then have "hview s (se_key e) \<noteq> None" using bound_view by fastforce
  then obtain s' where "state_delete_entry P s (se_key e) = (2, s')" "hinv s'" "hview s' = (hview s)(se_key e := None)"
    "hlocked s' = hlocked s" "hroom s \<le> hroom s'" "\<forall>j q. bound s j q \<and> q \<noteq> se_key e \<longrightarrow> bound s' j q"
    using delete_prim [of s "se_key e"] 8 by auto
  then show ?case by (simp add: ext_delete_entry_def)
next
  case (9 s p)
  then obtain r s' where "state_delete_prefix P s p = (r, s')" "r = 1 \<or> r = 2" "hinv s'"
    "hview s' = (\<lambda>k. if prefix p k then None else hview s k)" "hlocked s' = hlocked s"
    "\<forall>j q. bound s j q \<and> \<not> prefix p q \<longrightarrow> bound s' j q"
    using delete_prefix_prim [of s p] by auto
  then show ?case by (auto simp: ext_delete_prefix_def)
next
  case (10 e s)
  show ?case by (simp add: se_move_to_start_def)
next
  case (11 s e d)
  then show ?case using size_ext by simp
next
  case (12 s e d n)
  then show ?case using read_ext [of s e d n] by simp
next
  case (13 s e d buf)
  then show ?case using write_ext [of s e d buf] by simp blast
next
  case (14 s e d m)
  then show ?case using truncate_ext [of s e d m] by simp blast
qed

context host_prims
begin

lemma extern_laws:
  "state_api_laws (extern_state_api P) hinv hview hlocked (\<lambda>h e. bound h (state_entry_id e) (se_key e))
     (\<lambda>e. unat (current_position e)) hroom hcap"
  by unfold_locales

end

end
