(* ===== verification/Extern_Trie.thy ===== *)
theory Extern_Trie
  imports Extern_State
begin

text \<open>
  Primitives that meet their documentation, built on the trie of the test infrastructure: the
  identifiers the host hands out are those of the trie's handles, and an entry is found by its
  identifier. With them the state of a deployed contract behaves as the state in tests.
\<close>

section \<open>Primitives on the trie\<close>

text \<open>A handle at an offset for an identifier.\<close>

definition tp_handle :: "trie \<Rightarrow> u64 \<Rightarrow> u32 \<Rightarrow> test_entry option" where
  "tp_handle T i off = do {
     ix \<leftarrow> entry_map T i;
     c \<leftarrow> node_lookup (nodes T) ix;
     key \<leftarrow> from_indexes ix;
     Some \<lparr>te_cell = c, te_offset = unat off, te_key = key, te_id = i\<rparr>
   }"

definition tp_lookup :: "trie \<Rightarrow> bytes \<Rightarrow> u64 \<times> trie" where
  "tp_lookup T k = (case trie_lookup T k of Some (Some e, T') \<Rightarrow> (te_id e, T') | _ \<Rightarrow> (- 1, T))"

definition tp_create :: "trie \<Rightarrow> bytes \<Rightarrow> u64 \<times> trie" where
  "tp_create T k = (case trie_create_entry T k of Some (Inr e, T') \<Rightarrow> (te_id e, T') | _ \<Rightarrow> (- 1, T))"

definition tp_delete :: "trie \<Rightarrow> bytes \<Rightarrow> u32 \<times> trie" where
  "tp_delete T k =
     (if trie_is_locked T (to_indexes k) then (0, T)
      else (case node_delete_data (nodes T) (to_indexes k) of
              (Inl _, _) \<Rightarrow> (1, T)
            | (Inr _, n) \<Rightarrow> (2, T\<lparr>nodes := n\<rparr>)))"

definition tp_delete_prefix :: "trie \<Rightarrow> bytes \<Rightarrow> u32 \<times> trie" where
  "tp_delete_prefix T p = (case trie_delete_prefix T p of
      Some (Inr b, T') \<Rightarrow> (if b then 2 else 1, T') | _ \<Rightarrow> (0, T))"

definition tp_size :: "trie \<Rightarrow> u64 \<Rightarrow> u32" where
  "tp_size T i = (case tp_handle T i 0 of
      Some e \<Rightarrow> (case te_size T e of Inr n \<Rightarrow> n | Inl _ \<Rightarrow> - 1) | None \<Rightarrow> - 1)"

definition tp_read :: "trie \<Rightarrow> u64 \<Rightarrow> u32 \<Rightarrow> u32 \<Rightarrow> u32 \<times> bytes" where
  "tp_read T i n off = (case Option.bind (tp_handle T i off) (\<lambda>e. te_read T e (unat n)) of
      Some (bs, _) \<Rightarrow> (of_nat (length bs), bs) | None \<Rightarrow> (- 1, []))"

definition tp_write :: "trie \<Rightarrow> u64 \<Rightarrow> bytes \<Rightarrow> u32 \<Rightarrow> u32 \<times> trie" where
  "tp_write T i buf off = (case Option.bind (tp_handle T i off) (\<lambda>e. te_write T e buf) of
      Some (n, _, T') \<Rightarrow> (of_nat n, T') | None \<Rightarrow> (- 1, T))"

definition tp_resize :: "trie \<Rightarrow> u64 \<Rightarrow> u32 \<Rightarrow> u32 \<times> trie" where
  "tp_resize T i m = (case tp_handle T i 0 of
      Some e \<Rightarrow> (case te_resize T e m of Inr (_, T') \<Rightarrow> (1, T') | Inl _ \<Rightarrow> (- 1, T)) | None \<Rightarrow> (- 1, T))"

text \<open>Iterators are not part of the assumptions; this host has none to give.\<close>

definition trie_prims :: "trie prims" where
  "trie_prims = \<lparr>state_lookup_entry = tp_lookup, state_create_entry = tp_create, state_delete_entry = tp_delete,
     state_delete_prefix = tp_delete_prefix, state_iterate_prefix = (\<lambda>T _. (ERR, T)),
     state_iterator_next = (\<lambda>T _. (OK_NONE, T)), state_iterator_delete = (\<lambda>T _. (0, T)),
     state_iterator_key_size = (\<lambda>_ _. - 1), state_iterator_key_read = (\<lambda>_ _ _ _. (- 1, [])),
     state_entry_read = tp_read, state_entry_write = tp_write, state_entry_size = tp_size,
     state_entry_resize = tp_resize\<rparr>"

definition tp_bound :: "trie \<Rightarrow> u64 \<Rightarrow> bytes \<Rightarrow> bool" where
  "tp_bound T i k \<longleftrightarrow> entry_map T i = Some (to_indexes k) \<and> node_lookup (nodes T) (to_indexes k) \<noteq> None"

text \<open>A size of \<^verbatim>\<open>u32::MAX\<close> is taken for a missing entry: this host keeps entries below it.\<close>

definition tp_inv :: "trie \<Rightarrow> bool" where
  "tp_inv T \<longleftrightarrow> trie_inv T \<and> (\<forall>k d. trie_view T k = Some d \<longrightarrow> length d < 2 ^ 32 - 1)"

lemma live_bound: "trie_live T e \<Longrightarrow> tp_bound T (te_id e) (te_key e)"
  by (auto simp: trie_live_def tp_bound_def)

lemma live_id: "trie_inv T \<Longrightarrow> trie_live T e \<Longrightarrow> te_id e \<noteq> - 1"
proof -
  assume "trie_inv T" "trie_live T e"
  then have "te_id e < next_entry_id T" by (auto simp: trie_inv_def trie_live_def)
  then show ?thesis by auto
qed

lemma bound_handle:
  assumes "tp_bound T i k"
  obtains e where "tp_handle T i off = Some e" "trie_live T e" "te_key e = k" "te_id e = i" "te_offset e = unat off"
proof -
  obtain c where c: "node_lookup (nodes T) (to_indexes k) = Some c" "entry_map T i = Some (to_indexes k)"
    using assms by (auto simp: tp_bound_def)
  show thesis
    by (rule that [of "\<lparr>te_cell = c, te_offset = unat off, te_key = k, te_id = i\<rparr>"])
      (simp_all add: c tp_handle_def trie_live_def)
qed

lemma bound_mono:
  assumes "\<forall>e. trie_live T e \<and> Q (te_key e) \<longrightarrow> trie_live T' e" "tp_bound T j q" "Q q"
  shows "tp_bound T' j q"
proof -
  obtain e where "trie_live T e" "te_key e = q" "te_id e = j" using bound_handle [OF assms(2)] by metis
  then show ?thesis using assms(1,3) live_bound [of T' e] by auto
qed

lemma tp_inv_upd:
  assumes "tp_inv T" "trie_inv T'" "trie_view T' = (trie_view T)(k \<mapsto> d)" "length d < 2 ^ 32 - 1"
  shows "tp_inv T'"
  using assms by (auto simp: tp_inv_def split: if_splits)

lemma tp_inv_restrict:
  assumes "tp_inv T" "trie_inv T'" "\<And>k d. trie_view T' k = Some d \<Longrightarrow> trie_view T k = Some d"
  shows "tp_inv T'"
  using assms by (auto simp: tp_inv_def)

lemma tp_lookup_law:
  assumes "tp_inv T" "0 < trie_room T"
  shows "\<exists>i T'. tp_lookup T k = (i, T') \<and> tp_inv T' \<and> trie_view T' = trie_view T \<and> trie_locked T' = trie_locked T \<and>
    trie_room T \<le> Suc (trie_room T') \<and> (\<forall>j q. tp_bound T j q \<longrightarrow> tp_bound T' j q) \<and>
    (i = - 1 \<longleftrightarrow> trie_view T k = None) \<and> (i \<noteq> - 1 \<longrightarrow> tp_bound T' i k)"
proof -
  have inv: "trie_inv T" using assms by (simp add: tp_inv_def)
  obtain r T' where T': "trie_lookup T k = Some (r, T')" "trie_inv T'" "trie_view T' = trie_view T"
    "trie_locked T' = trie_locked T" "trie_room T \<le> Suc (trie_room T')" "\<forall>e. trie_live T e \<longrightarrow> trie_live T' e"
    "r = None \<longleftrightarrow> trie_view T k = None" "\<forall>e. r = Some e \<longrightarrow> trie_live T' e \<and> te_key e = k \<and> te_offset e = 0"
    using trie_lookup_law [OF inv assms(2), of k] by auto
  have bound: "\<forall>j q. tp_bound T j q \<longrightarrow> tp_bound T' j q" using bound_mono [where Q = "\<lambda>_. True"] T'(6) by blast
  have inv': "tp_inv T'" by (rule tp_inv_restrict [OF assms(1) T'(2)]) (simp add: T'(3))
  show ?thesis
  proof (cases r)
    case None
    then show ?thesis using T'(7) assms(1) by (simp add: tp_lookup_def T'(1))
  next
    case (Some e)
    then have e: "trie_live T' e" "te_key e = k" using T'(8) by auto
    then have "tp_bound T' (te_id e) k" "te_id e \<noteq> - 1" using live_bound [OF e(1)] live_id [OF T'(2) e(1)] by auto
    moreover have "trie_view T k \<noteq> None" using T'(7) Some by auto
    ultimately show ?thesis using T'(1,3,4,5) bound inv' Some by (auto simp: tp_lookup_def)
  qed
qed

lemma tp_create_law:
  assumes "tp_inv T" "0 < trie_room T" "\<not> trie_locked T k"
  shows "\<exists>i T'. tp_create T k = (i, T') \<and> i \<noteq> - 1 \<and> tp_inv T' \<and> trie_view T' = (trie_view T)(k \<mapsto> []) \<and>
    trie_locked T' = trie_locked T \<and> trie_room T \<le> Suc (trie_room T') \<and> tp_bound T' i k \<and>
    (\<forall>j q. tp_bound T j q \<and> q \<noteq> k \<longrightarrow> tp_bound T' j q)"
proof -
  have inv: "trie_inv T" using assms by (simp add: tp_inv_def)
  obtain e T' where T': "trie_create_entry T k = Some (Inr e, T')" "trie_inv T'" "trie_view T' = (trie_view T)(k \<mapsto> [])"
    "trie_locked T' = trie_locked T" "trie_room T \<le> Suc (trie_room T')" "trie_live T' e" "te_key e = k"
    "\<forall>e'. trie_live T e' \<and> te_key e' \<noteq> k \<longrightarrow> trie_live T' e'"
    using trie_create_law [OF inv assms(2,3)] by auto
  have "tp_inv T'" by (rule tp_inv_upd [OF assms(1) T'(2,3)]) simp
  moreover have "\<forall>j q. tp_bound T j q \<and> q \<noteq> k \<longrightarrow> tp_bound T' j q"
    using bound_mono [where Q = "\<lambda>q. q \<noteq> k"] T'(8) by blast
  ultimately show ?thesis using T' live_bound [OF T'(6)] live_id [OF T'(2,6)] by (simp add: tp_create_def)
qed

lemma tp_delete_law:
  assumes "tp_inv T" "trie_view T k \<noteq> None" "\<not> trie_locked T k"
  shows "\<exists>T'. tp_delete T k = (2, T') \<and> tp_inv T' \<and> trie_view T' = (trie_view T)(k := None) \<and>
    trie_locked T' = trie_locked T \<and> trie_room T \<le> trie_room T' \<and>
    (\<forall>j q. tp_bound T j q \<and> q \<noteq> k \<longrightarrow> tp_bound T' j q)"
proof -
  have inv: "trie_inv T" using assms by (simp add: tp_inv_def)
  obtain r n where d: "node_delete_prefix (nodes T) (to_indexes k) True = (r, n)" by force
  have "node_lookup (nodes T) (to_indexes k) \<noteq> None" using assms(2) trie_view_None [OF inv, of k] by simp
  then have r: "r = Inr ()" using node_delete_exact_ok [of "nodes T" "to_indexes k"] d by simp
  have n: "node_lookup n jx = (if jx = to_indexes k then None else node_lookup (nodes T) jx)" for jx
    using node_lookup_delete [OF d, of jx] by simp
  let ?T' = "T\<lparr>nodes := n\<rparr>"
  have run: "tp_delete T k = (2, ?T')" using assms(3) d r by (simp add: tp_delete_def trie_locked_def node_delete_data_def)
  have inv': "trie_inv ?T'" using inv unfolding trie_inv_def by (simp add: n)
  have view: "trie_view ?T' = (trie_view T)(k := None)" by (rule ext) (simp add: trie_view_def n)
  have "tp_inv ?T'" by (rule tp_inv_restrict [OF assms(1) inv']) (auto simp: view split: if_splits)
  moreover have "trie_locked ?T' = trie_locked T" "trie_room ?T' = trie_room T"
    by (simp_all add: trie_locked_def trie_is_locked_def trie_room_def fun_eq_iff)
  moreover have "\<forall>j q. tp_bound T j q \<and> q \<noteq> k \<longrightarrow> tp_bound ?T' j q" by (simp add: tp_bound_def n)
  ultimately show ?thesis using run view by auto
qed

lemma tp_delete_prefix_law:
  assumes "tp_inv T" "\<not> trie_locked T p" "card {k \<in> dom (trie_view T). prefix p k} \<le> trie_room T"
  shows "\<exists>r T'. tp_delete_prefix T p = (r, T') \<and> r \<in> {1, 2} \<and> tp_inv T' \<and>
    trie_view T' = (\<lambda>k. if prefix p k then None else trie_view T k) \<and> trie_locked T' = trie_locked T \<and>
    (\<forall>j q. tp_bound T j q \<and> \<not> prefix p q \<longrightarrow> tp_bound T' j q)"
proof -
  have inv: "trie_inv T" using assms by (simp add: tp_inv_def)
  obtain b T' where T': "trie_delete_prefix T p = Some (Inr b, T')" "trie_inv T'"
    "trie_view T' = (\<lambda>k. if prefix p k then None else trie_view T k)" "trie_locked T' = trie_locked T"
    "\<forall>e'. trie_live T e' \<and> \<not> prefix p (te_key e') \<longrightarrow> trie_live T' e'"
    using trie_delete_prefix_law [OF inv assms(2,3)] by auto
  have "tp_inv T'" by (rule tp_inv_restrict [OF assms(1) T'(2)]) (auto simp: T'(3) split: if_splits)
  moreover have "\<forall>j q. tp_bound T j q \<and> \<not> prefix p q \<longrightarrow> tp_bound T' j q"
    using bound_mono [where Q = "\<lambda>q. \<not> prefix p q"] T'(5) by blast
  ultimately show ?thesis using T' by (simp add: tp_delete_prefix_def)
qed

lemma bound_data:
  assumes "tp_inv T" "tp_bound T i k" "trie_view T k = Some d"
  obtains e where "tp_handle T i off = Some e" "trie_live T e" "te_key e = k" "te_offset e = unat off" "te_data T e = Inr d"
proof -
  obtain e where e: "tp_handle T i off = Some e" "trie_live T e" "te_key e = k" "te_offset e = unat off"
    using bound_handle [OF assms(2)] by metis
  have "trie_inv T" using assms(1) by (simp add: tp_inv_def)
  then have "te_data T e = Inr d" using trie_live_data [OF _ e(2)] assms(3) e(3) by (metis option.inject)
  then show thesis using that e by blast
qed

lemma tp_write_law:
  assumes "tp_inv T" "tp_bound T i k" "trie_view T k = Some d" "unat off \<le> length d" "unat off + length buf < 2 ^ 32 - 1"
  shows "\<exists>T'. tp_write T i buf off = (of_nat (length buf), T') \<and> tp_inv T' \<and>
    trie_view T' = (trie_view T)(k \<mapsto> take (unat off) d @ buf @ drop (unat off + length buf) d) \<and>
    trie_locked T' = trie_locked T \<and> trie_room T' = trie_room T \<and> (\<forall>j q. tp_bound T j q \<longrightarrow> tp_bound T' j q)"
proof -
  have inv: "trie_inv T" "length d < 2 ^ 32 - 1" using assms(1,3) by (auto simp: tp_inv_def)
  obtain e where e: "tp_handle T i off = Some e" "trie_live T e" "te_key e = k" "te_offset e = unat off"
    using bound_data [OF assms(1-3)] by metis
  obtain e' T' where T': "te_write T e buf = Some (length buf, e', T')" "trie_inv T'"
    "trie_view T' = (trie_view T)(k \<mapsto> take (unat off) d @ buf @ drop (unat off + length buf) d)"
    "trie_locked T' = trie_locked T" "trie_room T' = trie_room T" "\<forall>e''. trie_live T e'' \<longrightarrow> trie_live T' e''"
    using trie_write_law [OF inv(1) e(2), of d buf] assms(3-5) e(3,4) by auto
  have "tp_inv T'" by (rule tp_inv_upd [OF assms(1) T'(2,3)]) (use assms(4,5) inv(2) in simp)
  moreover have "\<forall>j q. tp_bound T j q \<longrightarrow> tp_bound T' j q" using bound_mono [where Q = "\<lambda>_. True"] T'(6) by blast
  ultimately show ?thesis using T' e(1) by (simp add: tp_write_def)
qed

lemma tp_resize_law:
  assumes "tp_inv T" "tp_bound T i k" "trie_view T k = Some d" "unat m < length d"
  shows "\<exists>T'. tp_resize T i m = (1, T') \<and> tp_inv T' \<and> trie_view T' = (trie_view T)(k \<mapsto> take (unat m) d) \<and>
    trie_locked T' = trie_locked T \<and> trie_room T' = trie_room T \<and> (\<forall>j q. tp_bound T j q \<longrightarrow> tp_bound T' j q)"
proof -
  have inv: "trie_inv T" "length d < 2 ^ 32 - 1" using assms(1,3) by (auto simp: tp_inv_def)
  obtain e where e: "tp_handle T i 0 = Some e" "trie_live T e" "te_key e = k" "te_offset e = 0" "te_data T e = Inr d"
    using bound_data [OF assms(1-3), of 0] by auto
  let ?v = "take (unat m) d"
  let ?T' = "T\<lparr>cells := (cells T)(te_cell e \<mapsto> EntryExists ?v)\<rparr>"
  have v: "length ?v < 2 ^ 32" using inv(2) by simp
  note T' = cell_update [OF inv(1) e(2) v]
  have "tp_resize T i m = (1, ?T')" using e assms(4) by (simp add: tp_resize_def te_resize_def vec_resize_def)
  moreover have "tp_inv ?T'" by (rule tp_inv_upd [OF assms(1) T'(1,2)]) (use inv(2) in simp)
  moreover have "\<forall>j q. tp_bound T j q \<longrightarrow> tp_bound ?T' j q" using bound_mono [where Q = "\<lambda>_. True" and T' = ?T'] T'(5) by blast
  ultimately show ?thesis using T'(2-4) e(3) by auto
qed

lemma tp_read_law:
  assumes "tp_inv T" "tp_bound T i k" "trie_view T k = Some d" "unat off \<le> length d"
  shows "tp_read T i n off =
    (of_nat (length (take (unat n) (drop (unat off) d))), take (unat n) (drop (unat off) d))"
proof -
  have inv: "trie_inv T" using assms(1) by (simp add: tp_inv_def)
  obtain e where e: "tp_handle T i off = Some e" "trie_live T e" "te_key e = k" "te_offset e = unat off"
    using bound_data [OF assms(1-3)] by metis
  obtain e' where "te_read T e (unat n) = Some (take (unat n) (drop (unat off) d), e')"
    using trie_read_law [OF inv e(2), of d "unat n"] assms(3,4) e(3,4) by auto
  then show ?thesis using e(1) by (simp add: tp_read_def)
qed

lemma tp_size_law:
  assumes "tp_inv T" "tp_bound T i k" "trie_view T k = Some d"
  shows "tp_size T i = of_nat (length d)"
proof -
  obtain e where "tp_handle T i 0 = Some e" "te_data T e = Inr d" using bound_data [OF assms, of 0] by metis
  then show ?thesis by (simp add: tp_size_def te_size_def)
qed

lemma trie_prims_simps [simp]:
  "state_lookup_entry trie_prims = tp_lookup" "state_create_entry trie_prims = tp_create"
  "state_delete_entry trie_prims = tp_delete" "state_delete_prefix trie_prims = tp_delete_prefix"
  "state_entry_read trie_prims = tp_read" "state_entry_write trie_prims = tp_write"
  "state_entry_size trie_prims = tp_size" "state_entry_resize trie_prims = tp_resize"
  by (simp_all add: trie_prims_def)

interpretation hostt: host_prims trie_prims tp_inv trie_view trie_locked tp_bound trie_room "2 ^ 32 - 1"
proof (unfold_locales, goal_cases)
  case 1
  show ?case by simp
next
  case (2 T i k)
  then have "trie_inv T" by (simp add: tp_inv_def)
  then show ?case using 2 trie_view_None [of T k] by (auto simp: tp_bound_def)
next
  case (3 T k d)
  then show ?case by (auto simp: tp_inv_def)
next
  case (4 T)
  then show ?case using finite_trie_view by (simp add: tp_inv_def)
next
  case (5 T k)
  then show ?case using tp_lookup_law [of T k] by simp
next
  case (6 T k)
  then show ?case using tp_create_law [of T k] by simp
next
  case (7 T k)
  then show ?case by (simp add: tp_create_def trie_create_entry_def trie_locked_def Let_def)
next
  case (8 T k)
  then show ?case using tp_delete_law [of T k] by simp
next
  case (9 T p)
  then show ?case using tp_delete_prefix_law [of T p] by simp
next
  case (10 T i k d)
  then show ?case using tp_size_law by simp
next
  case (11 T i k d off n)
  then show ?case using tp_read_law by simp
next
  case (12 T i k d off buf)
  then show ?case using tp_write_law by simp
next
  case (13 T i k d m)
  then show ?case using tp_resize_law by simp
qed

section \<open>Containers of a deployed contract\<close>

text \<open>
  C18. The state map of a deployed contract, over any primitives that behave as documented: \<^verbatim>\<open>insert\<close>
  returns the value the key had, \<^verbatim>\<open>get\<close> then returns the new one and \<^verbatim>\<open>remove_and_get\<close> returns it and
  takes it out, so that the map is as it was but for that key; no step traps.
\<close>

theorem extern_state_map_spec:
  assumes "host_prims P hinv view locked bound room cap"
    and "hinv h" "4 \<le> room h" "codec_ok KC" "codec_ok VC" "map_wf KC VC p (view h)"
    and "\<not> locked h (p @ ser KC k)" "length (ser VC v) < cap"
  shows "\<exists>h1 h2 h3. state_map_insert (extern_state_api P) KC VC p h k v = Some (map_of_view KC VC p (view h) k, h1) \<and>
    map_of_view KC VC p (view h1) = (map_of_view KC VC p (view h))(k \<mapsto> v) \<and>
    state_map_get (extern_state_api P) KC VC p h1 k = Some (Some v, h2) \<and>
    state_map_remove_and_get (extern_state_api P) KC VC p h2 k = Some (Some v, h3) \<and> hinv h3 \<and>
    map_of_view KC VC p (view h3) = (map_of_view KC VC p (view h))(k := None)"
proof -
  have laws: "state_api_laws (extern_state_api P) hinv view locked (\<lambda>h e. bound h (state_entry_id e) (se_key e))
      (\<lambda>e. unat (current_position e)) room cap"
    using assms(1) by (rule host_prims.extern_laws)
  have "2 \<le> room h" using assms(3) by simp
  from state_api_laws.state_map_insert_law [OF laws assms(2) this assms(4-8)]
  obtain h1 where h1: "state_map_insert (extern_state_api P) KC VC p h k v = Some (map_of_view KC VC p (view h) k, h1)"
    "hinv h1" "view h1 = (view h)(p @ ser KC k \<mapsto> ser VC v)" "room h \<le> room h1 + 2" "locked h1 = locked h"
    by blast
  have m1: "map_of_view KC VC p (view h1) = (map_of_view KC VC p (view h))(k \<mapsto> v)"
    using map_of_view_upd [OF assms(4,5)] h1(3) by simp
  have wf1: "map_wf KC VC p (view h1)" "0 < room h1" using map_wf_upd [OF assms(6), of k v "[]"] h1 assms(3) by auto
  obtain h2 where h2: "state_map_get (extern_state_api P) KC VC p h1 k = Some (Some v, h2)" "hinv h2" "view h2 = view h1"
    "locked h2 = locked h1" "room h1 \<le> Suc (room h2)"
    using state_api_laws.state_map_get_law [OF laws h1(2) wf1(2) assms(5) wf1(1), of k] m1 by auto
  have wf2: "map_wf KC VC p (view h2)" "0 < room h2" "\<not> locked h2 (p @ ser KC k)"
    using wf1(1) h1 h2 assms(3,7) by auto
  obtain h3 where h3: "state_map_remove_and_get (extern_state_api P) KC VC p h2 k = Some (Some v, h3)" "hinv h3"
    "view h3 = (view h2)(p @ ser KC k := None)"
    using state_api_laws.state_map_remove_and_get_law [OF laws h2(2) wf2(2) assms(4,5) wf2(1,3)] m1 h2(3) by auto
  have "map_of_view KC VC p (view h3) = (map_of_view KC VC p (view h))(k := None)"
    using map_of_view_del [OF assms(4), of VC p "view h1" k] m1 h2(3) h3(3) by simp
  then show ?thesis using h1(1) m1 h2(1) h3 by auto
qed

theorem extern_state_map_spec_witness:
  "\<exists>h1 h2 h3. state_map_insert (extern_state_api trie_prims) u8_codec u8_codec [2, 0] sample_state 6 1 = Some (None, h1) \<and>
    state_map_get (extern_state_api trie_prims) u8_codec u8_codec [2, 0] h1 6 = Some (Some 1, h2) \<and>
    state_map_remove_and_get (extern_state_api trie_prims) u8_codec u8_codec [2, 0] h2 6 = Some (Some 1, h3) \<and>
    map_of_view u8_codec u8_codec [2, 0] (trie_view h3) = [5 \<mapsto> 9]"
proof -
  have inv: "tp_inv sample_state" using sample_state_simps(1) by (simp add: tp_inv_def sample_state_simps(6) split: if_splits)
  have "([5 \<mapsto> 9](6 := None) :: u8 \<rightharpoonup> u8) = [5 \<mapsto> 9]" by auto
  then show ?thesis
    using extern_state_map_spec [OF hostt.host_prims_axioms inv, of u8_codec u8_codec "[2, 0]" 6 1] sample_state_simps
    by (auto simp: u8_codec_ok)
qed

end
