(* ===== verification/Bump_Alloc.thy ===== *)
theory Bump_Alloc
  imports Prelude
begin

unbundle bit_operations_syntax

text \<open>
  The allocator of \<^verbatim>\<open>concordium-std/src/bump_alloc.rs\<close>: a pointer that moves up, back by one block when
  the last one is given back, and to the start of the heap when all are. Addresses are 32-bit, as in
  Wasm; the memory is a number of pages that grows up to a limit, if the engine grants it.
\<close>

section \<open>The allocator\<close>

definition PAGE_SIZE :: u32 where "PAGE_SIZE = 65536"
definition ERROR_PAGE_COUNT :: u32 where "ERROR_PAGE_COUNT = - 1"

definition size_in_bytes :: "u32 \<Rightarrow> u32" where "size_in_bytes pages = pages * PAGE_SIZE"

record bump_allocator =
  ba_next :: u32
  ba_heap_start :: u32
  ba_heap_end :: u32
  ba_allocations :: u32
  ba_last_alloc :: u32

record bump_memory = bump_allocator +
  ba_pages :: u32

definition bump_new :: "u32 \<Rightarrow> bump_memory" where
  "bump_new pages = \<lparr>ba_next = 0, ba_heap_start = 0, ba_heap_end = 0, ba_allocations = 0, ba_last_alloc = 0, ba_pages = pages\<rparr>"

text \<open>
  The instruction \<^verbatim>\<open>memory.grow\<close>: the previous number of pages, or the error value and no change. It fails beyond
  the limit of the memory, and the engine may refuse at any other time too: \<open>granted\<close> is its answer, which every
  call may get anew.
\<close>

definition memory_grow :: "u32 \<Rightarrow> bool \<Rightarrow> u32 \<Rightarrow> bump_memory \<Rightarrow> u32 \<times> bump_memory" where
  "memory_grow limit granted delta s =
     (if granted \<and> unat (ba_pages s) + unat delta \<le> unat limit then (ba_pages s, s\<lparr>ba_pages := ba_pages s + delta\<rparr>)
      else (ERROR_PAGE_COUNT, s))"

definition align_up :: "u32 \<Rightarrow> u32 \<Rightarrow> u32" where
  "align_up addr align = (addr + align - 1) AND NOT (align - 1)"

definition pages_to_request :: "u32 \<Rightarrow> u32" where
  "pages_to_request space_needed = drop_bit 16 space_needed + (if space_needed AND 0xFFFF \<noteq> 0 then 1 else 0)"

definition bump_hand_out :: "u32 \<Rightarrow> u32 \<Rightarrow> bump_memory \<Rightarrow> u32 \<times> bump_memory" where
  "bump_hand_out alloc_start alloc_end s =
     (alloc_start, s\<lparr>ba_allocations := ba_allocations s + 1, ba_last_alloc := alloc_start, ba_next := alloc_end\<rparr>)"

text \<open>\<^verbatim>\<open>alloc\<close>: the address, zero when there is no memory left, for a size and an alignment.\<close>

definition bump_alloc :: "u32 \<Rightarrow> bool \<Rightarrow> u32 \<Rightarrow> u32 \<Rightarrow> u32 \<Rightarrow> bump_memory \<Rightarrow> u32 \<times> bump_memory" where
  "bump_alloc limit granted heap_base sz align s =
     (let s = (if ba_heap_end s = 0
               then s\<lparr>ba_next := heap_base, ba_heap_start := heap_base, ba_last_alloc := heap_base,
                      ba_heap_end := size_in_bytes (ba_pages s)\<rparr>
               else s);
          alloc_start = align_up (ba_next s) align;
          alloc_end = alloc_start + sz
      in if unat alloc_start + unat sz \<ge> 2 ^ 32 then (0, s)
         else if alloc_end > ba_heap_end s then
           (let space_needed = alloc_end - ba_heap_end s;
                pages = pages_to_request space_needed;
                (previous_page_count, s) = memory_grow limit granted pages s
            in if previous_page_count = ERROR_PAGE_COUNT then (0, s)
               else bump_hand_out alloc_start alloc_end (s\<lparr>ba_heap_end := ba_heap_end s + size_in_bytes pages\<rparr>))
         else bump_hand_out alloc_start alloc_end s)"

definition bump_dealloc :: "u32 \<Rightarrow> bump_memory \<Rightarrow> bump_memory" where
  "bump_dealloc ptr s =
     (let s = s\<lparr>ba_allocations := ba_allocations s - 1\<rparr> in
      if ba_allocations s = 0 then s\<lparr>ba_next := ba_heap_start s, ba_last_alloc := ba_heap_start s\<rparr>
      else if ba_last_alloc s = ptr then s\<lparr>ba_next := ba_last_alloc s\<rparr>
      else s)"

section \<open>Addresses\<close>

lemma unat_add_32: "unat (x :: u32) + unat y < 2 ^ 32 \<Longrightarrow> unat (x + y) = unat x + unat y"
  by (simp add: unat_word_ariths)

lemma and_not_mask: "x AND NOT (mask k) = push_bit k (drop_bit k (x :: u32))"
  by (rule bit_word_eqI) (auto simp: bit_simps)

lemma unat_push_drop: "unat (push_bit k (drop_bit k (x :: u32))) = unat x div 2 ^ k * 2 ^ k"
proof -
  have lt: "unat x div 2 ^ k * 2 ^ k < 2 ^ 32"
    using unsigned_less [of x, where ?'a = nat] div_times_less_eq_dividend [of "unat x" "2 ^ k"] by (simp del: div_times_less_eq_dividend)
  have "unat (push_bit k (drop_bit k x)) = take_bit 32 (push_bit k (unat x div 2 ^ k))"
    by (simp only: unsigned_push_bit_eq unat_drop_bit) simp
  then show ?thesis using lt by (simp add: take_bit_eq_mod push_bit_eq_mult)
qed

lemma align_up_nat:
  assumes "k < 32" "unat addr + 2 ^ k \<le> 2 ^ 32"
  shows "unat (align_up addr (2 ^ k)) = (unat addr + (2 ^ k - 1)) div 2 ^ k * 2 ^ k"
proof -
  have m: "(2 ^ k - 1 :: u32) = mask k" by (simp add: mask_eq_exp_minus_1)
  have um: "unat (mask k :: u32) = 2 ^ k - 1"
  proof -
    have "unat (mask k :: u32) = mask k" using assms(1) by (simp add: unat_eq_nat_uint uint_mask_eq min_def nat_mask_eq)
    then show ?thesis by (simp add: mask_eq_exp_minus_1)
  qed
  have "align_up addr (2 ^ k) = (addr + mask k) AND NOT (mask k)"
    unfolding align_up_def m [symmetric] by (simp add: algebra_simps)
  moreover have "unat (addr + mask k) = unat addr + (2 ^ k - 1)"
  proof -
    have "unat addr + unat (mask k :: u32) < 2 ^ 32" unfolding um using assms(2) zero_less_power [of "2 :: nat" k] by linarith
    from unat_add_32 [OF this] show ?thesis unfolding um .
  qed
  ultimately show ?thesis by (simp only: and_not_mask unat_push_drop)
qed

lemma align_up_ge:
  assumes "k < 32" "unat addr + 2 ^ k \<le> 2 ^ 32"
  shows "unat addr \<le> unat (align_up addr (2 ^ k))" "2 ^ k dvd unat (align_up addr (2 ^ k))"
proof -
  let ?n = "(unat addr + (2 ^ k - 1)) div 2 ^ k"
  have "unat addr + (2 ^ k - 1) = ?n * 2 ^ k + (unat addr + (2 ^ k - 1)) mod 2 ^ k" by (simp only: div_mult_mod_eq)
  moreover have "(unat addr + (2 ^ k - 1)) mod 2 ^ k \<le> 2 ^ k - 1" by (simp add: less_Suc_eq_le [symmetric])
  ultimately show "unat addr \<le> unat (align_up addr (2 ^ k))" unfolding align_up_nat [OF assms] by linarith
  show "2 ^ k dvd unat (align_up addr (2 ^ k))" unfolding align_up_nat [OF assms] by simp
qed

lemma pages_to_request_enough:
  "unat n \<le> unat (pages_to_request n) * 65536" "unat (pages_to_request n) \<le> 65536"
proof -
  have d: "unat (drop_bit 16 n) = unat n div 65536" by (simp add: unat_drop_bit)
  have "(0xFFFF :: u32) = mask 16" by (simp add: mask_eq_exp_minus_1)
  then have "unat (n AND 0xFFFF) = take_bit 16 (unat n)" by (simp only: take_bit_eq_mask [symmetric] unsigned_take_bit_eq)
  then have m: "n AND 0xFFFF = 0 \<longleftrightarrow> unat n mod 65536 = 0" by (simp add: take_bit_eq_mod unat_eq_zero [symmetric])
  have lt: "unat n div 65536 < 65536" using unsigned_less [of n, where ?'a = nat] by auto
  have "unat (pages_to_request n) = unat n div 65536 + (if unat n mod 65536 = 0 then 0 else 1)"
  proof (cases "unat n mod 65536 = 0")
    case False
    have "unat (drop_bit 16 n + 1) = unat n div 65536 + 1" using lt d unat_add_32 [of "drop_bit 16 n" 1] by simp
    then show ?thesis using False m by (simp add: pages_to_request_def)
  qed (simp add: pages_to_request_def m d)
  then show "unat n \<le> unat (pages_to_request n) * 65536" "unat (pages_to_request n) \<le> 65536" using lt by auto
qed

section \<open>Runs of the allocator\<close>

text \<open>
  A block is an address and a size. The blocks in use are listed with the newest first, which is by
  falling addresses. A program asks for blocks of positive size at an alignment that is a power of two,
  and gives back blocks in use. The memory is below the end of the address space by at least the
  alignment, and the heap starts above address zero.
\<close>

type_synonym block = "u32 \<times> u32"

inductive bump_run :: "u32 \<Rightarrow> u32 \<Rightarrow> u32 \<Rightarrow> bump_memory \<Rightarrow> block list \<Rightarrow> bool"
    for limit :: u32 and heap_base :: u32 and pages :: u32 where
  new: "bump_run limit heap_base pages (bump_new pages) []"
| alloc: "bump_run limit heap_base pages s L \<Longrightarrow> 0 < sz \<Longrightarrow> k < 32 \<Longrightarrow> unat limit * 65536 + 2 ^ k \<le> 2 ^ 32 \<Longrightarrow>
    bump_alloc limit granted heap_base sz (2 ^ k) s = (p, s') \<Longrightarrow> p \<noteq> 0 \<Longrightarrow> bump_run limit heap_base pages s' ((p, sz) # L)"
| alloc_fail: "bump_run limit heap_base pages s L \<Longrightarrow> 0 < sz \<Longrightarrow> k < 32 \<Longrightarrow> unat limit * 65536 + 2 ^ k \<le> 2 ^ 32 \<Longrightarrow>
    bump_alloc limit granted heap_base sz (2 ^ k) s = (0, s') \<Longrightarrow> bump_run limit heap_base pages s' L"
| dealloc: "bump_run limit heap_base pages s L \<Longrightarrow> (p, n) \<in> set L \<Longrightarrow>
    bump_run limit heap_base pages (bump_dealloc p s) (remove1 (p, n) L)"

definition below :: "block \<Rightarrow> block \<Rightarrow> bool" where
  "below x y \<longleftrightarrow> unat (fst y) + unat (snd y) \<le> unat (fst x)"

definition block_ok :: "u32 \<Rightarrow> bump_memory \<Rightarrow> block \<Rightarrow> bool" where
  "block_ok heap_base s b \<longleftrightarrow> 0 < snd b \<and> heap_base \<le> fst b \<and> unat (fst b) + unat (snd b) \<le> unat (ba_next s) \<and>
     (fst b = ba_last_alloc s \<or> unat (fst b) + unat (snd b) \<le> unat (ba_last_alloc s))"

definition bump_inv :: "u32 \<Rightarrow> u32 \<Rightarrow> bump_memory \<Rightarrow> block list \<Rightarrow> bool" where
  "bump_inv limit heap_base s L \<longleftrightarrow>
     ba_pages s \<le> limit \<and> unat heap_base \<le> unat (ba_pages s) * 65536 \<and>
     (if ba_heap_end s = 0 then L = [] \<and> ba_allocations s = 0
      else ba_heap_start s = heap_base \<and> heap_base \<le> ba_last_alloc s \<and> ba_last_alloc s \<le> ba_next s \<and>
        ba_next s \<le> ba_heap_end s \<and> unat (ba_heap_end s) = unat (ba_pages s) * 65536 \<and>
        ba_allocations s = of_nat (length L) \<and> sorted_wrt below L \<and> (\<forall>b \<in> set L. block_ok heap_base s b))"

lemma few_blocks:
  "sorted_wrt below L \<Longrightarrow> \<forall>b \<in> set L. 0 < snd b \<and> unat (fst b) + unat (snd b) \<le> n \<Longrightarrow> length L \<le> n"
proof (induction L arbitrary: n)
  case (Cons x L)
  have "length L \<le> unat (fst x)" using Cons.prems by (intro Cons.IH) (auto simp: below_def)
  moreover have "0 < unat (snd x)" "unat (fst x) + unat (snd x) \<le> n" using Cons.prems(2) unat_gt_0 by (auto simp: word_neq_0_conv)
  ultimately show ?case by simp
qed simp

lemma sorted_below_distinct: "sorted_wrt below L \<Longrightarrow> \<forall>b \<in> set L. 0 < snd b \<Longrightarrow> distinct (map fst L)"
proof (induction L)
  case (Cons x L)
  have "fst y \<noteq> fst x" if "y \<in> set L" for y
  proof -
    have "0 < unat (snd y)" "unat (fst y) + unat (snd y) \<le> unat (fst x)"
      using Cons.prems that unat_gt_0 by (auto simp: below_def word_neq_0_conv)
    then show ?thesis by auto
  qed
  then have "fst x \<notin> fst ` set L" by (metis imageE)
  then show ?case using Cons by simp
qed simp

lemma sorted_wrt_remove1: "sorted_wrt R xs \<Longrightarrow> sorted_wrt R (remove1 x xs)"
  by (induction xs) (auto dest: notin_set_remove1)

definition bump_start :: "u32 \<Rightarrow> bump_memory \<Rightarrow> bump_memory" where
  "bump_start heap_base s = (if ba_heap_end s = 0
     then s\<lparr>ba_next := heap_base, ba_heap_start := heap_base, ba_last_alloc := heap_base, ba_heap_end := size_in_bytes (ba_pages s)\<rparr>
     else s)"

lemma size_in_bytes_nat: "unat pages < 65536 \<Longrightarrow> unat (size_in_bytes pages) = unat pages * 65536"
  by (simp add: size_in_bytes_def PAGE_SIZE_def unat_word_ariths)

lemma bump_start_inv:
  assumes "bump_inv limit heap_base s L" "unat limit < 65536" "0 < heap_base"
  shows "bump_inv limit heap_base (bump_start heap_base s) L \<and> ba_heap_end (bump_start heap_base s) \<noteq> 0 \<and>
    ba_pages (bump_start heap_base s) = ba_pages s"
proof (cases "ba_heap_end s = 0")
  case True
  have p: "unat (ba_pages s) < 65536" using assms(1,2) by (auto simp: bump_inv_def word_le_nat_alt)
  then have e: "unat (size_in_bytes (ba_pages s)) = unat (ba_pages s) * 65536" by (rule size_in_bytes_nat)
  have "0 < unat heap_base" using assms(3) unat_gt_0 by (auto simp: word_neq_0_conv)
  then have "size_in_bytes (ba_pages s) \<noteq> 0" "heap_base \<le> size_in_bytes (ba_pages s)"
    using assms(1) e by (auto simp: bump_inv_def word_le_nat_alt unat_eq_zero [symmetric] split: if_splits)
  then show ?thesis using assms(1) e True by (simp add: bump_inv_def bump_start_def)
qed (use assms in \<open>simp add: bump_start_def\<close>)

lemma hand_out_inv:
  assumes "bump_inv limit heap_base s L" "ba_heap_end s \<noteq> 0" "0 < sz"
    and "unat (ba_next s) \<le> unat p" "unat e = unat p + unat sz" "e \<le> ba_heap_end s"
  shows "bump_inv limit heap_base (snd (bump_hand_out p e s)) ((p, sz) # L)"
proof -
  have old: "block_ok heap_base s b" if "b \<in> set L" for b using assms(1,2) that by (auto simp: bump_inv_def)
  have "block_ok heap_base (snd (bump_hand_out p e s)) b \<and> below (p, sz) b" if "b \<in> set L" for b
    using old [OF that] assms(4,5) by (auto simp: block_ok_def below_def bump_hand_out_def)
  moreover have "block_ok heap_base (snd (bump_hand_out p e s)) (p, sz)"
    using assms by (auto simp: bump_inv_def block_ok_def bump_hand_out_def word_le_nat_alt)
  ultimately show ?thesis using assms
    by (auto simp: bump_inv_def bump_hand_out_def word_le_nat_alt)
qed

lemma grow_inv:
  assumes "bump_inv limit heap_base s L" "ba_heap_end s \<noteq> 0" "unat limit < 65536"
    and "memory_grow limit granted pg s = (r, s')" "r \<noteq> ERROR_PAGE_COUNT"
  defines "s1 \<equiv> s'\<lparr>ba_heap_end := ba_heap_end s' + size_in_bytes pg\<rparr>"
  shows "bump_inv limit heap_base s1 L \<and> ba_heap_end s1 \<noteq> 0 \<and> ba_next s1 = ba_next s \<and>
    unat (ba_heap_end s1) = unat (ba_heap_end s) + unat pg * 65536"
proof -
  have s': "s' = s\<lparr>ba_pages := ba_pages s + pg\<rparr>" "unat (ba_pages s) + unat pg \<le> unat limit"
    using assms(4,5) by (auto simp: memory_grow_def split: if_splits)
  have pg: "unat (ba_pages s + pg) = unat (ba_pages s) + unat pg" using s'(2) assms(3) by (intro unat_add_32) simp
  have sb: "unat (size_in_bytes pg) = unat pg * 65536" using s'(2) assms(3) by (intro size_in_bytes_nat) simp
  have he: "unat (ba_heap_end s) = unat (ba_pages s) * 65536" using assms(1,2) by (auto simp: bump_inv_def)
  have end': "unat (ba_heap_end s + size_in_bytes pg) = unat (ba_heap_end s) + unat pg * 65536"
    using s'(2) assms(3) sb he unat_add_32 [of "ba_heap_end s" "size_in_bytes pg"] by simp
  have "0 < unat (ba_heap_end s)" using assms(2) unat_gt_0 by (auto simp: word_neq_0_conv)
  then have "ba_heap_end s + size_in_bytes pg \<noteq> 0" using end' by (auto simp: unat_eq_zero [symmetric] simp del: unat_eq_zero)
  then show ?thesis using assms(1,2) s' pg end' he
    by (auto simp: bump_inv_def s1_def word_le_nat_alt block_ok_def)
qed

lemma bump_alloc_eq:
  "bump_alloc limit granted heap_base sz align s =
     (let s = bump_start heap_base s; p = align_up (ba_next s) align; e = p + sz in
      if unat p + unat sz \<ge> 2 ^ 32 then (0, s)
      else if e > ba_heap_end s then
        (let pg = pages_to_request (e - ba_heap_end s); (r, s) = memory_grow limit granted pg s in
         if r = ERROR_PAGE_COUNT then (0, s)
         else bump_hand_out p e (s\<lparr>ba_heap_end := ba_heap_end s + size_in_bytes pg\<rparr>))
      else bump_hand_out p e s)"
  by (simp only: bump_alloc_def bump_start_def Let_def)

text \<open>An allocation keeps the invariant, and a block it returns is aligned.\<close>

lemma bump_alloc_inv:
  assumes inv: "bump_inv limit heap_base s L" and limit: "unat limit < 65536" "0 < heap_base" and "0 < sz" "k < 32"
    and bound: "unat limit * 65536 + 2 ^ k \<le> 2 ^ 32" and run: "bump_alloc limit granted heap_base sz (2 ^ k) s = (p, s')"
  shows "(if p = 0 then bump_inv limit heap_base s' L else bump_inv limit heap_base s' ((p, sz) # L)) \<and> 2 ^ k dvd unat p"
proof -
  define s0 where "s0 = bump_start heap_base s"
  have s0: "bump_inv limit heap_base s0 L" "ba_heap_end s0 \<noteq> 0" using bump_start_inv [OF inv limit] by (simp_all add: s0_def)
  define a where "a = align_up (ba_next s0) (2 ^ k)"
  have "unat (ba_next s0) \<le> unat limit * 65536" "0 < unat (ba_next s0)"
    using s0 limit(2) unat_gt_0 [of heap_base] by (auto simp: bump_inv_def word_le_nat_alt word_neq_0_conv)
  then have a: "unat (ba_next s0) \<le> unat a" "2 ^ k dvd unat a" "a \<noteq> 0"
    using align_up_ge [OF \<open>k < 32\<close>, of "ba_next s0"] bound by (auto simp: a_def)
  have run: "(if unat a + unat sz \<ge> 2 ^ 32 then (0, s0)
      else if a + sz > ba_heap_end s0 then
        (let pg = pages_to_request (a + sz - ba_heap_end s0); (r, s) = memory_grow limit granted pg s0 in
         if r = ERROR_PAGE_COUNT then (0, s)
         else bump_hand_out a (a + sz) (s\<lparr>ba_heap_end := ba_heap_end s + size_in_bytes pg\<rparr>))
      else bump_hand_out a (a + sz) s0) = (p, s')"
    using run unfolding bump_alloc_eq Let_def s0_def a_def .
  consider "unat a + unat sz \<ge> 2 ^ 32" | "unat a + unat sz < 2 ^ 32" "a + sz \<le> ba_heap_end s0"
    | "unat a + unat sz < 2 ^ 32" "a + sz > ba_heap_end s0" by (meson not_le)
  then show ?thesis
  proof cases
    case 1
    then show ?thesis using run s0(1) by auto
  next
    case 2
    then have "bump_hand_out a (a + sz) s0 = (p, s')" using run by (simp add: leD)
    then show ?thesis
      using hand_out_inv [OF s0 \<open>0 < sz\<close> a(1) unat_add_32 [OF 2(1)] 2(2)] a by (auto simp: bump_hand_out_def)
  next
    case 3
    define pg where "pg = pages_to_request (a + sz - ba_heap_end s0)"
    obtain r s1 where g: "memory_grow limit granted pg s0 = (r, s1)" by force
    show ?thesis
    proof (cases "r = ERROR_PAGE_COUNT")
      case True
      then have "p = 0" "s' = s1" using run 3 g by (auto simp: Let_def pg_def)
      moreover have "bump_inv limit heap_base s1 L"
      proof -
        have "ba_pages s0 \<noteq> ERROR_PAGE_COUNT"
        proof
          assume "ba_pages s0 = ERROR_PAGE_COUNT"
          then have "unat (- 1 :: u32) < 65536"
            using s0(1) limit(1) by (auto simp: bump_inv_def ERROR_PAGE_COUNT_def word_le_nat_alt)
          then show False by (simp add: unsigned_minus_1_eq_mask mask_eq_exp_minus_1)
        qed
        then show ?thesis using g True s0(1) by (auto simp: memory_grow_def split: if_splits)
      qed
      ultimately show ?thesis by simp
    next
      case False
      define s2 where "s2 = s1\<lparr>ba_heap_end := ba_heap_end s1 + size_in_bytes pg\<rparr>"
      have out: "bump_hand_out a (a + sz) s2 = (p, s')" using run 3 g False by (auto simp: Let_def pg_def s2_def)
      have s2: "bump_inv limit heap_base s2 L" "ba_heap_end s2 \<noteq> 0" "ba_next s2 = ba_next s0"
        "unat (ba_heap_end s2) = unat (ba_heap_end s0) + unat pg * 65536"
        using grow_inv [OF s0 limit(1) g False] by (simp_all add: s2_def)
      have "unat (a + sz - ba_heap_end s0) = unat (a + sz) - unat (ba_heap_end s0)" using 3(2) by (intro unat_sub) simp
      then have "a + sz \<le> ba_heap_end s2"
        using pages_to_request_enough(1) [of "a + sz - ba_heap_end s0"] s2(4) by (simp add: pg_def word_le_nat_alt)
      then show ?thesis
        using hand_out_inv [OF s2(1,2) \<open>0 < sz\<close> _ unat_add_32 [OF 3(1)]] a out s2(3) by (auto simp: bump_hand_out_def)
    qed
  qed
qed

lemma bump_dealloc_inv:
  assumes inv: "bump_inv limit heap_base s L" and mem: "(p, n) \<in> set L"
  shows "bump_inv limit heap_base (bump_dealloc p s) (remove1 (p, n) L)"
proof -
  have e: "ba_heap_end s \<noteq> 0" using inv mem by (auto simp: bump_inv_def)
  have I: "ba_allocations s = of_nat (length L)" "sorted_wrt below L" "\<forall>b \<in> set L. block_ok heap_base s b"
    using inv e by (auto simp: bump_inv_def)
  have "length L \<le> unat (ba_next s)" using I(2,3) by (intro few_blocks) (auto simp: block_ok_def)
  then have len: "length L < 4294967296" using unsigned_less [of "ba_next s", where ?'a = nat] by simp
  have pos: "0 < length L" using mem by (cases L) auto
  have count: "ba_allocations s - 1 = of_nat (length (remove1 (p, n) L))"
  proof -
    obtain m where "length L = Suc m" using pos by (cases "length L") auto
    then show ?thesis using I(1) mem by (simp add: length_remove1)
  qed
  have zero: "ba_allocations s - 1 = 0 \<longleftrightarrow> remove1 (p, n) L = []"
  proof -
    have "length (remove1 (p, n) L) \<le> length L" by (simp add: length_remove1)
    then have "unat (of_nat (length (remove1 (p, n) L)) :: u32) = length (remove1 (p, n) L)"
      using len by (intro unat_of_nat_32) linarith
    then show ?thesis unfolding count unat_eq_zero [symmetric] by simp
  qed
  have distinct: "distinct (map fst L)" using I by (intro sorted_below_distinct) (auto simp: block_ok_def)
  have other: "fst b \<noteq> p" if "b \<in> set (remove1 (p, n) L)" for b
  proof
    assume "fst b = p"
    moreover have "b \<in> set L" "b \<noteq> (p, n)" using that distinct by (auto dest: notin_set_remove1 simp: distinct_map)
    ultimately show False using distinct mem by (auto simp: distinct_map inj_on_def)
  qed
  have blocks: "block_ok heap_base s b" if "b \<in> set (remove1 (p, n) L)" for b
    using I(3) that by (auto dest: notin_set_remove1)
  show ?thesis
  proof (cases "ba_allocations s - 1 = 0")
    case True
    then show ?thesis using inv e zero count by (auto simp: bump_inv_def bump_dealloc_def Let_def)
  next
    case False
    have sorted: "sorted_wrt below (remove1 (p, n) L)" using I(2) by (rule sorted_wrt_remove1)
    have "block_ok heap_base (bump_dealloc p s) b" if "b \<in> set (remove1 (p, n) L)" for b
      using blocks [OF that] other [OF that] False by (auto simp: block_ok_def bump_dealloc_def Let_def)
    then show ?thesis using inv e False count sorted by (auto simp: bump_inv_def bump_dealloc_def Let_def)
  qed
qed

lemma bump_run_inv:
  assumes "bump_run limit heap_base pages s L" "unat limit < 65536" "0 < heap_base" "pages \<le> limit"
    and "unat heap_base \<le> unat pages * 65536"
  shows "bump_inv limit heap_base s L"
  using assms(1)
proof (induction rule: bump_run.induct)
  case new
  then show ?case using assms by (simp add: bump_inv_def bump_new_def)
next
  case (alloc s L sz k granted p s')
  then show ?case using bump_alloc_inv [OF alloc.IH assms(2,3) alloc.hyps(2-5)] by simp
next
  case (alloc_fail s L sz k granted s')
  then show ?case using bump_alloc_inv [OF alloc_fail.IH assms(2,3) alloc_fail.hyps(2-5)] by simp
next
  case (dealloc s L p n)
  then show ?case using bump_dealloc_inv by blast
qed

section \<open>Properties\<close>

text \<open>
  C39. In every run of the allocator, whatever is allocated and given back in whatever order and whenever the engine
  refuses to grow the memory, the block a
  successful allocation returns is aligned as asked, lies between the start of the heap and the end of
  the memory, and shares no address with any block in use; the blocks in use are pairwise disjoint.
\<close>

theorem bump_alloc_safe:
  assumes "bump_run limit heap_base pages s L" "unat limit < 65536" "0 < heap_base" "pages \<le> limit"
    and "unat heap_base \<le> unat pages * 65536"
    and "0 < sz" "k < 32" "unat limit * 65536 + 2 ^ k \<le> 2 ^ 32"
    and "bump_alloc limit granted heap_base sz (2 ^ k) s = (p, s')" "p \<noteq> 0"
  shows "2 ^ k dvd unat p \<and> heap_base \<le> p \<and> unat p + unat sz \<le> unat (ba_pages s') * 65536 \<and>
    (\<forall>(q, n) \<in> set L. {unat p..<unat p + unat sz} \<inter> {unat q..<unat q + unat n} = {}) \<and>
    (\<forall>i j. i < j \<longrightarrow> j < length L \<longrightarrow>
       {unat (fst (L ! i))..<unat (fst (L ! i)) + unat (snd (L ! i))} \<inter>
       {unat (fst (L ! j))..<unat (fst (L ! j)) + unat (snd (L ! j))} = {})"
proof -
  have inv: "bump_inv limit heap_base s L" by (rule bump_run_inv [OF assms(1-5)])
  have new: "bump_inv limit heap_base s' ((p, sz) # L)" "2 ^ k dvd unat p"
    using bump_alloc_inv [OF inv assms(2,3,6-9)] assms(10) by auto
  then have e: "ba_heap_end s' \<noteq> 0" by (auto simp: bump_inv_def)
  then have s': "sorted_wrt below ((p, sz) # L)" "block_ok heap_base s' (p, sz)" "ba_next s' \<le> ba_heap_end s'"
    "unat (ba_heap_end s') = unat (ba_pages s') * 65536"
    using new(1) by (auto simp: bump_inv_def)
  have "\<forall>(q, n) \<in> set L. {unat p..<unat p + unat sz} \<inter> {unat q..<unat q + unat n} = {}"
    using s'(1) by (fastforce simp: below_def)
  moreover have "sorted_wrt below L" using s'(1) by simp
  then have "below (L ! i) (L ! j)" if "i < j" "j < length L" for i j
    using that by (rule sorted_wrt_nth_less)
  then have "{unat (fst (L ! i))..<unat (fst (L ! i)) + unat (snd (L ! i))} \<inter>
      {unat (fst (L ! j))..<unat (fst (L ! j)) + unat (snd (L ! j))} = {}" if "i < j" "j < length L" for i j
    using that by (fastforce simp: below_def)
  moreover have "heap_base \<le> p" "unat p + unat sz \<le> unat (ba_pages s') * 65536"
    using s'(2-4) by (auto simp: block_ok_def word_le_nat_alt)
  ultimately show ?thesis using new(2) by blast
qed

text \<open>A memory of one page whose heap starts at address 16, with a block of 20 bytes in use.\<close>

definition sample_memory :: bump_memory where
  "sample_memory = snd (bump_alloc 4 True 16 20 1 (bump_new 1))"

lemmas bump_alloc_eval = bump_alloc_def bump_new_def size_in_bytes_def PAGE_SIZE_def align_up_def bump_hand_out_def

lemma sample_memory_run: "bump_run 4 16 1 sample_memory [(16, 20)]"
proof -
  have "bump_alloc 4 True 16 20 (2 ^ 0) (bump_new 1) = (16, sample_memory)"
    by (simp add: sample_memory_def bump_alloc_eval)
  from bump_run.alloc [OF bump_run.new _ _ _ this] show ?thesis by simp
qed

theorem bump_alloc_safe_witness: "\<exists>s'. bump_alloc 4 True 16 4 (2 ^ 3) sample_memory = (40, s') \<and> 2 ^ 3 dvd unat (40 :: u32) \<and>
  {unat (40 :: u32)..<unat (40 :: u32) + unat (4 :: u32)} \<inter> {unat (16 :: u32)..<unat (16 :: u32) + unat (20 :: u32)} = {}"
proof -
  obtain s' where s': "bump_alloc 4 True 16 4 (2 ^ 3) sample_memory = (40, s')"
    by (simp add: sample_memory_def bump_alloc_eval)
  show ?thesis using bump_alloc_safe [OF sample_memory_run _ _ _ _ _ _ _ s'] s' by auto
qed

end
