(* ===== verification/Host_Codes.thy ===== *)
theory Host_Codes
  imports Prelude
begin

unbundle bit_operations_syntax

text \<open>
  The numeric codes between a contract and its host: the reject codes of
  \<^verbatim>\<open>concordium-std/src/impls.rs\<close> and \<^verbatim>\<open>types.rs\<close>, and the decoding of the response codes of
  \<^verbatim>\<open>prims::invoke\<close> and \<^verbatim>\<open>prims::upgrade\<close>.
\<close>

section \<open>Reject codes\<close>

type_synonym i32 = "32 word"

datatype log_error = Full | MalformedLog
datatype new_contract_name_error = MissingInitPrefix | ContractNameTooLong | ContainsDot | ContractNameInvalidCharacters
datatype new_receive_name_error = MissingDotSeparator | ReceiveNameTooLong | ReceiveNameInvalidCharacters
datatype transfer_error = AmountTooLarge | MissingAccount
datatype 'r call_contract_error =
    CallAmountTooLarge | CallMissingAccount | CallMissingContract | CallMissingEntrypoint | MessageFailed
  | LogicReject (reject_reason: i32) (reject_value: 'r) | Trap
datatype upgrade_error = MissingModule | MissingContract | UnsupportedModuleVersion

text \<open>A reject: the error code and an optional return value.\<close>

record reject =
  rj_error_code :: i32
  rj_return_value :: "bytes option"

definition I32_MIN :: i32 where
  "I32_MIN = - (2 ^ 31)"

definition reject_from_code :: "i32 \<Rightarrow> reject" where
  "reject_from_code c = \<lparr>rj_error_code = c, rj_return_value = None\<rparr>"

definition reject_default :: reject where
  "reject_default = \<lparr>rj_error_code = I32_MIN, rj_return_value = None\<rparr>"

definition reject_new :: "i32 \<Rightarrow> reject option" where
  "reject_new x = (if sint x < 0 then Some \<lparr>rj_error_code = x, rj_return_value = None\<rparr> else None)"

definition reject_from_unit :: reject where
  "reject_from_unit = reject_from_code (I32_MIN + 1)"

definition reject_from_parse_error :: reject where
  "reject_from_parse_error = reject_from_code (I32_MIN + 2)"

definition reject_from_log_error :: "log_error \<Rightarrow> reject" where
  "reject_from_log_error le = (case le of
      Full \<Rightarrow> reject_from_code (I32_MIN + 3)
    | MalformedLog \<Rightarrow> reject_from_code (I32_MIN + 4))"

definition reject_from_new_contract_name_error :: "new_contract_name_error \<Rightarrow> reject" where
  "reject_from_new_contract_name_error nre = (case nre of
      MissingInitPrefix \<Rightarrow> reject_from_code (I32_MIN + 5)
    | ContractNameTooLong \<Rightarrow> reject_from_code (I32_MIN + 6)
    | ContainsDot \<Rightarrow> reject_from_code (I32_MIN + 9)
    | ContractNameInvalidCharacters \<Rightarrow> reject_from_code (I32_MIN + 10))"

definition reject_from_new_receive_name_error :: "new_receive_name_error \<Rightarrow> reject" where
  "reject_from_new_receive_name_error nre = (case nre of
      MissingDotSeparator \<Rightarrow> reject_from_code (I32_MIN + 7)
    | ReceiveNameTooLong \<Rightarrow> reject_from_code (I32_MIN + 8)
    | ReceiveNameInvalidCharacters \<Rightarrow> reject_from_code (I32_MIN + 11))"

definition reject_from_not_payable :: reject where
  "reject_from_not_payable = reject_from_code (I32_MIN + 12)"

definition reject_from_transfer_error :: "transfer_error \<Rightarrow> reject" where
  "reject_from_transfer_error te = (case te of
      AmountTooLarge \<Rightarrow> reject_from_code (I32_MIN + 13)
    | MissingAccount \<Rightarrow> reject_from_code (I32_MIN + 14))"

definition reject_from_call_contract_error :: "'r call_contract_error \<Rightarrow> reject" where
  "reject_from_call_contract_error cce = (case cce of
      CallAmountTooLarge \<Rightarrow> reject_from_code (I32_MIN + 15)
    | CallMissingAccount \<Rightarrow> reject_from_code (I32_MIN + 16)
    | CallMissingContract \<Rightarrow> reject_from_code (I32_MIN + 17)
    | CallMissingEntrypoint \<Rightarrow> reject_from_code (I32_MIN + 18)
    | MessageFailed \<Rightarrow> reject_from_code (I32_MIN + 19)
    | LogicReject _ _ \<Rightarrow> reject_from_code (I32_MIN + 20)
    | Trap \<Rightarrow> reject_from_code (I32_MIN + 21))"

definition reject_from_upgrade_error :: "upgrade_error \<Rightarrow> reject" where
  "reject_from_upgrade_error te = (case te of
      MissingModule \<Rightarrow> reject_from_code (I32_MIN + 22)
    | MissingContract \<Rightarrow> reject_from_code (I32_MIN + 23)
    | UnsupportedModuleVersion \<Rightarrow> reject_from_code (I32_MIN + 24))"

definition reject_from_query_account_balance_error :: reject where
  "reject_from_query_account_balance_error = reject_from_code (I32_MIN + 25)"

definition reject_from_query_contract_balance_error :: reject where
  "reject_from_query_contract_balance_error = reject_from_code (I32_MIN + 26)"

text \<open>The errors the library itself turns into a reject, as one type.\<close>

datatype 'r library_error =
    UnitError | ParseError | LogError log_error | NewContractNameError new_contract_name_error
  | NewReceiveNameError new_receive_name_error | NotPayableError | TransferError transfer_error
  | CallContractError "'r call_contract_error" | UpgradeError upgrade_error
  | QueryAccountBalanceError | QueryContractBalanceError

definition reject_of :: "'r library_error \<Rightarrow> reject" where
  "reject_of e = (case e of
      UnitError \<Rightarrow> reject_from_unit
    | ParseError \<Rightarrow> reject_from_parse_error
    | LogError le \<Rightarrow> reject_from_log_error le
    | NewContractNameError n \<Rightarrow> reject_from_new_contract_name_error n
    | NewReceiveNameError n \<Rightarrow> reject_from_new_receive_name_error n
    | NotPayableError \<Rightarrow> reject_from_not_payable
    | TransferError t \<Rightarrow> reject_from_transfer_error t
    | CallContractError c \<Rightarrow> reject_from_call_contract_error c
    | UpgradeError u \<Rightarrow> reject_from_upgrade_error u
    | QueryAccountBalanceError \<Rightarrow> reject_from_query_account_balance_error
    | QueryContractBalanceError \<Rightarrow> reject_from_query_contract_balance_error)"

section \<open>Response codes\<close>

text \<open>
  What a decoder does: it returns, it traps (\<^verbatim>\<open>crate::trap\<close>), or it reaches
  \<^verbatim>\<open>unreachable_unchecked\<close>, after which nothing is guaranteed.
\<close>

datatype 'a outcome = Returns 'a | Traps | Undefined

definition get_invoke_failure_code :: "u64 \<Rightarrow> u8 option" where
  "get_invoke_failure_code code =
     (if code AND 0xffffffffff = 0 then None
      else Some (ucast (drop_bit 32 (code AND 0xff00000000))))"

definition parse_transfer_response_code :: "u64 \<Rightarrow> (transfer_error + unit) outcome" where
  "parse_transfer_response_code code =
     (case get_invoke_failure_code code of
        Some error_code \<Rightarrow>
          if error_code = 1 then Returns (Inl AmountTooLarge)
          else if error_code = 2 then Returns (Inl MissingAccount)
          else Traps
      | None \<Rightarrow> Returns (Inr ()))"

definition parse_upgrade_response_code :: "u64 \<Rightarrow> (upgrade_error + unit) outcome" where
  "parse_upgrade_response_code code =
     (case get_invoke_failure_code code of
        Some error_code \<Rightarrow>
          if error_code = 7 then Returns (Inl MissingModule)
          else if error_code = 8 then Returns (Inl MissingContract)
          else if error_code = 9 then Returns (Inl UnsupportedModuleVersion)
          else Traps
      | None \<Rightarrow> Returns (Inr ()))"

text \<open>The call response is the index of a return value, where there is one.\<close>

definition parse_call_response_code :: "u64 \<Rightarrow> (u32 call_contract_error + bool \<times> u32 option) outcome" where
  "parse_call_response_code code =
     (case get_invoke_failure_code code of
        Some error_code \<Rightarrow>
          if error_code = 0 then
            (let reason = (ucast (0xffffffff AND code) :: i32) in
             if reason = 0 then Traps
             else (let rv = (ucast (drop_bit 40 code) :: u32) in
                   if rv > 0 then Returns (Inl (LogicReject reason rv)) else Undefined))
          else if error_code = 1 then Returns (Inl CallAmountTooLarge)
          else if error_code = 2 then Returns (Inl CallMissingAccount)
          else if error_code = 3 then Returns (Inl CallMissingContract)
          else if error_code = 4 then Returns (Inl CallMissingEntrypoint)
          else if error_code = 5 then Returns (Inl MessageFailed)
          else if error_code = 6 then Returns (Inl Trap)
          else Undefined
      | None \<Rightarrow>
          (let rv = (ucast (drop_bit 40 code) :: u32); tag = 0x800000 in
           if tag AND rv \<noteq> 0 then
             (let i = rv AND NOT tag in Returns (Inr (True, if i = 0 then None else Some i)))
           else Returns (Inr (False, if rv = 0 then None else Some rv))))"

text \<open>\<^verbatim>\<open>NonZeroU32::new\<close> of the three bytes of the return value index, with \<^verbatim>\<open>unwrap_abort\<close>.\<close>

definition return_value_index :: "u64 \<Rightarrow> u32 outcome" where
  "return_value_index code = (let i = (ucast (drop_bit 40 code) :: u32) in if i = 0 then Traps else Returns i)"

fun map_outcome :: "('a \<Rightarrow> 'b) \<Rightarrow> 'a outcome \<Rightarrow> 'b outcome" where
  "map_outcome f (Returns x) = Returns (f x)"
| "map_outcome f Traps = Traps"
| "map_outcome f Undefined = Undefined"

definition parse_query_account_balance_response_code :: "u64 \<Rightarrow> (unit + u32) outcome" where
  "parse_query_account_balance_response_code code =
     (case get_invoke_failure_code code of
        Some error_code \<Rightarrow> if error_code = 2 then Returns (Inl ()) else Undefined
      | None \<Rightarrow> map_outcome Inr (return_value_index code))"

definition parse_query_contract_balance_response_code :: "u64 \<Rightarrow> (unit + u32) outcome" where
  "parse_query_contract_balance_response_code code =
     (case get_invoke_failure_code code of
        Some error_code \<Rightarrow> if error_code = 3 then Returns (Inl ()) else Undefined
      | None \<Rightarrow> map_outcome Inr (return_value_index code))"

definition parse_query_account_public_keys_response_code :: "u64 \<Rightarrow> (unit + u32) outcome" where
  "parse_query_account_public_keys_response_code code =
     (case get_invoke_failure_code code of
        Some error_code \<Rightarrow> if error_code = 2 then Returns (Inl ()) else Undefined
      | None \<Rightarrow> map_outcome Inr (return_value_index code))"

datatype check_account_signature_error = SignatureMissingAccount | MalformedData

definition parse_check_account_signature_response_code ::
    "u64 \<Rightarrow> (check_account_signature_error + bool) outcome" where
  "parse_check_account_signature_response_code code =
     (case get_invoke_failure_code code of
        Some error_code \<Rightarrow>
          if error_code = 2 then Returns (Inl SignatureMissingAccount)
          else if error_code = 10 then Returns (Inl MalformedData)
          else if error_code = 11 then Returns (Inr False)
          else Undefined
      | None \<Rightarrow> Returns (Inr True))"

definition parse_query_exchange_rates_response_code :: "u64 \<Rightarrow> u32 outcome" where
  "parse_query_exchange_rates_response_code code =
     (if get_invoke_failure_code code \<noteq> None then Undefined else return_value_index code)"

definition parse_query_contract_module_reference_response_code :: "u64 \<Rightarrow> (unit + u32) outcome" where
  "parse_query_contract_module_reference_response_code code =
     (case get_invoke_failure_code code of
        Some error_code \<Rightarrow> if error_code = 3 then Returns (Inl ()) else Undefined
      | None \<Rightarrow> map_outcome Inr (return_value_index code))"

text \<open>
  \<^verbatim>\<open>parse_query_contract_name_response_code\<close> reads the name at once: the host's parameters are an
  argument, \<open>None\<close> for an index that does not exist (a negative size).
\<close>

definition parse_query_contract_name_response_code :: "(u32 \<Rightarrow> bytes option) \<Rightarrow> u64 \<Rightarrow> (unit + bytes) outcome" where
  "parse_query_contract_name_response_code params code =
     (case get_invoke_failure_code code of
        Some error_code \<Rightarrow> if error_code = 3 then Returns (Inl ()) else Undefined
      | None \<Rightarrow>
          (case params (ucast (drop_bit 40 code)) of
             None \<Rightarrow> Undefined
           | Some name \<Rightarrow> Returns (Inr name)))"

section \<open>The documented encoding\<close>

text \<open>
  The response codes as the comments of the decoders document them: on success the low five bytes
  are zero and the upper three hold the index of the return value under the bit for a change of the
  contract state; a rejecting contract gives its reason in the low four bytes and the index of its
  return value in the upper three; a failure of the environment is a non-zero fifth byte.
\<close>

datatype host_response = Success bool u32 | Rejected i32 u32 | EnvironmentFailure u8

definition encode_response :: "host_response \<Rightarrow> u64" where
  "encode_response r = (case r of
      Success changed i \<Rightarrow> push_bit 40 (ucast i OR (if changed then 0x800000 else 0))
    | Rejected reason i \<Rightarrow> push_bit 40 (ucast i) OR ucast reason
    | EnvironmentFailure c \<Rightarrow> push_bit 32 (ucast c))"

definition response_ok :: "host_response \<Rightarrow> bool" where
  "response_ok r = (case r of
      Success changed i \<Rightarrow> i < 2 ^ 23
    | Rejected reason i \<Rightarrow> reason \<noteq> 0 \<and> 0 < i \<and> i < 2 ^ 24
    | EnvironmentFailure c \<Rightarrow> c \<noteq> 0)"

lemma code_masks: "(0xffffffffff :: u64) = mask 40" "(0xff00000000 :: u64) = push_bit 32 (mask 8)"
  "(0xffffffff :: u64) = mask 32"
  by (simp_all add: mask_eq_exp_minus_1)

lemma bit_tag [simp]: "bit (0x800000 :: u64) n \<longleftrightarrow> n = 23" "bit (0x800000 :: u32) n \<longleftrightarrow> n = 23"
proof -
  have "(0x800000 :: u64) = push_bit 23 1" "(0x800000 :: u32) = push_bit 23 1" by simp_all
  then show "bit (0x800000 :: u64) n \<longleftrightarrow> n = 23" "bit (0x800000 :: u32) n \<longleftrightarrow> n = 23"
    by (simp_all only: bit_push_bit_iff bit_1_iff) auto
qed

lemma small_bit:
  fixes w :: "'a::len word"
  assumes "w < 2 ^ n" "bit w m" shows "m < n"
proof (rule ccontr)
  assume "\<not> m < n"
  have "m < LENGTH('a)" using assms(2) by (rule bit_imp_le_length)
  then have "unat (2 ^ n :: 'a word) \<le> 2 ^ n" by (metis of_nat_numeral of_nat_power unat_of_nat mod_less_eq_dividend)
  then have "unat w < 2 ^ n" using assms(1) by (simp add: word_less_nat_alt)
  also have "(2 :: nat) ^ n \<le> 2 ^ m" using \<open>\<not> m < n\<close> by simp
  finally have "\<not> bit (unat w) m" by (simp add: bit_iff_odd)
  then show False using assms(2) by (simp add: bit_unsigned_iff)
qed

lemma word_nonzero_bit: "(w :: 'a::len word) \<noteq> 0 \<Longrightarrow> \<exists>i < LENGTH('a). bit w i"
  by (metis bit_eqI bit_imp_le_length bit_0_eq bot_apply bot_bool_def)

lemma failure_code_success: "get_invoke_failure_code (push_bit 40 w) = None"
proof -
  have "push_bit 40 w AND mask 40 = 0" by (rule bit_word_eqI) (auto simp: bit_simps)
  then show ?thesis by (simp add: get_invoke_failure_code_def code_masks)
qed

lemma failure_code_environment:
  assumes "c \<noteq> 0" shows "get_invoke_failure_code (push_bit 32 (ucast (c :: u8))) = Some c"
proof -
  obtain i where i: "i < 8" "bit c i" using word_nonzero_bit [OF assms] by auto
  then have "bit (push_bit 32 (ucast c :: u64) AND mask 40) (32 + i)" by (simp add: bit_simps)
  then have "push_bit 32 (ucast c :: u64) AND mask 40 \<noteq> 0" by (metis bit_0_eq bot_apply bot_bool_def)
  moreover have "ucast (drop_bit 32 (push_bit 32 (ucast c) AND push_bit 32 (mask 8) :: u64)) = c"
    by (rule bit_word_eqI) (auto simp: bit_simps)
  ultimately show ?thesis by (simp add: get_invoke_failure_code_def code_masks)
qed

lemma failure_code_rejected:
  assumes "r \<noteq> 0" shows "get_invoke_failure_code (push_bit 40 w OR ucast (r :: i32)) = Some 0"
proof -
  obtain i where i: "i < 32" "bit r i" using word_nonzero_bit [OF assms] by auto
  then have "bit ((push_bit 40 w OR ucast r) AND mask 40) i" by (simp add: bit_simps)
  then have "(push_bit 40 w OR ucast r) AND mask 40 \<noteq> 0" by (metis bit_0_eq bot_apply bot_bool_def)
  moreover have "ucast (drop_bit 32 ((push_bit 40 w OR ucast r) AND push_bit 32 (mask 8) :: u64)) = (0 :: u8)"
    by (rule bit_word_eqI) (auto simp: bit_simps dest: bit_imp_le_length)
  ultimately show ?thesis by (simp add: get_invoke_failure_code_def code_masks)
qed

lemma index_plain:
  assumes "i < 2 ^ 24" shows "(ucast (drop_bit 40 (push_bit 40 (ucast (i :: u32)) :: u64)) :: u32) = i"
  by (rule bit_word_eqI) (auto simp: bit_simps dest: small_bit [OF assms])

lemma index_rejected:
  assumes "i < 2 ^ 24"
  shows "(ucast (drop_bit 40 (push_bit 40 (ucast (i :: u32)) OR ucast (r :: i32) :: u64)) :: u32) = i"
  by (rule bit_word_eqI) (auto simp: bit_simps dest: bit_imp_le_length small_bit [OF assms])

lemma reason_rejected: "(ucast (mask 32 AND (push_bit 40 w OR ucast (r :: i32)) :: u64) :: i32) = r"
  by (rule bit_word_eqI) (auto simp: bit_simps)

lemma index_changed:
  assumes "i < 2 ^ 23"
  shows "(ucast (drop_bit 40 (push_bit 40 (ucast (i :: u32) OR 0x800000) :: u64)) :: u32) = i OR 0x800000"
  by (rule bit_word_eqI) (auto simp: bit_simps dest: small_bit [OF assms])

lemma tag_bit:
  assumes "(i :: u32) < 2 ^ 23"
  shows "0x800000 AND i = 0" "0x800000 AND (i OR 0x800000) \<noteq> 0" "(i OR 0x800000) AND NOT 0x800000 = i"
proof -
  have i: "\<not> bit i 23" using small_bit [OF assms] by blast
  have t: "bit (0x800000 :: u32) n \<longleftrightarrow> n = 23" for n by (rule bit_tag)
  show "0x800000 AND i = 0"
    by (rule bit_word_eqI) (simp only: bit_and_iff t bit_0_eq bot_apply, use i in auto)
  have "bit (0x800000 AND (i OR 0x800000)) 23" by (simp only: bit_and_iff bit_or_iff t simp_thms)
  then show "0x800000 AND (i OR 0x800000) \<noteq> 0" by (metis bit_0_eq bot_apply bot_bool_def)
  show "(i OR 0x800000) AND NOT 0x800000 = i"
    by (rule bit_word_eqI) (simp only: bit_and_iff bit_or_iff bit_not_iff_eq t, use i in auto)
qed

lemma parse_success:
  assumes i: "i < 2 ^ 23"
  shows "parse_call_response_code (encode_response (Success changed i)) =
    Returns (Inr (changed, if i = 0 then None else Some i))"
proof -
  have "i < 2 ^ 24" using i by (rule less_trans) simp
  then show ?thesis
    using index_plain [of i] index_changed [OF i] tag_bit [OF i]
    by (cases changed) (simp_all only: parse_call_response_code_def encode_response_def host_response.case
        failure_code_success option.case Let_def code_masks if_True if_False or.right_neutral if_cancel, simp_all)
qed

lemma parse_rejected:
  assumes "response_ok (Rejected reason i)"
  shows "parse_call_response_code (encode_response (Rejected reason i)) = Returns (Inl (LogicReject reason i))"
proof -
  have r: "reason \<noteq> 0" "0 < i" "i < 2 ^ 24" using assms by (simp_all add: response_ok_def)
  then show ?thesis
    by (simp only: parse_call_response_code_def encode_response_def host_response.case
        failure_code_rejected [OF r(1)] option.case Let_def code_masks reason_rejected index_rejected [OF r(3)]) simp
qed

section \<open>Properties\<close>

text \<open>
  \<^verbatim>\<open>parse_call_response_code\<close> inverts the documented encoding: a success gives the flag for the
  state change and the index of the return value (none for index 0), a rejection the reason and the
  index, and the failure bytes 1 to 6 the six errors; nothing the encoding describes traps or is
  undefined, except failure bytes above 6.
\<close>

lemma parse_call_response_roundtrip:
  assumes "response_ok r" "\<And>c. r = EnvironmentFailure c \<Longrightarrow> c \<le> 6"
  shows "parse_call_response_code (encode_response r) = Returns (case r of
      Success changed i \<Rightarrow> Inr (changed, if i = 0 then None else Some i)
    | Rejected reason i \<Rightarrow> Inl (LogicReject reason i)
    | EnvironmentFailure c \<Rightarrow> Inl ([CallAmountTooLarge, CallMissingAccount, CallMissingContract,
        CallMissingEntrypoint, MessageFailed, Trap] ! (unat c - 1)))"
proof (cases r)
  case (Success changed i)
  then have "i < 2 ^ 23" using assms(1) by (simp add: response_ok_def)
  then show ?thesis using Success by (simp add: parse_success)
next
  case (Rejected reason i)
  then show ?thesis using parse_rejected assms(1) by simp
next
  case (EnvironmentFailure c)
  then have c: "c \<noteq> 0" "unat c \<le> 6" using assms by (simp_all add: response_ok_def word_le_nat_alt)
  moreover have "unat c \<noteq> 0" using c(1) by (simp add: unat_eq_0)
  ultimately have "unat c = 1 \<or> unat c = 2 \<or> unat c = 3 \<or> unat c = 4 \<or> unat c = 5 \<or> unat c = 6" by arith
  then have "c = 1 \<or> c = 2 \<or> c = 3 \<or> c = 4 \<or> c = 5 \<or> c = 6" by (simp add: word_unat_eq_iff)
  then show ?thesis
    using EnvironmentFailure failure_code_environment [OF c(1)]
    by (elim disjE) (simp_all add: parse_call_response_code_def encode_response_def)
qed

lemma parse_call_response_roundtrip_sample:
  "parse_call_response_code (encode_response (Success True 5)) = Returns (Inr (True, Some 5)) \<and>
    parse_call_response_code (encode_response (Rejected 42 7)) = Returns (Inl (LogicReject 42 7)) \<and>
    parse_call_response_code (encode_response (EnvironmentFailure 3)) = Returns (Inl CallMissingContract)"
  using parse_call_response_roundtrip [of "Success True 5"] parse_call_response_roundtrip [of "Rejected 42 7"]
    parse_call_response_roundtrip [of "EnvironmentFailure 3"]
  by (simp add: response_ok_def word_le_nat_alt)

text \<open>The failure bytes each decoder knows, by the same encoding.\<close>

text \<open>
  The decoders of transfers, upgrades, account queries and signature checks give on the documented
  encoding exactly the documented results: success, the errors for their failure bytes, and a trap or
  undefined behaviour for every other non-zero failure byte.
\<close>

lemma parse_environment_failure:
  assumes "c \<noteq> 0"
  shows "parse_transfer_response_code (encode_response (EnvironmentFailure c)) =
      (if c = 1 then Returns (Inl AmountTooLarge) else if c = 2 then Returns (Inl MissingAccount) else Traps) \<and>
    parse_upgrade_response_code (encode_response (EnvironmentFailure c)) =
      (if c = 7 then Returns (Inl MissingModule) else if c = 8 then Returns (Inl MissingContract)
       else if c = 9 then Returns (Inl UnsupportedModuleVersion) else Traps) \<and>
    parse_query_account_balance_response_code (encode_response (EnvironmentFailure c)) =
      (if c = 2 then Returns (Inl ()) else Undefined) \<and>
    parse_query_contract_balance_response_code (encode_response (EnvironmentFailure c)) =
      (if c = 3 then Returns (Inl ()) else Undefined) \<and>
    parse_check_account_signature_response_code (encode_response (EnvironmentFailure c)) =
      (if c = 2 then Returns (Inl SignatureMissingAccount) else if c = 10 then Returns (Inl MalformedData)
       else if c = 11 then Returns (Inr False) else Undefined)"
  by (simp add: encode_response_def failure_code_environment [OF assms] parse_transfer_response_code_def
      parse_upgrade_response_code_def parse_query_account_balance_response_code_def
      parse_query_contract_balance_response_code_def parse_check_account_signature_response_code_def)

lemma parse_environment_failure_sample:
  "parse_transfer_response_code (encode_response (EnvironmentFailure 2)) = Returns (Inl MissingAccount) \<and>
    parse_upgrade_response_code (encode_response (EnvironmentFailure 2)) = Traps"
  using parse_environment_failure [of 2] by simp

definition is_logic_reject :: "'r library_error \<Rightarrow> bool" where
  "is_logic_reject e = (case e of CallContractError (LogicReject _ _) \<Rightarrow> True | _ \<Rightarrow> False)"

lemmas reject_defs = reject_of_def reject_from_code_def reject_from_unit_def reject_from_parse_error_def
  reject_from_log_error_def reject_from_new_contract_name_error_def reject_from_new_receive_name_error_def
  reject_from_not_payable_def reject_from_transfer_error_def reject_from_call_contract_error_def
  reject_from_upgrade_error_def reject_from_query_account_balance_error_def reject_from_query_contract_balance_error_def

lemma code_eq: "I32_MIN + a = I32_MIN + b \<longleftrightarrow> a = b"
  by simp

lemmas library_error_splits = log_error.split new_contract_name_error.split new_receive_name_error.split
  transfer_error.split call_contract_error.split upgrade_error.split

lemma code_range: "sint (rj_error_code (reject_of e)) \<in> {- (2 ^ 31) + 1 .. - (2 ^ 31) + 26}"
  by (cases e; simp add: reject_defs I32_MIN_def split: library_error_splits)

text \<open>
  Every error the library turns into a reject has its own error code, all of them negative and
  between \<open>-2\<^sup>3\<^sup>1 + 1\<close> and \<open>-2\<^sup>3\<^sup>1 + 26\<close>; only the rejections of another contract share one code,
  whatever their reason and return value.
\<close>

lemma reject_codes_distinct:
  "(rj_error_code (reject_of e) = rj_error_code (reject_of e') \<longleftrightarrow> e = e' \<or> is_logic_reject e \<and> is_logic_reject e') \<and>
   sint (rj_error_code (reject_of e)) \<in> {- (2 ^ 31) + 1 .. - (2 ^ 31) + 26} \<and>
   reject_new (rj_error_code (reject_of e)) = Some (reject_of e)"
proof (intro conjI)
  show "rj_error_code (reject_of e) = rj_error_code (reject_of e') \<longleftrightarrow> e = e' \<or> is_logic_reject e \<and> is_logic_reject e'"
    by (cases e; cases e'; simp add: reject_defs is_logic_reject_def split: library_error_splits)
  show r: "sint (rj_error_code (reject_of e)) \<in> {- (2 ^ 31) + 1 .. - (2 ^ 31) + 26}" by (rule code_range)
  have "rj_return_value (reject_of e) = None"
    by (cases e; simp add: reject_defs split: library_error_splits)
  then show "reject_new (rj_error_code (reject_of e)) = Some (reject_of e)" using r by (simp add: reject_new_def)
qed

end
