(* ===== verification/Host.thy ===== *)
theory Host
  imports Host_Codes State_Properties
begin

text \<open>
  The host a contract sees, \<^verbatim>\<open>ExternHost\<close> and \<^verbatim>\<open>ExternLowLevelHost\<close> of \<^verbatim>\<open>concordium-std/src/impls.rs\<close>:
  saving the contract's state before a call to another contract and reloading it afterwards, and
  the workers behind transfers, queries and signature checks. The primitives \<^verbatim>\<open>invoke\<close> and
  \<^verbatim>\<open>upgrade\<close> of the chain, and the parameters it keeps, are arguments. Account and contract
  addresses, parameters, entrypoint names and amounts come as the bytes they are serialized to.
\<close>

section \<open>State of the host\<close>

record ('s, 'st) extern_host =
  eh_state :: 'st
  eh_api :: 's

type_synonym 's invoke = "'s \<Rightarrow> u32 \<Rightarrow> bytes \<Rightarrow> u64 \<times> 's"

definition INVOKE_TRANSFER_TAG :: u32 where "INVOKE_TRANSFER_TAG = 0"
definition INVOKE_CALL_TAG :: u32 where "INVOKE_CALL_TAG = 1"
definition INVOKE_QUERY_ACCOUNT_BALANCE_TAG :: u32 where "INVOKE_QUERY_ACCOUNT_BALANCE_TAG = 2"
definition INVOKE_QUERY_CONTRACT_BALANCE_TAG :: u32 where "INVOKE_QUERY_CONTRACT_BALANCE_TAG = 3"
definition INVOKE_QUERY_EXCHANGE_RATES_TAG :: u32 where "INVOKE_QUERY_EXCHANGE_RATES_TAG = 4"
definition INVOKE_CHECK_ACCOUNT_SIGNATURE_TAG :: u32 where "INVOKE_CHECK_ACCOUNT_SIGNATURE_TAG = 5"
definition INVOKE_QUERY_ACCOUNT_PUBLIC_KEYS_TAG :: u32 where "INVOKE_QUERY_ACCOUNT_PUBLIC_KEYS_TAG = 6"
definition INVOKE_QUERY_CONTRACT_MODULE_REFERENCE_TAG :: u32 where "INVOKE_QUERY_CONTRACT_MODULE_REFERENCE_TAG = 7"
definition INVOKE_QUERY_CONTRACT_NAME_TAG :: u32 where "INVOKE_QUERY_CONTRACT_NAME_TAG = 8"

text \<open>
  \<^verbatim>\<open>commit_state\<close>: the state is written over the root entry, which is then truncated to the size it
  has at that moment.
\<close>

definition commit_state :: "('s, 'e, 'i) state_api \<Rightarrow> 'st codec \<Rightarrow> ('s, 'st) extern_host \<Rightarrow> ('s, 'st) extern_host option" where
  "commit_state A SC h = do {
     (root_entry, s) \<leftarrow> lookup_entry A (eh_api h) [];
     root_entry \<leftarrow> root_entry;
     (root_entry, s) \<leftarrow> serial A SC s root_entry (eh_state h);
     new_state_size \<leftarrow> entry_size A s root_entry;
     (_, s) \<leftarrow> entry_truncate A s root_entry new_state_size;
     Some (h\<lparr>eh_api := s\<rparr>)
   }"

definition invoke_contract_construct_parameter :: "bytes \<Rightarrow> bytes \<Rightarrow> bytes \<Rightarrow> bytes \<Rightarrow> bytes" where
  "invoke_contract_construct_parameter to parameter entrypoint amount = to @ parameter @ entrypoint @ amount"

definition invoke_contract_raw ::
    "('s, 'e, 'i) state_api \<Rightarrow> 'st codec \<Rightarrow> 's invoke \<Rightarrow> ('s, 'st) extern_host \<Rightarrow> bytes \<Rightarrow> bytes \<Rightarrow> bytes \<Rightarrow> bytes \<Rightarrow>
     ((u32 call_contract_error + bool \<times> u32 option) \<times> ('s, 'st) extern_host) outcome" where
  "invoke_contract_raw A SC invoke h to parameter entrypoint amount =
     (let data = invoke_contract_construct_parameter to parameter entrypoint amount in
      case commit_state A SC h of
        None \<Rightarrow> Traps
      | Some h \<Rightarrow>
          (let (response, s) = invoke (eh_api h) INVOKE_CALL_TAG data; h = h\<lparr>eh_api := s\<rparr> in
           case parse_call_response_code response of
             Traps \<Rightarrow> Traps
           | Undefined \<Rightarrow> Undefined
           | Returns (Inl err) \<Rightarrow> Returns (Inl err, h)
           | Returns (Inr (state_modified, res)) \<Rightarrow>
               if state_modified then
                 (case lookup_entry A (eh_api h) [] of
                    Some (Some e, s) \<Rightarrow>
                      (case deserial A SC s e of
                         Some (new_state, _) \<Rightarrow>
                           Returns (Inr (state_modified, res), \<lparr>eh_state = new_state, eh_api = s\<rparr>)
                       | None \<Rightarrow> Traps)
                  | _ \<Rightarrow> Traps)
               else Returns (Inr (state_modified, res), h)))"

text \<open>The call that may not change the state: nothing is saved before it.\<close>

definition invoke_contract_raw_read_only ::
    "'s invoke \<Rightarrow> ('s, 'st) extern_host \<Rightarrow> bytes \<Rightarrow> bytes \<Rightarrow> bytes \<Rightarrow> bytes \<Rightarrow>
     ((u32 call_contract_error + u32 option) \<times> ('s, 'st) extern_host) outcome" where
  "invoke_contract_raw_read_only invoke h to parameter entrypoint amount =
     (let data = invoke_contract_construct_parameter to parameter entrypoint amount;
          (response, s) = invoke (eh_api h) INVOKE_CALL_TAG data; h = h\<lparr>eh_api := s\<rparr> in
      case parse_call_response_code response of
        Traps \<Rightarrow> Traps
      | Undefined \<Rightarrow> Undefined
      | Returns (Inl err) \<Rightarrow> Returns (Inl err, h)
      | Returns (Inr (state_modified, res)) \<Rightarrow>
          if state_modified then Traps else Returns (Inr res, h))"

text \<open>The low-level host keeps no state of its own: nothing is saved or reloaded.\<close>

definition low_level_invoke_contract_raw ::
    "'s invoke \<Rightarrow> 's \<Rightarrow> bytes \<Rightarrow> bytes \<Rightarrow> bytes \<Rightarrow> bytes \<Rightarrow>
     (u32 call_contract_error + bool \<times> u32 option) outcome \<times> 's" where
  "low_level_invoke_contract_raw invoke s to parameter entrypoint amount =
     (let (response, s) = invoke s INVOKE_CALL_TAG (invoke_contract_construct_parameter to parameter entrypoint amount)
      in (parse_call_response_code response, s))"

section \<open>Transfers, queries and signature checks\<close>

definition u32_to_le_bytes :: "u32 \<Rightarrow> bytes" where
  "u32_to_le_bytes n = map (\<lambda>i. ucast (drop_bit (8 * i) n)) [0..<4]"

definition invoke_transfer_worker :: "'s invoke \<Rightarrow> 's \<Rightarrow> bytes \<Rightarrow> u64 \<Rightarrow> (transfer_error + unit) outcome \<times> 's" where
  "invoke_transfer_worker invoke s receiver amount =
     (let (response, s) = invoke s INVOKE_TRANSFER_TAG (receiver @ u64_to_le_bytes amount)
      in (parse_transfer_response_code response, s))"

definition upgrade :: "('s \<Rightarrow> bytes \<Rightarrow> u64 \<times> 's) \<Rightarrow> 's \<Rightarrow> bytes \<Rightarrow> (upgrade_error + unit) outcome \<times> 's" where
  "upgrade upgrade_prim s module_ref =
     (let (response, s) = upgrade_prim s module_ref in (parse_upgrade_response_code response, s))"

text \<open>
  Reading a return value: the parameter the host keeps under its index, decoded; a value that
  cannot be decoded traps.
\<close>

definition read_response :: "(u32 \<Rightarrow> bytes option) \<Rightarrow> 'v codec \<Rightarrow> u32 \<Rightarrow> 'v outcome" where
  "read_response params C i =
     (case Option.bind (params i) (des C) of None \<Rightarrow> Traps | Some (v, _) \<Rightarrow> Returns v)"

fun bind_outcome :: "'a outcome \<Rightarrow> ('a \<Rightarrow> 'b outcome) \<Rightarrow> 'b outcome" where
  "bind_outcome (Returns x) f = f x"
| "bind_outcome Traps f = Traps"
| "bind_outcome Undefined f = Undefined"

definition read_answer :: "(u32 \<Rightarrow> bytes option) \<Rightarrow> 'v codec \<Rightarrow> (unit + u32) outcome \<Rightarrow> (unit + 'v) outcome" where
  "read_answer params C r = bind_outcome r
     (\<lambda>x. case x of Inl err \<Rightarrow> Returns (Inl err) | Inr i \<Rightarrow> map_outcome Inr (read_response params C i))"

definition query_account_balance_worker ::
    "'s invoke \<Rightarrow> ('s \<Rightarrow> u32 \<Rightarrow> bytes option) \<Rightarrow> 'b codec \<Rightarrow> 's \<Rightarrow> bytes \<Rightarrow> (unit + 'b) outcome \<times> 's" where
  "query_account_balance_worker invoke params C s address =
     (let (response, s) = invoke s INVOKE_QUERY_ACCOUNT_BALANCE_TAG address
      in (read_answer (params s) C (parse_query_account_balance_response_code response), s))"

definition query_contract_balance_worker ::
    "'s invoke \<Rightarrow> ('s \<Rightarrow> u32 \<Rightarrow> bytes option) \<Rightarrow> 'b codec \<Rightarrow> 's \<Rightarrow> u64 \<Rightarrow> u64 \<Rightarrow> (unit + 'b) outcome \<times> 's" where
  "query_contract_balance_worker invoke params C s index subindex =
     (let (response, s) = invoke s INVOKE_QUERY_CONTRACT_BALANCE_TAG (u64_to_le_bytes index @ u64_to_le_bytes subindex)
      in (read_answer (params s) C (parse_query_contract_balance_response_code response), s))"

definition query_exchange_rates_worker ::
    "'s invoke \<Rightarrow> ('s \<Rightarrow> u32 \<Rightarrow> bytes option) \<Rightarrow> 'b codec \<Rightarrow> 's \<Rightarrow> 'b outcome \<times> 's" where
  "query_exchange_rates_worker invoke params C s =
     (let (response, s) = invoke s INVOKE_QUERY_EXCHANGE_RATES_TAG []
      in (bind_outcome (parse_query_exchange_rates_response_code response) (read_response (params s) C), s))"

definition query_account_public_keys_worker ::
    "'s invoke \<Rightarrow> ('s \<Rightarrow> u32 \<Rightarrow> bytes option) \<Rightarrow> 'b codec \<Rightarrow> 's \<Rightarrow> bytes \<Rightarrow> (unit + 'b) outcome \<times> 's" where
  "query_account_public_keys_worker invoke params C s address =
     (let (response, s) = invoke s INVOKE_QUERY_ACCOUNT_PUBLIC_KEYS_TAG address
      in (read_answer (params s) C (parse_query_account_public_keys_response_code response), s))"

definition check_account_signature_worker ::
    "'s invoke \<Rightarrow> 'g codec \<Rightarrow> 's \<Rightarrow> bytes \<Rightarrow> 'g \<Rightarrow> bytes \<Rightarrow> (check_account_signature_error + bool) outcome \<times> 's" where
  "check_account_signature_worker invoke SC s address signatures data =
     (let buffer = address @ u32_to_le_bytes (of_nat (length data)) @ data @ ser SC signatures;
          (response, s) = invoke s INVOKE_CHECK_ACCOUNT_SIGNATURE_TAG buffer
      in (parse_check_account_signature_response_code response, s))"

definition query_contract_module_reference_worker ::
    "'s invoke \<Rightarrow> ('s \<Rightarrow> u32 \<Rightarrow> bytes option) \<Rightarrow> 'b codec \<Rightarrow> 's \<Rightarrow> u64 \<Rightarrow> u64 \<Rightarrow> (unit + 'b) outcome \<times> 's" where
  "query_contract_module_reference_worker invoke params C s index subindex =
     (let (response, s) = invoke s INVOKE_QUERY_CONTRACT_MODULE_REFERENCE_TAG (u64_to_le_bytes index @ u64_to_le_bytes subindex)
      in (read_answer (params s) C (parse_query_contract_module_reference_response_code response), s))"

definition query_contract_name_worker ::
    "'s invoke \<Rightarrow> ('s \<Rightarrow> u32 \<Rightarrow> bytes option) \<Rightarrow> 's \<Rightarrow> u64 \<Rightarrow> u64 \<Rightarrow> (unit + bytes) outcome \<times> 's" where
  "query_contract_name_worker invoke params s index subindex =
     (let (response, s) = invoke s INVOKE_QUERY_CONTRACT_NAME_TAG (u64_to_le_bytes index @ u64_to_le_bytes subindex)
      in (parse_query_contract_name_response_code (params s) response, s))"

section \<open>Log and response cursor\<close>

text \<open>\<^verbatim>\<open>Logger::log_raw\<close>, given the result of the primitive \<^verbatim>\<open>log_event\<close>.\<close>

definition log_raw :: "int \<Rightarrow> log_error + unit" where
  "log_raw res = (if res = 1 then Inr () else if res = 0 then Inl Full else Inl MalformedLog)"

text \<open>
  \<^verbatim>\<open>ExternCallResponse::read\<close> into a buffer of a given length: the primitive copies a section of the
  parameter and returns how many bytes it copied, a negative number when the parameter does not
  exist.
\<close>

definition response_read :: "(u32 \<Rightarrow> nat \<Rightarrow> u32 \<Rightarrow> int \<times> bytes) \<Rightarrow> u32 \<Rightarrow> u32 \<Rightarrow> nat \<Rightarrow> (bytes \<times> u32) option" where
  "response_read get_parameter_section i current_position buf_len =
     (if buf_len \<ge> 2 ^ 32 then None
      else (let (num_read, bs) = get_parameter_section i buf_len current_position in
            if num_read \<ge> 0 then Some (take (nat num_read) bs, current_position + of_int num_read) else None))"

section \<open>What saving the state does\<close>

context state_api_laws
begin

text \<open>The truncation keeps everything: the entry has that size already.\<close>

lemma commit_state_law:
  assumes "inv (eh_api h)" "0 < room (eh_api h)" "view (eh_api h) [] = Some d" "length (ser SC (eh_state h)) < cap"
  shows "\<exists>s. commit_state A SC h = Some (h\<lparr>eh_api := s\<rparr>) \<and> inv s \<and> locked s = locked (eh_api h) \<and>
    room (eh_api h) \<le> Suc (room s) \<and>
    view s = (view (eh_api h))([] \<mapsto> ser SC (eh_state h) @ drop (length (ser SC (eh_state h))) d)"
  using assms(1,2)
proof (cases rule: lookupE [where k = "[]"])
  case (absent s1)
  then show ?thesis using assms(3) by simp
next
  case (present e s1 d1)
  let ?v = "ser SC (eh_state h)"
  let ?d = "?v @ drop (length ?v) d"
  have d1: "d1 = d" using present assms(3) by simp
  obtain e2 s2 where w: "write_all A s1 e ?v = Some (e2, s2)" "inv s2" "locked s2 = locked s1" "room s2 = room s1"
    "view s2 = (view s1)(get_key A e \<mapsto> take (pos e) d @ ?v @ drop (pos e + length ?v) d)"
    "get_key A e2 = get_key A e" "live s2 e2" "pos e2 = pos e + length ?v"
    using write_all_law [OF present(3,7,10), of ?v] present(9) assms(4) d1 by auto
  have v2: "view s2 (get_key A e2) = Some ?d" using w(5,6) present(8,9) by simp
  have size: "entry_size A s2 e2 = Some (of_nat (length ?d))" using size_law [OF w(2,7) v2] .
  have small: "length ?d < cap" using view_size [OF w(2) v2] .
  obtain e3 s3 where t: "entry_truncate A s2 e2 (of_nat (length ?d)) = Some (e3, s3)" "inv s3"
    "view s3 = (view s2)(get_key A e2 \<mapsto> take (unat (of_nat (length ?d) :: u32)) ?d)" "locked s3 = locked s2" "room s3 = room s2"
    using truncate_law [OF w(2,7) v2, of "of_nat (length ?d)"] w(8) present(9) by auto
  have len: "unat (of_nat (length ?d) :: u32) = length ?d" by (rule cap_unat [OF small])
  have "view s3 = (view s2)(get_key A e2 \<mapsto> ?d)" using t(3) unfolding len by simp
  then have "view s3 = (view (eh_api h))([] \<mapsto> ?d)" using w(5,6) present(4,8,9) by simp
  moreover have "commit_state A SC h = Some (h\<lparr>eh_api := s3\<rparr>)"
    using present(1) w(1) size t(1) by (simp add: commit_state_def serial_def)
  ultimately show ?thesis using t(2,4,5) w(3,4) present(5,6) by auto
qed

lemma reload_law:
  assumes "inv s" "0 < room s" "codec_ok SC" "view s [] = Some (ser SC st @ rest)"
  shows "\<exists>e s' e'. lookup_entry A s [] = Some (Some e, s') \<and> deserial A SC s' e = Some (st, e') \<and> inv s' \<and> view s' = view s"
  using assms(1,2)
proof (cases rule: lookupE [where k = "[]"])
  case (absent s1)
  then show ?thesis using assms(4) by simp
next
  case (present e s1 d)
  then obtain e' where "deserial A SC s1 e = Some (st, e')"
    using deserial_law [OF present(3,7,10), of SC st rest] assms(3,4) by auto
  then show ?thesis using present by auto
qed

end

section \<open>Properties\<close>

text \<open>
  \<^verbatim>\<open>commit_state\<close> writes the state at the front of the root entry and touches no other entry; its
  truncation never removes anything, so the root entry keeps the tail of a longer earlier state.
\<close>

lemma commit_state_spec:
  assumes "trie_inv (eh_api h)" "0 < trie_room (eh_api h)" "trie_view (eh_api h) [] = Some d"
    and "length (ser SC (eh_state h)) < 2 ^ 32"
  shows "\<exists>s. commit_state test_state_api SC h = Some (h\<lparr>eh_api := s\<rparr>) \<and> trie_inv s \<and>
    trie_view s = (trie_view (eh_api h))([] \<mapsto> ser SC (eh_state h) @ drop (length (ser SC (eh_state h))) d)"
  using trie.commit_state_law [OF assms] by blast

text \<open>A host whose root entry holds two bytes, with a state of one byte.\<close>

definition unit_codec :: "bytes \<Rightarrow> unit codec" where
  "unit_codec bs = \<lparr>ser = (\<lambda>_. bs), des = (\<lambda>cs. Some ((), drop (length bs) cs))\<rparr>"

lemma unit_codec_simps [simp]: "codec_ok (unit_codec bs)" "ser (unit_codec bs) u = bs"
  by (simp_all add: codec_ok_def unit_codec_def)

definition sample_root :: trie where
  "sample_root = snd (the (state_map_insert test_state_api (unit_codec []) (unit_codec [1, 2]) [] trie_new () ()))"

lemma sample_root_simps: "trie_inv sample_root" "9 < trie_room sample_root" "trie_view sample_root = [[] \<mapsto> [1, 2]]"
  using trie.state_map_insert_law [of trie_new "unit_codec []" "unit_codec [1, 2]" "[]" "()" "()"]
  by (auto simp: sample_root_def)

lemma commit_state_spec_sample:
  "\<exists>s. commit_state test_state_api u8_codec \<lparr>eh_state = 7, eh_api = sample_root\<rparr> = Some \<lparr>eh_state = 7, eh_api = s\<rparr> \<and>
    trie_view s [] = Some [7, 2]"
  using commit_state_spec [of "\<lparr>eh_state = 7, eh_api = sample_root\<rparr>" "[1, 2]" u8_codec] sample_root_simps by auto

text \<open>
  A call to another contract sees the caller's current state saved in the root entry. When the
  response reports a change, the caller continues with the state the callees left in the root entry;
  when it reports none, or an error, it continues with its own.
\<close>

lemma invoke_contract_raw_spec:
  assumes "trie_inv (eh_api h)" "0 < trie_room (eh_api h)" "trie_view (eh_api h) [] = Some d"
    and SC: "codec_ok SC" "length (ser SC (eh_state h)) < 2 ^ 32"
    and h1: "commit_state test_state_api SC h = Some h1"
    and call: "invoke (eh_api h1) INVOKE_CALL_TAG (to @ parameter @ entrypoint @ amount) = (encode_response r, s2)"
    and r: "response_ok r" "\<And>c. r \<noteq> EnvironmentFailure c"
    and s2: "trie_inv s2" "0 < trie_room s2" "trie_view s2 [] = Some (ser SC st @ rest)"
  shows "(\<exists>tail. trie_view (eh_api h1) [] = Some (ser SC (eh_state h) @ tail)) \<and>
    (\<exists>s3. trie_view s3 = trie_view s2 \<and>
      invoke_contract_raw test_state_api SC invoke h to parameter entrypoint amount = Returns (case r of
        Success changed i \<Rightarrow> (Inr (changed, if i = 0 then None else Some i),
                               \<lparr>eh_state = (if changed then st else eh_state h), eh_api = s3\<rparr>)
      | Rejected reason i \<Rightarrow> (Inl (LogicReject reason i), \<lparr>eh_state = eh_state h, eh_api = s3\<rparr>)))"
proof -
  obtain s1 where s1: "commit_state test_state_api SC h = Some (h\<lparr>eh_api := s1\<rparr>)"
    "trie_view s1 = (trie_view (eh_api h))([] \<mapsto> ser SC (eh_state h) @ drop (length (ser SC (eh_state h))) d)"
    using trie.commit_state_law [OF assms(1-3) SC(2)] by blast
  have root: "\<exists>tail. trie_view (eh_api h1) [] = Some (ser SC (eh_state h) @ tail)" using s1 h1 by auto
  have run: "invoke s1 INVOKE_CALL_TAG (invoke_contract_construct_parameter to parameter entrypoint amount) =
      (encode_response r, s2)"
    using call h1 s1(1) by (auto simp: invoke_contract_construct_parameter_def)
  obtain e s3 e' where reload: "lookup_entry test_state_api s2 [] = Some (Some e, s3)"
    "deserial test_state_api SC s3 e = Some (st, e')" "trie_view s3 = trie_view s2"
    using trie.reload_law [OF s2(1,2) SC(1) s2(3)] by blast
  show ?thesis
  proof (cases r)
    case (Success changed i)
    then have "parse_call_response_code (encode_response r) = Returns (Inr (changed, if i = 0 then None else Some i))"
      using r(1) parse_success [of i changed] by (simp add: response_ok_def)
    then show ?thesis using root Success s1(1) run reload
      by (cases h; cases changed) (auto simp: invoke_contract_raw_def)
  next
    case (Rejected reason i)
    then have "parse_call_response_code (encode_response r) = Returns (Inl (LogicReject reason i))"
      using r(1) parse_rejected by simp
    then show ?thesis using root Rejected s1(1) run by (cases h) (auto simp: invoke_contract_raw_def)
  next
    case (EnvironmentFailure c)
    then show ?thesis using r(2) by simp
  qed
qed

lemma invoke_contract_raw_spec_sample:
  "\<exists>s3. invoke_contract_raw test_state_api u8_codec (\<lambda>s _ _. (encode_response (Success True 3), sample_root))
      \<lparr>eh_state = 7, eh_api = sample_root\<rparr> [] [] [] [] = Returns (Inr (True, Some 3), \<lparr>eh_state = 1, eh_api = s3\<rparr>)"
proof -
  let ?h = "\<lparr>eh_state = 7, eh_api = sample_root\<rparr>"
  have root: "trie_view sample_root [] = Some (ser u8_codec 1 @ [2])" by (simp add: sample_root_simps)
  have room: "0 < trie_room sample_root" using sample_root_simps(2) by simp
  obtain h1 where "commit_state test_state_api u8_codec ?h = Some h1"
    using trie.commit_state_law [of ?h "[1, 2]" u8_codec] sample_root_simps room by auto
  from invoke_contract_raw_spec [OF _ _ _ _ _ this, of _ "\<lambda>s _ _. (encode_response (Success True 3), sample_root)"
      "[]" "[]" "[]" "[]" "Success True 3" sample_root 1 "[2]"]
  show ?thesis using sample_root_simps(1) room root by (auto simp: response_ok_def)
qed

end
