(* ===== verification/Cis2_Codec.thy ===== *)
theory Cis2_Codec
  imports State_Properties Host_Codes
begin

unbundle bit_operations_syntax

text \<open>
  The token amounts and token identifiers of \<^verbatim>\<open>concordium-cis2/src/lib.rs\<close>: the LEB128 encoding of
  the amount types, the length-prefixed encoding of the identifiers and their hexadecimal display.
  The amount types of the macro \<^verbatim>\<open>token_amount_wrapper\<close> are one definition at a word of any width.
\<close>

section \<open>Token amounts\<close>

text \<open>\<^verbatim>\<open>Serial\<close> of an amount: seven bits a byte, least significant first, bit 7 when more follow.\<close>

function amount_serial :: "'w::len word \<Rightarrow> bytes" where
  "amount_serial v =
     (let byte = ucast v AND 0x7F; v = drop_bit 7 v in
      if v \<noteq> 0 then (byte OR 0x80) # amount_serial v else [byte])"
  by auto

termination amount_serial
proof (relation "measure unat")
  fix x v' :: "'w::len word" and byte :: u8
  assume "v' = drop_bit 7 x" "v' \<noteq> 0"
  then have "unat x \<noteq> 0" "unat v' = unat x div 128" by (auto simp: unat_drop_bit unat_eq_zero)
  then show "(v', x) \<in> measure unat" by simp
qed simp

declare amount_serial.simps [simp del]

text \<open>
  \<^verbatim>\<open>Deserial\<close> of an amount, the loop over \<open>i\<close> as a list of the values it takes. A shift drops the bits
  it moves out; a shift by the width or more uses the low bits of the distance, as in a contract
  built for release.
\<close>

definition rust_shl :: "'w::len word \<Rightarrow> nat \<Rightarrow> 'w word" where
  "rust_shl x n = push_bit (n mod LENGTH('w)) x"

definition checked_add :: "'w::len word \<Rightarrow> 'w word \<Rightarrow> 'w word option" where
  "checked_add x y = (if unat x + unat y < 2 ^ LENGTH('w) then Some (x + y) else None)"

fun amount_loop :: "nat list \<Rightarrow> 'w::len word \<Rightarrow> bytes \<Rightarrow> ('w word \<times> bytes) option" where
  "amount_loop [] result src = None"
| "amount_loop (i # is) result [] = None"
| "amount_loop (i # is) result (byte # src) = do {
     let value_byte = ucast (byte AND 0x7F);
     result \<leftarrow> checked_add result (rust_shl value_byte (i * 7));
     if byte AND 0x80 = 0 then Some (result, src) else amount_loop is result src
   }"

definition amount_deserial :: "bytes \<Rightarrow> ('w::len word \<times> bytes) option" where
  "amount_deserial src = amount_loop [0..<37] 0 src"

definition amount_codec :: "'w::len word codec" where
  "amount_codec = \<lparr>ser = amount_serial, des = amount_deserial\<rparr>"

text \<open>\<^verbatim>\<open>TokenAmountU256\<close>: 36 bytes as above and a last one with at most four bits of the value.\<close>

fun amount256_loop :: "nat list \<Rightarrow> 256 word \<Rightarrow> bytes \<Rightarrow> (256 word \<times> bytes) option" where
  "amount256_loop [] result src =
     (case src of
        [] \<Rightarrow> None
      | byte # src \<Rightarrow>
          (let value_byte = byte AND 0x7F in
           if value_byte AND 0xF0 \<noteq> 0 then None
           else do {
             result \<leftarrow> checked_add result (push_bit (36 * 7) (ucast value_byte));
             if byte AND 0x80 = 0 then Some (result, src) else None
           }))"
| "amount256_loop (i # is) result [] = None"
| "amount256_loop (i # is) result (byte # src) = do {
     let value_byte = ucast (byte AND 0x7F);
     result \<leftarrow> checked_add result (push_bit (i * 7) value_byte);
     if byte AND 0x80 = 0 then Some (result, src) else amount256_loop is result src
   }"

definition amount256_deserial :: "bytes \<Rightarrow> (256 word \<times> bytes) option" where
  "amount256_deserial src = amount256_loop [0..<36] 0 src"

text \<open>The loop of its \<^verbatim>\<open>Serial\<close> is that of the other amounts.\<close>

definition amount256_serial :: "256 word \<Rightarrow> bytes" where
  "amount256_serial v = amount_serial v"

text \<open>
  The arithmetic of the amounts is that of the wrapped integers: it wraps in a contract built for
  release; \<^verbatim>\<open>Sum\<close> folds from zero and a remainder by zero panics.
\<close>

definition amount_add :: "'w::len word \<Rightarrow> 'w word \<Rightarrow> 'w word" where "amount_add a b = a + b"
definition amount_sub :: "'w::len word \<Rightarrow> 'w word \<Rightarrow> 'w word" where "amount_sub a b = a - b"
definition amount_mul :: "'w::len word \<Rightarrow> 'w word \<Rightarrow> 'w word" where "amount_mul a b = a * b"

definition amount_rem :: "'w::len word \<Rightarrow> 'w word \<Rightarrow> 'w word option" where
  "amount_rem a b = (if b = 0 then None else Some (a mod b))"

definition amount_sum :: "'w::len word list \<Rightarrow> 'w word" where
  "amount_sum as = foldl amount_add 0 as"

section \<open>Token identifiers\<close>

text \<open>
  The integers of the identifiers as little-endian bytes, \<open>n\<close> of them. \<open>read_le\<close> is \<^verbatim>\<open>read_u16\<close> and its
  siblings on a byte source.
\<close>

definition to_le_bytes :: "nat \<Rightarrow> 'w::len word \<Rightarrow> bytes" where
  "to_le_bytes n v = map (\<lambda>i. ucast (drop_bit (8 * i) v)) [0..<n]"

definition from_le_bytes :: "bytes \<Rightarrow> 'w::len word" where
  "from_le_bytes bs = foldr (\<lambda>b v. push_bit 8 v + ucast b) bs 0"

definition read_le :: "nat \<Rightarrow> bytes \<Rightarrow> ('w::len word \<times> bytes) option" where
  "read_le n src = (if n \<le> length src then Some (from_le_bytes (take n src), drop n src) else None)"

definition read_u8 :: "bytes \<Rightarrow> (u8 \<times> bytes) option" where
  "read_u8 src = (case src of [] \<Rightarrow> None | b # src \<Rightarrow> Some (b, src))"

definition token_id_u64_serial :: "u64 \<Rightarrow> bytes" where "token_id_u64_serial v = 8 # to_le_bytes 8 v"
definition token_id_u32_serial :: "u32 \<Rightarrow> bytes" where "token_id_u32_serial v = 4 # to_le_bytes 4 v"
definition token_id_u16_serial :: "u16 \<Rightarrow> bytes" where "token_id_u16_serial v = 2 # to_le_bytes 2 v"
definition token_id_u8_serial :: "u8 \<Rightarrow> bytes" where "token_id_u8_serial v = [1, v]"
definition token_id_unit_serial :: "unit \<Rightarrow> bytes" where "token_id_unit_serial _ = [0]"

definition token_id_u64_deserial :: "bytes \<Rightarrow> (u64 \<times> bytes) option" where
  "token_id_u64_deserial src = do { (byte_length, src) \<leftarrow> read_u8 src; if byte_length = 8 then read_le 8 src else None }"

definition token_id_u32_deserial :: "bytes \<Rightarrow> (u32 \<times> bytes) option" where
  "token_id_u32_deserial src = do { (byte_length, src) \<leftarrow> read_u8 src; if byte_length = 4 then read_le 4 src else None }"

definition token_id_u16_deserial :: "bytes \<Rightarrow> (u16 \<times> bytes) option" where
  "token_id_u16_deserial src = do { (byte_length, src) \<leftarrow> read_u8 src; if byte_length = 2 then read_le 2 src else None }"

definition token_id_u8_deserial :: "bytes \<Rightarrow> (u8 \<times> bytes) option" where
  "token_id_u8_deserial src = do { (byte_length, src) \<leftarrow> read_u8 src; if byte_length = 1 then read_u8 src else None }"

definition token_id_unit_deserial :: "bytes \<Rightarrow> (unit \<times> bytes) option" where
  "token_id_unit_deserial src = do { (byte_length, src) \<leftarrow> read_u8 src; if byte_length = 0 then Some ((), src) else None }"

text \<open>\<^verbatim>\<open>TokenIdFixed<N>\<close>: the identifier is the array of its \<open>n\<close> bytes; more than 255 cannot be written.\<close>

definition token_id_fixed_serial :: "nat \<Rightarrow> bytes \<Rightarrow> bytes option" where
  "token_id_fixed_serial n v = (if n < 256 then Some (of_nat n # v) else None)"

definition token_id_fixed_deserial :: "nat \<Rightarrow> bytes \<Rightarrow> (bytes \<times> bytes) option" where
  "token_id_fixed_deserial n src = do {
     (byte_length, src) \<leftarrow> read_u8 src;
     if unat byte_length \<noteq> n then None
     else if n \<le> length src then Some (take n src, drop n src) else None
   }"

section \<open>Identifiers as text\<close>

text \<open>\<^verbatim>\<open>{:02X}\<close>.\<close>

definition hex_digit :: "nat \<Rightarrow> char" where
  "hex_digit d = char_of (if d < 10 then 48 + d else 55 + d)"

definition hex_byte :: "u8 \<Rightarrow> string" where
  "hex_byte b = [hex_digit (unat b div 16), hex_digit (unat b mod 16)]"

definition display_bytes :: "bytes \<Rightarrow> string" where
  "display_bytes bs = concat (map hex_byte bs)"

text \<open>\<^verbatim>\<open>char::to_digit(16)\<close> on the code of a character.\<close>

definition to_digit :: "char \<Rightarrow> nat option" where
  "to_digit c = (let n = of_char c in
     if 48 \<le> n \<and> n \<le> 57 then Some (n - 48)
     else if 65 \<le> n \<and> n \<le> 70 then Some (n - 55)
     else if 97 \<le> n \<and> n \<le> 102 then Some (n - 87)
     else None)"

text \<open>\<^verbatim>\<open>u8::from_str_radix(_, 16)\<close> on two characters: a leading plus sign is accepted.\<close>

definition from_str_radix :: "char \<Rightarrow> char \<Rightarrow> u8 option" where
  "from_str_radix a b =
     (if a = CHR ''+'' then map_option of_nat (to_digit b)
      else do { x \<leftarrow> to_digit a; y \<leftarrow> to_digit b; Some (of_nat (16 * x + y)) })"

definition is_ascii :: "string \<Rightarrow> bool" where
  "is_ascii s = list_all (\<lambda>c. (of_char c :: nat) < 128) s"

text \<open>The loop over the pairs of characters, until the first one that is not a byte.\<close>

fun parse_pairs :: "string \<Rightarrow> bytes option" where
  "parse_pairs (a # b # s) = do { byte \<leftarrow> from_str_radix a b; bs \<leftarrow> parse_pairs s; Some (byte # bs) }"
| "parse_pairs s = Some []"

definition token_id_vec_from_str :: "string \<Rightarrow> bytes option" where
  "token_id_vec_from_str s = (if length s mod 2 \<noteq> 0 \<or> \<not> is_ascii s then None else parse_pairs s)"

definition parse_bytes_exact :: "nat \<Rightarrow> string \<Rightarrow> bytes option" where
  "parse_bytes_exact n s = (if length s \<noteq> 2 * n \<or> \<not> is_ascii s then None else parse_pairs s)"

definition token_id_u64_from_str :: "string \<Rightarrow> u64 option" where
  "token_id_u64_from_str s = map_option from_le_bytes (parse_bytes_exact 8 s)"

definition token_id_u32_from_str :: "string \<Rightarrow> u32 option" where
  "token_id_u32_from_str s = map_option from_le_bytes (parse_bytes_exact 4 s)"

definition token_id_u16_from_str :: "string \<Rightarrow> u16 option" where
  "token_id_u16_from_str s = map_option from_le_bytes (parse_bytes_exact 2 s)"

definition token_id_u8_from_str :: "string \<Rightarrow> u8 option" where
  "token_id_u8_from_str s = Option.bind (parse_bytes_exact 1 s) (\<lambda>bs. vec_get bs 0)"

definition token_id_u64_fmt :: "u64 \<Rightarrow> string" where "token_id_u64_fmt v = display_bytes (to_le_bytes 8 v)"
definition token_id_u32_fmt :: "u32 \<Rightarrow> string" where "token_id_u32_fmt v = display_bytes (to_le_bytes 4 v)"
definition token_id_u16_fmt :: "u16 \<Rightarrow> string" where "token_id_u16_fmt v = display_bytes (to_le_bytes 2 v)"
definition token_id_u8_fmt :: "u8 \<Rightarrow> string" where "token_id_u8_fmt v = display_bytes (to_le_bytes 1 v)"

definition token_id_unit_try_from :: "string \<Rightarrow> unit option" where
  "token_id_unit_try_from s = (if s = [] then Some () else None)"

text \<open>\<^verbatim>\<open>StandardIdentifier::new\<close> and its owned version.\<close>

definition standard_identifier_new :: "string \<Rightarrow> string option" where
  "standard_identifier_new i = (if length i > 255 \<or> \<not> is_ascii i then None else Some i)"

end
