(* ===== verification/Cis2_Properties.thy ===== *)
theory Cis2_Properties
  imports Cis2_Codec
begin

unbundle bit_operations_syntax

text \<open>
  The encodings of \<^verbatim>\<open>concordium-cis2\<close> against reference definitions: LEB128 on natural numbers, and
  hexadecimal text.
\<close>

section \<open>LEB128\<close>

text \<open>The number a byte sequence starts with, in at most \<open>k\<close> bytes.\<close>

fun leb128_decode :: "nat \<Rightarrow> bytes \<Rightarrow> (nat \<times> bytes) option" where
  "leb128_decode 0 bs = None"
| "leb128_decode (Suc k) [] = None"
| "leb128_decode (Suc k) (b # bs) =
     (if unat b < 128 then Some (unat b, bs)
      else map_option (\<lambda>(n, rest). (unat b mod 128 + 128 * n, rest)) (leb128_decode k bs))"

lemma leb128_decode_numeral [simp]:
  "leb128_decode (numeral k) (b # bs) =
     (if unat b < 128 then Some (unat b, bs)
      else map_option (\<lambda>(n, rest). (unat b mod 128 + 128 * n, rest)) (leb128_decode (pred_numeral k) bs))"
  by (simp add: numeral_eq_Suc)

lemma unat_low7: "unat (b AND 0x7F :: u8) = unat b mod 128"
proof -
  have "(0x7F :: u8) = mask 7" by (simp add: mask_eq_exp_minus_1)
  then have "b AND 0x7F = take_bit 7 b" by (simp only: take_bit_eq_mask)
  then have "unat (b AND 0x7F) = take_bit 7 (unat b)" by (simp only: unsigned_take_bit_eq)
  then show ?thesis by (simp add: take_bit_eq_mod)
qed

lemma high_bit: "(b AND 0x80 = 0) \<longleftrightarrow> unat (b :: u8) < 128"
proof -
  have "b AND 0x80 = 0 \<longleftrightarrow> \<not> bit b 7" using and_exp_eq_0_iff_not_bit [of b 7] by simp
  also have "\<dots> \<longleftrightarrow> \<not> bit (unat b) 7" by (simp add: bit_simps)
  also have "\<dots> \<longleftrightarrow> \<not> odd (unat b div 128)" by (simp add: bit_iff_odd)
  also have "\<dots> \<longleftrightarrow> unat b < 128"
  proof -
    have "unat b div 128 = 0 \<or> unat b div 128 = 1" using unsigned_less [of b, where ?'a = nat] by auto
    then show ?thesis by (auto simp: div_eq_0_iff)
  qed
  finally show ?thesis .
qed

text \<open>The bits of a byte shifted into place, when the shifted number fits.\<close>

lemma shifted_byte:
  assumes "8 \<le> LENGTH('w)" "2 ^ n * (unat b mod 128) < 2 ^ LENGTH('w)"
  shows "unat (push_bit n (ucast (b AND 0x7F :: u8) :: 'w::len word)) = 2 ^ n * (unat b mod 128)"
    "unat (rust_shl (ucast (b AND 0x7F :: u8) :: 'w::len word) n) = 2 ^ n * (unat b mod 128)"
proof -
  have "unat b mod 128 < 2 ^ 8" by simp
  also have "\<dots> \<le> 2 ^ LENGTH('w)" by (rule power_increasing) (use assms(1) in auto)
  finally have m: "unat (ucast (b AND 0x7F :: u8) :: 'w word) = unat b mod 128"
    by (simp add: unsigned_ucast_eq unat_low7 take_bit_eq_mod)
  then have u: "unat (push_bit n (ucast (b AND 0x7F :: u8) :: 'w word)) = 2 ^ n * (unat b mod 128)"
    using assms(2) unfolding unsigned_push_bit_eq m by (simp add: take_bit_eq_mod push_bit_eq_mult mult.commute)
  then show "unat (push_bit n (ucast (b AND 0x7F :: u8) :: 'w word)) = 2 ^ n * (unat b mod 128)" .
  show "unat (rust_shl (ucast (b AND 0x7F :: u8) :: 'w word) n) = 2 ^ n * (unat b mod 128)"
  proof (cases "unat b mod 128 = 0")
    case True
    then have "(ucast (b AND 0x7F :: u8) :: 'w word) = 0" using m by (simp add: unat_eq_zero)
    then show ?thesis using True by (simp add: rust_shl_def)
  next
    case False
    then have "(2 :: nat) ^ n < 2 ^ LENGTH('w)" using assms(2) by (metis le_less_trans mult.commute mult_le_mono1 nat_mult_1 not_gr0 Suc_leI One_nat_def)
    then have "n < LENGTH('w)" by simp
    then show ?thesis using u by (simp add: rust_shl_def)
  qed
qed

lemma checked_add_ok:
  assumes "unat x + unat y < 2 ^ LENGTH('w)"
  shows "checked_add x (y :: 'w::len word) = Some (x + y)" "unat (x + y) = unat x + unat y"
  using assms by (simp_all add: checked_add_def unat_word_ariths)

lemma amount_loop_fits:
  assumes "8 \<le> LENGTH('w)" "leb128_decode k src = Some (n, rest)" "unat r + 2 ^ (i * 7) * n < 2 ^ LENGTH('w)"
  shows "\<exists>r'. amount_loop [i..<i + k] (r :: 'w::len word) src = Some (r', rest) \<and> unat r' = unat r + 2 ^ (i * 7) * n"
  using assms(2,3)
proof (induction k arbitrary: src n i r)
  case (Suc k)
  obtain b bs where src: "src = b # bs" using Suc.prems(1) by (cases src) auto
  define y where "y = rust_shl (ucast (b AND 0x7F :: u8) :: 'w word) (i * 7)"
  define js where "js = [Suc i..<Suc i + k]"
  have upt: "[i..<i + Suc k] = i # js" by (simp add: js_def upt_conv_Cons)
  show ?case
  proof (cases "unat b < 128")
    case True
    then have n: "n = unat b" "rest = bs" using Suc.prems(1) src by auto
    have y: "unat y = 2 ^ (i * 7) * n" unfolding y_def using shifted_byte(2) [OF assms(1), of "i * 7" b] Suc.prems(2) True n by simp
    then have "checked_add r y = Some (r + y)" "unat (r + y) = unat r + 2 ^ (i * 7) * n"
      using checked_add_ok [of r y] Suc.prems(2) by auto
    then show ?thesis using True n src high_bit [of b] unfolding upt by (simp flip: y_def)
  next
    case False
    then obtain n' where n': "leb128_decode k bs = Some (n', rest)" "n = unat b mod 128 + 128 * n'"
      using Suc.prems(1) src by auto
    have split: "2 ^ (i * 7) * n = 2 ^ (i * 7) * (unat b mod 128) + 2 ^ (Suc i * 7) * n'"
      by (simp add: n'(2) algebra_simps power_add)
    have y: "unat y = 2 ^ (i * 7) * (unat b mod 128)"
      unfolding y_def using shifted_byte(2) [OF assms(1), of "i * 7" b] Suc.prems(2) split by simp
    then have r: "checked_add r y = Some (r + y)" "unat (r + y) = unat r + 2 ^ (i * 7) * (unat b mod 128)"
      using checked_add_ok [of r y] Suc.prems(2) split by auto
    have "unat (r + y) + 2 ^ (Suc i * 7) * n' < 2 ^ LENGTH('w)" using Suc.prems(2) split r(2) by simp
    from Suc.IH [OF n'(1) this] show ?thesis
      unfolding js_def [symmetric] using False r split src high_bit [of b] unfolding upt by (simp add: add.assoc flip: y_def)
  qed
qed simp

lemma amount_serial_decode:
  assumes "unat v < 2 ^ (7 * k)" "0 < k"
  shows "leb128_decode k (amount_serial v @ rest) = Some (unat v, rest) \<and> length (amount_serial v) \<le> k \<and>
    (1 < length (amount_serial v) \<longrightarrow> 2 ^ (7 * (length (amount_serial v) - 1)) \<le> unat v)"
  using assms
proof (induction v arbitrary: k rule: amount_serial.induct)
  case (1 v)
  obtain j where k: "k = Suc j" using 1(3) by (cases k) auto
  let ?w = "drop_bit 7 v"
  have w: "unat ?w = unat v div 128" by (simp add: unat_drop_bit)
  have low: "unat (ucast v AND 0x7F :: u8) = unat v mod 128"
    by (simp add: unat_low7 unsigned_ucast_eq take_bit_eq_mod mod_mod_cancel)
  show ?case
  proof (cases "?w = 0")
    case True
    then have "amount_serial v = [ucast v AND 0x7F]" "unat v < 128"
      using w amount_serial.simps [of v] by (auto simp: Let_def unat_eq_zero div_eq_0_iff)
    then show ?thesis using low k by simp
  next
    case False
    let ?b = "(ucast v AND 0x7F) OR 0x80 :: u8"
    have s: "amount_serial v = ?b # amount_serial ?w" using False amount_serial.simps [of v] by (simp add: Let_def)
    have "?b AND 0x7F = ucast v AND 0x7F" by (simp add: bit.conj_disj_distrib2 and.assoc)
    then have b: "unat ?b mod 128 = unat v mod 128" using unat_low7 [of ?b] low by simp
    have "?b AND 0x80 = 0x80" by (simp add: bit.conj_disj_distrib2 and.assoc)
    then have hi: "\<not> unat ?b < 128" using high_bit [of ?b] by simp
    have pos: "1 \<le> unat v div 128" using False w unat_gt_0 [of ?w] by simp
    have j: "0 < j" "unat ?w < 2 ^ (7 * j)"
    proof -
      show "0 < j" using 1(2) k pos by (cases j) auto
      show "unat ?w < 2 ^ (7 * j)" using 1(2) k w by (simp add: power_add div_less_iff_less_mult mult.commute)
    qed
    note IH = "1.IH" [OF refl refl False j(2,1)]
    have "2 ^ (7 * (length (amount_serial v) - 1)) \<le> unat v"
    proof (cases "1 < length (amount_serial ?w)")
      case True
      then have "2 ^ (7 * (length (amount_serial ?w) - 1)) * 128 \<le> unat v div 128 * 128" using IH w by simp
      also have "\<dots> \<le> unat v" by simp
      also have "2 ^ (7 * (length (amount_serial ?w) - 1)) * 128 = (2 :: nat) ^ (7 * (length (amount_serial v) - 1))"
        using True s by (cases "length (amount_serial ?w)") (auto simp: power_add)
      finally show ?thesis .
    next
      case False
      moreover have "amount_serial ?w \<noteq> []" using amount_serial.simps [of ?w] by (simp add: Let_def)
      ultimately have "length (amount_serial v) = 2" using s by (cases "amount_serial ?w") auto
      then show ?thesis using pos by simp
    qed
    then show ?thesis using IH s b hi k w by (simp add: mod_mult_div_eq)
  qed
qed

lemma amount_deserial_fits:
  assumes "8 \<le> LENGTH('w)" "leb128_decode 37 src = Some (n, rest)" "n < 2 ^ LENGTH('w)"
  shows "amount_deserial src = Some (of_nat n :: 'w::len word, rest)"
proof -
  obtain r' :: "'w word" where r': "amount_loop [0..<0 + 37] 0 src = Some (r', rest)" "unat r' = n"
    using amount_loop_fits [OF assms(1,2), where r = 0 and i = 0] assms(3) by auto
  then show ?thesis using assms(3) by (simp add: amount_deserial_def word_unat_eq_iff unsigned_of_nat take_bit_eq_mod)
qed

lemma high_nibble: "x AND 0xF0 = 0 \<longleftrightarrow> unat (x :: u8) < 16"
proof -
  have "x AND 0xF0 = push_bit 4 (drop_bit 4 x)"
    unfolding nibble_masks by (rule bit_word_eqI) (auto simp: bit_simps)
  also have "\<dots> = 0 \<longleftrightarrow> drop_bit 4 x = 0"
  proof -
    have "drop_bit 4 (push_bit 4 (drop_bit 4 x)) = drop_bit 4 x"
      by (rule bit_word_eqI) (auto simp: bit_simps dest: bit_imp_le_length)
    then show ?thesis by (metis drop_bit_of_0 push_bit_of_0)
  qed
  also have "\<dots> \<longleftrightarrow> unat x div 16 = 0" using unat_drop_bit [of 4 x] unat_eq_zero [of "drop_bit 4 x"] by simp
  also have "\<dots> \<longleftrightarrow> unat x < 16" by (simp add: div_eq_0_iff)
  finally show ?thesis .
qed

lemma amount256_last:
  assumes n: "n = 36 * 7" and r: "unat r < 2 ^ n"
  shows "amount256_loop [] r (b # bs) =
    (if unat b < 128 \<and> unat r + 2 ^ n * unat b < 2 ^ 256 then Some (of_nat (unat r + 2 ^ n * unat b), bs) else None)"
proof -
  define y where "y = push_bit n (ucast (b AND 0x7F :: u8) :: 256 word)"
  have step: "amount256_loop [] r (b # bs) = (if unat b mod 128 < 16 then do {
      result \<leftarrow> checked_add r y; if unat b < 128 then Some (result, bs) else None } else None)"
    unfolding amount256_loop.simps(1) y_def n by (simp add: Let_def high_nibble unat_low7 high_bit del: push_bit_numeral_minus_1)
  have top: "(2 :: nat) ^ 256 = 2 ^ n * 16" unfolding n by simp
  show ?thesis
  proof (cases "unat b mod 128 < 16")
    case True
    have "unat r + 2 ^ n * (unat b mod 128) < 2 ^ n + 2 ^ n * 15"
      using r True by (intro add_less_le_mono mult_le_mono2) auto
    then have fits: "unat r + 2 ^ n * (unat b mod 128) < 2 ^ 256" unfolding top by simp
    have "unat y = 2 ^ n * (unat b mod 128)"
      unfolding y_def by (rule shifted_byte(1)) (use fits in auto)
    then have ry: "checked_add r y = Some (r + y)" "unat (r + y) = unat r + 2 ^ n * (unat b mod 128)"
      using checked_add_ok [of r y] fits by auto
    then have "unat b < 128 \<Longrightarrow> r + y = of_nat (unat r + 2 ^ n * unat b)" by (metis mod_less of_nat_unat ucast_id)
    then show ?thesis using step True ry(1) fits by auto
  next
    case False
    have "\<not> unat r + 2 ^ n * unat b < 2 ^ 256" if "unat b < 128"
    proof -
      have "2 ^ n * 16 \<le> 2 ^ n * unat b" using False that by (intro mult_le_mono2) simp
      then show ?thesis unfolding top by linarith
    qed
    then show ?thesis using step False by auto
  qed
qed

lemma amount256_loop_exact:
  assumes "i + k = 36" "unat r < 2 ^ (i * 7)"
  shows "amount256_loop [i..<36] r src = (case leb128_decode (Suc k) src of None \<Rightarrow> None
    | Some (n, rest) \<Rightarrow> let t = unat r + 2 ^ (i * 7) * n in if t < 2 ^ 256 then Some (of_nat t, rest) else None)"
  using assms
proof (induction k arbitrary: i r src)
  case 0
  then have i: "i = 36" by simp
  show ?case
  proof (cases src)
    case (Cons b bs)
    have "unat r < 2 ^ (i * 7)" using 0 by simp
    from amount256_last [OF _ this, of b bs] show ?thesis using Cons i by (simp add: Let_def)
  qed (simp add: i)
next
  case (Suc k)
  show ?case
  proof (cases src)
    case (Cons b bs)
    define y where "y = push_bit (i * 7) (ucast (b AND 0x7F :: u8) :: 256 word)"
    define js where "js = [Suc i..<36]"
    have upt: "[i..<36] = i # js" using Suc.prems(1) by (simp add: js_def upt_conv_Cons)
    have m: "unat b mod 128 \<le> 127" by (simp add: less_Suc_eq_le [symmetric])
    have "unat r + 2 ^ (i * 7) * (unat b mod 128) < 2 ^ (i * 7) + 2 ^ (i * 7) * 127"
      using Suc.prems(2) m by (intro add_less_le_mono mult_le_mono2)
    then have small: "unat r + 2 ^ (i * 7) * (unat b mod 128) < 2 ^ (Suc i * 7)" by (simp add: power_add)
    have "(2 :: nat) ^ (Suc i * 7) \<le> 2 ^ 252" by (rule power_increasing) (use Suc.prems(1) in auto)
    then have fits: "unat r + 2 ^ (i * 7) * (unat b mod 128) < 2 ^ 256" using small by simp
    have y: "unat y = 2 ^ (i * 7) * (unat b mod 128)"
      unfolding y_def using shifted_byte(1) [of "i * 7" b, where ?'w = 256] fits by simp
    then have r: "checked_add r y = Some (r + y)" "unat (r + y) = unat r + 2 ^ (i * 7) * (unat b mod 128)"
      using checked_add_ok [of r y] fits by auto
    show ?thesis
    proof (cases "unat b < 128")
      case True
      have "unat (r + y) = unat r + 2 ^ (i * 7) * unat b" using r(2) True by simp
      then have "r + y = of_nat (unat r + 2 ^ (i * 7) * unat b)" by (metis of_nat_unat ucast_id)
      then show ?thesis using Cons True r fits high_bit [of b] unfolding upt by (simp add: Let_def flip: y_def)
    next
      case False
      have split: "unat r + 2 ^ (i * 7) * (unat b mod 128 + 128 * n) = unat (r + y) + 2 ^ (Suc i * 7) * n" for n
        by (simp add: r(2) algebra_simps power_add)
      have IH: "amount256_loop js (r + y) bs = (case leb128_decode (Suc k) bs of None \<Rightarrow> None
          | Some (n, rest) \<Rightarrow> let t = unat (r + y) + 2 ^ (Suc i * 7) * n in if t < 2 ^ 256 then Some (of_nat t, rest) else None)"
        unfolding js_def by (rule Suc.IH) (use Suc.prems(1) small r(2) in auto)
      have run: "amount256_loop [i..<36] r src = amount256_loop js (r + y) bs"
        using Cons False r(1) high_bit [of b] unfolding upt by (simp flip: y_def)
      have dec: "leb128_decode (Suc (Suc k)) src =
          map_option (\<lambda>(n, rest). (unat b mod 128 + 128 * n, rest)) (leb128_decode (Suc k) bs)"
        using Cons False by simp
      show ?thesis unfolding run IH dec by (simp add: split Let_def split: option.split prod.split)
    qed
  qed (use Suc.prems(1) in \<open>simp add: upt_conv_Cons\<close>)
qed

text \<open>
  The amount types of any width up to 259 bits: an encoded amount decodes to itself, whatever
  follows it; the encoding uses the fewest bytes possible, at most one for each seven bits of the
  type, so it is within the 37 bytes of the standard.
\<close>

lemma amount_roundtrip:
  fixes v :: "'w::len word"
  assumes "8 \<le> LENGTH('w)" "LENGTH('w) \<le> 259"
  shows "amount_deserial (amount_serial v @ rest) = Some (v, rest) \<and>
    7 * length (amount_serial v) < LENGTH('w) + 7 \<and> length (amount_serial v) \<le> 37 \<and>
    (1 < length (amount_serial v) \<longrightarrow> 2 ^ (7 * (length (amount_serial v) - 1)) \<le> unat v)"
proof -
  define k where "k = (LENGTH('w) + 6) div 7"
  have k: "LENGTH('w) \<le> 7 * k" "7 * k < LENGTH('w) + 7" "0 < k" "k \<le> 37" using assms by (auto simp: k_def)
  have lt: "unat v < 2 ^ LENGTH('w)" by (rule unsigned_less)
  have "unat v < 2 ^ (7 * m)" if "k \<le> m" for m
    using lt power_increasing [of "LENGTH('w)" "7 * m" "2 :: nat"] k(1) that by linarith
  then have v: "unat v < 2 ^ (7 * k)" "unat v < 2 ^ (7 * 37)" using k(4) by blast+
  note dec = amount_serial_decode [OF v(1) k(3), of rest]
  have "amount_deserial (amount_serial v @ rest) = Some (of_nat (unat v) :: 'w word, rest)"
    using amount_serial_decode [OF v(2), of rest] lt by (intro amount_deserial_fits [OF assms(1)]) auto
  then show ?thesis using dec k by auto
qed

lemma amount_roundtrip_sample:
  "amount_deserial (amount_serial (300 :: u64) @ [5]) = Some (300 :: u64, [5]) \<and> length (amount_serial (300 :: u64)) \<le> 10"
  using amount_roundtrip [of "300 :: u64" "[5]"] by simp

lemma amount256_deserial_ref:
  "amount256_deserial src = (case leb128_decode 37 src of
     None \<Rightarrow> None | Some (n, rest) \<Rightarrow> if n < 2 ^ 256 then Some (of_nat n, rest) else None)"
  unfolding amount256_deserial_def
  using amount256_loop_exact [of 0 36 0 src] by (simp only: Let_def unsigned_0 mult_0 power_0 mult_1 add_0) simp

text \<open>
  C38. \<^verbatim>\<open>TokenAmountU256\<close> decodes exactly the numbers below \<^verbatim>\<open>2^256\<close> that at most 37 bytes of LEB128
  denote, and rejects everything else: no bit is lost and no overflow goes unnoticed.
\<close>

theorem amount256_deserial_exact:
  "amount256_deserial src = (case leb128_decode 37 src of
     None \<Rightarrow> None | Some (n, rest) \<Rightarrow> if n < 2 ^ 256 then Some (of_nat n, rest) else None)"
  by (rule amount256_deserial_ref)

text \<open>A \<^verbatim>\<open>TokenAmountU256\<close> decodes to itself, whatever follows it.\<close>

lemma amount256_roundtrip: "amount256_deserial (amount256_serial v @ rest) = Some (v, rest)"
proof -
  have lt: "unat v < 2 ^ 256" using unsigned_less [of v, where ?'a = nat] by simp
  also have "(2 :: nat) ^ 256 \<le> 2 ^ (7 * 37)" by (rule power_increasing) auto
  finally have "leb128_decode 37 (amount_serial v @ rest) = Some (unat v, rest)"
    using amount_serial_decode [of v 37 rest] by simp
  then show ?thesis using lt unfolding amount256_serial_def amount256_deserial_ref by simp
qed

lemma indices37: "[0..<37] = [0, 1, 2, 3, 4, 5, 6, 7, 8, 9] @ [10..<37]"
  by (simp add: upt_rec)

text \<open>
  The other amount types lose bits: a number that does not fit the type is decoded to a smaller
  one instead of being rejected when the bits that are too high share a byte with others or when the
  shift distance passes the width.
\<close>

lemma amount_deserial_drops_bits:
  "leb128_decode 37 [0x80, 2] = Some (256, []) \<and> amount_deserial [0x80, 2] = Some (0 :: u8, []) \<and>
   leb128_decode 37 [0x80, 0x80, 1] = Some (2 ^ 14, []) \<and> amount_deserial [0x80, 0x80, 1] = Some (64 :: u8, []) \<and>
   leb128_decode 37 [0x80, 0x80, 0x80, 0x80, 0x80, 0x80, 0x80, 0x80, 0x80, 2] = Some (2 ^ 64, []) \<and>
   amount_deserial [0x80, 0x80, 0x80, 0x80, 0x80, 0x80, 0x80, 0x80, 0x80, 2] = Some (0 :: u64, [])"
  unfolding amount_deserial_def indices37 by (simp add: checked_add_def rust_shl_def)

section \<open>Token identifiers\<close>

lemma length_to_le_bytes [simp]: "length (to_le_bytes n v) = n"
  by (simp add: to_le_bytes_def)

lemma from_le_bytes_drop:
  fixes v :: "'w::len word"
  assumes "k \<le> n" "LENGTH('w) \<le> 8 * n"
  shows "from_le_bytes (map (\<lambda>i. ucast (drop_bit (8 * i) v)) [k..<n]) = drop_bit (8 * k) v"
  using assms(1)
proof (induction rule: inc_induct)
  case base
  have "drop_bit (8 * n) v = 0"
    by (rule bit_word_eqI) (use assms(2) in \<open>auto simp: bit_simps dest: bit_imp_le_length\<close>)
  then show ?case by (simp add: from_le_bytes_def)
next
  case (step k)
  have low: "ucast (ucast x :: u8) = take_bit 8 (x :: 'w word)" for x
    by (rule bit_word_eqI) (auto simp: bit_simps)
  have "push_bit 8 (drop_bit (8 * Suc k) v) + take_bit 8 (drop_bit (8 * k) v) = drop_bit (8 * k) v"
    using bits_ident [of 8 "drop_bit (8 * k) v"] by (simp add: add.commute)
  then show ?case using step by (simp add: upt_conv_Cons from_le_bytes_def low)
qed

lemma from_to_le_bytes:
  "LENGTH('w) \<le> 8 * n \<Longrightarrow> from_le_bytes (to_le_bytes n v) = (v :: 'w::len word)"
  using from_le_bytes_drop [of 0 n v] by (simp add: to_le_bytes_def)

lemma read_le_to_le: "LENGTH('w) \<le> 8 * n \<Longrightarrow> read_le n (to_le_bytes n (v :: 'w::len word) @ rest) = Some (v, rest)"
  by (simp add: read_le_def from_to_le_bytes)

lemma to_le_bytes_one: "to_le_bytes (Suc 0) (v :: u8) = [v]"
  by (simp add: to_le_bytes_def)

text \<open>Hexadecimal text.\<close>

lemma hex_digit_code: "d < 16 \<Longrightarrow> of_char (hex_digit d) = (if d < 10 then 48 + d else 55 + d)"
  by (simp add: hex_digit_def)

lemma hex_digit_ok:
  assumes "d < 16"
  shows "to_digit (hex_digit d) = Some d" "hex_digit d \<noteq> CHR ''+''" "(of_char (hex_digit d) :: nat) < 128"
proof -
  show "to_digit (hex_digit d) = Some d" using assms by (simp add: to_digit_def Let_def hex_digit_code)
  show "(of_char (hex_digit d) :: nat) < 128" using assms by (simp add: hex_digit_code)
  have "(of_char (hex_digit d) :: nat) \<noteq> 43" using assms by (simp add: hex_digit_code)
  then show "hex_digit d \<noteq> CHR ''+''" by auto
qed

lemma from_str_radix_hex: "from_str_radix (hex_digit (unat b div 16)) (hex_digit (unat b mod 16)) = Some b"
proof -
  have "unat b div 16 < 16" using unsigned_less [of b, where ?'a = nat] by auto
  moreover have "(of_nat (16 * (unat b div 16) + unat b mod 16) :: u8) = b" by (simp only: mult_div_mod_eq) simp
  ultimately show ?thesis by (simp add: from_str_radix_def hex_digit_ok del: of_nat_add of_nat_mult)
qed

lemma parse_display:
  "parse_pairs (display_bytes bs) = Some bs" "length (display_bytes bs) = 2 * length bs" "is_ascii (display_bytes bs)"
proof -
  have "unat (b :: u8) div 16 < 16" for b using unsigned_less [of b, where ?'a = nat] by auto
  note digits = hex_digit_ok [OF this] hex_digit_ok [of "unat b mod 16" for b :: u8]
  show "parse_pairs (display_bytes bs) = Some bs"
    by (induction bs) (simp_all add: display_bytes_def hex_byte_def from_str_radix_hex)
  show "length (display_bytes bs) = 2 * length bs"
    by (induction bs) (simp_all add: display_bytes_def hex_byte_def)
  show "is_ascii (display_bytes bs)"
    by (induction bs) (simp_all add: display_bytes_def hex_byte_def is_ascii_def digits)
qed

lemma parse_bytes_exact_display: "length bs = n \<Longrightarrow> parse_bytes_exact n (display_bytes bs) = Some bs"
  by (simp add: parse_bytes_exact_def parse_display)

text \<open>
  Every token identifier type reads back the identifier it wrote, from bytes and, as the
  hexadecimal text it displays, from a string.
\<close>

lemma token_id_roundtrip:
  "token_id_u64_deserial (token_id_u64_serial a @ rest) = Some (a, rest) \<and>
   token_id_u32_deserial (token_id_u32_serial b @ rest) = Some (b, rest) \<and>
   token_id_u16_deserial (token_id_u16_serial c @ rest) = Some (c, rest) \<and>
   token_id_u8_deserial (token_id_u8_serial d @ rest) = Some (d, rest) \<and>
   token_id_unit_deserial (token_id_unit_serial u @ rest) = Some (u, rest) \<and>
   token_id_u64_from_str (token_id_u64_fmt a) = Some a \<and> token_id_u32_from_str (token_id_u32_fmt b) = Some b \<and>
   token_id_u16_from_str (token_id_u16_fmt c) = Some c \<and> token_id_u8_from_str (token_id_u8_fmt d) = Some d \<and>
   token_id_vec_from_str (display_bytes v) = Some v"
  by (simp add: token_id_u64_deserial_def token_id_u64_serial_def token_id_u32_deserial_def token_id_u32_serial_def
      token_id_u16_deserial_def token_id_u16_serial_def token_id_u8_deserial_def token_id_u8_serial_def
      token_id_unit_deserial_def token_id_unit_serial_def read_u8_def read_le_to_le
      token_id_u64_from_str_def token_id_u64_fmt_def token_id_u32_from_str_def token_id_u32_fmt_def
      token_id_u16_from_str_def token_id_u16_fmt_def token_id_u8_from_str_def token_id_u8_fmt_def
      parse_bytes_exact_display from_to_le_bytes token_id_vec_from_str_def parse_display to_le_bytes_one vec_get_def)

end
