(* ===== verification/Contract_Host.thy ===== *)
theory Contract_Host
  imports Host Cis2_Properties
begin

text \<open>
  What the entrypoints of the example contracts see: the context of a call, the host with the state,
  the balance and the log of the contract, transfers to accounts, and the data types of
  \<^verbatim>\<open>concordium-cis2/src/lib.rs\<close> that tokens share. A collection in the state is the map or set it
  was shown to behave as. A parameter that does not parse is \<open>None\<close>.
\<close>

section \<open>Results\<close>

text \<open>The \<^verbatim>\<open>?\<close> operator and \<^verbatim>\<open>ensure!\<close>.\<close>

definition try_bind :: "('e + 'a) \<Rightarrow> ('a \<Rightarrow> 'e + 'b) \<Rightarrow> 'e + 'b" where
  "try_bind r f = (case r of Inl e \<Rightarrow> Inl e | Inr x \<Rightarrow> f x)"

definition ensure :: "bool \<Rightarrow> 'e \<Rightarrow> ('e + 'a) \<Rightarrow> 'e + 'a" where
  "ensure c e r = (if c then r else Inl e)"

definition map_err :: "('e \<Rightarrow> 'f) \<Rightarrow> ('e + 'a) \<Rightarrow> 'f + 'a" where
  "map_err f r = (case r of Inl e \<Rightarrow> Inl (f e) | Inr x \<Rightarrow> Inr x)"

lemma try_bind_simps [simp]: "try_bind (Inl e) f = Inl e" "try_bind (Inr x) f = f x"
  by (simp_all add: try_bind_def)

lemma try_bind_Inr: "try_bind r f = Inr y \<longleftrightarrow> (\<exists>x. r = Inr x \<and> f x = Inr y)"
  by (cases r) auto

lemma ensure_Inr [simp]: "ensure c e r = Inr x \<longleftrightarrow> c \<and> r = Inr x"
  by (simp add: ensure_def)

lemma map_err_Inr [simp]: "map_err f r = Inr x \<longleftrightarrow> r = Inr x"
  by (cases r) (simp_all add: map_err_def)

text \<open>\<^verbatim>\<open>checked_add\<close> and \<^verbatim>\<open>checked_sub\<close> of 64-bit numbers, amounts and times among them.\<close>

definition checked_add_u64 :: "u64 \<Rightarrow> u64 \<Rightarrow> u64 option" where
  "checked_add_u64 a b = (if unat a + unat b < 2 ^ 64 then Some (a + b) else None)"

definition checked_sub_u64 :: "u64 \<Rightarrow> u64 \<Rightarrow> u64 option" where
  "checked_sub_u64 a b = (if b \<le> a then Some (a - b) else None)"

lemma checked_add_u64_Some: "checked_add_u64 a b = Some c \<longleftrightarrow> unat a + unat b < 2 ^ 64 \<and> c = a + b"
  by (auto simp: checked_add_u64_def)

lemma checked_sub_u64_Some: "checked_sub_u64 a b = Some c \<longleftrightarrow> b \<le> a \<and> c = a - b"
  by (auto simp: checked_sub_u64_def)

section \<open>Addresses and contexts\<close>

text \<open>Account addresses are 32 bytes, contract addresses an index and a subindex.\<close>

type_synonym account_address = bytes

record contract_address =
  ca_index :: u64
  ca_subindex :: u64

datatype address = Account account_address | Contract contract_address

record 'p receive_context =
  ctx_sender :: address
  ctx_parameter :: "'p option"
  ctx_slot_time :: u64
  ctx_owner :: account_address
  ctx_self_address :: contract_address

section \<open>The host\<close>

text \<open>\<open>h_transfers\<close> lists the transfers to accounts, \<open>h_logs\<close> the events of the current call.\<close>

record ('st, 'ev) contract_host =
  h_state :: 'st
  h_balance :: u64
  h_logs :: "'ev list"
  h_transfers :: "(account_address \<times> u64) list"

definition invoke_transfer ::
    "(account_address \<Rightarrow> bool) \<Rightarrow> ('st, 'ev) contract_host \<Rightarrow> account_address \<Rightarrow> u64 \<Rightarrow>
     transfer_error + ('st, 'ev) contract_host" where
  "invoke_transfer missing_accounts h receiver amount =
     (if missing_accounts receiver then Inl MissingAccount
      else if h_balance h \<ge> amount
        then Inr (h\<lparr>h_balance := h_balance h - amount, h_transfers := h_transfers h @ [(receiver, amount)]\<rparr>)
      else Inl AmountTooLarge)"

text \<open>Logging fails when the host says so; the event is appended otherwise.\<close>

type_synonym 'ev logger = "'ev list \<Rightarrow> 'ev \<Rightarrow> log_error option"

definition log_event :: "'ev logger \<Rightarrow> 'ev \<Rightarrow> ('st, 'ev) contract_host \<Rightarrow> log_error + ('st, 'ev) contract_host" where
  "log_event logger ev h =
     (case logger (h_logs h) ev of Some err \<Rightarrow> Inl err | None \<Rightarrow> Inr (h\<lparr>h_logs := h_logs h @ [ev]\<rparr>))"

lemma log_event_Inr: "log_event logger ev h = Inr h' \<Longrightarrow> h' = h\<lparr>h_logs := h_logs h @ [ev]\<rparr>"
  by (auto simp: log_event_def split: option.splits)

lemma invoke_transfer_Inr:
  assumes "invoke_transfer missing h receiver amount = Inr h'"
  shows "amount \<le> h_balance h" "\<not> missing receiver"
    "h' = h\<lparr>h_balance := h_balance h - amount, h_transfers := h_transfers h @ [(receiver, amount)]\<rparr>"
  using assms by (auto simp: invoke_transfer_def split: if_splits)

text \<open>The amount of a call is on the balance when the entrypoint starts.\<close>

definition receive_amount :: "u64 \<Rightarrow> ('st, 'ev) contract_host \<Rightarrow> ('st, 'ev) contract_host" where
  "receive_amount amount h = h\<lparr>h_balance := h_balance h + amount, h_logs := []\<rparr>"

section \<open>Types of the token standard\<close>

datatype receiver = ReceiverAccount account_address | ReceiverContract contract_address string

fun receiver_address :: "receiver \<Rightarrow> address" where
  "receiver_address (ReceiverAccount a) = Account a"
| "receiver_address (ReceiverContract c _) = Contract c"

datatype 'r cis2_error = InvalidTokenId | InsufficientFunds | Unauthorized | Custom 'r

text \<open>\<^verbatim>\<open>From<Cis2Error<R>> for Reject\<close>, given the serialization of the error and the code of a custom one.\<close>

definition reject_from_cis2_error :: "('r cis2_error \<Rightarrow> bytes) \<Rightarrow> ('r \<Rightarrow> reject) \<Rightarrow> 'r cis2_error \<Rightarrow> reject" where
  "reject_from_cis2_error to_bytes into err =
     \<lparr>rj_error_code = (case err of
        InvalidTokenId \<Rightarrow> - 42000001
      | InsufficientFunds \<Rightarrow> - 42000002
      | Unauthorized \<Rightarrow> - 42000003
      | Custom r \<Rightarrow> rj_error_code (into r)),
      rj_return_value = Some (to_bytes err)\<rparr>"

datatype operator_update = RemoveOperator | AddOperator

record ('t, 'a) transfer_params =
  tp_token_id :: 't
  tp_amount :: 'a
  tp_from :: address
  tp_to :: receiver
  tp_data :: bytes

record ('t, 'a) on_receiving_params =
  or_token_id :: 't
  or_amount :: 'a
  or_from :: address
  or_data :: bytes

record ('t, 'a, 'd) on_receiving_cis2_data_params =
  od_token_id :: 't
  od_amount :: 'a
  od_from :: address
  od_data :: 'd

record metadata_url =
  md_url :: string
  md_hash :: "bytes option"

datatype ('t, 'a) cis2_event =
    TransferEvent 't 'a address address
  | MintEvent 't 'a address
  | BurnEvent 't 'a address
  | UpdateOperatorEvent operator_update address address
  | TokenMetadataEvent 't metadata_url

datatype support_result = NoSupport | Support | SupportBy "contract_address list"

section \<open>Totals over a map\<close>

definition total :: "('v \<Rightarrow> nat) \<Rightarrow> ('k \<rightharpoonup> 'v) \<Rightarrow> nat" where
  "total f m = (\<Sum>k \<in> dom m. f (the (m k)))"

definition at_key :: "('v \<Rightarrow> nat) \<Rightarrow> ('k \<rightharpoonup> 'v) \<Rightarrow> 'k \<Rightarrow> nat" where
  "at_key f m k = (case m k of None \<Rightarrow> 0 | Some v \<Rightarrow> f v)"

lemma total_empty [simp]: "total f Map.empty = 0"
  by (simp add: total_def)

lemma total_upd:
  assumes "finite (dom m)"
  shows "total f (m(k \<mapsto> v)) + at_key f m k = total f m + f v"
proof -
  have "total f (m(k \<mapsto> v)) = f v + (\<Sum>j \<in> dom m - {k}. f (the ((m(k \<mapsto> v)) j)))"
    using assms by (simp add: total_def sum.insert_remove)
  also have "(\<Sum>j \<in> dom m - {k}. f (the ((m(k \<mapsto> v)) j))) = (\<Sum>j \<in> dom m - {k}. f (the (m j)))"
    by (rule sum.cong) auto
  finally have "total f (m(k \<mapsto> v)) = f v + (\<Sum>j \<in> dom m - {k}. f (the (m j)))" .
  moreover have "total f m = at_key f m k + (\<Sum>j \<in> dom m - {k}. f (the (m j)))"
    using assms sum.remove [of "dom m" k "\<lambda>j. f (the (m j))"]
    by (cases "m k") (auto simp: total_def at_key_def domIff)
  ultimately show ?thesis by simp
qed

lemma at_key_le_total: "finite (dom m) \<Longrightarrow> at_key f m k \<le> total f m"
  using member_le_sum [of k "dom m" "\<lambda>j. f (the (m j))"]
  by (cases "m k") (auto simp: at_key_def total_def)

end
