(* ===== verification/Wccd.thy ===== *)
theory Wccd
  imports Contract_Host
begin

text \<open>
  The contract of \<^verbatim>\<open>examples/cis2-wccd/src/lib.rs\<close>: tokens that wrap the chain's currency one to one.
  Receivers of tokens can be contracts, whose hooks run in the middle of a call and may call back:
  calls to other contracts are an argument of the entrypoints, and the reachable states close over
  everything a callee can do through the entrypoints.
\<close>

section \<open>State\<close>

record address_state =
  as_balance :: u64
  as_operators :: "address set"

record wccd_state =
  ws_admin :: address
  ws_paused :: bool
  ws_token :: "address \<rightharpoonup> address_state"
  ws_implementors :: "string \<rightharpoonup> contract_address list"
  ws_metadata_url :: metadata_url

datatype wccd_event = NewAdminEvent address | WccdCis2Event "(unit, u64) cis2_event"

datatype wccd_custom_error =
    ParseParams | LogFull | LogMalformed | ContractPaused | InvokeContractError | InvokeTransferError
  | FailedUpgradeMissingModule | FailedUpgradeMissingContract | FailedUpgradeUnsupportedModuleVersion

type_synonym wccd_error = "wccd_custom_error cis2_error"
type_synonym wccd_host = "(wccd_state, wccd_event) contract_host"

fun wccd_error_from_log :: "log_error \<Rightarrow> wccd_custom_error" where
  "wccd_error_from_log Full = LogFull"
| "wccd_error_from_log MalformedLog = LogMalformed"

fun wccd_error_from_upgrade :: "upgrade_error \<Rightarrow> wccd_custom_error" where
  "wccd_error_from_upgrade MissingModule = FailedUpgradeMissingModule"
| "wccd_error_from_upgrade MissingContract = FailedUpgradeMissingContract"
| "wccd_error_from_upgrade UnsupportedModuleVersion = FailedUpgradeUnsupportedModuleVersion"

definition TOKEN_ID_WCCD :: unit where "TOKEN_ID_WCCD = ()"

text \<open>\<^verbatim>\<open>SUPPORTS_STANDARDS\<close> with the identifiers of CIS-0 and CIS-2.\<close>

definition SUPPORTS_STANDARDS :: "string list" where "SUPPORTS_STANDARDS = [''CIS-0'', ''CIS-2'']"

definition wccd_new :: "address \<Rightarrow> metadata_url \<Rightarrow> wccd_state" where
  "wccd_new admin url = \<lparr>ws_admin = admin, ws_paused = False, ws_token = Map.empty, ws_implementors = Map.empty,
     ws_metadata_url = url\<rparr>"

definition wccd_balance :: "wccd_state \<Rightarrow> unit \<Rightarrow> address \<Rightarrow> wccd_error + u64" where
  "wccd_balance st token_id a =
     ensure (token_id = TOKEN_ID_WCCD) InvalidTokenId
       (Inr (case ws_token st a of None \<Rightarrow> 0 | Some s \<Rightarrow> as_balance s))"

definition wccd_is_operator :: "wccd_state \<Rightarrow> address \<Rightarrow> address \<Rightarrow> bool" where
  "wccd_is_operator st a own = (case ws_token st own of None \<Rightarrow> False | Some s \<Rightarrow> a \<in> as_operators s)"

text \<open>\<^verbatim>\<open>entry(_).or_insert_with(_)\<close> with the state of an address that has none yet.\<close>

definition or_insert :: "(address \<rightharpoonup> address_state) \<Rightarrow> address \<Rightarrow> address_state" where
  "or_insert m a = (case m a of None \<Rightarrow> \<lparr>as_balance = 0, as_operators = {}\<rparr> | Some s \<Rightarrow> s)"

definition wccd_transfer :: "wccd_state \<Rightarrow> unit \<Rightarrow> u64 \<Rightarrow> address \<Rightarrow> address \<Rightarrow> wccd_error + wccd_state" where
  "wccd_transfer st token_id amount from to =
     ensure (token_id = TOKEN_ID_WCCD) InvalidTokenId
     (if amount = 0 then Inr st
      else (case ws_token st from of
          None \<Rightarrow> Inl InsufficientFunds
        | Some s \<Rightarrow>
            ensure (as_balance s \<ge> amount) InsufficientFunds
            (let m = (ws_token st)(from \<mapsto> s\<lparr>as_balance := as_balance s - amount\<rparr>);
                 to_state = or_insert m to
             in Inr (st\<lparr>ws_token := m(to \<mapsto> to_state\<lparr>as_balance := as_balance to_state + amount\<rparr>)\<rparr>))))"

definition wccd_add_operator :: "wccd_state \<Rightarrow> address \<Rightarrow> address \<Rightarrow> wccd_state" where
  "wccd_add_operator st own operator =
     (let s = or_insert (ws_token st) own
      in st\<lparr>ws_token := (ws_token st)(own \<mapsto> s\<lparr>as_operators := insert operator (as_operators s)\<rparr>)\<rparr>)"

definition wccd_remove_operator :: "wccd_state \<Rightarrow> address \<Rightarrow> address \<Rightarrow> wccd_state" where
  "wccd_remove_operator st own operator =
     (case ws_token st own of
        None \<Rightarrow> st
      | Some s \<Rightarrow> st\<lparr>ws_token := (ws_token st)(own \<mapsto> s\<lparr>as_operators := as_operators s - {operator}\<rparr>)\<rparr>)"

definition wccd_mint :: "wccd_state \<Rightarrow> unit \<Rightarrow> u64 \<Rightarrow> address \<Rightarrow> wccd_error + wccd_state" where
  "wccd_mint st token_id amount own =
     ensure (token_id = TOKEN_ID_WCCD) InvalidTokenId
     (let s = or_insert (ws_token st) own
      in Inr (st\<lparr>ws_token := (ws_token st)(own \<mapsto> s\<lparr>as_balance := as_balance s + amount\<rparr>)\<rparr>))"

definition wccd_burn :: "wccd_state \<Rightarrow> unit \<Rightarrow> u64 \<Rightarrow> address \<Rightarrow> wccd_error + wccd_state" where
  "wccd_burn st token_id amount own =
     ensure (token_id = TOKEN_ID_WCCD) InvalidTokenId
     (if amount = 0 then Inr st
      else (case ws_token st own of
          None \<Rightarrow> Inl InsufficientFunds
        | Some s \<Rightarrow>
            ensure (as_balance s \<ge> amount) InsufficientFunds
            (Inr (st\<lparr>ws_token := (ws_token st)(own \<mapsto> s\<lparr>as_balance := as_balance s - amount\<rparr>)\<rparr>))))"

definition wccd_have_implementors :: "wccd_state \<Rightarrow> string \<Rightarrow> support_result" where
  "wccd_have_implementors st std_id = (case ws_implementors st std_id of Some as \<Rightarrow> SupportBy as | None \<Rightarrow> NoSupport)"

definition wccd_set_implementors :: "wccd_state \<Rightarrow> string \<Rightarrow> contract_address list \<Rightarrow> wccd_state" where
  "wccd_set_implementors st std_id as = st\<lparr>ws_implementors := (ws_implementors st)(std_id \<mapsto> as)\<rparr>"

section \<open>Entrypoints\<close>

text \<open>The parameter of a call to another contract: the receive hook's, or raw data.\<close>

datatype hook_parameter = HookParams "(unit, u64) on_receiving_params" | RawData bytes

type_synonym wccd_call =
  "wccd_host \<Rightarrow> contract_address \<Rightarrow> hook_parameter \<Rightarrow> string \<Rightarrow> u64 \<Rightarrow> bytes call_contract_error + wccd_host"

definition get_parameter :: "'p receive_context \<Rightarrow> wccd_error + 'p" where
  "get_parameter ctx = (case ctx_parameter ctx of None \<Rightarrow> Inl (Custom ParseParams) | Some p \<Rightarrow> Inr p)"

definition wccd_log :: "wccd_event logger \<Rightarrow> wccd_event \<Rightarrow> wccd_host \<Rightarrow> wccd_error + wccd_host" where
  "wccd_log logger ev h = map_err (\<lambda>e. Custom (wccd_error_from_log e)) (log_event logger ev h)"

definition wccd_invoke_contract ::
    "wccd_call \<Rightarrow> wccd_host \<Rightarrow> contract_address \<Rightarrow> hook_parameter \<Rightarrow> string \<Rightarrow> u64 \<Rightarrow> wccd_error + wccd_host" where
  "wccd_invoke_contract call h a p f amount = map_err (\<lambda>_. Custom InvokeContractError) (call h a p f amount)"

definition wccd_init :: "wccd_event logger \<Rightarrow> account_address \<Rightarrow> (string \<times> bytes option) option \<Rightarrow> wccd_error + wccd_host" where
  "wccd_init logger init_origin parameter =
     (case parameter of None \<Rightarrow> Inl (Custom ParseParams) | Some (url, hash) \<Rightarrow>
      let invoker = Account init_origin;
          metadata = \<lparr>md_url = url, md_hash = hash\<rparr>;
          h = \<lparr>h_state = wccd_new invoker metadata, h_balance = 0, h_logs = [], h_transfers = []\<rparr>
      in try_bind (wccd_log logger (WccdCis2Event (MintEvent TOKEN_ID_WCCD 0 invoker)) h) (\<lambda>h.
         try_bind (wccd_log logger (WccdCis2Event (TokenMetadataEvent TOKEN_ID_WCCD metadata)) h) (\<lambda>h.
         wccd_log logger (NewAdminEvent invoker) h)))"

text \<open>\<^verbatim>\<open>WrapParams\<close> and \<^verbatim>\<open>UnwrapParams\<close>.\<close>

record wrap_params =
  wp_to :: receiver
  wp_data :: bytes

record unwrap_params =
  up_amount :: u64
  up_owner :: address
  up_receiver :: receiver
  up_data :: bytes

definition contract_wrap ::
    "wccd_event logger \<Rightarrow> wccd_call \<Rightarrow> wrap_params receive_context \<Rightarrow> u64 \<Rightarrow> wccd_host \<Rightarrow> wccd_error + wccd_host" where
  "contract_wrap logger call ctx amount h =
     ensure (\<not> ws_paused (h_state h)) (Custom ContractPaused)
     (try_bind (get_parameter ctx) (\<lambda>params.
      let sender = ctx_sender ctx; receive_address = receiver_address (wp_to params) in
      try_bind (wccd_mint (h_state h) TOKEN_ID_WCCD amount receive_address) (\<lambda>st.
      try_bind (wccd_log logger (WccdCis2Event (MintEvent TOKEN_ID_WCCD amount sender)) (h\<lparr>h_state := st\<rparr>)) (\<lambda>h.
      if sender \<noteq> receive_address then
        try_bind (wccd_log logger (WccdCis2Event (TransferEvent TOKEN_ID_WCCD amount sender receive_address)) h) (\<lambda>h.
        case wp_to params of
          ReceiverContract a f \<Rightarrow>
            wccd_invoke_contract call h a
              (HookParams \<lparr>or_token_id = TOKEN_ID_WCCD, or_amount = amount, or_from = sender, or_data = wp_data params\<rparr>) f 0
        | ReceiverAccount _ \<Rightarrow> Inr h)
      else Inr h))))"

definition contract_unwrap ::
    "wccd_event logger \<Rightarrow> wccd_call \<Rightarrow> (account_address \<Rightarrow> bool) \<Rightarrow> unwrap_params receive_context \<Rightarrow> wccd_host \<Rightarrow>
     wccd_error + wccd_host" where
  "contract_unwrap logger call missing ctx h =
     ensure (\<not> ws_paused (h_state h)) (Custom ContractPaused)
     (try_bind (get_parameter ctx) (\<lambda>params.
      let sender = ctx_sender ctx in
      ensure (sender = up_owner params \<or> wccd_is_operator (h_state h) sender (up_owner params)) Unauthorized
      (try_bind (wccd_burn (h_state h) TOKEN_ID_WCCD (up_amount params) (up_owner params)) (\<lambda>st.
       try_bind (wccd_log logger (WccdCis2Event (BurnEvent TOKEN_ID_WCCD (up_amount params) (up_owner params)))
         (h\<lparr>h_state := st\<rparr>)) (\<lambda>h.
       case up_receiver params of
         ReceiverAccount a \<Rightarrow>
           map_err (\<lambda>_. Custom InvokeTransferError) (invoke_transfer missing h a (up_amount params))
       | ReceiverContract a f \<Rightarrow>
           wccd_invoke_contract call h a (RawData (up_data params)) f (up_amount params))))))"

definition contract_update_admin :: "wccd_event logger \<Rightarrow> address receive_context \<Rightarrow> wccd_host \<Rightarrow> wccd_error + wccd_host" where
  "contract_update_admin logger ctx h =
     ensure (ctx_sender ctx = ws_admin (h_state h)) Unauthorized
     (try_bind (get_parameter ctx) (\<lambda>new_admin.
      wccd_log logger (NewAdminEvent new_admin) (h\<lparr>h_state := (h_state h)\<lparr>ws_admin := new_admin\<rparr>\<rparr>)))"

definition contract_set_paused :: "bool receive_context \<Rightarrow> wccd_host \<Rightarrow> wccd_error + wccd_host" where
  "contract_set_paused ctx h =
     ensure (ctx_sender ctx = ws_admin (h_state h)) Unauthorized
     (try_bind (get_parameter ctx) (\<lambda>paused. Inr (h\<lparr>h_state := (h_state h)\<lparr>ws_paused := paused\<rparr>\<rparr>)))"

definition contract_state_set_metadata_url ::
    "wccd_event logger \<Rightarrow> (string \<times> bytes option) receive_context \<Rightarrow> wccd_host \<Rightarrow> wccd_error + wccd_host" where
  "contract_state_set_metadata_url logger ctx h =
     ensure (ctx_sender ctx = ws_admin (h_state h)) Unauthorized
     (try_bind (get_parameter ctx) (\<lambda>(url, hash).
      let metadata = \<lparr>md_url = url, md_hash = hash\<rparr> in
      wccd_log logger (WccdCis2Event (TokenMetadataEvent TOKEN_ID_WCCD metadata))
        (h\<lparr>h_state := (h_state h)\<lparr>ws_metadata_url := metadata\<rparr>\<rparr>)))"

text \<open>One transfer of the list, then the loop.\<close>

definition transfer_one ::
    "wccd_event logger \<Rightarrow> wccd_call \<Rightarrow> address \<Rightarrow> (unit, u64) transfer_params \<Rightarrow> wccd_host \<Rightarrow> wccd_error + wccd_host" where
  "transfer_one logger call sender t h =
     ensure (tp_from t = sender \<or> wccd_is_operator (h_state h) sender (tp_from t)) Unauthorized
     (let to_address = receiver_address (tp_to t) in
      try_bind (wccd_transfer (h_state h) (tp_token_id t) (tp_amount t) (tp_from t) to_address) (\<lambda>st.
      try_bind (wccd_log logger (WccdCis2Event (TransferEvent (tp_token_id t) (tp_amount t) (tp_from t) to_address))
        (h\<lparr>h_state := st\<rparr>)) (\<lambda>h.
      case tp_to t of
        ReceiverContract a f \<Rightarrow>
          wccd_invoke_contract call h a
            (HookParams \<lparr>or_token_id = tp_token_id t, or_amount = tp_amount t, or_from = tp_from t, or_data = tp_data t\<rparr>) f 0
      | ReceiverAccount _ \<Rightarrow> Inr h)))"

fun transfer_loop ::
    "wccd_event logger \<Rightarrow> wccd_call \<Rightarrow> address \<Rightarrow> (unit, u64) transfer_params list \<Rightarrow> wccd_host \<Rightarrow> wccd_error + wccd_host" where
  "transfer_loop logger call sender [] h = Inr h"
| "transfer_loop logger call sender (t # ts) h =
     try_bind (transfer_one logger call sender t h) (transfer_loop logger call sender ts)"

definition contract_transfer ::
    "wccd_event logger \<Rightarrow> wccd_call \<Rightarrow> (unit, u64) transfer_params list receive_context \<Rightarrow> wccd_host \<Rightarrow>
     wccd_error + wccd_host" where
  "contract_transfer logger call ctx h =
     ensure (\<not> ws_paused (h_state h)) (Custom ContractPaused)
     (try_bind (get_parameter ctx) (\<lambda>transfers. transfer_loop logger call (ctx_sender ctx) transfers h))"

fun operator_loop ::
    "wccd_event logger \<Rightarrow> address \<Rightarrow> (operator_update \<times> address) list \<Rightarrow> wccd_host \<Rightarrow> wccd_error + wccd_host" where
  "operator_loop logger sender [] h = Inr h"
| "operator_loop logger sender ((u, operator) # ps) h =
     (let st = (case u of
          AddOperator \<Rightarrow> wccd_add_operator (h_state h) sender operator
        | RemoveOperator \<Rightarrow> wccd_remove_operator (h_state h) sender operator)
      in try_bind (wccd_log logger (WccdCis2Event (UpdateOperatorEvent u sender operator)) (h\<lparr>h_state := st\<rparr>))
           (operator_loop logger sender ps))"

definition contract_update_operator ::
    "wccd_event logger \<Rightarrow> (operator_update \<times> address) list receive_context \<Rightarrow> wccd_host \<Rightarrow> wccd_error + wccd_host" where
  "contract_update_operator logger ctx h =
     ensure (\<not> ws_paused (h_state h)) (Custom ContractPaused)
     (try_bind (get_parameter ctx) (\<lambda>params. operator_loop logger (ctx_sender ctx) params h))"

fun collect :: "('q \<Rightarrow> wccd_error + 'r) \<Rightarrow> 'q list \<Rightarrow> wccd_error + 'r list" where
  "collect f [] = Inr []"
| "collect f (q # qs) = try_bind (f q) (\<lambda>r. try_bind (collect f qs) (\<lambda>rs. Inr (r # rs)))"

definition contract_balance_of :: "(unit \<times> address) list receive_context \<Rightarrow> wccd_host \<Rightarrow> wccd_error + u64 list" where
  "contract_balance_of ctx h =
     try_bind (get_parameter ctx) (collect (\<lambda>(token_id, a). wccd_balance (h_state h) token_id a))"

text \<open>A query of \<^verbatim>\<open>operatorOf\<close> is the owner and the address to look for.\<close>

definition contract_operator_of :: "(address \<times> address) list receive_context \<Rightarrow> wccd_host \<Rightarrow> wccd_error + bool list" where
  "contract_operator_of ctx h =
     try_bind (get_parameter ctx) (\<lambda>queries. Inr (map (\<lambda>(own, a). wccd_is_operator (h_state h) a own) queries))"

definition contract_token_metadata :: "unit list receive_context \<Rightarrow> wccd_host \<Rightarrow> wccd_error + metadata_url list" where
  "contract_token_metadata ctx h =
     try_bind (get_parameter ctx)
       (collect (\<lambda>token_id. ensure (token_id = TOKEN_ID_WCCD) InvalidTokenId (Inr (ws_metadata_url (h_state h)))))"

definition contract_view :: "wccd_host \<Rightarrow> address \<times> bool \<times> metadata_url" where
  "contract_view h = (ws_admin (h_state h), ws_paused (h_state h), ws_metadata_url (h_state h))"

definition contract_supports :: "string list receive_context \<Rightarrow> wccd_host \<Rightarrow> wccd_error + support_result list" where
  "contract_supports ctx h =
     try_bind (get_parameter ctx) (\<lambda>queries.
       Inr (map (\<lambda>std_id. if std_id \<in> set SUPPORTS_STANDARDS then Support else wccd_have_implementors (h_state h) std_id)
         queries))"

definition contract_set_implementor ::
    "(string \<times> contract_address list) receive_context \<Rightarrow> wccd_host \<Rightarrow> wccd_error + wccd_host" where
  "contract_set_implementor ctx h =
     ensure (ctx_sender ctx = ws_admin (h_state h)) Unauthorized
     (try_bind (get_parameter ctx) (\<lambda>(std_id, as).
      Inr (h\<lparr>h_state := wccd_set_implementors (h_state h) std_id as\<rparr>)))"

text \<open>\<^verbatim>\<open>contract_upgrade\<close>: the upgrade and the migration call are the host's.\<close>

definition contract_upgrade ::
    "(bytes \<Rightarrow> wccd_host \<Rightarrow> upgrade_error + wccd_host) \<Rightarrow> wccd_call \<Rightarrow>
     (bytes \<times> (string \<times> bytes) option) receive_context \<Rightarrow> wccd_host \<Rightarrow> wccd_error + wccd_host" where
  "contract_upgrade upgr call ctx h =
     ensure (ctx_sender ctx = ws_admin (h_state h)) Unauthorized
     (try_bind (get_parameter ctx) (\<lambda>(module, migrate).
      try_bind (map_err (\<lambda>e. Custom (wccd_error_from_upgrade e)) (upgr module h)) (\<lambda>h.
      case migrate of
        Some (func, parameters) \<Rightarrow> wccd_invoke_contract call h (ctx_self_address ctx) (RawData parameters) func 0
      | None \<Rightarrow> Inr h)))"

end
