(* ===== verification/Wccd_Properties.thy ===== *)
theory Wccd_Properties
  imports Wccd
begin

text \<open>
  The tokens of the wrapping contract are backed by its balance, in every state that calls to the
  entrypoints can reach, with hooks that call back into the contract included.
\<close>

section \<open>Supply\<close>

abbreviation token_of :: "address_state \<Rightarrow> nat" where
  "token_of s \<equiv> unat (as_balance s)"

definition token_supply :: "wccd_state \<Rightarrow> nat" where
  "token_supply st = total token_of (ws_token st)"

definition finite_tokens :: "wccd_state \<Rightarrow> bool" where
  "finite_tokens st \<longleftrightarrow> finite (dom (ws_token st))"

definition backed :: "wccd_host \<Rightarrow> bool" where
  "backed h \<longleftrightarrow> finite_tokens (h_state h) \<and> token_supply (h_state h) = unat (h_balance h)"

lemma at_key_or_insert: "at_key token_of m a = token_of (or_insert m a)"
  by (simp add: at_key_def or_insert_def split: option.split)

lemma supply_put:
  assumes "finite_tokens st"
  shows "finite_tokens (st\<lparr>ws_token := (ws_token st)(a \<mapsto> s)\<rparr>)"
    "token_supply (st\<lparr>ws_token := (ws_token st)(a \<mapsto> s)\<rparr>) + token_of (or_insert (ws_token st) a) = token_supply st + token_of s"
  using assms total_upd [of "ws_token st" token_of a s] by (simp_all add: finite_tokens_def token_supply_def at_key_or_insert)

lemma token_le_supply: "finite_tokens st \<Longrightarrow> token_of (or_insert (ws_token st) a) \<le> token_supply st"
  using at_key_le_total [of "ws_token st" token_of a] by (simp add: finite_tokens_def token_supply_def at_key_or_insert)

lemma or_insert_Some: "m a = Some s \<Longrightarrow> or_insert m a = s"
  by (simp add: or_insert_def)

lemma unat_add_small: "unat (x :: u64) + unat y < 2 ^ 64 \<Longrightarrow> unat (x + y) = unat x + unat y"
  by (simp add: unat_word_ariths)

lemma mint_supply:
  assumes "wccd_mint st t amount a = Inr st'" "finite_tokens st" "token_supply st + unat amount < 2 ^ 64"
  shows "finite_tokens st' \<and> token_supply st' = token_supply st + unat amount"
proof -
  let ?s = "or_insert (ws_token st) a"
  have st': "st' = st\<lparr>ws_token := (ws_token st)(a \<mapsto> ?s\<lparr>as_balance := as_balance ?s + amount\<rparr>)\<rparr>"
    using assms(1) by (simp add: wccd_mint_def Let_def)
  have "unat (as_balance ?s + amount) = token_of ?s + unat amount"
    using token_le_supply [OF assms(2), of a] assms(3) by (intro unat_add_small) linarith
  then show ?thesis
    using supply_put [OF assms(2), of a "?s\<lparr>as_balance := as_balance ?s + amount\<rparr>"] unfolding st' by simp
qed

lemma burn_supply:
  assumes "wccd_burn st t amount a = Inr st'" "finite_tokens st"
  shows "finite_tokens st' \<and> token_supply st' + unat amount = token_supply st"
proof (cases "amount = 0")
  case False
  then obtain s where s: "ws_token st a = Some s" "amount \<le> as_balance s"
    "st' = st\<lparr>ws_token := (ws_token st)(a \<mapsto> s\<lparr>as_balance := as_balance s - amount\<rparr>)\<rparr>"
    using assms(1) by (auto simp: wccd_burn_def split: option.splits)
  have "unat (as_balance s - amount) = token_of s - unat amount" "unat amount \<le> token_of s"
    using s(2) by (auto simp: unat_sub word_le_nat_alt)
  then show ?thesis
    using supply_put [OF assms(2), of a "s\<lparr>as_balance := as_balance s - amount\<rparr>"] or_insert_Some [of "ws_token st" a, OF s(1)]
    unfolding s(3) by simp
qed (use assms in \<open>simp add: wccd_burn_def\<close>)

lemma transfer_supply:
  assumes "wccd_transfer st t amount from to = Inr st'" "finite_tokens st" "token_supply st < 2 ^ 64"
  shows "finite_tokens st' \<and> token_supply st' = token_supply st"
proof (cases "amount = 0")
  case False
  \<comment> \<open>A transfer burns the amount at one address and mints it at the other.\<close>
  then obtain st1 where burn: "wccd_burn st t amount from = Inr st1" and mint: "wccd_mint st1 t amount to = Inr st'"
    using assms(1) by (auto simp: wccd_transfer_def wccd_burn_def wccd_mint_def Let_def split: option.splits)
  have "finite_tokens st1" "token_supply st1 + unat amount = token_supply st" using burn_supply [OF burn assms(2)] by auto
  then show ?thesis using mint_supply [OF mint] assms(3) by simp
qed (use assms in \<open>simp add: wccd_transfer_def\<close>)

lemma operator_supply:
  assumes "finite_tokens st"
  shows "finite_tokens (wccd_add_operator st a b) \<and> token_supply (wccd_add_operator st a b) = token_supply st"
    "finite_tokens (wccd_remove_operator st a b) \<and> token_supply (wccd_remove_operator st a b) = token_supply st"
proof -
  let ?s = "or_insert (ws_token st) a"
  show "finite_tokens (wccd_add_operator st a b) \<and> token_supply (wccd_add_operator st a b) = token_supply st"
    using supply_put [OF assms, of a "?s\<lparr>as_operators := insert b (as_operators ?s)\<rparr>"]
    by (simp add: wccd_add_operator_def Let_def)
  show "finite_tokens (wccd_remove_operator st a b) \<and> token_supply (wccd_remove_operator st a b) = token_supply st"
  proof (cases "ws_token st a")
    case (Some s)
    then show ?thesis using supply_put [OF assms, of a "s\<lparr>as_operators := as_operators s - {b}\<rparr>"]
      by (simp add: wccd_remove_operator_def or_insert_Some)
  qed (use assms in \<open>simp add: wccd_remove_operator_def\<close>)
qed

lemma supply_other_fields [simp]:
  "token_supply (st\<lparr>ws_admin := a\<rparr>) = token_supply st" "token_supply (st\<lparr>ws_paused := b\<rparr>) = token_supply st"
  "token_supply (st\<lparr>ws_implementors := i\<rparr>) = token_supply st" "token_supply (st\<lparr>ws_metadata_url := u\<rparr>) = token_supply st"
  "finite_tokens (st\<lparr>ws_admin := a\<rparr>) = finite_tokens st" "finite_tokens (st\<lparr>ws_paused := b\<rparr>) = finite_tokens st"
  "finite_tokens (st\<lparr>ws_implementors := i\<rparr>) = finite_tokens st" "finite_tokens (st\<lparr>ws_metadata_url := u\<rparr>) = finite_tokens st"
  by (simp_all add: token_supply_def finite_tokens_def)

section \<open>Calls that call back\<close>

text \<open>
  What a call to another contract may do to the contract: take the amount sent with it, then anything
  in \<open>R\<close>.
\<close>

definition callback_ok :: "(wccd_host \<Rightarrow> wccd_host \<Rightarrow> bool) \<Rightarrow> wccd_call \<Rightarrow> bool" where
  "callback_ok R call \<longleftrightarrow> (\<forall>x a p f amount y. call x a p f amount = Inr y \<longrightarrow>
     amount \<le> h_balance x \<and> R (x\<lparr>h_balance := h_balance x - amount\<rparr>) y)"

lemma callback_ok_mono [mono]: "(\<And>x y. R x y \<longrightarrow> S x y) \<Longrightarrow> callback_ok R call \<longrightarrow> callback_ok S call"
  unfolding callback_ok_def by blast

text \<open>The states the entrypoints reach from a state, one successful call after the other.\<close>

inductive wccd_steps :: "wccd_host \<Rightarrow> wccd_host \<Rightarrow> bool" where
  start: "wccd_steps h h"
| wrap: "wccd_steps h h1 \<Longrightarrow> unat (h_balance h1) + unat amount < 2 ^ 64 \<Longrightarrow> callback_ok wccd_steps call \<Longrightarrow>
    contract_wrap logger call ctx amount (receive_amount amount h1) = Inr h2 \<Longrightarrow> wccd_steps h h2"
| unwrap: "wccd_steps h h1 \<Longrightarrow> callback_ok wccd_steps call \<Longrightarrow>
    contract_unwrap logger call missing uctx (receive_amount 0 h1) = Inr h2 \<Longrightarrow> wccd_steps h h2"
| transfer: "wccd_steps h h1 \<Longrightarrow> callback_ok wccd_steps call \<Longrightarrow>
    contract_transfer logger call tctx (receive_amount 0 h1) = Inr h2 \<Longrightarrow> wccd_steps h h2"
| update_operator: "wccd_steps h h1 \<Longrightarrow> contract_update_operator logger octx (receive_amount 0 h1) = Inr h2 \<Longrightarrow> wccd_steps h h2"
| update_admin: "wccd_steps h h1 \<Longrightarrow> contract_update_admin logger actx (receive_amount 0 h1) = Inr h2 \<Longrightarrow> wccd_steps h h2"
| set_paused: "wccd_steps h h1 \<Longrightarrow> contract_set_paused pctx (receive_amount 0 h1) = Inr h2 \<Longrightarrow> wccd_steps h h2"
| set_metadata: "wccd_steps h h1 \<Longrightarrow> contract_state_set_metadata_url logger mctx (receive_amount 0 h1) = Inr h2 \<Longrightarrow> wccd_steps h h2"
| set_implementor: "wccd_steps h h1 \<Longrightarrow> contract_set_implementor ictx (receive_amount 0 h1) = Inr h2 \<Longrightarrow> wccd_steps h h2"

section \<open>Every entrypoint keeps the tokens backed\<close>

lemma wccd_log_Inr: "wccd_log logger ev h = Inr h' \<Longrightarrow> h_state h' = h_state h \<and> h_balance h' = h_balance h"
  by (auto simp: wccd_log_def dest: log_event_Inr)

lemma backed_small: "backed h \<Longrightarrow> token_supply (h_state h) < 2 ^ 64"
  using unsigned_less [of "h_balance h", where ?'a = nat] by (simp add: backed_def)

lemma backed_receive_0: "backed (receive_amount 0 h) = backed h"
  by (simp add: backed_def receive_amount_def)

lemma invoke_backed:
  assumes "wccd_invoke_contract call h a p f amount = Inr h'" "callback_ok (\<lambda>x y. backed x \<longrightarrow> backed y) call"
    and "finite_tokens (h_state h)" "token_supply (h_state h) + unat amount = unat (h_balance h)"
  shows "backed h'"
proof -
  have call: "call h a p f amount = Inr h'" using assms(1) by (simp add: wccd_invoke_contract_def)
  then have "amount \<le> h_balance h" "backed (h\<lparr>h_balance := h_balance h - amount\<rparr>) \<longrightarrow> backed h'"
    using assms(2) by (auto simp: callback_ok_def)
  then show ?thesis using assms(3,4) by (auto simp: backed_def unat_sub)
qed

lemma wrap_backed:
  assumes "contract_wrap logger call ctx amount (receive_amount amount h) = Inr h'"
    and "callback_ok (\<lambda>x y. backed x \<longrightarrow> backed y) call" "backed h" "unat (h_balance h) + unat amount < 2 ^ 64"
  shows "backed h'"
proof -
  let ?h = "receive_amount amount h"
  obtain params :: wrap_params and st h1 where run: "wccd_mint (h_state ?h) TOKEN_ID_WCCD amount (receiver_address (wp_to params)) = Inr st"
    "wccd_log logger (WccdCis2Event (MintEvent TOKEN_ID_WCCD amount (ctx_sender ctx))) (?h\<lparr>h_state := st\<rparr>) = Inr h1"
    "(if ctx_sender ctx \<noteq> receiver_address (wp_to params) then
        try_bind (wccd_log logger (WccdCis2Event (TransferEvent TOKEN_ID_WCCD amount (ctx_sender ctx)
          (receiver_address (wp_to params)))) h1) (\<lambda>h. case wp_to params of
          ReceiverContract a f \<Rightarrow> wccd_invoke_contract call h a (HookParams \<lparr>or_token_id = TOKEN_ID_WCCD,
            or_amount = amount, or_from = ctx_sender ctx, or_data = wp_data params\<rparr>) f 0
        | ReceiverAccount _ \<Rightarrow> Inr h)
      else Inr h1) = Inr h'"
    using assms(1) unfolding contract_wrap_def ensure_Inr try_bind_Inr Let_def by blast
  have "finite_tokens st \<and> token_supply st = token_supply (h_state h) + unat amount"
    using assms(3,4) by (intro mint_supply [of _ _ _ "receiver_address (wp_to params)"]) (use run(1) in \<open>auto simp: backed_def receive_amount_def\<close>)
  then have h1: "finite_tokens (h_state h1)" "token_supply (h_state h1) = unat (h_balance h1)"
    using wccd_log_Inr [OF run(2)] assms(3,4) by (auto simp: backed_def receive_amount_def unat_add_small)
  show ?thesis
  proof (cases "ctx_sender ctx = receiver_address (wp_to params)")
    case False
    then obtain h2 where h2: "h_state h2 = h_state h1" "h_balance h2 = h_balance h1"
      "(case wp_to params of ReceiverContract a f \<Rightarrow> wccd_invoke_contract call h2 a (HookParams \<lparr>or_token_id = TOKEN_ID_WCCD,
            or_amount = amount, or_from = ctx_sender ctx, or_data = wp_data params\<rparr>) f 0
        | ReceiverAccount _ \<Rightarrow> Inr h2) = Inr h'"
      using run(3) by (auto simp: try_bind_Inr dest!: wccd_log_Inr)
    show ?thesis
    proof (cases "wp_to params")
      case (ReceiverContract a f)
      then show ?thesis using h1 h2 by (auto intro: invoke_backed [OF _ assms(2)])
    qed (use h1 h2 in \<open>simp add: backed_def\<close>)
  qed (use h1 run(3) in \<open>simp add: backed_def\<close>)
qed

lemma unwrap_backed:
  assumes "contract_unwrap logger call missing ctx h = Inr h'"
    and "callback_ok (\<lambda>x y. backed x \<longrightarrow> backed y) call" "backed h"
  shows "backed h'"
proof -
  obtain params :: unwrap_params and st h1 where run: "wccd_burn (h_state h) TOKEN_ID_WCCD (up_amount params) (up_owner params) = Inr st"
    "wccd_log logger (WccdCis2Event (BurnEvent TOKEN_ID_WCCD (up_amount params) (up_owner params))) (h\<lparr>h_state := st\<rparr>) = Inr h1"
    "(case up_receiver params of
         ReceiverAccount a \<Rightarrow> map_err (\<lambda>_. Custom InvokeTransferError) (invoke_transfer missing h1 a (up_amount params))
       | ReceiverContract a f \<Rightarrow> wccd_invoke_contract call h1 a (RawData (up_data params)) f (up_amount params)) = Inr h'"
    using assms(1) unfolding contract_unwrap_def ensure_Inr try_bind_Inr Let_def by blast
  have "finite_tokens st \<and> token_supply st + unat (up_amount params) = token_supply (h_state h)"
    using assms(3) by (intro burn_supply [OF run(1)]) (simp add: backed_def)
  then have h1: "finite_tokens (h_state h1)" "token_supply (h_state h1) + unat (up_amount params) = unat (h_balance h1)"
    using wccd_log_Inr [OF run(2)] assms(3) by (auto simp: backed_def)
  show ?thesis
  proof (cases "up_receiver params")
    case (ReceiverAccount a)
    then have "invoke_transfer missing h1 a (up_amount params) = Inr h'" using run(3) by simp
    from invoke_transfer_Inr [OF this] show ?thesis using h1 by (auto simp: backed_def unat_sub)
  next
    case (ReceiverContract a f)
    then show ?thesis using run(3) h1 by (auto intro: invoke_backed [OF _ assms(2)])
  qed
qed

lemma transfer_one_backed:
  assumes "transfer_one logger call sender t h = Inr h'"
    and "callback_ok (\<lambda>x y. backed x \<longrightarrow> backed y) call" "backed h"
  shows "backed h'"
proof -
  obtain st h1 where run:
    "wccd_transfer (h_state h) (tp_token_id t) (tp_amount t) (tp_from t) (receiver_address (tp_to t)) = Inr st"
    "wccd_log logger (WccdCis2Event (TransferEvent (tp_token_id t) (tp_amount t) (tp_from t) (receiver_address (tp_to t))))
       (h\<lparr>h_state := st\<rparr>) = Inr h1"
    "(case tp_to t of
        ReceiverContract a f \<Rightarrow> wccd_invoke_contract call h1 a (HookParams \<lparr>or_token_id = tp_token_id t,
          or_amount = tp_amount t, or_from = tp_from t, or_data = tp_data t\<rparr>) f 0
      | ReceiverAccount _ \<Rightarrow> Inr h1) = Inr h'"
    using assms(1) unfolding transfer_one_def ensure_Inr try_bind_Inr Let_def by blast
  have "finite_tokens st \<and> token_supply st = token_supply (h_state h)"
    using assms(3) backed_small [OF assms(3)] by (intro transfer_supply [OF run(1)]) (simp_all add: backed_def)
  then have h1: "finite_tokens (h_state h1)" "token_supply (h_state h1) + unat (0 :: u64) = unat (h_balance h1)"
    using wccd_log_Inr [OF run(2)] assms(3) by (auto simp: backed_def)
  show ?thesis
  proof (cases "tp_to t")
    case (ReceiverContract a f)
    then show ?thesis using run(3) h1 by (auto intro: invoke_backed [OF _ assms(2)])
  qed (use run(3) h1 in \<open>simp add: backed_def\<close>)
qed

lemma transfer_loop_backed:
  assumes "callback_ok (\<lambda>x y. backed x \<longrightarrow> backed y) call"
  shows "transfer_loop logger call sender ts h = Inr h' \<Longrightarrow> backed h \<Longrightarrow> backed h'"
proof (induction ts arbitrary: h)
  case (Cons t ts)
  then obtain h1 where "transfer_one logger call sender t h = Inr h1" "transfer_loop logger call sender ts h1 = Inr h'"
    by (auto simp: try_bind_Inr)
  then show ?case using Cons transfer_one_backed [OF _ assms] by blast
qed simp

lemma operator_loop_backed: "operator_loop logger sender ps h = Inr h' \<Longrightarrow> backed h \<Longrightarrow> backed h'"
proof (induction ps arbitrary: h)
  case (Cons p ps)
  obtain u operator where p: "p = (u, operator)" by force
  define st where "st = (case u of AddOperator \<Rightarrow> wccd_add_operator (h_state h) sender operator
      | RemoveOperator \<Rightarrow> wccd_remove_operator (h_state h) sender operator)"
  obtain h1 where h1: "wccd_log logger (WccdCis2Event (UpdateOperatorEvent u sender operator)) (h\<lparr>h_state := st\<rparr>) = Inr h1"
    "operator_loop logger sender ps h1 = Inr h'"
    using Cons.prems(1) p by (auto simp: try_bind_Inr Let_def st_def)
  have "finite_tokens st \<and> token_supply st = token_supply (h_state h)"
    using Cons.prems(2) operator_supply [of "h_state h" sender operator] by (cases u) (auto simp: st_def backed_def)
  then have "backed h1" using wccd_log_Inr [OF h1(1)] Cons.prems(2) by (simp add: backed_def)
  then show ?case using Cons.IH h1(2) by blast
qed simp

lemma transfer_backed:
  assumes "contract_transfer logger call ctx h = Inr h'" "callback_ok (\<lambda>x y. backed x \<longrightarrow> backed y) call" "backed h"
  shows "backed h'"
  using assms(1,3) transfer_loop_backed [OF assms(2)] by (auto simp: contract_transfer_def try_bind_Inr)

lemma update_operator_backed: "contract_update_operator logger ctx h = Inr h' \<Longrightarrow> backed h \<Longrightarrow> backed h'"
  using operator_loop_backed by (auto simp: contract_update_operator_def try_bind_Inr)

lemma admin_backed:
  "contract_update_admin logger actx h = Inr h' \<Longrightarrow> backed h \<Longrightarrow> backed h'"
  "contract_set_paused pctx h = Inr h' \<Longrightarrow> backed h \<Longrightarrow> backed h'"
  "contract_state_set_metadata_url logger mctx h = Inr h' \<Longrightarrow> backed h \<Longrightarrow> backed h'"
  "contract_set_implementor ictx h = Inr h' \<Longrightarrow> backed h \<Longrightarrow> backed h'"
  by (auto simp: contract_update_admin_def contract_set_paused_def contract_state_set_metadata_url_def
      contract_set_implementor_def wccd_set_implementors_def try_bind_Inr Let_def backed_def dest!: wccd_log_Inr)

lemma steps_backed: "wccd_steps h h' \<Longrightarrow> backed h \<longrightarrow> backed h'"
proof (induction rule: wccd_steps.induct)
  case (wrap h h1 amount call logger ctx h2)
  have "callback_ok (\<lambda>x y. backed x \<longrightarrow> backed y) call" using wrap unfolding callback_ok_def by blast
  then show ?case using wrap wrap_backed by blast
next
  case (unwrap h h1 call logger missing uctx h2)
  have "callback_ok (\<lambda>x y. backed x \<longrightarrow> backed y) call" using unwrap unfolding callback_ok_def by blast
  then show ?case using unwrap unwrap_backed backed_receive_0 by blast
next
  case (transfer h h1 call logger tctx h2)
  have "callback_ok (\<lambda>x y. backed x \<longrightarrow> backed y) call" using transfer unfolding callback_ok_def by blast
  then show ?case using transfer transfer_backed backed_receive_0 by blast
next
  case (update_operator h h1 logger octx h2)
  then show ?case using update_operator_backed backed_receive_0 by blast
qed (use admin_backed backed_receive_0 in blast)+

section \<open>Properties\<close>

lemma init_backed: "wccd_init logger origin parameter = Inr h \<Longrightarrow> backed h"
  by (auto simp: wccd_init_def try_bind_Inr Let_def wccd_new_def backed_def finite_tokens_def token_supply_def
      split: option.splits dest!: wccd_log_Inr)

text \<open>What an address owns.\<close>

abbreviation owns :: "wccd_state \<Rightarrow> address \<Rightarrow> u64" where
  "owns st a \<equiv> as_balance (or_insert (ws_token st) a)"

lemma balance_owns: "wccd_balance st t a = Inr (owns st a)"
  by (simp add: wccd_balance_def ensure_def or_insert_def split: option.split)

text \<open>
  C6. In every state the entrypoints of the wrapping contract can reach, whatever hooks do in between,
  the tokens of all addresses add up to exactly the balance of the contract in CCD, so that no address
  has more than the contract holds.
\<close>

theorem wccd_backed:
  assumes "wccd_init logger origin parameter = Inr h0" "wccd_steps h0 h"
  shows "token_supply (h_state h) = unat (h_balance h) \<and>
    (\<forall>a n. wccd_balance (h_state h) TOKEN_ID_WCCD a = Inr n \<longrightarrow> n \<le> h_balance h)"
proof -
  have "backed h" using steps_backed [OF assms(2)] init_backed [OF assms(1)] by blast
  then have "finite_tokens (h_state h)" "token_supply (h_state h) = unat (h_balance h)" by (auto simp: backed_def)
  then show ?thesis using token_le_supply [of "h_state h"] by (auto simp: balance_owns word_le_nat_alt)
qed

text \<open>A contract after one call that wraps five micro CCD.\<close>

definition sample_wccd0 :: wccd_host where
  "sample_wccd0 = projr (wccd_init (\<lambda>_ _. None) [1] (Some ([], None)))"

definition sample_wrap :: "wrap_params receive_context" where
  "sample_wrap = \<lparr>ctx_sender = Account [1], ctx_parameter = Some \<lparr>wp_to = ReceiverAccount [1], wp_data = []\<rparr>,
     ctx_slot_time = 0, ctx_owner = [1], ctx_self_address = \<lparr>ca_index = 0, ca_subindex = 0\<rparr>\<rparr>"

definition sample_wccd :: wccd_host where
  "sample_wccd = projr (contract_wrap (\<lambda>_ _. None) (\<lambda>_ _ _ _ _. Inl Trap) sample_wrap 5 (receive_amount 5 sample_wccd0))"

lemma sample_wccd_simps:
  "wccd_init (\<lambda>_ _. None) [1] (Some ([], None)) = Inr sample_wccd0" "h_balance sample_wccd0 = 0"
  "contract_wrap (\<lambda>_ _. None) (\<lambda>_ _ _ _ _. Inl Trap) sample_wrap 5 (receive_amount 5 sample_wccd0) = Inr sample_wccd"
  "h_balance sample_wccd = 5" "\<not> ws_paused (h_state sample_wccd)" "owns (h_state sample_wccd) (Account [1]) = 5"
  "h_transfers sample_wccd = []"
  by (simp_all add: sample_wccd_def sample_wccd0_def sample_wrap_def wccd_init_def wccd_log_def log_event_def map_err_def
      contract_wrap_def ensure_def get_parameter_def Let_def wccd_mint_def wccd_new_def receive_amount_def or_insert_def)

lemma sample_wccd_steps: "wccd_steps sample_wccd0 sample_wccd"
  by (rule wccd_steps.wrap [OF wccd_steps.start _ _ sample_wccd_simps(3)])
    (simp_all add: sample_wccd_simps callback_ok_def)

theorem wccd_backed_witness: "token_supply (h_state sample_wccd) = 5"
  using wccd_backed [OF sample_wccd_simps(1) sample_wccd_steps] by (simp add: sample_wccd_simps)

text \<open>
  C34. Tokens can always be redeemed: in every reachable state of a contract that is not paused, an
  owner unwraps any amount it owns to an existing account, which receives that amount of CCD, while
  exactly that many tokens of the owner disappear.
\<close>

theorem wccd_redeemable:
  assumes "wccd_init logger0 origin parameter = Inr h0" "wccd_steps h0 h" "\<not> ws_paused (h_state h)"
    and "ctx_parameter ctx = Some \<lparr>up_amount = amount, up_owner = ctx_sender ctx, up_receiver = ReceiverAccount a, up_data = d\<rparr>"
    and "amount \<le> owns (h_state h) (ctx_sender ctx)" "\<not> missing a"
  shows "\<exists>h'. contract_unwrap (\<lambda>_ _. None) call missing ctx (receive_amount 0 h) = Inr h' \<and>
    h_transfers h' = h_transfers h @ [(a, amount)] \<and> h_balance h' = h_balance h - amount \<and>
    owns (h_state h') (ctx_sender ctx) = owns (h_state h) (ctx_sender ctx) - amount \<and>
    (\<forall>b. b \<noteq> ctx_sender ctx \<longrightarrow> owns (h_state h') b = owns (h_state h) b)"
proof -
  let ?s = "ctx_sender ctx"
  have "backed h" using steps_backed [OF assms(2)] init_backed [OF assms(1)] by blast
  then have "owns (h_state h) ?s \<le> h_balance h"
    using token_le_supply [of "h_state h" ?s] by (simp add: backed_def word_le_nat_alt)
  then have le: "amount \<le> h_balance h" using assms(5) by simp
  show ?thesis
  proof (cases "amount = 0")
    case True
    then show ?thesis using assms(3,4,6)
      by (simp add: contract_unwrap_def ensure_def get_parameter_def Let_def wccd_burn_def wccd_log_def log_event_def
          map_err_def receive_amount_def invoke_transfer_def)
  next
    case False
    then obtain s where s: "ws_token (h_state h) ?s = Some s" "amount \<le> as_balance s"
      using assms(5) by (cases "ws_token (h_state h) ?s") (auto simp: or_insert_def)
    then show ?thesis using assms(3,4,6) False le
      by (simp add: contract_unwrap_def ensure_def get_parameter_def Let_def wccd_burn_def wccd_log_def log_event_def
          map_err_def receive_amount_def invoke_transfer_def or_insert_def)
  qed
qed

theorem wccd_redeemable_witness:
  "\<exists>h'. contract_unwrap (\<lambda>_ _. None) (\<lambda>_ _ _ _ _. Inl Trap) (\<lambda>_. False)
      \<lparr>ctx_sender = Account [1], ctx_parameter = Some \<lparr>up_amount = 3, up_owner = Account [1],
        up_receiver = ReceiverAccount [2], up_data = []\<rparr>, ctx_slot_time = 0, ctx_owner = [1],
        ctx_self_address = \<lparr>ca_index = 0, ca_subindex = 0\<rparr>\<rparr> (receive_amount 0 sample_wccd) = Inr h' \<and>
    h_transfers h' = [([2], 3)] \<and> h_balance h' = 2 \<and> owns (h_state h') (Account [1]) = 2"
  using wccd_redeemable [OF sample_wccd_simps(1) sample_wccd_steps sample_wccd_simps(5), of
      "\<lparr>ctx_sender = Account [1], ctx_parameter = Some \<lparr>up_amount = 3, up_owner = Account [1],
        up_receiver = ReceiverAccount [2], up_data = []\<rparr>, ctx_slot_time = 0, ctx_owner = [1],
        ctx_self_address = \<lparr>ca_index = 0, ca_subindex = 0\<rparr>\<rparr>" 3 "[2]" "[]" "\<lambda>_. False" "\<lambda>_ _ _ _ _. Inl Trap"]
  by (simp add: sample_wccd_simps) blast

text \<open>
  \<^verbatim>\<open>State::transfer\<close> moves exactly the amount between the two addresses, and nothing when they are
  the same, keeps every operator, and fails with \<^verbatim>\<open>InsufficientFunds\<close> exactly when the sender has too
  little; no address' tokens overflow.
\<close>

lemma wccd_transfer_spec:
  assumes "finite_tokens st" "token_supply st < 2 ^ 64"
  shows "case wccd_transfer st t amount src dst of
      Inl e \<Rightarrow> e = InsufficientFunds \<and> owns st src < amount
    | Inr st' \<Rightarrow> amount \<le> owns st src \<and> token_supply st' = token_supply st \<and>
        (\<forall>a. unat (owns st' a) + (if a = src then unat amount else 0) =
          unat (owns st a) + (if a = dst then unat amount else 0)) \<and>
        (\<forall>a b. wccd_is_operator st' a b = wccd_is_operator st a b)"
proof (cases "wccd_transfer st t amount src dst")
  case (Inl e)
  then show ?thesis
    by (auto simp: wccd_transfer_def ensure_def Let_def or_insert_def word_gt_0 split: if_splits option.splits)
next
  case (Inr st')
  have "token_supply st' = token_supply st" using transfer_supply [OF Inr assms] by simp
  moreover have "amount \<le> owns st src"
    using Inr by (cases "amount = 0") (auto simp: wccd_transfer_def or_insert_def split: option.splits)
  moreover have "unat (owns st' a) + (if a = src then unat amount else 0) =
      unat (owns st a) + (if a = dst then unat amount else 0)" for a
  proof (cases "amount = 0")
    case False
    then obtain s where s: "ws_token st src = Some s" "amount \<le> as_balance s"
      using Inr by (auto simp: wccd_transfer_def split: option.splits)
    define m where "m = (ws_token st)(src \<mapsto> s\<lparr>as_balance := as_balance s - amount\<rparr>)"
    have st': "ws_token st' = m(dst \<mapsto> (or_insert m dst)\<lparr>as_balance := as_balance (or_insert m dst) + amount\<rparr>)"
      using Inr False s by (auto simp: wccd_transfer_def Let_def m_def)
    have "wccd_burn st t amount src = Inr (st\<lparr>ws_token := m\<rparr>)" using False s by (simp add: wccd_burn_def ensure_def m_def)
    from burn_supply [OF this assms(1)]
    have "unat (as_balance (or_insert m dst)) + unat amount < 2 ^ 64"
      using token_le_supply [of "st\<lparr>ws_token := m\<rparr>" dst] assms(2) by simp
    then have "unat (as_balance (or_insert m dst) + amount) = unat (as_balance (or_insert m dst)) + unat amount"
      by (rule unat_add_small)
    then show ?thesis using s unfolding or_insert_def st'
      by (auto simp: m_def or_insert_def unat_sub word_le_nat_alt split: option.splits)
  qed (use Inr in \<open>simp add: wccd_transfer_def\<close>)
  moreover have "wccd_is_operator st' a b = wccd_is_operator st a b" for a b
    using Inr by (auto simp: wccd_transfer_def wccd_is_operator_def or_insert_def Let_def split: option.splits if_splits)
  ultimately show ?thesis using Inr by simp
qed

lemma wccd_transfer_spec_sample:
  "\<exists>st'. wccd_transfer (h_state sample_wccd) () 2 (Account [1]) (Account [3]) = Inr st' \<and> owns st' (Account [3]) = 2"
proof -
  have b: "backed sample_wccd" using steps_backed [OF sample_wccd_steps] init_backed [OF sample_wccd_simps(1)] by blast
  have f: "finite_tokens (h_state sample_wccd)" using b by (simp add: backed_def)
  have o3: "owns (h_state sample_wccd) (Account [3]) = 0"
    by (simp add: sample_wccd_def sample_wccd0_def sample_wrap_def wccd_init_def wccd_log_def log_event_def map_err_def
      contract_wrap_def ensure_def get_parameter_def Let_def wccd_mint_def wccd_new_def receive_amount_def or_insert_def)
  show ?thesis
    using wccd_transfer_spec [OF f backed_small [OF b], where amount = 2 and src = "Account [1]" and dst = "Account [3]"]
    by (auto simp: sample_wccd_simps o3 word_unat_eq_iff split: sum.splits dest: spec [of _ "Account [3]"])
qed

end
