(* ===== verification/Nft.thy ===== *)
theory Nft
  imports Contract_Host
begin

text \<open>
  The contract of \<^verbatim>\<open>examples/cis2-nft/src/lib.rs\<close>: non-fungible tokens with 32-bit identifiers. The state
  keeps for every address the set of its tokens and of its operators, and the set of all tokens. Calls
  to the receive hooks of contracts are an argument of the entrypoints.
\<close>

section \<open>State\<close>

record nft_address_state =
  na_owned_tokens :: "u32 set"
  na_operators :: "address set"

record nft_state =
  ns_state :: "address \<rightharpoonup> nft_address_state"
  ns_all_tokens :: "u32 set"
  ns_implementors :: "string \<rightharpoonup> contract_address list"

datatype nft_custom_error =
  NftParseParams | NftLogFull | NftLogMalformed | NftTokenIdAlreadyExists | NftInvokeContractError

type_synonym nft_error = "nft_custom_error cis2_error"
type_synonym nft_event = "(u32, u8) cis2_event"
type_synonym nft_host = "(nft_state, nft_event) contract_host"

fun nft_error_from_log :: "log_error \<Rightarrow> nft_custom_error" where
  "nft_error_from_log Full = NftLogFull"
| "nft_error_from_log MalformedLog = NftLogMalformed"

definition nft_address_state_empty :: nft_address_state where
  "nft_address_state_empty = \<lparr>na_owned_tokens = {}, na_operators = {}\<rparr>"

definition nft_empty :: nft_state where
  "nft_empty = \<lparr>ns_state = Map.empty, ns_all_tokens = {}, ns_implementors = Map.empty\<rparr>"

text \<open>\<^verbatim>\<open>state.entry(_).or_insert_with(_)\<close> and an assignment through the reference.\<close>

definition nft_with_entry :: "address \<Rightarrow> (nft_address_state \<Rightarrow> nft_address_state) \<Rightarrow> nft_state \<Rightarrow> nft_state" where
  "nft_with_entry a f st =
     st\<lparr>ns_state := (ns_state st)(a \<mapsto> f (case ns_state st a of Some s \<Rightarrow> s | None \<Rightarrow> nft_address_state_empty))\<rparr>"

definition nft_mint :: "nft_state \<Rightarrow> u32 \<Rightarrow> address \<Rightarrow> nft_error + nft_state" where
  "nft_mint st token own =
     ensure (token \<notin> ns_all_tokens st) (Custom NftTokenIdAlreadyExists)
     (let st = st\<lparr>ns_all_tokens := insert token (ns_all_tokens st)\<rparr> in
      Inr (nft_with_entry own (\<lambda>s. s\<lparr>na_owned_tokens := insert token (na_owned_tokens s)\<rparr>) st))"

definition nft_contains_token :: "nft_state \<Rightarrow> u32 \<Rightarrow> bool" where
  "nft_contains_token st token_id \<longleftrightarrow> token_id \<in> ns_all_tokens st"

definition nft_balance :: "nft_state \<Rightarrow> u32 \<Rightarrow> address \<Rightarrow> nft_error + u8" where
  "nft_balance st token_id a =
     ensure (nft_contains_token st token_id) InvalidTokenId
     (Inr (case ns_state st a of Some s \<Rightarrow> if token_id \<in> na_owned_tokens s then 1 else 0 | None \<Rightarrow> 0))"

definition nft_is_operator :: "nft_state \<Rightarrow> address \<Rightarrow> address \<Rightarrow> bool" where
  "nft_is_operator st a own = (case ns_state st own of Some s \<Rightarrow> a \<in> na_operators s | None \<Rightarrow> False)"

definition nft_transfer :: "nft_state \<Rightarrow> u32 \<Rightarrow> u8 \<Rightarrow> address \<Rightarrow> address \<Rightarrow> nft_error + nft_state" where
  "nft_transfer st token_id amount sender receiver =
     ensure (nft_contains_token st token_id) InvalidTokenId
     (if amount = 0 then Inr st
      else ensure (amount = 1) InsufficientFunds
      (case ns_state st sender of
         None \<Rightarrow> Inl InsufficientFunds
       | Some s \<Rightarrow>
           ensure (token_id \<in> na_owned_tokens s) InsufficientFunds
           (let st = st\<lparr>ns_state := (ns_state st)(sender \<mapsto> s\<lparr>na_owned_tokens := na_owned_tokens s - {token_id}\<rparr>)\<rparr> in
            Inr (nft_with_entry receiver (\<lambda>s. s\<lparr>na_owned_tokens := insert token_id (na_owned_tokens s)\<rparr>) st))))"

definition nft_add_operator :: "nft_state \<Rightarrow> address \<Rightarrow> address \<Rightarrow> nft_state" where
  "nft_add_operator st own operator = nft_with_entry own (\<lambda>s. s\<lparr>na_operators := insert operator (na_operators s)\<rparr>) st"

definition nft_remove_operator :: "nft_state \<Rightarrow> address \<Rightarrow> address \<Rightarrow> nft_state" where
  "nft_remove_operator st own operator =
     (case ns_state st own of
        Some s \<Rightarrow> st\<lparr>ns_state := (ns_state st)(own \<mapsto> s\<lparr>na_operators := na_operators s - {operator}\<rparr>)\<rparr>
      | None \<Rightarrow> st)"

definition nft_have_implementors :: "nft_state \<Rightarrow> string \<Rightarrow> support_result" where
  "nft_have_implementors st std_id =
     (case ns_implementors st std_id of Some addresses \<Rightarrow> SupportBy addresses | None \<Rightarrow> NoSupport)"

definition nft_set_implementors :: "nft_state \<Rightarrow> string \<Rightarrow> contract_address list \<Rightarrow> nft_state" where
  "nft_set_implementors st std_id addresses = st\<lparr>ns_implementors := (ns_implementors st)(std_id \<mapsto> addresses)\<rparr>"

definition nft_build_token_metadata_url :: "u32 \<Rightarrow> string" where
  "nft_build_token_metadata_url token_id = ''https://some.example/token/'' @ token_id_u32_fmt token_id"

section \<open>Entrypoints\<close>

type_synonym nft_call =
  "nft_host \<Rightarrow> contract_address \<Rightarrow> (u32, u8) on_receiving_params \<Rightarrow> string \<Rightarrow> u64 \<Rightarrow> bytes call_contract_error + nft_host"

definition nft_parameter :: "'p receive_context \<Rightarrow> nft_error + 'p" where
  "nft_parameter ctx = (case ctx_parameter ctx of None \<Rightarrow> Inl (Custom NftParseParams) | Some p \<Rightarrow> Inr p)"

definition nft_log :: "nft_event logger \<Rightarrow> nft_event \<Rightarrow> nft_host \<Rightarrow> nft_error + nft_host" where
  "nft_log logger ev h = map_err (\<lambda>e. Custom (nft_error_from_log e)) (log_event logger ev h)"

definition nft_init :: nft_host where
  "nft_init = \<lparr>h_state = nft_empty, h_balance = 0, h_logs = [], h_transfers = []\<rparr>"

record nft_mint_params =
  mp_owner :: address
  mp_tokens :: "u32 set"

definition nft_mint_one :: "nft_event logger \<Rightarrow> address \<Rightarrow> u32 \<Rightarrow> nft_host \<Rightarrow> nft_error + nft_host" where
  "nft_mint_one logger own token_id h =
     try_bind (nft_mint (h_state h) token_id own) (\<lambda>st.
     try_bind (nft_log logger (MintEvent token_id 1 own) (h\<lparr>h_state := st\<rparr>)) (\<lambda>h.
     nft_log logger
       (TokenMetadataEvent token_id \<lparr>md_url = nft_build_token_metadata_url token_id, md_hash = None\<rparr>) h))"

fun nft_mint_loop :: "nft_event logger \<Rightarrow> address \<Rightarrow> u32 list \<Rightarrow> nft_host \<Rightarrow> nft_error + nft_host" where
  "nft_mint_loop logger own [] h = Inr h"
| "nft_mint_loop logger own (t # ts) h = try_bind (nft_mint_one logger own t h) (nft_mint_loop logger own ts)"

text \<open>The set of identifiers is a \<^verbatim>\<open>BTreeSet\<close>, which the loop reads in ascending order.\<close>

definition nft_contract_mint :: "nft_event logger \<Rightarrow> nft_mint_params receive_context \<Rightarrow> nft_host \<Rightarrow> nft_error + nft_host" where
  "nft_contract_mint logger ctx h =
     ensure (ctx_sender ctx = Account (ctx_owner ctx)) Unauthorized
     (try_bind (nft_parameter ctx) (\<lambda>params.
      nft_mint_loop logger (mp_owner params) (sorted_list_of_set (mp_tokens params)) h))"

definition nft_transfer_one ::
    "nft_event logger \<Rightarrow> nft_call \<Rightarrow> address \<Rightarrow> (u32, u8) transfer_params \<Rightarrow> nft_host \<Rightarrow> nft_error + nft_host" where
  "nft_transfer_one logger call sender t h =
     ensure (tp_from t = sender \<or> nft_is_operator (h_state h) sender (tp_from t)) Unauthorized
     (let to_address = receiver_address (tp_to t) in
      try_bind (nft_transfer (h_state h) (tp_token_id t) (tp_amount t) (tp_from t) to_address) (\<lambda>st.
      try_bind (nft_log logger (TransferEvent (tp_token_id t) (tp_amount t) (tp_from t) to_address) (h\<lparr>h_state := st\<rparr>)) (\<lambda>h.
      case tp_to t of
        ReceiverContract a f \<Rightarrow>
          map_err (\<lambda>_. Custom NftInvokeContractError)
            (call h a \<lparr>or_token_id = tp_token_id t, or_amount = tp_amount t, or_from = tp_from t, or_data = tp_data t\<rparr> f 0)
      | ReceiverAccount _ \<Rightarrow> Inr h)))"

fun nft_transfer_loop ::
    "nft_event logger \<Rightarrow> nft_call \<Rightarrow> address \<Rightarrow> (u32, u8) transfer_params list \<Rightarrow> nft_host \<Rightarrow> nft_error + nft_host" where
  "nft_transfer_loop logger call sender [] h = Inr h"
| "nft_transfer_loop logger call sender (t # ts) h =
     try_bind (nft_transfer_one logger call sender t h) (nft_transfer_loop logger call sender ts)"

definition nft_contract_transfer ::
    "nft_event logger \<Rightarrow> nft_call \<Rightarrow> (u32, u8) transfer_params list receive_context \<Rightarrow> nft_host \<Rightarrow> nft_error + nft_host" where
  "nft_contract_transfer logger call ctx h =
     try_bind (nft_parameter ctx) (\<lambda>transfers. nft_transfer_loop logger call (ctx_sender ctx) transfers h)"

fun nft_operator_loop ::
    "nft_event logger \<Rightarrow> address \<Rightarrow> (operator_update \<times> address) list \<Rightarrow> nft_host \<Rightarrow> nft_error + nft_host" where
  "nft_operator_loop logger sender [] h = Inr h"
| "nft_operator_loop logger sender ((u, operator) # ps) h =
     (let st = (case u of
          AddOperator \<Rightarrow> nft_add_operator (h_state h) sender operator
        | RemoveOperator \<Rightarrow> nft_remove_operator (h_state h) sender operator)
      in try_bind (nft_log logger (UpdateOperatorEvent u sender operator) (h\<lparr>h_state := st\<rparr>))
           (nft_operator_loop logger sender ps))"

definition nft_contract_update_operator ::
    "nft_event logger \<Rightarrow> (operator_update \<times> address) list receive_context \<Rightarrow> nft_host \<Rightarrow> nft_error + nft_host" where
  "nft_contract_update_operator logger ctx h =
     try_bind (nft_parameter ctx) (\<lambda>params. nft_operator_loop logger (ctx_sender ctx) params h)"

definition nft_contract_operator_of :: "(address \<times> address) list receive_context \<Rightarrow> nft_host \<Rightarrow> nft_error + bool list" where
  "nft_contract_operator_of ctx h =
     try_bind (nft_parameter ctx) (\<lambda>queries. Inr (map (\<lambda>(own, a). nft_is_operator (h_state h) a own) queries))"

fun nft_collect :: "('q \<Rightarrow> nft_error + 'r) \<Rightarrow> 'q list \<Rightarrow> nft_error + 'r list" where
  "nft_collect f [] = Inr []"
| "nft_collect f (q # qs) = try_bind (f q) (\<lambda>r. try_bind (nft_collect f qs) (\<lambda>rs. Inr (r # rs)))"

definition nft_contract_balance_of :: "(u32 \<times> address) list receive_context \<Rightarrow> nft_host \<Rightarrow> nft_error + u8 list" where
  "nft_contract_balance_of ctx h =
     try_bind (nft_parameter ctx) (nft_collect (\<lambda>(token_id, a). nft_balance (h_state h) token_id a))"

definition nft_contract_token_metadata :: "u32 list receive_context \<Rightarrow> nft_host \<Rightarrow> nft_error + metadata_url list" where
  "nft_contract_token_metadata ctx h =
     try_bind (nft_parameter ctx) (nft_collect (\<lambda>token_id.
       ensure (nft_contains_token (h_state h) token_id) InvalidTokenId
       (Inr \<lparr>md_url = nft_build_token_metadata_url token_id, md_hash = None\<rparr>)))"

definition NFT_SUPPORTS_STANDARDS :: "string list" where "NFT_SUPPORTS_STANDARDS = [''CIS-0'', ''CIS-2'']"

definition nft_contract_supports :: "string list receive_context \<Rightarrow> nft_host \<Rightarrow> nft_error + support_result list" where
  "nft_contract_supports ctx h =
     try_bind (nft_parameter ctx) (\<lambda>queries. Inr (map (\<lambda>std_id.
       if std_id \<in> set NFT_SUPPORTS_STANDARDS then Support else nft_have_implementors (h_state h) std_id) queries))"

definition nft_contract_set_implementor ::
    "(string \<times> contract_address list) receive_context \<Rightarrow> nft_host \<Rightarrow> nft_error + nft_host" where
  "nft_contract_set_implementor ctx h =
     ensure (ctx_sender ctx = Account (ctx_owner ctx)) Unauthorized
     (try_bind (nft_parameter ctx) (\<lambda>(std_id, addresses).
      Inr (h\<lparr>h_state := nft_set_implementors (h_state h) std_id addresses\<rparr>)))"

section \<open>Reachable states\<close>

text \<open>A hook runs any number of further calls to the entrypoints before it returns.\<close>

definition nft_callback_ok :: "(nft_host \<Rightarrow> nft_host \<Rightarrow> bool) \<Rightarrow> nft_call \<Rightarrow> bool" where
  "nft_callback_ok R call \<longleftrightarrow> (\<forall>x a p f amount y. call x a p f amount = Inr y \<longrightarrow> R x y)"

lemma nft_callback_ok_mono [mono]: "(\<And>x y. R x y \<longrightarrow> S x y) \<Longrightarrow> nft_callback_ok R call \<longrightarrow> nft_callback_ok S call"
  unfolding nft_callback_ok_def by blast

inductive nft_steps :: "nft_host \<Rightarrow> nft_host \<Rightarrow> bool" where
  start: "nft_steps h h"
| mint: "nft_steps h h1 \<Longrightarrow> nft_contract_mint logger mctx (receive_amount 0 h1) = Inr h2 \<Longrightarrow> nft_steps h h2"
| transfer: "nft_steps h h1 \<Longrightarrow> nft_callback_ok nft_steps call \<Longrightarrow>
    nft_contract_transfer logger call tctx (receive_amount 0 h1) = Inr h2 \<Longrightarrow> nft_steps h h2"
| update_operator: "nft_steps h h1 \<Longrightarrow> nft_contract_update_operator logger octx (receive_amount 0 h1) = Inr h2 \<Longrightarrow> nft_steps h h2"
| set_implementor: "nft_steps h h1 \<Longrightarrow> nft_contract_set_implementor ictx (receive_amount 0 h1) = Inr h2 \<Longrightarrow> nft_steps h h2"

section \<open>Owners\<close>

definition owners :: "nft_state \<Rightarrow> u32 \<Rightarrow> address set" where
  "owners st t = {a. \<exists>s. ns_state st a = Some s \<and> t \<in> na_owned_tokens s}"

definition operators_of :: "nft_state \<Rightarrow> address \<Rightarrow> address set" where
  "operators_of st own = {a. nft_is_operator st a own}"

definition nft_inv :: "nft_state \<Rightarrow> bool" where
  "nft_inv st \<longleftrightarrow> (\<forall>t. if t \<in> ns_all_tokens st then \<exists>a. owners st t = {a} else owners st t = {})"

lemma owners_with_entry:
  "owners (nft_with_entry a (\<lambda>s. s\<lparr>na_owned_tokens := insert t (na_owned_tokens s)\<rparr>) st) =
     (owners st)(t := insert a (owners st t))"
  by (rule ext) (auto simp: owners_def nft_with_entry_def nft_address_state_empty_def split: option.splits)

lemma operators_with_entry:
  "operators_of (nft_with_entry a (\<lambda>s. s\<lparr>na_owned_tokens := insert t (na_owned_tokens s)\<rparr>) st) = operators_of st"
  by (rule ext) (auto simp: operators_of_def nft_is_operator_def nft_with_entry_def nft_address_state_empty_def split: option.splits)

lemma all_tokens_with_entry [simp]: "ns_all_tokens (nft_with_entry a f st) = ns_all_tokens st"
  by (simp add: nft_with_entry_def)

lemma nft_mint_Inr:
  assumes "nft_mint st t own = Inr st'"
  shows "t \<notin> ns_all_tokens st" "ns_all_tokens st' = insert t (ns_all_tokens st)"
    "owners st' = (owners st)(t := insert own (owners st t))"
proof -
  let ?st = "st\<lparr>ns_all_tokens := insert t (ns_all_tokens st)\<rparr>"
  have st': "t \<notin> ns_all_tokens st"
    "st' = nft_with_entry own (\<lambda>s. s\<lparr>na_owned_tokens := insert t (na_owned_tokens s)\<rparr>) ?st"
    using assms by (auto simp: nft_mint_def Let_def)
  have "owners ?st = owners st" by (rule ext) (simp add: owners_def)
  then show "t \<notin> ns_all_tokens st" "ns_all_tokens st' = insert t (ns_all_tokens st)"
    "owners st' = (owners st)(t := insert own (owners st t))"
    using st' by (simp_all add: owners_with_entry)
qed

text \<open>A transfer of nothing changes nothing; any other moves the token from its sender to its receiver.\<close>

lemma nft_transfer_Inr:
  assumes "nft_transfer st t amount sender receiver = Inr st'"
  shows "t \<in> ns_all_tokens st" "ns_all_tokens st' = ns_all_tokens st" "operators_of st' = operators_of st"
    "amount = 0 \<and> st' = st \<or>
     amount = 1 \<and> sender \<in> owners st t \<and> owners st' = (owners st)(t := insert receiver (owners st t - {sender}))"
proof -
  show t: "t \<in> ns_all_tokens st" using assms by (simp add: nft_transfer_def nft_contains_token_def)
  consider "amount = 0" "st' = st" | s where "amount = 1" "ns_state st sender = Some s" "t \<in> na_owned_tokens s"
    "st' = nft_with_entry receiver (\<lambda>s. s\<lparr>na_owned_tokens := insert t (na_owned_tokens s)\<rparr>)
       (st\<lparr>ns_state := (ns_state st)(sender \<mapsto> s\<lparr>na_owned_tokens := na_owned_tokens s - {t}\<rparr>)\<rparr>)"
    using assms by (auto simp: nft_transfer_def Let_def split: if_splits option.splits)
  then have "ns_all_tokens st' = ns_all_tokens st \<and> operators_of st' = operators_of st \<and>
    (amount = 0 \<and> st' = st \<or>
     amount = 1 \<and> sender \<in> owners st t \<and> owners st' = (owners st)(t := insert receiver (owners st t - {sender})))"
  proof cases
    case (2 s)
    let ?st = "st\<lparr>ns_state := (ns_state st)(sender \<mapsto> s\<lparr>na_owned_tokens := na_owned_tokens s - {t}\<rparr>)\<rparr>"
    have "owners ?st = (owners st)(t := owners st t - {sender})" by (rule ext) (use 2(2) in \<open>auto simp: owners_def\<close>)
    moreover have "operators_of ?st = operators_of st"
      by (rule ext) (use 2(2) in \<open>auto simp: operators_of_def nft_is_operator_def split: option.splits\<close>)
    moreover have "sender \<in> owners st t" using 2(2,3) by (simp add: owners_def)
    ultimately show ?thesis using 2(1) by (simp add: 2(4) owners_with_entry operators_with_entry)
  qed simp
  then show "ns_all_tokens st' = ns_all_tokens st" "operators_of st' = operators_of st"
    "amount = 0 \<and> st' = st \<or>
     amount = 1 \<and> sender \<in> owners st t \<and> owners st' = (owners st)(t := insert receiver (owners st t - {sender}))" by blast+
qed

lemma operator_owners:
  "owners (nft_add_operator st a b) = owners st" "owners (nft_remove_operator st a b) = owners st"
  "ns_all_tokens (nft_add_operator st a b) = ns_all_tokens st" "ns_all_tokens (nft_remove_operator st a b) = ns_all_tokens st"
proof -
  show "owners (nft_add_operator st a b) = owners st"
    by (rule ext) (auto simp: owners_def nft_add_operator_def nft_with_entry_def nft_address_state_empty_def split: option.splits)
  show "owners (nft_remove_operator st a b) = owners st"
    by (rule ext) (auto simp: owners_def nft_remove_operator_def split: option.splits)
qed (simp_all add: nft_add_operator_def nft_remove_operator_def split: option.splits)

section \<open>Every entrypoint keeps the invariant\<close>

definition nft_keeps :: "nft_host \<Rightarrow> nft_host \<Rightarrow> bool" where
  "nft_keeps x y \<longleftrightarrow> nft_inv (h_state x) \<longrightarrow> nft_inv (h_state y) \<and> ns_all_tokens (h_state x) \<subseteq> ns_all_tokens (h_state y)"

lemma nft_keeps_refl [simp]: "nft_keeps x x"
  by (simp add: nft_keeps_def)

lemma nft_keeps_trans [trans]: "nft_keeps x y \<Longrightarrow> nft_keeps y z \<Longrightarrow> nft_keeps x z"
  by (auto simp: nft_keeps_def)

lemma nft_keeps_receive [simp]: "nft_keeps (receive_amount amount x) y = nft_keeps x y"
  by (simp add: nft_keeps_def receive_amount_def)

lemma nft_log_Inr: "nft_log logger ev h = Inr h' \<Longrightarrow> h_state h' = h_state h"
  by (auto simp: nft_log_def dest: log_event_Inr)

lemma nft_mint_one_keeps: "nft_mint_one logger own t h = Inr h' \<Longrightarrow> nft_keeps h h'"
proof -
  assume "nft_mint_one logger own t h = Inr h'"
  then obtain st where st: "nft_mint (h_state h) t own = Inr st" and h': "h_state h' = st"
    by (auto simp: nft_mint_one_def try_bind_Inr dest!: nft_log_Inr)
  show ?thesis using nft_mint_Inr [OF st] by (auto simp: nft_keeps_def nft_inv_def h')
qed

lemma nft_mint_loop_keeps: "nft_mint_loop logger own ts h = Inr h' \<Longrightarrow> nft_keeps h h'"
  by (induction ts arbitrary: h) (auto simp: try_bind_Inr intro: nft_keeps_trans nft_mint_one_keeps)

lemma nft_operator_loop_keeps: "nft_operator_loop logger sender ps h = Inr h' \<Longrightarrow> nft_keeps h h'"
proof (induction ps arbitrary: h)
  case (Cons p ps)
  obtain u operator where p: "p = (u, operator)" by force
  then obtain h1 where h1: "nft_operator_loop logger sender ps h1 = Inr h'"
    "h_state h1 = (case u of AddOperator \<Rightarrow> nft_add_operator (h_state h) sender operator
       | RemoveOperator \<Rightarrow> nft_remove_operator (h_state h) sender operator)"
    using Cons.prems by (auto simp: Let_def try_bind_Inr dest!: nft_log_Inr)
  have "nft_keeps h h1" by (cases u) (simp_all add: nft_keeps_def nft_inv_def h1(2) operator_owners)
  then show ?case using Cons.IH [OF h1(1)] by (rule nft_keeps_trans)
qed simp

lemma nft_transfer_one_cases:
  assumes "nft_transfer_one logger call sender t h = Inr h'"
  obtains st h1 where "tp_from t = sender \<or> nft_is_operator (h_state h) sender (tp_from t)"
    "nft_transfer (h_state h) (tp_token_id t) (tp_amount t) (tp_from t) (receiver_address (tp_to t)) = Inr st"
    "h_state h1 = st" "h1 = h' \<or> (\<exists>a f p amount. tp_to t = ReceiverContract a f \<and> call h1 a p f amount = Inr h')"
proof -
  obtain st h1 where run: "tp_from t = sender \<or> nft_is_operator (h_state h) sender (tp_from t)"
    "nft_transfer (h_state h) (tp_token_id t) (tp_amount t) (tp_from t) (receiver_address (tp_to t)) = Inr st"
    "nft_log logger (TransferEvent (tp_token_id t) (tp_amount t) (tp_from t) (receiver_address (tp_to t))) (h\<lparr>h_state := st\<rparr>) = Inr h1"
    "(case tp_to t of
        ReceiverContract a f \<Rightarrow>
          map_err (\<lambda>_. Custom NftInvokeContractError)
            (call h1 a \<lparr>or_token_id = tp_token_id t, or_amount = tp_amount t, or_from = tp_from t, or_data = tp_data t\<rparr> f 0)
      | ReceiverAccount _ \<Rightarrow> Inr h1) = Inr h'"
    using assms unfolding nft_transfer_one_def ensure_Inr try_bind_Inr Let_def by blast
  show thesis
  proof (rule that [OF run(1,2)])
    show "h_state h1 = st" using nft_log_Inr [OF run(3)] by simp
    show "h1 = h' \<or> (\<exists>a f p amount. tp_to t = ReceiverContract a f \<and> call h1 a p f amount = Inr h')"
      using run(4) by (cases "tp_to t") auto
  qed
qed

lemma nft_inv_owner: "nft_inv st \<Longrightarrow> a \<in> owners st t \<Longrightarrow> t \<in> ns_all_tokens st \<and> owners st t = {a}"
  unfolding nft_inv_def by (metis empty_iff singletonD)

lemma nft_transfer_keeps:
  assumes "nft_transfer st t amount sender receiver = Inr st'" "nft_inv st"
  shows "nft_inv st'"
proof -
  note run = nft_transfer_Inr [OF assms(1)]
  show ?thesis
  proof (cases "amount = 0")
    case False
    then have "sender \<in> owners st t" and o: "owners st' = (owners st)(t := insert receiver (owners st t - {sender}))"
      using run(4) by auto
    then have "owners st t = {sender}" using nft_inv_owner assms(2) by blast
    then show ?thesis using assms(2) run(1) by (simp add: nft_inv_def run(2) o)
  qed (use run(4) assms(2) in auto)
qed

lemma nft_transfer_one_keeps:
  assumes "nft_transfer_one logger call sender t h = Inr h'" "nft_callback_ok nft_keeps call"
  shows "nft_keeps h h'"
  using assms(1)
proof (rule nft_transfer_one_cases)
  fix st h1
  assume st: "nft_transfer (h_state h) (tp_token_id t) (tp_amount t) (tp_from t) (receiver_address (tp_to t)) = Inr st"
    and h1: "h_state h1 = st" "h1 = h' \<or> (\<exists>a f p amount. tp_to t = ReceiverContract a f \<and> call h1 a p f amount = Inr h')"
  have "nft_keeps h h1" using nft_transfer_Inr(2) [OF st] nft_transfer_keeps [OF st] by (simp add: nft_keeps_def h1(1))
  moreover have "nft_keeps h1 h'" using h1(2) assms(2) by (auto simp: nft_callback_ok_def)
  ultimately show ?thesis by (rule nft_keeps_trans)
qed

lemma nft_transfer_loop_keeps:
  "nft_transfer_loop logger call sender ts h = Inr h' \<Longrightarrow> nft_callback_ok nft_keeps call \<Longrightarrow> nft_keeps h h'"
  by (induction ts arbitrary: h) (auto simp: try_bind_Inr intro: nft_keeps_trans nft_transfer_one_keeps)

lemma nft_steps_keeps: "nft_steps h h' \<Longrightarrow> nft_keeps h h'"
proof (induction rule: nft_steps.induct)
  case (mint h h1 logger mctx h2)
  then have "nft_keeps h1 h2"
    by (auto simp: nft_contract_mint_def try_bind_Inr dest!: nft_mint_loop_keeps)
  with mint.IH show ?case by (rule nft_keeps_trans)
next
  case (transfer h h1 call logger tctx h2)
  have "nft_callback_ok nft_keeps call" using transfer.IH(2) by (simp add: nft_callback_ok_def)
  then have "nft_keeps h1 h2" using transfer.hyps(2)
    by (auto simp: nft_contract_transfer_def try_bind_Inr dest!: nft_transfer_loop_keeps)
  with transfer.IH(1) show ?case by (rule nft_keeps_trans)
next
  case (update_operator h h1 logger octx h2)
  then have "nft_keeps h1 h2"
    by (auto simp: nft_contract_update_operator_def try_bind_Inr dest!: nft_operator_loop_keeps)
  with update_operator.IH show ?case by (rule nft_keeps_trans)
next
  case (set_implementor h h1 ictx h2)
  then have "nft_keeps h1 h2"
    by (auto simp: nft_contract_set_implementor_def try_bind_Inr nft_keeps_def nft_inv_def nft_set_implementors_def
        receive_amount_def owners_def)
  with set_implementor.IH show ?case by (rule nft_keeps_trans)
qed simp

section \<open>Properties\<close>

lemma nft_balance_owner: "nft_balance st t a = Inr 1 \<longleftrightarrow> t \<in> ns_all_tokens st \<and> a \<in> owners st t"
  by (auto simp: nft_balance_def nft_contains_token_def owners_def split: option.splits)

lemma nft_reachable_inv: "nft_steps nft_init h \<Longrightarrow> nft_inv (h_state h)"
  using nft_steps_keeps [of nft_init h] by (simp add: nft_keeps_def nft_init_def nft_empty_def nft_inv_def owners_def)

text \<open>
  C35. A token that exists in a reachable state of the contract exists ever after, and has exactly one
  owner in every later state: one address with balance 1, all others with balance 0. Hooks may call
  the entrypoints in the middle of a transfer.
\<close>

theorem nft_unique_owner:
  assumes "nft_steps nft_init h" "nft_steps h h'" "nft_contains_token (h_state h) t"
  shows "(\<exists>!a. nft_balance (h_state h') t a = Inr 1) \<and>
    (\<forall>a. nft_balance (h_state h') t a = Inr 1 \<or> nft_balance (h_state h') t a = Inr 0)"
proof -
  have inv: "nft_inv (h_state h')" and t: "t \<in> ns_all_tokens (h_state h')"
    using nft_reachable_inv [OF assms(1)] nft_steps_keeps [OF assms(2)] assms(3)
    by (auto simp: nft_keeps_def nft_contains_token_def)
  then obtain a where "owners (h_state h') t = {a}" unfolding nft_inv_def by metis
  then have "\<exists>!a. nft_balance (h_state h') t a = Inr 1" using t by (auto simp: nft_balance_owner)
  moreover have "nft_balance (h_state h') t a = Inr 1 \<or> nft_balance (h_state h') t a = Inr 0" for a
    using t by (auto simp: nft_balance_def nft_contains_token_def ensure_def split: option.splits)
  ultimately show ?thesis by blast
qed

lemma nft_transfer_loop_authorised:
  assumes "nft_transfer_loop logger call sender ts h = Inr h'" "\<forall>x \<in> set ts. \<exists>b. tp_to x = ReceiverAccount b"
    and "a \<in> owners (h_state h) t" "a \<notin> owners (h_state h') t"
  shows "sender = a \<or> sender \<in> operators_of (h_state h) a"
  using assms
proof (induction ts arbitrary: h)
  case (Cons x ts)
  obtain h1 where h1: "nft_transfer_one logger call sender x h = Inr h1" "nft_transfer_loop logger call sender ts h1 = Inr h'"
    using Cons.prems(1) by (auto simp: try_bind_Inr)
  obtain st where auth: "tp_from x = sender \<or> nft_is_operator (h_state h) sender (tp_from x)"
    and st: "nft_transfer (h_state h) (tp_token_id x) (tp_amount x) (tp_from x) (receiver_address (tp_to x)) = Inr st"
    and eq: "h_state h1 = st"
    using h1(1) Cons.prems(2) by (auto elim!: nft_transfer_one_cases)
  note run = nft_transfer_Inr [OF st]
  show ?case
  proof (cases "a \<in> owners st t")
    case True
    then have "sender = a \<or> sender \<in> operators_of st a" using Cons.IH [OF h1(2)] Cons.prems(2,4) eq by simp
    then show ?thesis by (simp add: run(3))
  next
    case False
    then have "tp_from x = a" using run(4) Cons.prems(3) by (auto split: if_splits)
    then show ?thesis using auth by (auto simp: operators_of_def)
  qed
qed simp

text \<open>
  A token leaves its owner through \<^verbatim>\<open>transfer\<close>, with a list of transfers to accounts, only when the
  sender of the call is the owner or one of the owner's operators.
\<close>

lemma nft_transfer_authorised:
  assumes "nft_contract_transfer logger call ctx h = Inr h'" "ctx_parameter ctx = Some ts"
    and "\<forall>x \<in> set ts. \<exists>b. tp_to x = ReceiverAccount b"
    and "nft_balance (h_state h) t a = Inr 1" "nft_balance (h_state h') t a = Inr 0"
  shows "ctx_sender ctx = a \<or> nft_is_operator (h_state h) (ctx_sender ctx) a"
proof -
  have run: "nft_transfer_loop logger call (ctx_sender ctx) ts h = Inr h'"
    using assms(1,2) by (simp add: nft_contract_transfer_def nft_parameter_def)
  have "a \<in> owners (h_state h) t" using assms(4) by (simp add: nft_balance_owner)
  moreover have "a \<notin> owners (h_state h') t"
    using assms(5) by (auto simp: nft_balance_def owners_def split: option.splits)
  ultimately show ?thesis
    using nft_transfer_loop_authorised [OF run assms(3)] by (simp add: operators_of_def)
qed

text \<open>A token whose owner has an operator, which sends it on.\<close>

definition sample_nft_state :: nft_state where
  "sample_nft_state = \<lparr>ns_state = [Account [1] \<mapsto> \<lparr>na_owned_tokens = {7}, na_operators = {Account [2]}\<rparr>],
     ns_all_tokens = {7}, ns_implementors = Map.empty\<rparr>"

definition sample_nft_host :: nft_host where
  "sample_nft_host = \<lparr>h_state = sample_nft_state, h_balance = 0, h_logs = [], h_transfers = []\<rparr>"

definition sample_nft_mint :: "nft_mint_params receive_context" where
  "sample_nft_mint = \<lparr>ctx_sender = Account [9], ctx_parameter = Some \<lparr>mp_owner = Account [1], mp_tokens = {7}\<rparr>,
     ctx_slot_time = 0, ctx_owner = [9], ctx_self_address = \<lparr>ca_index = 0, ca_subindex = 0\<rparr>\<rparr>"

definition sample_nft_move :: "(u32, u8) transfer_params list receive_context" where
  "sample_nft_move = \<lparr>ctx_sender = Account [2], ctx_parameter = Some
     [\<lparr>tp_token_id = 7, tp_amount = 1, tp_from = Account [1], tp_to = ReceiverAccount [3], tp_data = []\<rparr>],
     ctx_slot_time = 0, ctx_owner = [9], ctx_self_address = \<lparr>ca_index = 0, ca_subindex = 0\<rparr>\<rparr>"

theorem nft_unique_owner_witness:
  "\<exists>h. nft_steps nft_init h \<and> nft_contains_token (h_state h) 7 \<and> (\<exists>!a. nft_balance (h_state h) 7 a = Inr 1)"
proof -
  obtain h where run: "nft_contract_mint (\<lambda>_ _. None) sample_nft_mint (receive_amount 0 nft_init) = Inr h"
    and h: "nft_contains_token (h_state h) 7"
    by (simp add: nft_contract_mint_def sample_nft_mint_def nft_parameter_def nft_mint_one_def nft_mint_def nft_log_def
        log_event_def ensure_def map_err_def Let_def nft_init_def nft_empty_def receive_amount_def nft_contains_token_def)
  have "nft_steps nft_init h" using nft_steps.mint [OF nft_steps.start run] .
  then show ?thesis using nft_unique_owner [OF _ nft_steps.start h] h by blast
qed

lemma nft_transfer_authorised_sample:
  "\<exists>h'. nft_contract_transfer (\<lambda>_ _. None) (\<lambda>h _ _ _ _. Inr h) sample_nft_move sample_nft_host = Inr h' \<and>
    nft_is_operator (h_state sample_nft_host) (Account [2]) (Account [1])"
proof -
  obtain h' where run: "nft_contract_transfer (\<lambda>_ _. None) (\<lambda>h _ _ _ _. Inr h) sample_nft_move sample_nft_host = Inr h'"
    and moved: "nft_balance (h_state h') 7 (Account [1]) = Inr 0"
    by (simp add: nft_contract_transfer_def sample_nft_move_def nft_parameter_def nft_transfer_one_def nft_transfer_def nft_log_def
        log_event_def ensure_def map_err_def Let_def sample_nft_host_def sample_nft_state_def nft_is_operator_def
        nft_contains_token_def nft_with_entry_def nft_balance_def)
  have "nft_balance (h_state sample_nft_host) 7 (Account [1]) = Inr 1"
    by (simp add: sample_nft_host_def sample_nft_state_def nft_balance_def nft_contains_token_def ensure_def)
  from nft_transfer_authorised [OF run _ _ this moved] run show ?thesis by (simp add: sample_nft_move_def)
qed

end
