(* ===== verification/Cis2_Client.thy ===== *)
theory Cis2_Client
  imports Nft
begin

text \<open>
  The client of \<^verbatim>\<open>concordium-cis2/src/cis2_client.rs\<close>, with which a contract calls a token contract. The
  host's calls are arguments: the bytes of the parameter, the name of the entrypoint and the amount
  give the bytes of the answer or an error. The theorems put the client and the token contract of
  \<open>Nft\<close> together.
\<close>

section \<open>Serialization of the parameters\<close>

text \<open>
  The encodings the derived implementations of the types of \<^verbatim>\<open>concordium-cis2/src/lib.rs\<close> have: the fields
  of a struct one after the other, and with \<^verbatim>\<open>size_length = 2\<close> a vector after its length in two bytes.
  The codecs of the items are arguments.
\<close>

definition pair_codec :: "'a codec \<Rightarrow> 'b codec \<Rightarrow> ('a \<times> 'b) codec" where
  "pair_codec A B = \<lparr>ser = (\<lambda>(x, y). ser A x @ ser B y),
     des = (\<lambda>src. do { (x, src) \<leftarrow> des A src; (y, src) \<leftarrow> des B src; Some ((x, y), src) })\<rparr>"

fun des_items :: "'a codec \<Rightarrow> nat \<Rightarrow> bytes \<Rightarrow> ('a list \<times> bytes) option" where
  "des_items C 0 src = Some ([], src)"
| "des_items C (Suc n) src = do { (x, src) \<leftarrow> des C src; (xs, src) \<leftarrow> des_items C n src; Some (x # xs, src) }"

definition list16_codec :: "'a codec \<Rightarrow> 'a list codec" where
  "list16_codec C = \<lparr>ser = (\<lambda>xs. to_le_bytes 2 (of_nat (length xs) :: u16) @ concat (map (ser C) xs)),
     des = (\<lambda>src. do { (n, src) \<leftarrow> read_le 2 src; des_items C (unat (n :: u16)) src })\<rparr>"

text \<open>Reading inverts writing at a value.\<close>

definition codec_at :: "'a codec \<Rightarrow> 'a \<Rightarrow> bool" where
  "codec_at C v \<longleftrightarrow> (\<forall>rest. des C (ser C v @ rest) = Some (v, rest))"

lemma codec_at_end: "codec_at C v \<Longrightarrow> des C (ser C v) = Some (v, [])"
  by (metis append_Nil2 codec_at_def)

lemma pair_codec_at: "codec_at A x \<Longrightarrow> codec_at B y \<Longrightarrow> codec_at (pair_codec A B) (x, y)"
  by (simp add: codec_at_def pair_codec_def)

lemma des_items_ser:
  "\<forall>x \<in> set xs. codec_at C x \<Longrightarrow> des_items C (length xs) (concat (map (ser C) xs) @ rest) = Some (xs, rest)"
  by (induction xs) (simp_all add: codec_at_def)

lemma list16_codec_at:
  assumes "\<forall>x \<in> set xs. codec_at C x" "length xs < 2 ^ 16"
  shows "codec_at (list16_codec C) xs"
proof -
  have "unat (of_nat (length xs) :: u16) = length xs" using assms(2) by (simp add: unat_of_nat)
  then show ?thesis using des_items_ser [OF assms(1)]
    by (simp add: codec_at_def list16_codec_def read_le_to_le)
qed

lemma list16_codec_one: "codec_at C x \<Longrightarrow> des (list16_codec C) (ser (list16_codec C) [x]) = Some ([x], [])"
  by (intro codec_at_end list16_codec_at) simp_all

section \<open>Errors\<close>

datatype 'r cis2_client_error =
  ClientInvokeContractError "'r cis2_error call_contract_error" | ParseResult | InvalidResponse

text \<open>\<^verbatim>\<open>Serial for Cis2ClientError\<close>, given the serialization of the errors of the token standard.\<close>

definition cis2_client_error_serial :: "('r cis2_error \<Rightarrow> bytes) \<Rightarrow> 'r cis2_client_error \<Rightarrow> bytes" where
  "cis2_client_error_serial err_serial err =
     (case err of
        ClientInvokeContractError e \<Rightarrow> 2 # (case e of
            CallAmountTooLarge \<Rightarrow> [0]
          | CallMissingAccount \<Rightarrow> [1]
          | CallMissingContract \<Rightarrow> [2]
          | CallMissingEntrypoint \<Rightarrow> [3]
          | MessageFailed \<Rightarrow> [4]
          | LogicReject reason return_value \<Rightarrow> 5 # to_le_bytes 4 reason @ err_serial return_value
          | Trap \<Rightarrow> [6])
      | ParseResult \<Rightarrow> [0]
      | InvalidResponse \<Rightarrow> [1])"

text \<open>\<^verbatim>\<open>TryFrom\<close>: both summands are errors of the client, the left one when the error does not parse.\<close>

definition cis2_client_error_try_from ::
    "'r cis2_error codec \<Rightarrow> bytes call_contract_error \<Rightarrow> 'r cis2_client_error + 'r cis2_client_error" where
  "cis2_client_error_try_from EC err =
     (case err of
        CallAmountTooLarge \<Rightarrow> Inr (ClientInvokeContractError CallAmountTooLarge)
      | CallMissingAccount \<Rightarrow> Inr (ClientInvokeContractError CallMissingAccount)
      | CallMissingContract \<Rightarrow> Inr (ClientInvokeContractError CallMissingContract)
      | CallMissingEntrypoint \<Rightarrow> Inr (ClientInvokeContractError CallMissingEntrypoint)
      | MessageFailed \<Rightarrow> Inr (ClientInvokeContractError MessageFailed)
      | LogicReject reason return_value \<Rightarrow>
          (case des EC return_value of
             None \<Rightarrow> Inl ParseResult
           | Some (e, _) \<Rightarrow> Inr (ClientInvokeContractError (LogicReject reason e)))
      | Trap \<Rightarrow> Inr (ClientInvokeContractError Trap))"

section \<open>The client\<close>

record cis2_client =
  cc_contract :: contract_address

definition cis2_client_new :: "contract_address \<Rightarrow> cis2_client" where
  "cis2_client_new contract = \<lparr>cc_contract = contract\<rparr>"

type_synonym 'h invoke_read_only =
  "'h \<Rightarrow> contract_address \<Rightarrow> bytes \<Rightarrow> string \<Rightarrow> u64 \<Rightarrow> bytes call_contract_error + bytes option"

type_synonym 'h invoke_mutable =
  "'h \<Rightarrow> contract_address \<Rightarrow> bytes \<Rightarrow> string \<Rightarrow> u64 \<Rightarrow> (bytes call_contract_error + bool \<times> bytes option) \<times> 'h"

definition client_invoke_contract_read_only ::
    "'h invoke_read_only \<Rightarrow> 'p codec \<Rightarrow> 'a codec \<Rightarrow> 'r cis2_error codec \<Rightarrow> cis2_client \<Rightarrow> 'h \<Rightarrow> string \<Rightarrow> 'p \<Rightarrow>
     'r cis2_client_error + 'a" where
  "client_invoke_contract_read_only invoke PC RC EC client h name parameter =
     (case invoke h (cc_contract client) (ser PC parameter) name 0 of
        Inl err \<Rightarrow> try_bind (cis2_client_error_try_from EC err) Inl
      | Inr None \<Rightarrow> Inl InvalidResponse
      | Inr (Some res) \<Rightarrow> (case des RC res of None \<Rightarrow> Inl ParseResult | Some (r, _) \<Rightarrow> Inr r))"

definition client_invoke_contract ::
    "'h invoke_mutable \<Rightarrow> 'p codec \<Rightarrow> 'a codec \<Rightarrow> 'r cis2_error codec \<Rightarrow> cis2_client \<Rightarrow> 'h \<Rightarrow> string \<Rightarrow> 'p \<Rightarrow>
     ('r cis2_client_error + bool \<times> 'a option) \<times> 'h" where
  "client_invoke_contract invoke PC RC EC client h name parameter =
     (let (res, h) = invoke h (cc_contract client) (ser PC parameter) name 0 in
      (case res of
         Inl err \<Rightarrow> try_bind (cis2_client_error_try_from EC err) Inl
       | Inr (modified, None) \<Rightarrow> Inr (modified, None)
       | Inr (modified, Some r) \<Rightarrow> (case des RC r of None \<Rightarrow> Inl ParseResult | Some (r, _) \<Rightarrow> Inr (modified, Some r)),
       h))"

text \<open>\<^verbatim>\<open>pop().ok_or(InvalidResponse)\<close>\<close>

definition pop_response :: "'a list \<Rightarrow> 'r cis2_client_error + 'a" where
  "pop_response results = (if results = [] then Inl InvalidResponse else Inr (last results))"

definition client_supports_cis2 ::
    "'h invoke_read_only \<Rightarrow> string codec \<Rightarrow> support_result codec \<Rightarrow> 'r cis2_error codec \<Rightarrow> cis2_client \<Rightarrow> 'h \<Rightarrow>
     'r cis2_client_error + support_result" where
  "client_supports_cis2 invoke IC SC EC client h =
     try_bind (client_invoke_contract_read_only invoke (list16_codec IC) (list16_codec SC) EC client h ''supports'' [''CIS-2''])
       pop_response"

definition client_operator_of ::
    "'h invoke_read_only \<Rightarrow> address codec \<Rightarrow> bool codec \<Rightarrow> 'r cis2_error codec \<Rightarrow> cis2_client \<Rightarrow> 'h \<Rightarrow> address \<Rightarrow> address \<Rightarrow>
     'r cis2_client_error + bool" where
  "client_operator_of invoke AC BC EC client h own a =
     try_bind (client_invoke_contract_read_only invoke (list16_codec (pair_codec AC AC)) (list16_codec BC) EC client h
       ''operatorOf'' [(own, a)]) pop_response"

definition client_balance_of ::
    "'h invoke_read_only \<Rightarrow> 't codec \<Rightarrow> address codec \<Rightarrow> 'a codec \<Rightarrow> 'r cis2_error codec \<Rightarrow> cis2_client \<Rightarrow> 'h \<Rightarrow> 't \<Rightarrow> address \<Rightarrow>
     'r cis2_client_error + 'a" where
  "client_balance_of invoke TC AC MC EC client h token_id a =
     try_bind (client_invoke_contract_read_only invoke (list16_codec (pair_codec TC AC)) (list16_codec MC) EC client h
       ''balanceOf'' [(token_id, a)]) pop_response"

definition client_transfer ::
    "'h invoke_mutable \<Rightarrow> ('t, 'a) transfer_params codec \<Rightarrow> 'r cis2_error codec \<Rightarrow> cis2_client \<Rightarrow> 'h \<Rightarrow>
     ('t, 'a) transfer_params \<Rightarrow> ('r cis2_client_error + bool) \<times> 'h" where
  "client_transfer invoke TC EC client h transfer =
     (let (res, h) = client_invoke_contract invoke (list16_codec TC) (unit_codec []) EC client h ''transfer'' [transfer] in
      (try_bind res (\<lambda>(state_modified, _). Inr state_modified), h))"

definition client_update_operator ::
    "'h invoke_mutable \<Rightarrow> operator_update codec \<Rightarrow> address codec \<Rightarrow> 'r cis2_error codec \<Rightarrow> cis2_client \<Rightarrow> 'h \<Rightarrow>
     address \<Rightarrow> operator_update \<Rightarrow> ('r cis2_client_error + bool) \<times> 'h" where
  "client_update_operator invoke UC AC EC client h operator update =
     (let (res, h) = client_invoke_contract invoke (pair_codec UC AC) (unit_codec []) EC client h ''updateOperator'' (update, operator) in
      (try_bind res (\<lambda>(state_modified, _). Inr state_modified), h))"

section \<open>Calls to a token contract\<close>

text \<open>
  What a call to an entrypoint answers: the parameter is read from the bytes, the entrypoint runs, and
  its result is written or, when it rejects, the code and the value of the reject are handed over and
  the state is as before. A callee that is not the caller leaves the caller's state unmodified.
\<close>

definition with_parameter :: "'p option \<Rightarrow> 'q receive_context \<Rightarrow> 'p receive_context" where
  "with_parameter p ctx = \<lparr>ctx_sender = ctx_sender ctx, ctx_parameter = p, ctx_slot_time = ctx_slot_time ctx,
     ctx_owner = ctx_owner ctx, ctx_self_address = ctx_self_address ctx\<rparr>"

definition rejected :: "reject \<Rightarrow> bytes call_contract_error" where
  "rejected r = LogicReject (rj_error_code r) (case rj_return_value r of Some v \<Rightarrow> v | None \<Rightarrow> [])"

definition answer_query ::
    "'p codec \<Rightarrow> 'a codec \<Rightarrow> ('e \<Rightarrow> reject) \<Rightarrow> ('p receive_context \<Rightarrow> 'e + 'a) \<Rightarrow> unit receive_context \<Rightarrow> bytes \<Rightarrow>
     bytes call_contract_error + bytes option" where
  "answer_query PC RC rej entrypoint ctx param =
     (case entrypoint (with_parameter (map_option fst (des PC param)) ctx) of
        Inr r \<Rightarrow> Inr (Some (ser RC r)) | Inl e \<Rightarrow> Inl (rejected (rej e)))"

definition answer_update ::
    "'p codec \<Rightarrow> ('e \<Rightarrow> reject) \<Rightarrow> ('p receive_context \<Rightarrow> 'h \<Rightarrow> 'e + 'h) \<Rightarrow> unit receive_context \<Rightarrow> 'h \<Rightarrow> bytes \<Rightarrow>
     (bytes call_contract_error + bool \<times> bytes option) \<times> 'h" where
  "answer_update PC rej entrypoint ctx h param =
     (case entrypoint (with_parameter (map_option fst (des PC param)) ctx) h of
        Inr h \<Rightarrow> (Inr (False, Some []), h) | Inl e \<Rightarrow> (Inl (rejected (rej e)), h))"

text \<open>The error the client makes of a reject of the token standard.\<close>

definition client_error_of :: "('r cis2_error \<Rightarrow> reject) \<Rightarrow> 'r cis2_error \<Rightarrow> 'r cis2_client_error" where
  "client_error_of rej e = ClientInvokeContractError (LogicReject (rj_error_code (rej e)) e)"

lemma try_from_rejected:
  assumes "codec_at EC e"
  shows "try_bind (cis2_client_error_try_from EC (rejected (reject_from_cis2_error (ser EC) into e))) Inl =
    Inl (client_error_of (reject_from_cis2_error (ser EC) into) e)"
  by (simp add: cis2_client_error_try_from_def rejected_def reject_from_cis2_error_def client_error_of_def codec_at_end [OF assms])

text \<open>A query with one element gives that element's answer, or the error of the contract.\<close>

lemma client_query:
  assumes codecs: "codec_at QC q" "\<And>r. answer = Inr r \<Longrightarrow> codec_at RC r" "\<And>e. answer = Inl e \<Longrightarrow> codec_at EC e"
    and served: "\<And>param. invoke h c param name 0 =
      answer_query (list16_codec QC) (list16_codec RC) (reject_from_cis2_error (ser EC) into) entrypoint ctx param"
    and one: "entrypoint (with_parameter (Some [q]) ctx) = try_bind answer (\<lambda>r. Inr [r])"
  shows "try_bind (client_invoke_contract_read_only invoke (list16_codec QC) (list16_codec RC) EC (cis2_client_new c) h name [q])
      pop_response = map_err (client_error_of (reject_from_cis2_error (ser EC) into)) answer"
  using one
  by (cases answer) (simp_all add: client_invoke_contract_read_only_def cis2_client_new_def served answer_query_def map_err_def
      pop_response_def list16_codec_one codecs try_from_rejected)

lemma nft_parameter_with [simp]: "nft_parameter (with_parameter (Some p) ctx) = Inr p"
  by (simp add: nft_parameter_def with_parameter_def)

text \<open>What the token contract answers to each name.\<close>

definition nft_service ::
    "u32 codec \<Rightarrow> address codec \<Rightarrow> u8 codec \<Rightarrow> bool codec \<Rightarrow> string codec \<Rightarrow> support_result codec \<Rightarrow> (nft_error \<Rightarrow> reject) \<Rightarrow>
     nft_host \<Rightarrow> unit receive_context \<Rightarrow> string \<Rightarrow> bytes \<Rightarrow> bytes call_contract_error + bytes option" where
  "nft_service TC AC MC BC IC SC rej token ctx name param =
     (if name = ''balanceOf'' then
        answer_query (list16_codec (pair_codec TC AC)) (list16_codec MC) rej (\<lambda>ctx. nft_contract_balance_of ctx token) ctx param
      else if name = ''operatorOf'' then
        answer_query (list16_codec (pair_codec AC AC)) (list16_codec BC) rej (\<lambda>ctx. nft_contract_operator_of ctx token) ctx param
      else if name = ''supports'' then
        answer_query (list16_codec IC) (list16_codec SC) rej (\<lambda>ctx. nft_contract_supports ctx token) ctx param
      else Inl CallMissingEntrypoint)"

section \<open>Properties\<close>

text \<open>
  C36. A client that calls the non-fungible token contract through a host that serves its entrypoints
  gets from \<^verbatim>\<open>balance_of\<close> and \<^verbatim>\<open>operator_of\<close> what the state of the token contract holds, with a reject of
  the contract as the error it stands for, and from \<^verbatim>\<open>supports_cis2\<close> that the standard is supported.
\<close>

theorem client_queries_nft:
  assumes "codec_at TC t" "codec_at AC a" "codec_at AC own" "codec_at MC 0" "codec_at MC 1"
    and "codec_at BC (nft_is_operator (h_state token) a own)" "codec_at IC ''CIS-2''" "codec_at SC Support" "codec_at EC InvalidTokenId"
    and served: "\<And>name param. invoke h c param name 0 =
      nft_service TC AC MC BC IC SC (reject_from_cis2_error (ser EC) into) token ctx name param"
  shows "client_balance_of invoke TC AC MC EC (cis2_client_new c) h t a =
      map_err (client_error_of (reject_from_cis2_error (ser EC) into)) (nft_balance (h_state token) t a) \<and>
    client_operator_of invoke AC BC EC (cis2_client_new c) h own a = Inr (nft_is_operator (h_state token) a own) \<and>
    client_supports_cis2 invoke IC SC EC (cis2_client_new c) h = Inr Support"
proof (intro conjI)
  have "nft_balance (h_state token) t a \<in> {Inr 0, Inr 1, Inl InvalidTokenId}"
    by (auto simp: nft_balance_def ensure_def split: option.splits)
  then have amounts: "nft_balance (h_state token) t a = Inr n \<Longrightarrow> codec_at MC n"
    "nft_balance (h_state token) t a = Inl e \<Longrightarrow> codec_at EC e" for n e using assms(4,5,9) by auto
  show "client_balance_of invoke TC AC MC EC (cis2_client_new c) h t a =
      map_err (client_error_of (reject_from_cis2_error (ser EC) into)) (nft_balance (h_state token) t a)"
    unfolding client_balance_of_def
    by (rule client_query [where entrypoint = "\<lambda>ctx. nft_contract_balance_of ctx token" and ctx = ctx])
      (simp_all add: pair_codec_at assms(1,2) amounts served nft_service_def nft_contract_balance_of_def)
  have "client_operator_of invoke AC BC EC (cis2_client_new c) h own a =
      map_err (client_error_of (reject_from_cis2_error (ser EC) into)) (Inr (nft_is_operator (h_state token) a own))"
    unfolding client_operator_of_def
    by (rule client_query [where entrypoint = "\<lambda>ctx. nft_contract_operator_of ctx token" and ctx = ctx])
      (use assms(6) in \<open>simp_all add: pair_codec_at assms(2,3) served nft_service_def nft_contract_operator_of_def\<close>)
  then show "client_operator_of invoke AC BC EC (cis2_client_new c) h own a = Inr (nft_is_operator (h_state token) a own)"
    by (simp add: map_err_def)
  have "client_supports_cis2 invoke IC SC EC (cis2_client_new c) h =
      map_err (client_error_of (reject_from_cis2_error (ser EC) into)) (Inr Support)"
    unfolding client_supports_cis2_def
    by (rule client_query [where entrypoint = "\<lambda>ctx. nft_contract_supports ctx token" and ctx = ctx])
      (use assms(8) in \<open>simp_all add: assms(7) served nft_service_def nft_contract_supports_def NFT_SUPPORTS_STANDARDS_def\<close>)
  then show "client_supports_cis2 invoke IC SC EC (cis2_client_new c) h = Inr Support" by (simp add: map_err_def)
qed

text \<open>The client's transfer is the contract's, with one element in the list.\<close>

lemma client_transfer_nft:
  assumes "codec_at TC t" "\<And>e. codec_at EC e"
    and served: "\<And>param. invoke h c param ''transfer'' 0 =
      answer_update (list16_codec TC) (reject_from_cis2_error (ser EC) into) (nft_contract_transfer logger call) ctx h param"
  shows "client_transfer invoke TC EC (cis2_client_new c) h t =
    (case nft_contract_transfer logger call (with_parameter (Some [t]) ctx) h of
       Inr h' \<Rightarrow> (Inr False, h') | Inl e \<Rightarrow> (Inl (client_error_of (reject_from_cis2_error (ser EC) into) e), h))"
  by (simp add: client_transfer_def client_invoke_contract_def cis2_client_new_def served answer_update_def
      list16_codec_one [OF assms(1)] try_from_rejected [OF assms(2)] unit_codec_def split: sum.splits)

text \<open>
  The client's \<^verbatim>\<open>update_operator\<close> sends an update without the length of the list the contract reads.
  With an operator that is an account, the bytes of a removal start with two zeros and read as an empty
  list: the contract accepts the call, the client reports success, and the operator stays.
\<close>

lemma client_remove_operator_ignored:
  assumes "ser UC RemoveOperator = [0]" "ser AC (Account acc) = 0 # acc"
    and served: "\<And>param. invoke h c param ''updateOperator'' 0 =
      answer_update (list16_codec (pair_codec UC AC)) rej (nft_contract_update_operator logger) ctx h param"
  shows "client_update_operator invoke UC AC EC (cis2_client_new c) h (Account acc) RemoveOperator = (Inr False, h)"
proof -
  have "read_le 2 (0 # 0 # acc) = Some (0 :: u16, acc)" by (simp add: read_le_def from_le_bytes_def numeral_2_eq_2)
  then have "des (list16_codec (pair_codec UC AC)) (0 # 0 # acc) = Some ([], acc)" by (simp add: list16_codec_def)
  then show ?thesis using assms(1,2)
    by (simp add: client_update_operator_def client_invoke_contract_def cis2_client_new_def served answer_update_def
        nft_contract_update_operator_def unit_codec_def pair_codec_def)
qed

text \<open>Codecs that are right at the values used, and the token contract of the sample state.\<close>

definition const_codec :: "'a \<Rightarrow> bytes \<Rightarrow> 'a codec" where
  "const_codec v bs = \<lparr>ser = (\<lambda>_. bs), des = (\<lambda>src. Some (v, drop (length bs) src))\<rparr>"

lemma const_codec_at [simp]: "codec_at (const_codec v bs) v"
  by (simp add: codec_at_def const_codec_def)

lemma u8_codec_at [simp]: "codec_at u8_codec n"
  by (simp add: codec_at_def u8_codec_def)

definition sample_context :: "unit receive_context" where
  "sample_context = \<lparr>ctx_sender = Account [1], ctx_parameter = None, ctx_slot_time = 0, ctx_owner = [9],
     ctx_self_address = \<lparr>ca_index = 0, ca_subindex = 0\<rparr>\<rparr>"

definition sample_invoke :: "nft_host invoke_read_only" where
  "sample_invoke h c param name amount =
     nft_service (const_codec 7 [7]) (const_codec (Account [1]) [1]) u8_codec (const_codec False [0]) (const_codec ''CIS-2'' [])
       (const_codec Support []) (reject_from_cis2_error (ser (const_codec InvalidTokenId [0])) (\<lambda>_. reject_default)) h sample_context name param"

theorem client_queries_nft_witness:
  "client_balance_of sample_invoke (const_codec (7 :: u32) [7]) (const_codec (Account [1]) [1]) u8_codec
     (const_codec (InvalidTokenId :: nft_error) [0]) (cis2_client_new \<lparr>ca_index = 4, ca_subindex = 0\<rparr>) sample_nft_host 7 (Account [1]) = Inr 1"
proof -
  have "\<not> nft_is_operator (h_state sample_nft_host) (Account [1]) (Account [1])"
    "nft_balance (h_state sample_nft_host) 7 (Account [1]) = Inr 1"
    by (simp_all add: sample_nft_host_def sample_nft_state_def nft_is_operator_def nft_balance_def nft_contains_token_def ensure_def)
  then show ?thesis
    using client_queries_nft [where TC = "const_codec 7 [7]" and AC = "const_codec (Account [1]) [1]" and MC = u8_codec
        and BC = "const_codec False [0]" and IC = "const_codec ''CIS-2'' []" and SC = "const_codec Support []"
        and EC = "const_codec InvalidTokenId [0]" and invoke = sample_invoke and h = sample_nft_host and token = sample_nft_host
        and ctx = sample_context and into = "\<lambda>_. reject_default" and t = 7 and a = "Account [1]" and own = "Account [1]"
        and c = "\<lparr>ca_index = 4, ca_subindex = 0\<rparr>"]
    by (simp add: sample_invoke_def map_err_def)
qed

definition sample_update_codec :: "operator_update codec" where
  "sample_update_codec = \<lparr>ser = (\<lambda>u. case u of RemoveOperator \<Rightarrow> [0] | AddOperator \<Rightarrow> [1]),
     des = (\<lambda>src. case src of b # src \<Rightarrow> if b = 0 then Some (RemoveOperator, src) else if b = 1 then Some (AddOperator, src) else None
       | [] \<Rightarrow> None)\<rparr>"

definition sample_account_codec :: "address codec" where
  "sample_account_codec = \<lparr>ser = (\<lambda>a. case a of Account acc \<Rightarrow> 0 # acc | Contract c \<Rightarrow> [1]),
     des = (\<lambda>src. case src of b # src \<Rightarrow> if b = 0 \<and> 32 \<le> length src then Some (Account (take 32 src), drop 32 src) else None
       | [] \<Rightarrow> None)\<rparr>"

definition sample_invoke_update :: "nft_host invoke_mutable" where
  "sample_invoke_update h c param name amount =
     answer_update (list16_codec (pair_codec sample_update_codec sample_account_codec)) (\<lambda>_. reject_default)
       (nft_contract_update_operator (\<lambda>_ _. None)) sample_context h param"

lemma client_remove_operator_ignored_sample:
  "\<exists>h'. client_update_operator sample_invoke_update sample_update_codec sample_account_codec (const_codec (InvalidTokenId :: nft_error) [0])
      (cis2_client_new \<lparr>ca_index = 4, ca_subindex = 0\<rparr>) sample_nft_host (Account [2]) RemoveOperator = (Inr False, h') \<and>
    nft_is_operator (h_state h') (Account [2]) (Account [1])"
proof -
  have "nft_is_operator (h_state sample_nft_host) (Account [2]) (Account [1])"
    by (simp add: sample_nft_host_def sample_nft_state_def nft_is_operator_def)
  moreover have "client_update_operator sample_invoke_update sample_update_codec sample_account_codec (const_codec (InvalidTokenId :: nft_error) [0])
      (cis2_client_new \<lparr>ca_index = 4, ca_subindex = 0\<rparr>) sample_nft_host (Account [2]) RemoveOperator = (Inr False, sample_nft_host)"
    by (rule client_remove_operator_ignored [where UC = sample_update_codec and AC = sample_account_codec and acc = "[2]"
        and invoke = sample_invoke_update and rej = "\<lambda>_. reject_default" and logger = "\<lambda>_ _. None" and ctx = sample_context])
      (simp_all add: sample_invoke_update_def, simp_all add: sample_update_codec_def sample_account_codec_def)
  ultimately show ?thesis by blast
qed

end
