(* ===== verification/Auction.thy ===== *)
theory Auction
  imports Contract_Host
begin

text \<open>
  The contract of \<^verbatim>\<open>examples/auction/src/lib.rs\<close>: bids in CCD, each of which refunds the one before,
  until the auction is finalized. The conversion of an amount to Euro cent is the library's and an
  argument here. \<open>None\<close> is the trap of \<^verbatim>\<open>unwrap_abort\<close> on a failed transfer.
\<close>

section \<open>State\<close>

datatype auction_state = NotSoldYet | Sold account_address

record auction =
  au_state :: auction_state
  au_highest_bidder :: "account_address option"
  au_minimum_raise :: u64
  au_item :: string
  au_end :: u64

record auction_init_parameter =
  ap_item :: string
  ap_end :: u64
  ap_minimum_raise :: u64

datatype bid_error = OnlyAccount | BidBelowCurrentBid | BidBelowMinimumRaise | BidTooLate | AuctionAlreadyFinalized

datatype finalize_error = AuctionStillActive | FinalizeAlreadyFinalized

type_synonym auction_host = "(auction, unit) contract_host"

section \<open>Entrypoints\<close>

definition auction_init :: "auction_init_parameter option \<Rightarrow> auction_host option" where
  "auction_init parameter = map_option (\<lambda>p.
     \<lparr>h_state = \<lparr>au_state = NotSoldYet, au_highest_bidder = None, au_minimum_raise = ap_minimum_raise p,
        au_item = ap_item p, au_end = ap_end p\<rparr>, h_balance = 0, h_logs = [], h_transfers = []\<rparr>) parameter"

definition transfer_or_abort ::
    "(account_address \<Rightarrow> bool) \<Rightarrow> auction_host \<Rightarrow> account_address \<Rightarrow> u64 \<Rightarrow> ('e + auction_host) option" where
  "transfer_or_abort missing h a amount =
     (case invoke_transfer missing h a amount of Inl _ \<Rightarrow> None | Inr h \<Rightarrow> Some (Inr h))"

text \<open>The amount of the bid is on the balance already. The subtractions of amounts wrap.\<close>

definition auction_bid ::
    "(u64 \<Rightarrow> u64) \<Rightarrow> (account_address \<Rightarrow> bool) \<Rightarrow> unit receive_context \<Rightarrow> u64 \<Rightarrow> auction_host \<Rightarrow> (bid_error + auction_host) option" where
  "auction_bid to_euro_cent missing ctx amount h =
     (let st = h_state h in
      if au_state st \<noteq> NotSoldYet then Some (Inl AuctionAlreadyFinalized)
      else if \<not> ctx_slot_time ctx \<le> au_end st then Some (Inl BidTooLate)
      else (case ctx_sender ctx of
          Contract _ \<Rightarrow> Some (Inl OnlyAccount)
        | Account sender_address \<Rightarrow>
            let balance = h_balance h; previous_balance = balance - amount in
            if \<not> amount > previous_balance then Some (Inl BidBelowCurrentBid)
            else (let amount_difference = amount - previous_balance;
                      euro_cent_difference = to_euro_cent amount_difference in
              if \<not> euro_cent_difference \<ge> au_minimum_raise st then Some (Inl BidBelowMinimumRaise)
              else (let h = h\<lparr>h_state := st\<lparr>au_highest_bidder := Some sender_address\<rparr>\<rparr> in
                case au_highest_bidder st of
                  Some old \<Rightarrow> transfer_or_abort missing h old previous_balance
                | None \<Rightarrow> Some (Inr h)))))"

definition view_auction :: "auction_host \<Rightarrow> auction" where "view_auction h = h_state h"
definition view_highest_bid :: "auction_host \<Rightarrow> u64" where "view_highest_bid h = h_balance h"

definition auction_finalize ::
    "(account_address \<Rightarrow> bool) \<Rightarrow> unit receive_context \<Rightarrow> auction_host \<Rightarrow> (finalize_error + auction_host) option" where
  "auction_finalize missing ctx h =
     (let st = h_state h in
      if au_state st \<noteq> NotSoldYet then Some (Inl FinalizeAlreadyFinalized)
      else if \<not> ctx_slot_time ctx > au_end st then Some (Inl AuctionStillActive)
      else (case au_highest_bidder st of
          Some winner \<Rightarrow>
            (let h = h\<lparr>h_state := st\<lparr>au_state := Sold winner\<rparr>\<rparr>
             in transfer_or_abort missing h (ctx_owner ctx) (h_balance h))
        | None \<Rightarrow> Some (Inr h)))"

section \<open>Histories\<close>

text \<open>
  \<open>auction_run to_euro_cent own (now, h) bids (now', h')\<close>: successful calls, at times that do not fall, take the
  auction from \<open>h\<close> to \<open>h'\<close>, and \<open>bids\<close> lists the calls of \<^verbatim>\<open>bid\<close> among them, each with its sender and the amount
  sent along. The owner is fixed; the amount of a bid is at most what exists.
\<close>

inductive auction_run ::
    "(u64 \<Rightarrow> u64) \<Rightarrow> account_address \<Rightarrow> u64 \<times> auction_host \<Rightarrow> (address \<times> u64) list \<Rightarrow> u64 \<times> auction_host \<Rightarrow> bool"
    for to_euro_cent :: "u64 \<Rightarrow> u64" and own :: account_address and s0 :: "u64 \<times> auction_host" where
  run_start: "auction_run to_euro_cent own s0 [] s0"
| run_bid: "auction_run to_euro_cent own s0 bids (now, h) \<Longrightarrow> now \<le> ctx_slot_time ctx \<Longrightarrow>
    unat (h_balance h) + unat amount < 2 ^ 64 \<Longrightarrow>
    auction_bid to_euro_cent missing ctx amount (receive_amount amount h) = Some (Inr h') \<Longrightarrow>
    auction_run to_euro_cent own s0 (bids @ [(ctx_sender ctx, amount)]) (ctx_slot_time ctx, h')"
| run_finalize: "auction_run to_euro_cent own s0 bids (now, h) \<Longrightarrow> now \<le> ctx_slot_time ctx \<Longrightarrow> ctx_owner ctx = own \<Longrightarrow>
    auction_finalize missing ctx (receive_amount 0 h) = Some (Inr h') \<Longrightarrow>
    auction_run to_euro_cent own s0 bids (ctx_slot_time ctx, h')"

text \<open>
  What the history says about the state. \<open>accounts bids\<close> are the bids with the accounts that made them; the refunds
  are all of them but the last, in their order; the last one is the balance, or went to the owner.
\<close>

definition auction_inv :: "account_address \<Rightarrow> u64 \<times> auction_host \<Rightarrow> (account_address \<times> u64) list \<Rightarrow> bool" where
  "auction_inv own s bids \<longleftrightarrow> (let h = snd s; st = h_state h in
     sorted_wrt (<) (map snd bids) \<and> (\<forall>b \<in> set bids. 0 < snd b) \<and>
     au_highest_bidder st = (if bids = [] then None else Some (fst (last bids))) \<and>
     (case au_state st of
        NotSoldYet \<Rightarrow> h_transfers h = butlast bids \<and> h_balance h = (if bids = [] then 0 else snd (last bids))
      | Sold winner \<Rightarrow> bids \<noteq> [] \<and> winner = fst (last bids) \<and> h_balance h = 0 \<and> au_end st < fst s \<and>
          h_transfers h = butlast bids @ [(own, snd (last bids))]))"

definition from_accounts :: "(account_address \<times> u64) list \<Rightarrow> (address \<times> u64) list" where
  "from_accounts bids = map (\<lambda>(a, amount). (Account a, amount)) bids"

lemma transfer_or_abort_Some:
  "transfer_or_abort missing h a amount = Some (Inr h') \<longleftrightarrow> invoke_transfer missing h a amount = Inr h'"
  by (auto simp: transfer_or_abort_def split: sum.splits)

lemma auction_bid_Inr:
  assumes "auction_bid to_euro_cent missing ctx amount (receive_amount amount h) = Some (Inr h')"
  obtains sender where "au_state (h_state h) = NotSoldYet" "ctx_slot_time ctx \<le> au_end (h_state h)"
    "h_balance h < amount" "au_minimum_raise (h_state h) \<le> to_euro_cent (amount - h_balance h)"
    "h_state h' = (h_state h)\<lparr>au_highest_bidder := Some sender\<rparr>" "ctx_sender ctx = Account sender"
    "(case au_highest_bidder (h_state h) of
        None \<Rightarrow> h_balance h' = h_balance h + amount \<and> h_transfers h' = h_transfers h
      | Some old \<Rightarrow> h_balance h' = amount \<and> h_transfers h' = h_transfers h @ [(old, h_balance h)])"
proof (cases "ctx_sender ctx")
  case (Account sender)
  then show thesis using assms that [of sender]
    by (auto simp: auction_bid_def receive_amount_def Let_def transfer_or_abort_Some
        split: if_splits option.splits dest!: invoke_transfer_Inr)
qed (use assms in \<open>auto simp: auction_bid_def Let_def split: if_splits\<close>)

lemma auction_inv_bid:
  assumes "auction_inv own (now, h) bids"
    and run: "auction_bid to_euro_cent missing ctx amount (receive_amount amount h) = Some (Inr h')"
  shows "\<exists>sender. ctx_sender ctx = Account sender \<and> auction_inv own (ctx_slot_time ctx, h') (bids @ [(sender, amount)])"
  using run
proof (rule auction_bid_Inr)
  fix sender
  assume b: "au_state (h_state h) = NotSoldYet" "h_balance h < amount"
    "h_state h' = (h_state h)\<lparr>au_highest_bidder := Some sender\<rparr>" "ctx_sender ctx = Account sender"
    "(case au_highest_bidder (h_state h) of
        None \<Rightarrow> h_balance h' = h_balance h + amount \<and> h_transfers h' = h_transfers h
      | Some old \<Rightarrow> h_balance h' = amount \<and> h_transfers h' = h_transfers h @ [(old, h_balance h)])"
  have above: "\<forall>x \<in> set bids. snd x < amount"
  proof (cases bids rule: rev_cases)
    case (snoc bs x)
    then have "snd x < amount" "\<forall>y \<in> set bs. snd y < snd x"
      using b assms(1) by (auto simp: auction_inv_def Let_def sorted_wrt_append)
    then show ?thesis using snoc less_trans by auto
  qed simp
  have "0 < amount" using b(2) by (metis word_gt_0 not_less word_zero_le antisym)
  then have "auction_inv own (ctx_slot_time ctx, h') (bids @ [(sender, amount)])"
    using b assms(1) above
    by (cases bids rule: rev_cases) (auto simp: auction_inv_def Let_def sorted_wrt_append butlast_append split: option.splits)
  then show ?thesis using b(4) by blast
qed

lemma auction_inv_finalize:
  assumes "auction_inv own (now, h) bids" "now \<le> ctx_slot_time ctx" "ctx_owner ctx = own"
    and run: "auction_finalize missing ctx (receive_amount 0 h) = Some (Inr h')"
  shows "auction_inv own (ctx_slot_time ctx, h') bids"
proof (cases "au_highest_bidder (h_state h)")
  case None
  then have "h_state h' = h_state h" "h_balance h' = h_balance h" "h_transfers h' = h_transfers h"
    "au_state (h_state h) = NotSoldYet"
    using run by (auto simp: auction_finalize_def receive_amount_def Let_def split: if_splits)
  then show ?thesis using assms(1) by (auto simp: auction_inv_def Let_def)
next
  case (Some winner)
  then have "au_state (h_state h) = NotSoldYet" "au_end (h_state h) < ctx_slot_time ctx"
    "h_state h' = (h_state h)\<lparr>au_state := Sold winner\<rparr>" "h_balance h' = 0"
    "h_transfers h' = h_transfers h @ [(own, h_balance h)]"
    using assms(3) run
    by (auto simp: auction_finalize_def receive_amount_def Let_def transfer_or_abort_Some
        split: if_splits dest!: invoke_transfer_Inr)
  then show ?thesis using assms(1) Some by (auto simp: auction_inv_def Let_def split: if_splits)
qed

lemma auction_run_inv:
  assumes "auction_run to_euro_cent own s0 bids s" "auction_inv own s0 []"
  shows "\<exists>bs. bids = from_accounts bs \<and> auction_inv own s bs"
  using assms
proof (induction rule: auction_run.induct)
  case run_start
  then show ?case by (intro exI [of _ "[]"]) (simp add: from_accounts_def)
next
  case (run_bid bids now h ctx amount missing h')
  then obtain bs where bs: "bids = from_accounts bs" "auction_inv own (now, h) bs" by blast
  from auction_inv_bid [OF bs(2) run_bid.hyps(4)] obtain sender
    where "ctx_sender ctx = Account sender" "auction_inv own (ctx_slot_time ctx, h') (bs @ [(sender, amount)])" by blast
  then show ?case using bs(1) by (intro exI [of _ "bs @ [(sender, amount)]"]) (simp add: from_accounts_def)
next
  case (run_finalize bids now h ctx missing h')
  then show ?case using auction_inv_finalize by blast
qed

lemma auction_init_inv: "auction_init parameter = Some h0 \<Longrightarrow> auction_inv own (now, h0) []"
  by (auto simp: auction_init_def auction_inv_def Let_def)

section \<open>Properties\<close>

text \<open>
  C8. In every history of an auction the accepted bids come from accounts and each is higher than all before it. Every
  accepted bid but the last has been paid back to its bidder, in order and once; the last one is the balance of the
  contract while the item is not sold, and has gone to the owner, with nothing left, once it is sold, to the last
  bidder and after the end of the auction. No other transfer was made.
\<close>

theorem auction_accounting:
  assumes "auction_init parameter = Some h0" "auction_run to_euro_cent own (0, h0) bids (now, h)"
  shows "\<exists>bs. bids = map (\<lambda>(a, amount). (Account a, amount)) bs \<and> sorted_wrt (<) (map snd bids) \<and>
     au_highest_bidder (h_state h) = (if bs = [] then None else Some (fst (last bs))) \<and>
     (case au_state (h_state h) of
        NotSoldYet \<Rightarrow> h_transfers h = butlast bs \<and> h_balance h = (if bs = [] then 0 else snd (last bs))
      | Sold winner \<Rightarrow> bs \<noteq> [] \<and> winner = fst (last bs) \<and> h_balance h = 0 \<and> au_end (h_state h) < now \<and>
          h_transfers h = butlast bs @ [(own, snd (last bs))])"
proof -
  obtain bs where bs: "bids = from_accounts bs" "auction_inv own (now, h) bs"
    using auction_run_inv [OF assms(2) auction_init_inv [OF assms(1)]] by blast
  have "map snd bids = map snd bs" by (simp add: bs(1) from_accounts_def case_prod_unfold comp_def)
  with bs show ?thesis unfolding auction_inv_def Let_def fst_conv snd_conv from_accounts_def by metis
qed

text \<open>An auction with two bids.\<close>

definition sample_auction0 :: auction_host where
  "sample_auction0 = the (auction_init (Some \<lparr>ap_item = [], ap_end = 10, ap_minimum_raise = 1\<rparr>))"

definition sample_bidder :: "account_address \<Rightarrow> u64 \<Rightarrow> unit receive_context" where
  "sample_bidder a time = \<lparr>ctx_sender = Account a, ctx_parameter = None, ctx_slot_time = time, ctx_owner = [9],
     ctx_self_address = \<lparr>ca_index = 0, ca_subindex = 0\<rparr>\<rparr>"

definition sample_auction1 :: auction_host where
  "sample_auction1 = projr (the (auction_bid (\<lambda>x. x) (\<lambda>_. False) (sample_bidder [1] 2) 5 (receive_amount 5 sample_auction0)))"

definition sample_auction2 :: auction_host where
  "sample_auction2 = projr (the (auction_bid (\<lambda>x. x) (\<lambda>_. False) (sample_bidder [2] 3) 7 (receive_amount 7 sample_auction1)))"

lemmas sample_auction_defs = sample_auction0_def sample_auction1_def sample_auction2_def sample_bidder_def auction_init_def
  auction_bid_def receive_amount_def transfer_or_abort_def invoke_transfer_def

lemma sample_auction_simps:
  "auction_init (Some \<lparr>ap_item = [], ap_end = 10, ap_minimum_raise = 1\<rparr>) = Some sample_auction0"
  "auction_bid (\<lambda>x. x) (\<lambda>_. False) (sample_bidder [1] 2) 5 (receive_amount 5 sample_auction0) = Some (Inr sample_auction1)"
  "auction_bid (\<lambda>x. x) (\<lambda>_. False) (sample_bidder [2] 3) 7 (receive_amount 7 sample_auction1) = Some (Inr sample_auction2)"
  "h_balance sample_auction0 = 0" "h_balance sample_auction1 = 5" "h_balance sample_auction2 = 7"
  "h_transfers sample_auction2 = [([1], 5)]" "au_state (h_state sample_auction2) = NotSoldYet"
  "au_highest_bidder (h_state sample_auction2) = Some [2]" "au_end (h_state sample_auction2) = 10"
  by (simp_all add: sample_auction_defs Let_def)

lemma sample_auction_run: "auction_run (\<lambda>x. x) [9] (0, sample_auction0) [(Account [1], 5), (Account [2], 7)] (3, sample_auction2)"
proof -
  have "auction_run (\<lambda>x. x) [9] (0, sample_auction0) ([] @ [(ctx_sender (sample_bidder [1] 2), 5)])
      (ctx_slot_time (sample_bidder [1] 2), sample_auction1)"
    by (rule run_bid [OF run_start _ _ sample_auction_simps(2)]) (simp_all add: sample_auction_simps sample_bidder_def)
  then have "auction_run (\<lambda>x. x) [9] (0, sample_auction0)
      (([] @ [(ctx_sender (sample_bidder [1] 2), 5)]) @ [(ctx_sender (sample_bidder [2] 3), 7)])
      (ctx_slot_time (sample_bidder [2] 3), sample_auction2)"
    by (rule run_bid [OF _ _ _ sample_auction_simps(3)]) (simp_all add: sample_auction_simps sample_bidder_def)
  then show ?thesis by (simp add: sample_bidder_def)
qed

theorem auction_accounting_witness: "h_transfers sample_auction2 = [([1], 5)] \<and> h_balance sample_auction2 = 7"
proof -
  obtain bs :: "(account_address \<times> u64) list" where bs: "[(Account [1], 5), (Account [2], 7)] = map (\<lambda>(a, amount). (Account a, amount)) bs"
    "h_transfers sample_auction2 = butlast bs" "h_balance sample_auction2 = (if bs = [] then 0 else snd (last bs))"
    using auction_accounting [OF sample_auction_simps(1) sample_auction_run]
    unfolding sample_auction_simps(8) auction_state.case by (elim exE conjE) (rule that)
  from bs(1) have "bs = [([1], 5), ([2], 7)]" by (auto simp: map_eq_Cons_conv Cons_eq_map_conv)
  then show ?thesis using bs(2,3) by simp
qed

text \<open>
  An auction with a bid can be finalized once its end has passed, by anyone, as long as the account
  of the owner exists: the owner gets the highest bid and the item goes to its bidder. From then on
  every bid and every attempt to finalize is refused.
\<close>

lemma auction_finalizes:
  assumes "au_state (h_state h) = NotSoldYet" "au_highest_bidder (h_state h) = Some winner"
    and "au_end (h_state h) < ctx_slot_time ctx" "\<not> missing (ctx_owner ctx)"
  shows "\<exists>h'. auction_finalize missing ctx (receive_amount 0 h) = Some (Inr h') \<and> au_state (h_state h') = Sold winner \<and>
    h_transfers h' = h_transfers h @ [(ctx_owner ctx, h_balance h)] \<and> h_balance h' = 0 \<and>
    auction_bid to_euro_cent missing' ctx' amount (receive_amount amount h') = Some (Inl AuctionAlreadyFinalized) \<and>
    auction_finalize missing' ctx' (receive_amount 0 h') = Some (Inl FinalizeAlreadyFinalized)"
  using assms
  by (simp add: auction_finalize_def auction_bid_def receive_amount_def transfer_or_abort_def invoke_transfer_def Let_def not_le)

lemma auction_finalizes_sample:
  "\<exists>h'. auction_finalize (\<lambda>_. False) (sample_bidder [3] 11) (receive_amount 0 sample_auction2) = Some (Inr h') \<and>
    au_state (h_state h') = Sold [2] \<and> h_transfers h' = [([1], 5), ([9], 7)]"
proof -
  have t: "ctx_slot_time (sample_bidder [3] 11) = 11" "ctx_owner (sample_bidder [3] 11) = [9]" by (simp_all add: sample_bidder_def)
  show ?thesis
    using auction_finalizes [OF sample_auction_simps(8,9), of "sample_bidder [3] 11" "\<lambda>_. False" "\<lambda>x. x" "\<lambda>_. False" "sample_bidder [3] 11" 0]
    by (auto simp: sample_auction_simps t)
qed

end
