(* ===== verification/Two_Step_Transfer.thy ===== *)
theory Two_Step_Transfer
  imports Contract_Host "HOL-Library.AList"
begin

text \<open>
  The contract of \<^verbatim>\<open>examples/two-step-transfer/src/lib.rs\<close>: transfers that several account holders
  must agree to before they time out. The map of requests is an association list in the order the
  entrypoint iterates over it. The sums and differences of amounts wrap.
\<close>

section \<open>State\<close>

datatype ts_message =
    RequestTransfer u64 u64 account_address
  | SupportTransfer u64 u64 account_address

record transfer_request =
  tr_amount :: u64
  tr_target :: account_address
  tr_times_out_at :: u64
  tr_supporters :: "account_address set"

record ts_init_params =
  ts_account_holders :: "account_address set"
  ts_threshold :: u8
  ts_ttl :: u64

record ts_state =
  ts_params :: ts_init_params
  ts_requests :: "(u64 \<times> transfer_request) list"

datatype ts_init_error = InitParseParams | InsufficientAccountHolders | ThresholdAboveAccountHolders | ThresholdBelowTwo

datatype ts_receive_error =
    ReceiveParseParams | NotAccountHolder | ContractSender | RequestAlreadyExists | InsufficientAvailableFunds
  | UnknownTransfer | RequestTimeout | MismatchingRequestInformation | RequestAlreadySupported | RequestOverflow
  | InvokeTransferMissingAccount | InvokeTransferInsufficientFunds

type_synonym ts_host = "(ts_state, unit) contract_host"

fun ts_error_from_transfer :: "transfer_error \<Rightarrow> ts_receive_error" where
  "ts_error_from_transfer AmountTooLarge = InvokeTransferInsufficientFunds"
| "ts_error_from_transfer MissingAccount = InvokeTransferMissingAccount"

section \<open>Entrypoints\<close>

definition ts_contract_init :: "u64 \<Rightarrow> ts_init_params option \<Rightarrow> ts_init_error + ts_host" where
  "ts_contract_init amount parameter =
     (case parameter of
        None \<Rightarrow> Inl InitParseParams
      | Some p \<Rightarrow>
          ensure (card (ts_account_holders p) \<ge> 2) InsufficientAccountHolders
          (ensure (ts_threshold p \<le> of_nat (card (ts_account_holders p))) ThresholdAboveAccountHolders
          (ensure (ts_threshold p \<ge> 2) ThresholdBelowTwo
          (Inr \<lparr>h_state = \<lparr>ts_params = p, ts_requests = []\<rparr>, h_balance = amount, h_logs = [], h_transfers = []\<rparr>))))"

definition contract_receive_deposit :: "u64 \<Rightarrow> ts_host \<Rightarrow> ts_host" where
  "contract_receive_deposit amount h = h"

definition request_transfer ::
    "u64 \<Rightarrow> account_address \<Rightarrow> u64 \<Rightarrow> u64 \<Rightarrow> account_address \<Rightarrow> u64 \<Rightarrow> ts_host \<Rightarrow> ts_receive_error + ts_host" where
  "request_transfer now sender req_id transfer_amount target amount h =
     (let st = h_state h;
          active = filter (\<lambda>(_, r). tr_times_out_at r > now) (ts_requests st);
          reserved = sum_list (map (\<lambda>(_, r). tr_amount r) active)
      in ensure (req_id \<notin> set (map fst active)) RequestAlreadyExists
         (let balance = amount + h_balance h in
          ensure (balance - reserved \<ge> transfer_amount) InsufficientAvailableFunds
          (case checked_add now (ts_ttl (ts_params st)) of
             None \<Rightarrow> Inl RequestOverflow
           | Some times_out \<Rightarrow>
               Inr (h\<lparr>h_state := st\<lparr>ts_requests := AList.update req_id
                 \<lparr>tr_amount = transfer_amount, tr_target = target, tr_times_out_at = times_out, tr_supporters = {sender}\<rparr>
                 active\<rparr>\<rparr>))))"

definition support_transfer ::
    "(account_address \<Rightarrow> bool) \<Rightarrow> u64 \<Rightarrow> account_address \<Rightarrow> u64 \<Rightarrow> u64 \<Rightarrow> account_address \<Rightarrow> ts_host \<Rightarrow>
     ts_receive_error + ts_host" where
  "support_transfer missing now sender req_id transfer_amount target h =
     (let st = h_state h in
      case map_of (ts_requests st) req_id of
        None \<Rightarrow> Inl UnknownTransfer
      | Some r \<Rightarrow>
          ensure (tr_times_out_at r > now) RequestTimeout
          (ensure (tr_amount r = transfer_amount) MismatchingRequestInformation
          (ensure (tr_target r = target) MismatchingRequestInformation
          (ensure (sender \<notin> tr_supporters r) RequestAlreadySupported
          (let r = r\<lparr>tr_supporters := insert sender (tr_supporters r)\<rparr>;
               h = h\<lparr>h_state := st\<lparr>ts_requests := AList.update req_id r (ts_requests st)\<rparr>\<rparr>
           in if card (tr_supporters r) \<ge> unat (ts_threshold (ts_params st)) then
                try_bind (map_err ts_error_from_transfer (invoke_transfer missing h target transfer_amount)) (\<lambda>h.
                Inr (h\<lparr>h_state := (h_state h)\<lparr>ts_requests := AList.delete req_id (ts_requests (h_state h))\<rparr>\<rparr>))
              else Inr h)))))"

definition contract_receive_message ::
    "(account_address \<Rightarrow> bool) \<Rightarrow> ts_message receive_context \<Rightarrow> u64 \<Rightarrow> ts_host \<Rightarrow> ts_receive_error + ts_host" where
  "contract_receive_message missing ctx amount h =
     ensure (\<exists>a \<in> ts_account_holders (ts_params (h_state h)). ctx_sender ctx = Account a) NotAccountHolder
     (case ctx_sender ctx of
        Contract _ \<Rightarrow> Inl ContractSender
      | Account sender \<Rightarrow>
          let now = ctx_slot_time ctx in
          (case ctx_parameter ctx of
             None \<Rightarrow> Inl ReceiveParseParams
           | Some (RequestTransfer req_id transfer_amount target) \<Rightarrow>
               request_transfer now sender req_id transfer_amount target amount h
           | Some (SupportTransfer req_id transfer_amount target) \<Rightarrow>
               support_transfer missing now sender req_id transfer_amount target h))"

section \<open>Reachable states\<close>

inductive ts_reachable :: "ts_init_params \<Rightarrow> ts_host \<Rightarrow> bool" for p :: ts_init_params where
  init: "ts_contract_init amount (Some p) = Inr h \<Longrightarrow> ts_reachable p h"
| deposit: "ts_reachable p h \<Longrightarrow> ts_reachable p (contract_receive_deposit amount (receive_amount amount h))"
| message: "ts_reachable p h \<Longrightarrow> contract_receive_message missing ctx amount (receive_amount amount h) = Inr h' \<Longrightarrow>
    ts_reachable p h'"

text \<open>Only account holders support requests, and a request that is stored lacks support.\<close>

definition request_ok :: "ts_init_params \<Rightarrow> transfer_request \<Rightarrow> bool" where
  "request_ok p r \<longleftrightarrow> tr_supporters r \<subseteq> ts_account_holders p \<and> tr_supporters r \<noteq> {} \<and>
     card (tr_supporters r) < unat (ts_threshold p)"

definition ts_inv :: "ts_init_params \<Rightarrow> ts_host \<Rightarrow> bool" where
  "ts_inv p h \<longleftrightarrow> ts_params (h_state h) = p \<and> finite (ts_account_holders p) \<and> 2 \<le> unat (ts_threshold p) \<and>
     distinct (map fst (ts_requests (h_state h))) \<and> (\<forall>(k, r) \<in> set (ts_requests (h_state h)). request_ok p r)"

lemma receive_amount_simps [simp]:
  "h_state (receive_amount amount h) = h_state h" "h_transfers (receive_amount amount h) = h_transfers h"
  "h_balance (receive_amount amount h) = h_balance h + amount"
  by (simp_all add: receive_amount_def)

lemma update_entries: "(k, r) \<in> set (AList.update j x l) \<Longrightarrow> distinct (map fst l) \<Longrightarrow> (k, r) = (j, x) \<or> (k, r) \<in> set l"
  by (induction l) (auto split: if_splits)

lemma delete_updated: "AList.delete k (AList.update k v l) = AList.delete k l"
  by (induction l) (auto simp: AList.delete_eq)

lemma request_inv:
  assumes "request_transfer now sender req_id transfer_amount target amount h = Inr h'" "ts_inv p h"
    and "sender \<in> ts_account_holders p"
  shows "ts_inv p h' \<and> h_transfers h' = h_transfers h"
proof -
  let ?active = "filter (\<lambda>(_, r). tr_times_out_at r > now) (ts_requests (h_state h))"
  obtain t where t: "h' = h\<lparr>h_state := (h_state h)\<lparr>ts_requests := AList.update req_id
      \<lparr>tr_amount = transfer_amount, tr_target = target, tr_times_out_at = t, tr_supporters = {sender}\<rparr> ?active\<rparr>\<rparr>"
    using assms(1) by (auto simp: request_transfer_def Let_def split: option.splits)
  define r where "r = \<lparr>tr_amount = transfer_amount, tr_target = target, tr_times_out_at = t, tr_supporters = {sender}\<rparr>"
  have r: "tr_supporters r = {sender}" "h' = h\<lparr>h_state := (h_state h)\<lparr>ts_requests := AList.update req_id r ?active\<rparr>\<rparr>"
    using t by (simp_all add: r_def)
  have ok: "request_ok p r" using r(1) assms(2,3) by (auto simp: request_ok_def ts_inv_def)
  have d: "distinct (map fst ?active)" using assms(2) by (auto simp: ts_inv_def distinct_map_filter)
  have "request_ok p r'" if "(k, r') \<in> set (AList.update req_id r ?active)" for k r'
    using update_entries [OF that d] ok assms(2) by (auto simp: ts_inv_def)
  then show ?thesis using r(2) assms(2) d by (auto simp: ts_inv_def distinct_update)
qed

lemma support_cases:
  assumes "support_transfer missing now sender req_id transfer_amount target h = Inr h'"
  obtains (recorded) r where "map_of (ts_requests (h_state h)) req_id = Some r" "sender \<notin> tr_supporters r"
      "card (insert sender (tr_supporters r)) < unat (ts_threshold (ts_params (h_state h)))"
      "h' = h\<lparr>h_state := (h_state h)\<lparr>ts_requests := AList.update req_id
        (r\<lparr>tr_supporters := insert sender (tr_supporters r)\<rparr>) (ts_requests (h_state h))\<rparr>\<rparr>"
    | (paid) r where "map_of (ts_requests (h_state h)) req_id = Some r" "sender \<notin> tr_supporters r"
      "tr_amount r = transfer_amount" "tr_target r = target" "now < tr_times_out_at r"
      "unat (ts_threshold (ts_params (h_state h))) \<le> card (insert sender (tr_supporters r))"
      "h_state h' = (h_state h)\<lparr>ts_requests := AList.delete req_id (ts_requests (h_state h))\<rparr>"
      "h_transfers h' = h_transfers h @ [(target, transfer_amount)]"
      "transfer_amount \<le> h_balance h" "h_balance h' = h_balance h - transfer_amount"
proof -
  obtain r where r: "map_of (ts_requests (h_state h)) req_id = Some r" "sender \<notin> tr_supporters r"
    "tr_amount r = transfer_amount" "tr_target r = target" "now < tr_times_out_at r"
    using assms by (auto simp: support_transfer_def Let_def split: option.splits)
  show thesis
  proof (cases "unat (ts_threshold (ts_params (h_state h))) \<le> card (insert sender (tr_supporters r))")
    case True
    let ?h = "h\<lparr>h_state := (h_state h)\<lparr>ts_requests := AList.update req_id
        (r\<lparr>tr_supporters := insert sender (tr_supporters r)\<rparr>) (ts_requests (h_state h))\<rparr>\<rparr>"
    obtain h1 where h1: "invoke_transfer missing ?h target transfer_amount = Inr h1"
      "h' = h1\<lparr>h_state := (h_state h1)\<lparr>ts_requests := AList.delete req_id (ts_requests (h_state h1))\<rparr>\<rparr>"
      using assms r True by (auto simp: support_transfer_def Let_def try_bind_Inr)
    show thesis
      by (rule that(2) [OF r True]) (use invoke_transfer_Inr [OF h1(1)] h1(2) in \<open>auto simp: delete_updated\<close>)
  next
    case False
    then show thesis using assms r that(1) [OF r(1,2)] by (auto simp: support_transfer_def Let_def)
  qed
qed

lemma support_inv:
  assumes "support_transfer missing now sender req_id transfer_amount target h = Inr h'" "ts_inv p h"
    and "sender \<in> ts_account_holders p"
  shows "ts_inv p h'"
  using assms(1)
proof (cases rule: support_cases)
  case (recorded r)
  have r: "request_ok p r" using recorded(1) assms(2) map_of_SomeD by (fastforce simp: ts_inv_def)
  let ?r = "r\<lparr>tr_supporters := insert sender (tr_supporters r)\<rparr>"
  have ok: "request_ok p ?r" using r recorded(3) assms(2,3) by (auto simp: request_ok_def ts_inv_def)
  have d: "distinct (map fst (ts_requests (h_state h)))" using assms(2) by (simp add: ts_inv_def)
  have "request_ok p r'" if "(k, r') \<in> set (AList.update req_id ?r (ts_requests (h_state h)))" for k r'
    using update_entries [OF that d] ok assms(2) by (auto simp: ts_inv_def)
  then show ?thesis using recorded(4) assms(2) d by (auto simp: ts_inv_def distinct_update)
next
  case (paid r)
  then show ?thesis using assms(2)
    by (auto simp: ts_inv_def AList.delete_eq distinct_map_filter)
qed

lemma message_cases:
  assumes "contract_receive_message missing ctx amount h = Inr h'"
  obtains (request) sender req_id transfer_amount target where "ctx_sender ctx = Account sender"
      "sender \<in> ts_account_holders (ts_params (h_state h))"
      "request_transfer (ctx_slot_time ctx) sender req_id transfer_amount target amount h = Inr h'"
    | (support) sender req_id transfer_amount target where "ctx_sender ctx = Account sender"
      "sender \<in> ts_account_holders (ts_params (h_state h))"
      "support_transfer missing (ctx_slot_time ctx) sender req_id transfer_amount target h = Inr h'"
  using assms by (auto simp: contract_receive_message_def Let_def split: option.splits ts_message.splits)

lemma ts_reachable_inv: "ts_reachable p h \<Longrightarrow> ts_inv p h"
proof (induction rule: ts_reachable.induct)
  case (init amount h)
  then have "2 \<le> ts_threshold p" "2 \<le> card (ts_account_holders p)"
    "h = \<lparr>h_state = \<lparr>ts_params = p, ts_requests = []\<rparr>, h_balance = amount, h_logs = [], h_transfers = []\<rparr>"
    by (auto simp: ts_contract_init_def)
  then show ?case by (auto simp: ts_inv_def word_le_nat_alt intro: card_ge_0_finite)
next
  case (deposit h amount)
  then show ?case by (simp add: ts_inv_def contract_receive_deposit_def)
next
  case (message h missing ctx amount h')
  then have inv: "ts_inv p (receive_amount amount h)" by (simp add: ts_inv_def)
  then have p: "ts_params (h_state (receive_amount amount h)) = p" by (simp add: ts_inv_def)
  from message.hyps(2) show ?case
  proof (cases rule: message_cases)
    case (request sender req_id transfer_amount target)
    then show ?thesis using request_inv [OF request(3) inv] p by simp
  next
    case (support sender req_id transfer_amount target)
    then show ?thesis using support_inv [OF support(3) inv] p by simp
  qed
qed

section \<open>Properties\<close>

text \<open>
  C7. Money leaves the contract only with the agreement of at least the threshold, so of two or more,
  different account holders: a call in a reachable state that makes a transfer supports a stored
  request with exactly that receiver and amount, before it times out, and its supporters with the
  sender are account holders and reach the threshold. The request is gone afterwards.
\<close>

theorem two_step_agreement:
  assumes "ts_reachable p h" "contract_receive_message missing ctx amount (receive_amount amount h) = Inr h'"
    and "h_transfers h' \<noteq> h_transfers h"
  shows "\<exists>sender req_id r. ctx_sender ctx = Account sender \<and> map_of (ts_requests (h_state h)) req_id = Some r \<and>
    h_transfers h' = h_transfers h @ [(tr_target r, tr_amount r)] \<and> ctx_slot_time ctx < tr_times_out_at r \<and>
    insert sender (tr_supporters r) \<subseteq> ts_account_holders p \<and> sender \<notin> tr_supporters r \<and>
    2 \<le> unat (ts_threshold p) \<and> unat (ts_threshold p) \<le> card (insert sender (tr_supporters r)) \<and>
    map_of (ts_requests (h_state h')) req_id = None"
proof -
  have inv: "ts_inv p (receive_amount amount h)" using ts_reachable_inv [OF assms(1)] by (simp add: ts_inv_def)
  then have p: "ts_params (h_state h) = p" by (simp add: ts_inv_def)
  from assms(2) show ?thesis
  proof (cases rule: message_cases)
    case (request sender req_id transfer_amount target)
    then show ?thesis using request_inv [OF request(3) inv] p assms(3) by simp
  next
    case (support sender req_id transfer_amount target)
    from support(3) show ?thesis
    proof (cases rule: support_cases)
      case (recorded r)
      then show ?thesis using assms(3) by simp
    next
      case (paid r)
      have "request_ok p r" using paid(1) inv map_of_SomeD by (fastforce simp: ts_inv_def)
      then show ?thesis using paid support p inv
        by (intro exI [of _ sender] exI [of _ req_id] exI [of _ r]) (auto simp: request_ok_def ts_inv_def delete_conv')
    qed
  qed
qed

text \<open>A contract of two holders, both of whom have to agree.\<close>

definition sample_params :: ts_init_params where
  "sample_params = \<lparr>ts_account_holders = {[1], [2]}, ts_threshold = 2, ts_ttl = 10\<rparr>"

definition sample_message :: "account_address \<Rightarrow> ts_message \<Rightarrow> ts_message receive_context" where
  "sample_message a m = \<lparr>ctx_sender = Account a, ctx_parameter = Some m, ctx_slot_time = 3, ctx_owner = [1],
     ctx_self_address = \<lparr>ca_index = 0, ca_subindex = 0\<rparr>\<rparr>"

definition sample_ts0 :: ts_host where "sample_ts0 = projr (ts_contract_init 50 (Some sample_params))"

definition sample_ts1 :: ts_host where
  "sample_ts1 = projr (contract_receive_message (\<lambda>_. False) (sample_message [1] (RequestTransfer 7 40 [3])) 0 (receive_amount 0 sample_ts0))"

definition sample_ts2 :: ts_host where
  "sample_ts2 = projr (contract_receive_message (\<lambda>_. False) (sample_message [2] (SupportTransfer 7 40 [3])) 0 (receive_amount 0 sample_ts1))"

lemmas sample_ts_defs = sample_ts0_def sample_ts1_def sample_ts2_def sample_params_def sample_message_def
  ts_contract_init_def contract_receive_message_def request_transfer_def support_transfer_def receive_amount_def
  ensure_def checked_add_def invoke_transfer_def map_err_def

lemma sample_ts_simps:
  "ts_contract_init 50 (Some sample_params) = Inr sample_ts0" "ts_requests (h_state sample_ts0) = []"
  "ts_params (h_state sample_ts0) = sample_params" "h_balance sample_ts0 = 50"
  "contract_receive_message (\<lambda>_. False) (sample_message [1] (RequestTransfer 7 40 [3])) 0 (receive_amount 0 sample_ts0) = Inr sample_ts1"
  "contract_receive_message (\<lambda>_. False) (sample_message [2] (SupportTransfer 7 40 [3])) 0 (receive_amount 0 sample_ts1) = Inr sample_ts2"
  "h_transfers sample_ts1 = []" "h_transfers sample_ts2 = [([3], 40)]"
  by (simp_all add: sample_ts_defs Let_def)

lemma sample_ts_reachable: "ts_reachable sample_params sample_ts1"
  by (rule ts_reachable.message [OF ts_reachable.init [OF sample_ts_simps(1)] sample_ts_simps(5)])

theorem two_step_agreement_witness:
  "\<exists>sender req_id r. map_of (ts_requests (h_state sample_ts1)) req_id = Some r \<and> (tr_target r, tr_amount r) = ([3], 40) \<and>
    insert sender (tr_supporters r) \<subseteq> {[1], [2]} \<and> 2 \<le> card (insert sender (tr_supporters r))"
  using two_step_agreement [OF sample_ts_reachable sample_ts_simps(6)]
  by (auto simp: sample_ts_simps(7,8)) (auto simp: sample_params_def)

text \<open>
  A request can set aside more than the contract has. The balance an entrypoint sees includes the
  amount of the call, and the check adds that amount once more: in a contract without requests, one
  for any sum up to the balance before the call plus twice the amount is accepted, and when it exceeds
  the funds the last holder's agreement is refused for lack of them.
\<close>

lemma two_step_overcommits:
  assumes "ts_requests (h_state h) = []" "ts_params (h_state h) = p" "sender \<in> ts_account_holders p"
    and "ctx_sender ctx = Account sender" "ctx_parameter ctx = Some (RequestTransfer i t target)"
    and "checked_add (ctx_slot_time ctx) (ts_ttl p) = Some times_out"
    and "unat (h_balance h) + 2 * unat amount < 2 ^ 64" "unat t \<le> unat (h_balance h) + 2 * unat amount"
    and "unat (h_balance h) + unat amount < unat t"
  shows "\<exists>h1. contract_receive_message missing ctx amount (receive_amount amount h) = Inr h1 \<and>
    unat (h_balance h1) = unat (h_balance h) + unat amount \<and> h_balance h1 < t \<and>
    (\<forall>missing' ctx' other. ctx_sender ctx' = Account other \<and> other \<in> ts_account_holders p \<and> other \<noteq> sender \<and>
       ctx_parameter ctx' = Some (SupportTransfer i t target) \<and> ctx_slot_time ctx' < times_out \<and>
       ts_threshold p = 2 \<and> \<not> missing' target \<longrightarrow>
       contract_receive_message missing' ctx' 0 (receive_amount 0 h1) = Inl InvokeTransferInsufficientFunds)"
proof -
  have b: "unat (h_balance h + amount) = unat (h_balance h) + unat amount"
    using assms(7) by (simp add: unat_word_ariths)
  have "unat (amount + (h_balance h + amount)) = unat (h_balance h) + 2 * unat amount"
    using assms(7) b by (simp add: unat_word_ariths)
  then have "t \<le> amount + (h_balance h + amount)" using assms(8) by (simp add: word_le_nat_alt)
  moreover have lt: "h_balance h + amount < t" using assms(9) b by (simp add: word_less_nat_alt)
  moreover have "card {other, sender} = 2" if "other \<noteq> sender" for other using that by simp
  ultimately show ?thesis using assms(1-6) b
    by (auto simp: contract_receive_message_def ensure_def request_transfer_def support_transfer_def Let_def
        receive_amount_def invoke_transfer_def map_err_def)
qed

lemma two_step_overcommits_sample:
  "\<exists>h1. contract_receive_message (\<lambda>_. False) (sample_message [1] (RequestTransfer 7 150 [3])) 60 (receive_amount 60 sample_ts0) = Inr h1 \<and>
    h_balance h1 < 150 \<and>
    contract_receive_message (\<lambda>_. False) (sample_message [2] (SupportTransfer 7 150 [3])) 0 (receive_amount 0 h1) =
      Inl InvokeTransferInsufficientFunds"
proof -
  have "\<exists>h1. contract_receive_message (\<lambda>_. False) (sample_message [1] (RequestTransfer 7 150 [3])) 60 (receive_amount 60 sample_ts0) = Inr h1 \<and>
      unat (h_balance h1) = unat (h_balance sample_ts0) + unat (60 :: u64) \<and> h_balance h1 < 150 \<and>
      (\<forall>missing' ctx' other. ctx_sender ctx' = Account other \<and> other \<in> ts_account_holders sample_params \<and> other \<noteq> [1] \<and>
       ctx_parameter ctx' = Some (SupportTransfer 7 150 [3]) \<and> ctx_slot_time ctx' < 13 \<and>
       ts_threshold sample_params = 2 \<and> \<not> missing' [3] \<longrightarrow>
       contract_receive_message missing' ctx' 0 (receive_amount 0 h1) = Inl InvokeTransferInsufficientFunds)"
    by (rule two_step_overcommits [OF sample_ts_simps(2,3)])
      (simp_all add: sample_params_def sample_message_def checked_add_def sample_ts_simps)
  then obtain h1 where h1:
    "contract_receive_message (\<lambda>_. False) (sample_message [1] (RequestTransfer 7 150 [3])) 60 (receive_amount 60 sample_ts0) = Inr h1"
    "h_balance h1 < 150"
    "\<forall>missing' ctx' other. ctx_sender ctx' = Account other \<and> other \<in> ts_account_holders sample_params \<and> other \<noteq> [1] \<and>
       ctx_parameter ctx' = Some (SupportTransfer 7 150 [3]) \<and> ctx_slot_time ctx' < 13 \<and>
       ts_threshold sample_params = 2 \<and> \<not> missing' [3] \<longrightarrow>
       contract_receive_message missing' ctx' 0 (receive_amount 0 h1) = Inl InvokeTransferInsufficientFunds"
    by blast
  have "contract_receive_message (\<lambda>_. False) (sample_message [2] (SupportTransfer 7 150 [3])) 0 (receive_amount 0 h1) =
      Inl InvokeTransferInsufficientFunds"
    by (rule h1(3) [rule_format, of _ "[2]"]) (simp add: sample_params_def sample_message_def)
  then show ?thesis using h1 by blast
qed

end
