(* ===== verification/Voting.thy ===== *)
theory Voting
  imports Contract_Host
begin

text \<open>
  The contract of \<^verbatim>\<open>examples/voting/src/lib.rs\<close>: an election in which every account has one ballot that it
  can replace until the end. The tally per option is kept beside the ballots and changed with them; the
  theorems show that it stays the count of the ballots. Counts are 32-bit and wrap.
\<close>

section \<open>State\<close>

record voting_init_parameter =
  vp_description :: string
  vp_options :: "string list"
  vp_end_time :: u64

record voting_information =
  vv_description :: string
  vv_end_time :: u64
  vv_options :: "string list"
  vv_num_options :: u32

record voting_state =
  vs_description :: string
  vs_ballots :: "account_address \<rightharpoonup> u32"
  vs_tally :: "u32 \<rightharpoonup> u32"
  vs_end_time :: u64
  vs_options :: "string list"
  vs_num_options :: u32

datatype voting_error = VoteParsingFailed | VoteLogFull | VoteLogMalformed | VotingFinished | InvalidVoteIndex | ContractVoter

fun voting_error_from_log :: "log_error \<Rightarrow> voting_error" where
  "voting_error_from_log Full = VoteLogFull"
| "voting_error_from_log MalformedLog = VoteLogMalformed"

record vote_event =
  ve_voter :: account_address
  ve_vote_index :: u32

datatype voting_event = VoteEvent vote_event

type_synonym voting_host = "(voting_state, voting_event) contract_host"

section \<open>Entrypoints\<close>

definition voting_init :: "voting_init_parameter option \<Rightarrow> voting_host option" where
  "voting_init parameter = map_option (\<lambda>p.
     \<lparr>h_state = \<lparr>vs_description = vp_description p, vs_ballots = Map.empty, vs_tally = Map.empty,
        vs_end_time = vp_end_time p, vs_options = vp_options p, vs_num_options = of_nat (length (vp_options p))\<rparr>,
      h_balance = 0, h_logs = [], h_transfers = []\<rparr>) parameter"

text \<open>\<^verbatim>\<open>*map.entry(k).or_insert(d)\<close> with an assignment through the reference.\<close>

definition update_or_insert :: "('k \<rightharpoonup> 'v) \<Rightarrow> 'k \<Rightarrow> 'v \<Rightarrow> ('v \<Rightarrow> 'v) \<Rightarrow> ('k \<rightharpoonup> 'v)" where
  "update_or_insert m k d f = m(k \<mapsto> f (case m k of Some v \<Rightarrow> v | None \<Rightarrow> d))"

text \<open>\<^verbatim>\<open>map.entry(k).and_modify(f).or_insert(d)\<close>\<close>

definition modify_or_insert :: "('k \<rightharpoonup> 'v) \<Rightarrow> 'k \<Rightarrow> ('v \<Rightarrow> 'v) \<Rightarrow> 'v \<Rightarrow> ('k \<rightharpoonup> 'v)" where
  "modify_or_insert m k f d = (case m k of Some v \<Rightarrow> m(k \<mapsto> f v) | None \<Rightarrow> m(k \<mapsto> d))"

definition cast_ballot :: "account_address \<Rightarrow> u32 \<Rightarrow> voting_state \<Rightarrow> voting_state" where
  "cast_ballot acc new_vote_index st =
     (let st = (case vs_ballots st acc of
            Some old_vote_index \<Rightarrow> st\<lparr>vs_tally := update_or_insert (vs_tally st) old_vote_index 1 (\<lambda>n. n - 1)\<rparr>
          | None \<Rightarrow> st);
          st = st\<lparr>vs_ballots := modify_or_insert (vs_ballots st) acc (\<lambda>_. new_vote_index) new_vote_index\<rparr>
      in st\<lparr>vs_tally := update_or_insert (vs_tally st) new_vote_index 0 (\<lambda>n. n + 1)\<rparr>)"

definition vote :: "voting_event logger \<Rightarrow> u32 receive_context \<Rightarrow> voting_host \<Rightarrow> voting_error + voting_host" where
  "vote logger ctx h =
     ensure (ctx_slot_time ctx \<le> vs_end_time (h_state h)) VotingFinished
     (case ctx_sender ctx of
        Contract _ \<Rightarrow> Inl ContractVoter
      | Account acc \<Rightarrow>
          (case ctx_parameter ctx of
             None \<Rightarrow> Inl VoteParsingFailed
           | Some new_vote_index \<Rightarrow>
               ensure (new_vote_index < vs_num_options (h_state h)) InvalidVoteIndex
               (let h = h\<lparr>h_state := cast_ballot acc new_vote_index (h_state h)\<rparr> in
                map_err voting_error_from_log
                  (log_event logger (VoteEvent \<lparr>ve_voter = acc, ve_vote_index = new_vote_index\<rparr>) h))))"

definition get_votes :: "u32 receive_context \<Rightarrow> voting_host \<Rightarrow> u32 option" where
  "get_votes ctx h = map_option (\<lambda>param.
     case vs_tally (h_state h) param of Some votes \<Rightarrow> votes | None \<Rightarrow> 0) (ctx_parameter ctx)"

definition voting_view :: "voting_host \<Rightarrow> voting_information" where
  "voting_view h = \<lparr>vv_description = vs_description (h_state h), vv_end_time = vs_end_time (h_state h),
     vv_options = vs_options (h_state h), vv_num_options = vs_num_options (h_state h)\<rparr>"

section \<open>The election as a state machine\<close>

text \<open>
  An accepted call is a step; a rejected one leaves the state as it was. A history is the list of the
  accepted votes, newest first.
\<close>

inductive election :: "voting_init_parameter \<Rightarrow> voting_host \<Rightarrow> (account_address \<times> u32) list \<Rightarrow> bool"
    for p :: voting_init_parameter where
  start: "voting_init (Some p) = Some h \<Longrightarrow> election p h []"
| step: "election p h log \<Longrightarrow> vote logger ctx (receive_amount 0 h) = Inr h' \<Longrightarrow>
    ctx_sender ctx = Account acc \<Longrightarrow> ctx_parameter ctx = Some i \<Longrightarrow> election p h' ((acc, i) # log)"

text \<open>The reference: the ballot of an account is its latest vote.\<close>

definition voters :: "(account_address \<times> u32) list \<Rightarrow> u32 \<Rightarrow> account_address set" where
  "voters log i = {acc. map_of log acc = Some i}"

lemma vote_Inr:
  assumes "vote logger ctx h = Inr h'" "ctx_sender ctx = Account acc" "ctx_parameter ctx = Some i"
  shows "ctx_slot_time ctx \<le> vs_end_time (h_state h)" "i < vs_num_options (h_state h)"
    "h_state h' = cast_ballot acc i (h_state h)"
  using assms by (auto simp: vote_def Let_def dest: log_event_Inr)

lemma cast_ballot_simps [simp]:
  "vs_ballots (cast_ballot acc i st) = (vs_ballots st)(acc \<mapsto> i)"
  "vs_num_options (cast_ballot acc i st) = vs_num_options st"
  "vs_options (cast_ballot acc i st) = vs_options st"
  "vs_end_time (cast_ballot acc i st) = vs_end_time st"
  by (simp_all add: cast_ballot_def Let_def modify_or_insert_def split: option.splits)

definition tally_count :: "voting_state \<Rightarrow> u32 \<Rightarrow> u32" where
  "tally_count st i = (case vs_tally st i of Some n \<Rightarrow> n | None \<Rightarrow> 0)"

lemma tally_count_cast:
  assumes "\<And>j. vs_ballots st acc = Some j \<Longrightarrow> vs_tally st j \<noteq> None"
  shows "tally_count (cast_ballot acc i st) j =
    tally_count st j - (if vs_ballots st acc = Some j then 1 else 0) + (if j = i then 1 else 0)"
  using assms
  by (cases "vs_ballots st acc") (auto simp: tally_count_def cast_ballot_def Let_def update_or_insert_def)

lemma tally_cast_dom: "vs_tally (cast_ballot acc i st) j \<noteq> None \<longleftrightarrow> vs_tally st j \<noteq> None \<or> j = i \<or> vs_ballots st acc = Some j"
  by (auto simp: cast_ballot_def Let_def update_or_insert_def split: option.splits)

lemma finite_voters [simp]: "finite (voters log i)"
proof -
  have "voters log i \<subseteq> fst ` set log" by (force simp: voters_def dest: map_of_SomeD)
  then show ?thesis by (rule finite_subset) simp
qed

lemma voters_Cons: "voters ((acc, i) # log) j = (if j = i then insert acc (voters log j) else voters log j - {acc})"
  by (auto simp: voters_def)

text \<open>A ballot that is replaced leaves the count of its old option and enters that of its new one.\<close>

lemma card_voters_Cons:
  "of_nat (card (voters ((acc, i) # log) j)) =
     (of_nat (card (voters log j)) :: u32) - (if map_of log acc = Some j then 1 else 0) + (if j = i then 1 else 0)"
proof (cases "map_of log acc = Some j")
  case True
  then have "acc \<in> voters log j" by (simp add: voters_def)
  then obtain n where "card (voters log j) = Suc n" "card (voters log j - {acc}) = n"
    by (metis card_Suc_Diff1 finite_voters)
  then show ?thesis using True \<open>acc \<in> voters log j\<close> by (auto simp: voters_Cons insert_absorb)
next
  case False
  then have "acc \<notin> voters log j" by (simp add: voters_def)
  then show ?thesis using False by (auto simp: voters_Cons)
qed

definition election_inv :: "voting_init_parameter \<Rightarrow> voting_state \<Rightarrow> (account_address \<times> u32) list \<Rightarrow> bool" where
  "election_inv p st log \<longleftrightarrow>
     vs_ballots st = map_of log \<and> (\<forall>acc j. map_of log acc = Some j \<longrightarrow> vs_tally st j \<noteq> None) \<and>
     (\<forall>j. tally_count st j = of_nat (card (voters log j))) \<and>
     vs_num_options st = of_nat (length (vp_options p)) \<and> vs_end_time st = vp_end_time p \<and>
     (\<forall>(acc, i) \<in> set log. i < vs_num_options st)"

lemma election_inv_cast:
  assumes "election_inv p st log" "i < vs_num_options st"
  shows "election_inv p (cast_ballot acc i st) ((acc, i) # log)"
proof -
  have b: "vs_ballots st = map_of log" and t: "\<And>acc j. map_of log acc = Some j \<Longrightarrow> vs_tally st j \<noteq> None"
    and c: "\<And>j. tally_count st j = of_nat (card (voters log j))" using assms(1) by (auto simp: election_inv_def)
  have "tally_count (cast_ballot acc i st) j = of_nat (card (voters ((acc, i) # log) j))" for j
    unfolding card_voters_Cons c [symmetric] b [symmetric] using t b by (intro tally_count_cast) simp
  moreover have "vs_tally (cast_ballot acc i st) j \<noteq> None" if "map_of ((acc, i) # log) a = Some j" for a j
    unfolding tally_cast_dom using that t by (auto split: if_splits)
  ultimately show ?thesis using assms by (auto simp: election_inv_def)
qed

lemma election_invariant: "election p h log \<Longrightarrow> election_inv p (h_state h) log"
proof (induction rule: election.induct)
  case (start h)
  then show ?case by (auto simp: voting_init_def election_inv_def tally_count_def voters_def)
next
  case (step h log logger ctx h' acc i)
  note v = vote_Inr [OF step.hyps(2-4)]
  show ?case unfolding v(3) using step.IH v(2) by (intro election_inv_cast) (simp_all add: receive_amount_def)
qed

text \<open>
  A vote is accepted exactly when it comes from an account, not after the end, for an option of the
  election, and the log takes its event.
\<close>

lemma vote_accepted_iff:
  "(\<exists>h'. vote logger ctx h = Inr h') \<longleftrightarrow>
     (\<exists>acc i. ctx_sender ctx = Account acc \<and> ctx_parameter ctx = Some i \<and>
        ctx_slot_time ctx \<le> vs_end_time (h_state h) \<and> i < vs_num_options (h_state h) \<and>
        logger (h_logs h) (VoteEvent \<lparr>ve_voter = acc, ve_vote_index = i\<rparr>) = None)"
  by (auto simp: vote_def ensure_def log_event_def map_err_def Let_def split: address.splits option.splits sum.splits)

section \<open>Properties\<close>

text \<open>
  C37. In every election, after any sequence of votes and changes of votes, \<^verbatim>\<open>getNumberOfVotes\<close> answers for
  every option the number of accounts whose latest accepted vote is that option, and the answers for the
  options of the election add up to the number of accounts that voted.
\<close>

theorem voting_tally_correct:
  assumes "election p h log" "length log < 2 ^ 32" "\<And>i. ctx_parameter (ctx i) = Some i"
  shows "(\<forall>i. map_option unat (get_votes (ctx i) h) = Some (card {acc. map_of log acc = Some i})) \<and>
    (\<Sum>i | i < vs_num_options (h_state h). unat (the (get_votes (ctx i) h))) = card (fst ` set log)"
proof -
  have I: "election_inv p (h_state h) log" using assms(1) by (rule election_invariant)
  have "unat (of_nat (card (voters log i)) :: u32) = card (voters log i)" for i
  proof -
    have "voters log i \<subseteq> fst ` set log" by (force simp: voters_def dest: map_of_SomeD)
    then have "card (voters log i) \<le> length log" by (meson card_length card_mono finite_imageI finite_set le_trans card_image_le)
    then show ?thesis using assms(2) by (intro unat_of_nat_32) simp
  qed
  then have votes: "map_option unat (get_votes (ctx i) h) = Some (card (voters log i))" for i
    using I assms(3) by (simp add: get_votes_def election_inv_def tally_count_def)
  have cover: "(\<Union>i \<in> {i. i < vs_num_options (h_state h)}. voters log i) = fst ` set log"
  proof
    show "(\<Union>i \<in> {i. i < vs_num_options (h_state h)}. voters log i) \<subseteq> fst ` set log"
      by (force simp: voters_def dest: map_of_SomeD)
    show "fst ` set log \<subseteq> (\<Union>i \<in> {i. i < vs_num_options (h_state h)}. voters log i)"
    proof
      fix acc assume "acc \<in> fst ` set log"
      then obtain i where i: "map_of log acc = Some i" by (metis map_of_eq_None_iff not_Some_eq)
      then have "i < vs_num_options (h_state h)" using I map_of_SomeD [OF i] by (auto simp: election_inv_def)
      then show "acc \<in> (\<Union>i \<in> {i. i < vs_num_options (h_state h)}. voters log i)" using i by (auto simp: voters_def)
    qed
  qed
  have "(\<Sum>i | i < vs_num_options (h_state h). unat (the (get_votes (ctx i) h))) =
      (\<Sum>i | i < vs_num_options (h_state h). card (voters log i))"
  proof (rule sum.cong)
    show "unat (the (get_votes (ctx i) h)) = card (voters log i)" for i
      using votes [of i] by (cases "get_votes (ctx i) h") simp_all
  qed simp
  also have "\<dots> = card (fst ` set log)"
    unfolding cover [symmetric] by (rule card_UN_disjoint [symmetric]) (simp_all, auto simp: voters_def)
  finally show ?thesis using votes by (simp add: voters_def)
qed

text \<open>An election between two options in which an account changes its vote.\<close>

definition sample_ballot :: "account_address \<Rightarrow> u32 \<Rightarrow> u32 receive_context" where
  "sample_ballot acc i = \<lparr>ctx_sender = Account acc, ctx_parameter = Some i, ctx_slot_time = 5, ctx_owner = [],
     ctx_self_address = \<lparr>ca_index = 0, ca_subindex = 0\<rparr>\<rparr>"

definition sample_election :: voting_init_parameter where
  "sample_election = \<lparr>vp_description = ''colour'', vp_options = [''red'', ''blue''], vp_end_time = 10\<rparr>"

lemma sample_vote:
  assumes "election sample_election h log" "i = 0 \<or> i = 1" "ctx_slot_time (sample_ballot acc i) \<le> 10"
  obtains h' where "election sample_election h' ((acc, i) # log)"
proof -
  have "election_inv sample_election (h_state h) log" using assms(1) by (rule election_invariant)
  then have "vs_end_time (h_state h) = 10" "vs_num_options (h_state h) = 2" by (simp_all add: election_inv_def sample_election_def)
  then obtain h' where "vote (\<lambda>_ _. None) (sample_ballot acc i) (receive_amount 0 h) = Inr h'"
    using assms(2,3) vote_accepted_iff [of "\<lambda>_ _. None" "sample_ballot acc i" "receive_amount 0 h"]
    by (auto simp: receive_amount_def sample_ballot_def word_less_nat_alt)
  from election.step [OF assms(1) this] have "election sample_election h' ((acc, i) # log)" by (simp add: sample_ballot_def)
  then show thesis by (rule that)
qed

theorem voting_tally_correct_witness: "\<exists>h. election sample_election h [([1], 1), ([2], 1), ([1], 0)] \<and>
  map_option unat (get_votes (sample_ballot [] 1) h) = Some (card {acc. map_of [([1 :: u8], 1 :: u32), ([2], 1), ([1], 0)] acc = Some 1})"
proof -
  obtain h0 where "election sample_election h0 []" using election.start [of sample_election] by (auto simp: voting_init_def)
  then obtain h1 where "election sample_election h1 [([1], 0)]" by (rule sample_vote [where i = 0]) (simp_all add: sample_ballot_def)
  then obtain h2 where "election sample_election h2 [([2], 1), ([1], 0)]"
    by (rule sample_vote [where i = 1]) (simp_all add: sample_ballot_def)
  then obtain h where h: "election sample_election h [([1], 1), ([2], 1), ([1], 0)]"
    by (rule sample_vote [where i = 1]) (simp_all add: sample_ballot_def)
  have "\<forall>i. map_option unat (get_votes (sample_ballot [] i) h) = Some (card {acc. map_of [([1 :: u8], 1), ([2], 1), ([1], 0)] acc = Some i})"
    by (rule voting_tally_correct [OF h, THEN conjunct1]) (simp_all add: sample_ballot_def)
  with h show ?thesis by blast
qed

end
