(* ===== verification/Testing_Changes.thy ===== *)
theory Testing_Changes
  imports Contract_Host "HOL-Library.AList" "HOL-Library.Monad_Syntax"
begin

text \<open>
  The changes a transaction makes before they are saved, as in
  \<^verbatim>\<open>contract-testing/src/invocation\<close>: balances as differences to the saved ones, states and modules of
  contracts, and the stack of checkpoints that calls between contracts set. Values that only the
  engine of the chain looks into (states, artifacts, suspended executions, debug traces, keys) are of
  one type, a parameter. \<open>None\<close> is a panic: a failed \<^verbatim>\<open>expect\<close> or an overflow of \<^verbatim>\<open>+\<close> and \<^verbatim>\<open>-\<close>, which test
  builds check.
\<close>

section \<open>Differences of amounts\<close>

type_synonym amount = u64

definition checked_sub :: "amount \<Rightarrow> amount \<Rightarrow> amount option" where
  "checked_sub x y = (if y \<le> x then Some (x - y) else None)"

datatype amount_delta = Positive amount | Negative amount

datatype balance_error = Insufficient | Overflow

definition delta_new :: amount_delta where "delta_new = Positive 0"

fun subtract_amount :: "amount_delta \<Rightarrow> amount \<Rightarrow> amount_delta option" where
  "subtract_amount (Positive current) amount =
     (if current \<ge> amount then Some (Positive (current - amount)) else Some (Negative (amount - current)))"
| "subtract_amount (Negative current) amount = map_option Negative (checked_add current amount)"

fun add_amount :: "amount_delta \<Rightarrow> amount \<Rightarrow> amount_delta option" where
  "add_amount (Positive current) amount = map_option Positive (checked_add current amount)"
| "add_amount (Negative current) amount =
     (if current \<ge> amount then Some (Negative (current - amount)) else Some (Positive (amount - current)))"

fun add_delta :: "amount_delta \<Rightarrow> amount_delta \<Rightarrow> amount_delta option" where
  "add_delta self (Positive d) = add_amount self d"
| "add_delta self (Negative d) = subtract_amount self d"

fun delta_is_zero :: "amount_delta \<Rightarrow> bool" where
  "delta_is_zero (Positive d) \<longleftrightarrow> d = 0"
| "delta_is_zero (Negative d) \<longleftrightarrow> d = 0"

fun apply_to_balance :: "amount_delta \<Rightarrow> amount \<Rightarrow> balance_error + amount" where
  "apply_to_balance (Positive d) balance = (case checked_add balance d of Some b \<Rightarrow> Inr b | None \<Rightarrow> Inl Overflow)"
| "apply_to_balance (Negative d) balance = (case checked_sub balance d of Some b \<Rightarrow> Inr b | None \<Rightarrow> Inl Insufficient)"

section \<open>The saved chain\<close>

record account_balance =
  ab_total :: amount
  ab_staked :: amount
  ab_locked :: amount

record 'v account =
  ac_address :: account_address
  ac_balance :: account_balance
  ac_policy :: bytes
  ac_keys :: 'v

record 'v contract_module =
  cm_size :: u64
  cm_artifact :: 'v

record 'v contract =
  co_address :: contract_address
  co_module_reference :: bytes
  co_contract_name :: string
  co_state :: 'v
  co_owner :: account_address
  co_self_balance :: amount

record chain_parameters =
  cp_block_time :: u64
  cp_micro_ccd_per_euro :: "u64 \<times> u64"
  cp_euro_per_energy :: "u64 \<times> u64"

record 'v chain =
  tc_parameters :: chain_parameters
  tc_accounts :: "bytes \<rightharpoonup> 'v account"
  tc_modules :: "bytes \<rightharpoonup> 'v contract_module"
  tc_contracts :: "contract_address \<rightharpoonup> 'v contract"
  tc_next_contract_index :: u64

text \<open>Account addresses with the same first 29 bytes are aliases of one account.\<close>

definition account_eq :: "account_address \<Rightarrow> bytes" where "account_eq a = take 29 a"

section \<open>Changes\<close>

record account_changes =
  ac_original_balance :: amount
  ac_balance_delta :: amount_delta

record 'v contract_changes =
  cc_modification_index :: u32
  cc_self_balance_delta :: amount_delta
  cc_self_balance_original :: amount
  cc_state :: "'v option"
  cc_module :: "bytes option"

record 'v changes =
  ch_contracts :: "(contract_address \<times> 'v contract_changes) list"
  ch_accounts :: "(bytes \<times> account_changes) list"

definition contract_changes_new :: "amount \<Rightarrow> 'v contract_changes" where
  "contract_changes_new original_balance = \<lparr>cc_modification_index = 0, cc_self_balance_delta = delta_new,
     cc_self_balance_original = original_balance, cc_state = None, cc_module = None\<rparr>"

definition result_ok :: "'e + 'a \<Rightarrow> 'a option" where
  "result_ok r = (case r of Inl _ \<Rightarrow> None | Inr x \<Rightarrow> Some x)"

definition contract_current_balance :: "'v contract_changes \<Rightarrow> amount option" where
  "contract_current_balance ch = result_ok (apply_to_balance (cc_self_balance_delta ch) (cc_self_balance_original ch))"

definition account_current_balance :: "account_changes \<Rightarrow> amount option" where
  "account_current_balance ch = result_ok (apply_to_balance (ac_balance_delta ch) (ac_original_balance ch))"

text \<open>The stack of \<^verbatim>\<open>ChangeSet\<close>, its last element first.\<close>

type_synonym 'v change_set = "'v changes list"

definition change_set_new :: "'v change_set" where
  "change_set_new = [\<lparr>ch_contracts = [], ch_accounts = []\<rparr>]"

definition changes_current :: "'v change_set \<Rightarrow> 'v changes option" where
  "changes_current stack = (case stack of [] \<Rightarrow> None | ch # _ \<Rightarrow> Some ch)"

definition changes_put :: "'v changes \<Rightarrow> 'v change_set \<Rightarrow> 'v change_set" where
  "changes_put ch stack = (case stack of [] \<Rightarrow> [] | _ # rest \<Rightarrow> ch # rest)"

definition change_set_checkpoint :: "'v change_set \<Rightarrow> 'v change_set option" where
  "change_set_checkpoint stack = map_option (\<lambda>ch. ch # stack) (changes_current stack)"

definition change_set_rollback :: "'v change_set \<Rightarrow> 'v change_set option" where
  "change_set_rollback stack = (case stack of [] \<Rightarrow> None | _ # rest \<Rightarrow> Some rest)"

section \<open>The handler of an invocation\<close>

text \<open>
  The chain is never changed during an invocation. The available part of a balance is computed by a
  function of the chain's base library, an argument here.
\<close>

record 'v handler =
  ih_reserved_amount :: amount
  ih_invoker :: account_address
  ih_changeset :: "'v change_set"
  ih_remaining_energy :: u64
  ih_module_load_energy :: u64
  ih_energy_reserved :: u64
  ih_chain :: "'v chain"
  ih_next_contract_modification_index :: u32

definition put_contract :: "contract_address \<Rightarrow> 'v contract_changes \<Rightarrow> 'v changes \<Rightarrow> 'v handler \<Rightarrow> 'v handler" where
  "put_contract a ch cur h = h\<lparr>ih_changeset := changes_put (cur\<lparr>ch_contracts := AList.update a ch (ch_contracts cur)\<rparr>) (ih_changeset h)\<rparr>"

definition put_account :: "bytes \<Rightarrow> account_changes \<Rightarrow> 'v changes \<Rightarrow> 'v handler \<Rightarrow> 'v handler" where
  "put_account a ch cur h = h\<lparr>ih_changeset := changes_put (cur\<lparr>ch_accounts := AList.update a ch (ch_accounts cur)\<rparr>) (ih_changeset h)\<rparr>"

definition change_contract_balance ::
    "'v handler \<Rightarrow> contract_address \<Rightarrow> amount_delta \<Rightarrow> ((balance_error + amount) \<times> 'v handler) option" where
  "change_contract_balance h address delta = do {
     cur \<leftarrow> changes_current (ih_changeset h);
     case map_of (ch_contracts cur) address of
       None \<Rightarrow> do {
         original_balance \<leftarrow> map_option co_self_balance (tc_contracts (ih_chain h) address);
         case apply_to_balance delta original_balance of
           Inl err \<Rightarrow> Some (Inl err, h)
         | Inr new_balance \<Rightarrow>
             Some (Inr new_balance, put_contract address ((contract_changes_new original_balance)\<lparr>cc_self_balance_delta := delta\<rparr>) cur h)
       }
     | Some ch \<Rightarrow> do {
         new_delta \<leftarrow> add_delta (cc_self_balance_delta ch) delta;
         case apply_to_balance new_delta (cc_self_balance_original ch) of
           Inl err \<Rightarrow> Some (Inl err, h)
         | Inr new_balance \<Rightarrow> Some (Inr new_balance, put_contract address (ch\<lparr>cc_self_balance_delta := new_delta\<rparr>) cur h)
       }
   }"

definition change_account_balance ::
    "(account_balance \<Rightarrow> amount) \<Rightarrow> 'v handler \<Rightarrow> account_address \<Rightarrow> amount_delta \<Rightarrow>
     ((balance_error + amount) \<times> 'v handler) option" where
  "change_account_balance available h address delta = do {
     cur \<leftarrow> changes_current (ih_changeset h);
     case map_of (ch_accounts cur) (account_eq address) of
       None \<Rightarrow> do {
         original_balance \<leftarrow> map_option (\<lambda>a. available (ac_balance a)) (tc_accounts (ih_chain h) (account_eq address));
         original_balance \<leftarrow>
           (if ih_invoker h = address then checked_sub original_balance (ih_reserved_amount h) else Some original_balance);
         case apply_to_balance delta original_balance of
           Inl err \<Rightarrow> Some (Inl err, h)
         | Inr new_balance \<Rightarrow>
             Some (Inr new_balance, put_account (account_eq address) \<lparr>ac_original_balance = original_balance, ac_balance_delta = delta\<rparr> cur h)
       }
     | Some ch \<Rightarrow> do {
         new_delta \<leftarrow> add_delta (ac_balance_delta ch) delta;
         case apply_to_balance new_delta (ac_original_balance ch) of
           Inl err \<Rightarrow> Some (Inl err, h)
         | Inr new_balance \<Rightarrow> Some (Inr new_balance, put_account (account_eq address) (ch\<lparr>ac_balance_delta := new_delta\<rparr>) cur h)
       }
   }"

datatype invoke_transfer_error = ToMissing | TransferBalanceError balance_error

definition transfer_from_contract_to_account ::
    "(account_balance \<Rightarrow> amount) \<Rightarrow> 'v handler \<Rightarrow> amount \<Rightarrow> contract_address \<Rightarrow> account_address \<Rightarrow>
     ((invoke_transfer_error + amount) \<times> 'v handler) option" where
  "transfer_from_contract_to_account available h amount src dst =
     (if tc_accounts (ih_chain h) (account_eq dst) = None then Some (Inl ToMissing, h)
      else do {
        (res, h) \<leftarrow> change_contract_balance h src (Negative amount);
        case res of
          Inl err \<Rightarrow> Some (Inl (TransferBalanceError err), h)
        | Inr new_balance \<Rightarrow> do {
            (res, h) \<leftarrow> change_account_balance available h dst (Positive amount);
            _ \<leftarrow> result_ok res;
            Some (Inr new_balance, h)
          }
      })"

definition transfer_from_contract_to_contract ::
    "'v handler \<Rightarrow> amount \<Rightarrow> contract_address \<Rightarrow> contract_address \<Rightarrow> ((invoke_transfer_error + amount) \<times> 'v handler) option" where
  "transfer_from_contract_to_contract h amount src dst =
     (if tc_contracts (ih_chain h) dst = None then Some (Inl ToMissing, h)
      else do {
        (res, h) \<leftarrow> change_contract_balance h src (Negative amount);
        case res of
          Inl err \<Rightarrow> Some (Inl (TransferBalanceError err), h)
        | Inr _ \<Rightarrow> do {
            (res, h) \<leftarrow> change_contract_balance h dst (Positive amount);
            Some (map_err TransferBalanceError res, h)
          }
      })"

definition transfer_from_account_to_contract ::
    "(account_balance \<Rightarrow> amount) \<Rightarrow> 'v handler \<Rightarrow> amount \<Rightarrow> account_address \<Rightarrow> contract_address \<Rightarrow>
     ((invoke_transfer_error + amount) \<times> 'v handler) option" where
  "transfer_from_account_to_contract available h amount src dst =
     (if tc_contracts (ih_chain h) dst = None then Some (Inl ToMissing, h)
      else do {
        (res, h) \<leftarrow> change_account_balance available h src (Negative amount);
        case res of
          Inl err \<Rightarrow> Some (Inl (TransferBalanceError err), h)
        | Inr _ \<Rightarrow> do {
            (res, h) \<leftarrow> change_contract_balance h dst (Positive amount);
            Some (map_err TransferBalanceError res, h)
          }
      })"

section \<open>Looking up and saving\<close>

text \<open>Queries: the outer \<open>None\<close> is a panic, the inner one an address that does not exist.\<close>

definition handler_contract_balance :: "'v handler \<Rightarrow> contract_address \<Rightarrow> amount option option" where
  "handler_contract_balance h address = do {
     cur \<leftarrow> changes_current (ih_changeset h);
     case map_of (ch_contracts cur) address of
       Some ch \<Rightarrow> map_option Some (contract_current_balance ch)
     | None \<Rightarrow> Some (map_option co_self_balance (tc_contracts (ih_chain h) address))
   }"

definition contract_balance_unchecked :: "'v handler \<Rightarrow> contract_address \<Rightarrow> amount option" where
  "contract_balance_unchecked h address = do { b \<leftarrow> handler_contract_balance h address; b }"

definition contract_module_reference :: "'v handler \<Rightarrow> contract_address \<Rightarrow> bytes option option" where
  "contract_module_reference h address = do {
     cur \<leftarrow> changes_current (ih_changeset h);
     Some (case map_of (ch_contracts cur) address of
       None \<Rightarrow> map_option co_module_reference (tc_contracts (ih_chain h) address)
     | Some ch \<Rightarrow> cc_module ch)
   }"

definition handler_contract_name :: "'v handler \<Rightarrow> contract_address \<Rightarrow> string option" where
  "handler_contract_name h address = map_option co_contract_name (tc_contracts (ih_chain h) address)"

definition handler_contract_module :: "'v handler \<Rightarrow> 'v contract \<Rightarrow> 'v contract_module option" where
  "handler_contract_module h contract = do {
     cur \<leftarrow> changes_current (ih_changeset h);
     case Option.bind (map_of (ch_contracts cur) (co_address contract)) cc_module of
       Some new_module \<Rightarrow> tc_modules (ih_chain h) new_module
     | None \<Rightarrow> tc_modules (ih_chain h) (co_module_reference contract)
   }"

definition handler_contract_state :: "('v \<Rightarrow> 'v) \<Rightarrow> 'v handler \<Rightarrow> contract_address \<Rightarrow> 'v option" where
  "handler_contract_state thaw h address = do {
     cur \<leftarrow> changes_current (ih_changeset h);
     case Option.bind (map_of (ch_contracts cur) address) cc_state of
       Some modified_state \<Rightarrow> Some modified_state
     | None \<Rightarrow> map_option (\<lambda>c. thaw (co_state c)) (tc_contracts (ih_chain h) address)
   }"

definition handler_account_balance :: "'v handler \<Rightarrow> account_address \<Rightarrow> account_balance option option" where
  "handler_account_balance h address =
     (case map_option ac_balance (tc_accounts (ih_chain h) (account_eq address)) of
        None \<Rightarrow> Some None
      | Some account_balance \<Rightarrow> do {
          cur \<leftarrow> changes_current (ih_changeset h);
          case map_of (ch_accounts cur) (account_eq address) of
            Some ch \<Rightarrow> do {
              total \<leftarrow> account_current_balance ch;
              Some (Some \<lparr>ab_total = total, ab_staked = ab_staked account_balance, ab_locked = ab_locked account_balance\<rparr>)
            }
          | None \<Rightarrow>
              if ih_invoker h = address then do {
                total \<leftarrow> checked_sub (ab_total account_balance) (ih_reserved_amount h);
                Some (Some (account_balance\<lparr>ab_total := total\<rparr>))
              } else Some (Some account_balance)
        })"

definition handler_account_keys :: "'v handler \<Rightarrow> account_address \<Rightarrow> 'v option" where
  "handler_account_keys h address = map_option ac_keys (tc_accounts (ih_chain h) (account_eq address))"

definition save_state_changes :: "'v handler \<Rightarrow> contract_address \<Rightarrow> 'v \<Rightarrow> (u32 \<times> 'v handler) option" where
  "save_state_changes h address state = do {
     let modification_index = ih_next_contract_modification_index h;
     cur \<leftarrow> changes_current (ih_changeset h);
     ch \<leftarrow> (case map_of (ch_contracts cur) address of
       None \<Rightarrow> do {
         original_balance \<leftarrow> map_option co_self_balance (tc_contracts (ih_chain h) address);
         Some ((contract_changes_new original_balance)\<lparr>cc_state := Some state, cc_modification_index := modification_index\<rparr>)
       }
     | Some ch \<Rightarrow> Some (ch\<lparr>cc_state := Some state, cc_modification_index := modification_index\<rparr>));
     next_index \<leftarrow> checked_add modification_index 1;
     Some (modification_index, (put_contract address ch cur h)\<lparr>ih_next_contract_modification_index := next_index\<rparr>)
   }"

definition save_module_upgrade :: "'v handler \<Rightarrow> contract_address \<Rightarrow> bytes \<Rightarrow> (bytes \<times> 'v handler) option" where
  "save_module_upgrade h address module_reference = do {
     cur \<leftarrow> changes_current (ih_changeset h);
     case map_of (ch_contracts cur) address of
       None \<Rightarrow> do {
         contract \<leftarrow> tc_contracts (ih_chain h) address;
         Some (co_module_reference contract,
           put_contract address ((contract_changes_new (co_self_balance contract))\<lparr>cc_module := Some module_reference\<rparr>) cur h)
       }
     | Some ch \<Rightarrow> do {
         old_module_ref \<leftarrow> (case cc_module ch of
           Some old_module \<Rightarrow> Some old_module
         | None \<Rightarrow> map_option co_module_reference (tc_contracts (ih_chain h) address));
         Some (old_module_ref, put_contract address (ch\<lparr>cc_module := Some module_reference\<rparr>) cur h)
       }
   }"

definition handler_modification_index :: "'v handler \<Rightarrow> contract_address \<Rightarrow> u32 option" where
  "handler_modification_index h address = do {
     cur \<leftarrow> changes_current (ih_changeset h);
     Some (case map_of (ch_contracts cur) address of None \<Rightarrow> 0 | Some ch \<Rightarrow> cc_modification_index ch)
   }"

definition handler_checkpoint :: "'v handler \<Rightarrow> 'v handler option" where
  "handler_checkpoint h = map_option (\<lambda>cs. h\<lparr>ih_changeset := cs\<rparr>) (change_set_checkpoint (ih_changeset h))"

definition handler_rollback :: "'v handler \<Rightarrow> 'v handler option" where
  "handler_rollback h = map_option (\<lambda>cs. h\<lparr>ih_changeset := cs\<rparr>) (change_set_rollback (ih_changeset h))"

section \<open>Saving the changes\<close>

text \<open>
  The states are frozen first, which gives the number of new bytes: one unit of energy each. When the
  energy does not suffice nothing is saved.
\<close>

definition collect_state_energy :: "('v \<Rightarrow> 'v \<times> u64) \<Rightarrow> 'v changes \<Rightarrow> u64" where
  "collect_state_energy freeze cur =
     (\<Sum>(_, ch) \<leftarrow> ch_contracts cur. case cc_state ch of Some state \<Rightarrow> snd (freeze state) | None \<Rightarrow> 0)"

definition persist_contract :: "('v \<Rightarrow> 'v \<times> u64) \<Rightarrow> 'v contract_changes \<Rightarrow> 'v contract \<Rightarrow> 'v contract option" where
  "persist_contract freeze ch contract = do {
     contract \<leftarrow> (if delta_is_zero (cc_self_balance_delta ch) then Some contract
       else map_option (\<lambda>b. contract\<lparr>co_self_balance := b\<rparr>) (contract_current_balance ch));
     let contract = (case cc_module ch of Some m \<Rightarrow> contract\<lparr>co_module_reference := m\<rparr> | None \<Rightarrow> contract);
     Some (case cc_state ch of Some state \<Rightarrow> contract\<lparr>co_state := fst (freeze state)\<rparr> | None \<Rightarrow> contract)
   }"

fun persist_contracts ::
    "('v \<Rightarrow> 'v \<times> u64) \<Rightarrow> (contract_address \<times> 'v contract_changes) list \<Rightarrow> (contract_address \<rightharpoonup> 'v contract) \<Rightarrow>
     (contract_address \<rightharpoonup> 'v contract) option" where
  "persist_contracts freeze [] contracts = Some contracts"
| "persist_contracts freeze ((address, ch) # rest) contracts = do {
     contract \<leftarrow> contracts address;
     contract \<leftarrow> persist_contract freeze ch contract;
     persist_contracts freeze rest (contracts(address \<mapsto> contract))
   }"

definition persist_account :: "account_changes \<Rightarrow> 'v account \<Rightarrow> 'v account option" where
  "persist_account ch account =
     (if delta_is_zero (ac_balance_delta ch) then Some account
      else map_option (\<lambda>b. account\<lparr>ac_balance := (ac_balance account)\<lparr>ab_total := b\<rparr>\<rparr>)
        (result_ok (apply_to_balance (ac_balance_delta ch) (ab_total (ac_balance account)))))"

fun persist_accounts ::
    "(bytes \<times> account_changes) list \<Rightarrow> (bytes \<rightharpoonup> 'v account) \<Rightarrow> (bytes \<rightharpoonup> 'v account) option" where
  "persist_accounts [] accounts = Some accounts"
| "persist_accounts ((address, ch) # rest) accounts = do {
     account \<leftarrow> accounts address;
     account \<leftarrow> persist_account ch account;
     persist_accounts rest (accounts(address \<mapsto> account))
   }"

text \<open>The result: whether the state of the invoked contract changed, the energy left and the chain; or too little energy.\<close>

definition persist ::
    "('v \<Rightarrow> 'v \<times> u64) \<Rightarrow> 'v change_set \<Rightarrow> u64 \<Rightarrow> contract_address \<Rightarrow> 'v chain \<Rightarrow> (unit + bool \<times> u64 \<times> 'v chain) option" where
  "persist freeze stack remaining_energy invoked_contract c = do {
     cur \<leftarrow> changes_current stack;
     case checked_sub remaining_energy (collect_state_energy freeze cur) of
       None \<Rightarrow> Some (Inl ())
     | Some remaining_energy \<Rightarrow> do {
         contracts \<leftarrow> persist_contracts freeze (ch_contracts cur) (tc_contracts c);
         accounts \<leftarrow> persist_accounts (ch_accounts cur) (tc_accounts c);
         Some (Inr (\<exists>(address, ch) \<in> set (ch_contracts cur). address = invoked_contract \<and> cc_state ch \<noteq> None,
           remaining_energy, c\<lparr>tc_contracts := contracts, tc_accounts := accounts\<rparr>))
       }
   }"

definition collect_energy_for_state ::
    "('v \<Rightarrow> 'v \<times> u64) \<Rightarrow> 'v change_set \<Rightarrow> u64 \<Rightarrow> contract_address \<Rightarrow> (unit + bool \<times> u64) option" where
  "collect_energy_for_state freeze stack remaining_energy invoked_contract = do {
     cur \<leftarrow> changes_current stack;
     Some (case checked_sub remaining_energy (collect_state_energy freeze cur) of
       None \<Rightarrow> Inl ()
     | Some remaining_energy \<Rightarrow>
         Inr (\<exists>(address, ch) \<in> set (ch_contracts cur). address = invoked_contract \<and> cc_state ch \<noteq> None, remaining_energy))
   }"

end
