(* ===== verification/Testing_Signatures.thy ===== *)
theory Testing_Signatures
  imports Cis2_Properties
begin

text \<open>
  \<^verbatim>\<open>AccountSignatures\<close> of \<^verbatim>\<open>contract-testing/src/types.rs\<close>: signatures by credential and key, as the node reads
  them from a contract. A \<^verbatim>\<open>BTreeMap\<close> is the list of its entries with ascending keys. A signature is
  64 bytes, tagged with the number of its scheme, which is 0.
\<close>

type_synonym key_signatures = "(u8 \<times> bytes) list"
type_synonym account_signatures = "(u8 \<times> key_signatures) list"

definition ED25519_SIGNATURE_LENGTH :: nat where "ED25519_SIGNATURE_LENGTH = 64"

definition num_signatures :: "account_signatures \<Rightarrow> u32" where
  "num_signatures sigs = (\<Sum>(_, v) \<leftarrow> sigs. of_nat (length v))"

section \<open>Serialization\<close>

fun key_signatures_serial :: "key_signatures \<Rightarrow> bytes" where
  "key_signatures_serial [] = []"
| "key_signatures_serial ((ki, s) # v) = ki # 0 # s @ key_signatures_serial v"

fun signatures_serial_items :: "account_signatures \<Rightarrow> bytes" where
  "signatures_serial_items [] = []"
| "signatures_serial_items ((k, v) # sigs) =
     k # of_nat (length v) # key_signatures_serial v @ signatures_serial_items sigs"

definition account_signatures_serial :: "account_signatures \<Rightarrow> bytes" where
  "account_signatures_serial sigs = of_nat (length sigs) # signatures_serial_items sigs"

text \<open>
  The inner loop keeps the last entry aside until the next key is known to be larger; the model
  checks the order at the same place and returns the entries in the order they were read.
\<close>

definition read_signature :: "bytes \<Rightarrow> (bytes \<times> bytes) option" where
  "read_signature src = do {
     (scheme, src) \<leftarrow> read_u8 src;
     if scheme = 0 \<and> ED25519_SIGNATURE_LENGTH \<le> length src
       then Some (take ED25519_SIGNATURE_LENGTH src, drop ED25519_SIGNATURE_LENGTH src) else None
   }"

fun key_signatures_deserial :: "nat \<Rightarrow> u8 option \<Rightarrow> bytes \<Rightarrow> (key_signatures \<times> bytes) option" where
  "key_signatures_deserial 0 last_inner src = Some ([], src)"
| "key_signatures_deserial (Suc n) last_inner src = do {
     (k, src) \<leftarrow> read_u8 src;
     (s, src) \<leftarrow> read_signature src;
     if (case last_inner of Some old_k \<Rightarrow> k \<le> old_k | None \<Rightarrow> False) then None
     else do {
       (v, src) \<leftarrow> key_signatures_deserial n (Some k) src;
       Some ((k, s) # v, src)
     }
   }"

fun signatures_deserial_items :: "nat \<Rightarrow> u8 option \<Rightarrow> bytes \<Rightarrow> (account_signatures \<times> bytes) option" where
  "signatures_deserial_items 0 last_idx src = Some ([], src)"
| "signatures_deserial_items (Suc n) last_idx src = do {
     (idx, src) \<leftarrow> read_u8 src;
     if (case last_idx of Some old \<Rightarrow> idx \<le> old | None \<Rightarrow> False) then None
     else do {
       (inner_len, src) \<leftarrow> read_u8 src;
       (v, src) \<leftarrow> key_signatures_deserial (unat inner_len) None src;
       (sigs, src) \<leftarrow> signatures_deserial_items n (Some idx) src;
       Some ((idx, v) # sigs, src)
     }
   }"

definition account_signatures_deserial :: "bytes \<Rightarrow> (account_signatures \<times> bytes) option" where
  "account_signatures_deserial src = do {
     (outer_len, src) \<leftarrow> read_u8 src;
     signatures_deserial_items (unat outer_len) None src
   }"

section \<open>Reading what was written\<close>

definition above :: "u8 option \<Rightarrow> (u8 \<times> 'a) list \<Rightarrow> bool" where
  "above b xs \<longleftrightarrow> (\<forall>k. b = Some k \<longrightarrow> (\<forall>x \<in> set xs. k < fst x))"

definition key_signatures_ok :: "key_signatures \<Rightarrow> bool" where
  "key_signatures_ok v \<longleftrightarrow> sorted_wrt (<) (map fst v) \<and> length v < 256 \<and> (\<forall>(_, s) \<in> set v. length s = ED25519_SIGNATURE_LENGTH)"

definition account_signatures_ok :: "account_signatures \<Rightarrow> bool" where
  "account_signatures_ok sigs \<longleftrightarrow> sorted_wrt (<) (map fst sigs) \<and> length sigs < 256 \<and> (\<forall>(_, v) \<in> set sigs. key_signatures_ok v)"

lemma unat_of_nat_8: "n < 256 \<Longrightarrow> unat (of_nat n :: u8) = n"
  by (simp add: unat_of_nat)

lemma above_Cons: "above b (x # xs) \<longleftrightarrow> (\<forall>k. b = Some k \<longrightarrow> k < fst x) \<and> above b xs"
  by (auto simp: above_def)

lemma above_Some: "sorted_wrt (<) (map fst (x # xs)) \<Longrightarrow> above (Some (fst x)) xs"
  by (auto simp: above_def)

lemma key_signatures_deserial_serial:
  assumes "sorted_wrt (<) (map fst v)" "above b v" "\<forall>(_, s) \<in> set v. length s = ED25519_SIGNATURE_LENGTH"
  shows "key_signatures_deserial (length v) b (key_signatures_serial v @ rest) = Some (v, rest)"
  using assms
proof (induction v arbitrary: b)
  case (Cons x v)
  obtain k s where x: "x = (k, s)" by force
  have "above (Some k) v" using above_Some [of x v] Cons.prems(1) x by simp
  then have "key_signatures_deserial (length v) (Some k) (key_signatures_serial v @ rest) = Some (v, rest)"
    using Cons.prems by (intro Cons.IH) auto
  moreover have "read_signature (0 # s @ key_signatures_serial v @ rest) = Some (s, key_signatures_serial v @ rest)"
    using Cons.prems(3) x by (simp add: read_signature_def read_u8_def)
  moreover have "\<not> (case b of Some old \<Rightarrow> k \<le> old | None \<Rightarrow> False)"
    using Cons.prems(2) x by (auto simp: above_Cons split: option.splits)
  ultimately show ?case using x by (simp add: read_u8_def)
qed simp

lemma signatures_deserial_items_serial:
  assumes "sorted_wrt (<) (map fst sigs)" "above b sigs" "\<forall>(_, v) \<in> set sigs. key_signatures_ok v"
  shows "signatures_deserial_items (length sigs) b (signatures_serial_items sigs @ rest) = Some (sigs, rest)"
  using assms
proof (induction sigs arbitrary: b)
  case (Cons x sigs)
  obtain k v where x: "x = (k, v)" by force
  have v: "key_signatures_ok v" using Cons.prems(3) x by simp
  then have "key_signatures_deserial (length v) None (key_signatures_serial v @ signatures_serial_items sigs @ rest) =
      Some (v, signatures_serial_items sigs @ rest)" "unat (of_nat (length v) :: u8) = length v"
    by (auto intro: key_signatures_deserial_serial unat_of_nat_8 simp: key_signatures_ok_def above_def)
  moreover have "above (Some k) sigs" using above_Some [of x sigs] Cons.prems(1) x by simp
  then have "signatures_deserial_items (length sigs) (Some k) (signatures_serial_items sigs @ rest) = Some (sigs, rest)"
    using Cons.prems by (intro Cons.IH) auto
  moreover have "\<not> (case b of Some old \<Rightarrow> k \<le> old | None \<Rightarrow> False)"
    using Cons.prems(2) x by (auto simp: above_Cons split: option.splits)
  ultimately show ?case using x by (simp add: read_u8_def)
qed simp

text \<open>What is read is a map: keys ascend and every signature has its length.\<close>

lemma key_signatures_deserial_ok:
  assumes "key_signatures_deserial n b src = Some (v, rest)"
  shows "sorted_wrt (<) (map fst v) \<and> above b v \<and> length v = n \<and> (\<forall>(_, s) \<in> set v. length s = ED25519_SIGNATURE_LENGTH)"
  using assms
proof (induction n arbitrary: b src v)
  case (Suc n)
  then obtain k s src1 src2 w where w: "key_signatures_deserial n (Some k) src2 = Some (w, rest)" "v = (k, s) # w"
    "read_signature src1 = Some (s, src2)" "\<not> (case b of Some old \<Rightarrow> k \<le> old | None \<Rightarrow> False)"
    by (auto split: Option.bind_splits if_splits prod.splits)
  have "length s = ED25519_SIGNATURE_LENGTH" using w(3) by (auto simp: read_signature_def split: Option.bind_splits if_splits prod.splits)
  moreover have "\<forall>x \<in> set ((k, s) # w). \<forall>old. b = Some old \<longrightarrow> old < fst x"
    using Suc.IH [OF w(1)] w(4) by (auto simp: above_def split: option.splits)
  ultimately show ?case using Suc.IH [OF w(1)] w(2) by (auto simp: above_def)
qed (simp add: above_def)

lemma signatures_deserial_items_ok:
  assumes "signatures_deserial_items n b src = Some (sigs, rest)" "n < 256"
  shows "sorted_wrt (<) (map fst sigs) \<and> above b sigs \<and> length sigs = n \<and> (\<forall>(_, v) \<in> set sigs. key_signatures_ok v)"
  using assms
proof (induction n arbitrary: b src sigs)
  case (Suc n)
  then obtain k l v src1 src2 w where w: "signatures_deserial_items n (Some k) src2 = Some (w, rest)" "sigs = (k, v) # w"
    "key_signatures_deserial (unat (l :: u8)) None src1 = Some (v, src2)" "\<not> (case b of Some old \<Rightarrow> k \<le> old | None \<Rightarrow> False)"
    by (auto split: Option.bind_splits if_splits prod.splits)
  have "unat l < 256" using unsigned_less [of l, where ?'a = nat] by simp
  then have "key_signatures_ok v" using key_signatures_deserial_ok [OF w(3)] by (auto simp: key_signatures_ok_def)
  moreover have "\<forall>x \<in> set ((k, v) # w). \<forall>old. b = Some old \<longrightarrow> old < fst x"
    using Suc.IH [OF w(1)] Suc.prems(2) w(4) by (auto simp: above_def split: option.splits)
  ultimately show ?case using Suc.IH [OF w(1)] Suc.prems(2) w(2) by (auto simp: above_def)
qed (simp add: above_def)

section \<open>Properties\<close>

text \<open>
  Signatures with fewer than 256 credentials and keys read back as themselves, whatever follows
  them; and whatever bytes are read give a proper map, with ascending keys and whole signatures.
\<close>

lemma account_signatures_roundtrip:
  "(account_signatures_ok sigs \<longrightarrow> account_signatures_deserial (account_signatures_serial sigs @ rest) = Some (sigs, rest)) \<and>
   (account_signatures_deserial src = Some (sigs, rest) \<longrightarrow> account_signatures_ok sigs)"
proof (intro conjI impI)
  assume "account_signatures_ok sigs"
  then show "account_signatures_deserial (account_signatures_serial sigs @ rest) = Some (sigs, rest)"
    using signatures_deserial_items_serial [of sigs None rest]
    by (simp add: account_signatures_ok_def account_signatures_deserial_def account_signatures_serial_def read_u8_def
        unat_of_nat_8 above_def)
next
  assume "account_signatures_deserial src = Some (sigs, rest)"
  then obtain l src1 where "signatures_deserial_items (unat (l :: u8)) None src1 = Some (sigs, rest)"
    by (auto simp: account_signatures_deserial_def split: Option.bind_splits prod.splits)
  moreover have "unat l < 256" using unsigned_less [of l, where ?'a = nat] by simp
  ultimately show "account_signatures_ok sigs"
    using signatures_deserial_items_ok [of "unat l" None src1 sigs rest] by (simp add: account_signatures_ok_def)
qed

lemma account_signatures_roundtrip_sample:
  "account_signatures_deserial (account_signatures_serial [(0, [(3, replicate 64 7)])] @ [9]) = Some ([(0, [(3, replicate 64 7)])], [9])"
  using account_signatures_roundtrip [of "[(0, [(3, replicate 64 7)])]" "[9]"]
  by (simp add: account_signatures_ok_def key_signatures_ok_def ED25519_SIGNATURE_LENGTH_def)

end
