(* ===== verification/Testing_Invoke.thy ===== *)
theory Testing_Invoke
  imports Testing_Changes Testing_Signatures
begin

text \<open>
  \<^verbatim>\<open>invoke_entrypoint\<close> of \<^verbatim>\<open>contract-testing/src/invocation/impls.rs\<close>: a call to a contract runs until it
  ends or interrupts; an interrupt is handled, which may start a call to another contract, and the
  execution resumes with the response. What the engine and the base library of the chain compute is
  a record of functions, \<open>sdk\<close>: running and resuming code, freezing and thawing states, artifacts,
  checking signatures, serialization. A debug trace is an opaque value.
\<close>

section \<open>What the engine answers\<close>

record receive_context_v1 =
  rc_entrypoint :: string
  rc_slot_time :: u64
  rc_invoker :: account_address
  rc_self_address :: contract_address
  rc_self_balance :: amount
  rc_sender :: address
  rc_owner :: account_address
  rc_sender_policies :: bytes

datatype interrupt =
    TransferInterrupt account_address amount
  | CallInterrupt contract_address bytes string amount
  | UpgradeInterrupt bytes
  | QueryAccountBalanceInterrupt account_address
  | QueryContractBalanceInterrupt contract_address
  | QueryExchangeRatesInterrupt
  | CheckAccountSignatureInterrupt account_address bytes
  | QueryAccountKeysInterrupt account_address
  | QueryContractModuleReferenceInterrupt contract_address
  | QueryContractNameInterrupt contract_address

datatype invoke_failure =
    ContractReject i32 bytes | InsufficientAmount | NonExistentAccount | NonExistentContract | NonExistentEntrypoint
  | UpgradeInvalidModuleRef | UpgradeInvalidContractName | RuntimeError | SignatureDataMalformed | SignatureCheckFailed

datatype invoke_response = RespSuccess amount "bytes option" | RespFailure invoke_failure

datatype 'v receive_result =
    ReceiveSuccess "bytes list" bool bytes u64 'v
  | ReceiveInterrupt u64 bool "bytes list" 'v interrupt 'v
  | ReceiveReject i32 bytes u64 'v
  | ReceiveTrap 'v u64 'v
  | ReceiveOutOfEnergy 'v

text \<open>Values that responses carry as bytes.\<close>

datatype 'v response_value =
  BalanceValue account_balance | AmountValue amount | RatesValue "u64 \<times> u64" "u64 \<times> u64" | KeysValue 'v | ModuleValue bytes

text \<open>
  A run gives the new state and the result; the left summand is an error of the interpreter, already
  converted to a result.
\<close>

record 'v sdk =
  sdk_available :: "account_balance \<Rightarrow> amount"
  sdk_has_entrypoint :: "'v \<Rightarrow> string \<Rightarrow> bool"
  sdk_exports :: "'v \<Rightarrow> string \<Rightarrow> bool"
  sdk_thaw :: "'v \<Rightarrow> 'v"
  sdk_freeze :: "'v \<Rightarrow> 'v \<times> u64"
  sdk_invoke_receive ::
    "'v \<Rightarrow> receive_context_v1 \<Rightarrow> amount \<Rightarrow> string \<Rightarrow> bytes \<Rightarrow> 'v \<Rightarrow> u64 \<Rightarrow> 'v \<times> ('v receive_result + 'v receive_result)"
  sdk_resume_receive ::
    "'v \<Rightarrow> invoke_response \<Rightarrow> bool \<Rightarrow> 'v \<Rightarrow> u64 \<Rightarrow> 'v \<times> ('v receive_result + 'v receive_result)"
  sdk_empty_trace :: 'v
  sdk_to_bytes :: "'v response_value \<Rightarrow> bytes"
  sdk_verify_data_signature :: "'v \<Rightarrow> bytes \<Rightarrow> account_signatures \<Rightarrow> bool"
  sdk_num_keys :: "'v \<Rightarrow> u32"
  sdk_simple_transfer_cost :: u64

section \<open>Traces and suspended calls\<close>

text \<open>A receive name is the name of the contract and of the entrypoint.\<close>

record receive_name =
  rn_contract :: string
  rn_entrypoint :: string

definition receive_chain_name :: "receive_name \<Rightarrow> string" where
  "receive_chain_name n = rn_contract n @ ''.'' @ rn_entrypoint n"

text \<open>The name of a contract on the chain starts with \<^verbatim>\<open>init_\<close>.\<close>

definition construct_receive_name :: "string \<Rightarrow> string \<Rightarrow> receive_name" where
  "construct_receive_name contract_name entrypoint = \<lparr>rn_contract = drop 5 contract_name, rn_entrypoint = entrypoint\<rparr>"

datatype contract_trace_element =
    Updated contract_address address amount bytes receive_name "bytes list"
  | Interrupted contract_address "bytes list"
  | Resumed contract_address bool
  | Transferred contract_address amount account_address
  | Upgraded contract_address bytes bytes

datatype 'v invoke_execution_error = ExecutionReject i32 bytes | ExecutionTrap 'v

datatype 'v debug_trace_element =
    RegularElement string contract_trace_element u64 'v
  | DebugElement string contract_address 'v
  | WithFailures contract_address string "'v invoke_execution_error" "'v debug_trace_element list" u64 'v

record update_payload =
  up_payload_amount :: amount
  up_payload_address :: contract_address
  up_payload_receive_name :: receive_name
  up_payload_message :: bytes

record 'v invocation_data =
  id_sender :: address
  id_address :: contract_address
  id_contract_name :: string
  id_entrypoint :: string
  id_amount :: amount
  id_parameter :: bytes
  id_state :: 'v
  id_trace_elements_checkpoint :: nat
  id_next_mod_idx_checkpoint :: u32
  id_mod_idx_before_invoke :: u32

datatype 'v next_action =
    Resume "'v invocation_data" 'v "invoke_response option"
  | Initial address update_payload nat

section \<open>Results\<close>

text \<open>
  \<open>None\<close> is a panic, the left summand the errors that end the whole transaction. An overflow comes with
  the energy left at that time, which the caller reads through its reference; after running out of
  energy the caller takes it to be zero.
\<close>

datatype 'v config_error = OutOfEnergy 'v | BalanceOverflow u64

type_synonym ('v, 'a) exec = "('v config_error + 'a) option"

definition exec_bind :: "('v, 'a) exec \<Rightarrow> ('a \<Rightarrow> ('v, 'b) exec) \<Rightarrow> ('v, 'b) exec" where
  "exec_bind m f = (case m of None \<Rightarrow> None | Some (Inl e) \<Rightarrow> Some (Inl e) | Some (Inr x) \<Rightarrow> f x)"

definition exec_ok :: "'a \<Rightarrow> ('v, 'a) exec" where
  "exec_ok x = Some (Inr x)"

definition expect :: "'a option \<Rightarrow> ('v, 'a) exec" where
  "expect m = map_option Inr m"

lemma exec_bind_Inr: "exec_bind m f = Some (Inr y) \<longleftrightarrow> (\<exists>x. m = Some (Inr x) \<and> f x = Some (Inr y))"
  by (auto simp: exec_bind_def split: option.splits sum.splits)

lemma exec_ok_Inr [simp]: "exec_ok x = Some (Inr y) \<longleftrightarrow> x = y"
  by (simp add: exec_ok_def)

lemma expect_Inr [simp]: "expect m = Some (Inr y) \<longleftrightarrow> m = Some y"
  by (auto simp: expect_def)

section \<open>Energy\<close>

definition UPDATE_CONTRACT_INSTANCE_BASE_COST :: u64 where "UPDATE_CONTRACT_INSTANCE_BASE_COST = 300"
definition INITIALIZE_CONTRACT_INSTANCE_BASE_COST :: u64 where "INITIALIZE_CONTRACT_INSTANCE_BASE_COST = 300"
definition INITIALIZE_CONTRACT_INSTANCE_CREATE_COST :: u64 where "INITIALIZE_CONTRACT_INSTANCE_CREATE_COST = 200"
definition QUERY_ACCOUNT_BALANCE_COST :: u64 where "QUERY_ACCOUNT_BALANCE_COST = 200"
definition QUERY_CONTRACT_BALANCE_COST :: u64 where "QUERY_CONTRACT_BALANCE_COST = 200"
definition QUERY_EXCHANGE_RATE_COST :: u64 where "QUERY_EXCHANGE_RATE_COST = 100"
definition QUERY_ACCOUNT_KEYS_BASE_COST :: u64 where "QUERY_ACCOUNT_KEYS_BASE_COST = 200"
definition QUERY_CONTRACT_MODULE_REFERENCE_COST :: u64 where "QUERY_CONTRACT_MODULE_REFERENCE_COST = 200"
definition QUERY_CONTRACT_NAME_COST :: u64 where "QUERY_CONTRACT_NAME_COST = 200"

definition query_account_keys_return_cost :: "u32 \<Rightarrow> u64" where
  "query_account_keys_return_cost num_keys = ucast num_keys * 3"

definition verify_ed25519_energy_cost :: "u32 \<Rightarrow> u32 \<Rightarrow> u64" where
  "verify_ed25519_energy_cost num_sigs message_len = ucast num_sigs * (100 + ucast message_len div 10)"

definition lookup_module_cost :: "'v contract_module \<Rightarrow> u64" where
  "lookup_module_cost m = cm_size m div 500"

definition to_interpreter_energy :: "u64 \<Rightarrow> u64 option" where
  "to_interpreter_energy energy = (if unat energy * 1000 < 2 ^ 64 then Some (energy * 1000) else None)"

definition from_interpreter_energy :: "u64 \<Rightarrow> u64" where
  "from_interpreter_energy energy = energy div 1000"

definition tick_energy :: "u64 \<Rightarrow> 'v \<Rightarrow> 'v handler \<Rightarrow> ('v, 'v handler) exec" where
  "tick_energy cost trace h =
     (case checked_sub (ih_remaining_energy h) cost of
        None \<Rightarrow> Some (Inl (OutOfEnergy trace))
      | Some rest \<Rightarrow> exec_ok (h\<lparr>ih_remaining_energy := rest\<rparr>))"

definition update_energy :: "u64 \<Rightarrow> 'v handler \<Rightarrow> 'v handler" where
  "update_energy remaining h = h\<lparr>ih_remaining_energy := from_interpreter_energy remaining\<rparr>"

text \<open>The energy left is never more than the energy reserved when errors of the engine leave none
  (\<open>Testing_Energy\<close>), so this does not wrap.\<close>

definition energy_used :: "'v handler \<Rightarrow> u64" where
  "energy_used h = ih_energy_reserved h - ih_remaining_energy h"

fun result_remaining :: "'v receive_result \<Rightarrow> u64" where
  "result_remaining (ReceiveSuccess _ _ _ r _) = r"
| "result_remaining (ReceiveInterrupt r _ _ _ _ _) = r"
| "result_remaining (ReceiveReject _ _ r _) = r"
| "result_remaining (ReceiveTrap _ r _) = r"
| "result_remaining (ReceiveOutOfEnergy _) = 0"

fun result_trace :: "'v receive_result \<Rightarrow> 'v" where
  "result_trace (ReceiveSuccess _ _ _ _ t) = t"
| "result_trace (ReceiveInterrupt _ _ _ _ _ t) = t"
| "result_trace (ReceiveReject _ _ _ t) = t"
| "result_trace (ReceiveTrap _ _ t) = t"
| "result_trace (ReceiveOutOfEnergy t) = t"

fun with_remaining :: "u64 \<Rightarrow> 'v receive_result \<Rightarrow> 'v receive_result" where
  "with_remaining r (ReceiveSuccess l c v _ t) = ReceiveSuccess l c v r t"
| "with_remaining r (ReceiveInterrupt _ c l g i t) = ReceiveInterrupt r c l g i t"
| "with_remaining r (ReceiveReject n v _ t) = ReceiveReject n v r t"
| "with_remaining r (ReceiveTrap e _ t) = ReceiveTrap e r t"
| "with_remaining r (ReceiveOutOfEnergy t) = ReceiveOutOfEnergy t"

text \<open>
  The energy used is rounded down when it is converted, then charged; the result carries what is left.
  The subtraction saturates.
\<close>

definition run_interpreter ::
    "(u64 \<Rightarrow> 'v \<times> ('v receive_result + 'v receive_result)) \<Rightarrow> 'v handler \<Rightarrow> ('v, 'v receive_result \<times> 'v \<times> 'v handler) exec" where
  "run_interpreter f h =
     exec_bind (expect (to_interpreter_energy (ih_remaining_energy h))) (\<lambda>available.
     let (state, res) = f available in
     case res of
       Inl err \<Rightarrow> exec_ok (err, state, h)
     | Inr (ReceiveOutOfEnergy trace) \<Rightarrow> Some (Inl (OutOfEnergy trace))
     | Inr res \<Rightarrow>
         let used = from_interpreter_energy (if result_remaining res \<le> available then available - result_remaining res else 0) in
         exec_bind (tick_energy used (result_trace res) h) (\<lambda>h.
         exec_bind (expect (to_interpreter_energy (ih_remaining_energy h))) (\<lambda>remaining.
         exec_ok (with_remaining remaining res, state, h))))"

section \<open>Starting a call\<close>

definition initial_balance ::
    "'v sdk \<Rightarrow> address \<Rightarrow> update_payload \<Rightarrow> 'v handler \<Rightarrow> ('v, (invoke_response + amount) \<times> 'v handler) exec" where
  "initial_balance S sender payload h =
     (if up_payload_amount payload > 0 then
        exec_bind (expect (case sender of
            Account sender_account \<Rightarrow>
              transfer_from_account_to_contract (sdk_available S) h (up_payload_amount payload) sender_account (up_payload_address payload)
          | Contract sender_contract \<Rightarrow>
              transfer_from_contract_to_contract h (up_payload_amount payload) sender_contract (up_payload_address payload)))
        (\<lambda>(res, h). case res of
            Inr new_balance \<Rightarrow> exec_ok (Inr new_balance, h)
          | Inl (TransferBalanceError Overflow) \<Rightarrow> Some (Inl (BalanceOverflow (ih_remaining_energy h)))
          | Inl (TransferBalanceError Insufficient) \<Rightarrow> exec_ok (Inl (RespFailure InsufficientAmount), h)
          | Inl ToMissing \<Rightarrow> exec_ok (Inl (RespFailure NonExistentContract), h))
      else
        exec_bind (expect (handler_contract_balance h (up_payload_address payload))) (\<lambda>b.
        case b of
          Some self_balance \<Rightarrow> exec_ok (Inr self_balance, h)
        | None \<Rightarrow> exec_ok (Inl (RespFailure NonExistentContract), h)))"

text \<open>The entrypoint called, or the fallback entrypoint of the contract, whose name is empty.\<close>

definition resolve_entrypoint :: "'v sdk \<Rightarrow> 'v contract_module \<Rightarrow> receive_name \<Rightarrow> receive_name option" where
  "resolve_entrypoint S m name =
     (if sdk_has_entrypoint S (cm_artifact m) (receive_chain_name name) then Some name
      else if sdk_has_entrypoint S (cm_artifact m) (rn_contract name @ ''.'') then Some \<lparr>rn_contract = rn_contract name, rn_entrypoint = ''''\<rparr>
      else None)"

definition charge_module_lookup :: "'v sdk \<Rightarrow> 'v contract_module \<Rightarrow> 'v handler \<Rightarrow> ('v, 'v handler) exec" where
  "charge_module_lookup S m h =
     exec_bind (tick_energy (lookup_module_cost m) (sdk_empty_trace S) h) (\<lambda>h.
     exec_bind (expect (checked_add (ih_module_load_energy h) (lookup_module_cost m))) (\<lambda>e.
     exec_ok (h\<lparr>ih_module_load_energy := e\<rparr>)))"

definition invoke_entrypoint_initial ::
    "'v sdk \<Rightarrow> account_address \<Rightarrow> address \<Rightarrow> update_payload \<Rightarrow> nat \<Rightarrow> 'v handler \<Rightarrow>
     ('v, (invoke_response + 'v receive_result \<times> 'v invocation_data) \<times> 'v handler) exec" where
  "invoke_entrypoint_initial S invoker sender payload checkpoint h =
     exec_bind (tick_energy UPDATE_CONTRACT_INSTANCE_BASE_COST (sdk_empty_trace S) h) (\<lambda>h.
     exec_bind (initial_balance S sender payload h) (\<lambda>(balance, h).
     case balance of
       Inl response \<Rightarrow> exec_ok (Inl response, h)
     | Inr instance_self_balance \<Rightarrow>
         let address = up_payload_address payload in
         exec_bind (expect (tc_contracts (ih_chain h) address)) (\<lambda>inst.
         exec_bind (expect (handler_contract_module h inst)) (\<lambda>m.
         let name = up_payload_receive_name payload; entrypoint_name = rn_entrypoint name in
         case resolve_entrypoint S m name of
           None \<Rightarrow> exec_ok (Inl (RespFailure NonExistentEntrypoint), h)
         | Some receive_name \<Rightarrow>
             exec_bind (charge_module_lookup S m h) (\<lambda>h.
             exec_bind (expect (tc_accounts (ih_chain h) (account_eq invoker))) (\<lambda>invoker_account.
             let ctx = \<lparr>rc_entrypoint = entrypoint_name, rc_slot_time = cp_block_time (tc_parameters (ih_chain h)),
                   rc_invoker = invoker, rc_self_address = address, rc_self_balance = instance_self_balance, rc_sender = sender,
                   rc_owner = co_owner inst, rc_sender_policies = ac_policy invoker_account\<rparr>;
                 mod_idx_before_invoke = ih_next_contract_modification_index h in
             exec_bind (expect (handler_contract_state (sdk_thaw S) h address)) (\<lambda>state.
             exec_bind (run_interpreter (sdk_invoke_receive S (cm_artifact m) ctx (up_payload_amount payload)
               (receive_chain_name receive_name) (up_payload_message payload) state) h) (\<lambda>(res, state, h).
             exec_ok (Inr (res, \<lparr>id_sender = sender, id_address = address, id_contract_name = ''init_'' @ rn_contract name,
               id_entrypoint = entrypoint_name, id_amount = up_payload_amount payload, id_parameter = up_payload_message payload,
               id_state = state, id_trace_elements_checkpoint = checkpoint, id_next_mod_idx_checkpoint = mod_idx_before_invoke,
               id_mod_idx_before_invoke = mod_idx_before_invoke\<rparr>), h)))))))))"

section \<open>Handling the results\<close>

text \<open>The variables of \<^verbatim>\<open>invoke_entrypoint\<close>.\<close>

record 'v machine =
  ma_handler :: "'v handler"
  ma_stack :: "'v next_action list"
  ma_trace :: "'v debug_trace_element list"
  ma_response :: "invoke_response option"

definition push_regular :: "contract_trace_element \<Rightarrow> string \<Rightarrow> 'v \<Rightarrow> 'v machine \<Rightarrow> 'v machine" where
  "push_regular element entrypoint trace m =
     m\<lparr>ma_trace := ma_trace m @ [RegularElement entrypoint element (energy_used (ma_handler m)) trace]\<rparr>"

definition push_debug :: "'v invocation_data \<Rightarrow> 'v \<Rightarrow> 'v machine \<Rightarrow> 'v machine" where
  "push_debug d trace m = m\<lparr>ma_trace := ma_trace m @ [DebugElement (id_entrypoint d) (id_address d) trace]\<rparr>"

definition push_resume :: "'v invocation_data \<Rightarrow> 'v \<Rightarrow> invoke_response option \<Rightarrow> 'v machine \<Rightarrow> 'v machine" where
  "push_resume d config response m = m\<lparr>ma_stack := Resume d config response # ma_stack m\<rparr>"

fun is_success :: "invoke_response \<Rightarrow> bool" where
  "is_success (RespSuccess _ _) = True"
| "is_success (RespFailure _) = False"

definition machine_tick :: "u64 \<Rightarrow> 'v \<Rightarrow> 'v machine \<Rightarrow> ('v, 'v machine) exec" where
  "machine_tick cost trace m = exec_bind (tick_energy cost trace (ma_handler m)) (\<lambda>h. exec_ok (m\<lparr>ma_handler := h\<rparr>))"

definition handle_transfer ::
    "'v sdk \<Rightarrow> 'v invocation_data \<Rightarrow> 'v \<Rightarrow> 'v \<Rightarrow> bytes list \<Rightarrow> account_address \<Rightarrow> amount \<Rightarrow> 'v machine \<Rightarrow> ('v, 'v machine) exec" where
  "handle_transfer S d config trace logs receiver amount m =
     (let m = push_regular (Interrupted (id_address d) logs) (id_entrypoint d) trace m in
      exec_bind (expect (transfer_from_contract_to_account (sdk_available S) (ma_handler m) amount (id_address d) receiver)) (\<lambda>(res, h).
      let m = m\<lparr>ma_handler := h\<rparr> in
      exec_bind (case res of
          Inr new_balance \<Rightarrow> exec_ok (RespSuccess new_balance None)
        | Inl ToMissing \<Rightarrow> exec_ok (RespFailure NonExistentAccount)
        | Inl (TransferBalanceError Insufficient) \<Rightarrow> exec_ok (RespFailure InsufficientAmount)
        | Inl (TransferBalanceError Overflow) \<Rightarrow> Some (Inl (BalanceOverflow (ih_remaining_energy h)))) (\<lambda>response.
      let m = (if is_success response
               then push_regular (Transferred (id_address d) amount receiver) (id_entrypoint d) (sdk_empty_trace S) m else m);
          m = push_regular (Resumed (id_address d) (is_success response)) (id_entrypoint d) (sdk_empty_trace S) m in
      exec_bind (machine_tick (sdk_simple_transfer_cost S) (sdk_empty_trace S) m) (\<lambda>m.
      exec_ok (push_resume d config (Some response) m)))))"

definition handle_call ::
    "'v sdk \<Rightarrow> 'v invocation_data \<Rightarrow> 'v \<Rightarrow> 'v \<Rightarrow> bytes list \<Rightarrow> contract_address \<Rightarrow> bytes \<Rightarrow> string \<Rightarrow> amount \<Rightarrow> 'v machine \<Rightarrow>
     ('v, 'v machine) exec" where
  "handle_call S d config trace logs address parameter name amount m =
     (let m = push_regular (Interrupted (id_address d) logs) (id_entrypoint d) trace m in
      case handler_contract_name (ma_handler m) address of
        None \<Rightarrow>
          let m = push_regular (Resumed (id_address d) False) (id_entrypoint d) (sdk_empty_trace S) m in
          exec_ok (push_resume d config (Some (RespFailure NonExistentContract)) m)
      | Some contract_name \<Rightarrow>
          exec_bind (expect (handler_checkpoint (ma_handler m))) (\<lambda>h.
          let m = push_resume d config None (m\<lparr>ma_handler := h\<rparr>) in
          exec_ok (m\<lparr>ma_stack := Initial (Contract (id_address d))
            \<lparr>up_payload_amount = amount, up_payload_address = address,
             up_payload_receive_name = construct_receive_name contract_name name, up_payload_message = parameter\<rparr>
            (length (ma_trace m)) # ma_stack m\<rparr>)))"

definition upgrade_response ::
    "'v sdk \<Rightarrow> 'v invocation_data \<Rightarrow> bytes \<Rightarrow> 'v machine \<Rightarrow> ('v, invoke_response \<times> 'v machine) exec" where
  "upgrade_response S d module_ref m =
     (case tc_modules (ih_chain (ma_handler m)) module_ref of
        None \<Rightarrow> exec_ok (RespFailure UpgradeInvalidModuleRef, m)
      | Some module \<Rightarrow>
          exec_bind (expect (checked_add (ih_module_load_energy (ma_handler m)) (lookup_module_cost module))) (\<lambda>e.
          exec_bind (machine_tick (lookup_module_cost module) (sdk_empty_trace S)
            (m\<lparr>ma_handler := (ma_handler m)\<lparr>ih_module_load_energy := e\<rparr>\<rparr>)) (\<lambda>m.
          if sdk_exports S (cm_artifact module) (id_contract_name d) then
            exec_bind (expect (save_module_upgrade (ma_handler m) (id_address d) module_ref)) (\<lambda>(old_module_ref, h).
            exec_bind (machine_tick INITIALIZE_CONTRACT_INSTANCE_CREATE_COST (sdk_empty_trace S) (m\<lparr>ma_handler := h\<rparr>)) (\<lambda>m.
            let m = push_regular (Upgraded (id_address d) old_module_ref module_ref) (id_entrypoint d) (sdk_empty_trace S) m in
            exec_bind (expect (contract_balance_unchecked (ma_handler m) (id_address d))) (\<lambda>new_balance.
            exec_ok (RespSuccess new_balance None, m))))
          else exec_ok (RespFailure UpgradeInvalidContractName, m))))"

definition handle_upgrade ::
    "'v sdk \<Rightarrow> 'v invocation_data \<Rightarrow> 'v \<Rightarrow> 'v \<Rightarrow> bytes list \<Rightarrow> bytes \<Rightarrow> 'v machine \<Rightarrow> ('v, 'v machine) exec" where
  "handle_upgrade S d config trace logs module_ref m =
     (let m = push_regular (Interrupted (id_address d) logs) (id_entrypoint d) trace m in
      exec_bind (machine_tick INITIALIZE_CONTRACT_INSTANCE_BASE_COST (sdk_empty_trace S) m) (\<lambda>m.
      exec_bind (upgrade_response S d module_ref m) (\<lambda>(response, m).
      let m = push_regular (Resumed (id_address d) (is_success response)) (id_entrypoint d) (sdk_empty_trace S) m in
      exec_ok (push_resume d config (Some response) m))))"

section \<open>Queries\<close>

definition success_response :: "'v invocation_data \<Rightarrow> bytes option \<Rightarrow> 'v machine \<Rightarrow> ('v, invoke_response) exec" where
  "success_response d data m =
     exec_bind (expect (contract_balance_unchecked (ma_handler m) (id_address d))) (\<lambda>b. exec_ok (RespSuccess b data))"

definition optional_response ::
    "'v invocation_data \<Rightarrow> invoke_failure \<Rightarrow> bytes option \<Rightarrow> 'v machine \<Rightarrow> ('v, invoke_response) exec" where
  "optional_response d failure data m =
     (case data of None \<Rightarrow> exec_ok (RespFailure failure) | Some bs \<Rightarrow> success_response d (Some bs) m)"

definition finish_query ::
    "'v invocation_data \<Rightarrow> 'v \<Rightarrow> 'v \<Rightarrow> invoke_response \<Rightarrow> 'v machine \<Rightarrow> ('v, 'v machine) exec" where
  "finish_query d config trace response m = exec_ok (push_resume d config (Some response) (push_debug d trace m))"

definition query_value ::
    "'v invocation_data \<Rightarrow> 'v \<Rightarrow> 'v \<Rightarrow> u64 \<Rightarrow> invoke_failure \<Rightarrow> bytes option \<Rightarrow> 'v machine \<Rightarrow> ('v, 'v machine) exec" where
  "query_value d config trace cost failure data m =
     exec_bind (optional_response d failure data m) (\<lambda>response.
     exec_bind (machine_tick cost trace m) (\<lambda>m.
     finish_query d config trace response m))"

definition handle_query_account_balance ::
    "'v sdk \<Rightarrow> 'v invocation_data \<Rightarrow> 'v \<Rightarrow> 'v \<Rightarrow> account_address \<Rightarrow> 'v machine \<Rightarrow> ('v, 'v machine) exec" where
  "handle_query_account_balance S d config trace address m =
     exec_bind (expect (handler_account_balance (ma_handler m) address)) (\<lambda>balance.
     query_value d config trace QUERY_ACCOUNT_BALANCE_COST NonExistentAccount
       (map_option (\<lambda>b. sdk_to_bytes S (BalanceValue b)) balance) m)"

definition handle_query_contract_balance ::
    "'v sdk \<Rightarrow> 'v invocation_data \<Rightarrow> 'v \<Rightarrow> 'v \<Rightarrow> contract_address \<Rightarrow> 'v machine \<Rightarrow> ('v, 'v machine) exec" where
  "handle_query_contract_balance S d config trace address m =
     exec_bind (expect (handler_contract_balance (ma_handler m) address)) (\<lambda>balance.
     query_value d config trace QUERY_CONTRACT_BALANCE_COST NonExistentContract
       (map_option (\<lambda>b. sdk_to_bytes S (AmountValue b)) balance) m)"

definition handle_query_exchange_rates ::
    "'v sdk \<Rightarrow> 'v invocation_data \<Rightarrow> 'v \<Rightarrow> 'v \<Rightarrow> 'v machine \<Rightarrow> ('v, 'v machine) exec" where
  "handle_query_exchange_rates S d config trace m =
     (let p = tc_parameters (ih_chain (ma_handler m)) in
      exec_bind (success_response d (Some (sdk_to_bytes S (RatesValue (cp_euro_per_energy p) (cp_micro_ccd_per_euro p)))) m) (\<lambda>response.
      exec_bind (machine_tick QUERY_EXCHANGE_RATE_COST trace m) (\<lambda>m.
      finish_query d config trace response m)))"

text \<open>
  The data and the signatures of a payload. A length of the data that goes past the end of the payload
  is an index out of range; too few bytes and malformed signatures are errors.
\<close>

definition deserial_signature_and_data :: "bytes \<Rightarrow> (account_signatures \<times> bytes) option option" where
  "deserial_signature_and_data payload =
     (case read_le 4 payload of
        None \<Rightarrow> Some None
      | Some (data_len :: u32, src) \<Rightarrow>
          if unat data_len \<le> length src then
            Some (map_option (\<lambda>(sigs, _). (sigs, take (unat data_len) src)) (account_signatures_deserial (drop (unat data_len) src)))
          else None)"

definition check_signature_response ::
    "'v sdk \<Rightarrow> 'v invocation_data \<Rightarrow> 'v \<Rightarrow> 'v \<Rightarrow> bytes \<Rightarrow> 'v machine \<Rightarrow> ('v, invoke_response \<times> 'v machine) exec" where
  "check_signature_response S d trace keys payload m =
     exec_bind (expect (deserial_signature_and_data payload)) (\<lambda>parsed.
     case parsed of
       None \<Rightarrow> exec_ok (RespFailure SignatureDataMalformed, m)
     | Some (sigs, data) \<Rightarrow>
         exec_bind (machine_tick (verify_ed25519_energy_cost (num_signatures sigs) (of_nat (length data))) trace m) (\<lambda>m.
         if sdk_verify_data_signature S keys data sigs then
           exec_bind (success_response d None m) (\<lambda>response. exec_ok (response, m))
         else exec_ok (RespFailure SignatureCheckFailed, m)))"

definition handle_check_account_signature ::
    "'v sdk \<Rightarrow> 'v invocation_data \<Rightarrow> 'v \<Rightarrow> 'v \<Rightarrow> account_address \<Rightarrow> bytes \<Rightarrow> 'v machine \<Rightarrow> ('v, 'v machine) exec" where
  "handle_check_account_signature S d config trace address payload m =
     exec_bind (machine_tick QUERY_ACCOUNT_KEYS_BASE_COST trace m) (\<lambda>m.
     exec_bind (case handler_account_keys (ma_handler m) address of
         Some keys \<Rightarrow> check_signature_response S d trace keys payload m
       | None \<Rightarrow> exec_ok (RespFailure NonExistentAccount, m)) (\<lambda>(response, m).
     finish_query d config trace response m))"

definition handle_query_account_keys ::
    "'v sdk \<Rightarrow> 'v invocation_data \<Rightarrow> 'v \<Rightarrow> 'v \<Rightarrow> account_address \<Rightarrow> 'v machine \<Rightarrow> ('v, 'v machine) exec" where
  "handle_query_account_keys S d config trace address m =
     exec_bind (machine_tick QUERY_ACCOUNT_KEYS_BASE_COST trace m) (\<lambda>m.
     case handler_account_keys (ma_handler m) address of
       None \<Rightarrow> finish_query d config trace (RespFailure NonExistentAccount) m
     | Some keys \<Rightarrow>
         exec_bind (machine_tick (query_account_keys_return_cost (sdk_num_keys S keys)) trace m) (\<lambda>m.
         exec_bind (success_response d (Some (sdk_to_bytes S (KeysValue keys))) m) (\<lambda>response.
         finish_query d config trace response m)))"

definition handle_query_contract_module_reference ::
    "'v sdk \<Rightarrow> 'v invocation_data \<Rightarrow> 'v \<Rightarrow> 'v \<Rightarrow> contract_address \<Rightarrow> 'v machine \<Rightarrow> ('v, 'v machine) exec" where
  "handle_query_contract_module_reference S d config trace address m =
     exec_bind (expect (contract_module_reference (ma_handler m) address)) (\<lambda>mod_ref.
     query_value d config trace QUERY_CONTRACT_MODULE_REFERENCE_COST NonExistentContract
       (map_option (\<lambda>r. sdk_to_bytes S (ModuleValue r)) mod_ref) m)"

definition string_bytes :: "string \<Rightarrow> bytes" where
  "string_bytes s = map (\<lambda>c. of_char c) s"

definition handle_query_contract_name ::
    "'v invocation_data \<Rightarrow> 'v \<Rightarrow> 'v \<Rightarrow> contract_address \<Rightarrow> 'v machine \<Rightarrow> ('v, 'v machine) exec" where
  "handle_query_contract_name d config trace address m =
     query_value d config trace QUERY_CONTRACT_NAME_COST NonExistentContract
       (map_option string_bytes (handler_contract_name (ma_handler m) address)) m"

section \<open>The loop\<close>

definition handle_interrupt ::
    "'v sdk \<Rightarrow> 'v invocation_data \<Rightarrow> 'v \<Rightarrow> 'v \<Rightarrow> bytes list \<Rightarrow> interrupt \<Rightarrow> 'v machine \<Rightarrow> ('v, 'v machine) exec" where
  "handle_interrupt S d config trace logs intr m =
     (case intr of
        TransferInterrupt receiver amount \<Rightarrow> handle_transfer S d config trace logs receiver amount m
      | CallInterrupt address parameter name amount \<Rightarrow> handle_call S d config trace logs address parameter name amount m
      | UpgradeInterrupt module_ref \<Rightarrow> handle_upgrade S d config trace logs module_ref m
      | QueryAccountBalanceInterrupt address \<Rightarrow> handle_query_account_balance S d config trace address m
      | QueryContractBalanceInterrupt address \<Rightarrow> handle_query_contract_balance S d config trace address m
      | QueryExchangeRatesInterrupt \<Rightarrow> handle_query_exchange_rates S d config trace m
      | CheckAccountSignatureInterrupt address payload \<Rightarrow> handle_check_account_signature S d config trace address payload m
      | QueryAccountKeysInterrupt address \<Rightarrow> handle_query_account_keys S d config trace address m
      | QueryContractModuleReferenceInterrupt address \<Rightarrow> handle_query_contract_module_reference S d config trace address m
      | QueryContractNameInterrupt address \<Rightarrow> handle_query_contract_name d config trace address m)"

definition handle_success ::
    "'v invocation_data \<Rightarrow> bytes list \<Rightarrow> bool \<Rightarrow> bytes \<Rightarrow> 'v \<Rightarrow> 'v machine \<Rightarrow> ('v, 'v machine) exec" where
  "handle_success d logs state_changed return_value trace m =
     (let m = push_regular (Updated (id_address d) (id_sender d) (id_amount d) (id_parameter d)
            (construct_receive_name (id_contract_name d) (id_entrypoint d)) logs) (id_entrypoint d) trace m in
      exec_bind (if state_changed
          then exec_bind (expect (save_state_changes (ma_handler m) (id_address d) (id_state d))) (\<lambda>(_, h). exec_ok (m\<lparr>ma_handler := h\<rparr>))
          else exec_ok m) (\<lambda>m.
      exec_bind (success_response d (Some return_value) m) (\<lambda>response.
      exec_ok (m\<lparr>ma_response := Some response\<rparr>))))"

text \<open>A reject or a trap: its trace elements are collected in one element, and the response is a failure.\<close>

definition handle_failure ::
    "'v invocation_data \<Rightarrow> 'v invoke_execution_error \<Rightarrow> invoke_failure \<Rightarrow> 'v \<Rightarrow> 'v machine \<Rightarrow> ('v, 'v machine) exec" where
  "handle_failure d err kind trace m =
     (let n = id_trace_elements_checkpoint d in
      if n \<le> length (ma_trace m) then
        exec_ok (m\<lparr>ma_trace := take n (ma_trace m) @ [WithFailures (id_address d) (id_entrypoint d) err (drop n (ma_trace m))
            (energy_used (ma_handler m)) trace],
          ma_handler := (ma_handler m)\<lparr>ih_next_contract_modification_index := id_next_mod_idx_checkpoint d\<rparr>,
          ma_response := Some (RespFailure kind)\<rparr>)
      else None)"

definition handle_result ::
    "'v sdk \<Rightarrow> 'v receive_result \<Rightarrow> 'v invocation_data \<Rightarrow> 'v machine \<Rightarrow> ('v, 'v machine) exec" where
  "handle_result S res d m =
     (case res of
        ReceiveSuccess logs state_changed return_value remaining trace \<Rightarrow>
          handle_success d logs state_changed return_value trace (m\<lparr>ma_handler := update_energy remaining (ma_handler m)\<rparr>)
      | ReceiveInterrupt remaining state_changed logs config intr trace \<Rightarrow>
          let m = m\<lparr>ma_handler := update_energy remaining (ma_handler m)\<rparr> in
          exec_bind (if state_changed
              then expect (save_state_changes (ma_handler m) (id_address d) (id_state d))
              else exec_bind (expect (handler_modification_index (ma_handler m) (id_address d))) (\<lambda>i. exec_ok (i, ma_handler m))) (\<lambda>(i, h).
          handle_interrupt S (d\<lparr>id_mod_idx_before_invoke := i\<rparr>) config trace logs intr (m\<lparr>ma_handler := h\<rparr>))
      | ReceiveReject reason return_value remaining trace \<Rightarrow>
          handle_failure d (ExecutionReject reason return_value) (ContractReject reason return_value) trace
            (m\<lparr>ma_handler := update_energy remaining (ma_handler m)\<rparr>)
      | ReceiveTrap err remaining trace \<Rightarrow>
          handle_failure d (ExecutionTrap err) RuntimeError trace (m\<lparr>ma_handler := update_energy remaining (ma_handler m)\<rparr>)
      | ReceiveOutOfEnergy trace \<Rightarrow> Some (Inl (OutOfEnergy trace)))"

text \<open>
  Resuming after a call to another contract: the changes of a call that failed are rolled back, those
  of a call that succeeded are kept, and the execution is told whether its own state changed.
\<close>

definition resume_after_call ::
    "'v sdk \<Rightarrow> 'v invocation_data \<Rightarrow> 'v machine \<Rightarrow> ('v, invoke_response \<times> bool \<times> 'v invocation_data \<times> 'v machine) exec" where
  "resume_after_call S d m =
     exec_bind (expect (ma_response m)) (\<lambda>response.
     let m = m\<lparr>ma_response := None\<rparr> in
     exec_bind (case response of
         RespSuccess _ return_value \<Rightarrow> success_response d return_value m
       | failure \<Rightarrow> exec_ok failure) (\<lambda>call_response.
     exec_bind (if \<not> is_success response then
         exec_bind (expect (handler_rollback (ma_handler m))) (\<lambda>h. exec_ok (False, d, m\<lparr>ma_handler := h\<rparr>))
       else
         exec_bind (expect (handler_modification_index (ma_handler m) (id_address d))) (\<lambda>mod_idx_after_invoke.
         if mod_idx_after_invoke \<noteq> id_mod_idx_before_invoke d then
           exec_bind (expect (handler_contract_state (sdk_thaw S) (ma_handler m) (id_address d))) (\<lambda>state.
           exec_ok (True, d\<lparr>id_state := state\<rparr>, m))
         else exec_ok (False, d, m))) (\<lambda>(state_changed, d, m).
     exec_ok (call_response, state_changed, d,
       push_regular (Resumed (id_address d) (is_success response)) (id_entrypoint d) (sdk_empty_trace S) m))))"

definition resume_receive ::
    "'v sdk \<Rightarrow> 'v \<Rightarrow> invoke_response \<Rightarrow> bool \<Rightarrow> 'v invocation_data \<Rightarrow> 'v machine \<Rightarrow> ('v, 'v machine) exec" where
  "resume_receive S config response state_changed d m =
     exec_bind (run_interpreter (sdk_resume_receive S config response state_changed (id_state d)) (ma_handler m)) (\<lambda>(res, state, h).
     handle_result S res (d\<lparr>id_state := state\<rparr>) (m\<lparr>ma_handler := h\<rparr>))"

definition invoke_step :: "'v sdk \<Rightarrow> account_address \<Rightarrow> 'v machine \<Rightarrow> ('v, 'v machine) exec" where
  "invoke_step S invoker m =
     (case ma_stack m of
        [] \<Rightarrow> exec_ok m
      | Resume d config (Some response) # rest \<Rightarrow>
          resume_receive S config response False d (m\<lparr>ma_stack := rest\<rparr>)
      | Resume d config None # rest \<Rightarrow>
          exec_bind (resume_after_call S d (m\<lparr>ma_stack := rest\<rparr>)) (\<lambda>(response, state_changed, d, m).
          resume_receive S config response state_changed d m)
      | Initial sender payload checkpoint # rest \<Rightarrow>
          exec_bind (invoke_entrypoint_initial S invoker sender payload checkpoint (ma_handler m)) (\<lambda>(res, h).
          let m = m\<lparr>ma_stack := rest, ma_handler := h\<rparr> in
          case res of
            Inl failure \<Rightarrow> exec_ok (m\<lparr>ma_response := Some failure\<rparr>)
          | Inr (res, d) \<Rightarrow> handle_result S res d m))"

partial_function (option) invoke_loop :: "'v sdk \<Rightarrow> account_address \<Rightarrow> 'v machine \<Rightarrow> ('v, 'v machine) exec option" where
  "invoke_loop S invoker m =
     (if ma_stack m = [] then Some (exec_ok m)
      else case invoke_step S invoker m of
        None \<Rightarrow> Some None
      | Some (Inl err) \<Rightarrow> Some (Some (Inl err))
      | Some (Inr m) \<Rightarrow> invoke_loop S invoker m)"

definition invoke_start :: "address \<Rightarrow> update_payload \<Rightarrow> 'v handler \<Rightarrow> 'v machine" where
  "invoke_start sender payload h = \<lparr>ma_handler = h, ma_stack = [Initial sender payload 0], ma_trace = [], ma_response = None\<rparr>"

definition invoke_entrypoint ::
    "'v sdk \<Rightarrow> account_address \<Rightarrow> address \<Rightarrow> update_payload \<Rightarrow> 'v handler \<Rightarrow>
     ('v, (invoke_response \<times> 'v debug_trace_element list) \<times> 'v handler) exec option" where
  "invoke_entrypoint S invoker sender payload h = do {
     r \<leftarrow> invoke_loop S invoker (invoke_start sender payload h);
     Some (exec_bind r (\<lambda>m. exec_bind (expect (ma_response m)) (\<lambda>response. exec_ok ((response, ma_trace m), ma_handler m))))
   }"

end
