(* ===== verification/Testing_Balance.thy ===== *)
theory Testing_Balance
  imports Testing_Invoke
begin

text \<open>
  Amounts are neither created nor lost while contracts call each other: the differences in every
  checkpoint add up to zero, whatever the engine does.
\<close>

section \<open>Differences are integers\<close>

fun delta_int :: "amount_delta \<Rightarrow> int" where
  "delta_int (Positive d) = uint d"
| "delta_int (Negative d) = - uint d"

lemma checked_add_64: "checked_add (x :: u64) y = (if uint x + uint y < 2 ^ 64 then Some (x + y) else None)"
proof -
  have "int (unat x + unat y) < int (2 ^ 64) \<longleftrightarrow> unat x + unat y < 2 ^ 64" by (rule of_nat_less_iff)
  then have "unat x + unat y < 2 ^ 64 \<longleftrightarrow> uint x + uint y < 2 ^ 64" by simp
  then show ?thesis by (simp add: checked_add_def)
qed

lemma uint_add_small: "uint (x :: u64) + uint y < 2 ^ 64 \<Longrightarrow> uint (x + y) = uint x + uint y"
  by (simp add: uint_word_ariths)

lemma uint_sub_small: "(y :: u64) \<le> x \<Longrightarrow> uint (x - y) = uint x - uint y"
  by (simp add: uint_minus_simple_alt word_le_def)

lemma checked_sub_Some: "checked_sub x y = Some z \<Longrightarrow> uint z = uint x - uint y"
  by (auto simp: checked_sub_def uint_sub_small split: if_splits)

lemma delta_int_add:
  "add_delta x y = Some z \<Longrightarrow> delta_int z = delta_int x + delta_int y"
  by (cases x; cases y)
    (auto simp: checked_add_64 uint_add_small uint_sub_small not_le order_less_imp_le split: if_splits)

lemma delta_int_apply: "apply_to_balance d b = Inr b' \<Longrightarrow> uint b' = uint b + delta_int d"
  by (cases d) (auto simp: checked_add_64 uint_add_small dest: checked_sub_Some split: option.splits if_splits)

lemma delta_int_apply_Inl:
  "apply_to_balance d b = Inl e \<longleftrightarrow> (if e = Insufficient then uint b + delta_int d < 0 else 2 ^ 64 \<le> uint b + delta_int d)"
proof (cases d)
  case (Positive x)
  have "\<not> uint b + uint x < 0" using uint_ge_0 [of b] uint_ge_0 [of x] by linarith
  then show ?thesis using Positive by (cases e) (auto simp: checked_add_64)
next
  case (Negative x)
  have "uint b < 2 ^ 64" using uint_lt2p [of b] by simp
  moreover have "0 \<le> uint x" by (rule uint_ge_0)
  ultimately have "uint b - uint x < 2 ^ 64" by linarith
  then show ?thesis using Negative by (cases e) (auto simp: checked_sub_def word_le_def)
qed

lemma delta_is_zero_int: "delta_is_zero d \<longleftrightarrow> delta_int d = 0"
  by (cases d) (auto simp: uint_0_iff)

lemma delta_int_new [simp]: "delta_int delta_new = 0"
  by (simp add: delta_new_def)

section \<open>The changes of a checkpoint\<close>

definition alist_sum :: "('b \<Rightarrow> int) \<Rightarrow> ('a \<times> 'b) list \<Rightarrow> int" where
  "alist_sum f xs = (\<Sum>(_, x) \<leftarrow> xs. f x)"

lemma alist_sum_simps [simp]: "alist_sum f [] = 0" "alist_sum f ((k, x) # xs) = f x + alist_sum f xs"
  by (simp_all add: alist_sum_def)

lemma alist_sum_update:
  "alist_sum f (AList.update k v xs) = alist_sum f xs + f v - (case map_of xs k of None \<Rightarrow> 0 | Some w \<Rightarrow> f w)"
  by (induction xs) (auto split: option.splits)

abbreviation contract_delta :: "'v contract_changes \<Rightarrow> int" where
  "contract_delta ch \<equiv> delta_int (cc_self_balance_delta ch)"

abbreviation account_delta :: "account_changes \<Rightarrow> int" where
  "account_delta ch \<equiv> delta_int (ac_balance_delta ch)"

definition changes_sum :: "'v changes \<Rightarrow> int" where
  "changes_sum ch = alist_sum contract_delta (ch_contracts ch) + alist_sum account_delta (ch_accounts ch)"

definition contract_changes_ok :: "'v chain \<Rightarrow> contract_address \<Rightarrow> 'v contract_changes \<Rightarrow> bool" where
  "contract_changes_ok c a x \<longleftrightarrow>
     (\<exists>con. tc_contracts c a = Some con \<and> cc_self_balance_original x = co_self_balance con) \<and> contract_current_balance x \<noteq> None"

definition account_changes_ok :: "'v chain \<Rightarrow> bytes \<Rightarrow> account_changes \<Rightarrow> bool" where
  "account_changes_ok c a x \<longleftrightarrow> tc_accounts c a \<noteq> None \<and> account_current_balance x \<noteq> None"

definition changes_ok :: "'v chain \<Rightarrow> 'v changes \<Rightarrow> bool" where
  "changes_ok c ch \<longleftrightarrow> distinct (map fst (ch_contracts ch)) \<and> distinct (map fst (ch_accounts ch)) \<and>
     (\<forall>(a, x) \<in> set (ch_contracts ch). contract_changes_ok c a x) \<and> (\<forall>(a, x) \<in> set (ch_accounts ch). account_changes_ok c a x)"

text \<open>All checkpoints are in order, and the last one is off by \<open>n\<close>.\<close>

definition handler_off :: "int \<Rightarrow> 'v chain \<Rightarrow> 'v handler \<Rightarrow> bool" where
  "handler_off n c h \<longleftrightarrow> ih_chain h = c \<and> (\<exists>ch rest. ih_changeset h = ch # rest \<and> changes_ok c ch \<and> changes_sum ch = n \<and>
     (\<forall>r \<in> set rest. changes_ok c r \<and> changes_sum r = 0))"

lemma handler_off_simps [simp]:
  "handler_off n c (h\<lparr>ih_remaining_energy := e\<rparr>) = handler_off n c h"
  "handler_off n c (h\<lparr>ih_module_load_energy := e\<rparr>) = handler_off n c h"
  "handler_off n c (h\<lparr>ih_next_contract_modification_index := i\<rparr>) = handler_off n c h"
  by (simp_all add: handler_off_def)

lemma set_update_subset: "set (AList.update k v xs) \<subseteq> insert (k, v) (set xs)"
  by (induction xs) auto

lemma handler_off_put_contract:
  assumes "handler_off n c h" "changes_current (ih_changeset h) = Some cur" "contract_changes_ok c a x"
  shows "handler_off (n + contract_delta x - (case map_of (ch_contracts cur) a of None \<Rightarrow> 0 | Some w \<Rightarrow> contract_delta w)) c
    (put_contract a x cur h)"
proof -
  have "changes_ok c (cur\<lparr>ch_contracts := AList.update a x (ch_contracts cur)\<rparr>)"
    using assms
    by (auto simp: handler_off_def changes_ok_def changes_current_def distinct_update dest!: subsetD [OF set_update_subset])
  then show ?thesis using assms
    by (auto simp: handler_off_def put_contract_def changes_put_def changes_current_def changes_sum_def alist_sum_update split: option.split)
qed

lemma handler_off_put_account:
  assumes "handler_off n c h" "changes_current (ih_changeset h) = Some cur" "account_changes_ok c a x"
  shows "handler_off (n + account_delta x - (case map_of (ch_accounts cur) a of None \<Rightarrow> 0 | Some w \<Rightarrow> account_delta w)) c
    (put_account a x cur h)"
proof -
  have "changes_ok c (cur\<lparr>ch_accounts := AList.update a x (ch_accounts cur)\<rparr>)"
    using assms
    by (auto simp: handler_off_def changes_ok_def changes_current_def distinct_update dest!: subsetD [OF set_update_subset])
  then show ?thesis using assms
    by (auto simp: handler_off_def put_account_def changes_put_def changes_current_def changes_sum_def alist_sum_update split: option.split)
qed

lemma changes_current_ok: "handler_off n c h \<Longrightarrow> changes_current (ih_changeset h) = Some cur \<Longrightarrow> changes_ok c cur \<and> changes_sum cur = n"
  by (auto simp: handler_off_def changes_current_def)

lemma changes_ok_contract: "changes_ok c cur \<Longrightarrow> map_of (ch_contracts cur) a = Some x \<Longrightarrow> contract_changes_ok c a x"
  by (auto simp: changes_ok_def dest: map_of_SomeD)

lemma changes_ok_account: "changes_ok c cur \<Longrightarrow> map_of (ch_accounts cur) a = Some x \<Longrightarrow> account_changes_ok c a x"
  by (auto simp: changes_ok_def dest: map_of_SomeD)

section \<open>Changes of balances\<close>

lemma result_ok_Some [simp]: "result_ok r = Some x \<longleftrightarrow> r = Inr x"
  by (auto simp: result_ok_def split: sum.splits)

lemma result_ok_not_None [simp]: "(\<exists>y. result_ok r = Some y) \<longleftrightarrow> (\<exists>x. r = Inr x)"
  by simp

text \<open>A balance that was in range leaves it at the side of the difference.\<close>

lemma apply_sum_Inl:
  assumes "apply_to_balance d0 b = Inr b0" "delta_int new = delta_int d0 + delta_int d" "apply_to_balance new b = Inl e"
  shows "(0 \<le> delta_int d \<longrightarrow> e = Overflow) \<and> (delta_int d \<le> 0 \<longrightarrow> e = Insufficient)"
  using assms(2,3) delta_int_apply [OF assms(1)] uint_ge_0 [of b0] uint_lt2p [of b0]
  unfolding delta_int_apply_Inl by (cases e) auto

lemma apply_new [simp]: "apply_to_balance delta_new b = Inr b"
proof -
  have "uint b < 2 ^ 64" using uint_lt2p [of b] by simp
  then show ?thesis by (simp add: delta_new_def checked_add_64)
qed

lemma change_contract_balance_off:
  assumes "handler_off n c h" "change_contract_balance h a d = Some (res, h')"
  shows "case res of
      Inl e \<Rightarrow> h' = h \<and> (0 \<le> delta_int d \<longrightarrow> e = Overflow) \<and> (delta_int d \<le> 0 \<longrightarrow> e = Insufficient)
    | Inr _ \<Rightarrow> handler_off (n + delta_int d) c h'"
proof -
  obtain cur where cur: "changes_current (ih_changeset h) = Some cur" using assms(1) by (auto simp: handler_off_def changes_current_def)
  have c: "ih_chain h = c" using assms(1) by (simp add: handler_off_def)
  show ?thesis
  proof (cases "map_of (ch_contracts cur) a")
    case None
    obtain con where con: "tc_contracts c a = Some con"
      using assms(2) cur None c by (auto simp: change_contract_balance_def split: Option.bind_splits)
    let ?x = "(contract_changes_new (co_self_balance con))\<lparr>cc_self_balance_delta := d\<rparr>"
    have "contract_changes_ok c a ?x" if "apply_to_balance d (co_self_balance con) = Inr b" for b
      using con that by (simp add: contract_changes_ok_def contract_current_balance_def contract_changes_new_def)
    then show ?thesis
      using assms(2) cur c None con apply_sum_Inl [OF apply_new, of d d "co_self_balance con"] handler_off_put_contract [OF assms(1) cur, of a ?x]
      by (cases "apply_to_balance d (co_self_balance con)") (auto simp: change_contract_balance_def split: sum.splits)
  next
    case (Some ch)
    have chok: "contract_changes_ok c a ch" using changes_current_ok [OF assms(1) cur] Some by (blast intro: changes_ok_contract)
    obtain new where new: "add_delta (cc_self_balance_delta ch) d = Some new"
      using assms(2) cur Some by (auto simp: change_contract_balance_def split: Option.bind_splits)
    obtain b0 where b0: "apply_to_balance (cc_self_balance_delta ch) (cc_self_balance_original ch) = Inr b0"
      using chok by (auto simp: contract_changes_ok_def contract_current_balance_def)
    let ?x = "ch\<lparr>cc_self_balance_delta := new\<rparr>"
    have "contract_changes_ok c a ?x" if "apply_to_balance new (cc_self_balance_original ch) = Inr b" for b
      using chok that by (simp add: contract_changes_ok_def contract_current_balance_def)
    then show ?thesis
      using assms(2) cur Some new delta_int_add [OF new] apply_sum_Inl [OF b0 delta_int_add [OF new]]
        handler_off_put_contract [OF assms(1) cur, of a ?x]
      by (cases "apply_to_balance new (cc_self_balance_original ch)") (auto simp: change_contract_balance_def split: sum.splits)
  qed
qed

lemma change_account_balance_off:
  assumes "handler_off n c h" "change_account_balance available h address d = Some (res, h')"
  shows "case res of
      Inl e \<Rightarrow> h' = h \<and> (0 \<le> delta_int d \<longrightarrow> e = Overflow) \<and> (delta_int d \<le> 0 \<longrightarrow> e = Insufficient)
    | Inr _ \<Rightarrow> handler_off (n + delta_int d) c h'"
proof -
  let ?a = "account_eq address"
  obtain cur where cur: "changes_current (ih_changeset h) = Some cur" using assms(1) by (auto simp: handler_off_def changes_current_def)
  have c: "ih_chain h = c" using assms(1) by (simp add: handler_off_def)
  show ?thesis
  proof (cases "map_of (ch_accounts cur) ?a")
    case None
    obtain acc b1 where acc: "tc_accounts c ?a = Some acc"
      "(if ih_invoker h = address then checked_sub (available (ac_balance acc)) (ih_reserved_amount h) else Some (available (ac_balance acc))) = Some b1"
      using assms(2) cur None c by (auto simp: change_account_balance_def split: Option.bind_splits)
    let ?x = "\<lparr>ac_original_balance = b1, ac_balance_delta = d\<rparr>"
    have "account_changes_ok c ?a ?x" if "apply_to_balance d b1 = Inr b" for b
      using acc that by (simp add: account_changes_ok_def account_current_balance_def)
    then show ?thesis
      using assms(2) cur c None acc apply_sum_Inl [OF apply_new, of d d b1] handler_off_put_account [OF assms(1) cur, of ?a ?x]
      by (cases "apply_to_balance d b1") (auto simp: change_account_balance_def split: sum.splits)
  next
    case (Some ch)
    have chok: "account_changes_ok c ?a ch" using changes_current_ok [OF assms(1) cur] Some by (blast intro: changes_ok_account)
    obtain new where new: "add_delta (ac_balance_delta ch) d = Some new"
      using assms(2) cur Some by (auto simp: change_account_balance_def split: Option.bind_splits)
    obtain b0 where b0: "apply_to_balance (ac_balance_delta ch) (ac_original_balance ch) = Inr b0"
      using chok by (auto simp: account_changes_ok_def account_current_balance_def)
    let ?x = "ch\<lparr>ac_balance_delta := new\<rparr>"
    have "account_changes_ok c ?a ?x" if "apply_to_balance new (ac_original_balance ch) = Inr b" for b
      using chok that by (simp add: account_changes_ok_def account_current_balance_def)
    then show ?thesis
      using assms(2) cur Some new delta_int_add [OF new] apply_sum_Inl [OF b0 delta_int_add [OF new]]
        handler_off_put_account [OF assms(1) cur, of ?a ?x]
      by (cases "apply_to_balance new (ac_original_balance ch)") (auto simp: change_account_balance_def split: sum.splits)
  qed
qed

section \<open>Transfers\<close>

text \<open>A transfer that does not end in an overflow leaves the sum at zero.\<close>

lemma transfer_to_account_off:
  assumes "handler_off 0 c h" "transfer_from_contract_to_account available h amount src dst = Some (res, h')"
    and "res \<noteq> Inl (TransferBalanceError Overflow)"
  shows "handler_off 0 c h'"
proof (cases "tc_accounts (ih_chain h) (account_eq dst) = None")
  case False
  then obtain r1 h1 where h1: "change_contract_balance h src (Negative amount) = Some (r1, h1)"
    using assms(2) by (auto simp: transfer_from_contract_to_account_def split: Option.bind_splits)
  note o1 = change_contract_balance_off [OF assms(1) h1]
  show ?thesis
  proof (cases r1)
    case (Inl e)
    then show ?thesis using assms False h1 o1 by (auto simp: transfer_from_contract_to_account_def)
  next
    case (Inr b)
    then obtain b2 where h2: "change_account_balance available h1 dst (Positive amount) = Some (Inr b2, h')"
      using assms(2) False h1 by (auto simp: transfer_from_contract_to_account_def split: Option.bind_splits)
    have "handler_off (0 - uint amount) c h1" using o1 Inr by simp
    from change_account_balance_off [OF this h2] show ?thesis by simp
  qed
qed (use assms in \<open>auto simp: transfer_from_contract_to_account_def\<close>)

lemma transfer_to_contract_off:
  assumes "handler_off 0 c h" "transfer_from_contract_to_contract h amount src dst = Some (res, h')"
    and "res \<noteq> Inl (TransferBalanceError Overflow)"
  shows "handler_off 0 c h'"
proof (cases "tc_contracts (ih_chain h) dst = None")
  case False
  then obtain r1 h1 where h1: "change_contract_balance h src (Negative amount) = Some (r1, h1)"
    using assms(2) by (auto simp: transfer_from_contract_to_contract_def split: Option.bind_splits)
  note o1 = change_contract_balance_off [OF assms(1) h1]
  show ?thesis
  proof (cases r1)
    case (Inl e)
    then show ?thesis using assms False h1 o1 by (auto simp: transfer_from_contract_to_contract_def)
  next
    case (Inr b)
    then obtain r2 where h2: "change_contract_balance h1 dst (Positive amount) = Some (r2, h')" "res = map_err TransferBalanceError r2"
      using assms(2) False h1 by (auto simp: transfer_from_contract_to_contract_def split: Option.bind_splits)
    have "handler_off (0 - uint amount) c h1" using o1 Inr by simp
    from change_contract_balance_off [OF this h2(1)] show ?thesis using assms(3) h2(2) by (auto simp: map_err_def split: sum.splits)
  qed
qed (use assms in \<open>auto simp: transfer_from_contract_to_contract_def\<close>)

lemma transfer_from_account_off:
  assumes "handler_off 0 c h" "transfer_from_account_to_contract available h amount src dst = Some (res, h')"
    and "res \<noteq> Inl (TransferBalanceError Overflow)"
  shows "handler_off 0 c h'"
proof (cases "tc_contracts (ih_chain h) dst = None")
  case False
  then obtain r1 h1 where h1: "change_account_balance available h src (Negative amount) = Some (r1, h1)"
    using assms(2) by (auto simp: transfer_from_account_to_contract_def split: Option.bind_splits)
  note o1 = change_account_balance_off [OF assms(1) h1]
  show ?thesis
  proof (cases r1)
    case (Inl e)
    then show ?thesis using assms False h1 o1 by (auto simp: transfer_from_account_to_contract_def)
  next
    case (Inr b)
    then obtain r2 where h2: "change_contract_balance h1 dst (Positive amount) = Some (r2, h')" "res = map_err TransferBalanceError r2"
      using assms(2) False h1 by (auto simp: transfer_from_account_to_contract_def split: Option.bind_splits)
    have "handler_off (0 - uint amount) c h1" using o1 Inr by simp
    from change_contract_balance_off [OF this h2(1)] show ?thesis using assms(3) h2(2) by (auto simp: map_err_def split: sum.splits)
  qed
qed (use assms in \<open>auto simp: transfer_from_account_to_contract_def\<close>)

section \<open>The depth of the stack of checkpoints\<close>

abbreviation depth :: "'v handler \<Rightarrow> nat" where
  "depth h \<equiv> length (ih_changeset h)"

lemma depth_put [simp]: "depth (put_contract a x cur h) = depth h" "depth (put_account b y cur h) = depth h"
  by (simp_all add: put_contract_def put_account_def changes_put_def split: list.splits)

lemma depth_change:
  "change_contract_balance h a d = Some (res, h') \<Longrightarrow> depth h' = depth h"
  "change_account_balance available h b d = Some (res, h') \<Longrightarrow> depth h' = depth h"
  by (auto simp: change_contract_balance_def change_account_balance_def split: Option.bind_splits option.splits sum.splits if_splits)

lemma depth_transfer:
  "transfer_from_contract_to_account available h amount a b = Some (res, h') \<Longrightarrow> depth h' = depth h"
  "transfer_from_contract_to_contract h amount a a' = Some (res', h') \<Longrightarrow> depth h' = depth h"
  "transfer_from_account_to_contract available h amount b a = Some (res, h') \<Longrightarrow> depth h' = depth h"
  by (auto simp: transfer_from_contract_to_account_def transfer_from_contract_to_contract_def transfer_from_account_to_contract_def
      dest!: depth_change split: Option.bind_splits sum.splits if_splits)

text \<open>The handler is in order, with more checkpoints than there are calls to return to.\<close>

definition handler_inv :: "nat \<Rightarrow> 'v chain \<Rightarrow> 'v handler \<Rightarrow> bool" where
  "handler_inv k c h \<longleftrightarrow> handler_off 0 c h \<and> k < depth h"

lemma handler_inv_simps [simp]:
  "handler_inv k c (h\<lparr>ih_remaining_energy := e\<rparr>) = handler_inv k c h"
  "handler_inv k c (h\<lparr>ih_module_load_energy := e\<rparr>) = handler_inv k c h"
  "handler_inv k c (h\<lparr>ih_next_contract_modification_index := i\<rparr>) = handler_inv k c h"
  by (simp_all add: handler_inv_def)

lemma update_energy_inv [simp]: "handler_inv k c (update_energy e h) = handler_inv k c h"
  by (simp add: update_energy_def)

lemma handler_inv_transfer:
  assumes "handler_inv k c h"
  shows "transfer_from_contract_to_account available h amount a b = Some (res, h') \<Longrightarrow> res \<noteq> Inl (TransferBalanceError Overflow) \<Longrightarrow> handler_inv k c h'"
    "transfer_from_contract_to_contract h amount a a' = Some (res, h') \<Longrightarrow> res \<noteq> Inl (TransferBalanceError Overflow) \<Longrightarrow> handler_inv k c h'"
    "transfer_from_account_to_contract available h amount b a = Some (res, h') \<Longrightarrow> res \<noteq> Inl (TransferBalanceError Overflow) \<Longrightarrow> handler_inv k c h'"
  using assms
  by (auto simp: handler_inv_def depth_transfer dest: transfer_to_account_off transfer_to_contract_off transfer_from_account_off)

text \<open>Saving a state or a module changes no balance.\<close>

lemma save_contract_inv:
  assumes "handler_inv k c h" "changes_current (ih_changeset h) = Some cur" "contract_changes_ok c a x"
    and "contract_delta x = (case map_of (ch_contracts cur) a of None \<Rightarrow> 0 | Some w \<Rightarrow> contract_delta w)"
  shows "handler_inv k c (put_contract a x cur h)"
  using assms handler_off_put_contract [of 0 c h cur a x] by (simp add: handler_inv_def)

lemma handler_inv_chain: "handler_inv k c h \<Longrightarrow> ih_chain h = c"
  by (simp add: handler_inv_def handler_off_def)

lemma handler_inv_ok: "handler_inv k c h \<Longrightarrow> changes_current (ih_changeset h) = Some cur \<Longrightarrow> changes_ok c cur"
  using changes_current_ok unfolding handler_inv_def by blast

lemma contract_changes_ok_new [simp]:
  "contract_changes_ok c a (contract_changes_new b) = (map_option co_self_balance (tc_contracts c a) = Some b)"
  by (auto simp: contract_changes_ok_def contract_current_balance_def contract_changes_new_def)

lemma contract_delta_new [simp]: "contract_delta (contract_changes_new b) = 0"
  by (simp add: contract_changes_new_def)

lemma contract_changes_ok_upd [simp]:
  "contract_changes_ok c a (x\<lparr>cc_state := s, cc_modification_index := i\<rparr>) = contract_changes_ok c a x"
  "contract_changes_ok c a (x\<lparr>cc_module := m\<rparr>) = contract_changes_ok c a x"
  by (simp_all add: contract_changes_ok_def contract_current_balance_def)

lemma save_state_changes_inv:
  assumes "handler_inv k c h" "save_state_changes h a s = Some (i, h')"
  shows "handler_inv k c h'"
proof -
  obtain cur where cur: "changes_current (ih_changeset h) = Some cur"
    using assms(2) by (auto simp: save_state_changes_def Let_def split: Option.bind_splits)
  show ?thesis
    using assms cur handler_inv_chain [OF assms(1)] changes_ok_contract [OF handler_inv_ok [OF assms(1) cur], of a]
    by (cases "map_of (ch_contracts cur) a")
      (auto simp: save_state_changes_def Let_def intro!: save_contract_inv split: Option.bind_splits)
qed

lemma save_module_upgrade_inv:
  assumes "handler_inv k c h" "save_module_upgrade h a r = Some (old, h')"
  shows "handler_inv k c h'"
proof -
  obtain cur where cur: "changes_current (ih_changeset h) = Some cur"
    using assms(2) by (auto simp: save_module_upgrade_def split: Option.bind_splits)
  show ?thesis
    using assms cur handler_inv_chain [OF assms(1)] changes_ok_contract [OF handler_inv_ok [OF assms(1) cur], of a]
    by (cases "map_of (ch_contracts cur) a")
      (auto simp: save_module_upgrade_def intro!: save_contract_inv split: Option.bind_splits)
qed

lemma checkpoint_inv: "handler_inv k c h \<Longrightarrow> handler_checkpoint h = Some h' \<Longrightarrow> handler_inv (Suc k) c h'"
  by (auto simp: handler_inv_def handler_off_def handler_checkpoint_def change_set_checkpoint_def changes_current_def)

lemma rollback_inv:
  assumes "handler_inv (Suc k) c h" "handler_rollback h = Some h'"
  shows "handler_inv k c h'"
proof -
  obtain ch rest where h: "ih_changeset h = ch # rest" "h' = h\<lparr>ih_changeset := rest\<rparr>"
    using assms(2) by (auto simp: handler_rollback_def change_set_rollback_def split: list.splits)
  then show ?thesis using assms(1) by (cases rest) (auto simp: handler_inv_def handler_off_def)
qed

lemma handler_inv_Suc: "handler_inv (Suc k) c h \<Longrightarrow> handler_inv k c h"
  by (simp add: handler_inv_def)

section \<open>Every step keeps the sum\<close>

text \<open>What holds of the value of an execution that returns one; errors and panics return none.\<close>

definition returns :: "('a \<Rightarrow> bool) \<Rightarrow> ('v, 'a) exec \<Rightarrow> bool" where
  "returns Q m \<longleftrightarrow> (\<forall>x. m = Some (Inr x) \<longrightarrow> Q x)"

lemma returns_bind: "returns Q (exec_bind m f) = returns (\<lambda>x. returns Q (f x)) m"
  by (auto simp: returns_def exec_bind_Inr)

lemma returns_simps [simp]:
  "returns Q (exec_ok x) = Q x" "returns Q (Some (Inl e))" "returns Q None" "returns Q (expect m) = (\<forall>x. m = Some x \<longrightarrow> Q x)"
  by (auto simp: returns_def)

lemma returns_mono: "returns P m \<Longrightarrow> (\<And>x. P x \<Longrightarrow> Q x) \<Longrightarrow> returns Q m"
  by (auto simp: returns_def)

lemma returns_bindI: "returns P m \<Longrightarrow> (\<And>x. P x \<Longrightarrow> returns Q (f x)) \<Longrightarrow> returns Q (exec_bind m f)"
  unfolding returns_bind by (rule returns_mono)

lemma returns_expectI: "(\<And>x. m = Some x \<Longrightarrow> returns Q (f x)) \<Longrightarrow> returns Q (exec_bind (expect m) f)"
  by (simp add: returns_bind)

fun open_call :: "'v next_action \<Rightarrow> bool" where
  "open_call (Resume _ _ None) = True"
| "open_call _ = False"

definition open_calls :: "'v next_action list \<Rightarrow> nat" where
  "open_calls stack = length (filter open_call stack)"

lemma open_calls_simps [simp]:
  "open_calls [] = 0" "open_calls (Resume d g (Some r) # s) = open_calls s" "open_calls (Resume d g None # s) = Suc (open_calls s)"
  "open_calls (Initial a p n # s) = open_calls s"
  by (simp_all add: open_calls_def)

definition machine_inv :: "'v chain \<Rightarrow> 'v machine \<Rightarrow> bool" where
  "machine_inv c m \<longleftrightarrow> handler_inv (open_calls (ma_stack m)) c (ma_handler m)"

lemma tick_energy_Inr:
  "tick_energy cost t h = Some (Inr h') \<Longrightarrow> \<exists>e. h' = h\<lparr>ih_remaining_energy := e\<rparr> \<and> uint e = uint (ih_remaining_energy h) - uint cost"
  by (auto simp: tick_energy_def dest: checked_sub_Some split: option.splits)

lemma tick_energy_inv: "handler_inv k c h \<Longrightarrow> returns (handler_inv k c) (tick_energy cost t h)"
  by (auto simp: returns_def dest!: tick_energy_Inr)

lemma tick_bind_inv:
  "handler_inv k c h \<Longrightarrow> (\<And>h. handler_inv k c h \<Longrightarrow> returns Q (f h)) \<Longrightarrow> returns Q (exec_bind (tick_energy cost t h) f)"
  by (rule returns_bindI [OF tick_energy_inv])

lemma run_interpreter_inv:
  assumes "handler_inv k c h"
  shows "returns (\<lambda>(res, s, h'). handler_inv k c h') (run_interpreter f h)"
  using assms
  by (auto simp: run_interpreter_def returns_bind [of _ "expect _"] Let_def intro!: tick_bind_inv
      split: prod.splits sum.splits receive_result.splits)

lemma charge_module_lookup_inv: "handler_inv k c h \<Longrightarrow> returns (handler_inv k c) (charge_module_lookup S m h)"
  unfolding charge_module_lookup_def by (erule tick_bind_inv) (simp add: returns_bind)

lemma initial_balance_inv:
  assumes "handler_inv k c h"
  shows "returns (\<lambda>(r, h'). handler_inv k c h') (initial_balance S sender p h)"
  using assms
  by (auto simp: initial_balance_def returns_bind split: sum.splits invoke_transfer_error.splits balance_error.splits
      address.splits option.splits dest: handler_inv_transfer)

lemma enter_inv:
  assumes "handler_inv k c h"
  shows "returns (\<lambda>(r, h'). handler_inv k c h')
    (exec_bind (charge_module_lookup S m h) (\<lambda>h. exec_bind (expect (f h)) (\<lambda>a. exec_bind (expect (g h a)) (\<lambda>s.
       exec_bind (run_interpreter (e h a s) h) (\<lambda>(res, s, h'). exec_ok (Inr (d res s a h), h'))))))"
  by (rule returns_bindI [OF charge_module_lookup_inv [OF assms]], intro returns_expectI)
    (erule returns_bindI [OF run_interpreter_inv], auto)

lemma invoke_entrypoint_initial_inv:
  assumes "handler_inv k c h"
  shows "returns (\<lambda>(r, h'). handler_inv k c h') (invoke_entrypoint_initial S i sender p n h)"
  unfolding invoke_entrypoint_initial_def Let_def
proof (rule tick_bind_inv [OF assms], rule returns_bindI [OF initial_balance_inv], assumption, goal_cases)
  case (1 h1 x)
  obtain b h2 where x: "x = (b, h2)" by (cases x)
  then have h2: "handler_inv k c h2" using 1 by simp
  show ?case unfolding x prod.case
  proof (cases b, goal_cases)
    case (2 bal)
    show ?case unfolding 2 sum.case
      by (intro returns_expectI, split option.split) (simp add: h2, intro allI impI, rule enter_inv [OF h2])
  qed (simp add: h2)
qed

text \<open>The handlers: what they push leaves the number of open calls as it is, except a call.\<close>

lemma machine_inv_push [simp]:
  "machine_inv c (push_regular e n t m) = machine_inv c m" "machine_inv c (push_debug d t m) = machine_inv c m"
  "machine_inv c (push_resume d g (Some r) m) = machine_inv c m" "machine_inv c (m\<lparr>ma_response := x\<rparr>) = machine_inv c m"
  "ma_handler (push_regular e n t m) = ma_handler m" "ma_stack (push_regular e n t m) = ma_stack m"
  by (simp_all add: machine_inv_def push_regular_def push_debug_def push_resume_def)

lemma machine_inv_handler: "machine_inv c (m\<lparr>ma_handler := h\<rparr>) = handler_inv (open_calls (ma_stack m)) c h"
  by (simp add: machine_inv_def)

lemma machine_tick_inv: "machine_inv c m \<Longrightarrow> returns (machine_inv c) (machine_tick cost t m)"
  unfolding machine_tick_def machine_inv_def by (erule tick_bind_inv) simp

lemma machine_tick_bind: "machine_inv c m \<Longrightarrow> (\<And>m. machine_inv c m \<Longrightarrow> returns Q (f m)) \<Longrightarrow> returns Q (exec_bind (machine_tick cost t m) f)"
  by (rule returns_bindI [OF machine_tick_inv])

lemma returns_any: "returns (\<lambda>_. True) m"
  by (simp add: returns_def)

lemma handle_transfer_inv:
  assumes "machine_inv c m"
  shows "returns (machine_inv c) (handle_transfer S d g t l b a m)"
  unfolding handle_transfer_def Let_def
proof (rule returns_expectI, goal_cases)
  case (1 x)
  obtain res h where x: "x = (res, h)" by (cases x)
  show ?case
  proof (cases "res = Inl (TransferBalanceError Overflow)")
    case False
    have "handler_inv (open_calls (ma_stack m)) c h"
      using assms 1 False unfolding x machine_inv_def machine_inv_push by (rule handler_inv_transfer(1))
    then show ?thesis unfolding x prod.case
      by (intro returns_bindI [OF returns_any] machine_tick_bind) (simp_all add: machine_inv_handler)
  qed (simp add: x exec_bind_def)
qed

lemma handle_call_inv:
  assumes "machine_inv c m"
  shows "returns (machine_inv c) (handle_call S d g t l a p n q m)"
  using assms
  by (auto simp: handle_call_def Let_def returns_bind split: option.split)
    (auto simp: machine_inv_def push_resume_def intro: checkpoint_inv)

lemma machine_save_inv:
  "machine_inv c m \<Longrightarrow> save_module_upgrade (ma_handler m) a r = Some (old, h) \<Longrightarrow> handler_inv (open_calls (ma_stack m)) c h"
  "machine_inv c m \<Longrightarrow> save_state_changes (ma_handler m) a s = Some (i, h) \<Longrightarrow> handler_inv (open_calls (ma_stack m)) c h"
  unfolding machine_inv_def by (rule save_module_upgrade_inv save_state_changes_inv; assumption)+

lemma upgrade_response_inv:
  assumes "machine_inv c m"
  shows "returns (\<lambda>(r, m'). machine_inv c m') (upgrade_response S d r m)"
proof -
  have "handler_inv (open_calls (ma_stack m)) c (ma_handler m)" using assms by (simp add: machine_inv_def)
  then show ?thesis using assms unfolding upgrade_response_def Let_def
    by (auto split: option.split intro!: returns_expectI machine_tick_bind simp: machine_inv_handler)
      (erule machine_save_inv(1), assumption)
qed

lemma handle_upgrade_inv: "machine_inv c m \<Longrightarrow> returns (machine_inv c) (handle_upgrade S d g t l r m)"
  unfolding handle_upgrade_def Let_def
  by (intro machine_tick_bind returns_bindI [OF upgrade_response_inv]) auto

lemma finish_query_inv [simp]: "returns (machine_inv c) (finish_query d g t r m) = machine_inv c m"
  by (simp add: finish_query_def)

lemma response_bind:
  "(\<And>r. returns Q (f r)) \<Longrightarrow> returns Q (exec_bind (success_response d v m) f)"
  "(\<And>r. returns Q (f r)) \<Longrightarrow> returns Q (exec_bind (optional_response d e v m) f)"
  by (auto intro: returns_bindI [OF returns_any])

lemma query_value_inv: "machine_inv c m \<Longrightarrow> returns (machine_inv c) (query_value d g t cost f v m)"
  unfolding query_value_def by (intro returns_bindI [OF returns_any] machine_tick_bind) simp_all

lemma check_signature_response_inv:
  "machine_inv c m \<Longrightarrow> returns (\<lambda>(r, m'). machine_inv c m') (check_signature_response S d t k p m)"
  unfolding check_signature_response_def
  by (auto intro!: returns_expectI machine_tick_bind response_bind split: option.split)

lemma query_handlers_inv:
  assumes "machine_inv c m"
  shows "returns (machine_inv c) (handle_query_account_balance S d g t b m)"
    and "returns (machine_inv c) (handle_query_contract_balance S d g t a m)"
    and "returns (machine_inv c) (handle_query_exchange_rates S d g t m)"
    and "returns (machine_inv c) (handle_query_account_keys S d g t b m)"
    and "returns (machine_inv c) (handle_query_contract_module_reference S d g t a m)"
    and "returns (machine_inv c) (handle_query_contract_name d g t a m)"
  using assms
  by (auto simp: handle_query_account_balance_def handle_query_contract_balance_def handle_query_exchange_rates_def
      handle_query_account_keys_def handle_query_contract_module_reference_def handle_query_contract_name_def Let_def
      intro!: returns_expectI query_value_inv machine_tick_bind response_bind split: option.split)

lemma handle_check_account_signature_inv:
  assumes "machine_inv c m"
  shows "returns (machine_inv c) (handle_check_account_signature S d g t b p m)"
  unfolding handle_check_account_signature_def
proof (rule machine_tick_bind [OF assms], rule returns_bindI [where P = "\<lambda>(r, m'). machine_inv c m'"], goal_cases)
  case (1 m)
  then show ?case by (simp add: check_signature_response_inv split: option.split)
qed auto

lemma handle_interrupt_inv: "machine_inv c m \<Longrightarrow> returns (machine_inv c) (handle_interrupt S d g t l i m)"
  by (cases i) (simp_all add: handle_interrupt_def handle_transfer_inv handle_call_inv handle_upgrade_inv query_handlers_inv
      handle_check_account_signature_inv)

lemma machine_inv_update [simp]: "machine_inv c (m\<lparr>ma_handler := update_energy e (ma_handler m)\<rparr>) = machine_inv c m"
  by (simp add: machine_inv_def)

lemma handle_success_inv:
  assumes "machine_inv c m"
  shows "returns (machine_inv c) (handle_success d l b v t m)"
  unfolding handle_success_def Let_def
proof (rule returns_bindI [where P = "machine_inv c"], goal_cases)
  case 1
  then show ?case using assms machine_save_inv(2) [OF assms, of "id_address d" "id_state d"]
    by (auto intro!: returns_expectI simp: machine_inv_handler)
qed (auto intro: response_bind)

lemma handle_failure_inv: "machine_inv c m \<Longrightarrow> returns (machine_inv c) (handle_failure d e k t m)"
  by (simp add: handle_failure_def Let_def machine_inv_def)

lemma handle_result_inv:
  assumes "machine_inv c m"
  shows "returns (machine_inv c) (handle_result S res d m)"
proof (cases res)
  case (ReceiveInterrupt r b l g i t)
  let ?m = "m\<lparr>ma_handler := update_energy r (ma_handler m)\<rparr>"
  have m: "machine_inv c ?m" using assms by simp
  have "returns (\<lambda>(i, h). handler_inv (open_calls (ma_stack m)) c h)
      (if b then expect (save_state_changes (ma_handler ?m) (id_address d) (id_state d))
       else exec_bind (expect (handler_modification_index (ma_handler ?m) (id_address d))) (\<lambda>i. exec_ok (i, ma_handler ?m)))"
    using machine_save_inv(2) [OF m, of "id_address d" "id_state d"] m
    by (auto intro!: returns_expectI simp: machine_inv_def)
  then show ?thesis unfolding handle_result_def ReceiveInterrupt receive_result.case Let_def
    by (rule returns_bindI) (auto intro!: handle_interrupt_inv simp: machine_inv_handler)
qed (use assms in \<open>simp_all add: handle_result_def handle_success_inv handle_failure_inv\<close>)

lemma resume_after_call_inv:
  assumes "handler_inv (Suc (open_calls (ma_stack m))) c (ma_handler m)"
  shows "returns (\<lambda>(r, b, d, m'). machine_inv c m') (resume_after_call S d m)"
proof -
  have "machine_inv c m" "handler_rollback (ma_handler m) = Some h \<Longrightarrow> machine_inv c (m\<lparr>ma_handler := h\<rparr>)" for h
    using assms by (auto simp: machine_inv_def intro: handler_inv_Suc rollback_inv)
  then show ?thesis unfolding resume_after_call_def Let_def
    by (intro returns_expectI returns_bindI [OF returns_any] returns_bindI [where P = "\<lambda>(b, d, m'). machine_inv c m'"])
      (auto simp: machine_inv_handler intro!: returns_expectI)
qed

lemma resume_receive_inv:
  assumes "machine_inv c m"
  shows "returns (machine_inv c) (resume_receive S g r b d m)"
  unfolding resume_receive_def
  by (rule returns_bindI [OF run_interpreter_inv [OF assms [unfolded machine_inv_def]]])
    (auto intro!: handle_result_inv simp: machine_inv_handler)

lemma invoke_step_inv:
  assumes "machine_inv c m"
  shows "returns (machine_inv c) (invoke_step S invoker m)"
proof (cases "ma_stack m")
  case Nil
  then show ?thesis using assms by (simp add: invoke_step_def)
next
  case (Cons a rest)
  show ?thesis
  proof (cases a)
    case (Resume d g r)
    show ?thesis
    proof (cases r)
      case None
      have "handler_inv (Suc (open_calls rest)) c (ma_handler m)" using assms Cons Resume None by (simp add: machine_inv_def)
      then show ?thesis using Cons Resume None
        by (auto simp: invoke_step_def intro!: returns_bindI [OF resume_after_call_inv] resume_receive_inv)
    next
      case (Some x)
      then show ?thesis using assms Cons Resume by (auto simp: invoke_step_def machine_inv_def intro!: resume_receive_inv)
    qed
  next
    case (Initial sender p n)
    have "handler_inv (open_calls rest) c (ma_handler m)" using assms Cons Initial by (simp add: machine_inv_def)
    from invoke_entrypoint_initial_inv [OF this]
    show ?thesis unfolding invoke_step_def Cons Initial list.case next_action.case Let_def
      by (rule returns_bindI) (auto split: sum.split intro!: handle_result_inv simp: machine_inv_def)
  qed
qed

lemma invoke_loop_inv:
  assumes "invoke_loop S invoker m = Some r" "machine_inv c m"
  shows "returns (\<lambda>m'. machine_inv c m' \<and> ma_stack m' = []) r"
  using assms(2)
proof (induction rule: invoke_loop.raw_induct [OF _ assms(1), consumes 0])
  case (1 loop S invoker m r)
  show ?case
  proof (cases "invoke_step S invoker m")
    case (Some x)
    then show ?thesis using 1 invoke_step_inv [OF 1(3), of S invoker]
      by (cases x) (auto split: if_splits simp: returns_def)
  qed (use 1 in \<open>auto split: if_splits\<close>)
qed

lemma handler_inv_new:
  assumes "ih_changeset h = change_set_new"
  shows "handler_inv 0 (ih_chain h) h"
  using assms by (simp add: handler_inv_def handler_off_def change_set_new_def changes_ok_def changes_sum_def)

lemma invoke_entrypoint_inv:
  assumes "invoke_entrypoint S invoker sender payload h = Some (Some (Inr (r, h')))" "handler_inv 0 c h"
  shows "handler_inv 0 c h'"
proof -
  obtain res where res: "invoke_loop S invoker (invoke_start sender payload h) = Some res"
    "exec_bind res (\<lambda>m. exec_bind (expect (ma_response m)) (\<lambda>r. exec_ok ((r, ma_trace m), ma_handler m))) = Some (Inr (r, h'))"
    using assms(1) by (auto simp: invoke_entrypoint_def split: Option.bind_splits)
  have "machine_inv c (invoke_start sender payload h)" using assms(2) by (simp add: machine_inv_def invoke_start_def)
  from invoke_loop_inv [OF res(1) this] res(2) show ?thesis
    by (auto simp: returns_def exec_bind_Inr machine_inv_def)
qed

end
