(* ===== verification/Testing_Energy.thy ===== *)
theory Testing_Energy
  imports Testing_Balance
begin

text \<open>
  The energy of an invocation only goes down, and the loop of \<^verbatim>\<open>invoke_entrypoint\<close> ends: a call that
  returns takes an element from the stack, and an interrupt costs energy, when the engine charges at
  least one unit for it.
\<close>

section \<open>What the engine promises\<close>

text \<open>An error of the interpreter is a trap that leaves no energy.\<close>

definition errors_trap :: "(u64 \<Rightarrow> 'v \<times> ('v receive_result + 'v receive_result)) \<Rightarrow> bool" where
  "errors_trap f \<longleftrightarrow> (\<forall>e s err. f e = (s, Inl err) \<longrightarrow> (\<exists>x t. err = ReceiveTrap x 0 t))"

text \<open>Being interrupted costs a thousand units of the interpreter, one unit of energy.\<close>

definition interrupts_charge :: "(u64 \<Rightarrow> 'v \<times> ('v receive_result + 'v receive_result)) \<Rightarrow> bool" where
  "interrupts_charge f \<longleftrightarrow> (\<forall>e s r b l g i t. f e = (s, Inr (ReceiveInterrupt r b l g i t)) \<longrightarrow> unat r + 1000 \<le> unat e)"

definition engine_traps :: "'v sdk \<Rightarrow> bool" where
  "engine_traps S \<longleftrightarrow> (\<forall>a ctx q n p s. errors_trap (sdk_invoke_receive S a ctx q n p s)) \<and>
     (\<forall>g r b s. errors_trap (sdk_resume_receive S g r b s))"

definition engine_charges :: "'v sdk \<Rightarrow> bool" where
  "engine_charges S \<longleftrightarrow> (\<forall>a ctx q n p s. interrupts_charge (sdk_invoke_receive S a ctx q n p s)) \<and>
     (\<forall>g r b s. interrupts_charge (sdk_resume_receive S g r b s))"

section \<open>Energy\<close>

abbreviation handler_energy :: "'v handler \<Rightarrow> nat" where
  "handler_energy h \<equiv> unat (ih_remaining_energy h)"

abbreviation machine_energy :: "'v machine \<Rightarrow> nat" where
  "machine_energy m \<equiv> handler_energy (ma_handler m)"

abbreviation result_energy :: "'v receive_result \<Rightarrow> nat" where
  "result_energy res \<equiv> unat (result_remaining res) div 1000"

fun is_interrupt :: "'v receive_result \<Rightarrow> bool" where
  "is_interrupt (ReceiveInterrupt _ _ _ _ _ _) = True"
| "is_interrupt _ = False"

lemma unat_div_1000: "unat (x div 1000 :: u64) = unat x div 1000"
  by (simp add: unat_div)

lemma update_energy_energy [simp]: "handler_energy (update_energy r h) = unat r div 1000"
  by (simp add: update_energy_def from_interpreter_energy_def unat_div_1000)

lemma to_interpreter_energy_Some: "to_interpreter_energy e = Some x \<Longrightarrow> unat x = unat e * 1000"
  by (auto simp: to_interpreter_energy_def unat_word_ariths split: if_splits)

lemma checked_sub_unat: "checked_sub x y = Some z \<Longrightarrow> unat z + unat y = unat x"
  by (auto simp: checked_sub_def word_le_nat_alt unat_sub split: if_splits)

lemma tick_energy_energy: "returns (\<lambda>h'. handler_energy h' + unat cost = handler_energy h) (tick_energy cost t h)"
  by (auto simp: returns_def tick_energy_def dest: checked_sub_unat split: option.splits)

lemma energy_put [simp]:
  "ih_remaining_energy (put_contract a x cur h) = ih_remaining_energy h"
  "ih_remaining_energy (put_account b y cur h) = ih_remaining_energy h"
  by (simp_all add: put_contract_def put_account_def)

lemma energy_change:
  "change_contract_balance h a d = Some (res, h') \<Longrightarrow> ih_remaining_energy h' = ih_remaining_energy h"
  "change_account_balance available h b d = Some (res, h') \<Longrightarrow> ih_remaining_energy h' = ih_remaining_energy h"
  by (auto simp: change_contract_balance_def change_account_balance_def split: Option.bind_splits option.splits sum.splits if_splits)

lemma energy_transfer:
  "transfer_from_contract_to_account available h amount a b = Some (res, h') \<Longrightarrow> ih_remaining_energy h' = ih_remaining_energy h"
  "transfer_from_contract_to_contract h amount a a' = Some (res', h') \<Longrightarrow> ih_remaining_energy h' = ih_remaining_energy h"
  "transfer_from_account_to_contract available h amount b a = Some (res, h') \<Longrightarrow> ih_remaining_energy h' = ih_remaining_energy h"
  by (auto simp: transfer_from_contract_to_account_def transfer_from_contract_to_contract_def transfer_from_account_to_contract_def
      dest!: energy_change split: Option.bind_splits sum.splits if_splits)

lemma energy_save:
  "save_state_changes h a s = Some (i, h') \<Longrightarrow> ih_remaining_energy h' = ih_remaining_energy h"
  "save_module_upgrade h a r = Some (old, h') \<Longrightarrow> ih_remaining_energy h' = ih_remaining_energy h"
  "handler_checkpoint h = Some h' \<Longrightarrow> ih_remaining_energy h' = ih_remaining_energy h"
  "handler_rollback h = Some h' \<Longrightarrow> ih_remaining_energy h' = ih_remaining_energy h"
  by (auto simp: save_state_changes_def save_module_upgrade_def handler_checkpoint_def handler_rollback_def Let_def
      split: Option.bind_splits option.splits)

lemma with_remaining_simps [simp]:
  "is_interrupt (with_remaining r res) = is_interrupt res"
  "res \<noteq> ReceiveOutOfEnergy t \<Longrightarrow> result_remaining (with_remaining r res) = (case res of ReceiveOutOfEnergy _ \<Rightarrow> 0 | _ \<Rightarrow> r)"
  by (cases res; simp)+

text \<open>A run charges what it used; what it reports as left is what is left.\<close>

lemma run_interpreter_energy:
  assumes "errors_trap f"
  shows "returns (\<lambda>(res, s, h'). handler_energy h' \<le> handler_energy h \<and> result_energy res \<le> handler_energy h' \<and>
    (interrupts_charge f \<longrightarrow> is_interrupt res \<longrightarrow> handler_energy h' < handler_energy h)) (run_interpreter f h)"
  unfolding run_interpreter_def
proof (rule returns_expectI, goal_cases)
  case (1 available)
  note av = to_interpreter_energy_Some [OF 1]
  obtain s r where f: "f available = (s, r)" by (cases "f available")
  show ?case
  proof (cases r)
    case (Inl err)
    then obtain x t where "err = ReceiveTrap x 0 t" using assms f unfolding errors_trap_def by blast
    then show ?thesis using Inl f by simp
  next
    case (Inr res)
    let ?used = "from_interpreter_energy (if result_remaining res \<le> available then available - result_remaining res else 0)"
    have charge: "1 \<le> unat ?used" if int: "interrupts_charge f" "is_interrupt res"
    proof -
      obtain q b l g i t where res: "res = ReceiveInterrupt q b l g i t" using int(2) by (cases res) auto
      then have q: "unat q + 1000 \<le> unat available" using int(1) f Inr unfolding interrupts_charge_def by blast
      then have "q \<le> available" by (simp add: word_le_nat_alt)
      then have "1000 \<le> unat (available - q)" using q by (simp add: unat_sub)
      then have "1 \<le> unat (available - q) div 1000" using div_le_mono [of 1000 "unat (available - q)" 1000] by simp
      then show ?thesis using res \<open>q \<le> available\<close> by (simp add: from_interpreter_energy_def unat_div_1000)
    qed
    show ?thesis
    proof (cases "\<exists>t. res = ReceiveOutOfEnergy t")
      case False
      have "returns (\<lambda>(res, s, h'). handler_energy h' \<le> handler_energy h \<and> result_energy res \<le> handler_energy h' \<and>
          (interrupts_charge f \<longrightarrow> is_interrupt res \<longrightarrow> handler_energy h' < handler_energy h))
        (exec_bind (tick_energy ?used t h) (\<lambda>h. exec_bind (expect (to_interpreter_energy (ih_remaining_energy h))) (\<lambda>remaining.
         exec_ok (with_remaining remaining res, s, h))))" for t
        using charge False
        by (intro returns_bindI [OF tick_energy_energy] returns_expectI)
          (auto dest!: to_interpreter_energy_Some split: receive_result.split)
      then show ?thesis using f Inr False by (cases res) (simp_all add: Let_def del: if_split cong: if_cong)
    qed (use f Inr in auto)
  qed
qed

section \<open>The handlers\<close>

abbreviation energy_le :: "nat \<Rightarrow> 'v machine \<Rightarrow> bool" where
  "energy_le e m \<equiv> machine_energy m \<le> e"

lemma energy_push [simp]:
  "ma_handler (push_debug d t m) = ma_handler m" "ma_handler (push_resume d g r m) = ma_handler m"
  by (simp_all add: push_debug_def push_resume_def)

lemma machine_tick_energy: "energy_le e m \<Longrightarrow> returns (\<lambda>m'. energy_le e m' \<and> ma_stack m' = ma_stack m) (machine_tick cost t m)"
  unfolding machine_tick_def by (rule returns_bindI [OF tick_energy_energy]) simp

lemma machine_tick_energy_bind:
  "energy_le e m \<Longrightarrow> (\<And>m. energy_le e m \<Longrightarrow> returns Q (f m)) \<Longrightarrow> returns Q (exec_bind (machine_tick cost t m) f)"
  by (erule returns_bindI [OF machine_tick_energy]) simp

lemma handle_transfer_energy: "energy_le e m \<Longrightarrow> returns (energy_le e) (handle_transfer S d g t l b a m)"
  unfolding handle_transfer_def Let_def
  by (rule returns_expectI, clarify, drule energy_transfer(1), rule returns_bindI [OF returns_any], rule machine_tick_energy_bind) auto

lemma handle_call_energy: "energy_le e m \<Longrightarrow> returns (energy_le e) (handle_call S d g t l a p n q m)"
  by (auto simp: handle_call_def Let_def split: option.split intro!: returns_expectI dest: energy_save)

lemma upgrade_response_energy: "energy_le e m \<Longrightarrow> returns (\<lambda>(r, m'). energy_le e m') (upgrade_response S d r m)"
  unfolding upgrade_response_def Let_def
  by (auto split: option.split intro!: returns_expectI machine_tick_energy_bind dest!: energy_save)

lemma handle_upgrade_energy: "energy_le e m \<Longrightarrow> returns (energy_le e) (handle_upgrade S d g t l r m)"
  unfolding handle_upgrade_def Let_def
  by (intro machine_tick_energy_bind returns_bindI [OF upgrade_response_energy]) auto

lemma finish_query_energy [simp]: "returns (energy_le e) (finish_query d g t r m) = energy_le e m"
  by (simp add: finish_query_def)

lemma query_value_energy: "energy_le e m \<Longrightarrow> returns (energy_le e) (query_value d g t cost f v m)"
  unfolding query_value_def by (intro response_bind machine_tick_energy_bind) simp_all

lemma check_signature_response_energy: "energy_le e m \<Longrightarrow> returns (\<lambda>(r, m'). energy_le e m') (check_signature_response S d t k p m)"
  unfolding check_signature_response_def
  by (auto intro!: returns_expectI machine_tick_energy_bind response_bind split: option.split)

lemma query_handlers_energy:
  assumes "energy_le e m"
  shows "returns (energy_le e) (handle_query_account_balance S d g t b m)"
    and "returns (energy_le e) (handle_query_contract_balance S d g t a m)"
    and "returns (energy_le e) (handle_query_exchange_rates S d g t m)"
    and "returns (energy_le e) (handle_query_account_keys S d g t b m)"
    and "returns (energy_le e) (handle_query_contract_module_reference S d g t a m)"
    and "returns (energy_le e) (handle_query_contract_name d g t a m)"
  using assms
  by (auto simp: handle_query_account_balance_def handle_query_contract_balance_def handle_query_exchange_rates_def
      handle_query_account_keys_def handle_query_contract_module_reference_def handle_query_contract_name_def Let_def
      intro!: returns_expectI query_value_energy machine_tick_energy_bind response_bind split: option.split)

lemma handle_check_account_signature_energy:
  assumes "energy_le e m"
  shows "returns (energy_le e) (handle_check_account_signature S d g t b p m)"
  unfolding handle_check_account_signature_def
proof (rule machine_tick_energy_bind [OF assms], rule returns_bindI [where P = "\<lambda>(r, m'). energy_le e m'"], goal_cases)
  case (1 m)
  then show ?case by (simp add: check_signature_response_energy split: option.split)
qed auto

lemma handle_interrupt_energy: "energy_le e m \<Longrightarrow> returns (energy_le e) (handle_interrupt S d g t l i m)"
  by (cases i) (simp_all add: handle_interrupt_def handle_transfer_energy handle_call_energy handle_upgrade_energy query_handlers_energy
      handle_check_account_signature_energy)

lemma handle_success_energy:
  "energy_le e m \<Longrightarrow> returns (\<lambda>m'. energy_le e m' \<and> ma_stack m' = ma_stack m) (handle_success d l b v t m)"
  unfolding handle_success_def Let_def
  by (rule returns_bindI [where P = "\<lambda>m'. energy_le e m' \<and> ma_stack m' = ma_stack m"])
    (auto intro!: returns_expectI response_bind dest!: energy_save)

lemma handle_failure_energy:
  "energy_le e m \<Longrightarrow> returns (\<lambda>m'. energy_le e m' \<and> ma_stack m' = ma_stack m) (handle_failure d x k t m)"
  by (simp add: handle_failure_def Let_def)

text \<open>After a result the energy is at most what it reports, and only an interrupt pushes on the stack.\<close>

lemma handle_result_energy:
  assumes "result_energy res \<le> e"
  shows "returns (\<lambda>m'. energy_le e m' \<and> (\<not> is_interrupt res \<longrightarrow> ma_stack m' = ma_stack m)) (handle_result S res d m)"
proof (cases res)
  case (ReceiveInterrupt r b l g i t)
  let ?m = "m\<lparr>ma_handler := update_energy r (ma_handler m)\<rparr>"
  have "returns (\<lambda>(i, h). handler_energy h \<le> e)
      (if b then expect (save_state_changes (ma_handler ?m) (id_address d) (id_state d))
       else exec_bind (expect (handler_modification_index (ma_handler ?m) (id_address d))) (\<lambda>i. exec_ok (i, ma_handler ?m)))"
    using assms ReceiveInterrupt by (auto intro!: returns_expectI dest!: energy_save)
  then show ?thesis unfolding handle_result_def ReceiveInterrupt receive_result.case Let_def
    by (rule returns_bindI) (auto intro!: handle_interrupt_energy)
next
  case (ReceiveSuccess l b v r t)
  then show ?thesis using assms handle_success_energy [of "m\<lparr>ma_handler := update_energy r (ma_handler m)\<rparr>" e]
    by (simp add: handle_result_def)
next
  case (ReceiveReject n v r t)
  then show ?thesis using assms handle_failure_energy [of "m\<lparr>ma_handler := update_energy r (ma_handler m)\<rparr>" e]
    by (simp add: handle_result_def)
next
  case (ReceiveTrap x r t)
  then show ?thesis using assms handle_failure_energy [of "m\<lparr>ma_handler := update_energy r (ma_handler m)\<rparr>" e]
    by (simp add: handle_result_def)
qed (simp add: handle_result_def)

section \<open>The loop\<close>

lemma initial_balance_energy: "returns (\<lambda>(r, h'). ih_remaining_energy h' = ih_remaining_energy h) (initial_balance S sender p h)"
  by (auto simp: initial_balance_def returns_bind split: sum.splits invoke_transfer_error.splits balance_error.splits
      address.splits option.splits dest: energy_transfer)

lemma charge_module_lookup_energy: "returns (\<lambda>h'. handler_energy h' \<le> handler_energy h) (charge_module_lookup S m h)"
  unfolding charge_module_lookup_def by (rule returns_bindI [OF tick_energy_energy]) (simp add: returns_bind)

definition initial_energy :: "nat \<Rightarrow> (invoke_response + 'v receive_result \<times> 'v invocation_data) \<times> 'v handler \<Rightarrow> bool" where
  "initial_energy e = (\<lambda>(r, h). handler_energy h < e \<and> (case r of Inl _ \<Rightarrow> True | Inr (res, _) \<Rightarrow> result_energy res < e))"

lemma enter_energy:
  assumes "handler_energy h < e" "\<And>h a s. errors_trap (f h a s)"
  shows "returns (initial_energy e)
    (exec_bind (charge_module_lookup S m h) (\<lambda>h. exec_bind (expect (k h)) (\<lambda>a. exec_bind (expect (g h a)) (\<lambda>s.
       exec_bind (run_interpreter (f h a s) h) (\<lambda>(res, s, h'). exec_ok (Inr (res, d res s a h), h'))))))"
  using assms(1)
  by (intro returns_bindI [OF charge_module_lookup_energy] returns_expectI returns_bindI [OF run_interpreter_energy [OF assms(2)]])
    (auto simp: initial_energy_def)

lemma invoke_entrypoint_initial_energy:
  assumes "engine_traps S"
  shows "returns (initial_energy (handler_energy h)) (invoke_entrypoint_initial S i sender p n h)"
  unfolding invoke_entrypoint_initial_def Let_def
proof (rule returns_bindI [OF tick_energy_energy], rule returns_bindI [OF initial_balance_energy], goal_cases)
  case (1 h1 x)
  obtain b h2 where x: "x = (b, h2)" by (cases x)
  then have h2: "handler_energy h2 < handler_energy h" using 1 by (simp add: UPDATE_CONTRACT_INSTANCE_BASE_COST_def)
  show ?case unfolding x prod.case
  proof (cases b, goal_cases)
    case (2 bal)
    show ?case unfolding 2 sum.case using h2 assms
      by (intro returns_expectI, split option.split)
        (auto simp: initial_energy_def engine_traps_def intro!: enter_energy [unfolded initial_energy_def])
  qed (simp add: h2 initial_energy_def)
qed

lemma resume_receive_energy:
  assumes "engine_traps S"
  shows "returns (\<lambda>m'. energy_le (machine_energy m) m' \<and>
    (engine_charges S \<longrightarrow> machine_energy m' < machine_energy m \<or> ma_stack m' = ma_stack m)) (resume_receive S g r b d m)"
  unfolding resume_receive_def
proof (rule returns_bindI [OF run_interpreter_energy], goal_cases)
  case 1
  then show ?case using assms by (simp add: engine_traps_def)
next
  case (2 x)
  obtain res s h where x: "x = (res, s, h)" by (cases x)
  have "engine_charges S \<Longrightarrow> is_interrupt res \<Longrightarrow> handler_energy h < machine_energy m" "handler_energy h \<le> machine_energy m"
    "result_energy res \<le> handler_energy h"
    using 2 x by (auto simp: engine_charges_def)
  then show ?case unfolding x prod.case
    by (intro returns_mono [OF handle_result_energy [of res "handler_energy h"]]) auto
qed

lemma resume_after_call_energy:
  "returns (\<lambda>(r, b, d, m'). machine_energy m' = machine_energy m \<and> ma_stack m' = ma_stack m) (resume_after_call S d m)"
  unfolding resume_after_call_def Let_def
  by (intro returns_expectI returns_bindI [OF returns_any]
      returns_bindI [where P = "\<lambda>(b, d, m'). machine_energy m' = machine_energy m \<and> ma_stack m' = ma_stack m"])
    (auto intro!: returns_expectI dest: energy_save)

lemma invoke_step_energy:
  assumes "engine_traps S" "ma_stack m \<noteq> []"
  shows "returns (\<lambda>m'. energy_le (machine_energy m) m' \<and>
    (engine_charges S \<longrightarrow> machine_energy m' < machine_energy m \<or> length (ma_stack m') < length (ma_stack m))) (invoke_step S invoker m)"
proof -
  obtain a rest where stack: "ma_stack m = a # rest" using assms(2) by (cases "ma_stack m") auto
  show ?thesis
  proof (cases a)
    case (Resume d g r)
    show ?thesis
    proof (cases r)
      case None
      then show ?thesis unfolding invoke_step_def stack Resume list.case next_action.case option.case
        by (auto intro!: returns_bindI [OF resume_after_call_energy] returns_mono [OF resume_receive_energy [OF assms(1)]])
    next
      case (Some x)
      then show ?thesis unfolding invoke_step_def stack Resume list.case next_action.case option.case
        by (auto intro!: returns_mono [OF resume_receive_energy [OF assms(1)]])
    qed
  next
    case (Initial sender p n)
    show ?thesis unfolding invoke_step_def stack Initial list.case next_action.case Let_def
    proof (rule returns_bindI [OF invoke_entrypoint_initial_energy [OF assms(1)]], goal_cases)
      case (1 x)
      obtain r h where x: "x = (r, h)" by (cases x)
      show ?case
      proof (cases r)
        case (Inr y)
        obtain res d' where "y = (res, d')" by (cases y)
        then show ?thesis using 1 x Inr
          by (auto simp: initial_energy_def intro!: returns_mono [OF handle_result_energy [of res "machine_energy m - 1"]])
      qed (use 1 x in \<open>auto simp: initial_energy_def\<close>)
    qed
  qed
qed

lemma invoke_loop_returns:
  assumes "engine_traps S" "engine_charges S"
  shows "\<exists>r. invoke_loop S invoker m = Some r"
proof (induction m rule: wf_induct_rule [OF wf_measures, of "[machine_energy, \<lambda>m. length (ma_stack m)]"])
  case (1 m)
  show ?case
  proof (cases "ma_stack m = []")
    case False
    show ?thesis
    proof (cases "invoke_step S invoker m")
      case (Some x)
      show ?thesis
      proof (cases x)
        case (Inr m')
        then have "(m', m) \<in> measures [machine_energy, \<lambda>m. length (ma_stack m)]"
          using invoke_step_energy [OF assms(1) False, of invoker] Some assms(2) by (auto simp: returns_def)
        from 1 [OF this] show ?thesis using False Some Inr by (simp add: invoke_loop.simps [of S invoker m])
      qed (use False Some in \<open>simp add: invoke_loop.simps [of S invoker m]\<close>)
    qed (use False in \<open>simp add: invoke_loop.simps [of S invoker m]\<close>)
  qed (simp add: invoke_loop.simps)
qed

lemma invoke_loop_energy:
  assumes "invoke_loop S invoker m = Some r" "engine_traps S"
  shows "returns (energy_le (machine_energy m)) r"
  using assms(2)
proof (induction rule: invoke_loop.raw_induct [OF _ assms(1), consumes 0])
  case (1 loop S invoker m r)
  show ?case
  proof (cases "invoke_step S invoker m")
    case (Some x)
    then show ?thesis using 1 invoke_step_energy [OF 1(3), of m invoker]
      by (cases x) (fastforce split: if_splits simp: returns_def)+
  qed (use 1 in \<open>auto split: if_splits\<close>)
qed

end
