(* ===== verification/Testing_Chain.thy ===== *)
theory Testing_Chain
  imports Testing_Energy
begin

text \<open>
  The chain of the testing library, \<^verbatim>\<open>contract-testing/src/impls.rs\<close>: exchange rates, deploying modules,
  creating contracts, and the transactions that call them. What the base library of the chain computes
  (costs, sizes, module references, instantiation and the run of an init function) is the record
  \<open>chain_lib\<close>, beside the \<open>sdk\<close> of the engine.
\<close>

section \<open>Exchange rates\<close>

text \<open>A rate is a numerator and a denominator. The products are big integers; \<open>None\<close> is a panic.\<close>

definition div_ceil :: "nat \<Rightarrow> nat \<Rightarrow> nat" where
  "div_ceil n d = n div d + (if n mod d = 0 then 0 else 1)"

definition energy_to_amount :: "u64 \<Rightarrow> u64 \<times> u64 \<Rightarrow> u64 \<times> u64 \<Rightarrow> amount option" where
  "energy_to_amount energy euro_per_energy micro_ccd_per_euro =
     (let numerator = unat (fst euro_per_energy) * unat (fst micro_ccd_per_euro);
          denominator = unat (snd euro_per_energy) * unat (snd micro_ccd_per_euro) in
      if denominator = 0 then None
      else
        let cost = div_ceil (numerator * unat energy) denominator in
        if cost < 2 ^ 64 then Some (of_nat cost) else None)"

text \<open>The result is whether the rates are accepted.\<close>

definition check_exchange_rates :: "u64 \<times> u64 \<Rightarrow> u64 \<times> u64 \<Rightarrow> bool option" where
  "check_exchange_rates euro_per_energy micro_ccd_per_euro =
     (let numerator = unat (fst euro_per_energy) * unat (fst micro_ccd_per_euro);
          denominator = unat (snd euro_per_energy) * unat (snd micro_ccd_per_euro) in
      if denominator = 0 then None
      else Some (numerator div denominator < 2 ^ 64 \<and> numerator div denominator \<le> (2 ^ 64 - 1) div 100000000000))"

definition calculate_energy_cost :: "chain_parameters \<Rightarrow> u64 \<Rightarrow> amount option" where
  "calculate_energy_cost p energy = energy_to_amount energy (cp_euro_per_energy p) (cp_micro_ccd_per_euro p)"

definition parameters_new_with_time_and_rates :: "u64 \<Rightarrow> u64 \<times> u64 \<Rightarrow> u64 \<times> u64 \<Rightarrow> chain_parameters option option" where
  "parameters_new_with_time_and_rates block_time micro_ccd_per_euro euro_per_energy =
     map_option (\<lambda>ok. if ok then Some \<lparr>cp_block_time = block_time, cp_micro_ccd_per_euro = micro_ccd_per_euro,
         cp_euro_per_energy = euro_per_energy\<rparr> else None)
       (check_exchange_rates euro_per_energy micro_ccd_per_euro)"

definition chain_new_with_time_and_rates :: "u64 \<Rightarrow> u64 \<times> u64 \<Rightarrow> u64 \<times> u64 \<Rightarrow> 'v chain option option" where
  "chain_new_with_time_and_rates block_time micro_ccd_per_euro euro_per_energy =
     map_option (map_option (\<lambda>p. \<lparr>tc_parameters = p, tc_accounts = Map.empty, tc_modules = Map.empty, tc_contracts = Map.empty,
         tc_next_contract_index = 0\<rparr>))
       (parameters_new_with_time_and_rates block_time micro_ccd_per_euro euro_per_energy)"

definition chain_new :: "'v chain option" where
  "chain_new = Option.bind (chain_new_with_time_and_rates 0 (50000, 1) (1, 50000)) id"

definition set_exchange_rates :: "'v chain \<Rightarrow> u64 \<times> u64 \<Rightarrow> u64 \<times> u64 \<Rightarrow> (bool \<times> 'v chain) option" where
  "set_exchange_rates c micro_ccd_per_euro euro_per_energy =
     map_option (\<lambda>ok. if ok
         then (True, c\<lparr>tc_parameters := (tc_parameters c)\<lparr>cp_micro_ccd_per_euro := micro_ccd_per_euro, cp_euro_per_energy := euro_per_energy\<rparr>\<rparr>)
         else (False, c))
       (check_exchange_rates euro_per_energy micro_ccd_per_euro)"

definition tick_block_time :: "'v chain \<Rightarrow> u64 \<Rightarrow> 'v chain option" where
  "tick_block_time c duration =
     map_option (\<lambda>t. c\<lparr>tc_parameters := (tc_parameters c)\<lparr>cp_block_time := t\<rparr>\<rparr>)
       (checked_add (cp_block_time (tc_parameters c)) duration)"

section \<open>Looking up\<close>

definition create_account :: "'v chain \<Rightarrow> 'v account \<Rightarrow> 'v account option \<times> 'v chain" where
  "create_account c account =
     (let address = account_eq (ac_address account) in
      (tc_accounts c address, c\<lparr>tc_accounts := (tc_accounts c)(address \<mapsto> account)\<rparr>))"

definition create_contract_address :: "'v chain \<Rightarrow> (contract_address \<times> 'v chain) option" where
  "create_contract_address c =
     map_option (\<lambda>i. (\<lparr>ca_index = tc_next_contract_index c, ca_subindex = 0\<rparr>, c\<lparr>tc_next_contract_index := i\<rparr>))
       (checked_add (tc_next_contract_index c) 1)"

definition chain_account :: "'v chain \<Rightarrow> account_address \<Rightarrow> 'v account option" where
  "chain_account c address = tc_accounts c (account_eq address)"

definition account_exists :: "'v chain \<Rightarrow> account_address \<Rightarrow> bool" where
  "account_exists c address \<longleftrightarrow> tc_accounts c (account_eq address) \<noteq> None"

definition contract_exists :: "'v chain \<Rightarrow> contract_address \<Rightarrow> bool" where
  "contract_exists c address \<longleftrightarrow> tc_contracts c address \<noteq> None"

definition address_exists :: "'v chain \<Rightarrow> address \<Rightarrow> bool" where
  "address_exists c address = (case address of Account a \<Rightarrow> account_exists c a | Contract a \<Rightarrow> contract_exists c a)"

definition account_balance_available :: "'v sdk \<Rightarrow> 'v chain \<Rightarrow> account_address \<Rightarrow> amount option" where
  "account_balance_available S c address = map_option (\<lambda>a. sdk_available S (ac_balance a)) (tc_accounts c (account_eq address))"

definition chain_contract_balance :: "'v chain \<Rightarrow> contract_address \<Rightarrow> amount option" where
  "chain_contract_balance c address = map_option co_self_balance (tc_contracts c address)"

text \<open>\<^verbatim>\<open>account_mut(...).balance.total -= amount\<close>.\<close>

definition charge_account :: "'v chain \<Rightarrow> account_address \<Rightarrow> amount \<Rightarrow> 'v chain option" where
  "charge_account c address amount = do {
     account \<leftarrow> chain_account c address;
     total \<leftarrow> checked_sub (ab_total (ac_balance account)) amount;
     Some (c\<lparr>tc_accounts := (tc_accounts c)(account_eq address \<mapsto> account\<lparr>ac_balance := (ac_balance account)\<lparr>ab_total := total\<rparr>\<rparr>)\<rparr>)
   }"

section \<open>The base library\<close>

record init_payload =
  ip_amount :: amount
  ip_mod_ref :: bytes
  ip_init_name :: string
  ip_param :: bytes

record init_context =
  ic_slot_time :: u64
  ic_init_origin :: account_address
  ic_sender_policies :: bytes

datatype 'v init_result =
    InitSuccess "bytes list" u64 'v 'v
  | InitReject i32 bytes u64 'v
  | InitTrap 'v u64 'v
  | InitOutOfEnergy 'v
  | InvalidReturnCode 'v 'v

datatype wasm_version = V0 | V1

record wasm_module =
  wm_version :: wasm_version
  wm_source :: bytes

record 'v chain_lib =
  cl_header_size :: u64
  cl_base_cost :: "u64 \<Rightarrow> u32 \<Rightarrow> u64"
  cl_deploy_cost :: "u64 \<Rightarrow> u64"
  cl_update_size :: "update_payload \<Rightarrow> u64"
  cl_init_size :: "init_payload \<Rightarrow> u64"
  cl_max_parameter_len :: nat
  cl_failed_tick :: "u64 \<Rightarrow> u64 \<Rightarrow> u64"
  cl_module_ref :: "wasm_module \<Rightarrow> bytes"
  cl_instantiate :: "bool \<Rightarrow> bytes \<Rightarrow> 'v + 'v \<times> u64"
  cl_invoke_init :: "'v \<Rightarrow> init_context \<Rightarrow> amount \<Rightarrow> string \<Rightarrow> bytes \<Rightarrow> u64 \<Rightarrow> 'v init_result"

text \<open>The cost of the header of a transaction; one byte is the tag of the payload.\<close>

definition check_header_cost :: "'v chain_lib \<Rightarrow> u64 \<Rightarrow> u32 \<Rightarrow> u64 option" where
  "check_header_cost L payload_size num_keys = do {
     n \<leftarrow> checked_add (cl_header_size L) 1;
     n \<leftarrow> checked_add n payload_size;
     Some (cl_base_cost L n num_keys)
   }"

section \<open>Deploying a module\<close>

datatype 'v module_deploy_error_kind =
    InvalidModule 'v | DeployInsufficientFunds | DeploySenderDoesNotExist account_address | DuplicateModule bytes
  | UnsupportedModuleVersion wasm_version

record 'v module_deploy_error =
  md_error_energy_used :: u64
  md_error_transaction_fee :: amount
  md_error_kind :: "'v module_deploy_error_kind"

record module_deploy_success =
  md_module_reference :: bytes
  md_energy_used :: u64
  md_transaction_fee :: amount

definition module_size :: "wasm_module \<Rightarrow> u64" where
  "module_size m = of_nat (length (wm_source m))"

definition deploy_energy :: "'v chain_lib \<Rightarrow> wasm_module \<Rightarrow> u32 \<Rightarrow> u64 option" where
  "deploy_energy L wasm_module num_keys = do {
     n \<leftarrow> checked_add 9 (module_size wasm_module);
     payload_size \<leftarrow> checked_add n (cl_header_size L);
     checked_add (cl_base_cost L payload_size num_keys) (cl_deploy_cost L (module_size wasm_module))
   }"

definition saturating_sub :: "u64 \<Rightarrow> u64 \<Rightarrow> u64" where
  "saturating_sub x y = (if y \<le> x then x - y else 0)"

definition module_deploy_v1_debug ::
    "'v chain_lib \<Rightarrow> 'v sdk \<Rightarrow> 'v chain \<Rightarrow> u32 \<Rightarrow> account_address \<Rightarrow> wasm_module \<Rightarrow> bool \<Rightarrow>
     (('v module_deploy_error + module_deploy_success) \<times> 'v chain) option" where
  "module_deploy_v1_debug L S c num_keys sender wasm_module enable_debug =
     (let free = (\<lambda>kind. Inl \<lparr>md_error_energy_used = 0, md_error_transaction_fee = 0, md_error_kind = kind\<rparr>) in
      case chain_account c sender of
        None \<Rightarrow> Some (free (DeploySenderDoesNotExist sender), c)
      | Some sender_account \<Rightarrow>
          if wm_version wasm_module \<noteq> V1 then Some (free (UnsupportedModuleVersion (wm_version wasm_module)), c)
          else do {
            energy_used \<leftarrow> deploy_energy L wasm_module num_keys;
            transaction_fee \<leftarrow> calculate_energy_cost (tc_parameters c) energy_used;
            if sdk_available S (ac_balance sender_account) < transaction_fee then Some (free DeployInsufficientFunds, c)
            else do {
              c \<leftarrow> charge_account c sender transaction_fee;
              let charged = (\<lambda>kind. Inl \<lparr>md_error_energy_used = energy_used, md_error_transaction_fee = transaction_fee, md_error_kind = kind\<rparr>);
              case cl_instantiate L enable_debug (wm_source wasm_module) of
                Inl err \<Rightarrow> Some (charged (InvalidModule err), c)
              | Inr (artifact, custom_sections_size) \<Rightarrow>
                  let module_reference = cl_module_ref L wasm_module in
                  if tc_modules c module_reference \<noteq> None then Some (charged (DuplicateModule module_reference), c)
                  else Some (Inr \<lparr>md_module_reference = module_reference, md_energy_used = energy_used, md_transaction_fee = transaction_fee\<rparr>,
                    c\<lparr>tc_modules := (tc_modules c)(module_reference \<mapsto>
                        \<lparr>cm_size = saturating_sub (module_size wasm_module) custom_sections_size, cm_artifact = artifact\<rparr>)\<rparr>)
            }
          })"

definition module_deploy_v1 ::
    "'v chain_lib \<Rightarrow> 'v sdk \<Rightarrow> 'v chain \<Rightarrow> u32 \<Rightarrow> account_address \<Rightarrow> wasm_module \<Rightarrow>
     (('v module_deploy_error + module_deploy_success) \<times> 'v chain) option" where
  "module_deploy_v1 L S c num_keys sender wasm_module = module_deploy_v1_debug L S c num_keys sender wasm_module False"

section \<open>Creating a contract\<close>

datatype 'v init_execution_error = InitErrorReject i32 bytes | InitErrorTrap 'v | InitErrorOutOfEnergy

datatype 'v contract_init_error_kind =
    InitExecutionError "'v init_execution_error" 'v
  | InitKindOutOfEnergy 'v
  | InitModuleDoesNotExist bytes
  | ContractNotPresentInModule string
  | InitSenderDoesNotExist account_address
  | InitInsufficientFunds
  | InitAmountTooLarge
  | InitParameterTooLarge

record 'v contract_init_error =
  ie_energy_used :: u64
  ie_transaction_fee :: amount
  ie_kind :: "'v contract_init_error_kind"

record 'v contract_init_success =
  is_contract_address :: contract_address
  is_events :: "bytes list"
  is_energy_used :: u64
  is_transaction_fee :: amount
  is_debug_trace :: 'v

text \<open>
  The worker: a value or an error, with the energy left and the chain, both of which an early return
  keeps as they are at that point; \<open>None\<close> is a panic.
\<close>

type_synonym ('v, 'a) init_worker = "((('v contract_init_error_kind + 'a) \<times> u64 \<times> 'v chain)) option"

definition init_tick ::
    "'v chain_lib \<Rightarrow> u64 \<Rightarrow> 'v \<Rightarrow> u64 \<Rightarrow> 'v chain \<Rightarrow> (u64 \<Rightarrow> ('v, 'a) init_worker) \<Rightarrow> ('v, 'a) init_worker" where
  "init_tick L cost trace remaining c k =
     (case checked_sub remaining cost of
        Some rest \<Rightarrow> k rest
      | None \<Rightarrow> Some (Inl (InitKindOutOfEnergy trace), cl_failed_tick L remaining cost, c))"

text \<open>What the interpreter used, rounded down when it is converted.\<close>

definition init_used :: "u64 \<Rightarrow> u64 \<Rightarrow> u64" where
  "init_used given remaining_interpreter = from_interpreter_energy (saturating_sub given remaining_interpreter)"

definition init_success ::
    "'v chain_lib \<Rightarrow> 'v sdk \<Rightarrow> account_address \<Rightarrow> u64 \<Rightarrow> init_payload \<Rightarrow> u64 \<Rightarrow> bytes list \<Rightarrow> u64 \<Rightarrow> 'v \<Rightarrow> 'v \<Rightarrow> u64 \<Rightarrow> 'v chain \<Rightarrow>
     ('v, 'v contract_init_success) init_worker" where
  "init_success L S sender energy_reserved payload given logs remaining_interpreter state trace remaining c = do {
     (contract_address, c) \<leftarrow> create_contract_address c;
     let (persisted_state, size) = sdk_freeze S state;
     init_tick L (init_used given remaining_interpreter) trace remaining c (\<lambda>remaining.
     init_tick L size trace remaining c (\<lambda>remaining.
     init_tick L INITIALIZE_CONTRACT_INSTANCE_CREATE_COST trace remaining c (\<lambda>remaining. do {
       let contract = \<lparr>co_address = contract_address, co_module_reference = ip_mod_ref payload, co_contract_name = ip_init_name payload,
         co_state = persisted_state, co_owner = sender, co_self_balance = ip_amount payload\<rparr>;
       c \<leftarrow> charge_account (c\<lparr>tc_contracts := (tc_contracts c)(contract_address \<mapsto> contract)\<rparr>) sender (ip_amount payload);
       energy_used \<leftarrow> checked_sub energy_reserved remaining;
       transaction_fee \<leftarrow> calculate_energy_cost (tc_parameters c) energy_used;
       Some (Inr \<lparr>is_contract_address = contract_address, is_events = logs, is_energy_used = energy_used,
         is_transaction_fee = transaction_fee, is_debug_trace = trace\<rparr>, remaining, c)
     })))
   }"

definition init_handle_result ::
    "'v chain_lib \<Rightarrow> 'v sdk \<Rightarrow> account_address \<Rightarrow> u64 \<Rightarrow> init_payload \<Rightarrow> u64 \<Rightarrow> 'v init_result \<Rightarrow> u64 \<Rightarrow> 'v chain \<Rightarrow>
     ('v, 'v contract_init_success) init_worker" where
  "init_handle_result L S sender energy_reserved payload given res remaining c =
     (case res of
        InitSuccess logs remaining_interpreter state trace \<Rightarrow>
          init_success L S sender energy_reserved payload given logs remaining_interpreter state trace remaining c
      | InitReject reason return_value remaining_interpreter trace \<Rightarrow>
          init_tick L (init_used given remaining_interpreter) trace remaining c (\<lambda>remaining.
            Some (Inl (InitExecutionError (InitErrorReject reason return_value) trace), remaining, c))
      | InitTrap error remaining_interpreter trace \<Rightarrow>
          init_tick L (init_used given remaining_interpreter) trace remaining c (\<lambda>remaining.
            Some (Inl (InitExecutionError (InitErrorTrap error) trace), remaining, c))
      | InitOutOfEnergy trace \<Rightarrow> Some (Inl (InitExecutionError InitErrorOutOfEnergy trace), 0, c)
      | InvalidReturnCode error trace \<Rightarrow> Some (Inl (InitExecutionError (InitErrorTrap error) trace), remaining, c))"

definition contract_init_worker ::
    "'v chain_lib \<Rightarrow> 'v sdk \<Rightarrow> 'v chain \<Rightarrow> u32 \<Rightarrow> account_address \<Rightarrow> u64 \<Rightarrow> init_payload \<Rightarrow> u64 \<Rightarrow> ('v, 'v contract_init_success) init_worker" where
  "contract_init_worker L S c num_keys sender energy_reserved payload remaining =
     (case chain_account c sender of
        None \<Rightarrow> Some (Inl (InitSenderDoesNotExist sender), remaining, c)
      | Some account_info \<Rightarrow> do {
          energy_reserved_cost \<leftarrow> calculate_energy_cost (tc_parameters c) energy_reserved;
          if sdk_available S (ac_balance account_info) < energy_reserved_cost then Some (Inl InitInsufficientFunds, remaining, c)
          else do {
            check_header_cost \<leftarrow> check_header_cost L (cl_init_size L payload) num_keys;
            init_tick L check_header_cost (sdk_empty_trace S) remaining c (\<lambda>remaining.
            if length (ip_param payload) > cl_max_parameter_len L then Some (Inl InitParameterTooLarge, remaining, c)
            else init_tick L INITIALIZE_CONTRACT_INSTANCE_BASE_COST (sdk_empty_trace S) remaining c (\<lambda>remaining. do {
              needed \<leftarrow> checked_add energy_reserved_cost (ip_amount payload);
              if sdk_available S (ac_balance account_info) < needed then Some (Inl InitAmountTooLarge, remaining, c)
              else case tc_modules c (ip_mod_ref payload) of
                None \<Rightarrow> Some (Inl (InitModuleDoesNotExist (ip_mod_ref payload)), remaining, c)
              | Some m \<Rightarrow>
                  init_tick L (lookup_module_cost m) (sdk_empty_trace S) remaining c (\<lambda>remaining.
                  if \<not> sdk_exports S (cm_artifact m) (ip_init_name payload)
                  then Some (Inl (ContractNotPresentInModule (ip_init_name payload)), remaining, c)
                  else do {
                    given \<leftarrow> to_interpreter_energy remaining;
                    let init_ctx = \<lparr>ic_slot_time = cp_block_time (tc_parameters c), ic_init_origin = sender,
                      ic_sender_policies = ac_policy account_info\<rparr>;
                    let res = cl_invoke_init L (cm_artifact m) init_ctx (ip_amount payload) (ip_init_name payload) (ip_param payload) given;
                    init_handle_result L S sender energy_reserved payload given res remaining c
                  })
            }))
          }
        })"

definition convert_to_init_error ::
    "'v chain \<Rightarrow> 'v contract_init_error_kind \<Rightarrow> u64 \<Rightarrow> u64 \<Rightarrow> 'v contract_init_error option" where
  "convert_to_init_error c kind energy_reserved remaining = do {
     energy_used \<leftarrow> checked_sub energy_reserved remaining;
     transaction_fee \<leftarrow> calculate_energy_cost (tc_parameters c) energy_used;
     Some \<lparr>ie_energy_used = energy_used, ie_transaction_fee = transaction_fee, ie_kind = kind\<rparr>
   }"

definition contract_init ::
    "'v chain_lib \<Rightarrow> 'v sdk \<Rightarrow> 'v chain \<Rightarrow> u32 \<Rightarrow> account_address \<Rightarrow> u64 \<Rightarrow> init_payload \<Rightarrow>
     (('v contract_init_error + 'v contract_init_success) \<times> 'v chain) option" where
  "contract_init L S c num_keys sender energy_reserved payload =
     (if \<not> account_exists c sender then
        map_option (\<lambda>e. (Inl e, c)) (convert_to_init_error c (InitSenderDoesNotExist sender) energy_reserved energy_reserved)
      else do {
        (res, remaining, c) \<leftarrow> contract_init_worker L S c num_keys sender energy_reserved payload energy_reserved;
        (res, transaction_fee) \<leftarrow> (case res of
            Inr s \<Rightarrow> Some (Inr s, is_transaction_fee s)
          | Inl kind \<Rightarrow> map_option (\<lambda>e. (Inl e, ie_transaction_fee e)) (convert_to_init_error c kind energy_reserved remaining));
        c \<leftarrow> charge_account c sender transaction_fee;
        Some (res, c)
      })"

section \<open>Calling a contract\<close>

datatype 'v contract_invoke_error_kind =
    InvokeExecutionError invoke_failure
  | InvokeOutOfEnergy 'v
  | InvokeBalanceOverflow
  | InvokeModuleDoesNotExist bytes
  | InvokeContractDoesNotExist contract_address
  | InvokeEntrypointDoesNotExist string
  | InvokerDoesNotExist account_address
  | InvokeSenderDoesNotExist address
  | InvokeInsufficientFunds
  | InvokeAmountTooLarge
  | InvokeParameterTooLarge

record 'v contract_invoke_error =
  ce_energy_used :: u64
  ce_transaction_fee :: amount
  ce_trace_elements :: "'v debug_trace_element list"
  ce_module_load_energy :: u64
  ce_kind :: "'v contract_invoke_error_kind"

record 'v contract_invoke_success =
  cs_trace_elements :: "'v debug_trace_element list"
  cs_energy_used :: u64
  cs_storage_energy :: u64
  cs_module_load_energy :: u64
  cs_transaction_fee :: amount
  cs_return_value :: bytes
  cs_state_changed :: bool
  cs_new_balance :: amount

definition convert_to_invoke_error ::
    "'v chain \<Rightarrow> 'v contract_invoke_error_kind \<Rightarrow> 'v debug_trace_element list \<Rightarrow> u64 \<Rightarrow> u64 \<Rightarrow> u64 \<Rightarrow> 'v contract_invoke_error option" where
  "convert_to_invoke_error c kind trace_elements energy_reserved remaining module_load_energy = do {
     let remaining = (case kind of InvokeOutOfEnergy _ \<Rightarrow> 0 | _ \<Rightarrow> remaining);
     energy_used \<leftarrow> checked_sub energy_reserved remaining;
     transaction_fee \<leftarrow> calculate_energy_cost (tc_parameters c) energy_used;
     Some \<lparr>ce_energy_used = energy_used, ce_transaction_fee = transaction_fee, ce_trace_elements = trace_elements,
       ce_module_load_energy = module_load_energy, ce_kind = kind\<rparr>
   }"

definition invocation_out_of_energy_error :: "'v chain \<Rightarrow> u64 \<Rightarrow> 'v \<Rightarrow> u64 \<Rightarrow> 'v contract_invoke_error option" where
  "invocation_out_of_energy_error c energy_reserved trace module_load_energy =
     convert_to_invoke_error c (InvokeOutOfEnergy trace) [] energy_reserved 0 module_load_energy"

text \<open>The kind of an error of the handler, and the energy it leaves in the variable of the caller.\<close>

fun invoke_error_kind :: "'v config_error \<Rightarrow> 'v contract_invoke_error_kind" where
  "invoke_error_kind (OutOfEnergy trace) = InvokeOutOfEnergy trace"
| "invoke_error_kind (BalanceOverflow _) = InvokeBalanceOverflow"

fun config_error_left :: "'v config_error \<Rightarrow> u64" where
  "config_error_left (OutOfEnergy _) = 0"
| "config_error_left (BalanceOverflow left) = left"

definition handler_new :: "'v chain \<Rightarrow> account_address \<Rightarrow> u64 \<Rightarrow> amount \<Rightarrow> u64 \<Rightarrow> 'v handler" where
  "handler_new c invoker energy_reserved amount_reserved remaining =
     \<lparr>ih_reserved_amount = amount_reserved, ih_invoker = invoker, ih_changeset = change_set_new, ih_remaining_energy = remaining,
      ih_module_load_energy = 0, ih_energy_reserved = energy_reserved, ih_chain = c, ih_next_contract_modification_index = 1\<rparr>"

text \<open>
  The worker returns the response, the changes, the trace, the energy of loading modules and the energy
  left. The outer \<open>None\<close> is a run that does not end, the inner one a panic. On an error the energy of
  loading modules is the one read before the run, zero.
\<close>

type_synonym 'v worker_result = "'v contract_invoke_error + invoke_response \<times> 'v change_set \<times> 'v debug_trace_element list \<times> u64 \<times> u64"

definition contract_invocation_worker ::
    "'v chain_lib \<Rightarrow> 'v sdk \<Rightarrow> 'v chain \<Rightarrow> account_address \<Rightarrow> address \<Rightarrow> u64 \<Rightarrow> amount \<Rightarrow> update_payload \<Rightarrow> u64 \<Rightarrow>
     'v worker_result option option" where
  "contract_invocation_worker L S c invoker sender energy_reserved amount_reserved payload remaining =
     (let fail = (\<lambda>kind left. map_option Inl (convert_to_invoke_error c kind [] energy_reserved left 0)) in
      if \<not> contract_exists c (up_payload_address payload) then Some (fail (InvokeContractDoesNotExist (up_payload_address payload)) remaining)
      else if length (up_payload_message payload) > cl_max_parameter_len L then Some (fail InvokeParameterTooLarge remaining)
      else case (chain_account c invoker, checked_add amount_reserved (up_payload_amount payload)) of
        (Some account, Some needed) \<Rightarrow>
          if sdk_available S (ac_balance account) < needed then Some (fail InvokeAmountTooLarge remaining)
          else do {
            res \<leftarrow> invoke_entrypoint S invoker sender payload (handler_new c invoker energy_reserved amount_reserved remaining);
            Some (do {
              res \<leftarrow> res;
              case res of
                Inr ((result, trace_elements), h) \<Rightarrow>
                  Some (Inr (result, ih_changeset h, trace_elements, ih_module_load_energy h, ih_remaining_energy h))
              | Inl err \<Rightarrow> fail (invoke_error_kind err) (config_error_left err)
            })
          }
      | _ \<Rightarrow> Some None)"

definition contract_invocation_process_response ::
    "'v chain \<Rightarrow> invoke_response \<Rightarrow> 'v debug_trace_element list \<Rightarrow> u64 \<Rightarrow> u64 \<Rightarrow> u64 \<Rightarrow> bool \<Rightarrow> u64 \<Rightarrow>
     ('v contract_invoke_error + 'v contract_invoke_success) option" where
  "contract_invocation_process_response c result trace_elements energy_reserved remaining state_energy state_changed module_load_energy =
     (case result of
        RespSuccess new_balance data \<Rightarrow> do {
          energy_used \<leftarrow> checked_sub energy_reserved remaining;
          transaction_fee \<leftarrow> calculate_energy_cost (tc_parameters c) energy_used;
          Some (Inr \<lparr>cs_trace_elements = trace_elements, cs_energy_used = energy_used, cs_storage_energy = state_energy,
            cs_module_load_energy = module_load_energy, cs_transaction_fee = transaction_fee,
            cs_return_value = (case data of Some bs \<Rightarrow> bs | None \<Rightarrow> []), cs_state_changed = state_changed, cs_new_balance = new_balance\<rparr>)
        }
      | RespFailure kind \<Rightarrow>
          map_option Inl (convert_to_invoke_error c (InvokeExecutionError kind) trace_elements energy_reserved remaining module_load_energy))"

definition free_error :: "'v contract_invoke_error_kind \<Rightarrow> 'v contract_invoke_error" where
  "free_error kind = \<lparr>ce_energy_used = 0, ce_transaction_fee = 0, ce_trace_elements = [], ce_module_load_energy = 0, ce_kind = kind\<rparr>"

fun transaction_fee :: "'v contract_invoke_error + 'v contract_invoke_success \<Rightarrow> amount" where
  "transaction_fee (Inl e) = ce_transaction_fee e"
| "transaction_fee (Inr s) = cs_transaction_fee s"

text \<open>
  What follows the worker in an update. Running out of energy when the changes are saved returns
  at once; otherwise the invoker is charged.
\<close>

definition update_finish ::
    "'v sdk \<Rightarrow> 'v chain \<Rightarrow> account_address \<Rightarrow> u64 \<Rightarrow> contract_address \<Rightarrow> 'v worker_result \<Rightarrow>
     (('v contract_invoke_error + 'v contract_invoke_success) \<times> 'v chain) option" where
  "update_finish S c invoker energy_reserved contract_address res =
     (let charge = (\<lambda>res c. map_option (\<lambda>c. (res, c)) (charge_account c invoker (transaction_fee res))) in
      case res of
        Inl e \<Rightarrow> charge (Inl e) c
      | Inr (result, changeset, trace_elements, module_load_energy, remaining) \<Rightarrow>
          if is_success result then do {
            persisted \<leftarrow> persist (sdk_freeze S) changeset remaining contract_address c;
            case persisted of
              Inl _ \<Rightarrow> map_option (\<lambda>e. (Inl e, c)) (invocation_out_of_energy_error c energy_reserved (sdk_empty_trace S) module_load_energy)
            | Inr (state_changed, left, c) \<Rightarrow> do {
                res \<leftarrow> contract_invocation_process_response c result trace_elements energy_reserved left (remaining - left) state_changed
                  module_load_energy;
                charge res c
              }
          } else do {
            res \<leftarrow> contract_invocation_process_response c result trace_elements energy_reserved remaining 0 False module_load_energy;
            charge res c
          })"

definition contract_update ::
    "'v chain_lib \<Rightarrow> 'v sdk \<Rightarrow> 'v chain \<Rightarrow> u32 \<Rightarrow> account_address \<Rightarrow> address \<Rightarrow> u64 \<Rightarrow> update_payload \<Rightarrow>
     (('v contract_invoke_error + 'v contract_invoke_success) \<times> 'v chain) option option" where
  "contract_update L S c num_keys invoker sender energy_reserved payload =
     (if \<not> address_exists c sender then Some (Some (Inl (free_error (InvokeSenderDoesNotExist sender)), c))
      else case chain_account c invoker of
        None \<Rightarrow> Some (Some (Inl (free_error (InvokerDoesNotExist invoker)), c))
      | Some account_info \<Rightarrow>
          case check_header_cost L (cl_update_size L payload) num_keys of
            None \<Rightarrow> Some None
          | Some header_cost \<Rightarrow>
              case checked_sub energy_reserved header_cost of
                None \<Rightarrow> Some (Some (Inl (free_error (InvokeOutOfEnergy (sdk_empty_trace S))), c))
              | Some remaining \<Rightarrow>
                  case calculate_energy_cost (tc_parameters c) energy_reserved of
                    None \<Rightarrow> Some None
                  | Some reserved \<Rightarrow>
                      if sdk_available S (ac_balance account_info) < reserved
                      then Some (map_option (\<lambda>fee. (Inl \<lparr>ce_energy_used = energy_reserved - remaining, ce_transaction_fee = fee,
                          ce_trace_elements = [], ce_module_load_energy = 0, ce_kind = InvokeInsufficientFunds\<rparr>, c))
                        (calculate_energy_cost (tc_parameters c) (energy_reserved - remaining)))
                      else map_option (\<lambda>res. Option.bind res (update_finish S c invoker energy_reserved (up_payload_address payload)))
                        (contract_invocation_worker L S c invoker sender energy_reserved reserved payload remaining))"

definition invoke_finish ::
    "'v sdk \<Rightarrow> 'v chain \<Rightarrow> u64 \<Rightarrow> contract_address \<Rightarrow> 'v worker_result \<Rightarrow> ('v contract_invoke_error + 'v contract_invoke_success) option" where
  "invoke_finish S c energy_reserved contract_address res =
     (case res of
        Inl e \<Rightarrow> Some (Inl e)
      | Inr (result, changeset, trace_elements, module_load_energy, remaining) \<Rightarrow>
          if is_success result then do {
            collected \<leftarrow> collect_energy_for_state (sdk_freeze S) changeset remaining contract_address;
            case collected of
              Inl _ \<Rightarrow> map_option Inl (invocation_out_of_energy_error c energy_reserved (sdk_empty_trace S) module_load_energy)
            | Inr (state_changed, left) \<Rightarrow>
                contract_invocation_process_response c result trace_elements energy_reserved left (remaining - left) state_changed
                  module_load_energy
          } else contract_invocation_process_response c result trace_elements energy_reserved remaining 0 False module_load_energy)"

definition contract_invoke ::
    "'v chain_lib \<Rightarrow> 'v sdk \<Rightarrow> 'v chain \<Rightarrow> account_address \<Rightarrow> address \<Rightarrow> u64 \<Rightarrow> update_payload \<Rightarrow>
     ('v contract_invoke_error + 'v contract_invoke_success) option option" where
  "contract_invoke L S c invoker sender energy_reserved payload =
     (if \<not> address_exists c sender then Some (Some (Inl (free_error (InvokeSenderDoesNotExist sender))))
      else case chain_account c invoker of
        None \<Rightarrow> Some (Some (Inl (free_error (InvokerDoesNotExist invoker))))
      | Some account_info \<Rightarrow>
          case calculate_energy_cost (tc_parameters c) energy_reserved of
            None \<Rightarrow> Some None
          | Some reserved \<Rightarrow>
              if sdk_available S (ac_balance account_info) < reserved
              then Some (map_option (\<lambda>fee. Inl ((free_error InvokeInsufficientFunds)\<lparr>ce_transaction_fee := fee\<rparr>))
                (calculate_energy_cost (tc_parameters c) 0))
              else map_option (\<lambda>res. Option.bind res (invoke_finish S c energy_reserved (up_payload_address payload)))
                (contract_invocation_worker L S c invoker sender energy_reserved reserved payload energy_reserved))"

section \<open>Reading the results\<close>

text \<open>The trace elements that were not rolled back, and what is read from them.\<close>

definition effective_trace_elements :: "'v contract_invoke_success \<Rightarrow> contract_trace_element list" where
  "effective_trace_elements s =
     List.map_filter (\<lambda>cte. case cte of RegularElement _ element _ _ \<Rightarrow> Some element | _ \<Rightarrow> None) (cs_trace_elements s)"

definition invoke_events :: "'v contract_invoke_success \<Rightarrow> (contract_address \<times> bytes list) list" where
  "invoke_events s = List.map_filter (\<lambda>cte. case cte of
       Updated address _ _ _ _ events \<Rightarrow> Some (address, events)
     | Interrupted address events \<Rightarrow> Some (address, events)
     | _ \<Rightarrow> None) (effective_trace_elements s)"

definition account_transfers :: "'v contract_invoke_success \<Rightarrow> (contract_address \<times> amount \<times> account_address) list" where
  "account_transfers s = List.map_filter (\<lambda>cte. case cte of
       Transferred src amount dst \<Rightarrow> Some (src, amount, dst)
     | _ \<Rightarrow> None) (effective_trace_elements s)"

definition rollbacks_occurred :: "'v contract_invoke_success \<Rightarrow> bool" where
  "rollbacks_occurred s \<longleftrightarrow> list_ex (\<lambda>cte. case cte of WithFailures _ _ _ _ _ _ \<Rightarrow> True | _ \<Rightarrow> False) (cs_trace_elements s)"

definition invoke_error_return_value :: "'v contract_invoke_error \<Rightarrow> bytes option" where
  "invoke_error_return_value e = (case ce_kind e of InvokeExecutionError (ContractReject _ data) \<Rightarrow> Some data | _ \<Rightarrow> None)"

definition invoke_error_reject_code :: "'v contract_invoke_error \<Rightarrow> i32 option" where
  "invoke_error_reject_code e = (case ce_kind e of InvokeExecutionError (ContractReject code _) \<Rightarrow> Some code | _ \<Rightarrow> None)"

definition signer_with_keys :: "u32 \<Rightarrow> u32 option" where
  "signer_with_keys num_keys = (if num_keys = 0 then None else Some num_keys)"

end
