(* ===== verification/Testing_Conservation.thy ===== *)
theory Testing_Conservation
  imports Testing_Chain
begin

text \<open>
  A transaction keeps the amount of CCD on the chain, up to the fee of the invoker: saving the changes
  of an invocation adds their sum, zero, to the balances.
\<close>

section \<open>The amount of CCD on the chain\<close>

definition map_total :: "('b \<Rightarrow> int) \<Rightarrow> ('a \<rightharpoonup> 'b) \<Rightarrow> int" where
  "map_total f m = (\<Sum>a \<in> dom m. f (the (m a)))"

lemma map_total_upd:
  assumes "finite (dom m)" "m a = Some x"
  shows "map_total f (m(a \<mapsto> y)) = map_total f m - f x + f y"
proof -
  have a: "a \<in> dom m" "insert a (dom m) = dom m" using assms(2) by auto
  have "(\<Sum>b \<in> dom m - {a}. f (the ((m(a \<mapsto> y)) b))) = (\<Sum>b \<in> dom m - {a}. f (the (m b)))"
    by (rule sum.cong) auto
  then show ?thesis
    using assms a sum.remove [OF assms(1) a(1), of "\<lambda>b. f (the ((m(a \<mapsto> y)) b))"] sum.remove [OF assms(1) a(1), of "\<lambda>b. f (the (m b))"]
    by (simp add: map_total_def)
qed

lemma map_total_insert:
  assumes "finite (dom m)" "m a = None"
  shows "map_total f (m(a \<mapsto> y)) = map_total f m + f y"
proof -
  have "(\<Sum>b \<in> dom m. f (the ((m(a \<mapsto> y)) b))) = (\<Sum>b \<in> dom m. f (the (m b)))" using assms(2) by (intro sum.cong) auto
  then show ?thesis using assms by (simp add: map_total_def domIff)
qed

abbreviation contract_ccd :: "'v contract \<Rightarrow> int" where
  "contract_ccd con \<equiv> uint (co_self_balance con)"

abbreviation account_ccd :: "'v account \<Rightarrow> int" where
  "account_ccd acc \<equiv> uint (ab_total (ac_balance acc))"

definition chain_total :: "'v chain \<Rightarrow> int" where
  "chain_total c = map_total contract_ccd (tc_contracts c) + map_total account_ccd (tc_accounts c)"

definition chain_finite :: "'v chain \<Rightarrow> bool" where
  "chain_finite c \<longleftrightarrow> finite (dom (tc_contracts c)) \<and> finite (dom (tc_accounts c))"

section \<open>Saving the changes\<close>

lemma persist_contract_balance:
  assumes "persist_contract freeze ch con = Some con'" "cc_self_balance_original ch = co_self_balance con"
  shows "contract_ccd con' = contract_ccd con + contract_delta ch"
  using assms
  by (auto simp: persist_contract_def Let_def contract_current_balance_def delta_is_zero_int
      dest!: delta_int_apply split: Option.bind_splits if_splits option.splits)

lemma persist_account_balance: "persist_account ch acc = Some acc' \<Longrightarrow> account_ccd acc' = account_ccd acc + account_delta ch"
  by (auto simp: persist_account_def delta_is_zero_int dest!: delta_int_apply split: if_splits)

lemma persist_contracts_total:
  assumes "persist_contracts freeze xs m = Some m'" "finite (dom m)" "distinct (map fst xs)"
    and "\<And>a x con. (a, x) \<in> set xs \<Longrightarrow> m a = Some con \<Longrightarrow> cc_self_balance_original x = co_self_balance con"
  shows "map_total contract_ccd m' = map_total contract_ccd m + alist_sum contract_delta xs \<and> dom m' = dom m"
  using assms
proof (induction xs arbitrary: m)
  case (Cons p rest)
  obtain a ch where p: "p = (a, ch)" by (cases p)
  obtain con con' where con: "m a = Some con" "persist_contract freeze ch con = Some con'"
    "persist_contracts freeze rest (m(a \<mapsto> con')) = Some m'"
    using Cons.prems(1) p by (auto split: Option.bind_splits)
  have d: "dom (m(a \<mapsto> con')) = dom m" using con(1) by auto
  then have fin: "finite (dom (m(a \<mapsto> con')))" using Cons.prems(2) by (simp only:)
  have b: "contract_ccd con' = contract_ccd con + contract_delta ch"
    using persist_contract_balance [OF con(2)] Cons.prems(4) [of a ch con] con(1) p by simp
  have "map_total contract_ccd m' = map_total contract_ccd (m(a \<mapsto> con')) + alist_sum contract_delta rest \<and> dom m' = dom (m(a \<mapsto> con'))"
  proof (rule Cons.IH [OF con(3) fin])
    fix a' x con'' assume "(a', x) \<in> set rest" "(m(a \<mapsto> con')) a' = Some con''"
    then show "cc_self_balance_original x = co_self_balance con''"
      using Cons.prems(3,4) p by (auto split: if_splits dest: image_eqI [where f = fst, rotated])
  qed (use Cons.prems(3) in simp)
  then show ?case using map_total_upd [OF Cons.prems(2) con(1)] b d p by simp
qed simp

lemma persist_accounts_total:
  assumes "persist_accounts xs m = Some m'" "finite (dom m)"
  shows "map_total account_ccd m' = map_total account_ccd m + alist_sum account_delta xs \<and> dom m' = dom m"
  using assms
proof (induction xs arbitrary: m)
  case (Cons p rest)
  obtain a ch where p: "p = (a, ch)" by (cases p)
  obtain acc acc' where acc: "m a = Some acc" "persist_account ch acc = Some acc'" "persist_accounts rest (m(a \<mapsto> acc')) = Some m'"
    using Cons.prems(1) p by (auto split: Option.bind_splits)
  have d: "dom (m(a \<mapsto> acc')) = dom m" using acc(1) by auto
  then have fin: "finite (dom (m(a \<mapsto> acc')))" using Cons.prems(2) by (simp only:)
  from d show ?case
    using Cons.IH [OF acc(3) fin] map_total_upd [OF Cons.prems(2) acc(1), of account_ccd acc'] persist_account_balance [OF acc(2)] p
    by (simp del: fun_upd_apply)
qed simp

lemma persist_total:
  assumes "persist freeze stack e a c = Some (Inr (b, e', c'))" "stack \<noteq> []" "changes_ok c (hd stack)" "chain_finite c"
  shows "chain_total c' = chain_total c + changes_sum (hd stack) \<and> tc_parameters c' = tc_parameters c \<and>
    dom (tc_contracts c') = dom (tc_contracts c) \<and> dom (tc_accounts c') = dom (tc_accounts c) \<and> e' \<le> e"
proof -
  obtain contracts accounts where
    p: "persist_contracts freeze (ch_contracts (hd stack)) (tc_contracts c) = Some contracts"
      "persist_accounts (ch_accounts (hd stack)) (tc_accounts c) = Some accounts"
      "c' = c\<lparr>tc_contracts := contracts, tc_accounts := accounts\<rparr>" "checked_sub e (collect_state_energy freeze (hd stack)) = Some e'"
    using assms(1,2) by (auto simp: persist_def changes_current_def split: Option.bind_splits list.splits option.splits)
  have "cc_self_balance_original x = co_self_balance con"
    if "(a, x) \<in> set (ch_contracts (hd stack))" "tc_contracts c a = Some con" for a x con
    using that assms(3) by (auto simp: changes_ok_def contract_changes_ok_def)
  with persist_contracts_total [OF p(1)] persist_accounts_total [OF p(2)] assms(3,4) checked_sub_unat [OF p(4)] p(3)
  show ?thesis by (simp add: chain_total_def changes_sum_def chain_finite_def changes_ok_def word_le_nat_alt)
qed

section \<open>Calls\<close>

lemma charge_account_total:
  assumes "charge_account c a x = Some c'" "chain_finite c"
  shows "chain_total c' = chain_total c - uint x \<and> tc_contracts c' = tc_contracts c \<and> tc_modules c' = tc_modules c \<and>
    tc_parameters c' = tc_parameters c \<and> tc_next_contract_index c' = tc_next_contract_index c \<and> chain_finite c'"
proof -
  obtain acc t where acc: "tc_accounts c (account_eq a) = Some acc" "checked_sub (ab_total (ac_balance acc)) x = Some t"
    "c' = c\<lparr>tc_accounts := (tc_accounts c)(account_eq a \<mapsto> acc\<lparr>ac_balance := (ac_balance acc)\<lparr>ab_total := t\<rparr>\<rparr>)\<rparr>"
    using assms(1) by (auto simp: charge_account_def chain_account_def split: Option.bind_splits)
  then show ?thesis
    using assms(2) map_total_upd [where m = "tc_accounts c" and f = account_ccd, OF _ acc(1)] checked_sub_Some [OF acc(2)] by (simp add: chain_finite_def chain_total_def)
qed

lemma worker_changes:
  assumes "contract_invocation_worker L S c invoker sender e q payload r = Some (Some (Inr (result, stack, trace, load, left)))"
  shows "\<exists>h. invoke_entrypoint S invoker sender payload (handler_new c invoker e q r) = Some (Some (Inr ((result, trace), h))) \<and>
    stack = ih_changeset h \<and> load = ih_module_load_energy h \<and> left = ih_remaining_energy h"
  using assms
  by (auto simp: contract_invocation_worker_def Let_def convert_to_invoke_error_def
      split: if_splits option.splits sum.splits prod.splits Option.bind_splits)

lemma worker_stack:
  assumes "contract_invocation_worker L S c invoker sender e q payload r = Some (Some (Inr (result, stack, trace, load, left)))"
  shows "stack \<noteq> [] \<and> changes_ok c (hd stack) \<and> changes_sum (hd stack) = 0"
proof -
  obtain h where h: "invoke_entrypoint S invoker sender payload (handler_new c invoker e q r) = Some (Some (Inr ((result, trace), h)))"
    "stack = ih_changeset h" using worker_changes [OF assms] by blast
  have "handler_inv 0 c (handler_new c invoker e q r)"
    using handler_inv_new [of "handler_new c invoker e q r"] by (simp add: handler_new_def)
  from invoke_entrypoint_inv [OF h(1) this] show ?thesis using h(2) by (auto simp: handler_inv_def handler_off_def)
qed

lemma process_response_cases:
  assumes "contract_invocation_process_response c result t e r s b l = Some res"
  shows "is_success result \<longleftrightarrow> (\<exists>x. res = Inr x)"
  using assms by (cases result) (auto simp: contract_invocation_process_response_def split: Option.bind_splits)

text \<open>An update that reaches the worker.\<close>

lemma contract_update_cases:
  assumes "contract_update L S c n invoker sender e payload = Some (Some (res, c'))"
  shows "(\<exists>err. res = Inl err \<and> c' = c) \<or>
    (\<exists>q r w. contract_invocation_worker L S c invoker sender e q payload r = Some (Some w) \<and>
       update_finish S c invoker e (up_payload_address payload) w = Some (res, c'))"
  using assms
  by (auto simp: contract_update_def split: if_splits option.splits Option.bind_splits)

lemma update_finish_success:
  assumes "update_finish S c invoker e a w = Some (Inr s, c')"
  obtains result stack trace load left b left' c1 where "w = Inr (result, stack, trace, load, left)"
    "persist (sdk_freeze S) stack left a c = Some (Inr (b, left', c1))" "charge_account c1 invoker (cs_transaction_fee s) = Some c'"
  using assms
  by (auto simp: update_finish_def Let_def dest: process_response_cases split: sum.splits prod.splits if_splits Option.bind_splits)

lemma update_finish_error:
  assumes "update_finish S c invoker e a w = Some (Inl err, c')"
  shows "c' = c \<or> charge_account c invoker (ce_transaction_fee err) = Some c'"
  using assms
  by (auto simp: update_finish_def Let_def dest: process_response_cases split: sum.splits prod.splits if_splits Option.bind_splits)

section \<open>Creating contracts\<close>

text \<open>Contracts are stored at their addresses, whose indices have been given out.\<close>

definition chain_ok :: "'v chain \<Rightarrow> bool" where
  "chain_ok c \<longleftrightarrow> chain_finite c \<and>
     (\<forall>a con. tc_contracts c a = Some con \<longrightarrow> co_address con = a \<and> ca_index a < tc_next_contract_index c)"

lemma charge_account_ok: "charge_account c a x = Some c' \<Longrightarrow> chain_ok c \<Longrightarrow> chain_ok c'"
  using charge_account_total [of c a x c'] by (auto simp: chain_ok_def)

lemma create_contract_address_spec:
  assumes "create_contract_address c = Some (a, c')" "chain_ok c"
  shows "tc_contracts c a = None \<and> ca_index a < tc_next_contract_index c' \<and> chain_ok c' \<and> chain_total c' = chain_total c \<and>
    tc_contracts c' = tc_contracts c \<and> tc_parameters c' = tc_parameters c"
proof -
  have a: "a = \<lparr>ca_index = tc_next_contract_index c, ca_subindex = 0\<rparr>" "c' = c\<lparr>tc_next_contract_index := tc_next_contract_index c + 1\<rparr>"
    "unat (tc_next_contract_index c) + 1 < 2 ^ 64"
    using assms(1) by (auto simp: create_contract_address_def checked_add_def split: if_splits)
  have lt: "tc_next_contract_index c < tc_next_contract_index c + 1"
    using a(3) by (simp add: word_less_nat_alt unat_word_ariths)
  have "tc_contracts c a = None" using assms(2) a(1) by (cases "tc_contracts c a") (fastforce simp: chain_ok_def)+
  then show ?thesis using assms(2) a lt by (auto simp: chain_ok_def chain_finite_def chain_total_def intro: less_trans)
qed

lemma chain_ok_insert:
  assumes "chain_ok c" "tc_contracts c a = None" "co_address con = a" "ca_index a < tc_next_contract_index c"
  shows "chain_ok (c\<lparr>tc_contracts := (tc_contracts c)(a \<mapsto> con)\<rparr>) \<and>
    chain_total (c\<lparr>tc_contracts := (tc_contracts c)(a \<mapsto> con)\<rparr>) = chain_total c + contract_ccd con"
  using assms map_total_insert [where m = "tc_contracts c" and a = a and f = contract_ccd and y = con]
  by (auto simp: chain_ok_def chain_finite_def chain_total_def)

text \<open>What a worker keeps, whether it returns a value or an error.\<close>

definition init_keeps :: "int \<Rightarrow> ('v, 'a) init_worker \<Rightarrow> bool" where
  "init_keeps t w \<longleftrightarrow> (\<forall>res r c'. w = Some (res, r, c') \<longrightarrow> chain_ok c' \<and> chain_total c' = t)"

lemma init_keeps_simps [simp]:
  "init_keeps t None" "init_keeps t (Some (res, r, c)) = (chain_ok c \<and> chain_total c = t)"
  by (auto simp: init_keeps_def)

lemma init_keeps_bind: "(\<And>x. m = Some x \<Longrightarrow> init_keeps t (f x)) \<Longrightarrow> init_keeps t (Option.bind m f)"
  by (cases m) simp_all

lemma init_tick_keeps:
  "chain_ok c \<Longrightarrow> chain_total c = t \<Longrightarrow> (\<And>r. init_keeps t (k r)) \<Longrightarrow> init_keeps t (init_tick L cost tr rem c k)"
  by (simp add: init_tick_def split: option.split)

lemma init_success_keeps:
  assumes "chain_ok c"
  shows "init_keeps (chain_total c) (init_success L S sender e payload given logs ri state trace rem c)"
  unfolding init_success_def
proof (rule init_keeps_bind, goal_cases)
  case (1 x)
  obtain a c1 where x: "x = (a, c1)" by (cases x)
  note c1 = create_contract_address_spec [OF 1 [unfolded x] assms]
  obtain s n where f: "sdk_freeze S state = (s, n)" by (cases "sdk_freeze S state")
  let ?con = "\<lparr>co_address = a, co_module_reference = ip_mod_ref payload, co_contract_name = ip_init_name payload,
    co_state = s, co_owner = sender, co_self_balance = ip_amount payload\<rparr>"
  have ins: "chain_ok (c1\<lparr>tc_contracts := (tc_contracts c1)(a \<mapsto> ?con)\<rparr>) \<and>
      chain_total (c1\<lparr>tc_contracts := (tc_contracts c1)(a \<mapsto> ?con)\<rparr>) = chain_total c1 + uint (ip_amount payload)"
    using chain_ok_insert [of c1 a ?con] c1 by simp
  show ?case unfolding x prod.case f Let_def
  proof (intro init_tick_keeps init_keeps_bind, goal_cases)
    case (7 r1 r2 r3 c2 used fee)
    have "chain_finite (c1\<lparr>tc_contracts := (tc_contracts c1)(a \<mapsto> ?con)\<rparr>)" using ins unfolding chain_ok_def by blast
    then have "chain_total c2 = chain_total c" using charge_account_total [OF 7(1)] ins c1 by linarith
    then show ?case using charge_account_ok [OF 7(1)] ins unfolding init_keeps_simps by blast
  qed (use c1 in blast)+
qed

lemma init_handle_result_keeps:
  "chain_ok c \<Longrightarrow> init_keeps (chain_total c) (init_handle_result L S sender e payload given res rem c)"
  by (cases res) (auto simp: init_handle_result_def init_success_keeps intro!: init_tick_keeps)

lemma contract_init_worker_keeps:
  assumes "chain_ok c"
  shows "init_keeps (chain_total c) (contract_init_worker L S c n sender e payload rem)"
  using assms unfolding contract_init_worker_def Let_def
  by (auto simp: init_handle_result_keeps intro!: init_tick_keeps init_keeps_bind split: option.split)

lemma persist_contracts_address:
  assumes "persist_contracts freeze xs m = Some m'" "m' a = Some con'"
  shows "\<exists>con. m a = Some con \<and> co_address con' = co_address con"
  using assms
proof (induction freeze xs m rule: persist_contracts.induct)
  case (2 freeze b ch rest m)
  obtain con con2 where c: "m b = Some con" "persist_contract freeze ch con = Some con2" "persist_contracts freeze rest (m(b \<mapsto> con2)) = Some m'"
    using "2.prems"(1) by (auto split: Option.bind_splits)
  have "co_address con2 = co_address con" using c(2)
    by (auto simp: persist_contract_def Let_def split: Option.bind_splits if_splits option.splits)
  then show ?case using "2.IH" [OF c(1) c(2) c(3) "2.prems"(2)] c(1) by (auto split: if_splits)
qed simp

lemma persist_keeps_ok:
  assumes "persist freeze stack e a c = Some (Inr (b, e', c'))" "stack \<noteq> []" "changes_ok c (hd stack)" "chain_ok c"
  shows "chain_ok c' \<and> chain_total c' = chain_total c + changes_sum (hd stack)"
proof -
  have fin: "chain_finite c" using assms(4) by (simp add: chain_ok_def)
  obtain contracts accounts where p: "persist_contracts freeze (ch_contracts (hd stack)) (tc_contracts c) = Some contracts"
    "c' = c\<lparr>tc_contracts := contracts, tc_accounts := accounts\<rparr>"
    using assms(1,2) by (auto simp: persist_def changes_current_def split: Option.bind_splits list.splits option.splits)
  have "co_address con' = a' \<and> ca_index a' < tc_next_contract_index c" if "contracts a' = Some con'" for a' con'
    using persist_contracts_address [OF p(1) that] assms(4) by (auto simp: chain_ok_def)
  then show ?thesis using persist_total [OF assms(1-3) fin] fin p(2) by (simp add: chain_ok_def chain_finite_def)
qed

end
