(* ===== verification/Testing_Script.thy ===== *)
theory Testing_Script
  imports Testing_Conservation
begin

text \<open>
  An engine whose contracts follow a script, and a small chain, on which the testing library can be
  run: the contract with artifact \<open>n\<close> starts at line \<open>10 * n\<close> of the script, every line costs one unit
  of energy, and a resumed contract goes on with the next line. A state is a number, which a line that
  changes the state increases.
\<close>

datatype script_line = Finish bool | Fail i32 | Ask bool interrupt

definition run_script :: "(nat \<Rightarrow> script_line) \<Rightarrow> nat \<Rightarrow> nat \<Rightarrow> u64 \<Rightarrow> nat \<times> (nat receive_result + nat receive_result)" where
  "run_script script line state energy =
     (if energy < 1000 then (state, Inr (ReceiveOutOfEnergy 0))
      else case script line of
        Finish changed \<Rightarrow> (if changed then Suc state else state, Inr (ReceiveSuccess [] changed [] (energy - 1000) 0))
      | Fail reason \<Rightarrow> (state, Inr (ReceiveReject reason [] (energy - 1000) 0))
      | Ask changed intr \<Rightarrow> (if changed then Suc state else state, Inr (ReceiveInterrupt (energy - 1000) changed [] line intr 0)))"

definition script_sdk :: "(nat \<Rightarrow> script_line) \<Rightarrow> nat sdk" where
  "script_sdk script = \<lparr>
     sdk_available = (\<lambda>b. ab_total b - max (ab_staked b) (ab_locked b)),
     sdk_has_entrypoint = (\<lambda>_ _. True), sdk_exports = (\<lambda>_ _. True),
     sdk_thaw = (\<lambda>s. s), sdk_freeze = (\<lambda>s. (s, 8)),
     sdk_invoke_receive = (\<lambda>artifact _ _ _ _ state. run_script script (10 * artifact) state),
     sdk_resume_receive = (\<lambda>line _ _ state. run_script script (Suc line) state),
     sdk_empty_trace = 0, sdk_to_bytes = (\<lambda>_. []), sdk_verify_data_signature = (\<lambda>_ _ _. True), sdk_num_keys = (\<lambda>_. 1),
     sdk_simple_transfer_cost = 300\<rparr>"

definition script_lib :: "nat chain_lib" where
  "script_lib = \<lparr>cl_header_size = 60, cl_base_cost = (\<lambda>size keys. size + 100 * ucast keys), cl_deploy_cost = (\<lambda>size. size div 10),
     cl_update_size = (\<lambda>u. of_nat (length (up_payload_message u)) + 50), cl_init_size = (\<lambda>i. of_nat (length (ip_param i)) + 50),
     cl_max_parameter_len = 65535, cl_failed_tick = (\<lambda>_ _. 0), cl_module_ref = wm_source,
     cl_instantiate = (\<lambda>_ source. Inr (unat (hd source), 0)),
     cl_invoke_init = (\<lambda>artifact _ _ _ _ energy. InitSuccess [] energy 0 0)\<rparr>"

lemma script_engine: "engine_traps (script_sdk script)" "engine_charges (script_sdk script)"
proof -
  have "errors_trap (run_script script line state)" for line state
    by (auto simp: errors_trap_def run_script_def split: if_splits script_line.splits)
  then show "engine_traps (script_sdk script)" by (simp add: engine_traps_def script_sdk_def)
  have "interrupts_charge (run_script script line state)" for line state
    by (auto simp: interrupts_charge_def run_script_def not_less word_le_nat_alt unat_sub split: if_splits script_line.splits)
  then show "engine_charges (script_sdk script)" by (simp add: engine_charges_def script_sdk_def)
qed

section \<open>A chain with three contracts\<close>

definition sample_account :: account_address where
  "sample_account = replicate 32 7"

definition sample_address :: "nat \<Rightarrow> contract_address" where
  "sample_address n = \<lparr>ca_index = of_nat n, ca_subindex = 0\<rparr>"

definition sample_contract :: "nat \<Rightarrow> nat contract" where
  "sample_contract n = \<lparr>co_address = sample_address n, co_module_reference = [of_nat n], co_contract_name = ''init_c'', co_state = 0,
     co_owner = sample_account, co_self_balance = 100\<rparr>"

definition sample_chain :: "nat chain" where
  "sample_chain = \<lparr>
     tc_parameters = \<lparr>cp_block_time = 0, cp_micro_ccd_per_euro = (50000, 1), cp_euro_per_energy = (1, 50000)\<rparr>,
     tc_accounts = [account_eq sample_account \<mapsto> \<lparr>ac_address = sample_account,
       ac_balance = \<lparr>ab_total = 1000000, ab_staked = 0, ab_locked = 0\<rparr>, ac_policy = [], ac_keys = 0\<rparr>],
     tc_modules = [[0] \<mapsto> \<lparr>cm_size = 1000, cm_artifact = 0\<rparr>, [1] \<mapsto> \<lparr>cm_size = 1000, cm_artifact = 1\<rparr>, [2] \<mapsto> \<lparr>cm_size = 1000, cm_artifact = 2\<rparr>],
     tc_contracts = [sample_address 0 \<mapsto> sample_contract 0, sample_address 1 \<mapsto> sample_contract 1, sample_address 2 \<mapsto> sample_contract 2],
     tc_next_contract_index = 3\<rparr>"

definition sample_payload :: "nat \<Rightarrow> amount \<Rightarrow> update_payload" where
  "sample_payload n amount = \<lparr>up_payload_amount = amount, up_payload_address = sample_address n,
     up_payload_receive_name = \<lparr>rn_contract = ''c'', rn_entrypoint = ''f''\<rparr>, up_payload_message = []\<rparr>"

text \<open>
  Contract 0 sends 30 to contract 1 and ends whatever the answer; contract 1 changes its state, calls
  contract 2, which succeeds, and then rejects.
\<close>

fun sample_script :: "nat \<Rightarrow> script_line" where
  "sample_script line =
     (if line = 0 then Ask False (CallInterrupt (sample_address 1) [] ''f'' 30)
      else if line = 10 then Ask True (CallInterrupt (sample_address 2) [] ''f'' 0)
      else if line = 11 then Fail 5
      else Finish False)"

definition sample_update :: "((nat contract_invoke_error + nat contract_invoke_success) \<times> nat chain) option option" where
  "sample_update = contract_update script_lib (script_sdk sample_script) sample_chain 1 sample_account (Account sample_account) 10000
     (sample_payload 0 0)"

section \<open>Running it\<close>

lemma script_sdk_simps [simp]:
  "sdk_available (script_sdk p) b = ab_total b - max (ab_staked b) (ab_locked b)" "sdk_has_entrypoint (script_sdk p) a n" "sdk_exports (script_sdk p) a n"
  "sdk_thaw (script_sdk p) s = s" "sdk_freeze (script_sdk p) s = (s, 8)"
  "sdk_invoke_receive (script_sdk p) a ctx q n m s = run_script p (10 * a) s" "sdk_resume_receive (script_sdk p) l r ch s = run_script p (Suc l) s"
  "sdk_empty_trace (script_sdk p) = 0"
  by (simp_all add: script_sdk_def)

lemma sample_chain_simps [simp]:
  "tc_parameters sample_chain = \<lparr>cp_block_time = 0, cp_micro_ccd_per_euro = (50000, 1), cp_euro_per_energy = (1, 50000)\<rparr>"
  "tc_accounts sample_chain (replicate 29 7) = Some \<lparr>ac_address = sample_account,
     ac_balance = \<lparr>ab_total = 1000000, ab_staked = 0, ab_locked = 0\<rparr>, ac_policy = [], ac_keys = 0\<rparr>"
  "account_eq sample_account = replicate 29 7"
  "tc_modules sample_chain [0] = Some \<lparr>cm_size = 1000, cm_artifact = 0\<rparr>" "tc_modules sample_chain [1] = Some \<lparr>cm_size = 1000, cm_artifact = 1\<rparr>"
  "tc_modules sample_chain [2] = Some \<lparr>cm_size = 1000, cm_artifact = 2\<rparr>"
  "tc_contracts sample_chain \<lparr>ca_index = 0, ca_subindex = 0\<rparr> = Some (sample_contract 0)"
  "tc_contracts sample_chain \<lparr>ca_index = 1, ca_subindex = 0\<rparr> = Some (sample_contract 1)"
  "tc_contracts sample_chain \<lparr>ca_index = 2, ca_subindex = 0\<rparr> = Some (sample_contract 2)"
  by (simp_all add: sample_chain_def account_eq_def sample_account_def sample_address_def)

lemmas arith_defs = checked_add_def checked_sub_def calculate_energy_cost_def energy_to_amount_def div_ceil_def Let_def

lemmas step_defs = invoke_step_def exec_bind_def exec_ok_def expect_def invoke_entrypoint_initial_def initial_balance_def
  handler_contract_balance_def changes_current_def tick_energy_def UPDATE_CONTRACT_INSTANCE_BASE_COST_def handler_contract_module_def
  resolve_entrypoint_def charge_module_lookup_def lookup_module_cost_def handler_contract_state_def run_interpreter_def
  to_interpreter_energy_def run_script_def from_interpreter_energy_def handle_result_def update_energy_def
  handler_modification_index_def handle_interrupt_def handle_call_def push_regular_def handler_contract_name_def
  handler_checkpoint_def change_set_checkpoint_def push_resume_def construct_receive_name_def energy_used_def
  transfer_from_contract_to_contract_def change_contract_balance_def put_contract_def changes_put_def contract_changes_new_def
  map_err_def save_state_changes_def contract_current_balance_def result_ok_def delta_new_def
  handle_success_def handle_failure_def success_response_def contract_balance_unchecked_def resume_after_call_def resume_receive_def
  handler_rollback_def change_set_rollback_def sample_contract_def sample_address_def

text \<open>The whole transaction: six steps of the loop, then the changes are saved and the invoker is charged.\<close>

lemma sample_update_run:
  "\<exists>s. sample_update = Some (Some (Inr s, sample_chain\<lparr>
       tc_contracts := (tc_contracts sample_chain)(
         sample_address 0 \<mapsto> (sample_contract 0)\<lparr>co_self_balance := 70\<rparr>,
         sample_address 1 \<mapsto> (sample_contract 1)\<lparr>co_self_balance := 130, co_state := 1\<rparr>),
       tc_accounts := (tc_accounts sample_chain)(account_eq sample_account \<mapsto> \<lparr>ac_address = sample_account,
         ac_balance = \<lparr>ab_total = 998870, ab_staked = 0, ab_locked = 0\<rparr>, ac_policy = [], ac_keys = 0\<rparr>)\<rparr>)) \<and>
     RegularElement ''f'' (Resumed (sample_address 0) False) 1121 0 \<in> set (cs_trace_elements s) \<and> rollbacks_occurred s"
  by (simp add: sample_update_def contract_update_def address_exists_def account_exists_def chain_account_def check_header_cost_def
      arith_defs contract_invocation_worker_def contract_exists_def script_lib_def sample_payload_def sample_address_def
      invoke_entrypoint_def invoke_start_def handler_new_def change_set_new_def)
    ((subst invoke_loop.simps, simp add: step_defs arith_defs)+, simp add: update_finish_def arith_defs persist_def changes_current_def
      collect_state_energy_def persist_contract_def contract_current_balance_def result_ok_def sample_contract_def sample_address_def
      contract_invocation_process_response_def charge_account_def chain_account_def rollbacks_occurred_def)
end
