(* ===== verification/Testing_Properties.thy ===== *)
theory Testing_Properties
  imports Testing_Script
begin

text \<open>
  The properties of the testing library: the CCD on the chain over all its transactions, the end of
  every call, the price of energy, and what a failed transaction leaves behind.
\<close>

section \<open>Energy has a price\<close>

lemma div_ceil_bounds:
  assumes "0 < d"
  shows "p \<le> div_ceil p d * d \<and> div_ceil p d * d < p + d"
proof -
  have p: "p = p div d * d + p mod d" by simp
  have r: "p mod d < d" using assms by simp
  show ?thesis
  proof (cases "p mod d = 0")
    case True
    then have "div_ceil p d * d = p" using p by (simp add: div_ceil_def)
    then show ?thesis using assms by linarith
  next
    case False
    then have "div_ceil p d * d = p div d * d + d" by (simp add: div_ceil_def algebra_simps)
    then show ?thesis using p r False by linarith
  qed
qed

lemma div_ceil_le:
  assumes "0 < d" "p \<le> n * d"
  shows "div_ceil p d \<le> n"
proof (rule ccontr)
  assume "\<not> div_ceil p d \<le> n"
  then have "Suc n * d \<le> div_ceil p d * d" by (intro mult_le_mono1) simp
  also have "\<dots> < p + d" using div_ceil_bounds [OF assms(1)] by blast
  finally show False using assms(2) by simp
qed

lemma unat_of_nat_64: "n < 2 ^ 64 \<Longrightarrow> unat (of_nat n :: u64) = n"
  by (simp add: unat_of_nat take_bit_nat_eq_self)

text \<open>The energy whose price is in range for all accepted rates: 99 999 999 857 units.\<close>

definition max_priced_energy :: nat where
  "max_priced_energy = (2 ^ 64 - 1) div ((2 ^ 64 - 1) div 100000000000 + 1)"

text \<open>
  With accepted exchange rates the price of at most 99 999 999 857 units of energy is computed
  without an overflow, and it is the least amount that is not below the exact price.
\<close>

lemma energy_price_spec:
  assumes "check_exchange_rates (en, ed) (mn, md) = Some True" "unat energy \<le> max_priced_energy"
  shows "\<exists>cost. energy_to_amount energy (en, ed) (mn, md) = Some cost \<and>
    unat en * unat mn * unat energy \<le> unat cost * (unat ed * unat md) \<and>
    unat cost * (unat ed * unat md) < unat en * unat mn * unat energy + unat ed * unat md"
proof -
  define n where "n = unat en * unat mn"
  define d where "d = unat ed * unat md"
  have d: "0 < d" and nd: "n div d \<le> (2 ^ 64 - 1) div 100000000000"
    using assms(1) by (simp_all add: check_exchange_rates_def Let_def n_def d_def split: if_splits)
  have "n < (n div d + 1) * d" using dividend_less_times_div [OF d, of n] by (simp add: algebra_simps)
  moreover have "(n div d + 1) * d \<le> ((2 ^ 64 - 1) div 100000000000 + 1) * d" using nd by (intro mult_le_mono1 add_right_mono)
  ultimately have "n \<le> ((2 ^ 64 - 1) div 100000000000 + 1) * d" by (rule less_imp_le [OF less_le_trans])
  then have "n * unat energy \<le> ((2 ^ 64 - 1) div 100000000000 + 1) * d * max_priced_energy" using assms(2) by (rule mult_le_mono)
  also have "\<dots> = ((2 ^ 64 - 1) div 100000000000 + 1) * max_priced_energy * d" by simp
  also have "\<dots> \<le> (2 ^ 64 - 1) * d" by (rule mult_le_mono1) (simp add: max_priced_energy_def)
  finally have "div_ceil (n * unat energy) d < 2 ^ 64" using div_ceil_le [OF d, of "n * unat energy" "2 ^ 64 - 1"] by simp
  then show ?thesis using d div_ceil_bounds [OF d, of "n * unat energy"]
    by (simp add: energy_to_amount_def Let_def n_def [symmetric] d_def [symmetric] unat_of_nat_64)
qed

lemma energy_price_spec_sample:
  "\<exists>cost. energy_to_amount 1000 (1, 50000) (50000, 1) = Some cost \<and> 50000 * 1000 \<le> unat cost * 50000 \<and> unat cost * 50000 < 50000 * 1000 + 50000"
  using energy_price_spec [of 1 50000 50000 1 1000]
  by (simp add: check_exchange_rates_def max_priced_energy_def)

section \<open>All transactions\<close>

fun init_fee :: "'v contract_init_error + 'v contract_init_success \<Rightarrow> amount" where
  "init_fee (Inl e) = ie_transaction_fee e"
| "init_fee (Inr s) = is_transaction_fee s"

fun deploy_fee :: "'v module_deploy_error + module_deploy_success \<Rightarrow> amount" where
  "deploy_fee (Inl e) = md_error_transaction_fee e"
| "deploy_fee (Inr s) = md_transaction_fee s"

definition account_ccd_option :: "'v account option \<Rightarrow> int" where
  "account_ccd_option a = (case a of None \<Rightarrow> 0 | Some acc \<Rightarrow> account_ccd acc)"

text \<open>
  What the operations of the chain do to its state, with the CCD they bring in: the balance of a new
  account, less the one it replaces, and the fees with a minus sign. An update that fails either
  leaves the chain as it is or is charged.
\<close>

inductive chain_step :: "'v chain_lib \<Rightarrow> 'v sdk \<Rightarrow> 'v chain \<Rightarrow> int \<Rightarrow> 'v chain \<Rightarrow> bool" for L S where
  step_account: "create_account c acc = (old, c') \<Longrightarrow> chain_step L S c (account_ccd acc - account_ccd_option old) c'"
| step_rates: "set_exchange_rates c m e = Some (ok, c') \<Longrightarrow> chain_step L S c 0 c'"
| step_time: "tick_block_time c d = Some c' \<Longrightarrow> chain_step L S c 0 c'"
| step_deploy: "module_deploy_v1_debug L S c n a w b = Some (dres, c') \<Longrightarrow> chain_step L S c (- uint (deploy_fee dres)) c'"
| step_init: "contract_init L S c n a e p = Some (ires, c') \<Longrightarrow> chain_step L S c (- uint (init_fee ires)) c'"
| step_update: "contract_update L S c n a s e u = Some (Some (res, c')) \<Longrightarrow> (case res of Inl _ \<Rightarrow> c' \<noteq> c | Inr _ \<Rightarrow> True) \<Longrightarrow>
    chain_step L S c (- uint (transaction_fee res)) c'"
| step_update_free: "contract_update L S c n a s e u = Some (Some (Inl err, c)) \<Longrightarrow> chain_step L S c 0 c"

inductive chain_reach :: "'v chain_lib \<Rightarrow> 'v sdk \<Rightarrow> 'v chain \<Rightarrow> int \<Rightarrow> bool" for L S where
  reach_new: "chain_new_with_time_and_rates t m e = Some (Some c) \<Longrightarrow> chain_reach L S c 0"
| reach_step: "chain_reach L S c n \<Longrightarrow> chain_step L S c d c' \<Longrightarrow> chain_reach L S c' (n + d)"

lemma create_account_supply:
  assumes "create_account c acc = (old, c')" "chain_ok c"
  shows "chain_ok c' \<and> chain_total c' = chain_total c + account_ccd acc - account_ccd_option old"
proof -
  have e: "old = tc_accounts c (account_eq (ac_address acc))" "c' = c\<lparr>tc_accounts := (tc_accounts c)(account_eq (ac_address acc) \<mapsto> acc)\<rparr>"
    using assms(1) by (simp_all add: create_account_def Let_def)
  have f: "finite (dom (tc_accounts c))" using assms(2) by (simp add: chain_ok_def chain_finite_def)
  have ok: "chain_ok c'" using assms(2) e(2) by (simp add: chain_ok_def chain_finite_def)
  show ?thesis
  proof (cases old)
    case None
    then show ?thesis using ok e map_total_insert [where m = "tc_accounts c" and f = account_ccd and y = acc, OF f]
      by (simp add: account_ccd_option_def chain_total_def)
  next
    case (Some o')
    then show ?thesis using ok e map_total_upd [where m = "tc_accounts c" and f = account_ccd and y = acc, OF f]
      by (simp add: account_ccd_option_def chain_total_def)
  qed
qed

lemma deploy_supply:
  assumes "module_deploy_v1_debug L S c n a w b = Some (res, c')" "chain_ok c"
  shows "chain_ok c' \<and> chain_total c' = chain_total c - uint (deploy_fee res)"
proof -
  have upd: "chain_ok (c1\<lparr>tc_modules := m\<rparr>) = chain_ok c1" "chain_total (c1\<lparr>tc_modules := m\<rparr>) = chain_total c1" for c1 :: "'a chain" and m
    by (simp_all add: chain_ok_def chain_finite_def chain_total_def)
  have ch: "chain_ok c1 \<and> chain_total c1 = chain_total c - uint fee" if "charge_account c a fee = Some c1" for c1 fee
    using charge_account_total [OF that] charge_account_ok [OF that] assms(2) by (simp add: chain_ok_def)
  show ?thesis using assms unfolding module_deploy_v1_debug_def Let_def
    by (auto simp: upd dest!: ch split: option.splits if_splits Option.bind_splits sum.splits)
qed

lemma contract_init_supply:
  assumes "contract_init L S c n a e p = Some (res, c')" "chain_ok c"
  shows "chain_ok c' \<and> chain_total c' = chain_total c - uint (init_fee res)"
proof (cases "account_exists c a")
  case True
  then obtain w r c1 fee where w: "contract_init_worker L S c n a e p e = Some (w, r, c1)" "charge_account c1 a fee = Some c'" "init_fee res = fee"
    using assms(1) by (auto simp: contract_init_def split: Option.bind_splits sum.splits)
  have "chain_ok c1" "chain_total c1 = chain_total c"
    using contract_init_worker_keeps [OF assms(2), of L S n a e p e] w(1) by (simp_all add: init_keeps_def)
  then show ?thesis using charge_account_total [OF w(2)] charge_account_ok [OF w(2)] w(3) by (simp add: chain_ok_def)
next
  case False
  have free: "fee = 0" if "calculate_energy_cost p 0 = Some fee" for p fee using that
    by (auto simp: calculate_energy_cost_def energy_to_amount_def div_ceil_def Let_def split: if_splits)
  show ?thesis using assms False
    by (auto simp: contract_init_def convert_to_init_error_def checked_sub_def dest!: free split: Option.bind_splits)
qed

lemma contract_update_supply:
  assumes "contract_update L S c n a s e u = Some (Some (Inr res, c'))" "chain_ok c"
  shows "chain_ok c' \<and> chain_total c' = chain_total c - uint (cs_transaction_fee res)"
proof -
  obtain q r w where w: "contract_invocation_worker L S c a s e q u r = Some (Some w)"
    "update_finish S c a e (up_payload_address u) w = Some (Inr res, c')"
    using contract_update_cases [OF assms(1)] by blast
  obtain result stack trace load left b left' c1 where f: "w = Inr (result, stack, trace, load, left)"
    "persist (sdk_freeze S) stack left (up_payload_address u) c = Some (Inr (b, left', c1))" "charge_account c1 a (cs_transaction_fee res) = Some c'"
    by (rule update_finish_success [OF w(2)])
  have st: "stack \<noteq> []" "changes_ok c (hd stack)" "changes_sum (hd stack) = 0" using worker_stack [OF w(1) [unfolded f(1)]] by simp_all
  have "chain_total c1 = chain_total c \<and> chain_ok c1" using persist_keeps_ok [OF f(2) st(1,2) assms(2)] st(3) by simp
  then show ?thesis using charge_account_total [OF f(3)] charge_account_ok [OF f(3)] by (simp add: chain_ok_def)
qed

lemma chain_step_supply:
  assumes "chain_step L S c d c'" "chain_ok c"
  shows "chain_ok c' \<and> chain_total c' = chain_total c + d"
  using assms
proof (induction rule: chain_step.induct)
  case (step_update c n a s e u res c')
  show ?case
  proof (cases res)
    case (Inl err)
    then have "charge_account c a (ce_transaction_fee err) = Some c'"
      using contract_update_cases [OF step_update(1)] step_update(2) update_finish_error by fastforce
    from charge_account_total [OF this] charge_account_ok [OF this] show ?thesis using step_update(3) Inl by (simp add: chain_ok_def)
  next
    case (Inr x)
    then show ?thesis using contract_update_supply step_update by fastforce
  qed
qed (auto dest: create_account_supply deploy_supply contract_init_supply
    simp: set_exchange_rates_def tick_block_time_def chain_ok_def chain_finite_def chain_total_def split: if_splits)

text \<open>
  C4. On a chain that is built by creating accounts, setting rates, advancing time, deploying modules,
  creating contracts and calling them, whatever the contracts do, contracts are stored at their own
  addresses and the balances of all accounts and contracts add up to what the accounts were created
  with, less the fees that were charged.
\<close>

theorem chain_supply:
  assumes "chain_reach L S c n"
  shows "chain_ok c \<and> chain_total c = n"
  using assms
proof (induction rule: chain_reach.induct)
  case (reach_new t m e c)
  then show ?case
    by (auto simp: chain_new_with_time_and_rates_def parameters_new_with_time_and_rates_def chain_ok_def chain_finite_def chain_total_def
        map_total_def split: if_splits)
next
  case (reach_step c n d c')
  then show ?case using chain_step_supply [OF reach_step(2)] by simp
qed

text \<open>A chain with one account, which has deployed a module for 170 microCCD.\<close>

definition start_chain :: "nat chain" where
  "start_chain = \<lparr>tc_parameters = tc_parameters sample_chain, tc_accounts = Map.empty, tc_modules = Map.empty, tc_contracts = Map.empty,
     tc_next_contract_index = 0\<rparr>"

definition deployed_chain :: "nat chain" where
  "deployed_chain = start_chain\<lparr>
     tc_accounts := [replicate 29 7 \<mapsto> \<lparr>ac_address = sample_account, ac_balance = \<lparr>ab_total = 999830, ab_staked = 0, ab_locked = 0\<rparr>,
       ac_policy = [], ac_keys = 0\<rparr>],
     tc_modules := [[4] \<mapsto> \<lparr>cm_size = 1, cm_artifact = 4\<rparr>]\<rparr>"

lemma deployed_chain_reach: "chain_reach script_lib (script_sdk sample_script) deployed_chain 999830"
proof -
  let ?L = script_lib and ?S = "script_sdk sample_script"
  let ?acc = "\<lparr>ac_address = sample_account, ac_balance = \<lparr>ab_total = 1000000, ab_staked = 0, ab_locked = 0\<rparr>, ac_policy = [], ac_keys = 0\<rparr> :: nat account"
  let ?c1 = "start_chain\<lparr>tc_accounts := [replicate 29 7 \<mapsto> ?acc]\<rparr>"
  have r0: "chain_reach ?L ?S start_chain 0"
    by (rule reach_new [of 0 "(50000, 1)" "(1, 50000)"])
      (simp add: chain_new_with_time_and_rates_def parameters_new_with_time_and_rates_def check_exchange_rates_def start_chain_def)
  have "create_account start_chain ?acc = (None, ?c1)" by (simp add: create_account_def Let_def start_chain_def)
  from reach_step [OF r0 step_account [OF this]] have r1: "chain_reach ?L ?S ?c1 1000000" by (simp add: account_ccd_option_def)
  have "module_deploy_v1_debug ?L ?S ?c1 1 sample_account \<lparr>wm_version = V1, wm_source = [4]\<rparr> False =
      Some (Inr \<lparr>md_module_reference = [4], md_energy_used = 170, md_transaction_fee = 170\<rparr>, deployed_chain)"
    by (simp add: module_deploy_v1_debug_def chain_account_def deploy_energy_def arith_defs module_size_def script_lib_def charge_account_def
        saturating_sub_def start_chain_def deployed_chain_def)
  from reach_step [OF r1 step_deploy [OF this]] show ?thesis by simp
qed

theorem chain_supply_witness: "chain_reach script_lib (script_sdk sample_script) deployed_chain 999830 \<and> chain_total deployed_chain = 999830"
  using chain_supply [OF deployed_chain_reach] deployed_chain_reach by blast

text \<open>
  C5. Every update ends, in a result, an error or a panic, when the engine reports an error of the
  interpreter as a trap without energy and charges at least one unit of energy for every interrupt.
\<close>

theorem contract_update_terminates:
  assumes "engine_traps S" "engine_charges S"
  shows "\<exists>r. contract_update L S c n invoker sender e payload = Some r"
proof -
  have "\<exists>r. contract_invocation_worker L S c invoker sender e q payload r' = Some r" for q r'
    using invoke_loop_returns [OF assms, of invoker "invoke_start sender payload (handler_new c invoker e q r')"]
    by (auto simp: contract_invocation_worker_def Let_def invoke_entrypoint_def split: option.split)
  then show ?thesis by (auto simp: contract_update_def split: option.split)
qed

theorem contract_update_terminates_witness:
  "\<exists>r. contract_update script_lib (script_sdk sample_script) sample_chain 1 sample_account (Account sample_account) 10000 (sample_payload 0 0) = Some r"
  by (rule contract_update_terminates [OF script_engine])

text \<open>
  What an update has to pass before a contract runs: the sender and the invoker exist, the energy covers the header,
  and the invoker can pay for all of it. \<open>update_admitted\<close> gives the amount set aside and the energy left then.
  \<open>saving_fails\<close>: the contracts ran and succeeded, but the energy left does not pay for storing their states.
\<close>

definition update_admitted ::
    "'v chain_lib \<Rightarrow> 'v sdk \<Rightarrow> 'v chain \<Rightarrow> u32 \<Rightarrow> account_address \<Rightarrow> address \<Rightarrow> u64 \<Rightarrow> update_payload \<Rightarrow> (amount \<times> u64) option" where
  "update_admitted L S c n invoker sender e payload =
     (if address_exists c sender then do {
        account \<leftarrow> chain_account c invoker;
        header \<leftarrow> check_header_cost L (cl_update_size L payload) n;
        reserved \<leftarrow> calculate_energy_cost (tc_parameters c) e;
        if header \<le> e \<and> reserved \<le> sdk_available S (ac_balance account) then Some (reserved, e - header) else None
      } else None)"

definition saving_fails ::
    "'v chain_lib \<Rightarrow> 'v sdk \<Rightarrow> 'v chain \<Rightarrow> account_address \<Rightarrow> address \<Rightarrow> u64 \<Rightarrow> amount \<Rightarrow> update_payload \<Rightarrow> u64 \<Rightarrow> bool" where
  "saving_fails L S c invoker sender e reserved payload remaining =
     (case contract_invocation_worker L S c invoker sender e reserved payload remaining of
        Some (Some (Inr (result, stack, _, _, left))) \<Rightarrow>
          is_success result \<and> persist (sdk_freeze S) stack left (up_payload_address payload) c = Some (Inl ())
      | _ \<Rightarrow> False)"

lemma admitted_worker:
  assumes "contract_update L S c n invoker sender e payload = Some (Some (res, c'))"
    and "update_admitted L S c n invoker sender e payload = Some (reserved, remaining)"
  obtains w where "contract_invocation_worker L S c invoker sender e reserved payload remaining = Some (Some w)"
    "update_finish S c invoker e (up_payload_address payload) w = Some (res, c')"
  using assms
  by (auto simp: contract_update_def update_admitted_def checked_sub_def not_less [symmetric] split: if_splits option.splits Option.bind_splits)

text \<open>The end of an update that fails: either the worker's error is charged, or the reason was saving the states.\<close>

lemma update_finish_failed:
  assumes "update_finish S c invoker e a w = Some (Inl err, c')"
  shows "case w of
      Inl _ \<Rightarrow> charge_account c invoker (ce_transaction_fee err) = Some c'
    | Inr (result, stack, _, _, left) \<Rightarrow>
        if is_success result \<and> persist (sdk_freeze S) stack left a c = Some (Inl ()) then c' = c
        else charge_account c invoker (ce_transaction_fee err) = Some c'"
  using assms
  by (auto simp: update_finish_def Let_def dest: process_response_cases split: sum.splits prod.splits if_splits Option.bind_splits)

text \<open>
  C40. An update that fails changes no contract and no module. When it was not admitted, the chain stays as it is, and
  the error reports no fee unless the invoker lacks the funds. When it was admitted, the account of the invoker pays
  exactly the fee the error reports, and nothing else changes; the one exception is an update whose contracts succeed
  but which runs out of energy while their states are saved, which costs nothing.
\<close>

theorem contract_update_failed:
  assumes "contract_update L S c n invoker sender e payload = Some (Some (Inl err, c'))"
  shows "tc_contracts c' = tc_contracts c \<and> tc_modules c' = tc_modules c \<and>
    (case update_admitted L S c n invoker sender e payload of
       None \<Rightarrow> c' = c \<and> (ce_transaction_fee err = 0 \<or> ce_kind err = InvokeInsufficientFunds)
     | Some (reserved, remaining) \<Rightarrow>
         if saving_fails L S c invoker sender e reserved payload remaining then c' = c
         else \<exists>account. chain_account c invoker = Some account \<and> ce_transaction_fee err \<le> ab_total (ac_balance account) \<and>
           c' = c\<lparr>tc_accounts := (tc_accounts c)(account_eq invoker \<mapsto> account\<lparr>ac_balance :=
             (ac_balance account)\<lparr>ab_total := ab_total (ac_balance account) - ce_transaction_fee err\<rparr>\<rparr>)\<rparr>)"
    (is "_ \<and> _ \<and> ?paid")
proof -
  have paid: ?paid
  proof (cases "update_admitted L S c n invoker sender e payload")
    case None
    then show ?thesis using assms
      by (auto simp: contract_update_def update_admitted_def free_error_def checked_sub_def split: if_splits option.splits)
  next
    case (Some a)
    obtain reserved remaining where a: "a = (reserved, remaining)" by (cases a)
    obtain w where w: "contract_invocation_worker L S c invoker sender e reserved payload remaining = Some (Some w)"
      "update_finish S c invoker e (up_payload_address payload) w = Some (Inl err, c')"
      using assms Some unfolding a by (rule admitted_worker)
    from update_finish_failed [OF w(2)] show ?thesis
      by (cases w) (auto simp: Some a w(1) saving_fails_def charge_account_def checked_sub_def split: Option.bind_splits if_splits)
  qed
  then have "tc_contracts c' = tc_contracts c \<and> tc_modules c' = tc_modules c"
    by (auto split: option.splits prod.splits if_splits)
  with paid show ?thesis by blast
qed

lemma missing_contract_update:
  "\<exists>err c'. contract_update script_lib (script_sdk sample_script) sample_chain 1 sample_account (Account sample_account) 10000 (sample_payload 9 0)
     = Some (Some (Inl err, c')) \<and> ce_transaction_fee err = 211"
  by (simp add: contract_update_def address_exists_def account_exists_def chain_account_def check_header_cost_def arith_defs
      contract_invocation_worker_def contract_exists_def script_lib_def sample_payload_def sample_address_def sample_chain_def [THEN arg_cong, of tc_contracts]
      convert_to_invoke_error_def update_finish_def charge_account_def)

lemma missing_contract_admitted:
  "update_admitted script_lib (script_sdk sample_script) sample_chain 1 sample_account (Account sample_account) 10000 (sample_payload 9 0) =
     Some (10000, 9789)"
  by (simp add: update_admitted_def address_exists_def account_exists_def chain_account_def check_header_cost_def arith_defs
      script_lib_def sample_payload_def)

lemma missing_contract_saving:
  "\<not> saving_fails script_lib (script_sdk sample_script) sample_chain sample_account (Account sample_account) 10000 q (sample_payload 9 0) r"
  by (simp add: saving_fails_def contract_invocation_worker_def contract_exists_def script_lib_def sample_payload_def sample_address_def
      sample_chain_def [THEN arg_cong, of tc_contracts] convert_to_invoke_error_def arith_defs chain_account_def)

text \<open>A call of a contract that does not exist: the 1000000 microCCD of the account become 999789.\<close>

theorem contract_update_failed_witness:
  "\<exists>err c'. contract_update script_lib (script_sdk sample_script) sample_chain 1 sample_account (Account sample_account) 10000 (sample_payload 9 0)
     = Some (Some (Inl err, c')) \<and> ce_transaction_fee err = 211 \<and> tc_contracts c' = tc_contracts sample_chain \<and>
     map_option (\<lambda>a. ab_total (ac_balance a)) (chain_account c' sample_account) = Some 999789"
proof -
  obtain err c' where run: "contract_update script_lib (script_sdk sample_script) sample_chain 1 sample_account (Account sample_account) 10000
      (sample_payload 9 0) = Some (Some (Inl err, c'))" and fee: "ce_transaction_fee err = 211"
    using missing_contract_update by blast
  from contract_update_failed [OF run] run fee show ?thesis
    by (auto simp: missing_contract_admitted missing_contract_saving chain_account_def)
qed

section \<open>What the library does not keep\<close>

text \<open>
  A call that fails after a successful call of its own is not undone: contract 0 sends 30 to
  contract 1, which changes its state, calls contract 2 and rejects; contract 0 is told that the call
  failed, and the result that a rollback occurred, yet the amount stays with contract 1 and the changed state is saved.
\<close>

lemma failed_call_keeps_changes:
  "\<exists>s c e. contract_update script_lib (script_sdk sample_script) sample_chain 1 sample_account (Account sample_account) 10000 (sample_payload 0 0)
     = Some (Some (Inr s, c)) \<and>
   RegularElement ''f'' (Resumed (sample_address 0) False) e 0 \<in> set (cs_trace_elements s) \<and> rollbacks_occurred s \<and>
   chain_contract_balance c (sample_address 0) = Some 70 \<and> chain_contract_balance c (sample_address 1) = Some 130 \<and>
   map_option co_state (tc_contracts c (sample_address 1)) = Some 1"
  using sample_update_run unfolding sample_update_def
  by - (elim exE conjE, intro exI conjI, assumption, assumption, assumption, simp_all add: chain_contract_balance_def sample_address_def)

text \<open>
  When an update runs out of energy while its changes are saved, the error reports a fee for all of
  the reserved energy, but the invoker is not charged.
\<close>

lemma out_of_energy_not_charged:
  assumes "persist (sdk_freeze S) stack left a c = Some (Inl ())" "is_success result"
    and "calculate_energy_cost (tc_parameters c) e = Some fee"
  shows "\<exists>err. update_finish S c invoker e a (Inr (result, stack, trace, load, left)) = Some (Inl err, c) \<and>
    ce_transaction_fee err = fee \<and> ce_energy_used err = e"
  using assms
  by (simp add: update_finish_def Let_def invocation_out_of_energy_error_def convert_to_invoke_error_def checked_sub_def)

lemma out_of_energy_not_charged_sample:
  "\<exists>err. update_finish (script_sdk sample_script) sample_chain sample_account 500 (sample_address 0)
     (Inr (RespSuccess 100 None, [\<lparr>ch_contracts = [(sample_address 0, (contract_changes_new 100)\<lparr>cc_state := Some 1\<rparr>)], ch_accounts = []\<rparr>], [], 0, 7))
     = Some (Inl err, sample_chain) \<and> ce_transaction_fee err = 500 \<and> ce_energy_used err = 500"
  by (rule out_of_energy_not_charged)
    (simp_all add: persist_def changes_current_def collect_state_energy_def contract_changes_new_def arith_defs)

text \<open>
  When the invoker cannot pay for the reserved energy, the error reports a fee for checking the header, but the invoker
  is not charged.
\<close>

lemma insufficient_funds_not_charged:
  assumes "contract_update L S c n invoker sender e payload = Some (Some (Inl err, c'))" "ce_kind err = InvokeInsufficientFunds"
    and "update_admitted L S c n invoker sender e payload = None"
  shows "c' = c \<and> calculate_energy_cost (tc_parameters c) (ce_energy_used err) = Some (ce_transaction_fee err)"
  using assms
  by (auto simp: contract_update_def update_admitted_def free_error_def checked_sub_def split: if_splits option.splits)

lemma insufficient_funds_not_charged_sample:
  "\<exists>err. contract_update script_lib (script_sdk sample_script) sample_chain 1 sample_account (Account sample_account) 2000000 (sample_payload 0 0)
     = Some (Some (Inl err, sample_chain)) \<and> ce_kind err = InvokeInsufficientFunds \<and> ce_transaction_fee err = 211"
  by (simp add: contract_update_def address_exists_def account_exists_def chain_account_def check_header_cost_def arith_defs
      script_lib_def sample_payload_def)

text \<open>
  The query for the module of a contract finds none as soon as the state of the contract has changed
  in the transaction, although the contract exists and has not been upgraded.
\<close>

lemma module_reference_lost:
  assumes "changes_current (ih_changeset h) = Some cur" "map_of (ch_contracts cur) a = None"
    and "tc_contracts (ih_chain h) a = Some con" "save_state_changes h a s = Some (i, h')"
  shows "contract_module_reference h a = Some (Some (co_module_reference con)) \<and> contract_module_reference h' a = Some None"
proof -
  have "ih_changeset h \<noteq> []" using assms(1) by (auto simp: changes_current_def)
  then show ?thesis using assms
    by (auto simp: contract_module_reference_def save_state_changes_def Let_def put_contract_def changes_put_def contract_changes_new_def
        update_conv' changes_current_def split: Option.bind_splits list.splits)
qed

lemma module_reference_lost_sample:
  "let h = handler_new sample_chain sample_account 1000 1000 1000 in
   \<exists>h'. save_state_changes h (sample_address 0) 1 = Some (1, h') \<and> contract_module_reference h (sample_address 0) = Some (Some [0]) \<and>
     contract_module_reference h' (sample_address 0) = Some None"
proof -
  let ?h = "handler_new sample_chain sample_account 1000 1000 1000"
  have h: "changes_current (ih_changeset ?h) = Some \<lparr>ch_contracts = [], ch_accounts = []\<rparr>" "tc_contracts (ih_chain ?h) (sample_address 0) = Some (sample_contract 0)"
    by (simp_all add: handler_new_def change_set_new_def changes_current_def sample_address_def)
  obtain h' where s: "save_state_changes ?h (sample_address 0) 1 = Some (1, h')"
    using h by (auto simp: save_state_changes_def Let_def handler_new_def change_set_new_def changes_current_def checked_add_def)
  from module_reference_lost [OF h(1) _ h(2) s] s show ?thesis by (simp add: sample_contract_def)
qed

end
