(* ===== verification/Multi.thy ===== *)
theory Multi
  imports Contract_Host
begin

text \<open>
  The contract of \<^verbatim>\<open>examples/cis2-multi/src/lib.rs\<close>: several fungible tokens with 8-bit identifiers and 64-bit
  amounts, roles, a blacklist, a pause switch, and \<^verbatim>\<open>permit\<close>, which runs an entrypoint for the signer of a
  message. This theory holds the state, its operations and every entrypoint but the test view. Amounts
  wrap around, as the release profile compiles them.

  Calls to other contracts are an argument of the entrypoints. What the contract takes from the host and
  from the chain's library is the record \<open>multi_env\<close>: the canonical alias of an account, the hash
  function, the check of account signatures, the keys of accounts, the parsers of the message of a
  permit and of its payload, and the upgrade of the instance.
\<close>

section \<open>Data\<close>

datatype multi_roles = ADMIN | UPGRADER | BLACKLISTER | PAUSER

datatype blacklist_update = RemoveBlacklist | AddBlacklist

datatype multi_event =
    UpdateBlacklistEvent blacklist_update address
  | GrantRoleEvent address multi_roles
  | RevokeRoleEvent address multi_roles
  | NonceEvent u64 account_address
  | MultiCis2Event "(u8, u64) cis2_event"

record multi_mint_params =
  mm_to :: receiver
  mm_metadata_url :: metadata_url
  mm_token_id :: u8
  mm_data :: bytes

record multi_burn_params =
  mb_owner :: address
  mb_amount :: u64
  mb_token_id :: u8

record permit_message =
  pm_contract_address :: contract_address
  pm_nonce :: u64
  pm_timestamp :: u64
  pm_entry_point :: string
  pm_payload :: bytes

text \<open>
  The parameter of \<^verbatim>\<open>permit\<close>: what \<^verbatim>\<open>PermitParamPartial\<close> reads, and the bytes after it, from which
  \<^verbatim>\<open>PermitParam\<close> parses the message and which \<^verbatim>\<open>viewMessageHash\<close> hashes.
\<close>

record 'sig permit_param =
  pp_signature :: 'sig
  pp_signer :: account_address
  pp_message_bytes :: bytes

record multi_address_state =
  ma_balances :: "u8 \<rightharpoonup> u64"
  ma_operators :: "address set"

record multi_state =
  mu_state :: "address \<rightharpoonup> multi_address_state"
  mu_tokens :: "u8 \<rightharpoonup> metadata_url"
  mu_implementors :: "string \<rightharpoonup> contract_address list"
  mu_nonces_registry :: "account_address \<rightharpoonup> u64"
  mu_blacklist :: "address set"
  mu_mint_airdrop :: u64
  mu_paused :: bool
  mu_roles :: "address \<rightharpoonup> multi_roles set"

datatype multi_custom_error =
    MultiParseParams | MultiLogFull | MultiLogMalformed | MultiInvalidContractName | MultiContractOnly
  | MultiInvokeContractError | MultiMissingAccount | MultiMalformedData | WrongSignature | NonceMismatch
  | WrongContract | WrongEntryPoint | Expired | Blacklisted | NoCanonicalAddress | MultiUpgradeMissingModule
  | MultiUpgradeMissingContract | MultiUpgradeUnsupportedModuleVersion | MultiPaused | RoleWasNotGranted
  | RoleWasAlreadyGranted

type_synonym multi_error = "multi_custom_error cis2_error"
type_synonym multi_host = "(multi_state, multi_event) contract_host"
type_synonym multi_transfer_params = "(u8, u64) transfer_params"

record ('sig, 'keys) multi_env =
  me_get_alias :: "account_address \<Rightarrow> account_address option"
  me_hash_sha2_256 :: "bytes \<Rightarrow> bytes"
  me_check_account_signature :: "account_address \<Rightarrow> 'sig \<Rightarrow> bytes \<Rightarrow> check_account_signature_error + bool"
  me_account_public_keys :: "account_address \<Rightarrow> 'keys option"
  me_parse_message :: "bytes \<Rightarrow> permit_message option"
  me_parse_transfer :: "bytes \<Rightarrow> multi_transfer_params list option"
  me_parse_update_operator :: "bytes \<Rightarrow> (operator_update \<times> address) list option"
  me_parse_mint :: "bytes \<Rightarrow> multi_mint_params option"
  me_parse_burn :: "bytes \<Rightarrow> multi_burn_params option"

fun multi_error_from_upgrade :: "upgrade_error \<Rightarrow> multi_custom_error" where
  "multi_error_from_upgrade MissingModule = MultiUpgradeMissingModule"
| "multi_error_from_upgrade MissingContract = MultiUpgradeMissingContract"
| "multi_error_from_upgrade UnsupportedModuleVersion = MultiUpgradeUnsupportedModuleVersion"

fun multi_error_from_signature :: "check_account_signature_error \<Rightarrow> multi_custom_error" where
  "multi_error_from_signature SignatureMissingAccount = MultiMissingAccount"
| "multi_error_from_signature MalformedData = MultiMalformedData"

fun multi_error_from_log :: "log_error \<Rightarrow> multi_custom_error" where
  "multi_error_from_log Full = MultiLogFull"
| "multi_error_from_log MalformedLog = MultiLogMalformed"

fun multi_error_from_call :: "'r call_contract_error \<Rightarrow> multi_custom_error" where
  "multi_error_from_call _ = MultiInvokeContractError"

definition MULTI_SUPPORTS_STANDARDS :: "string list" where
  "MULTI_SUPPORTS_STANDARDS = [''CIS-0'', ''CIS-2'', ''CIS-3'']"

definition SUPPORTS_PERMIT_ENTRYPOINTS :: "string list" where
  "SUPPORTS_PERMIT_ENTRYPOINTS = [''updateOperator'', ''transfer'']"

section \<open>Operations of the state\<close>

definition multi_address_state_empty :: multi_address_state where
  "multi_address_state_empty = \<lparr>ma_balances = Map.empty, ma_operators = {}\<rparr>"

definition multi_empty :: "u64 \<Rightarrow> multi_state" where
  "multi_empty mint_airdrop =
     \<lparr>mu_state = Map.empty, mu_tokens = Map.empty, mu_implementors = Map.empty, mu_nonces_registry = Map.empty,
      mu_blacklist = {}, mu_mint_airdrop = mint_airdrop, mu_paused = False, mu_roles = Map.empty\<rparr>"

text \<open>
  \<^verbatim>\<open>state.entry(_).or_insert_with(_)\<close>, then \<^verbatim>\<open>balances.entry(_).or_insert(0)\<close> and an addition to it.
\<close>

definition multi_entry :: "(address \<rightharpoonup> multi_address_state) \<Rightarrow> address \<Rightarrow> multi_address_state" where
  "multi_entry m a = (case m a of None \<Rightarrow> multi_address_state_empty | Some s \<Rightarrow> s)"

definition balance_entry :: "multi_address_state \<Rightarrow> u8 \<Rightarrow> u64" where
  "balance_entry s token_id = (case ma_balances s token_id of None \<Rightarrow> 0 | Some b \<Rightarrow> b)"

definition multi_credit :: "multi_state \<Rightarrow> u8 \<Rightarrow> u64 \<Rightarrow> address \<Rightarrow> multi_state" where
  "multi_credit st token_id amount a =
     (let s = multi_entry (mu_state st) a
      in st\<lparr>mu_state := (mu_state st)(a \<mapsto>
           s\<lparr>ma_balances := (ma_balances s)(token_id \<mapsto> balance_entry s token_id + amount)\<rparr>)\<rparr>)"

definition multi_mint :: "multi_state \<Rightarrow> u8 \<Rightarrow> metadata_url \<Rightarrow> address \<Rightarrow> u64 \<Rightarrow> metadata_url \<times> multi_state" where
  "multi_mint st token_id url own mint_airdrop =
     (let token_metadata = mu_tokens st token_id;
          st = (if token_metadata = None then st\<lparr>mu_tokens := (mu_tokens st)(token_id \<mapsto> url)\<rparr> else st);
          st = multi_credit st token_id mint_airdrop own
      in (case token_metadata of Some m \<Rightarrow> m | None \<Rightarrow> url, st))"

definition multi_contains_token :: "multi_state \<Rightarrow> u8 \<Rightarrow> bool" where
  "multi_contains_token st token_id \<longleftrightarrow> mu_tokens st token_id \<noteq> None"

definition multi_burn :: "multi_state \<Rightarrow> u8 \<Rightarrow> u64 \<Rightarrow> address \<Rightarrow> multi_error + multi_state" where
  "multi_burn st token_id amount own =
     ensure (multi_contains_token st token_id) InvalidTokenId
     (case mu_state st own of
        None \<Rightarrow> Inl InsufficientFunds
      | Some s \<Rightarrow>
          let b = balance_entry s token_id in
          ensure (b \<ge> amount) InsufficientFunds
          (Inr (st\<lparr>mu_state := (mu_state st)(own \<mapsto> s\<lparr>ma_balances := (ma_balances s)(token_id \<mapsto> b - amount)\<rparr>)\<rparr>)))"

definition multi_balance :: "multi_state \<Rightarrow> u8 \<Rightarrow> address \<Rightarrow> multi_error + u64" where
  "multi_balance st token_id a =
     ensure (multi_contains_token st token_id) InvalidTokenId
     (Inr (case mu_state st a of None \<Rightarrow> 0
           | Some s \<Rightarrow> (case ma_balances s token_id of None \<Rightarrow> 0 | Some b \<Rightarrow> b)))"

definition multi_is_operator :: "multi_state \<Rightarrow> address \<Rightarrow> address \<Rightarrow> bool" where
  "multi_is_operator st a own = (case mu_state st own of Some s \<Rightarrow> a \<in> ma_operators s | None \<Rightarrow> False)"

definition multi_transfer :: "multi_state \<Rightarrow> u8 \<Rightarrow> u64 \<Rightarrow> address \<Rightarrow> address \<Rightarrow> multi_error + multi_state" where
  "multi_transfer st token_id amount from to =
     ensure (multi_contains_token st token_id) InvalidTokenId
     (if amount = 0 then Inr st
      else case mu_state st from of
        None \<Rightarrow> Inl InsufficientFunds
      | Some s \<Rightarrow>
          (case ma_balances s token_id of
             None \<Rightarrow> Inl InsufficientFunds
           | Some b \<Rightarrow>
               ensure (b \<ge> amount) InsufficientFunds
               (let st = st\<lparr>mu_state := (mu_state st)(from \<mapsto> s\<lparr>ma_balances := (ma_balances s)(token_id \<mapsto> b - amount)\<rparr>)\<rparr>
                in Inr (multi_credit st token_id amount to))))"

definition multi_add_operator :: "multi_state \<Rightarrow> address \<Rightarrow> address \<Rightarrow> multi_state" where
  "multi_add_operator st own operator =
     (let s = multi_entry (mu_state st) own
      in st\<lparr>mu_state := (mu_state st)(own \<mapsto> s\<lparr>ma_operators := insert operator (ma_operators s)\<rparr>)\<rparr>)"

definition multi_remove_operator :: "multi_state \<Rightarrow> address \<Rightarrow> address \<Rightarrow> multi_state" where
  "multi_remove_operator st own operator =
     (case mu_state st own of
        None \<Rightarrow> st
      | Some s \<Rightarrow> st\<lparr>mu_state := (mu_state st)(own \<mapsto> s\<lparr>ma_operators := ma_operators s - {operator}\<rparr>)\<rparr>)"

definition multi_add_blacklist :: "multi_state \<Rightarrow> address \<Rightarrow> multi_state" where
  "multi_add_blacklist st a = st\<lparr>mu_blacklist := insert a (mu_blacklist st)\<rparr>"

definition multi_remove_blacklist :: "multi_state \<Rightarrow> address \<Rightarrow> multi_state" where
  "multi_remove_blacklist st a = st\<lparr>mu_blacklist := mu_blacklist st - {a}\<rparr>"

definition multi_have_implementors :: "multi_state \<Rightarrow> string \<Rightarrow> support_result" where
  "multi_have_implementors st std_id =
     (case mu_implementors st std_id of Some addresses \<Rightarrow> SupportBy addresses | None \<Rightarrow> NoSupport)"

definition multi_set_implementors :: "multi_state \<Rightarrow> string \<Rightarrow> contract_address list \<Rightarrow> multi_state" where
  "multi_set_implementors st std_id addresses = st\<lparr>mu_implementors := (mu_implementors st)(std_id \<mapsto> addresses)\<rparr>"

definition multi_grant_role :: "multi_state \<Rightarrow> address \<Rightarrow> multi_roles \<Rightarrow> multi_state" where
  "multi_grant_role st a role =
     (let roles = (case mu_roles st a of None \<Rightarrow> {} | Some rs \<Rightarrow> rs)
      in st\<lparr>mu_roles := (mu_roles st)(a \<mapsto> insert role roles)\<rparr>)"

definition multi_revoke_role :: "multi_state \<Rightarrow> address \<Rightarrow> multi_roles \<Rightarrow> multi_state" where
  "multi_revoke_role st a role =
     (case mu_roles st a of
        None \<Rightarrow> st
      | Some roles \<Rightarrow> st\<lparr>mu_roles := (mu_roles st)(a \<mapsto> roles - {role})\<rparr>)"

definition multi_has_role :: "multi_state \<Rightarrow> address \<Rightarrow> multi_roles \<Rightarrow> bool" where
  "multi_has_role st a role = (case mu_roles st a of None \<Rightarrow> False | Some roles \<Rightarrow> role \<in> roles)"

definition get_canonical_address :: "('sig, 'keys) multi_env \<Rightarrow> address \<Rightarrow> multi_error + address" where
  "get_canonical_address E a =
     (case a of
        Account acc \<Rightarrow> (case me_get_alias E acc of None \<Rightarrow> Inl (Custom NoCanonicalAddress) | Some c \<Rightarrow> Inr (Account c))
      | Contract c \<Rightarrow> Inr (Contract c))"

section \<open>Entrypoints\<close>

type_synonym multi_call =
  "multi_host \<Rightarrow> contract_address \<Rightarrow> (u8, u64) on_receiving_params \<Rightarrow> string \<Rightarrow> u64 \<Rightarrow> bytes call_contract_error + multi_host"

text \<open>A parameter, or part of one, that may not parse.\<close>

definition multi_parsed :: "'p option \<Rightarrow> multi_error + 'p" where
  "multi_parsed p = (case p of None \<Rightarrow> Inl (Custom MultiParseParams) | Some x \<Rightarrow> Inr x)"

definition multi_log :: "multi_event logger \<Rightarrow> multi_event \<Rightarrow> multi_host \<Rightarrow> multi_error + multi_host" where
  "multi_log logger ev h = map_err (\<lambda>e. Custom (multi_error_from_log e)) (log_event logger ev h)"

definition multi_init :: "multi_event logger \<Rightarrow> account_address \<Rightarrow> u64 option \<Rightarrow> multi_error + multi_host" where
  "multi_init logger init_origin parameter =
     try_bind (multi_parsed parameter) (\<lambda>mint_airdrop.
     let st = multi_empty mint_airdrop;
         invoker = Account init_origin;
         st = multi_grant_role st invoker ADMIN
     in multi_log logger (GrantRoleEvent invoker ADMIN) \<lparr>h_state = st, h_balance = 0, h_logs = [], h_transfers = []\<rparr>)"

definition not_blacklisted :: "('sig, 'keys) multi_env \<Rightarrow> multi_state \<Rightarrow> address \<Rightarrow> (multi_error + 'a) \<Rightarrow> multi_error + 'a" where
  "not_blacklisted E st a r =
     try_bind (get_canonical_address E a) (\<lambda>c. ensure (c \<notin> mu_blacklist st) (Custom Blacklisted) r)"

text \<open>The internal functions \<^verbatim>\<open>mint\<close>, \<^verbatim>\<open>burn\<close>, \<^verbatim>\<open>transfer\<close> and \<^verbatim>\<open>update_operator\<close>, which assume that the call is authorized.\<close>

definition do_mint ::
    "('sig, 'keys) multi_env \<Rightarrow> multi_event logger \<Rightarrow> multi_mint_params \<Rightarrow> multi_host \<Rightarrow> multi_error + multi_host" where
  "do_mint E logger params h =
     (let to_address = receiver_address (mm_to params) in
      not_blacklisted E (h_state h) to_address
      (ensure (\<not> mu_paused (h_state h)) (Custom MultiPaused)
       (let airdrop = mu_mint_airdrop (h_state h);
            (token_metadata, st) = multi_mint (h_state h) (mm_token_id params) (mm_metadata_url params) to_address airdrop
        in try_bind (multi_log logger (MultiCis2Event (MintEvent (mm_token_id params) airdrop to_address)) (h\<lparr>h_state := st\<rparr>))
             (multi_log logger (MultiCis2Event (TokenMetadataEvent (mm_token_id params) token_metadata))))))"

definition do_burn ::
    "('sig, 'keys) multi_env \<Rightarrow> multi_event logger \<Rightarrow> multi_burn_params \<Rightarrow> multi_host \<Rightarrow> multi_error + multi_host" where
  "do_burn E logger params h =
     ensure (\<not> mu_paused (h_state h)) (Custom MultiPaused)
     (not_blacklisted E (h_state h) (mb_owner params)
      (try_bind (multi_burn (h_state h) (mb_token_id params) (mb_amount params) (mb_owner params)) (\<lambda>st.
       multi_log logger (MultiCis2Event (BurnEvent (mb_token_id params) (mb_amount params) (mb_owner params)))
         (h\<lparr>h_state := st\<rparr>))))"

definition do_transfer ::
    "('sig, 'keys) multi_env \<Rightarrow> multi_event logger \<Rightarrow> multi_call \<Rightarrow> multi_transfer_params \<Rightarrow> multi_host \<Rightarrow>
     multi_error + multi_host" where
  "do_transfer E logger call t h =
     (let to_address = receiver_address (tp_to t) in
      not_blacklisted E (h_state h) to_address
      (not_blacklisted E (h_state h) (tp_from t)
       (ensure (\<not> mu_paused (h_state h)) (Custom MultiPaused)
        (try_bind (multi_transfer (h_state h) (tp_token_id t) (tp_amount t) (tp_from t) to_address) (\<lambda>st.
         try_bind (multi_log logger (MultiCis2Event (TransferEvent (tp_token_id t) (tp_amount t) (tp_from t) to_address))
           (h\<lparr>h_state := st\<rparr>)) (\<lambda>h.
         case tp_to t of
           ReceiverContract a f \<Rightarrow>
             map_err (\<lambda>e. Custom (multi_error_from_call e))
               (call h a \<lparr>or_token_id = tp_token_id t, or_amount = tp_amount t, or_from = tp_from t, or_data = tp_data t\<rparr> f 0)
         | ReceiverAccount _ \<Rightarrow> Inr h))))))"

definition do_update_operator ::
    "multi_event logger \<Rightarrow> operator_update \<Rightarrow> address \<Rightarrow> address \<Rightarrow> multi_host \<Rightarrow> multi_error + multi_host" where
  "do_update_operator logger update sender operator h =
     ensure (\<not> mu_paused (h_state h)) (Custom MultiPaused)
     (let st = (case update of
          AddOperator \<Rightarrow> multi_add_operator (h_state h) sender operator
        | RemoveOperator \<Rightarrow> multi_remove_operator (h_state h) sender operator)
      in multi_log logger (MultiCis2Event (UpdateOperatorEvent update sender operator)) (h\<lparr>h_state := st\<rparr>))"

definition multi_contract_mint ::
    "('sig, 'keys) multi_env \<Rightarrow> multi_event logger \<Rightarrow> multi_call \<Rightarrow> multi_mint_params receive_context \<Rightarrow> multi_host \<Rightarrow>
     multi_error + multi_host" where
  "multi_contract_mint E logger call ctx h =
     try_bind (multi_parsed (ctx_parameter ctx)) (\<lambda>params.
     try_bind (do_mint E logger params h) (\<lambda>h.
     case mm_to params of
       ReceiverContract a f \<Rightarrow>
         map_err (\<lambda>e. Custom (multi_error_from_call e))
           (call h a \<lparr>or_token_id = mm_token_id params, or_amount = mu_mint_airdrop (h_state h), or_from = Contract a,
             or_data = mm_data params\<rparr> f 0)
     | ReceiverAccount _ \<Rightarrow> Inr h))"

text \<open>The caller of a burn or a transfer is the owner or an operator of the owner.\<close>

definition multi_may_act :: "multi_state \<Rightarrow> address \<Rightarrow> address \<Rightarrow> bool" where
  "multi_may_act st actor own \<longleftrightarrow> own = actor \<or> multi_is_operator st actor own"

definition multi_contract_burn ::
    "('sig, 'keys) multi_env \<Rightarrow> multi_event logger \<Rightarrow> multi_burn_params receive_context \<Rightarrow> multi_host \<Rightarrow>
     multi_error + multi_host" where
  "multi_contract_burn E logger ctx h =
     try_bind (multi_parsed (ctx_parameter ctx)) (\<lambda>params.
     ensure (multi_may_act (h_state h) (ctx_sender ctx) (mb_owner params)) Unauthorized (do_burn E logger params h))"

fun multi_transfer_loop ::
    "('sig, 'keys) multi_env \<Rightarrow> multi_event logger \<Rightarrow> multi_call \<Rightarrow> address \<Rightarrow> multi_transfer_params list \<Rightarrow> multi_host \<Rightarrow>
     multi_error + multi_host" where
  "multi_transfer_loop E logger call actor [] h = Inr h"
| "multi_transfer_loop E logger call actor (t # ts) h =
     ensure (multi_may_act (h_state h) actor (tp_from t)) Unauthorized
     (try_bind (do_transfer E logger call t h) (multi_transfer_loop E logger call actor ts))"

definition multi_contract_transfer ::
    "('sig, 'keys) multi_env \<Rightarrow> multi_event logger \<Rightarrow> multi_call \<Rightarrow> multi_transfer_params list receive_context \<Rightarrow>
     multi_host \<Rightarrow> multi_error + multi_host" where
  "multi_contract_transfer E logger call ctx h =
     try_bind (multi_parsed (ctx_parameter ctx)) (\<lambda>transfers.
     multi_transfer_loop E logger call (ctx_sender ctx) transfers h)"

fun multi_operator_loop ::
    "multi_event logger \<Rightarrow> address \<Rightarrow> (operator_update \<times> address) list \<Rightarrow> multi_host \<Rightarrow> multi_error + multi_host" where
  "multi_operator_loop logger sender [] h = Inr h"
| "multi_operator_loop logger sender ((update, operator) # ps) h =
     try_bind (do_update_operator logger update sender operator h) (multi_operator_loop logger sender ps)"

definition multi_contract_update_operator ::
    "multi_event logger \<Rightarrow> (operator_update \<times> address) list receive_context \<Rightarrow> multi_host \<Rightarrow> multi_error + multi_host" where
  "multi_contract_update_operator logger ctx h =
     try_bind (multi_parsed (ctx_parameter ctx)) (\<lambda>params. multi_operator_loop logger (ctx_sender ctx) params h)"

section \<open>Permits\<close>

text \<open>The signed bytes are the signer, eight zeros and the message.\<close>

definition contract_view_message_hash ::
    "('sig, 'keys) multi_env \<Rightarrow> 'sig permit_param receive_context \<Rightarrow> multi_error + bytes" where
  "contract_view_message_hash E ctx =
     try_bind (multi_parsed (ctx_parameter ctx)) (\<lambda>param.
     Inr (me_hash_sha2_256 E ((pp_signer param @ replicate 8 0) @ pp_message_bytes param)))"

text \<open>The \<^verbatim>\<open>match\<close> over the entrypoint of the message.\<close>

definition multi_permit_action ::
    "('sig, 'keys) multi_env \<Rightarrow> multi_event logger \<Rightarrow> multi_call \<Rightarrow> account_address \<Rightarrow> permit_message \<Rightarrow> multi_host \<Rightarrow>
     multi_error + multi_host" where
  "multi_permit_action E logger call signer message h =
     (if pm_entry_point message = ''transfer'' then
        try_bind (multi_parsed (me_parse_transfer E (pm_payload message))) (\<lambda>transfers.
        multi_transfer_loop E logger call (Account signer) transfers h)
      else if pm_entry_point message = ''updateOperator'' then
        try_bind (multi_parsed (me_parse_update_operator E (pm_payload message))) (\<lambda>updates.
        multi_operator_loop logger (Account signer) updates h)
      else if pm_entry_point message = ''mint'' then
        try_bind (multi_parsed (me_parse_mint E (pm_payload message))) (\<lambda>params. do_mint E logger params h)
      else if pm_entry_point message = ''burn'' then
        try_bind (multi_parsed (me_parse_burn E (pm_payload message))) (\<lambda>params.
        ensure (multi_may_act (h_state h) (Account signer) (mb_owner params)) Unauthorized (do_burn E logger params h))
      else Inl (Custom WrongEntryPoint))"

definition multi_nonce :: "multi_state \<Rightarrow> account_address \<Rightarrow> u64" where
  "multi_nonce st account = (case mu_nonces_registry st account of None \<Rightarrow> 0 | Some n \<Rightarrow> n)"

definition multi_bump_nonce :: "multi_state \<Rightarrow> account_address \<Rightarrow> multi_state" where
  "multi_bump_nonce st account =
     st\<lparr>mu_nonces_registry := (mu_nonces_registry st)(account \<mapsto> multi_nonce st account + 1)\<rparr>"

definition multi_contract_permit ::
    "('sig, 'keys) multi_env \<Rightarrow> multi_event logger \<Rightarrow> multi_call \<Rightarrow> 'sig permit_param receive_context \<Rightarrow> multi_host \<Rightarrow>
     multi_error + multi_host" where
  "multi_contract_permit E logger call ctx h =
     try_bind (multi_parsed (ctx_parameter ctx)) (\<lambda>param.
     try_bind (multi_parsed (me_parse_message E (pp_message_bytes param))) (\<lambda>message.
     let nonce = multi_nonce (h_state h) (pp_signer param);
         h = h\<lparr>h_state := multi_bump_nonce (h_state h) (pp_signer param)\<rparr>
     in
     ensure (pm_nonce message = nonce) (Custom NonceMismatch)
     (ensure (pm_contract_address message = ctx_self_address ctx) (Custom WrongContract)
     (ensure (pm_timestamp message > ctx_slot_time ctx) (Custom Expired)
     (try_bind (contract_view_message_hash E ctx) (\<lambda>message_hash.
     try_bind (map_err (\<lambda>e. Custom (multi_error_from_signature e))
       (me_check_account_signature E (pp_signer param) (pp_signature param) message_hash)) (\<lambda>valid_signature.
     ensure valid_signature (Custom WrongSignature)
     (try_bind (multi_permit_action E logger call (pp_signer param) message h)
       (multi_log logger (NonceEvent nonce (pp_signer param)))))))))))"

section \<open>Queries\<close>

fun multi_collect :: "('q \<Rightarrow> multi_error + 'r) \<Rightarrow> 'q list \<Rightarrow> multi_error + 'r list" where
  "multi_collect f [] = Inr []"
| "multi_collect f (q # qs) = try_bind (f q) (\<lambda>r. try_bind (multi_collect f qs) (\<lambda>rs. Inr (r # rs)))"

definition multi_contract_balance_of :: "(u8 \<times> address) list receive_context \<Rightarrow> multi_host \<Rightarrow> multi_error + u64 list" where
  "multi_contract_balance_of ctx h =
     try_bind (multi_parsed (ctx_parameter ctx)) (multi_collect (\<lambda>(token_id, a). multi_balance (h_state h) token_id a))"

definition multi_contract_operator_of ::
    "(address \<times> address) list receive_context \<Rightarrow> multi_host \<Rightarrow> multi_error + bool list" where
  "multi_contract_operator_of ctx h =
     try_bind (multi_parsed (ctx_parameter ctx)) (\<lambda>queries.
     Inr (map (\<lambda>(own, a). multi_is_operator (h_state h) a own) queries))"

definition multi_contract_is_blacklisted ::
    "('sig, 'keys) multi_env \<Rightarrow> address list receive_context \<Rightarrow> multi_host \<Rightarrow> multi_error + bool list" where
  "multi_contract_is_blacklisted E ctx h =
     try_bind (multi_parsed (ctx_parameter ctx)) (multi_collect (\<lambda>a.
     try_bind (get_canonical_address E a) (\<lambda>c. Inr (c \<in> mu_blacklist (h_state h)))))"

definition multi_contract_public_key_of ::
    "('sig, 'keys) multi_env \<Rightarrow> account_address list receive_context \<Rightarrow> multi_error + 'keys option list" where
  "multi_contract_public_key_of E ctx =
     try_bind (multi_parsed (ctx_parameter ctx)) (\<lambda>queries. Inr (map (me_account_public_keys E) queries))"

definition multi_contract_nonce_of :: "account_address list receive_context \<Rightarrow> multi_host \<Rightarrow> multi_error + u64 list" where
  "multi_contract_nonce_of ctx h =
     try_bind (multi_parsed (ctx_parameter ctx)) (\<lambda>queries. Inr (map (\<lambda>account.
       case mu_nonces_registry (h_state h) account of Some nonce \<Rightarrow> nonce | None \<Rightarrow> 0) queries))"

definition multi_contract_token_metadata :: "u8 list receive_context \<Rightarrow> multi_host \<Rightarrow> multi_error + metadata_url list" where
  "multi_contract_token_metadata ctx h =
     try_bind (multi_parsed (ctx_parameter ctx)) (multi_collect (\<lambda>token_id.
       case mu_tokens (h_state h) token_id of Some url \<Rightarrow> Inr url | None \<Rightarrow> Inl InvalidTokenId))"

definition multi_contract_supports :: "string list receive_context \<Rightarrow> multi_host \<Rightarrow> multi_error + support_result list" where
  "multi_contract_supports ctx h =
     try_bind (multi_parsed (ctx_parameter ctx)) (\<lambda>queries. Inr (map (\<lambda>std_id.
       if std_id \<in> set MULTI_SUPPORTS_STANDARDS then Support else multi_have_implementors (h_state h) std_id) queries))"

definition multi_contract_supports_permit :: "string list receive_context \<Rightarrow> multi_error + support_result list" where
  "multi_contract_supports_permit ctx =
     try_bind (multi_parsed (ctx_parameter ctx)) (\<lambda>queries. Inr (map (\<lambda>entrypoint.
       if entrypoint \<in> set SUPPORTS_PERMIT_ENTRYPOINTS then Support else NoSupport) queries))"

text \<open>
  The example hook sends what it received on to the owner of the instance. The call is read-only: when
  it changes the state of the instance the host traps and the hook does not return.
\<close>

definition multi_contract_on_cis2_received ::
    "(contract_address \<Rightarrow> multi_transfer_params list \<Rightarrow> string \<Rightarrow> u64 \<Rightarrow> bytes call_contract_error + unit) \<Rightarrow>
     (u8, u64) on_receiving_params receive_context \<Rightarrow> multi_error + unit" where
  "multi_contract_on_cis2_received invoke_read_only ctx =
     (case ctx_sender ctx of
        Account _ \<Rightarrow> Inl (Custom MultiContractOnly)
      | Contract sender \<Rightarrow>
          try_bind (multi_parsed (ctx_parameter ctx)) (\<lambda>params.
          let t = \<lparr>tp_token_id = or_token_id params, tp_amount = or_amount params, tp_from = Contract (ctx_self_address ctx),
                   tp_to = ReceiverAccount (ctx_owner ctx), tp_data = []\<rparr>
          in map_err (\<lambda>e. Custom (multi_error_from_call e)) (invoke_read_only sender [t] ''transfer'' 0)))"

section \<open>Administration\<close>

definition multi_contract_set_implementor ::
    "(string \<times> contract_address list) receive_context \<Rightarrow> multi_host \<Rightarrow> multi_error + multi_host" where
  "multi_contract_set_implementor ctx h =
     ensure (ctx_sender ctx = Account (ctx_owner ctx)) Unauthorized
     (try_bind (multi_parsed (ctx_parameter ctx)) (\<lambda>(std_id, addresses).
      Inr (h\<lparr>h_state := multi_set_implementors (h_state h) std_id addresses\<rparr>)))"

fun multi_blacklist_loop ::
    "('sig, 'keys) multi_env \<Rightarrow> multi_event logger \<Rightarrow> (blacklist_update \<times> address) list \<Rightarrow> multi_host \<Rightarrow>
     multi_error + multi_host" where
  "multi_blacklist_loop E logger [] h = Inr h"
| "multi_blacklist_loop E logger ((update, a) # ps) h =
     try_bind (get_canonical_address E a) (\<lambda>c.
     let st = (case update of
          AddBlacklist \<Rightarrow> multi_add_blacklist (h_state h) c
        | RemoveBlacklist \<Rightarrow> multi_remove_blacklist (h_state h) c)
     in try_bind (multi_log logger (UpdateBlacklistEvent update c) (h\<lparr>h_state := st\<rparr>)) (multi_blacklist_loop E logger ps))"

definition multi_contract_update_blacklist ::
    "('sig, 'keys) multi_env \<Rightarrow> multi_event logger \<Rightarrow> (blacklist_update \<times> address) list receive_context \<Rightarrow> multi_host \<Rightarrow>
     multi_error + multi_host" where
  "multi_contract_update_blacklist E logger ctx h =
     ensure (multi_has_role (h_state h) (ctx_sender ctx) BLACKLISTER) Unauthorized
     (try_bind (multi_parsed (ctx_parameter ctx)) (\<lambda>params. multi_blacklist_loop E logger params h))"

text \<open>\<open>upgrade_to\<close> is the upgrade of the instance to a module, \<open>invoke_raw\<close> a call with a serialized parameter.\<close>

definition multi_contract_upgrade ::
    "(bytes \<Rightarrow> multi_host \<Rightarrow> upgrade_error + multi_host) \<Rightarrow>
     (multi_host \<Rightarrow> contract_address \<Rightarrow> bytes \<Rightarrow> string \<Rightarrow> u64 \<Rightarrow> bytes call_contract_error + multi_host) \<Rightarrow>
     (bytes \<times> (string \<times> bytes) option) receive_context \<Rightarrow> multi_host \<Rightarrow> multi_error + multi_host" where
  "multi_contract_upgrade upgrade_to invoke_raw ctx h =
     ensure (multi_has_role (h_state h) (ctx_sender ctx) UPGRADER) Unauthorized
     (try_bind (multi_parsed (ctx_parameter ctx)) (\<lambda>(module_ref, migrate).
      try_bind (map_err (\<lambda>e. Custom (multi_error_from_upgrade e)) (upgrade_to module_ref h)) (\<lambda>h.
      case migrate of
        Some (func, parameters) \<Rightarrow>
          map_err (\<lambda>e. Custom (multi_error_from_call e)) (invoke_raw h (ctx_self_address ctx) parameters func 0)
      | None \<Rightarrow> Inr h)))"

definition multi_contract_set_paused :: "bool receive_context \<Rightarrow> multi_host \<Rightarrow> multi_error + multi_host" where
  "multi_contract_set_paused ctx h =
     ensure (multi_has_role (h_state h) (ctx_sender ctx) PAUSER) Unauthorized
     (try_bind (multi_parsed (ctx_parameter ctx)) (\<lambda>paused. Inr (h\<lparr>h_state := (h_state h)\<lparr>mu_paused := paused\<rparr>\<rparr>)))"

definition multi_contract_grant_role ::
    "multi_event logger \<Rightarrow> (address \<times> multi_roles) receive_context \<Rightarrow> multi_host \<Rightarrow> multi_error + multi_host" where
  "multi_contract_grant_role logger ctx h =
     try_bind (multi_parsed (ctx_parameter ctx)) (\<lambda>(a, role).
     ensure (multi_has_role (h_state h) (ctx_sender ctx) ADMIN) Unauthorized
     (ensure (\<not> multi_has_role (h_state h) a role) (Custom RoleWasAlreadyGranted)
      (multi_log logger (GrantRoleEvent a role) (h\<lparr>h_state := multi_grant_role (h_state h) a role\<rparr>))))"

definition multi_contract_revoke_role ::
    "multi_event logger \<Rightarrow> (address \<times> multi_roles) receive_context \<Rightarrow> multi_host \<Rightarrow> multi_error + multi_host" where
  "multi_contract_revoke_role logger ctx h =
     try_bind (multi_parsed (ctx_parameter ctx)) (\<lambda>(a, role).
     ensure (multi_has_role (h_state h) (ctx_sender ctx) ADMIN) Unauthorized
     (ensure (multi_has_role (h_state h) a role) (Custom RoleWasNotGranted)
      (multi_log logger (RevokeRoleEvent a role) (h\<lparr>h_state := multi_revoke_role (h_state h) a role\<rparr>))))"

section \<open>Reachable states\<close>

text \<open>
  \<open>multi_steps E A n h h'\<close>: calls to the entrypoints take the instance from \<open>h\<close> to \<open>h'\<close>, where every call but
  \<^verbatim>\<open>permit\<close> comes from an address of \<open>A\<close>, and at most \<open>n\<close> of them mint or use a permit. Anybody may submit any
  permit, in any name: a forged one, an expired one, one for another contract or one that was used before. All
  that is asked is that the accounts outside \<open>A\<close> have given no signature away that still counts: a permit
  whose signature the chain finds valid for its signer, with a message for this contract, the signer's current
  nonce and a time not yet over (\<open>live_permit\<close>), is one of an account of \<open>A\<close>. A hook that an entrypoint calls
  runs such calls itself, at most \<open>m\<close> of them minting or using a permit; \<open>multi_permit_hooks\<close> bounds the hooks
  that a permit calls. A step is a call to this code, so the history ends where the instance is upgraded.
\<close>

definition multi_callback_ok :: "(multi_host \<Rightarrow> multi_host \<Rightarrow> bool) \<Rightarrow> multi_call \<Rightarrow> bool" where
  "multi_callback_ok R call \<longleftrightarrow> (\<forall>x a p f amount y. call x a p f amount = Inr y \<longrightarrow> R x y)"

lemma multi_callback_ok_mono [mono]: "(\<And>x y. R x y \<longrightarrow> S x y) \<Longrightarrow> multi_callback_ok R call \<longrightarrow> multi_callback_ok S call"
  unfolding multi_callback_ok_def by blast

definition multi_permit_hooks :: "('sig, 'keys) multi_env \<Rightarrow> 'sig permit_param \<Rightarrow> nat" where
  "multi_permit_hooks E param =
     (case me_parse_message E (pp_message_bytes param) of
        None \<Rightarrow> 0
      | Some message \<Rightarrow> (case me_parse_transfer E (pm_payload message) of None \<Rightarrow> 0 | Some ts \<Rightarrow> length ts))"

definition live_permit ::
    "('sig, 'keys) multi_env \<Rightarrow> 'sig permit_param receive_context \<Rightarrow> 'sig permit_param \<Rightarrow> multi_state \<Rightarrow> bool" where
  "live_permit E ctx param st \<longleftrightarrow>
     me_check_account_signature E (pp_signer param) (pp_signature param)
       (me_hash_sha2_256 E (pp_signer param @ [0, 0, 0, 0, 0, 0, 0, 0] @ pp_message_bytes param)) = Inr True \<and>
     (case me_parse_message E (pp_message_bytes param) of
        None \<Rightarrow> False
      | Some message \<Rightarrow> pm_contract_address message = ctx_self_address ctx \<and>
          pm_nonce message = multi_nonce st (pp_signer param) \<and> ctx_slot_time ctx < pm_timestamp message)"

inductive multi_steps :: "('sig, 'keys) multi_env \<Rightarrow> address set \<Rightarrow> nat \<Rightarrow> multi_host \<Rightarrow> multi_host \<Rightarrow> bool"
  for E :: "('sig, 'keys) multi_env" and A :: "address set" where
  start: "multi_steps E A n h h"
| mint: "multi_steps E A n h h1 \<Longrightarrow> ctx_sender mctx \<in> A \<Longrightarrow> multi_callback_ok (multi_steps E A m) call \<Longrightarrow>
    multi_contract_mint E logger call mctx (receive_amount 0 h1) = Inr h2 \<Longrightarrow> multi_steps E A (n + (1 + m)) h h2"
| burn: "multi_steps E A n h h1 \<Longrightarrow> ctx_sender bctx \<in> A \<Longrightarrow>
    multi_contract_burn E logger bctx (receive_amount 0 h1) = Inr h2 \<Longrightarrow> multi_steps E A n h h2"
| transfer: "multi_steps E A n h h1 \<Longrightarrow> ctx_sender tctx \<in> A \<Longrightarrow> multi_callback_ok (multi_steps E A m) call \<Longrightarrow>
    ctx_parameter tctx = Some ts \<Longrightarrow> multi_contract_transfer E logger call tctx (receive_amount 0 h1) = Inr h2 \<Longrightarrow>
    multi_steps E A (n + m * length ts) h h2"
| permit: "multi_steps E A n h h1 \<Longrightarrow> ctx_parameter pctx = Some param \<Longrightarrow>
    (live_permit E pctx param (h_state h1) \<longrightarrow> Account (pp_signer param) \<in> A) \<Longrightarrow>
    multi_callback_ok (multi_steps E A m) call \<Longrightarrow>
    multi_contract_permit E logger call pctx (receive_amount 0 h1) = Inr h2 \<Longrightarrow>
    multi_steps E A (n + (1 + m * multi_permit_hooks E param)) h h2"
| update_operator: "multi_steps E A n h h1 \<Longrightarrow> ctx_sender octx \<in> A \<Longrightarrow>
    multi_contract_update_operator logger octx (receive_amount 0 h1) = Inr h2 \<Longrightarrow> multi_steps E A n h h2"
| set_implementor: "multi_steps E A n h h1 \<Longrightarrow> ctx_sender ictx \<in> A \<Longrightarrow>
    multi_contract_set_implementor ictx (receive_amount 0 h1) = Inr h2 \<Longrightarrow> multi_steps E A n h h2"
| update_blacklist: "multi_steps E A n h h1 \<Longrightarrow> ctx_sender lctx \<in> A \<Longrightarrow>
    multi_contract_update_blacklist E logger lctx (receive_amount 0 h1) = Inr h2 \<Longrightarrow> multi_steps E A n h h2"
| set_paused: "multi_steps E A n h h1 \<Longrightarrow> ctx_sender sctx \<in> A \<Longrightarrow>
    multi_contract_set_paused sctx (receive_amount 0 h1) = Inr h2 \<Longrightarrow> multi_steps E A n h h2"
| grant_role: "multi_steps E A n h h1 \<Longrightarrow> ctx_sender gctx \<in> A \<Longrightarrow>
    multi_contract_grant_role logger gctx (receive_amount 0 h1) = Inr h2 \<Longrightarrow> multi_steps E A n h h2"
| revoke_role: "multi_steps E A n h h1 \<Longrightarrow> ctx_sender rctx \<in> A \<Longrightarrow>
    multi_contract_revoke_role logger rctx (receive_amount 0 h1) = Inr h2 \<Longrightarrow> multi_steps E A n h h2"

end
