(* ===== verification/Multi_Properties.thy ===== *)
theory Multi_Properties
  imports Multi
begin

text \<open>
  What every history of the contract \<^verbatim>\<open>cis2-multi\<close> guarantees. A guarantee is a relation between the states
  before and after, with a bound on the calls that mint or use a permit. The locale \<open>multi_guarantee\<close>
  names what the single operations of the state have to satisfy under the guards of the code, and shows
  that then every history satisfies the relation, hooks included. It is interpreted three times: for the
  nonces of the signers, for the holdings of the owners, and for the roles with the freeze that the
  blacklist and the pause switch impose.
\<close>

section \<open>Runs of the entrypoints\<close>

definition allowed :: "('sig, 'keys) multi_env \<Rightarrow> multi_state \<Rightarrow> address \<Rightarrow> bool" where
  "allowed E st a \<longleftrightarrow> (\<exists>c. get_canonical_address E a = Inr c \<and> c \<notin> mu_blacklist st)"

lemma not_blacklisted_Inr [simp]: "not_blacklisted E st a r = Inr x \<longleftrightarrow> allowed E st a \<and> r = Inr x"
  by (auto simp: not_blacklisted_def allowed_def try_bind_Inr)

lemma multi_parsed_Inr [simp]: "multi_parsed p = Inr x \<longleftrightarrow> p = Some x"
  by (cases p) (simp_all add: multi_parsed_def)

lemma multi_log_Inr: "multi_log logger ev h = Inr h' \<Longrightarrow> h_state h' = h_state h"
  by (auto simp: multi_log_def dest: log_event_Inr)

lemma receive_amount_state [simp]: "h_state (receive_amount amount h) = h_state h"
  by (simp add: receive_amount_def)

lemma do_mint_run:
  assumes "do_mint E logger params h = Inr h'"
  obtains md where "\<not> mu_paused (h_state h)" "allowed E (h_state h) (receiver_address (mm_to params))"
    "multi_mint (h_state h) (mm_token_id params) (mm_metadata_url params) (receiver_address (mm_to params))
       (mu_mint_airdrop (h_state h)) = (md, h_state h')"
  using assms
  by (auto simp: do_mint_def Let_def try_bind_Inr split: prod.splits dest!: multi_log_Inr)

lemma do_burn_run:
  assumes "do_burn E logger params h = Inr h'"
  shows "\<not> mu_paused (h_state h)" "allowed E (h_state h) (mb_owner params)"
    "multi_burn (h_state h) (mb_token_id params) (mb_amount params) (mb_owner params) = Inr (h_state h')"
  using assms by (auto simp: do_burn_def try_bind_Inr dest!: multi_log_Inr)

lemma do_transfer_run:
  assumes "do_transfer E logger call t h = Inr h'"
  obtains h1 where "\<not> mu_paused (h_state h)" "allowed E (h_state h) (tp_from t)"
    "allowed E (h_state h) (receiver_address (tp_to t))"
    "multi_transfer (h_state h) (tp_token_id t) (tp_amount t) (tp_from t) (receiver_address (tp_to t)) = Inr (h_state h1)"
    "h1 = h' \<or> (\<exists>a f p amount. call h1 a p f amount = Inr h')"
proof -
  obtain st h1 where run: "\<not> mu_paused (h_state h)" "allowed E (h_state h) (tp_from t)"
    "allowed E (h_state h) (receiver_address (tp_to t))"
    "multi_transfer (h_state h) (tp_token_id t) (tp_amount t) (tp_from t) (receiver_address (tp_to t)) = Inr st"
    "multi_log logger (MultiCis2Event (TransferEvent (tp_token_id t) (tp_amount t) (tp_from t) (receiver_address (tp_to t))))
       (h\<lparr>h_state := st\<rparr>) = Inr h1"
    "(case tp_to t of
        ReceiverContract a f \<Rightarrow> map_err (\<lambda>e. Custom (multi_error_from_call e))
          (call h1 a \<lparr>or_token_id = tp_token_id t, or_amount = tp_amount t, or_from = tp_from t, or_data = tp_data t\<rparr> f 0)
      | ReceiverAccount _ \<Rightarrow> Inr h1) = Inr h'"
    using assms unfolding do_transfer_def Let_def not_blacklisted_Inr ensure_Inr try_bind_Inr by blast
  have "h1 = h' \<or> (\<exists>a f p amount. call h1 a p f amount = Inr h')" using run(6) by (cases "tp_to t") auto
  moreover have "h_state h1 = st" using multi_log_Inr [OF run(5)] by simp
  ultimately show thesis using run(1-4) by (intro that [of h1]) simp_all
qed

lemma do_update_operator_run:
  assumes "do_update_operator logger update own operator h = Inr h'"
  shows "\<not> mu_paused (h_state h)"
    "h_state h' = multi_add_operator (h_state h) own operator \<or> h_state h' = multi_remove_operator (h_state h) own operator"
  using assms by (cases update; auto simp: do_update_operator_def Let_def dest!: multi_log_Inr)+

section \<open>Guarantees\<close>

locale multi_guarantee =
  fixes E :: "('sig, 'keys) multi_env" and A :: "address set" and mint_cost :: nat and permit_cost :: nat
    and G :: "nat \<Rightarrow> multi_state \<Rightarrow> multi_state \<Rightarrow> bool"
  assumes cost: "mint_cost + permit_cost \<le> 1"
    and G_refl: "G n st st"
    and G_trans: "G n st st' \<Longrightarrow> G m st' st'' \<Longrightarrow> G (n + m) st st''"
    and G_mint: "\<not> mu_paused st \<Longrightarrow> allowed E st own \<Longrightarrow>
      multi_mint st t url own (mu_mint_airdrop st) = (md, st') \<Longrightarrow> G mint_cost st st'"
    and G_burn: "actor \<in> A \<Longrightarrow> multi_may_act st actor own \<Longrightarrow> \<not> mu_paused st \<Longrightarrow> allowed E st own \<Longrightarrow>
      multi_burn st t amount own = Inr st' \<Longrightarrow> G 0 st st'"
    and G_transfer: "actor \<in> A \<Longrightarrow> multi_may_act st actor own \<Longrightarrow> \<not> mu_paused st \<Longrightarrow> allowed E st own \<Longrightarrow>
      allowed E st to \<Longrightarrow> multi_transfer st t amount own to = Inr st' \<Longrightarrow> G 0 st st'"
    and G_add_operator: "own \<in> A \<Longrightarrow> \<not> mu_paused st \<Longrightarrow> G 0 st (multi_add_operator st own operator)"
    and G_remove_operator: "own \<in> A \<Longrightarrow> \<not> mu_paused st \<Longrightarrow> G 0 st (multi_remove_operator st own operator)"
    and G_bump_nonce: "G permit_cost st (multi_bump_nonce st signer)"
    and G_implementors: "G 0 st (multi_set_implementors st std_id addresses)"
    and G_add_blacklist: "actor \<in> A \<Longrightarrow> multi_has_role st actor BLACKLISTER \<Longrightarrow> G 0 st (multi_add_blacklist st c)"
    and G_remove_blacklist: "actor \<in> A \<Longrightarrow> multi_has_role st actor BLACKLISTER \<Longrightarrow> G 0 st (multi_remove_blacklist st c)"
    and G_paused: "actor \<in> A \<Longrightarrow> multi_has_role st actor PAUSER \<Longrightarrow> G 0 st (st\<lparr>mu_paused := p\<rparr>)"
    and G_grant_role: "actor \<in> A \<Longrightarrow> multi_has_role st actor ADMIN \<Longrightarrow> G 0 st (multi_grant_role st b role)"
    and G_revoke_role: "actor \<in> A \<Longrightarrow> multi_has_role st actor ADMIN \<Longrightarrow> G 0 st (multi_revoke_role st b role)"
begin

abbreviation H :: "nat \<Rightarrow> multi_host \<Rightarrow> multi_host \<Rightarrow> bool" where
  "H n h h' \<equiv> G n (h_state h) (h_state h')"

lemma G_mono: "G n st st' \<Longrightarrow> n \<le> m \<Longrightarrow> G m st st'"
  using G_trans [OF _ G_refl, of n st st' "m - n"] by simp

lemma G_step: "G n st st' \<Longrightarrow> G 0 st' st'' \<Longrightarrow> G n st st''"
  using G_trans [of n st st' 0 st''] by simp

lemma mint_guarantee: "do_mint E logger params h = Inr h' \<Longrightarrow> H mint_cost h h'"
  by (erule do_mint_run) (rule G_mint)

lemma burn_guarantee:
  "do_burn E logger params h = Inr h' \<Longrightarrow> actor \<in> A \<Longrightarrow> multi_may_act (h_state h) actor (mb_owner params) \<Longrightarrow> H 0 h h'"
  using do_burn_run [of E logger params h h'] G_burn by blast

lemma transfer_guarantee:
  assumes "do_transfer E logger call t h = Inr h'" "actor \<in> A" "multi_may_act (h_state h) actor (tp_from t)"
    and "multi_callback_ok (H m) call"
  shows "H m h h'"
  using assms(1)
proof (rule do_transfer_run)
  fix h1 :: multi_host
  assume "\<not> mu_paused (h_state h)" "allowed E (h_state h) (tp_from t)" "allowed E (h_state h) (receiver_address (tp_to t))"
    "multi_transfer (h_state h) (tp_token_id t) (tp_amount t) (tp_from t) (receiver_address (tp_to t)) = Inr (h_state h1)"
  then have "H 0 h h1" using G_transfer assms(2,3) by blast
  moreover assume "h1 = h' \<or> (\<exists>a f p amount. call h1 a p f amount = Inr h')"
  then have "H m h1 h'" using assms(4) G_refl by (auto simp: multi_callback_ok_def)
  ultimately show ?thesis using G_trans by fastforce
qed

lemma transfer_loop_guarantee:
  assumes "actor \<in> A" "multi_callback_ok (H m) call"
  shows "multi_transfer_loop E logger call actor ts h = Inr h' \<Longrightarrow> H (m * length ts) h h'"
proof (induction ts arbitrary: h)
  case (Cons t ts)
  then obtain h1 where h1: "multi_may_act (h_state h) actor (tp_from t)" "do_transfer E logger call t h = Inr h1"
    "multi_transfer_loop E logger call actor ts h1 = Inr h'" by (auto simp: try_bind_Inr)
  show ?case using G_trans [OF transfer_guarantee [OF h1(2) assms(1) h1(1) assms(2)] Cons.IH [OF h1(3)]] by simp
qed (simp add: G_refl)

lemma operator_guarantee: "do_update_operator logger update own operator h = Inr h' \<Longrightarrow> own \<in> A \<Longrightarrow> H 0 h h'"
  using do_update_operator_run [of logger update own operator h h'] G_add_operator G_remove_operator by auto

lemma operator_loop_guarantee: "multi_operator_loop logger own ps h = Inr h' \<Longrightarrow> own \<in> A \<Longrightarrow> H 0 h h'"
  by (induction logger own ps h rule: multi_operator_loop.induct)
    (auto simp: try_bind_Inr G_refl intro: G_step operator_guarantee)

lemma blacklist_loop_guarantee:
  "multi_blacklist_loop E logger ps h = Inr h' \<Longrightarrow> actor \<in> A \<Longrightarrow> multi_has_role (h_state h) actor BLACKLISTER \<Longrightarrow> H 0 h h'"
proof (induction ps arbitrary: h)
  case (Cons p ps)
  obtain update a where p: "p = (update, a)" by force
  with Cons.prems(1) obtain c h1 where h1: "multi_blacklist_loop E logger ps h1 = Inr h'"
    "h_state h1 = (case update of AddBlacklist \<Rightarrow> multi_add_blacklist (h_state h) c
       | RemoveBlacklist \<Rightarrow> multi_remove_blacklist (h_state h) c)"
    by (auto simp: try_bind_Inr Let_def dest!: multi_log_Inr)
  have "H 0 h h1"
    using G_add_blacklist [OF Cons.prems(2,3)] G_remove_blacklist [OF Cons.prems(2,3)] by (cases update) (simp_all add: h1(2))
  moreover have "multi_has_role (h_state h1) actor BLACKLISTER"
    using Cons.prems(3) by (cases update) (simp_all add: h1(2) multi_has_role_def multi_add_blacklist_def multi_remove_blacklist_def)
  ultimately show ?case using G_step Cons.IH [OF h1(1) Cons.prems(2)] by blast
qed (simp add: G_refl)

lemma contract_mint_guarantee:
  assumes "multi_contract_mint E logger call ctx h = Inr h'" "multi_callback_ok (H m) call"
  shows "H (mint_cost + m) h h'"
proof -
  obtain params h1 where h1: "do_mint E logger params h = Inr h1"
    "(case mm_to params of
       ReceiverContract a f \<Rightarrow> map_err (\<lambda>e. Custom (multi_error_from_call e))
         (call h1 a \<lparr>or_token_id = mm_token_id params, or_amount = mu_mint_airdrop (h_state h1), or_from = Contract a,
           or_data = mm_data params\<rparr> f 0)
     | ReceiverAccount _ \<Rightarrow> Inr h1) = Inr h'"
    using assms(1) unfolding multi_contract_mint_def try_bind_Inr by blast
  have "H m h1 h'" using h1(2) assms(2) G_refl by (cases "mm_to params") (auto simp: multi_callback_ok_def)
  with mint_guarantee [OF h1(1)] show ?thesis by (rule G_trans)
qed

lemma permit_action_guarantee:
  assumes "multi_permit_action E logger call signer message h = Inr h'" "Account signer \<in> A" "multi_callback_ok (H m) call"
    and "n = (case me_parse_transfer E (pm_payload message) of None \<Rightarrow> 0 | Some ts \<Rightarrow> length ts)"
  shows "H (mint_cost + m * n) h h'"
proof -
  consider ts where "me_parse_transfer E (pm_payload message) = Some ts"
      "multi_transfer_loop E logger call (Account signer) ts h = Inr h'"
    | ps where "multi_operator_loop logger (Account signer) ps h = Inr h'"
    | params where "do_mint E logger params h = Inr h'"
    | params where "multi_may_act (h_state h) (Account signer) (mb_owner params)" "do_burn E logger params h = Inr h'"
    using assms(1) by (auto simp: multi_permit_action_def try_bind_Inr split: if_splits)
  then show ?thesis
  proof cases
    case 1
    show ?thesis using transfer_loop_guarantee [OF assms(2,3) 1(2)] by (rule G_mono) (simp add: assms(4) 1(1) trans_le_add2)
  next
    case 2
    show ?thesis using operator_loop_guarantee [OF 2 assms(2)] by (rule G_mono) simp
  next
    case 3
    show ?thesis using mint_guarantee [OF 3] by (rule G_mono) simp
  next
    case 4
    show ?thesis using burn_guarantee [OF 4(2) assms(2) 4(1)] by (rule G_mono) simp
  qed
qed

end

text \<open>An accepted permit: every check passed, the nonce moved on, and the action ran.\<close>

lemma multi_contract_permit_run:
  assumes "multi_contract_permit E logger call ctx h = Inr h'"
  obtains param message h1 where "ctx_parameter ctx = Some param" "me_parse_message E (pp_message_bytes param) = Some message"
    "pm_nonce message = multi_nonce (h_state h) (pp_signer param)" "pm_contract_address message = ctx_self_address ctx"
    "ctx_slot_time ctx < pm_timestamp message"
    "me_check_account_signature E (pp_signer param) (pp_signature param)
       (me_hash_sha2_256 E (pp_signer param @ replicate 8 0 @ pp_message_bytes param)) = Inr True"
    "multi_permit_action E logger call (pp_signer param) message
       (h\<lparr>h_state := multi_bump_nonce (h_state h) (pp_signer param)\<rparr>) = Inr h1" "h_state h' = h_state h1"
proof -
  obtain param message h1 where "ctx_parameter ctx = Some param" "me_parse_message E (pp_message_bytes param) = Some message"
    "pm_nonce message = multi_nonce (h_state h) (pp_signer param)" "pm_contract_address message = ctx_self_address ctx"
    "ctx_slot_time ctx < pm_timestamp message"
    "me_check_account_signature E (pp_signer param) (pp_signature param)
       (me_hash_sha2_256 E (pp_signer param @ replicate 8 0 @ pp_message_bytes param)) = Inr True"
    "multi_permit_action E logger call (pp_signer param) message
       (h\<lparr>h_state := multi_bump_nonce (h_state h) (pp_signer param)\<rparr>) = Inr h1"
    "multi_log logger (NonceEvent (pm_nonce message) (pp_signer param)) h1 = Inr h'"
    using assms
    by (auto simp: multi_contract_permit_def contract_view_message_hash_def Let_def try_bind_Inr)
  then show thesis using that multi_log_Inr by blast
qed

lemma multi_permit_live:
  assumes "multi_contract_permit E logger call ctx h = Inr h'" "ctx_parameter ctx = Some param"
  shows "live_permit E ctx param (h_state h)"
  using assms(1) by (rule multi_contract_permit_run) (use assms(2) in \<open>simp add: live_permit_def numeral_eq_Suc\<close>)

context multi_guarantee
begin

lemma permit_guarantee:
  assumes "multi_contract_permit E logger call ctx h = Inr h'" "ctx_parameter ctx = Some param"
    and "live_permit E ctx param (h_state h) \<longrightarrow> Account (pp_signer param) \<in> A" "multi_callback_ok (H m) call"
  shows "H (1 + m * multi_permit_hooks E param) h h'"
  using assms(1)
proof (rule multi_contract_permit_run)
  fix param' message and h1 :: multi_host
  assume p: "ctx_parameter ctx = Some param'" "me_parse_message E (pp_message_bytes param') = Some message"
    "multi_permit_action E logger call (pp_signer param') message
       (h\<lparr>h_state := multi_bump_nonce (h_state h) (pp_signer param')\<rparr>) = Inr h1" "h_state h' = h_state h1"
  have [simp]: "param' = param" using assms(2) p(1) by simp
  have "Account (pp_signer param) \<in> A" using assms(3) multi_permit_live [OF assms(1,2)] by simp
  then have "H (mint_cost + m * multi_permit_hooks E param) (h\<lparr>h_state := multi_bump_nonce (h_state h) (pp_signer param)\<rparr>) h1"
    using permit_action_guarantee [OF p(3) _ assms(4)] p(2) by (simp add: multi_permit_hooks_def)
  then have "H (permit_cost + (mint_cost + m * multi_permit_hooks E param)) h h1" using G_trans [OF G_bump_nonce] by simp
  then show ?thesis using cost by (auto simp: p(4) intro: G_mono)
qed

theorem steps_guarantee: "multi_steps E A n h h' \<Longrightarrow> H n h h'"
proof (induction rule: multi_steps.induct)
  case (mint n h h1 mctx m call logger h2)
  have "multi_callback_ok (H m) call" using mint.IH(2) by (simp add: multi_callback_ok_def)
  from contract_mint_guarantee [OF mint.hyps(3) this] have "H (1 + m) h1 h2" using cost by (auto intro: G_mono)
  with mint.IH(1) show ?case by (rule G_trans)
next
  case (burn n h h1 bctx logger h2)
  then obtain params where "multi_may_act (h_state h1) (ctx_sender bctx) (mb_owner params)"
    "do_burn E logger params (receive_amount 0 h1) = Inr h2" by (auto simp: multi_contract_burn_def try_bind_Inr)
  then have "H 0 h1 h2" using burn_guarantee [of logger params "receive_amount 0 h1" h2] burn.hyps(2) by simp
  with burn.IH show ?case by (rule G_step)
next
  case (transfer n h h1 tctx m call ts logger h2)
  have "multi_callback_ok (H m) call" using transfer.IH(2) by (simp add: multi_callback_ok_def)
  from transfer_loop_guarantee [OF transfer.hyps(2) this] have "H (m * length ts) h1 h2"
    using transfer.hyps(3,4) by (fastforce simp: multi_contract_transfer_def try_bind_Inr)
  with transfer.IH(1) show ?case by (rule G_trans)
next
  case (permit n h h1 pctx param m call logger h2)
  have "multi_callback_ok (H m) call" using permit.IH(2) by (simp add: multi_callback_ok_def)
  from permit_guarantee [OF permit.hyps(4,2) _ this] have "H (1 + m * multi_permit_hooks E param) h1 h2"
    using permit.hyps(3) by simp
  with permit.IH(1) show ?case by (rule G_trans)
next
  case (update_operator n h h1 octx logger h2)
  then have "H 0 h1 h2"
    using operator_loop_guarantee [OF _ update_operator.hyps(2)] by (fastforce simp: multi_contract_update_operator_def try_bind_Inr)
  with update_operator.IH show ?case by (rule G_step)
next
  case (set_implementor n h h1 ictx h2)
  then have "H 0 h1 h2" using G_implementors by (auto simp: multi_contract_set_implementor_def try_bind_Inr)
  with set_implementor.IH show ?case by (rule G_step)
next
  case (update_blacklist n h h1 lctx logger h2)
  then have "H 0 h1 h2" using blacklist_loop_guarantee [OF _ update_blacklist.hyps(2)]
    by (fastforce simp: multi_contract_update_blacklist_def try_bind_Inr)
  with update_blacklist.IH show ?case by (rule G_step)
next
  case (set_paused n h h1 sctx h2)
  then have "H 0 h1 h2" using G_paused by (auto simp: multi_contract_set_paused_def try_bind_Inr)
  with set_paused.IH show ?case by (rule G_step)
next
  case (grant_role n h h1 gctx logger h2)
  then have "H 0 h1 h2" using G_grant_role
    by (auto simp: multi_contract_grant_role_def try_bind_Inr dest!: multi_log_Inr)
  with grant_role.IH show ?case by (rule G_step)
next
  case (revoke_role n h h1 rctx logger h2)
  then have "H 0 h1 h2" using G_revoke_role
    by (auto simp: multi_contract_revoke_role_def try_bind_Inr dest!: multi_log_Inr)
  with revoke_role.IH show ?case by (rule G_step)
qed (rule G_refl)

end

section \<open>Nonces\<close>

definition nonces_advance :: "nat \<Rightarrow> multi_state \<Rightarrow> multi_state \<Rightarrow> bool" where
  "nonces_advance n st st' \<longleftrightarrow> (\<forall>a. \<exists>k \<le> n. multi_nonce st' a = multi_nonce st a + of_nat k)"

lemma nonces_advance_same: "mu_nonces_registry st' = mu_nonces_registry st \<Longrightarrow> nonces_advance n st st'"
  by (auto simp: nonces_advance_def multi_nonce_def)

lemma multi_registry_simps [simp]:
  "mu_nonces_registry (multi_credit st t amount a) = mu_nonces_registry st"
  "mu_nonces_registry (multi_add_operator st a b) = mu_nonces_registry st"
  "mu_nonces_registry (multi_remove_operator st a b) = mu_nonces_registry st"
  "mu_nonces_registry (multi_set_implementors st std_id addresses) = mu_nonces_registry st"
  "mu_nonces_registry (multi_add_blacklist st a) = mu_nonces_registry st"
  "mu_nonces_registry (multi_remove_blacklist st a) = mu_nonces_registry st"
  "mu_nonces_registry (multi_grant_role st a role) = mu_nonces_registry st"
  "mu_nonces_registry (multi_revoke_role st a role) = mu_nonces_registry st"
  by (simp_all add: multi_credit_def multi_add_operator_def multi_remove_operator_def multi_set_implementors_def
      multi_add_blacklist_def multi_remove_blacklist_def multi_grant_role_def multi_revoke_role_def Let_def split: option.splits)

lemma multi_bump_nonce_nonce: "multi_nonce (multi_bump_nonce st a) b = multi_nonce st b + (if b = a then 1 else 0)"
  by (simp add: multi_bump_nonce_def multi_nonce_def)

lemma nonces_advance_trans:
  assumes "nonces_advance n st st'" "nonces_advance m st' st''"
  shows "nonces_advance (n + m) st st''"
  unfolding nonces_advance_def
proof
  fix a
  obtain k l where "k \<le> n" "multi_nonce st' a = multi_nonce st a + of_nat k"
    "l \<le> m" "multi_nonce st'' a = multi_nonce st' a + of_nat l"
    using assms unfolding nonces_advance_def by blast
  then show "\<exists>k \<le> n + m. multi_nonce st'' a = multi_nonce st a + of_nat k" by (intro exI [of _ "k + l"]) simp
qed

lemma nonces_advance_bump: "nonces_advance 1 st (multi_bump_nonce st signer)"
  unfolding nonces_advance_def
proof
  fix a
  show "\<exists>k \<le> 1. multi_nonce (multi_bump_nonce st signer) a = multi_nonce st a + of_nat k"
    by (rule exI [of _ "if a = signer then 1 else 0"]) (simp add: multi_bump_nonce_nonce)
qed

interpretation nonces: multi_guarantee E A 0 1 nonces_advance for E :: "('sig, 'keys) multi_env" and A
proof (unfold_locales, goal_cases)
  case (3 n st st' m st'')
  then show ?case by (rule nonces_advance_trans)
next
  case (9 st signer)
  show ?case by (rule nonces_advance_bump)
qed (auto simp: multi_mint_def multi_burn_def multi_transfer_def Let_def intro!: nonces_advance_same
    split: if_splits option.splits)

section \<open>Holdings\<close>

definition multi_owns :: "multi_state \<Rightarrow> u8 \<Rightarrow> address \<Rightarrow> u64" where
  "multi_owns st t a = balance_entry (multi_entry (mu_state st) a) t"

definition multi_supply :: "multi_state \<Rightarrow> u8 \<Rightarrow> nat" where
  "multi_supply st t = total (\<lambda>s. unat (balance_entry s t)) (mu_state st)"

definition multi_operators :: "multi_state \<Rightarrow> address \<Rightarrow> address set" where
  "multi_operators st own = ma_operators (multi_entry (mu_state st) own)"

lemma multi_is_operator_iff: "multi_is_operator st a own \<longleftrightarrow> a \<in> multi_operators st own"
  by (simp add: multi_is_operator_def multi_operators_def multi_entry_def multi_address_state_empty_def split: option.splits)

lemma multi_balance_owns: "multi_balance st t a = Inr b \<longleftrightarrow> multi_contains_token st t \<and> b = multi_owns st t a"
  by (auto simp: multi_balance_def multi_owns_def multi_entry_def balance_entry_def multi_address_state_empty_def
      split: option.splits)

text \<open>A new balance of one address for one token.\<close>

definition set_balance :: "multi_state \<Rightarrow> u8 \<Rightarrow> address \<Rightarrow> u64 \<Rightarrow> multi_state" where
  "set_balance st t a b = (let s = multi_entry (mu_state st) a
     in st\<lparr>mu_state := (mu_state st)(a \<mapsto> s\<lparr>ma_balances := (ma_balances s)(t \<mapsto> b)\<rparr>)\<rparr>)"

lemma set_balance_simps [simp]:
  "multi_owns (set_balance st t a b) u c = (if u = t \<and> c = a then b else multi_owns st u c)"
  "multi_operators (set_balance st t a b) c = multi_operators st c"
  "finite (dom (mu_state (set_balance st t a b))) = finite (dom (mu_state st))"
  "mu_tokens (set_balance st t a b) = mu_tokens st" "mu_mint_airdrop (set_balance st t a b) = mu_mint_airdrop st"
  "mu_roles (set_balance st t a b) = mu_roles st" "mu_blacklist (set_balance st t a b) = mu_blacklist st"
  "mu_paused (set_balance st t a b) = mu_paused st"
  by (auto simp: set_balance_def multi_owns_def multi_operators_def multi_entry_def balance_entry_def Let_def)

lemma set_balance_supply:
  assumes "finite (dom (mu_state st))"
  shows "multi_supply (set_balance st t a b) u + (if u = t then unat (multi_owns st t a) else 0) =
    multi_supply st u + (if u = t then unat b else 0)"
proof -
  let ?s = "multi_entry (mu_state st) a"
  have "at_key (\<lambda>s. unat (balance_entry s u)) (mu_state st) a = unat (balance_entry ?s u)"
    by (simp add: at_key_def multi_entry_def balance_entry_def multi_address_state_empty_def split: option.splits)
  then have "multi_supply (set_balance st t a b) u + unat (balance_entry ?s u) =
    multi_supply st u + unat (balance_entry (?s\<lparr>ma_balances := (ma_balances ?s)(t \<mapsto> b)\<rparr>) u)"
    using total_upd [OF assms, of "\<lambda>s. unat (balance_entry s u)" a] by (simp add: multi_supply_def set_balance_def Let_def)
  then show ?thesis by (auto simp: multi_owns_def balance_entry_def)
qed

lemma multi_owns_le_supply: "finite (dom (mu_state st)) \<Longrightarrow> unat (multi_owns st t a) \<le> multi_supply st t"
  using at_key_le_total [of "mu_state st" "\<lambda>s. unat (balance_entry s t)" a]
  by (cases "mu_state st a")
    (simp_all add: multi_supply_def multi_owns_def at_key_def multi_entry_def balance_entry_def multi_address_state_empty_def)

lemma multi_credit_set: "multi_credit st t amount a = set_balance st t a (multi_owns st t a + amount)"
  by (simp add: multi_credit_def set_balance_def multi_owns_def Let_def)

lemma multi_mint_run:
  assumes "multi_mint st t url own airdrop = (md, st')"
  obtains tokens where "mu_tokens st \<subseteq>\<^sub>m tokens" "st' = multi_credit (st\<lparr>mu_tokens := tokens\<rparr>) t airdrop own"
proof (cases "mu_tokens st t")
  case None
  then show thesis using assms by (intro that [of "(mu_tokens st)(t \<mapsto> url)"]) (auto simp: multi_mint_def map_le_def)
next
  case (Some m)
  then show thesis using assms by (intro that [of "mu_tokens st"]) (auto simp: multi_mint_def)
qed

lemma multi_burn_run:
  assumes "multi_burn st t amount own = Inr st'"
  shows "amount \<le> multi_owns st t own" "st' = set_balance st t own (multi_owns st t own - amount)"
  using assms by (auto simp: multi_burn_def Let_def set_balance_def multi_owns_def multi_entry_def split: option.splits)

lemma multi_transfer_run:
  assumes "multi_transfer st t amount own to = Inr st'"
  shows "amount = 0 \<and> st' = st \<or> amount \<le> multi_owns st t own \<and>
    st' = multi_credit (set_balance st t own (multi_owns st t own - amount)) t amount to"
  using assms by (auto simp: multi_transfer_def Let_def set_balance_def multi_owns_def multi_entry_def balance_entry_def
      split: if_splits option.splits)

text \<open>
  What the holdings of the addresses outside \<open>A\<close> keep while addresses of \<open>A\<close> act, as long as the supply
  of a token and what may be minted of it fit into 64 bits.
\<close>

definition token_kept :: "address set \<Rightarrow> nat \<Rightarrow> multi_state \<Rightarrow> multi_state \<Rightarrow> u8 \<Rightarrow> bool" where
  "token_kept A minted st st' t \<longleftrightarrow> multi_supply st t + minted < 2 ^ 64 \<longrightarrow>
     multi_supply st' t \<le> multi_supply st t + minted \<and>
     (\<forall>a. a \<notin> A \<and> multi_operators st a \<inter> A = {} \<longrightarrow> multi_owns st t a \<le> multi_owns st' t a)"

definition holdings_kept :: "address set \<Rightarrow> nat \<Rightarrow> multi_state \<Rightarrow> multi_state \<Rightarrow> bool" where
  "holdings_kept A n st st' \<longleftrightarrow> mu_tokens st \<subseteq>\<^sub>m mu_tokens st' \<and> mu_mint_airdrop st' = mu_mint_airdrop st \<and>
     (\<forall>a. a \<notin> A \<longrightarrow> multi_operators st' a = multi_operators st a) \<and>
     (finite (dom (mu_state st)) \<longrightarrow> finite (dom (mu_state st')) \<and>
        (\<forall>t. token_kept A (n * unat (mu_mint_airdrop st)) st st' t))"

lemma token_kept_trans:
  assumes "token_kept A n st st' t" "token_kept A m st' st'' t" "\<forall>a. a \<notin> A \<longrightarrow> multi_operators st' a = multi_operators st a"
  shows "token_kept A (n + m) st st'' t"
  unfolding token_kept_def
proof (intro impI conjI allI)
  assume small: "multi_supply st t + (n + m) < 2 ^ 64"
  then have one: "multi_supply st' t \<le> multi_supply st t + n"
    "\<forall>a. a \<notin> A \<and> multi_operators st a \<inter> A = {} \<longrightarrow> multi_owns st t a \<le> multi_owns st' t a"
    using assms(1) by (auto simp: token_kept_def)
  then have two: "multi_supply st'' t \<le> multi_supply st' t + m"
    "\<forall>a. a \<notin> A \<and> multi_operators st' a \<inter> A = {} \<longrightarrow> multi_owns st' t a \<le> multi_owns st'' t a"
    using assms(2) small by (auto simp: token_kept_def)
  show "multi_supply st'' t \<le> multi_supply st t + (n + m)" using one(1) two(1) by simp
  fix a
  assume "a \<notin> A \<and> multi_operators st a \<inter> A = {}"
  then show "multi_owns st t a \<le> multi_owns st'' t a" using one(2) two(2) assms(3) by (metis order_trans)
qed

lemma holdings_kept_trans:
  assumes "holdings_kept A n st st'" "holdings_kept A m st' st''"
  shows "holdings_kept A (n + m) st st''"
  unfolding holdings_kept_def
proof (intro impI conjI allI)
  have same: "mu_mint_airdrop st' = mu_mint_airdrop st" "\<forall>a. a \<notin> A \<longrightarrow> multi_operators st' a = multi_operators st a"
    using assms(1) by (simp_all add: holdings_kept_def)
  show "mu_tokens st \<subseteq>\<^sub>m mu_tokens st''" using assms unfolding holdings_kept_def by (blast intro: map_le_trans)
  show "mu_mint_airdrop st'' = mu_mint_airdrop st" using assms by (simp add: holdings_kept_def)
  show "multi_operators st'' a = multi_operators st a" if "a \<notin> A" for a using assms that by (simp add: holdings_kept_def)
  assume fin: "finite (dom (mu_state st))"
  then show "finite (dom (mu_state st''))" using assms by (simp add: holdings_kept_def)
  fix t
  have "token_kept A (n * unat (mu_mint_airdrop st)) st st' t" "token_kept A (m * unat (mu_mint_airdrop st)) st' st'' t"
    using assms fin same(1) by (simp_all add: holdings_kept_def)
  from token_kept_trans [OF this same(2)] show "token_kept A ((n + m) * unat (mu_mint_airdrop st)) st st'' t"
    by (simp add: add_mult_distrib)
qed

lemma multi_same_state:
  assumes "mu_state st' = mu_state st"
  shows "multi_owns st' = multi_owns st" "multi_supply st' = multi_supply st" "multi_operators st' = multi_operators st"
  by (intro ext; simp add: multi_owns_def multi_supply_def multi_operators_def assms)+

lemma multi_same_tokens [simp]:
  "multi_owns (st\<lparr>mu_tokens := tokens\<rparr>) = multi_owns st"
  "multi_supply (st\<lparr>mu_tokens := tokens\<rparr>) = multi_supply st"
  "multi_operators (st\<lparr>mu_tokens := tokens\<rparr>) = multi_operators st"
  by (rule multi_same_state; simp)+

lemma holdings_kept_same:
  assumes "mu_state st' = mu_state st" "mu_tokens st' = mu_tokens st" "mu_mint_airdrop st' = mu_mint_airdrop st"
  shows "holdings_kept A n st st'"
  using assms(2,3) by (simp add: holdings_kept_def token_kept_def multi_same_state [OF assms(1)] assms(1))

lemma holdings_kept_credit:
  assumes "mu_tokens st \<subseteq>\<^sub>m tokens"
  shows "holdings_kept A 1 st (multi_credit (st\<lparr>mu_tokens := tokens\<rparr>) t (mu_mint_airdrop st) own)"
  unfolding holdings_kept_def
proof (intro impI conjI allI)
  let ?st = "st\<lparr>mu_tokens := tokens\<rparr>"
  let ?st' = "multi_credit ?st t (mu_mint_airdrop st) own"
  show "mu_tokens st \<subseteq>\<^sub>m mu_tokens ?st'" using assms by (simp add: multi_credit_set)
  assume fin: "finite (dom (mu_state st))"
  then show "finite (dom (mu_state ?st'))" by (simp add: multi_credit_set)
  fix u
  show "token_kept A (1 * unat (mu_mint_airdrop st)) st ?st' u"
  proof (cases "u = t")
    case True
    show ?thesis unfolding token_kept_def
    proof
      assume small: "multi_supply st u + 1 * unat (mu_mint_airdrop st) < 2 ^ 64"
      have "unat (multi_owns st t own) \<le> multi_supply st t" by (rule multi_owns_le_supply [OF fin])
      then have sum: "unat (multi_owns st t own + mu_mint_airdrop st) = unat (multi_owns st t own) + unat (mu_mint_airdrop st)"
        using small True by (simp add: unat_word_ariths)
      have "multi_supply ?st' t = multi_supply st t + unat (mu_mint_airdrop st)"
        using set_balance_supply [of ?st t own "multi_owns ?st t own + mu_mint_airdrop st" t] fin
        by (simp add: multi_credit_set sum)
      moreover have "multi_owns st t a \<le> multi_owns ?st' t a" for a
        using sum by (simp add: multi_credit_set word_le_nat_alt)
      ultimately show "multi_supply ?st' u \<le> multi_supply st u + 1 * unat (mu_mint_airdrop st) \<and>
        (\<forall>a. a \<notin> A \<and> multi_operators st a \<inter> A = {} \<longrightarrow> multi_owns st u a \<le> multi_owns ?st' u a)" using True by simp
    qed
  next
    case False
    have "multi_supply ?st' u = multi_supply st u"
      using set_balance_supply [of ?st t own "multi_owns ?st t own + mu_mint_airdrop st" u] fin False
      by (simp add: multi_credit_set)
    then show ?thesis using False by (simp add: token_kept_def multi_credit_set)
  qed
qed (simp_all add: multi_credit_set)

text \<open>Burning and sending are up to the owner and its operators.\<close>

lemma debit_token:
  assumes fin: "finite (dom (mu_state st))" and enough: "amount \<le> multi_owns st t own"
  shows "multi_supply (set_balance st t own (multi_owns st t own - amount)) u + (if u = t then unat amount else 0) = multi_supply st u"
proof -
  have "unat (multi_owns st t own - amount) = unat (multi_owns st t own) - unat amount" "unat amount \<le> unat (multi_owns st t own)"
    using enough by (simp_all add: unat_sub word_le_nat_alt)
  then show ?thesis using set_balance_supply [OF fin, of t own "multi_owns st t own - amount" u]
    multi_owns_le_supply [OF fin, of t own] by (auto split: if_splits)
qed

lemma holdings_kept_burn:
  assumes "amount \<le> multi_owns st t own" "own \<in> A \<or> multi_operators st own \<inter> A \<noteq> {}"
  shows "holdings_kept A 0 st (set_balance st t own (multi_owns st t own - amount))"
proof -
  have "token_kept A 0 st (set_balance st t own (multi_owns st t own - amount)) u" if "finite (dom (mu_state st))" for u
    using debit_token [OF that assms(1), of u] assms(2) by (auto simp: token_kept_def)
  then show ?thesis by (simp add: holdings_kept_def)
qed

lemma holdings_kept_transfer:
  assumes "amount \<le> multi_owns st t own" "own \<in> A \<or> multi_operators st own \<inter> A \<noteq> {}"
  shows "holdings_kept A 0 st (multi_credit (set_balance st t own (multi_owns st t own - amount)) t amount to)"
proof -
  let ?st1 = "set_balance st t own (multi_owns st t own - amount)"
  let ?st' = "multi_credit ?st1 t amount to"
  have "token_kept A 0 st ?st' u" if fin: "finite (dom (mu_state st))" for u
    unfolding token_kept_def
  proof
    assume small: "multi_supply st u + 0 < 2 ^ 64"
    note debit = debit_token [OF fin assms(1), of u]
    have fin1: "finite (dom (mu_state ?st1))" using fin by simp
    note credit = set_balance_supply [OF fin1, of t to "multi_owns ?st1 t to + amount" u]
    have sum: "unat (multi_owns ?st1 t to + amount) = unat (multi_owns ?st1 t to) + unat amount" if "u = t"
      using multi_owns_le_supply [OF fin1, of t to] debit small that by (simp add: unat_word_ariths)
    have "multi_supply ?st' u = multi_supply st u" using debit credit sum by (simp add: multi_credit_set split: if_splits)
    moreover have "multi_owns st u a \<le> multi_owns ?st' u a" if "a \<notin> A \<and> multi_operators st a \<inter> A = {}" for a
    proof -
      have "a \<noteq> own" using assms(2) that by auto
      then show ?thesis using sum by (auto simp: multi_credit_set word_le_nat_alt)
    qed
    ultimately show "multi_supply ?st' u \<le> multi_supply st u + 0 \<and>
      (\<forall>a. a \<notin> A \<and> multi_operators st a \<inter> A = {} \<longrightarrow> multi_owns st u a \<le> multi_owns ?st' u a)" by simp
  qed
  then show ?thesis by (simp add: holdings_kept_def multi_credit_set)
qed

lemma may_act_unprotected: "actor \<in> A \<Longrightarrow> multi_may_act st actor own \<Longrightarrow> own \<in> A \<or> multi_operators st own \<inter> A \<noteq> {}"
  by (auto simp: multi_may_act_def multi_is_operator_iff)

lemma holdings_kept_operator:
  assumes "own \<in> A"
  shows "holdings_kept A 0 st (multi_add_operator st own operator)" "holdings_kept A 0 st (multi_remove_operator st own operator)"
proof -
  have kept: "holdings_kept A 0 st (st\<lparr>mu_state := (mu_state st)(own \<mapsto> multi_entry (mu_state st) own\<lparr>ma_operators := f\<rparr>)\<rparr>)"
    (is "holdings_kept A 0 st ?st'") for f
  proof -
    have "multi_owns ?st' u a = multi_owns st u a" for u a by (simp add: multi_owns_def multi_entry_def balance_entry_def)
    moreover have "multi_supply ?st' u = multi_supply st u" if "finite (dom (mu_state st))" for u
      using total_upd [OF that, of "\<lambda>s. unat (balance_entry s u)" own "multi_entry (mu_state st) own\<lparr>ma_operators := f\<rparr>"]
      by (simp add: multi_supply_def balance_entry_def at_key_def multi_entry_def multi_address_state_empty_def split: option.splits)
    moreover have "multi_operators ?st' a = multi_operators st a" if "a \<notin> A" for a
      using assms that by (auto simp: multi_operators_def multi_entry_def)
    ultimately show ?thesis by (simp add: holdings_kept_def token_kept_def)
  qed
  show "holdings_kept A 0 st (multi_add_operator st own operator)"
    using kept by (simp add: multi_add_operator_def Let_def)
  show "holdings_kept A 0 st (multi_remove_operator st own operator)"
    using kept holdings_kept_same [of st st A 0]
    by (auto simp: multi_remove_operator_def multi_entry_def split: option.splits)
qed

interpretation holdings: multi_guarantee E A 1 0 "holdings_kept A" for E :: "('sig, 'keys) multi_env" and A
proof (unfold_locales, goal_cases)
  case (3 n st st' m st'')
  then show ?case by (rule holdings_kept_trans)
next
  case (4 st own t url md st')
  from 4(3) show ?case by (rule multi_mint_run) (metis holdings_kept_credit)
next
  case (5 actor st own t amount st')
  then show ?case using multi_burn_run [OF 5(5)] holdings_kept_burn may_act_unprotected by metis
next
  case (6 actor st own to t amount st')
  then show ?case using multi_transfer_run [OF 6(6)] holdings_kept_transfer may_act_unprotected holdings_kept_same by metis
next
  case (7 own st operator)
  then show ?case by (simp add: holdings_kept_operator)
next
  case (8 own st operator)
  then show ?case by (simp add: holdings_kept_operator)
qed (auto intro!: holdings_kept_same simp: multi_bump_nonce_def multi_set_implementors_def multi_add_blacklist_def
    multi_remove_blacklist_def multi_grant_role_def multi_revoke_role_def Let_def split: option.splits)

section \<open>Roles, blacklist and pause\<close>

text \<open>
  While nobody in \<open>A\<close> is an admin, the roles stay; then a blacklisted holder is frozen unless \<open>A\<close> has a
  blacklister, and a paused contract is frozen unless \<open>A\<close> has a pauser.
\<close>

definition lacks_role :: "address set \<Rightarrow> multi_state \<Rightarrow> multi_roles \<Rightarrow> bool" where
  "lacks_role A st role \<longleftrightarrow> (\<forall>a \<in> A. \<not> multi_has_role st a role)"

definition frozen :: "('sig, 'keys) multi_env \<Rightarrow> address set \<Rightarrow> nat \<Rightarrow> multi_state \<Rightarrow> multi_state \<Rightarrow> bool" where
  "frozen E A n st st' \<longleftrightarrow> lacks_role A st ADMIN \<longrightarrow>
     mu_roles st' = mu_roles st \<and>
     (lacks_role A st BLACKLISTER \<longrightarrow> mu_blacklist st' = mu_blacklist st \<and>
        (\<forall>a t. \<not> allowed E st a \<longrightarrow> multi_owns st' t a = multi_owns st t a)) \<and>
     (lacks_role A st PAUSER \<longrightarrow> mu_paused st' = mu_paused st \<and>
        (mu_paused st \<longrightarrow> mu_state st' = mu_state st \<and> mu_tokens st' = mu_tokens st))"

lemma lacks_role_same: "mu_roles st' = mu_roles st \<Longrightarrow> lacks_role A st' role = lacks_role A st role"
  by (simp add: lacks_role_def multi_has_role_def)

lemma allowed_same: "mu_blacklist st' = mu_blacklist st \<Longrightarrow> allowed E st' a = allowed E st a"
  by (simp add: allowed_def)

lemma frozen_trans:
  assumes "frozen E A n st st'" "frozen E A m st' st''"
  shows "frozen E A (n + m) st st''"
  unfolding frozen_def
proof (intro impI conjI)
  assume admin: "lacks_role A st ADMIN"
  then have r: "mu_roles st' = mu_roles st" using assms(1) by (simp add: frozen_def)
  have admin': "lacks_role A st' ADMIN" using admin by (simp add: lacks_role_same [OF r])
  then show "mu_roles st'' = mu_roles st" using assms(2) by (simp add: frozen_def r)
  {
    assume "lacks_role A st BLACKLISTER"
    moreover from this have "lacks_role A st' BLACKLISTER" by (simp add: lacks_role_same [OF r])
    ultimately have b: "mu_blacklist st' = mu_blacklist st" "mu_blacklist st'' = mu_blacklist st'"
      "\<And>a t. \<not> allowed E st a \<Longrightarrow> multi_owns st' t a = multi_owns st t a"
      "\<And>a t. \<not> allowed E st' a \<Longrightarrow> multi_owns st'' t a = multi_owns st' t a"
      using assms admin admin' by (simp_all add: frozen_def)
    show "mu_blacklist st'' = mu_blacklist st" "\<forall>a t. \<not> allowed E st a \<longrightarrow> multi_owns st'' t a = multi_owns st t a"
      using b(3,4) by (simp_all add: b(1,2) allowed_same [OF b(1)])
  }
  {
    assume "lacks_role A st PAUSER"
    moreover from this have "lacks_role A st' PAUSER" by (simp add: lacks_role_same [OF r])
    ultimately have p: "mu_paused st' = mu_paused st" "mu_paused st'' = mu_paused st'"
      "mu_paused st \<Longrightarrow> mu_state st' = mu_state st \<and> mu_tokens st' = mu_tokens st"
      "mu_paused st' \<Longrightarrow> mu_state st'' = mu_state st' \<and> mu_tokens st'' = mu_tokens st'"
      using assms admin admin' by (simp_all add: frozen_def)
    show "mu_paused st'' = mu_paused st" by (simp add: p)
    show "mu_state st'' = mu_state st" "mu_tokens st'' = mu_tokens st" if "mu_paused st" using that p by simp_all
  }
qed

text \<open>An operation on the holdings, which runs only while the contract is not paused.\<close>

lemma frozen_operation:
  assumes "\<not> mu_paused st" "mu_roles st' = mu_roles st" "mu_blacklist st' = mu_blacklist st" "mu_paused st' = mu_paused st"
    and "\<And>a t. \<not> allowed E st a \<Longrightarrow> multi_owns st' t a = multi_owns st t a"
  shows "frozen E A n st st'"
  using assms by (simp add: frozen_def)

text \<open>An operation on what concerns neither the holdings nor the roles.\<close>

lemma frozen_other:
  assumes "mu_state st' = mu_state st" "mu_tokens st' = mu_tokens st" "mu_roles st' = mu_roles st"
    and "mu_blacklist st' = mu_blacklist st \<or> \<not> lacks_role A st BLACKLISTER"
    and "mu_paused st' = mu_paused st \<or> \<not> lacks_role A st PAUSER"
  shows "frozen E A n st st'"
  using assms(2-5) by (auto simp: frozen_def multi_same_state [OF assms(1)] assms(1))

lemma frozen_admin: "actor \<in> A \<Longrightarrow> multi_has_role st actor ADMIN \<Longrightarrow> frozen E A n st st'"
  by (auto simp: frozen_def lacks_role_def)

lemma multi_operator_fields:
  "mu_roles (multi_add_operator st a b) = mu_roles st" "mu_roles (multi_remove_operator st a b) = mu_roles st"
  "mu_blacklist (multi_add_operator st a b) = mu_blacklist st" "mu_blacklist (multi_remove_operator st a b) = mu_blacklist st"
  "mu_paused (multi_add_operator st a b) = mu_paused st" "mu_paused (multi_remove_operator st a b) = mu_paused st"
  "multi_owns (multi_add_operator st a b) t c = multi_owns st t c" "multi_owns (multi_remove_operator st a b) t c = multi_owns st t c"
  by (auto simp: multi_add_operator_def multi_remove_operator_def Let_def multi_owns_def multi_entry_def balance_entry_def
      split: option.splits)

interpretation freeze: multi_guarantee E A 0 0 "frozen E A" for E :: "('sig, 'keys) multi_env" and A
proof (unfold_locales, goal_cases)
  case (3 n st st' m st'')
  then show ?case by (rule frozen_trans)
next
  case (4 st own t url md st')
  obtain tokens where st': "st' = multi_credit (st\<lparr>mu_tokens := tokens\<rparr>) t (mu_mint_airdrop st) own"
    using 4(3) by (rule multi_mint_run)
  show ?case by (rule frozen_operation [OF 4(1)]) (use 4(2) in \<open>auto simp: st' multi_credit_set\<close>)
next
  case (5 actor st own t amount st')
  show ?case by (rule frozen_operation [OF 5(3)]) (use 5(4) in \<open>auto simp: multi_burn_run(2) [OF 5(5)]\<close>)
next
  case (6 actor st own to t amount st')
  show ?case by (rule frozen_operation [OF 6(3)]) (use multi_transfer_run [OF 6(6)] 6(4,5) in \<open>auto simp: multi_credit_set\<close>)
next
  case (7 own st operator)
  then show ?case by (intro frozen_operation) (simp_all add: multi_operator_fields)
next
  case (8 own st operator)
  then show ?case by (intro frozen_operation) (simp_all add: multi_operator_fields)
next
  case (14 actor st b role)
  then show ?case by (rule frozen_admin)
next
  case (15 actor st b role)
  then show ?case by (rule frozen_admin)
qed (auto intro!: frozen_other simp: multi_bump_nonce_def multi_set_implementors_def multi_add_blacklist_def
    multi_remove_blacklist_def lacks_role_def)

section \<open>Properties\<close>

lemma multi_init_state: "multi_init logger origin p = Inr h \<Longrightarrow>
    \<exists>airdrop. p = Some airdrop \<and> h_state h = multi_grant_role (multi_empty airdrop) (Account origin) ADMIN"
  by (auto simp: multi_init_def try_bind_Inr Let_def dest!: multi_log_Inr)

lemma multi_reached:
  assumes "multi_init logger origin (Some airdrop) = Inr h0" "multi_steps E B k h0 h" "k * unat airdrop < 2 ^ 64"
  shows "finite (dom (mu_state (h_state h)))" "mu_mint_airdrop (h_state h) = airdrop"
    "multi_supply (h_state h) t \<le> k * unat airdrop"
proof -
  have h0: "mu_state (h_state h0) = Map.empty" "mu_mint_airdrop (h_state h0) = airdrop"
    using multi_init_state [OF assms(1)] by (auto simp: multi_grant_role_def multi_empty_def)
  have "holdings_kept B k (h_state h0) (h_state h)" by (rule holdings.steps_guarantee [OF assms(2)])
  then show "finite (dom (mu_state (h_state h)))" "mu_mint_airdrop (h_state h) = airdrop"
    "multi_supply (h_state h) t \<le> k * unat airdrop"
    using assms(3) h0 by (auto simp: holdings_kept_def token_kept_def multi_supply_def)
qed

text \<open>
  C19. Nobody loses tokens without calling or signing: in a contract reached from its initialization, whatever
  the addresses of \<open>A\<close> do (calls, hooks that call back) and whatever permits anybody submits in whoever's name,
  the balance of an address outside \<open>A\<close> that has no operator in \<open>A\<close> never falls, as long as no permit of an
  account outside \<open>A\<close> carries a valid signature of a message that still counts, and the number of mints and
  permits keeps what can have been minted within 64 bits. A permit with a forged signature may name the address.
\<close>

theorem multi_no_theft:
  assumes "multi_init logger origin (Some airdrop) = Inr h0" "multi_steps E B k h0 h"
    and "multi_steps E A n h h'" "(k + n) * unat airdrop < 2 ^ 64"
    and "a \<notin> A" "\<forall>b \<in> A. \<not> multi_is_operator (h_state h) b a" "multi_balance (h_state h) t a = Inr b"
  shows "\<exists>b' \<ge> b. multi_balance (h_state h') t a = Inr b'"
proof -
  have "k * unat airdrop < 2 ^ 64" using assms(4) by (simp add: add_mult_distrib)
  note h = multi_reached [OF assms(1,2) this]
  have kept: "holdings_kept A n (h_state h) (h_state h')" by (rule holdings.steps_guarantee [OF assms(3)])
  have "multi_supply (h_state h) t + n * unat airdrop < 2 ^ 64" using h(3) [of t] assms(4) by (simp add: add_mult_distrib)
  moreover have "multi_operators (h_state h) a \<inter> A = {}" using assms(6) by (auto simp: multi_is_operator_iff)
  ultimately have "multi_owns (h_state h) t a \<le> multi_owns (h_state h') t a"
    using kept h(1,2) assms(5) by (auto simp: holdings_kept_def token_kept_def)
  moreover have "multi_contains_token (h_state h') t"
    using kept assms(7) by (force simp: holdings_kept_def map_le_def multi_contains_token_def multi_balance_owns)
  ultimately show ?thesis using assms(7) by (auto simp: multi_balance_owns)
qed

text \<open>
  C20. A permit cannot be replayed: after it was accepted, every permit of the same signer with the same nonce is
  rejected with \<^verbatim>\<open>NonceMismatch\<close>, also when it was sent again by a hook, until 64 bits of permits have been used.
\<close>

theorem multi_permit_no_replay:
  assumes "multi_contract_permit E logger call ctx h = Inr h1" "ctx_parameter ctx = Some param"
    and "me_parse_message E (pp_message_bytes param) = Some message"
    and "multi_callback_ok (multi_steps E UNIV m) call" "multi_steps E UNIV n h1 h2"
    and "1 + m * multi_permit_hooks E param + n < 2 ^ 64"
    and "ctx_parameter ctx' = Some param'" "pp_signer param' = pp_signer param"
    and "me_parse_message E (pp_message_bytes param') = Some message'" "pm_nonce message' = pm_nonce message"
  shows "multi_contract_permit E logger' call' ctx' h2 = Inl (Custom NonceMismatch)"
proof -
  let ?signer = "pp_signer param" and ?h = "h\<lparr>h_state := multi_bump_nonce (h_state h) (pp_signer param)\<rparr>"
  obtain h3 where run: "pm_nonce message = multi_nonce (h_state h) ?signer"
    "multi_permit_action E logger call ?signer message ?h = Inr h3" "h_state h1 = h_state h3"
    using assms(1) by (rule multi_contract_permit_run) (use assms(2,3) in auto)
  have "multi_callback_ok (\<lambda>h h'. nonces_advance m (h_state h) (h_state h')) call"
    using assms(4) nonces.steps_guarantee by (fastforce simp: multi_callback_ok_def)
  then have "nonces_advance (m * multi_permit_hooks E param) (h_state ?h) (h_state h1)"
    using nonces.permit_action_guarantee [OF run(2), of UNIV m] by (simp add: assms(3) multi_permit_hooks_def run(3))
  from nonces_advance_trans [OF this nonces.steps_guarantee [OF assms(5)]]
  obtain k where k: "k \<le> m * multi_permit_hooks E param + n"
    "multi_nonce (h_state h2) ?signer = multi_nonce (h_state ?h) ?signer + of_nat k"
    unfolding nonces_advance_def by blast
  then have "multi_nonce (h_state h2) ?signer - multi_nonce (h_state h) ?signer = of_nat (1 + k)"
    by (simp add: multi_bump_nonce_nonce)
  moreover have "(of_nat (1 + k) :: u64) \<noteq> 0"
  proof -
    have "1 + k < 2 ^ 64" using k(1) assms(6) by simp
    then have "unat (of_nat (1 + k) :: u64) = 1 + k" by (simp add: unat_of_nat del: of_nat_Suc of_nat_add)
    then show ?thesis by (metis add_is_0 one_neq_zero unat_0)
  qed
  ultimately have "pm_nonce message' \<noteq> multi_nonce (h_state h2) ?signer" using run(1) assms(10) by auto
  then show ?thesis by (simp add: multi_contract_permit_def assms(7-9) multi_parsed_def Let_def ensure_def)
qed

text \<open>
  A blacklisted holder is frozen: whatever addresses without the roles of admin and blacklister do, an address
  whose canonical address is on the blacklist stays there and keeps its balance of every token.
\<close>

lemma multi_blacklist_frozen:
  assumes "multi_steps E A n h h'" "\<forall>b \<in> A. \<not> multi_has_role (h_state h) b ADMIN \<and> \<not> multi_has_role (h_state h) b BLACKLISTER"
    and "get_canonical_address E a = Inr c" "c \<in> mu_blacklist (h_state h)" "multi_balance (h_state h) t a = Inr b"
  shows "c \<in> mu_blacklist (h_state h') \<and> multi_balance (h_state h') t a = Inr b"
proof -
  have "frozen E A n (h_state h) (h_state h')" by (rule freeze.steps_guarantee [OF assms(1)])
  moreover have "lacks_role A (h_state h) ADMIN" "lacks_role A (h_state h) BLACKLISTER" "\<not> allowed E (h_state h) a"
    using assms(2-4) by (auto simp: lacks_role_def allowed_def)
  moreover have "mu_tokens (h_state h) \<subseteq>\<^sub>m mu_tokens (h_state h')"
    using holdings.steps_guarantee [OF assms(1)] by (simp add: holdings_kept_def)
  ultimately show ?thesis
    using assms(4,5) by (force simp: frozen_def multi_balance_owns multi_contains_token_def map_le_def)
qed

text \<open>
  A paused contract is frozen: while no admin or pauser acts, it stays paused, and no balance, no operator and
  no token changes, through permits neither.
\<close>

lemma multi_paused_frozen:
  assumes "multi_steps E A n h h'" "\<forall>b \<in> A. \<not> multi_has_role (h_state h) b ADMIN \<and> \<not> multi_has_role (h_state h) b PAUSER"
    and "mu_paused (h_state h)"
  shows "mu_paused (h_state h') \<and> multi_balance (h_state h') t a = multi_balance (h_state h) t a \<and>
    multi_is_operator (h_state h') b a = multi_is_operator (h_state h) b a"
proof -
  have "frozen E A n (h_state h) (h_state h')" by (rule freeze.steps_guarantee [OF assms(1)])
  moreover have "lacks_role A (h_state h) ADMIN" "lacks_role A (h_state h) PAUSER"
    using assms(2) by (auto simp: lacks_role_def)
  ultimately show ?thesis
    using assms(3) by (simp add: frozen_def multi_balance_def multi_contains_token_def multi_is_operator_def)
qed

text \<open>
  A permit runs only what its signer signed for this contract: when it is accepted, the message names this
  contract and the current nonce, has not expired, the account's signature of the hash of the signer, eight zero
  bytes and the message was found valid, and the entrypoint is one of the four that permits can run.
\<close>

lemma multi_permit_authorised:
  assumes "multi_contract_permit E logger call ctx h = Inr h'"
  shows "\<exists>param message. ctx_parameter ctx = Some param \<and> me_parse_message E (pp_message_bytes param) = Some message \<and>
    pm_nonce message = multi_nonce (h_state h) (pp_signer param) \<and>
    pm_contract_address message = ctx_self_address ctx \<and> ctx_slot_time ctx < pm_timestamp message \<and>
    me_check_account_signature E (pp_signer param) (pp_signature param)
      (me_hash_sha2_256 E (pp_signer param @ replicate 8 0 @ pp_message_bytes param)) = Inr True \<and>
    pm_entry_point message \<in> {''transfer'', ''updateOperator'', ''mint'', ''burn''}"
  using assms
  by (rule multi_contract_permit_run)
    (auto simp: multi_permit_action_def split: if_splits)

section \<open>Examples\<close>

text \<open>A contract with an airdrop of tokens, of which accounts mint, and a message that adds an operator.\<close>

definition sample_multi_env :: "(unit, unit) multi_env" where
  "sample_multi_env =
     \<lparr>me_get_alias = Some, me_hash_sha2_256 = (\<lambda>b. b), me_check_account_signature = (\<lambda>_ _ _. Inr True),
      me_account_public_keys = (\<lambda>_. None),
      me_parse_message = (\<lambda>b. Some \<lparr>pm_contract_address = \<lparr>ca_index = 0, ca_subindex = 0\<rparr>, pm_nonce = 0, pm_timestamp = 5,
        pm_entry_point = ''updateOperator'', pm_payload = b\<rparr>),
      me_parse_transfer = (\<lambda>_. None), me_parse_update_operator = (\<lambda>_. Some [(AddOperator, Account [3])]),
      me_parse_mint = (\<lambda>_. None), me_parse_burn = (\<lambda>_. None)\<rparr>"

definition sample_multi_context :: "address \<Rightarrow> 'p \<Rightarrow> 'p receive_context" where
  "sample_multi_context sender p = \<lparr>ctx_sender = sender, ctx_parameter = Some p, ctx_slot_time = 1, ctx_owner = [9],
     ctx_self_address = \<lparr>ca_index = 0, ca_subindex = 0\<rparr>\<rparr>"

definition sample_multi_url :: metadata_url where
  "sample_multi_url = \<lparr>md_url = ''u'', md_hash = None\<rparr>"

definition sample_multi_mint :: "account_address \<Rightarrow> multi_mint_params" where
  "sample_multi_mint a = \<lparr>mm_to = ReceiverAccount a, mm_metadata_url = sample_multi_url, mm_token_id = 7, mm_data = []\<rparr>"

definition sample_multi_call :: multi_call where
  "sample_multi_call h _ _ _ _ = Inr h"

definition multi_mint_call :: "account_address \<Rightarrow> account_address \<Rightarrow> multi_host \<Rightarrow> multi_error + multi_host" where
  "multi_mint_call sender a h =
     multi_contract_mint sample_multi_env (\<lambda>_ _. None) sample_multi_call
       (sample_multi_context (Account sender) (sample_multi_mint a)) (receive_amount 0 h)"

definition sample_multi0 :: "u64 \<Rightarrow> multi_host" where
  "sample_multi0 airdrop = \<lparr>h_state = multi_grant_role (multi_empty airdrop) (Account [9]) ADMIN, h_balance = 0,
     h_logs = [GrantRoleEvent (Account [9]) ADMIN], h_transfers = []\<rparr>"

lemma sample_multi_init: "multi_init (\<lambda>_ _. None) [9] (Some airdrop) = Inr (sample_multi0 airdrop)"
  by (simp add: multi_init_def multi_parsed_def multi_log_def log_event_def map_err_def Let_def sample_multi0_def)

lemma sample_multi_mint_run:
  assumes "\<not> mu_paused (h_state h)" "Account a \<notin> mu_blacklist (h_state h)"
  obtains h' where "multi_mint_call sender a h = Inr h'"
    "h_state h' = snd (multi_mint (h_state h) 7 sample_multi_url (Account a) (mu_mint_airdrop (h_state h)))"
  using assms
  by (simp add: multi_mint_call_def multi_contract_mint_def sample_multi_context_def sample_multi_mint_def multi_parsed_def
      do_mint_def not_blacklisted_def get_canonical_address_def sample_multi_env_def Let_def ensure_def multi_log_def
      log_event_def map_err_def split_beta)

lemma sample_multi_mint_step:
  assumes "multi_steps sample_multi_env A n h h1" "multi_mint_call sender a h1 = Inr h'" "Account sender \<in> A"
  shows "multi_steps sample_multi_env A (n + 1) h h'"
proof -
  have "multi_callback_ok (multi_steps sample_multi_env A 0) sample_multi_call"
    by (auto simp: multi_callback_ok_def sample_multi_call_def intro: multi_steps.start)
  from multi_steps.mint [OF assms(1) _ this assms(2) [unfolded multi_mint_call_def]] show ?thesis
    using assms(3) by (simp add: sample_multi_context_def)
qed

lemma sample_multi_mint_state:
  assumes "h_state h' = snd (multi_mint st t url a airdrop)"
  shows "mu_paused (h_state h') = mu_paused st" "mu_blacklist (h_state h') = mu_blacklist st"
    "mu_roles (h_state h') = mu_roles st" "mu_mint_airdrop (h_state h') = mu_mint_airdrop st"
    "multi_contains_token (h_state h') t" "multi_owns (h_state h') t b = multi_owns st t b + (if b = a then airdrop else 0)"
    "multi_operators (h_state h') b = multi_operators st b"
  using assms by (auto simp: multi_mint_def Let_def multi_credit_set multi_contains_token_def)

lemma sample_multi0_state:
  "mu_paused (h_state (sample_multi0 airdrop)) = False" "mu_blacklist (h_state (sample_multi0 airdrop)) = {}"
  "multi_owns (h_state (sample_multi0 airdrop)) t a = 0" "multi_operators (h_state (sample_multi0 airdrop)) a = {}"
  "mu_mint_airdrop (h_state (sample_multi0 airdrop)) = airdrop"
  by (simp_all add: sample_multi0_def multi_empty_def multi_grant_role_def multi_owns_def multi_operators_def multi_entry_def
      balance_entry_def multi_address_state_empty_def)

text \<open>One account mints for itself, then another one does.\<close>

lemma sample_multi_two_mints:
  obtains h h' where "multi_mint_call [1] [1] (sample_multi0 airdrop) = Inr h" "multi_mint_call [2] b h = Inr h'"
    "\<not> mu_paused (h_state h)" "mu_blacklist (h_state h) = {}" "multi_operators (h_state h) (Account [1]) = {}"
    "multi_balance (h_state h) 7 (Account [1]) = Inr airdrop"
    "multi_balance (h_state h') 7 (Account [1]) = Inr (airdrop + (if b = [1] then airdrop else 0))"
proof -
  obtain h where h: "multi_mint_call [1] [1] (sample_multi0 airdrop) = Inr h"
    and st: "h_state h = snd (multi_mint (h_state (sample_multi0 airdrop)) 7 sample_multi_url (Account [1])
      (mu_mint_airdrop (h_state (sample_multi0 airdrop))))"
    by (rule sample_multi_mint_run [of "sample_multi0 airdrop" "[1]" "[1]"]) (simp_all add: sample_multi0_state)
  note mid = sample_multi_mint_state [OF st, unfolded sample_multi0_state]
  obtain h' where h': "multi_mint_call [2] b h = Inr h'"
    and st': "h_state h' = snd (multi_mint (h_state h) 7 sample_multi_url (Account b) (mu_mint_airdrop (h_state h)))"
    by (rule sample_multi_mint_run [of h b "[2]"]) (simp_all add: mid)
  show thesis
    by (rule that [OF h h']) (simp_all add: mid multi_balance_owns sample_multi_mint_state [OF st'])
qed

theorem multi_no_theft_witness:
  "\<exists>h h'. multi_mint_call [1] [1] (sample_multi0 10) = Inr h \<and> multi_mint_call [2] [2] h = Inr h' \<and>
    (\<exists>b \<ge> 10. multi_balance (h_state h') 7 (Account [1]) = Inr b)"
proof -
  obtain h h' where h: "multi_mint_call [1] [1] (sample_multi0 10) = Inr h" "multi_mint_call [2] [2] h = Inr h'"
    "multi_operators (h_state h) (Account [1]) = {}" "multi_balance (h_state h) 7 (Account [1]) = Inr 10"
    by (rule sample_multi_two_mints [of 10 "[2]"])
  have "multi_steps sample_multi_env {Account [1]} (0 + 1) (sample_multi0 10) h"
    "multi_steps sample_multi_env {Account [2]} (0 + 1) h h'"
    by (rule sample_multi_mint_step [OF multi_steps.start h(1)], simp) (rule sample_multi_mint_step [OF multi_steps.start h(2)], simp)
  from multi_no_theft [OF sample_multi_init this _ _ _ h(4)] show ?thesis using h by (auto simp: multi_is_operator_iff)
qed

text \<open>Balances wrap around: with an airdrop of \<open>2 ^ 63\<close>, a mint by anybody to an account takes what it has.\<close>

lemma multi_mint_wraps:
  "\<exists>h h'. multi_mint_call [1] [1] (sample_multi0 (2 ^ 63)) = Inr h \<and> multi_balance (h_state h) 7 (Account [1]) = Inr (2 ^ 63) \<and>
    multi_mint_call [2] [1] h = Inr h' \<and> multi_balance (h_state h') 7 (Account [1]) = Inr 0"
proof -
  obtain h h' where "multi_mint_call [1] [1] (sample_multi0 (2 ^ 63)) = Inr h" "multi_mint_call [2] [1] h = Inr h'"
    "multi_balance (h_state h) 7 (Account [1]) = Inr (2 ^ 63)"
    "multi_balance (h_state h') 7 (Account [1]) = Inr (2 ^ 63 + (if [1 :: 8 word] = [1] then 2 ^ 63 else 0))"
    by (rule sample_multi_two_mints [of "2 ^ 63" "[1]"])
  then show ?thesis by auto
qed

text \<open>What \<^verbatim>\<open>supportsPermit\<close> answers for two of the four entrypoints that a permit runs.\<close>

lemma multi_supports_permit_incomplete:
  "multi_contract_supports_permit (sample_multi_context a [''transfer'', ''mint'', ''burn'']) = Inr [Support, NoSupport, NoSupport] \<and>
   multi_permit_action E logger call signer (message\<lparr>pm_entry_point := ''mint''\<rparr>) h =
     try_bind (multi_parsed (me_parse_mint E (pm_payload message))) (\<lambda>params. do_mint E logger params h)"
  by (simp add: multi_contract_supports_permit_def sample_multi_context_def multi_parsed_def SUPPORTS_PERMIT_ENTRYPOINTS_def
      multi_permit_action_def)

definition sample_permit :: "unit permit_param receive_context" where
  "sample_permit = sample_multi_context (Account [4]) \<lparr>pp_signature = (), pp_signer = [1], pp_message_bytes = []\<rparr>"

lemma sample_permit_run:
  obtains h where "multi_contract_permit sample_multi_env (\<lambda>_ _. None) sample_multi_call sample_permit (sample_multi0 10) = Inr h"
    "multi_is_operator (h_state h) (Account [3]) (Account [1])"
proof -
  have "\<exists>h. multi_contract_permit sample_multi_env (\<lambda>_ _. None) sample_multi_call sample_permit (sample_multi0 10) = Inr h \<and>
    multi_is_operator (h_state h) (Account [3]) (Account [1])"
    by (simp add: multi_contract_permit_def sample_permit_def sample_multi_context_def multi_parsed_def sample_multi_env_def
        sample_multi0_def multi_empty_def multi_grant_role_def multi_nonce_def multi_bump_nonce_def Let_def ensure_def
        contract_view_message_hash_def map_err_def multi_permit_action_def do_update_operator_def multi_add_operator_def
        multi_log_def log_event_def multi_is_operator_def)
  then show thesis using that by blast
qed

theorem multi_permit_no_replay_witness:
  "\<exists>h. multi_contract_permit sample_multi_env (\<lambda>_ _. None) sample_multi_call sample_permit (sample_multi0 10) = Inr h \<and>
    multi_contract_permit sample_multi_env (\<lambda>_ _. None) sample_multi_call sample_permit h = Inl (Custom NonceMismatch)"
proof -
  obtain h where run: "multi_contract_permit sample_multi_env (\<lambda>_ _. None) sample_multi_call sample_permit (sample_multi0 10) = Inr h"
    by (rule sample_permit_run)
  have cb: "multi_callback_ok (multi_steps sample_multi_env UNIV 0) sample_multi_call"
    by (auto simp: multi_callback_ok_def sample_multi_call_def intro: multi_steps.start)
  have p: "ctx_parameter sample_permit = Some \<lparr>pp_signature = (), pp_signer = [1], pp_message_bytes = []\<rparr>"
    by (simp add: sample_permit_def sample_multi_context_def)
  obtain message where m: "me_parse_message sample_multi_env [] = Some message" by (simp add: sample_multi_env_def)
  have "multi_contract_permit sample_multi_env (\<lambda>_ _. None) sample_multi_call sample_permit h = Inl (Custom NonceMismatch)"
    by (rule multi_permit_no_replay [OF run p _ cb multi_steps.start [where n = 0] _ p]) (simp_all add: m)
  then show ?thesis using run by blast
qed

lemma multi_permit_authorised_sample:
  "\<exists>h. multi_contract_permit sample_multi_env (\<lambda>_ _. None) sample_multi_call sample_permit (sample_multi0 10) = Inr h \<and>
    me_check_account_signature sample_multi_env [1] () ([1] @ replicate 8 0) = Inr True"
proof -
  obtain h where run: "multi_contract_permit sample_multi_env (\<lambda>_ _. None) sample_multi_call sample_permit (sample_multi0 10) = Inr h"
    by (rule sample_permit_run)
  show ?thesis using multi_permit_authorised [OF run] run by (auto simp: sample_permit_def sample_multi_context_def sample_multi_env_def)
qed

text \<open>A contract with a blacklisted holder, which another account mints tokens of, and the same contract when it is paused.\<close>

definition sample_multi_holder :: "bool \<Rightarrow> multi_host" where
  "sample_multi_holder paused = \<lparr>h_state =
     \<lparr>mu_state = [Account [1] \<mapsto> \<lparr>ma_balances = [7 \<mapsto> 5], ma_operators = {}\<rparr>], mu_tokens = [7 \<mapsto> sample_multi_url],
      mu_implementors = Map.empty, mu_nonces_registry = Map.empty, mu_blacklist = {Account [1]}, mu_mint_airdrop = 10,
      mu_paused = paused, mu_roles = [Account [8] \<mapsto> {ADMIN, BLACKLISTER, PAUSER}]\<rparr>,
     h_balance = 0, h_logs = [], h_transfers = []\<rparr>"

lemma multi_blacklist_frozen_sample:
  "\<exists>h. multi_mint_call [2] [2] (sample_multi_holder False) = Inr h \<and> multi_balance (h_state h) 7 (Account [1]) = Inr 5"
proof -
  obtain h where h: "multi_mint_call [2] [2] (sample_multi_holder False) = Inr h"
    by (rule sample_multi_mint_run [of "sample_multi_holder False" "[2]" "[2]"]) (simp_all add: sample_multi_holder_def)
  have "multi_steps sample_multi_env {Account [2]} (0 + 1) (sample_multi_holder False) h"
    by (rule sample_multi_mint_step [OF multi_steps.start h]) simp
  from multi_blacklist_frozen [OF this, of "Account [1]" "Account [1]" 7 5] h show ?thesis
    by (simp add: sample_multi_holder_def multi_has_role_def get_canonical_address_def sample_multi_env_def multi_balance_def
        multi_contains_token_def ensure_def)
qed

lemma multi_paused_frozen_sample:
  "\<exists>h. multi_contract_set_implementor (sample_multi_context (Account [9]) (''CIS-7'', [])) (receive_amount 0 (sample_multi_holder True)) = Inr h \<and>
    mu_paused (h_state h) \<and> multi_balance (h_state h) 7 (Account [1]) = Inr 5"
proof -
  obtain h where h: "multi_contract_set_implementor (sample_multi_context (Account [9]) (''CIS-7'', []))
      (receive_amount 0 (sample_multi_holder True)) = Inr h"
    by (simp add: multi_contract_set_implementor_def sample_multi_context_def multi_parsed_def ensure_def)
  have "multi_steps sample_multi_env {Account [9]} 0 (sample_multi_holder True) h"
    by (rule multi_steps.set_implementor [OF multi_steps.start _ h]) (simp add: sample_multi_context_def)
  from multi_paused_frozen [OF this, of 7 "Account [1]"] h show ?thesis
    by (simp add: sample_multi_holder_def multi_has_role_def multi_balance_def multi_contains_token_def ensure_def)
qed

end
