(* ===== verification/Credential_Registry.thy ===== *)
theory Credential_Registry
  imports Contract_Host "HOL-Library.List_Lexorder"
begin

text \<open>
  The contract of \<^verbatim>\<open>examples/credential-registry/src/lib.rs\<close> (CIS-4): credentials that an issuer registers, and
  that the issuer, their holders and revocation authorities revoke, the latter two with signed messages. The
  serialization of the signed data and the verification of signatures are arguments, collected in \<open>registry_env\<close>.
\<close>

section \<open>Data\<close>

type_synonym public_key = bytes

datatype credential_status = Active | Revoked | ExpiredStatus | NotActivated

record credential_entry =
  ce_holder_revocable :: bool
  ce_valid_from :: u64
  ce_valid_until :: "u64 option"
  ce_revocation_nonce :: u64
  ce_revoked :: bool
  ce_metadata_url :: metadata_url

record credential_info =
  ci_holder_id :: public_key
  ci_holder_revocable :: bool
  ci_valid_from :: u64
  ci_valid_until :: "u64 option"
  ci_metadata_url :: metadata_url

record registry_state =
  rg_issuer_account :: account_address
  rg_issuer_key :: public_key
  rg_issuer_metadata :: metadata_url
  rg_revocation_keys :: "public_key \<rightharpoonup> u64"
  rg_all_revocation_keys :: "public_key set"
  rg_credentials :: "public_key \<rightharpoonup> credential_entry"
  rg_credential_type :: string
  rg_credential_schema :: metadata_url
  rg_implementors :: "string \<rightharpoonup> contract_address list"

datatype registry_error =
    RegistryParseParams | CredentialNotFound | CredentialAlreadyExists | IncorrectStatusBeforeRevocation
  | IncorrectStatusBeforeRestoring | KeyAlreadyExists | KeyDoesNotExist | RegistryNotAuthorized
  | RegistryNonceMismatch | RegistryWrongContract | WrongEntrypoint | ExpiredSignature | RegistryWrongSignature
  | SerializationError | RegistryLogFull | RegistryLogMalformed | ContractInvocationError
  | RegistryUpgradeMissingModule | RegistryUpgradeMissingContract | RegistryUpgradeUnsupportedModuleVersion

datatype revoker = RevokerIssuer | RevokerHolder | RevokerOther public_key

datatype revocation_key_action = RegisterKey | RemoveKey

record credential_event_data =
  ed_holder_id :: public_key
  ed_schema_ref :: metadata_url
  ed_credential_type :: string
  ed_metadata_url :: metadata_url

text \<open>The payloads of the events, in the order of their fields.\<close>

datatype credential_event =
    RegisterEvent credential_event_data
  | RevokeEvent public_key revoker "string option"
  | RestoreEvent public_key "string option"
  | IssuerMetadataEvent metadata_url
  | CredentialMetadataEvent public_key metadata_url
  | SchemaEvent string metadata_url
  | RevocationKeyEvent public_key revocation_key_action

type_synonym registry_host = "(registry_state, credential_event) contract_host"

record signing_data =
  sd_contract_address :: contract_address
  sd_entry_point :: string
  sd_nonce :: u64
  sd_timestamp :: u64

record revocation_data_holder =
  rh_credential_id :: public_key
  rh_signing_data :: signing_data
  rh_reason :: "string option"

record revocation_data_other =
  ro_credential_id :: public_key
  ro_signing_data :: signing_data
  ro_revocation_key :: public_key
  ro_reason :: "string option"

record registry_env =
  re_serial_holder :: "revocation_data_holder \<Rightarrow> bytes option"
  re_serial_other :: "revocation_data_other \<Rightarrow> bytes option"
  re_verify_ed25519_signature :: "public_key \<Rightarrow> bytes \<Rightarrow> bytes \<Rightarrow> bool"

text \<open>The context of a call with the name of the entrypoint that was called.\<close>

record 'p named_receive_context = "'p receive_context" +
  ctx_named_entrypoint :: string

fun registry_error_from_log :: "log_error \<Rightarrow> registry_error" where
  "registry_error_from_log Full = RegistryLogFull"
| "registry_error_from_log MalformedLog = RegistryLogMalformed"

fun registry_error_from_upgrade :: "upgrade_error \<Rightarrow> registry_error" where
  "registry_error_from_upgrade MissingModule = RegistryUpgradeMissingModule"
| "registry_error_from_upgrade MissingContract = RegistryUpgradeMissingContract"
| "registry_error_from_upgrade UnsupportedModuleVersion = RegistryUpgradeUnsupportedModuleVersion"

fun registry_error_from_call :: "'r call_contract_error \<Rightarrow> registry_error" where
  "registry_error_from_call _ = ContractInvocationError"

definition REGISTRY_SUPPORTS_STANDARDS :: "string list" where
  "REGISTRY_SUPPORTS_STANDARDS = [''CIS-0'', ''CIS-4'']"

text \<open>The bytes of \<^verbatim>\<open>WEB3ID:REVOKE\<close>.\<close>

definition SIGNATURE_DOMAIN :: bytes where
  "SIGNATURE_DOMAIN = [87, 69, 66, 51, 73, 68, 58, 82, 69, 86, 79, 75, 69]"

section \<open>Operations of the state\<close>

definition get_status :: "credential_entry \<Rightarrow> u64 \<Rightarrow> credential_status" where
  "get_status e now =
     (if ce_revoked e then Revoked
      else if (case ce_valid_until e of Some valid_until \<Rightarrow> valid_until < now | None \<Rightarrow> False) then ExpiredStatus
      else if now < ce_valid_from e then NotActivated
      else Active)"

definition entry_info :: "credential_entry \<Rightarrow> public_key \<Rightarrow> credential_info" where
  "entry_info e holder_id =
     \<lparr>ci_holder_id = holder_id, ci_holder_revocable = ce_holder_revocable e, ci_valid_from = ce_valid_from e,
      ci_valid_until = ce_valid_until e, ci_metadata_url = ce_metadata_url e\<rparr>"

definition registry_new ::
    "account_address \<Rightarrow> public_key \<Rightarrow> metadata_url \<Rightarrow> string \<Rightarrow> metadata_url \<Rightarrow> registry_state" where
  "registry_new issuer_account issuer_key issuer_metadata credential_type credential_schema =
     \<lparr>rg_issuer_account = issuer_account, rg_issuer_key = issuer_key, rg_issuer_metadata = issuer_metadata,
      rg_revocation_keys = Map.empty, rg_all_revocation_keys = {}, rg_credentials = Map.empty,
      rg_credential_type = credential_type, rg_credential_schema = credential_schema, rg_implementors = Map.empty\<rparr>"

definition ok_or :: "'a option \<Rightarrow> 'e \<Rightarrow> 'e + 'a" where
  "ok_or x e = (case x of None \<Rightarrow> Inl e | Some y \<Rightarrow> Inr y)"

lemma ok_or_Inr [simp]: "ok_or x e = Inr y \<longleftrightarrow> x = Some y"
  by (cases x) (simp_all add: ok_or_def)

definition view_credential_info ::
    "registry_state \<Rightarrow> public_key \<Rightarrow> registry_error + credential_info \<times> metadata_url \<times> u64" where
  "view_credential_info st credential_id =
     try_bind (ok_or (rg_credentials st credential_id) CredentialNotFound) (\<lambda>e.
     Inr (entry_info e credential_id, rg_credential_schema st, ce_revocation_nonce e))"

definition view_credential_status :: "registry_state \<Rightarrow> u64 \<Rightarrow> public_key \<Rightarrow> registry_error + credential_status" where
  "view_credential_status st now credential_id =
     ok_or (map_option (\<lambda>e. get_status e now) (rg_credentials st credential_id)) CredentialNotFound"

definition register_credential :: "registry_state \<Rightarrow> credential_info \<Rightarrow> registry_error + registry_state" where
  "register_credential st info =
     (let e = \<lparr>ce_holder_revocable = ci_holder_revocable info, ce_valid_from = ci_valid_from info,
          ce_valid_until = ci_valid_until info, ce_revocation_nonce = 0, ce_revoked = False,
          ce_metadata_url = ci_metadata_url info\<rparr>;
          res = rg_credentials st (ci_holder_id info)
      in ensure (res = None) CredentialAlreadyExists
        (Inr (st\<lparr>rg_credentials := (rg_credentials st)(ci_holder_id info \<mapsto> e)\<rparr>)))"

definition update_credential_metadata ::
    "registry_state \<Rightarrow> public_key \<Rightarrow> metadata_url \<Rightarrow> registry_error + registry_state" where
  "update_credential_metadata st credential_id metadata =
     (case rg_credentials st credential_id of
        Some e \<Rightarrow> Inr (st\<lparr>rg_credentials := (rg_credentials st)(credential_id \<mapsto> e\<lparr>ce_metadata_url := metadata\<rparr>)\<rparr>)
      | None \<Rightarrow> Inl CredentialNotFound)"

definition revoke_credential :: "registry_state \<Rightarrow> u64 \<Rightarrow> public_key \<Rightarrow> registry_error + registry_state" where
  "revoke_credential st now credential_id =
     try_bind (ok_or (rg_credentials st credential_id) CredentialNotFound) (\<lambda>e.
     let status = get_status e now in
     ensure (status = Active \<or> status = NotActivated) IncorrectStatusBeforeRevocation
     (Inr (st\<lparr>rg_credentials := (rg_credentials st)(credential_id \<mapsto> e\<lparr>ce_revoked := True\<rparr>)\<rparr>)))"

definition restore_credential :: "registry_state \<Rightarrow> u64 \<Rightarrow> public_key \<Rightarrow> registry_error + registry_state" where
  "restore_credential st now credential_id =
     try_bind (ok_or (rg_credentials st credential_id) CredentialNotFound) (\<lambda>e.
     let status = get_status e now in
     ensure (status = Revoked) IncorrectStatusBeforeRestoring
     (Inr (st\<lparr>rg_credentials := (rg_credentials st)(credential_id \<mapsto> e\<lparr>ce_revoked := False\<rparr>)\<rparr>)))"

definition register_revocation_key :: "registry_state \<Rightarrow> public_key \<Rightarrow> registry_error + registry_state" where
  "register_revocation_key st pk =
     ensure (pk \<notin> rg_all_revocation_keys st) KeyAlreadyExists
     (let st = st\<lparr>rg_all_revocation_keys := insert pk (rg_all_revocation_keys st)\<rparr> in
      ensure (rg_revocation_keys st pk = None) KeyAlreadyExists
      (Inr (st\<lparr>rg_revocation_keys := (rg_revocation_keys st)(pk \<mapsto> 0)\<rparr>)))"

text \<open>The iterator of a state map goes through the keys in the order of their bytes.\<close>

definition view_revocation_keys :: "registry_state \<Rightarrow> (public_key \<times> u64) list" where
  "view_revocation_keys st =
     map (\<lambda>pk. (pk, the (rg_revocation_keys st pk))) (sorted_list_of_set (dom (rg_revocation_keys st)))"

definition remove_revocation_key :: "registry_state \<Rightarrow> public_key \<Rightarrow> registry_error + registry_state" where
  "remove_revocation_key st pk =
     (if rg_revocation_keys st pk = None then Inl KeyDoesNotExist
      else Inr (st\<lparr>rg_revocation_keys := (rg_revocation_keys st)(pk := None)\<rparr>))"

definition registry_has_implementors :: "registry_state \<Rightarrow> string \<Rightarrow> support_result" where
  "registry_has_implementors st std_id =
     (case rg_implementors st std_id of Some addresses \<Rightarrow> SupportBy addresses | None \<Rightarrow> NoSupport)"

definition registry_set_implementors :: "registry_state \<Rightarrow> string \<Rightarrow> contract_address list \<Rightarrow> registry_state" where
  "registry_set_implementors st std_id addresses = st\<lparr>rg_implementors := (rg_implementors st)(std_id \<mapsto> addresses)\<rparr>"

section \<open>The encoding of events\<close>

text \<open>The payloads have derived codecs, which are arguments.\<close>

record event_codecs =
  ec_register :: "credential_event_data codec"
  ec_revoke :: "(public_key \<times> revoker \<times> string option) codec"
  ec_restore :: "(public_key \<times> string option) codec"
  ec_issuer_metadata :: "metadata_url codec"
  ec_credential_metadata :: "(public_key \<times> metadata_url) codec"
  ec_schema :: "(string \<times> metadata_url) codec"
  ec_revocation_key :: "(public_key \<times> revocation_key_action) codec"

definition credential_event_serial :: "event_codecs \<Rightarrow> credential_event \<Rightarrow> bytes" where
  "credential_event_serial C ev =
     (case ev of
        RegisterEvent data \<Rightarrow> 249 # ser (ec_register C) data
      | RevokeEvent holder who reason \<Rightarrow> 248 # ser (ec_revoke C) (holder, who, reason)
      | IssuerMetadataEvent url \<Rightarrow> 247 # ser (ec_issuer_metadata C) url
      | CredentialMetadataEvent credential_id url \<Rightarrow> 246 # ser (ec_credential_metadata C) (credential_id, url)
      | SchemaEvent credential_type url \<Rightarrow> 245 # ser (ec_schema C) (credential_type, url)
      | RevocationKeyEvent key act \<Rightarrow> 244 # ser (ec_revocation_key C) (key, act)
      | RestoreEvent holder reason \<Rightarrow> 0 # ser (ec_restore C) (holder, reason))"

definition credential_event_deserial :: "event_codecs \<Rightarrow> bytes \<Rightarrow> (credential_event \<times> bytes) option" where
  "credential_event_deserial C source =
     (case source of
        [] \<Rightarrow> None
      | tag # rest \<Rightarrow>
          if tag = 249 then map_option (\<lambda>(x, r). (RegisterEvent x, r)) (des (ec_register C) rest)
          else if tag = 248 then map_option (\<lambda>((h, w, s), r). (RevokeEvent h w s, r)) (des (ec_revoke C) rest)
          else if tag = 247 then map_option (\<lambda>(x, r). (IssuerMetadataEvent x, r)) (des (ec_issuer_metadata C) rest)
          else if tag = 246 then map_option (\<lambda>((c, u), r). (CredentialMetadataEvent c u, r)) (des (ec_credential_metadata C) rest)
          else if tag = 245 then map_option (\<lambda>((t, u), r). (SchemaEvent t u, r)) (des (ec_schema C) rest)
          else if tag = 244 then map_option (\<lambda>((k, a), r). (RevocationKeyEvent k a, r)) (des (ec_revocation_key C) rest)
          else if tag = 0 then map_option (\<lambda>((h, s), r). (RestoreEvent h s, r)) (des (ec_restore C) rest)
          else None)"

section \<open>Entrypoints\<close>

definition registry_parsed :: "'p option \<Rightarrow> registry_error + 'p" where
  "registry_parsed p = ok_or p RegistryParseParams"

definition registry_log :: "credential_event logger \<Rightarrow> credential_event \<Rightarrow> registry_host \<Rightarrow> registry_error + registry_host" where
  "registry_log logger ev h = map_err registry_error_from_log (log_event logger ev h)"

record registry_init_params =
  ri_issuer_metadata :: metadata_url
  ri_credential_type :: string
  ri_schema :: metadata_url
  ri_issuer_account :: "account_address option"
  ri_issuer_key :: public_key
  ri_revocation_keys :: "public_key list"

text \<open>The loops that register and remove revocation keys.\<close>

fun register_keys :: "credential_event logger \<Rightarrow> public_key list \<Rightarrow> registry_host \<Rightarrow> registry_error + registry_host" where
  "register_keys logger [] h = Inr h"
| "register_keys logger (pk # pks) h =
     try_bind (register_revocation_key (h_state h) pk) (\<lambda>st.
     try_bind (registry_log logger (RevocationKeyEvent pk RegisterKey) (h\<lparr>h_state := st\<rparr>)) (register_keys logger pks))"

fun remove_keys :: "credential_event logger \<Rightarrow> public_key list \<Rightarrow> registry_host \<Rightarrow> registry_error + registry_host" where
  "remove_keys logger [] h = Inr h"
| "remove_keys logger (pk # pks) h =
     try_bind (remove_revocation_key (h_state h) pk) (\<lambda>st.
     try_bind (registry_log logger (RevocationKeyEvent pk RemoveKey) (h\<lparr>h_state := st\<rparr>)) (remove_keys logger pks))"

definition registry_init ::
    "credential_event logger \<Rightarrow> account_address \<Rightarrow> registry_init_params option \<Rightarrow> registry_error + registry_host" where
  "registry_init logger init_origin parameter =
     try_bind (registry_parsed parameter) (\<lambda>p.
     let st = registry_new (case ri_issuer_account p of Some a \<Rightarrow> a | None \<Rightarrow> init_origin) (ri_issuer_key p)
          (ri_issuer_metadata p) (ri_credential_type p) (ri_schema p)
     in try_bind (registry_log logger (IssuerMetadataEvent (ri_issuer_metadata p))
          \<lparr>h_state = st, h_balance = 0, h_logs = [], h_transfers = []\<rparr>) (\<lambda>h.
        try_bind (register_keys logger (ri_revocation_keys p) h)
          (registry_log logger (SchemaEvent (ri_credential_type p) (ri_schema p)))))"

definition sender_is_issuer :: "('p, 'x) receive_context_scheme \<Rightarrow> registry_state \<Rightarrow> bool" where
  "sender_is_issuer ctx st \<longleftrightarrow> ctx_sender ctx = Account (rg_issuer_account st)"

definition contract_credential_entry ::
    "public_key receive_context \<Rightarrow> registry_host \<Rightarrow> registry_error + credential_info \<times> metadata_url \<times> u64" where
  "contract_credential_entry ctx h =
     try_bind (registry_parsed (ctx_parameter ctx)) (view_credential_info (h_state h))"

definition contract_credential_status :: "public_key receive_context \<Rightarrow> registry_host \<Rightarrow> registry_error + credential_status" where
  "contract_credential_status ctx h =
     try_bind (registry_parsed (ctx_parameter ctx)) (view_credential_status (h_state h) (ctx_slot_time ctx))"

text \<open>The auxiliary data of the parameters is not used by the code and left out.\<close>

definition contract_register_credential ::
    "credential_event logger \<Rightarrow> credential_info receive_context \<Rightarrow> registry_host \<Rightarrow> registry_error + registry_host" where
  "contract_register_credential logger ctx h =
     ensure (sender_is_issuer ctx (h_state h)) RegistryNotAuthorized
     (try_bind (registry_parsed (ctx_parameter ctx)) (\<lambda>info.
      try_bind (register_credential (h_state h) info) (\<lambda>st.
      registry_log logger (RegisterEvent \<lparr>ed_holder_id = ci_holder_id info, ed_schema_ref = rg_credential_schema st,
        ed_credential_type = rg_credential_type st, ed_metadata_url = ci_metadata_url info\<rparr>) (h\<lparr>h_state := st\<rparr>))))"

definition authorize_with_signature ::
    "registry_env \<Rightarrow> ('p, 'x) named_receive_context_scheme \<Rightarrow> u64 \<Rightarrow> public_key \<Rightarrow> signing_data \<Rightarrow> bytes \<Rightarrow> bytes \<Rightarrow>
     registry_error + unit" where
  "authorize_with_signature E ctx nonce public_key sd message signature =
     ensure (sd_nonce sd = nonce) RegistryNonceMismatch
     (ensure (sd_contract_address sd = ctx_self_address ctx) RegistryWrongContract
     (ensure (sd_entry_point sd = ctx_named_entrypoint ctx) WrongEntrypoint
     (ensure (sd_timestamp sd > ctx_slot_time ctx) ExpiredSignature
     (ensure (re_verify_ed25519_signature E public_key signature message) RegistryWrongSignature
     (Inr ())))))"

text \<open>The parameters of the signed revocations are the signature and the signed data.\<close>

definition contract_revoke_credential_holder ::
    "registry_env \<Rightarrow> credential_event logger \<Rightarrow> (bytes \<times> revocation_data_holder) named_receive_context \<Rightarrow> registry_host \<Rightarrow>
     registry_error + registry_host" where
  "contract_revoke_credential_holder E logger ctx h =
     try_bind (registry_parsed (ctx_parameter ctx)) (\<lambda>(signature, data).
     let st = h_state h; credential_id = rh_credential_id data in
     try_bind (ok_or (rg_credentials st credential_id) CredentialNotFound) (\<lambda>e.
     ensure (ce_holder_revocable e) RegistryNotAuthorized
     (let nonce = ce_revocation_nonce e;
          st = st\<lparr>rg_credentials := (rg_credentials st)(credential_id \<mapsto> e\<lparr>ce_revocation_nonce := nonce + 1\<rparr>)\<rparr>
      in try_bind (ok_or (re_serial_holder E data) SerializationError) (\<lambda>data_bytes.
         try_bind (authorize_with_signature E ctx nonce credential_id (rh_signing_data data)
           (SIGNATURE_DOMAIN @ data_bytes) signature) (\<lambda>_.
         try_bind (revoke_credential st (ctx_slot_time ctx) credential_id) (\<lambda>st.
         registry_log logger (RevokeEvent credential_id RevokerHolder (rh_reason data)) (h\<lparr>h_state := st\<rparr>)))))))"

definition contract_revoke_credential_issuer ::
    "credential_event logger \<Rightarrow> (public_key \<times> string option) receive_context \<Rightarrow> registry_host \<Rightarrow>
     registry_error + registry_host" where
  "contract_revoke_credential_issuer logger ctx h =
     ensure (sender_is_issuer ctx (h_state h)) RegistryNotAuthorized
     (try_bind (registry_parsed (ctx_parameter ctx)) (\<lambda>(credential_id, reason).
      try_bind (ok_or (rg_credentials (h_state h) credential_id) CredentialNotFound) (\<lambda>_.
      try_bind (revoke_credential (h_state h) (ctx_slot_time ctx) credential_id) (\<lambda>st.
      registry_log logger (RevokeEvent credential_id RevokerIssuer reason) (h\<lparr>h_state := st\<rparr>)))))"

definition contract_revoke_credential_other ::
    "registry_env \<Rightarrow> credential_event logger \<Rightarrow> (bytes \<times> revocation_data_other) named_receive_context \<Rightarrow> registry_host \<Rightarrow>
     registry_error + registry_host" where
  "contract_revoke_credential_other E logger ctx h =
     try_bind (registry_parsed (ctx_parameter ctx)) (\<lambda>(signature, data).
     let st = h_state h; holder_id = ro_credential_id data; public_key = ro_revocation_key data in
     try_bind (ok_or (rg_credentials st holder_id) CredentialNotFound) (\<lambda>_.
     try_bind (ok_or (rg_revocation_keys st public_key) KeyDoesNotExist) (\<lambda>nonce.
     let st = st\<lparr>rg_revocation_keys := (rg_revocation_keys st)(public_key \<mapsto> nonce + 1)\<rparr>
     in try_bind (ok_or (re_serial_other E data) SerializationError) (\<lambda>data_bytes.
        try_bind (authorize_with_signature E ctx nonce public_key (ro_signing_data data)
          (SIGNATURE_DOMAIN @ data_bytes) signature) (\<lambda>_.
        try_bind (revoke_credential st (ctx_slot_time ctx) holder_id) (\<lambda>st.
        registry_log logger (RevokeEvent holder_id (RevokerOther public_key) (ro_reason data)) (h\<lparr>h_state := st\<rparr>)))))))"

definition contract_register_revocation_keys ::
    "credential_event logger \<Rightarrow> public_key list receive_context \<Rightarrow> registry_host \<Rightarrow> registry_error + registry_host" where
  "contract_register_revocation_keys logger ctx h =
     ensure (sender_is_issuer ctx (h_state h)) RegistryNotAuthorized
     (try_bind (registry_parsed (ctx_parameter ctx)) (\<lambda>pks. register_keys logger pks h))"

definition contract_remove_revocation_keys ::
    "credential_event logger \<Rightarrow> public_key list receive_context \<Rightarrow> registry_host \<Rightarrow> registry_error + registry_host" where
  "contract_remove_revocation_keys logger ctx h =
     ensure (sender_is_issuer ctx (h_state h)) RegistryNotAuthorized
     (try_bind (registry_parsed (ctx_parameter ctx)) (\<lambda>pks. remove_keys logger pks h))"

definition contract_revocation_keys :: "registry_host \<Rightarrow> registry_error + (public_key \<times> u64) list" where
  "contract_revocation_keys h = Inr (view_revocation_keys (h_state h))"

definition contract_registry_metadata :: "registry_host \<Rightarrow> registry_error + metadata_url \<times> string \<times> metadata_url" where
  "contract_registry_metadata h =
     (let st = h_state h in Inr (rg_issuer_metadata st, rg_credential_type st, rg_credential_schema st))"

definition contract_update_issuer_metadata ::
    "credential_event logger \<Rightarrow> metadata_url receive_context \<Rightarrow> registry_host \<Rightarrow> registry_error + registry_host" where
  "contract_update_issuer_metadata logger ctx h =
     ensure (sender_is_issuer ctx (h_state h)) RegistryNotAuthorized
     (try_bind (registry_parsed (ctx_parameter ctx)) (\<lambda>data.
      registry_log logger (IssuerMetadataEvent data) (h\<lparr>h_state := (h_state h)\<lparr>rg_issuer_metadata := data\<rparr>\<rparr>)))"

definition contract_issuer :: "registry_host \<Rightarrow> registry_error + public_key" where
  "contract_issuer h = Inr (rg_issuer_key (h_state h))"

definition contract_update_credential_schema ::
    "credential_event logger \<Rightarrow> metadata_url receive_context \<Rightarrow> registry_host \<Rightarrow> registry_error + registry_host" where
  "contract_update_credential_schema logger ctx h =
     ensure (sender_is_issuer ctx (h_state h)) RegistryNotAuthorized
     (try_bind (registry_parsed (ctx_parameter ctx)) (\<lambda>schema_ref.
      let st = (h_state h)\<lparr>rg_credential_schema := schema_ref\<rparr> in
      registry_log logger (SchemaEvent (rg_credential_type st) schema_ref) (h\<lparr>h_state := st\<rparr>)))"

fun update_metadata_loop ::
    "credential_event logger \<Rightarrow> (public_key \<times> metadata_url) list \<Rightarrow> registry_host \<Rightarrow> registry_error + registry_host" where
  "update_metadata_loop logger [] h = Inr h"
| "update_metadata_loop logger ((credential_id, url) # ps) h =
     try_bind (update_credential_metadata (h_state h) credential_id url) (\<lambda>st.
     try_bind (registry_log logger (CredentialMetadataEvent credential_id url) (h\<lparr>h_state := st\<rparr>))
       (update_metadata_loop logger ps))"

definition contract_update_credential_metadata ::
    "credential_event logger \<Rightarrow> (public_key \<times> metadata_url) list receive_context \<Rightarrow> registry_host \<Rightarrow>
     registry_error + registry_host" where
  "contract_update_credential_metadata logger ctx h =
     ensure (sender_is_issuer ctx (h_state h)) RegistryNotAuthorized
     (try_bind (registry_parsed (ctx_parameter ctx)) (\<lambda>data. update_metadata_loop logger data h))"

definition contract_restore_credential ::
    "credential_event logger \<Rightarrow> (public_key \<times> string option) receive_context \<Rightarrow> registry_host \<Rightarrow>
     registry_error + registry_host" where
  "contract_restore_credential logger ctx h =
     ensure (sender_is_issuer ctx (h_state h)) RegistryNotAuthorized
     (try_bind (registry_parsed (ctx_parameter ctx)) (\<lambda>(credential_id, reason).
      try_bind (ok_or (rg_credentials (h_state h) credential_id) CredentialNotFound) (\<lambda>_.
      try_bind (restore_credential (h_state h) (ctx_slot_time ctx) credential_id) (\<lambda>st.
      registry_log logger (RestoreEvent credential_id reason) (h\<lparr>h_state := st\<rparr>)))))"

definition registry_contract_supports :: "string list receive_context \<Rightarrow> registry_host \<Rightarrow> registry_error + support_result list" where
  "registry_contract_supports ctx h =
     try_bind (registry_parsed (ctx_parameter ctx)) (\<lambda>queries. Inr (map (\<lambda>std_id.
       if std_id \<in> set REGISTRY_SUPPORTS_STANDARDS then Support else registry_has_implementors (h_state h) std_id) queries))"

definition registry_contract_set_implementor ::
    "(string \<times> contract_address list) receive_context \<Rightarrow> registry_host \<Rightarrow> registry_error + registry_host" where
  "registry_contract_set_implementor ctx h =
     ensure (sender_is_issuer ctx (h_state h)) RegistryNotAuthorized
     (try_bind (registry_parsed (ctx_parameter ctx)) (\<lambda>(std_id, addresses).
      Inr (h\<lparr>h_state := registry_set_implementors (h_state h) std_id addresses\<rparr>)))"

text \<open>\<open>upgrade_to\<close> is the upgrade of the instance to a module, \<open>invoke_raw\<close> a call with a serialized parameter.\<close>

definition registry_contract_upgrade ::
    "(bytes \<Rightarrow> registry_host \<Rightarrow> upgrade_error + registry_host) \<Rightarrow>
     (registry_host \<Rightarrow> contract_address \<Rightarrow> bytes \<Rightarrow> string \<Rightarrow> u64 \<Rightarrow> bytes call_contract_error + registry_host) \<Rightarrow>
     (bytes \<times> (string \<times> bytes) option) receive_context \<Rightarrow> registry_host \<Rightarrow> registry_error + registry_host" where
  "registry_contract_upgrade upgrade_to invoke_raw ctx h =
     ensure (sender_is_issuer ctx (h_state h)) RegistryNotAuthorized
     (try_bind (registry_parsed (ctx_parameter ctx)) (\<lambda>(module_ref, migrate).
      try_bind (map_err registry_error_from_upgrade (upgrade_to module_ref h)) (\<lambda>h.
      case migrate of
        Some (func, parameters) \<Rightarrow> map_err registry_error_from_call (invoke_raw h (ctx_self_address ctx) parameters func 0)
      | None \<Rightarrow> Inr h)))"

end
