(* ===== verification/Registry_Properties.thy ===== *)
theory Registry_Properties
  imports Credential_Registry
begin

text \<open>
  What every history of the credential registry guarantees. The locale \<open>registry_guarantee\<close> names what the single
  operations have to satisfy, each with the event that the code logs for it, and lifts it to histories of calls. It
  is interpreted for the state that the events describe, for the nonces and the fixed parts of the entries, and for
  what only the issuer can do.
\<close>

section \<open>Histories\<close>

datatype registry_call =
    RegisterCall "credential_info receive_context"
  | RevokeHolderCall "(bytes \<times> revocation_data_holder) named_receive_context"
  | RevokeIssuerCall "(public_key \<times> string option) receive_context"
  | RevokeOtherCall "(bytes \<times> revocation_data_other) named_receive_context"
  | RegisterKeysCall "public_key list receive_context"
  | RemoveKeysCall "public_key list receive_context"
  | UpdateIssuerMetadataCall "metadata_url receive_context"
  | UpdateSchemaCall "metadata_url receive_context"
  | UpdateMetadataCall "(public_key \<times> metadata_url) list receive_context"
  | RestoreCall "(public_key \<times> string option) receive_context"
  | SetImplementorCall "(string \<times> contract_address list) receive_context"

fun registry_exec ::
    "registry_env \<Rightarrow> credential_event logger \<Rightarrow> registry_call \<Rightarrow> registry_host \<Rightarrow> registry_error + registry_host" where
  "registry_exec E logger (RegisterCall ctx) h = contract_register_credential logger ctx h"
| "registry_exec E logger (RevokeHolderCall ctx) h = contract_revoke_credential_holder E logger ctx h"
| "registry_exec E logger (RevokeIssuerCall ctx) h = contract_revoke_credential_issuer logger ctx h"
| "registry_exec E logger (RevokeOtherCall ctx) h = contract_revoke_credential_other E logger ctx h"
| "registry_exec E logger (RegisterKeysCall ctx) h = contract_register_revocation_keys logger ctx h"
| "registry_exec E logger (RemoveKeysCall ctx) h = contract_remove_revocation_keys logger ctx h"
| "registry_exec E logger (UpdateIssuerMetadataCall ctx) h = contract_update_issuer_metadata logger ctx h"
| "registry_exec E logger (UpdateSchemaCall ctx) h = contract_update_credential_schema logger ctx h"
| "registry_exec E logger (UpdateMetadataCall ctx) h = contract_update_credential_metadata logger ctx h"
| "registry_exec E logger (RestoreCall ctx) h = contract_restore_credential logger ctx h"
| "registry_exec E logger (SetImplementorCall ctx) h = registry_contract_set_implementor ctx h"

fun call_sender :: "registry_call \<Rightarrow> address" where
  "call_sender (RegisterCall ctx) = ctx_sender ctx"
| "call_sender (RevokeHolderCall ctx) = ctx_sender ctx"
| "call_sender (RevokeIssuerCall ctx) = ctx_sender ctx"
| "call_sender (RevokeOtherCall ctx) = ctx_sender ctx"
| "call_sender (RegisterKeysCall ctx) = ctx_sender ctx"
| "call_sender (RemoveKeysCall ctx) = ctx_sender ctx"
| "call_sender (UpdateIssuerMetadataCall ctx) = ctx_sender ctx"
| "call_sender (UpdateSchemaCall ctx) = ctx_sender ctx"
| "call_sender (UpdateMetadataCall ctx) = ctx_sender ctx"
| "call_sender (RestoreCall ctx) = ctx_sender ctx"
| "call_sender (SetImplementorCall ctx) = ctx_sender ctx"

text \<open>\<open>registry_steps E A n evs h h'\<close>: at most \<open>n\<close> accepted calls of addresses of \<open>A\<close> lead from \<open>h\<close> to \<open>h'\<close> and log \<open>evs\<close>.\<close>

inductive registry_steps ::
    "registry_env \<Rightarrow> address set \<Rightarrow> nat \<Rightarrow> credential_event list \<Rightarrow> registry_host \<Rightarrow> registry_host \<Rightarrow> bool" where
  start: "registry_steps E A n [] h h"
| step: "registry_steps E A n evs h h1 \<Longrightarrow> call_sender c \<in> A \<Longrightarrow>
    registry_exec E logger c (receive_amount 0 h1) = Inr h2 \<Longrightarrow> registry_steps E A (n + 1) (evs @ h_logs h2) h h2"

section \<open>Guarantees\<close>

lemma registry_parsed_Inr [simp]: "registry_parsed p = Inr x \<longleftrightarrow> p = Some x"
  by (simp add: registry_parsed_def)

lemma registry_log_Inr: "registry_log logger ev h = Inr h' \<Longrightarrow> h_state h' = h_state h \<and> h_logs h' = h_logs h @ [ev]"
  by (auto simp: registry_log_def dest: log_event_Inr)

lemma registry_receive_amount [simp]:
  "h_state (receive_amount amount h) = h_state h" "h_logs (receive_amount amount h) = []"
  by (simp_all add: receive_amount_def)

lemma issuer_account_simps:
  "register_revocation_key st pk = Inr st' \<Longrightarrow> rg_issuer_account st' = rg_issuer_account st"
  "remove_revocation_key st pk = Inr st' \<Longrightarrow> rg_issuer_account st' = rg_issuer_account st"
  "update_credential_metadata st pk url = Inr st' \<Longrightarrow> rg_issuer_account st' = rg_issuer_account st"
  by (auto simp: register_revocation_key_def remove_revocation_key_def update_credential_metadata_def Let_def
      split: if_splits option.splits)

definition by_issuer :: "address set \<Rightarrow> registry_state \<Rightarrow> bool" where
  "by_issuer A st \<longleftrightarrow> Account (rg_issuer_account st) \<in> A"

locale registry_guarantee =
  fixes E :: registry_env and A :: "address set"
    and G :: "nat \<Rightarrow> credential_event list \<Rightarrow> registry_state \<Rightarrow> registry_state \<Rightarrow> bool"
  assumes G_refl: "G n [] st st"
    and G_trans: "G n evs st st' \<Longrightarrow> G m evs' st' st'' \<Longrightarrow> G (n + m) (evs @ evs') st st''"
    and G_register: "by_issuer A st \<Longrightarrow> register_credential st info = Inr st' \<Longrightarrow>
      G 0 [RegisterEvent \<lparr>ed_holder_id = ci_holder_id info, ed_schema_ref = rg_credential_schema st',
        ed_credential_type = rg_credential_type st', ed_metadata_url = ci_metadata_url info\<rparr>] st st'"
    and G_revoke: "by_issuer A st \<Longrightarrow> revoke_credential st now c = Inr st' \<Longrightarrow> G 0 [RevokeEvent c RevokerIssuer r] st st'"
    and G_revoke_holder: "rg_credentials st c = Some e \<Longrightarrow> ce_holder_revocable e \<Longrightarrow>
      revoke_credential (st\<lparr>rg_credentials := (rg_credentials st)(c \<mapsto> e\<lparr>ce_revocation_nonce := ce_revocation_nonce e + 1\<rparr>)\<rparr>)
        now c = Inr st' \<Longrightarrow> G 1 [RevokeEvent c RevokerHolder r] st st'"
    and G_revoke_other: "rg_revocation_keys st pk = Some nonce \<Longrightarrow>
      revoke_credential (st\<lparr>rg_revocation_keys := (rg_revocation_keys st)(pk \<mapsto> nonce + 1)\<rparr>) now c = Inr st' \<Longrightarrow>
      G 1 [RevokeEvent c (RevokerOther pk) r] st st'"
    and G_restore: "by_issuer A st \<Longrightarrow> restore_credential st now c = Inr st' \<Longrightarrow> G 0 [RestoreEvent c r] st st'"
    and G_register_key: "by_issuer A st \<Longrightarrow> register_revocation_key st pk = Inr st' \<Longrightarrow>
      G 0 [RevocationKeyEvent pk RegisterKey] st st'"
    and G_remove_key: "by_issuer A st \<Longrightarrow> remove_revocation_key st pk = Inr st' \<Longrightarrow>
      G 0 [RevocationKeyEvent pk RemoveKey] st st'"
    and G_issuer_metadata: "by_issuer A st \<Longrightarrow> G 0 [IssuerMetadataEvent url] st (st\<lparr>rg_issuer_metadata := url\<rparr>)"
    and G_schema: "by_issuer A st \<Longrightarrow> G 0 [SchemaEvent (rg_credential_type st) url] st (st\<lparr>rg_credential_schema := url\<rparr>)"
    and G_metadata: "by_issuer A st \<Longrightarrow> update_credential_metadata st c url = Inr st' \<Longrightarrow>
      G 0 [CredentialMetadataEvent c url] st st'"
    and G_implementors: "by_issuer A st \<Longrightarrow> G 0 [] st (registry_set_implementors st std_id addresses)"
begin

definition H :: "nat \<Rightarrow> registry_host \<Rightarrow> registry_host \<Rightarrow> bool" where
  "H n h h' \<longleftrightarrow> (\<exists>evs. h_logs h' = h_logs h @ evs \<and> G n evs (h_state h) (h_state h'))"

lemma H_refl: "H n h h"
  by (auto simp: H_def G_refl)

lemma H_trans: "H 0 h h1 \<Longrightarrow> H 0 h1 h2 \<Longrightarrow> H 0 h h2"
  unfolding H_def using G_trans [where n = 0 and m = 0] by fastforce

lemma G_mono: "G n evs st st' \<Longrightarrow> n \<le> m \<Longrightarrow> G m evs st st'"
  using G_trans [OF _ G_refl, of n evs st st' "m - n"] by simp

lemma H_mono: "H n h h' \<Longrightarrow> n \<le> m \<Longrightarrow> H m h h'"
  unfolding H_def using G_mono by blast

lemma logged: "registry_log logger ev (h\<lparr>h_state := st\<rparr>) = Inr h' \<Longrightarrow> G n [ev] (h_state h) st \<Longrightarrow> H n h h'"
  by (auto simp: H_def dest!: registry_log_Inr)

lemma register_keys_guarantee: "register_keys logger pks h = Inr h' \<Longrightarrow> by_issuer A (h_state h) \<Longrightarrow> H 0 h h'"
proof (induction pks arbitrary: h)
  case (Cons pk pks)
  then obtain st h1 where h1: "register_revocation_key (h_state h) pk = Inr st"
    "registry_log logger (RevocationKeyEvent pk RegisterKey) (h\<lparr>h_state := st\<rparr>) = Inr h1" "register_keys logger pks h1 = Inr h'"
    by (auto simp: try_bind_Inr)
  have "by_issuer A (h_state h1)"
    using Cons.prems(2) issuer_account_simps(1) [OF h1(1)] registry_log_Inr [OF h1(2)] by (simp add: by_issuer_def)
  from H_trans [OF logged [OF h1(2) G_register_key [OF Cons.prems(2) h1(1)]] Cons.IH [OF h1(3) this]] show ?case .
qed (simp add: H_refl)

lemma remove_keys_guarantee: "remove_keys logger pks h = Inr h' \<Longrightarrow> by_issuer A (h_state h) \<Longrightarrow> H 0 h h'"
proof (induction pks arbitrary: h)
  case (Cons pk pks)
  then obtain st h1 where h1: "remove_revocation_key (h_state h) pk = Inr st"
    "registry_log logger (RevocationKeyEvent pk RemoveKey) (h\<lparr>h_state := st\<rparr>) = Inr h1" "remove_keys logger pks h1 = Inr h'"
    by (auto simp: try_bind_Inr)
  have "by_issuer A (h_state h1)"
    using Cons.prems(2) issuer_account_simps(2) [OF h1(1)] registry_log_Inr [OF h1(2)] by (simp add: by_issuer_def)
  from H_trans [OF logged [OF h1(2) G_remove_key [OF Cons.prems(2) h1(1)]] Cons.IH [OF h1(3) this]] show ?case .
qed (simp add: H_refl)

lemma metadata_loop_guarantee: "update_metadata_loop logger ps h = Inr h' \<Longrightarrow> by_issuer A (h_state h) \<Longrightarrow> H 0 h h'"
proof (induction ps arbitrary: h)
  case (Cons p ps)
  obtain c url where p: "p = (c, url)" by force
  with Cons.prems obtain st h1 where h1: "update_credential_metadata (h_state h) c url = Inr st"
    "registry_log logger (CredentialMetadataEvent c url) (h\<lparr>h_state := st\<rparr>) = Inr h1" "update_metadata_loop logger ps h1 = Inr h'"
    by (auto simp: try_bind_Inr)
  have "by_issuer A (h_state h1)"
    using Cons.prems(2) issuer_account_simps(3) [OF h1(1)] registry_log_Inr [OF h1(2)] by (simp add: by_issuer_def)
  from H_trans [OF logged [OF h1(2) G_metadata [OF Cons.prems(2) h1(1)]] Cons.IH [OF h1(3) this]] show ?case .
qed (simp add: H_refl)

lemma sender_by_issuer: "sender_is_issuer ctx st \<Longrightarrow> ctx_sender ctx \<in> A \<Longrightarrow> by_issuer A st"
  by (simp add: sender_is_issuer_def by_issuer_def)

lemma exec_guarantee:
  assumes "registry_exec E logger c h = Inr h'" "call_sender c \<in> A"
  shows "H 1 h h'"
proof -
  have "H 0 h h' \<or> H 1 h h'"
  proof (cases c)
    case (RegisterCall ctx)
    with assms show ?thesis
      by (auto simp: contract_register_credential_def try_bind_Inr intro: logged G_register dest: sender_by_issuer)
  next
    case (RevokeHolderCall ctx)
    with assms(1) have "H 1 h h'"
      by (auto simp: contract_revoke_credential_holder_def try_bind_Inr Let_def intro!: logged G_revoke_holder [unfolded One_nat_def])
    then show ?thesis ..
  next
    case (RevokeIssuerCall ctx)
    with assms show ?thesis
      by (auto simp: contract_revoke_credential_issuer_def try_bind_Inr intro: logged G_revoke dest: sender_by_issuer)
  next
    case (RevokeOtherCall ctx)
    with assms(1) have "H 1 h h'"
      by (auto simp: contract_revoke_credential_other_def try_bind_Inr Let_def intro!: logged G_revoke_other [unfolded One_nat_def])
    then show ?thesis ..
  next
    case (RegisterKeysCall ctx)
    with assms show ?thesis
      by (auto simp: contract_register_revocation_keys_def try_bind_Inr intro: register_keys_guarantee dest: sender_by_issuer)
  next
    case (RemoveKeysCall ctx)
    with assms show ?thesis
      by (auto simp: contract_remove_revocation_keys_def try_bind_Inr intro: remove_keys_guarantee dest: sender_by_issuer)
  next
    case (UpdateIssuerMetadataCall ctx)
    with assms show ?thesis
      by (auto simp: contract_update_issuer_metadata_def try_bind_Inr intro: logged G_issuer_metadata dest: sender_by_issuer)
  next
    case (UpdateSchemaCall ctx)
    with assms show ?thesis
      by (auto simp: contract_update_credential_schema_def try_bind_Inr Let_def intro: logged G_schema dest: sender_by_issuer)
  next
    case (UpdateMetadataCall ctx)
    with assms show ?thesis
      by (auto simp: contract_update_credential_metadata_def try_bind_Inr intro: metadata_loop_guarantee dest: sender_by_issuer)
  next
    case (RestoreCall ctx)
    with assms show ?thesis
      by (auto simp: contract_restore_credential_def try_bind_Inr intro: logged G_restore dest: sender_by_issuer)
  next
    case (SetImplementorCall ctx)
    with assms show ?thesis
      by (auto simp: registry_contract_set_implementor_def try_bind_Inr H_def intro!: G_implementors sender_by_issuer [of ctx])
  qed
  then show ?thesis using H_mono by auto
qed

lemma steps_guarantee: "registry_steps E' A' n evs h h' \<Longrightarrow> E' = E \<Longrightarrow> A' = A \<Longrightarrow> G n evs (h_state h) (h_state h')"
proof (induction rule: registry_steps.induct)
  case (step E' A' n evs h h1 c logger h2)
  have "H 1 (receive_amount 0 h1) h2" using step.hyps(2,3) step.prems exec_guarantee by auto
  then have "G 1 (h_logs h2) (h_state h1) (h_state h2)" by (auto simp: H_def)
  from G_trans [OF step.IH [OF step.prems] this] show ?case by simp
qed (simp add: G_refl)

end

section \<open>The state that the events describe\<close>

record registry_view =
  rv_credentials :: "public_key \<rightharpoonup> bool \<times> metadata_url"
  rv_keys :: "public_key set"
  rv_issuer_metadata :: metadata_url
  rv_credential_type :: string
  rv_schema :: metadata_url

definition registry_view :: "registry_state \<Rightarrow> registry_view" where
  "registry_view st =
     \<lparr>rv_credentials = (\<lambda>c. map_option (\<lambda>e. (ce_revoked e, ce_metadata_url e)) (rg_credentials st c)),
      rv_keys = dom (rg_revocation_keys st), rv_issuer_metadata = rg_issuer_metadata st,
      rv_credential_type = rg_credential_type st, rv_schema = rg_credential_schema st\<rparr>"

definition set_revoked :: "bool \<Rightarrow> public_key \<Rightarrow> registry_view \<Rightarrow> registry_view" where
  "set_revoked b c v =
     v\<lparr>rv_credentials := (rv_credentials v)(c := map_option (\<lambda>(_, url). (b, url)) (rv_credentials v c))\<rparr>"

fun apply_event :: "credential_event \<Rightarrow> registry_view \<Rightarrow> registry_view" where
  "apply_event (RegisterEvent d) v =
     v\<lparr>rv_credentials := (rv_credentials v)(ed_holder_id d \<mapsto> (False, ed_metadata_url d))\<rparr>"
| "apply_event (RevokeEvent c who reason) v = set_revoked True c v"
| "apply_event (RestoreEvent c reason) v = set_revoked False c v"
| "apply_event (IssuerMetadataEvent url) v = v\<lparr>rv_issuer_metadata := url\<rparr>"
| "apply_event (CredentialMetadataEvent c url) v =
     v\<lparr>rv_credentials := (rv_credentials v)(c := map_option (\<lambda>(b, _). (b, url)) (rv_credentials v c))\<rparr>"
| "apply_event (SchemaEvent credential_type url) v = v\<lparr>rv_credential_type := credential_type, rv_schema := url\<rparr>"
| "apply_event (RevocationKeyEvent pk RegisterKey) v = v\<lparr>rv_keys := insert pk (rv_keys v)\<rparr>"
| "apply_event (RevocationKeyEvent pk RemoveKey) v = v\<lparr>rv_keys := rv_keys v - {pk}\<rparr>"

definition described :: "nat \<Rightarrow> credential_event list \<Rightarrow> registry_state \<Rightarrow> registry_state \<Rightarrow> bool" where
  "described n evs st st' \<longleftrightarrow> registry_view st' = fold apply_event evs (registry_view st)"

lemma revoke_credential_run:
  assumes "revoke_credential st now c = Inr st'"
  obtains e where "rg_credentials st c = Some e" "get_status e now = Active \<or> get_status e now = NotActivated"
    "st' = st\<lparr>rg_credentials := (rg_credentials st)(c \<mapsto> e\<lparr>ce_revoked := True\<rparr>)\<rparr>"
  using assms by (auto simp: revoke_credential_def try_bind_Inr Let_def)

lemma restore_credential_run:
  assumes "restore_credential st now c = Inr st'"
  obtains e where "rg_credentials st c = Some e" "ce_revoked e"
    "st' = st\<lparr>rg_credentials := (rg_credentials st)(c \<mapsto> e\<lparr>ce_revoked := False\<rparr>)\<rparr>"
  using assms by (auto simp: restore_credential_def try_bind_Inr Let_def get_status_def split: if_splits)

lemma described_revoke:
  assumes "revoke_credential st1 now c = Inr st'" "registry_view st1 = registry_view st"
  shows "described n [RevokeEvent c who r] st st'"
proof -
  have "registry_view st' = set_revoked True c (registry_view st1)"
    using assms(1) by (rule revoke_credential_run) (auto simp: set_revoked_def registry_view_def fun_eq_iff)
  then show ?thesis by (simp add: described_def assms(2))
qed

interpretation described: registry_guarantee E A described for E A
proof (unfold_locales, goal_cases)
  case (3 st info st')
  then show ?case by (auto simp: described_def registry_view_def register_credential_def Let_def)
next
  case (4 st now c st' r)
  then show ?case using described_revoke by blast
next
  case (5 st c e now st' r)
  from 5(3) show ?case by (rule described_revoke) (auto simp: registry_view_def fun_eq_iff 5(1))
next
  case (6 st pk nonce now c st' r)
  from 6(2) show ?case by (rule described_revoke) (use 6(1) in \<open>auto simp: registry_view_def\<close>)
next
  case (7 st now c st' r)
  from 7(2) show ?case by (rule restore_credential_run) (auto simp: described_def set_revoked_def registry_view_def fun_eq_iff)
qed (auto simp: described_def registry_view_def register_revocation_key_def remove_revocation_key_def
    update_credential_metadata_def registry_set_implementors_def Let_def fun_eq_iff split: if_splits option.splits)

section \<open>Nonces and fixed parts\<close>

text \<open>
  Entries stay and keep what their registration fixed; the nonces of entries and of keys only count up, at most once
  per call; a key that was removed does not come back.
\<close>

definition entries_progress :: "nat \<Rightarrow> (public_key \<rightharpoonup> credential_entry) \<Rightarrow> (public_key \<rightharpoonup> credential_entry) \<Rightarrow> bool" where
  "entries_progress n m m' \<longleftrightarrow> (\<forall>c e. m c = Some e \<longrightarrow> (\<exists>e' k. m' c = Some e' \<and> k \<le> n \<and>
     ce_revocation_nonce e' = ce_revocation_nonce e + of_nat k \<and> ce_holder_revocable e' = ce_holder_revocable e \<and>
     ce_valid_from e' = ce_valid_from e \<and> ce_valid_until e' = ce_valid_until e))"

definition key_progress :: "nat \<Rightarrow> u64 option \<Rightarrow> u64 option \<Rightarrow> bool" where
  "key_progress n x x' \<longleftrightarrow> x' = None \<or> (\<exists>y k. x = Some y \<and> k \<le> n \<and> x' = Some (y + of_nat k))"

definition keys_known :: "registry_state \<Rightarrow> bool" where
  "keys_known st \<longleftrightarrow> dom (rg_revocation_keys st) \<subseteq> rg_all_revocation_keys st"

definition progress :: "nat \<Rightarrow> credential_event list \<Rightarrow> registry_state \<Rightarrow> registry_state \<Rightarrow> bool" where
  "progress n evs st st' \<longleftrightarrow> entries_progress n (rg_credentials st) (rg_credentials st') \<and>
     rg_all_revocation_keys st \<subseteq> rg_all_revocation_keys st' \<and> (keys_known st \<longrightarrow> keys_known st') \<and>
     (\<forall>pk \<in> rg_all_revocation_keys st. key_progress n (rg_revocation_keys st pk) (rg_revocation_keys st' pk))"

lemma entries_progress_refl [simp]: "entries_progress n m m"
  by (fastforce simp: entries_progress_def intro: exI [of _ 0])

lemma entries_progress_trans:
  assumes "entries_progress n m m'" "entries_progress k m' m''"
  shows "entries_progress (n + k) m m''"
  unfolding entries_progress_def
proof (intro allI impI)
  fix c e
  assume "m c = Some e"
  then obtain e' i where e': "m' c = Some e'" "i \<le> n" "ce_revocation_nonce e' = ce_revocation_nonce e + of_nat i"
    "ce_holder_revocable e' = ce_holder_revocable e" "ce_valid_from e' = ce_valid_from e" "ce_valid_until e' = ce_valid_until e"
    using assms(1) unfolding entries_progress_def by blast
  then obtain e'' j where "m'' c = Some e''" "j \<le> k" "ce_revocation_nonce e'' = ce_revocation_nonce e' + of_nat j"
    "ce_holder_revocable e'' = ce_holder_revocable e'" "ce_valid_from e'' = ce_valid_from e'" "ce_valid_until e'' = ce_valid_until e'"
    using assms(2) unfolding entries_progress_def by blast
  then show "\<exists>e'' l. m'' c = Some e'' \<and> l \<le> n + k \<and> ce_revocation_nonce e'' = ce_revocation_nonce e + of_nat l \<and>
    ce_holder_revocable e'' = ce_holder_revocable e \<and> ce_valid_from e'' = ce_valid_from e \<and> ce_valid_until e'' = ce_valid_until e"
    using e' by (intro exI [of _ e''] exI [of _ "i + j"]) simp
qed

lemma entries_progress_upd:
  "m c = Some e \<Longrightarrow> k \<le> n \<Longrightarrow> ce_revocation_nonce e' = ce_revocation_nonce e + of_nat k \<Longrightarrow>
     ce_holder_revocable e' = ce_holder_revocable e \<Longrightarrow> ce_valid_from e' = ce_valid_from e \<Longrightarrow>
     ce_valid_until e' = ce_valid_until e \<Longrightarrow> entries_progress n m (m(c \<mapsto> e'))"
  unfolding entries_progress_def by (fastforce intro: exI [of _ 0])

lemma key_progress_refl [simp]: "key_progress n x x"
  by (cases x) (auto simp: key_progress_def intro: exI [of _ 0])

lemma key_progress_trans:
  assumes "key_progress n x x'" "key_progress m x' x''"
  shows "key_progress (n + m) x x''"
proof (cases x'')
  case (Some z)
  then obtain y k where y: "x' = Some y" "k \<le> m" "z = y + of_nat k" using assms(2) by (auto simp: key_progress_def)
  then obtain w l where "x = Some w" "l \<le> n" "y = w + of_nat l" using assms(1) by (auto simp: key_progress_def)
  then show ?thesis using y Some unfolding key_progress_def by (intro disjI2 exI [of _ w] exI [of _ "l + k"]) simp
qed (simp add: key_progress_def)

lemma progress_trans:
  assumes "progress n evs st st'" "progress m evs' st' st''"
  shows "progress (n + m) (evs @ evs') st st''"
  unfolding progress_def
proof (intro conjI ballI impI)
  show "entries_progress (n + m) (rg_credentials st) (rg_credentials st'')"
    using assms entries_progress_trans by (auto simp: progress_def)
  show "rg_all_revocation_keys st \<subseteq> rg_all_revocation_keys st''" using assms by (auto simp: progress_def)
  show "keys_known st''" if "keys_known st" using assms that by (simp add: progress_def)
  fix pk
  assume "pk \<in> rg_all_revocation_keys st"
  then have "key_progress n (rg_revocation_keys st pk) (rg_revocation_keys st' pk)"
    "key_progress m (rg_revocation_keys st' pk) (rg_revocation_keys st'' pk)" using assms by (auto simp: progress_def)
  then show "key_progress (n + m) (rg_revocation_keys st pk) (rg_revocation_keys st'' pk)" by (rule key_progress_trans)
qed

text \<open>Operations that leave the keys alone.\<close>

lemma progress_entries:
  assumes "entries_progress n (rg_credentials st) (rg_credentials st')" "rg_revocation_keys st' = rg_revocation_keys st"
    and "rg_all_revocation_keys st' = rg_all_revocation_keys st"
  shows "progress n evs st st'"
  using assms by (simp add: progress_def keys_known_def)

lemma progress_entry:
  assumes "rg_credentials st c = Some e" "st' = st\<lparr>rg_credentials := (rg_credentials st)(c \<mapsto> e')\<rparr>" "k \<le> n"
    and "ce_revocation_nonce e' = ce_revocation_nonce e + of_nat k" "ce_holder_revocable e' = ce_holder_revocable e"
    and "ce_valid_from e' = ce_valid_from e" "ce_valid_until e' = ce_valid_until e"
  shows "progress n evs st st'"
proof -
  have "entries_progress n (rg_credentials st) ((rg_credentials st)(c \<mapsto> e'))"
    by (rule entries_progress_upd [where k = k]) (use assms in auto)
  then show ?thesis using assms(2) by (intro progress_entries) simp_all
qed

interpretation progress: registry_guarantee E A progress for E A
proof (unfold_locales, goal_cases)
  case (1 n st)
  show ?case by (rule progress_entries) simp_all
next
  case (2 n evs st st' m evs' st'')
  then show ?case by (rule progress_trans)
next
  case (3 st info st')
  then show ?case
    by (intro progress_entries) (auto simp: register_credential_def entries_progress_def Let_def intro: exI [of _ 0])
next
  case (4 st now c st' r)
  from 4(2) show ?case by (rule revoke_credential_run) (rule progress_entry [where k = 0], assumption, assumption, simp_all)
next
  case (5 st c e now st' r)
  from 5(3) show ?case by (rule revoke_credential_run) (rule progress_entry [OF 5(1), where k = 1 and e' = "e\<lparr>ce_revocation_nonce := ce_revocation_nonce e + 1, ce_revoked := True\<rparr>"], auto)
next
  case (6 st pk nonce now c st' r)
  from 6(2) obtain e where e: "rg_credentials st c = Some e"
    "st' = st\<lparr>rg_revocation_keys := (rg_revocation_keys st)(pk \<mapsto> nonce + 1),
       rg_credentials := (rg_credentials st)(c \<mapsto> e\<lparr>ce_revoked := True\<rparr>)\<rparr>" by (rule revoke_credential_run) auto
  have "entries_progress 1 (rg_credentials st) (rg_credentials st')"
    using entries_progress_upd [where m = "rg_credentials st" and k = 0, OF e(1)] by (simp add: e(2))
  moreover have "key_progress 1 (rg_revocation_keys st a) (rg_revocation_keys st' a)" for a
  proof (cases "a = pk")
    case True
    have "\<exists>y k. Some nonce = Some y \<and> k \<le> 1 \<and> Some (nonce + 1) = Some (y + of_nat k)" by (intro exI [of _ nonce] exI [of _ 1]) simp
    then show ?thesis using True 6(1) e(2) by (simp add: key_progress_def)
  qed (simp add: e(2))
  moreover have "dom (rg_revocation_keys st') = dom (rg_revocation_keys st)" using 6(1) e(2) by auto
  ultimately show ?case using e(2) by (simp add: progress_def keys_known_def)
next
  case (7 st now c st' r)
  from 7(2) show ?case by (rule restore_credential_run) (rule progress_entry [where k = 0], assumption, assumption, simp_all)
next
  case (8 st pk st')
  then have "pk \<notin> rg_all_revocation_keys st" "st' = st\<lparr>rg_all_revocation_keys := insert pk (rg_all_revocation_keys st),
    rg_revocation_keys := (rg_revocation_keys st)(pk \<mapsto> 0)\<rparr>"
    by (auto simp: register_revocation_key_def Let_def)
  then show ?case by (auto simp: progress_def keys_known_def)
next
  case (9 st pk st')
  then have "st' = st\<lparr>rg_revocation_keys := (rg_revocation_keys st)(pk := None)\<rparr>"
    by (auto simp: remove_revocation_key_def split: if_splits)
  moreover have "key_progress 0 x None" for x by (simp add: key_progress_def)
  ultimately show ?case by (auto simp: progress_def keys_known_def)
next
  case (12 st c url st')
  then obtain e where "rg_credentials st c = Some e" "st' = st\<lparr>rg_credentials := (rg_credentials st)(c \<mapsto> e\<lparr>ce_metadata_url := url\<rparr>)\<rparr>"
    by (auto simp: update_credential_metadata_def split: option.splits)
  then show ?case by (rule progress_entry [where k = 0]) simp_all
qed (auto simp: registry_set_implementors_def intro!: progress_entries)

section \<open>What only the issuer can do\<close>

definition issuer_only :: "address set \<Rightarrow> nat \<Rightarrow> credential_event list \<Rightarrow> registry_state \<Rightarrow> registry_state \<Rightarrow> bool" where
  "issuer_only A n evs st st' \<longleftrightarrow> \<not> by_issuer A st \<longrightarrow>
     rg_issuer_account st' = rg_issuer_account st \<and> rg_issuer_metadata st' = rg_issuer_metadata st \<and>
     rg_credential_schema st' = rg_credential_schema st \<and> rg_credential_type st' = rg_credential_type st \<and>
     dom (rg_revocation_keys st') = dom (rg_revocation_keys st) \<and>
     dom (rg_credentials st') = dom (rg_credentials st) \<and>
     (\<forall>c e. rg_credentials st c = Some e \<longrightarrow> (\<exists>e'. rg_credentials st' c = Some e' \<and> ce_metadata_url e' = ce_metadata_url e \<and>
        ce_holder_revocable e' = ce_holder_revocable e \<and> (ce_revoked e \<longrightarrow> ce_revoked e') \<and>
        (\<not> ce_holder_revocable e \<and> dom (rg_revocation_keys st) = {} \<longrightarrow> e' = e)))"

lemma issuer_only_trans:
  assumes "issuer_only A n evs st st'" "issuer_only A m evs' st' st''"
  shows "issuer_only A (n + m) (evs @ evs') st st''"
  unfolding issuer_only_def
proof
  assume "\<not> by_issuer A st"
  then have one: "rg_issuer_account st' = rg_issuer_account st" "rg_issuer_metadata st' = rg_issuer_metadata st"
    "rg_credential_schema st' = rg_credential_schema st" "rg_credential_type st' = rg_credential_type st"
    "dom (rg_revocation_keys st') = dom (rg_revocation_keys st)"
    "dom (rg_credentials st') = dom (rg_credentials st)"
    "\<And>c e. rg_credentials st c = Some e \<Longrightarrow> \<exists>e'. rg_credentials st' c = Some e' \<and> ce_metadata_url e' = ce_metadata_url e \<and>
        ce_holder_revocable e' = ce_holder_revocable e \<and> (ce_revoked e \<longrightarrow> ce_revoked e') \<and>
        (\<not> ce_holder_revocable e \<and> dom (rg_revocation_keys st) = {} \<longrightarrow> e' = e)"
    using assms(1) by (simp_all add: issuer_only_def)
  then have "\<not> by_issuer A st'" using \<open>\<not> by_issuer A st\<close> by (simp add: by_issuer_def)
  then have two: "rg_issuer_account st'' = rg_issuer_account st'" "rg_issuer_metadata st'' = rg_issuer_metadata st'"
    "rg_credential_schema st'' = rg_credential_schema st'" "rg_credential_type st'' = rg_credential_type st'"
    "dom (rg_revocation_keys st'') = dom (rg_revocation_keys st')"
    "dom (rg_credentials st'') = dom (rg_credentials st')"
    "\<And>c e. rg_credentials st' c = Some e \<Longrightarrow> \<exists>e'. rg_credentials st'' c = Some e' \<and> ce_metadata_url e' = ce_metadata_url e \<and>
        ce_holder_revocable e' = ce_holder_revocable e \<and> (ce_revoked e \<longrightarrow> ce_revoked e') \<and>
        (\<not> ce_holder_revocable e \<and> dom (rg_revocation_keys st') = {} \<longrightarrow> e' = e)"
    using assms(2) by (simp_all add: issuer_only_def)
  have "\<exists>e'. rg_credentials st'' c = Some e' \<and> ce_metadata_url e' = ce_metadata_url e \<and>
        ce_holder_revocable e' = ce_holder_revocable e \<and> (ce_revoked e \<longrightarrow> ce_revoked e') \<and>
        (\<not> ce_holder_revocable e \<and> dom (rg_revocation_keys st) = {} \<longrightarrow> e' = e)" if "rg_credentials st c = Some e" for c e
  proof -
    from one(7) [OF that] obtain e1 where e1: "rg_credentials st' c = Some e1" "ce_metadata_url e1 = ce_metadata_url e"
      "ce_holder_revocable e1 = ce_holder_revocable e" "ce_revoked e \<longrightarrow> ce_revoked e1"
      "\<not> ce_holder_revocable e \<and> dom (rg_revocation_keys st) = {} \<longrightarrow> e1 = e" by blast
    with two(7) [OF e1(1)] one(5) show ?thesis by auto
  qed
  then show "rg_issuer_account st'' = rg_issuer_account st \<and> rg_issuer_metadata st'' = rg_issuer_metadata st \<and>
     rg_credential_schema st'' = rg_credential_schema st \<and> rg_credential_type st'' = rg_credential_type st \<and>
     dom (rg_revocation_keys st'') = dom (rg_revocation_keys st) \<and>
     dom (rg_credentials st'') = dom (rg_credentials st) \<and>
     (\<forall>c e. rg_credentials st c = Some e \<longrightarrow> (\<exists>e'. rg_credentials st'' c = Some e' \<and> ce_metadata_url e' = ce_metadata_url e \<and>
        ce_holder_revocable e' = ce_holder_revocable e \<and> (ce_revoked e \<longrightarrow> ce_revoked e') \<and>
        (\<not> ce_holder_revocable e \<and> dom (rg_revocation_keys st) = {} \<longrightarrow> e' = e)))"
    using one(1-6) two(1-6) by simp
qed

interpretation issuer_only: registry_guarantee E A "issuer_only A" for E A
proof (unfold_locales, goal_cases)
  case (2 n evs st st' m evs' st'')
  then show ?case by (rule issuer_only_trans)
next
  case (5 st c e now st' r)
  from 5(3) show ?case by (rule revoke_credential_run) (use 5(1,2) in \<open>auto simp: issuer_only_def\<close>)
next
  case (6 st pk nonce now c st' r)
  from 6(2) show ?case by (rule revoke_credential_run) (use 6(1) in \<open>auto simp: issuer_only_def\<close>)
qed (auto simp: issuer_only_def)

section \<open>Properties\<close>

lemma register_keys_fields:
  "register_keys logger pks h = Inr h' \<Longrightarrow> rg_credential_type (h_state h') = rg_credential_type (h_state h) \<and>
     rg_credential_schema (h_state h') = rg_credential_schema (h_state h)"
proof (induction pks arbitrary: h)
  case (Cons pk pks)
  then obtain st h1 where run: "register_revocation_key (h_state h) pk = Inr st" "h_state h1 = st" "register_keys logger pks h1 = Inr h'"
    by (auto simp: try_bind_Inr dest!: registry_log_Inr)
  have "rg_credential_type st = rg_credential_type (h_state h)" "rg_credential_schema st = rg_credential_schema (h_state h)"
    using run(1) by (auto simp: register_revocation_key_def Let_def)
  with Cons.IH [OF run(3)] show ?case by (simp add: run(2))
qed simp

lemma registry_init_run:
  assumes "registry_init logger origin (Some p) = Inr h"
  obtains st evs where "rg_credentials st = Map.empty" "rg_revocation_keys st = Map.empty" "rg_all_revocation_keys st = {}"
    "rg_issuer_metadata st = ri_issuer_metadata p" "rg_credential_type st = ri_credential_type p" "rg_credential_schema st = ri_schema p"
    "h_logs h = IssuerMetadataEvent (ri_issuer_metadata p) # evs @ [SchemaEvent (ri_credential_type p) (ri_schema p)]"
    "described 0 evs st (h_state h)" "progress 0 evs st (h_state h)"
    "rg_credential_type (h_state h) = ri_credential_type p" "rg_credential_schema (h_state h) = ri_schema p"
proof -
  define st where "st = registry_new (case ri_issuer_account p of Some a \<Rightarrow> a | None \<Rightarrow> origin) (ri_issuer_key p)
    (ri_issuer_metadata p) (ri_credential_type p) (ri_schema p)"
  obtain h1 h2 where run: "register_keys logger (ri_revocation_keys p) h1 = Inr h2"
    "h_state h1 = st" "h_logs h1 = [IssuerMetadataEvent (ri_issuer_metadata p)]"
    "h_state h = h_state h2" "h_logs h = h_logs h2 @ [SchemaEvent (ri_credential_type p) (ri_schema p)]"
    using assms by (auto simp: registry_init_def Let_def try_bind_Inr st_def dest!: registry_log_Inr)
  have "described.H 0 h1 h2" "progress.H 0 h1 h2"
    using described.register_keys_guarantee [OF run(1), of UNIV] progress.register_keys_guarantee [OF run(1), of UNIV]
    by (simp_all add: by_issuer_def)
  then obtain evs where "h_logs h2 = h_logs h1 @ evs" "described 0 evs (h_state h1) (h_state h2)" "progress 0 evs (h_state h1) (h_state h2)"
    unfolding described.H_def progress.H_def by auto
  then show thesis using run register_keys_fields [OF run(1)] by (intro that [of st evs]) (auto simp: st_def registry_new_def)
qed

lemma apply_event_schema:
  "(apply_event ev v)\<lparr>rv_credential_type := t, rv_schema := s\<rparr> =
     (apply_event ev (v\<lparr>rv_credential_type := t, rv_schema := s\<rparr>))\<lparr>rv_credential_type := t, rv_schema := s\<rparr>"
  by (cases "(ev, v)" rule: apply_event.cases) (simp_all add: set_revoked_def)

lemma fold_apply_event_schema:
  "(fold apply_event evs v)\<lparr>rv_credential_type := t, rv_schema := s\<rparr> =
     (fold apply_event evs (v\<lparr>rv_credential_type := t, rv_schema := s\<rparr>))\<lparr>rv_credential_type := t, rv_schema := s\<rparr>"
proof (induction evs arbitrary: v)
  case (Cons ev evs)
  have "(fold apply_event evs (apply_event ev v))\<lparr>rv_credential_type := t, rv_schema := s\<rparr> =
    (fold apply_event evs ((apply_event ev v)\<lparr>rv_credential_type := t, rv_schema := s\<rparr>))\<lparr>rv_credential_type := t, rv_schema := s\<rparr>"
    by (rule Cons.IH)
  also have "\<dots> = (fold apply_event evs ((apply_event ev (v\<lparr>rv_credential_type := t, rv_schema := s\<rparr>))
    \<lparr>rv_credential_type := t, rv_schema := s\<rparr>))\<lparr>rv_credential_type := t, rv_schema := s\<rparr>"
    by (subst apply_event_schema) simp
  also have "\<dots> = (fold apply_event evs (apply_event ev (v\<lparr>rv_credential_type := t, rv_schema := s\<rparr>)))
    \<lparr>rv_credential_type := t, rv_schema := s\<rparr>" by (rule Cons.IH [symmetric])
  finally show ?case by simp
qed simp

text \<open>
  C21. The events tell the state: whoever replays the events that the registry logged since it was created, the
  events of its initialization first, has the revocation flag and the metadata of every credential, the active
  revocation keys, and the registry's metadata, type and schema.
\<close>

theorem registry_events_replay:
  assumes "registry_init logger origin (Some p) = Inr h0" "registry_steps E A n evs h0 h"
    and "rv_credentials v = Map.empty" "rv_keys v = {}"
  shows "fold apply_event (h_logs h0 @ evs) v = registry_view (h_state h)"
proof -
  obtain st evs0 where st: "rg_credentials st = Map.empty" "rg_revocation_keys st = Map.empty"
    "rg_issuer_metadata st = ri_issuer_metadata p" "rg_credential_type st = ri_credential_type p" "rg_credential_schema st = ri_schema p"
    and evs0: "h_logs h0 = IssuerMetadataEvent (ri_issuer_metadata p) # evs0 @ [SchemaEvent (ri_credential_type p) (ri_schema p)]"
    "described 0 evs0 st (h_state h0)"
    and h0: "rg_credential_type (h_state h0) = ri_credential_type p" "rg_credential_schema (h_state h0) = ri_schema p"
    using assms(1) by (rule registry_init_run)
  let ?t = "ri_credential_type p" and ?s = "ri_schema p"
  let ?v = "v\<lparr>rv_issuer_metadata := ri_issuer_metadata p\<rparr>"
  have "?v\<lparr>rv_credential_type := ?t, rv_schema := ?s\<rparr> = registry_view st"
    using st assms(3,4) by (cases v) (simp add: registry_view_def)
  then have "fold apply_event (h_logs h0) v = (registry_view (h_state h0))\<lparr>rv_credential_type := ?t, rv_schema := ?s\<rparr>"
    using fold_apply_event_schema [where evs = evs0 and v = ?v and t = ?t and s = ?s] evs0 by (simp add: described_def)
  also have "\<dots> = registry_view (h_state h0)" using h0 by (simp add: registry_view_def)
  finally show ?thesis using described.steps_guarantee [OF assms(2) refl refl] by (simp add: described_def)
qed

lemma nonce_moved_on:
  assumes "k + 1 < 2 ^ 64"
  shows "(x :: u64) + 1 + of_nat k \<noteq> x"
proof
  assume "x + 1 + of_nat k = x"
  then have "(of_nat (k + 1) :: u64) = 0" by (simp add: add.commute add.left_commute)
  moreover have "unat (of_nat (k + 1) :: u64) = k + 1"
    using assms by (simp add: unat_of_nat del: of_nat_Suc of_nat_add)
  ultimately show False by (metis add_is_0 one_neq_zero unat_0)
qed

text \<open>
  A holder's revocation message works once: after it was accepted, also if the issuer restored the credential,
  every message of the holder with the same nonce is rejected, until 64 bits of calls have been made.
\<close>

lemma registry_holder_no_replay:
  assumes "contract_revoke_credential_holder E logger ctx h = Inr h1" "ctx_parameter ctx = Some (sig, data)"
    and "registry_steps E A n evs h1 h2" "n + 1 < 2 ^ 64"
    and "ctx_parameter ctx' = Some (sig', data')" "rh_credential_id data' = rh_credential_id data"
    and "sd_nonce (rh_signing_data data') = sd_nonce (rh_signing_data data)" "re_serial_holder E data' = Some b"
  shows "contract_revoke_credential_holder E logger' ctx' h2 = Inl RegistryNonceMismatch"
proof -
  let ?c = "rh_credential_id data"
  obtain e st where e: "rg_credentials (h_state h) ?c = Some e" "ce_holder_revocable e" "sd_nonce (rh_signing_data data) = ce_revocation_nonce e"
    "revoke_credential ((h_state h)\<lparr>rg_credentials := (rg_credentials (h_state h))(?c \<mapsto> e\<lparr>ce_revocation_nonce := ce_revocation_nonce e + 1\<rparr>)\<rparr>)
      (ctx_slot_time ctx) ?c = Inr st" "h_state h1 = st"
    using assms(1,2) by (auto simp: contract_revoke_credential_holder_def try_bind_Inr Let_def authorize_with_signature_def dest!: registry_log_Inr)
  obtain e1 where e1: "rg_credentials (h_state h1) ?c = Some e1" "ce_revocation_nonce e1 = ce_revocation_nonce e + 1"
    "ce_holder_revocable e1" using e(4) by (rule revoke_credential_run) (use e(2,5) in auto)
  have "progress n evs (h_state h1) (h_state h2)" by (rule progress.steps_guarantee [OF assms(3) refl refl])
  then obtain e2 k where e2: "rg_credentials (h_state h2) ?c = Some e2" "k \<le> n"
    "ce_revocation_nonce e2 = ce_revocation_nonce e1 + of_nat k" "ce_holder_revocable e2 = ce_holder_revocable e1"
    using e1(1) unfolding progress_def entries_progress_def by blast
  have "ce_revocation_nonce e2 \<noteq> sd_nonce (rh_signing_data data')"
    using nonce_moved_on [of k "ce_revocation_nonce e"] assms(4) e2(2) by (simp add: e2(3) e1(2) assms(7) e(3))
  then show ?thesis
    by (simp add: contract_revoke_credential_holder_def registry_parsed_def ok_or_def assms(5,6,8) e2(1,4) e1(3) ensure_def Let_def
        authorize_with_signature_def)
qed

text \<open>
  C22. A message of a revocation authority works once: after it was accepted, every message with the same key and
  nonce is rejected, for the nonce or because the key was removed; the issuer cannot bring the key back with a
  fresh nonce.
\<close>

theorem registry_authority_no_replay:
  assumes "registry_init logger0 origin (Some p) = Inr h0" "registry_steps E A0 m evs0 h0 h"
    and "contract_revoke_credential_other E logger ctx h = Inr h1" "ctx_parameter ctx = Some (sig, data)"
    and "registry_steps E A n evs h1 h2" "n + 1 < 2 ^ 64"
    and "ctx_parameter ctx' = Some (sig', data')" "ro_revocation_key data' = ro_revocation_key data"
    and "sd_nonce (ro_signing_data data') = sd_nonce (ro_signing_data data)"
    and "rg_credentials (h_state h2) (ro_credential_id data') = Some e" "re_serial_other E data' = Some b"
  shows "contract_revoke_credential_other E logger' ctx' h2 \<in> {Inl RegistryNonceMismatch, Inl KeyDoesNotExist}"
proof -
  let ?pk = "ro_revocation_key data"
  obtain st where st: "rg_revocation_keys st = Map.empty" "progress 0 (butlast (tl (h_logs h0))) st (h_state h0)"
    using assms(1) by (rule registry_init_run) simp
  then have "keys_known (h_state h0)" by (simp add: progress_def keys_known_def)
  then have known: "keys_known (h_state h)"
    using progress.steps_guarantee [OF assms(2) refl refl] by (simp add: progress_def)
  obtain nonce st' where run: "rg_revocation_keys (h_state h) ?pk = Some nonce" "sd_nonce (ro_signing_data data) = nonce"
    "revoke_credential ((h_state h)\<lparr>rg_revocation_keys := (rg_revocation_keys (h_state h))(?pk \<mapsto> nonce + 1)\<rparr>)
      (ctx_slot_time ctx) (ro_credential_id data) = Inr st'" "h_state h1 = st'"
    using assms(3,4) by (auto simp: contract_revoke_credential_other_def try_bind_Inr Let_def authorize_with_signature_def dest!: registry_log_Inr)
  have keys: "rg_revocation_keys (h_state h1) ?pk = Some (nonce + 1)" "rg_all_revocation_keys (h_state h1) = rg_all_revocation_keys (h_state h)"
    using run(3) by (rule revoke_credential_run, use run(4) in simp)+
  have "?pk \<in> rg_all_revocation_keys (h_state h1)" using known run(1) keys(2) by (auto simp: keys_known_def)
  then have "key_progress n (rg_revocation_keys (h_state h1) ?pk) (rg_revocation_keys (h_state h2) ?pk)"
    using progress.steps_guarantee [OF assms(5) refl refl] by (simp add: progress_def)
  then consider "rg_revocation_keys (h_state h2) ?pk = None"
    | k where "k \<le> n" "rg_revocation_keys (h_state h2) ?pk = Some (nonce + 1 + of_nat k)"
    by (auto simp: key_progress_def keys(1))
  then show ?thesis
  proof cases
    case 1
    then show ?thesis
      by (simp add: contract_revoke_credential_other_def registry_parsed_def ok_or_def assms(7,8,10) Let_def)
  next
    case 2
    then have "nonce + 1 + of_nat k \<noteq> nonce" using nonce_moved_on assms(6) by auto
    then show ?thesis
      using 2(2) by (simp add: contract_revoke_credential_other_def registry_parsed_def ok_or_def assms(7-11) run(2) Let_def
          authorize_with_signature_def ensure_def)
  qed
qed

text \<open>
  What only the issuer can do: while the issuer's account does not call, no credential appears or changes its
  data, a revoked credential stays revoked, and a credential that its holder cannot revoke keeps its status
  altogether when no revocation key is registered; neither the keys nor the registry's metadata and schema change.
\<close>

lemma registry_issuer_only:
  assumes "registry_steps E A n evs h h'" "Account (rg_issuer_account (h_state h)) \<notin> A"
    and "view_credential_info (h_state h) c = Inr (info, schema, nonce)"
  shows "(\<exists>nonce'. view_credential_info (h_state h') c = Inr (info, schema, nonce')) \<and>
    dom (rg_credentials (h_state h')) = dom (rg_credentials (h_state h)) \<and>
    contract_registry_metadata h' = contract_registry_metadata h \<and>
    map fst (view_revocation_keys (h_state h')) = map fst (view_revocation_keys (h_state h)) \<and>
    (view_credential_status (h_state h) now c = Inr Revoked \<longrightarrow> view_credential_status (h_state h') now' c = Inr Revoked) \<and>
    (\<not> ci_holder_revocable info \<and> rg_revocation_keys (h_state h) = Map.empty \<longrightarrow>
       view_credential_status (h_state h') now' c = view_credential_status (h_state h) now' c)"
proof -
  have kept: "issuer_only A n evs (h_state h) (h_state h')" by (rule issuer_only.steps_guarantee [OF assms(1) refl refl])
  have other: "\<not> by_issuer A (h_state h)" using assms(2) by (simp add: by_issuer_def)
  obtain e where e: "rg_credentials (h_state h) c = Some e" "info = entry_info e c" "schema = rg_credential_schema (h_state h)"
    using assms(3) by (auto simp: view_credential_info_def try_bind_Inr)
  obtain e' where e': "rg_credentials (h_state h') c = Some e'" "ce_metadata_url e' = ce_metadata_url e"
    "ce_holder_revocable e' = ce_holder_revocable e" "ce_revoked e \<longrightarrow> ce_revoked e'"
    "\<not> ce_holder_revocable e \<and> dom (rg_revocation_keys (h_state h)) = {} \<longrightarrow> e' = e"
    using kept other e(1) unfolding issuer_only_def by blast
  have "entries_progress n (rg_credentials (h_state h)) (rg_credentials (h_state h'))"
    using progress.steps_guarantee [OF assms(1) refl refl] by (simp add: progress_def)
  then obtain e1 where "rg_credentials (h_state h') c = Some e1" "ce_valid_from e1 = ce_valid_from e" "ce_valid_until e1 = ce_valid_until e"
    using e(1) unfolding entries_progress_def by blast
  then have "ce_valid_from e' = ce_valid_from e" "ce_valid_until e' = ce_valid_until e" using e'(1) by simp_all
  then have "entry_info e' c = info" using e(2) e'(2,3) by (simp add: entry_info_def)
  moreover have "ce_revoked e" if "get_status e now = Revoked" using that by (simp add: get_status_def split: if_splits)
  ultimately show ?thesis
    using kept other e e'
    by (auto simp: view_credential_info_def view_credential_status_def ok_or_def issuer_only_def contract_registry_metadata_def
        view_revocation_keys_def Let_def o_def get_status_def entry_info_def)
qed

lemma credential_event_roundtrip:
  assumes "codec_ok (ec_register C)" "codec_ok (ec_revoke C)" "codec_ok (ec_restore C)" "codec_ok (ec_issuer_metadata C)"
    and "codec_ok (ec_credential_metadata C)" "codec_ok (ec_schema C)" "codec_ok (ec_revocation_key C)"
  shows "credential_event_deserial C (credential_event_serial C ev @ rest) = Some (ev, rest)"
  using assms by (cases ev) (simp_all add: credential_event_serial_def credential_event_deserial_def codec_ok_def)

section \<open>Examples\<close>

text \<open>A registry with a revocation key, a credential in it, and messages of the holder and of the key.\<close>

definition sample_registry_env :: registry_env where
  "sample_registry_env = \<lparr>re_serial_holder = (\<lambda>_. Some []), re_serial_other = (\<lambda>_. Some []),
     re_verify_ed25519_signature = (\<lambda>_ _ _. True)\<rparr>"

definition sample_registry_params :: registry_init_params where
  "sample_registry_params = \<lparr>ri_issuer_metadata = \<lparr>md_url = ''issuer'', md_hash = None\<rparr>, ri_credential_type = ''degree'',
     ri_schema = \<lparr>md_url = ''schema'', md_hash = None\<rparr>, ri_issuer_account = None, ri_issuer_key = [8], ri_revocation_keys = [[7]]\<rparr>"

definition sample_registry_context :: "address \<Rightarrow> 'p \<Rightarrow> 'p receive_context" where
  "sample_registry_context sender p = \<lparr>ctx_sender = sender, ctx_parameter = Some p, ctx_slot_time = 1, ctx_owner = [9],
     ctx_self_address = \<lparr>ca_index = 0, ca_subindex = 0\<rparr>\<rparr>"

definition sample_named_context :: "'p \<Rightarrow> 'p named_receive_context" where
  "sample_named_context p = \<lparr>ctx_sender = Account [2], ctx_parameter = Some p, ctx_slot_time = 1, ctx_owner = [9],
     ctx_self_address = \<lparr>ca_index = 0, ca_subindex = 0\<rparr>, ctx_named_entrypoint = ''revoke''\<rparr>"

definition sample_signing_data :: signing_data where
  "sample_signing_data = \<lparr>sd_contract_address = \<lparr>ca_index = 0, ca_subindex = 0\<rparr>, sd_entry_point = ''revoke'', sd_nonce = 0,
     sd_timestamp = 5\<rparr>"

definition sample_credential :: credential_info where
  "sample_credential = \<lparr>ci_holder_id = [1], ci_holder_revocable = True, ci_valid_from = 0, ci_valid_until = None,
     ci_metadata_url = \<lparr>md_url = ''credential'', md_hash = None\<rparr>\<rparr>"

definition sample_holder_message :: revocation_data_holder where
  "sample_holder_message = \<lparr>rh_credential_id = [1], rh_signing_data = sample_signing_data, rh_reason = None\<rparr>"

definition sample_key_message :: revocation_data_other where
  "sample_key_message = \<lparr>ro_credential_id = [1], ro_signing_data = sample_signing_data, ro_revocation_key = [7], ro_reason = None\<rparr>"

definition sample_register :: "registry_host \<Rightarrow> registry_error + registry_host" where
  "sample_register h = contract_register_credential (\<lambda>_ _. None) (sample_registry_context (Account [9]) sample_credential) (receive_amount 0 h)"

definition sample_revoke_holder :: "registry_host \<Rightarrow> registry_error + registry_host" where
  "sample_revoke_holder h = contract_revoke_credential_holder sample_registry_env (\<lambda>_ _. None)
     (sample_named_context ([], sample_holder_message)) h"

definition sample_revoke_other :: "registry_host \<Rightarrow> registry_error + registry_host" where
  "sample_revoke_other h = contract_revoke_credential_other sample_registry_env (\<lambda>_ _. None)
     (sample_named_context ([], sample_key_message)) h"

lemmas sample_registry_defs = sample_registry_env_def sample_registry_params_def sample_registry_context_def
  sample_named_context_def sample_signing_data_def sample_credential_def sample_holder_message_def sample_key_message_def
  registry_parsed_def registry_log_def log_event_def map_err_def ensure_def ok_or_def

lemma sample_registry_init:
  obtains h0 where "registry_init (\<lambda>_ _. None) [9] (Some sample_registry_params) = Inr h0" "rg_issuer_account (h_state h0) = [9]"
    "rg_credentials (h_state h0) = Map.empty" "rg_revocation_keys (h_state h0) = [[7] \<mapsto> 0]"
  by (simp add: registry_init_def registry_new_def register_revocation_key_def Let_def sample_registry_defs)

lemma sample_registry_register:
  assumes "rg_issuer_account (h_state h0) = [9]" "rg_credentials (h_state h0) = Map.empty"
  obtains h e where "sample_register h0 = Inr h" "rg_issuer_account (h_state h) = [9]" "rg_credentials (h_state h) [1] = Some e"
    "rg_revocation_keys (h_state h) = rg_revocation_keys (h_state h0)" "ce_revocation_nonce e = 0" "ce_holder_revocable e"
    "get_status e 1 = Active"
  using assms
  by (simp add: sample_register_def contract_register_credential_def sender_is_issuer_def register_credential_def Let_def
      get_status_def sample_registry_defs)

lemma sample_revoke_holder_run:
  assumes "rg_credentials (h_state h) [1] = Some e" "ce_revocation_nonce e = 0" "ce_holder_revocable e" "get_status e 1 = Active"
  obtains h' where "sample_revoke_holder h = Inr h'"
proof -
  have "get_status (e\<lparr>ce_revocation_nonce := 1\<rparr>) 1 = Active" using assms(4) by (simp add: get_status_def split: if_splits)
  then have "\<exists>h'. sample_revoke_holder h = Inr h'"
    using assms(1-3) by (simp add: sample_revoke_holder_def contract_revoke_credential_holder_def authorize_with_signature_def
        revoke_credential_def Let_def sample_registry_defs)
  then show thesis using that by blast
qed

lemma sample_revoke_other_run:
  assumes "rg_credentials (h_state h) [1] = Some e" "rg_revocation_keys (h_state h) [7] = Some 0" "get_status e 1 = Active"
  obtains h' e' where "sample_revoke_other h = Inr h'" "rg_credentials (h_state h') [1] = Some e'"
  using assms by (simp add: sample_revoke_other_def contract_revoke_credential_other_def authorize_with_signature_def
      revoke_credential_def Let_def sample_registry_defs)

lemma sample_register_step:
  "sample_register h = Inr h' \<Longrightarrow> registry_steps E UNIV (0 + 1) ([] @ h_logs h') h h'"
  by (rule registry_steps.step [OF registry_steps.start, where c = "RegisterCall (sample_registry_context (Account [9]) sample_credential)"
      and logger = "\<lambda>_ _. None"]) (simp_all add: sample_register_def)

definition empty_view :: registry_view where
  "empty_view = \<lparr>rv_credentials = Map.empty, rv_keys = {}, rv_issuer_metadata = \<lparr>md_url = [], md_hash = None\<rparr>, rv_credential_type = [],
     rv_schema = \<lparr>md_url = [], md_hash = None\<rparr>\<rparr>"

theorem registry_events_replay_witness:
  "\<exists>h0 h. registry_init (\<lambda>_ _. None) [9] (Some sample_registry_params) = Inr h0 \<and> sample_register h0 = Inr h \<and>
    fold apply_event (h_logs h0 @ h_logs h) empty_view = registry_view (h_state h)"
proof -
  obtain h0 where h0: "registry_init (\<lambda>_ _. None) [9] (Some sample_registry_params) = Inr h0" "rg_issuer_account (h_state h0) = [9]"
    "rg_credentials (h_state h0) = Map.empty" by (rule sample_registry_init) blast
  obtain h where h: "sample_register h0 = Inr h" using h0(2,3) by (rule sample_registry_register) blast
  from registry_events_replay [OF h0(1) sample_register_step [OF h], of empty_view] h0(1) h show ?thesis
    by (auto simp: empty_view_def)
qed

lemma sample_registry:
  obtains h0 h e where "registry_init (\<lambda>_ _. None) [9] (Some sample_registry_params) = Inr h0" "sample_register h0 = Inr h"
    "rg_issuer_account (h_state h) = [9]" "rg_credentials (h_state h) [1] = Some e" "rg_revocation_keys (h_state h) [7] = Some 0"
    "ce_revocation_nonce e = 0" "ce_holder_revocable e" "get_status e 1 = Active"
proof -
  obtain h0 where h0: "registry_init (\<lambda>_ _. None) [9] (Some sample_registry_params) = Inr h0" "rg_issuer_account (h_state h0) = [9]"
    "rg_credentials (h_state h0) = Map.empty" "rg_revocation_keys (h_state h0) = [[7] \<mapsto> 0]" by (rule sample_registry_init) blast
  obtain h e where "sample_register h0 = Inr h" "rg_issuer_account (h_state h) = [9]" "rg_credentials (h_state h) [1] = Some e"
    "rg_revocation_keys (h_state h) = rg_revocation_keys (h_state h0)" "ce_revocation_nonce e = 0" "ce_holder_revocable e"
    "get_status e 1 = Active" using h0(2,3) by (rule sample_registry_register) blast
  then show thesis using h0 by (intro that [of h0 h e]) simp_all
qed

lemma registry_holder_no_replay_sample:
  "\<exists>h h'. sample_revoke_holder h = Inr h' \<and> sample_revoke_holder h' = Inl RegistryNonceMismatch"
proof -
  obtain h :: registry_host and e where h: "rg_credentials (h_state h) [1] = Some e" "ce_revocation_nonce e = 0" "ce_holder_revocable e" "get_status e 1 = Active"
    by (rule sample_registry) blast
  obtain h' where h': "sample_revoke_holder h = Inr h'" using h by (rule sample_revoke_holder_run)
  have p: "ctx_parameter (sample_named_context ([], sample_holder_message)) = Some ([], sample_holder_message)"
    by (simp add: sample_named_context_def)
  have "sample_revoke_holder h' = Inl RegistryNonceMismatch"
    unfolding sample_revoke_holder_def
    by (rule registry_holder_no_replay [OF h' [unfolded sample_revoke_holder_def] p registry_steps.start [where n = 0 and A = UNIV] _ p])
      (simp_all add: sample_registry_env_def)
  then show ?thesis using h' by blast
qed

theorem registry_authority_no_replay_witness:
  "\<exists>h h'. sample_revoke_other h = Inr h' \<and> sample_revoke_other h' \<in> {Inl RegistryNonceMismatch, Inl KeyDoesNotExist}"
proof -
  obtain h0 h e where h: "registry_init (\<lambda>_ _. None) [9] (Some sample_registry_params) = Inr h0" "sample_register h0 = Inr h"
    "rg_credentials (h_state h) [1] = Some e" "rg_revocation_keys (h_state h) [7] = Some 0" "get_status e 1 = Active"
    by (rule sample_registry) blast
  obtain h' e' where h': "sample_revoke_other h = Inr h'" "rg_credentials (h_state h') [1] = Some e'"
    using h(3-5) by (rule sample_revoke_other_run)
  have p: "ctx_parameter (sample_named_context ([], sample_key_message)) = Some ([], sample_key_message)"
    by (simp add: sample_named_context_def)
  have "sample_revoke_other h' \<in> {Inl RegistryNonceMismatch, Inl KeyDoesNotExist}"
    unfolding sample_revoke_other_def
    by (rule registry_authority_no_replay [OF h(1) sample_register_step [OF h(2)] h'(1) [unfolded sample_revoke_other_def] p
          registry_steps.start [where n = 0 and A = UNIV] _ p])
      (use h'(2) in \<open>simp_all add: sample_registry_env_def sample_key_message_def\<close>)
  then show ?thesis using h'(1) by blast
qed

lemma registry_issuer_only_sample:
  "\<exists>h h'. sample_revoke_holder (receive_amount 0 h) = Inr h' \<and> contract_registry_metadata h' = contract_registry_metadata h"
proof -
  obtain h :: registry_host and e where h: "rg_issuer_account (h_state h) = [9]" "rg_credentials (h_state h) [1] = Some e" "ce_revocation_nonce e = 0"
    "ce_holder_revocable e" "get_status e 1 = Active" by (rule sample_registry) blast
  obtain h' where h': "sample_revoke_holder (receive_amount 0 h) = Inr h'"
    by (rule sample_revoke_holder_run [of "receive_amount 0 h" e]) (use h in simp_all)
  have "registry_steps sample_registry_env {Account [2]} (0 + 1) ([] @ h_logs h') h h'"
    by (rule registry_steps.step [OF registry_steps.start, where c = "RevokeHolderCall (sample_named_context ([], sample_holder_message))"
        and logger = "\<lambda>_ _. None"]) (use h' in \<open>simp_all add: sample_revoke_holder_def sample_named_context_def\<close>)
  moreover have "view_credential_info (h_state h) [1] = Inr (entry_info e [1], rg_credential_schema (h_state h), 0)"
    using h(2,3) by (simp add: view_credential_info_def ok_or_def)
  ultimately have "contract_registry_metadata h' = contract_registry_metadata h"
    using registry_issuer_only h(1) by auto
  then show ?thesis using h' by blast
qed

end
