(* ===== verification/Offchain.thy ===== *)
theory Offchain
  imports Contract_Host
begin

text \<open>
  The contract of \<^verbatim>\<open>examples/offchain-transfers/src/lib.rs\<close>: users deposit funds, a validator queues settlements of
  transfers made off chain, a judge can veto them until they are final, and final ones update the balance sheet.
  Amounts wrap around, as the release profile compiles them. A trap is \<open>None\<close>.
\<close>

section \<open>State\<close>

record address_amount =
  aa_address :: account_address
  aa_amount :: u64

record offchain_transfer =
  ot_send_transfers :: "address_amount list"
  ot_receive_transfers :: "address_amount list"
  ot_meta_data :: bytes

record settlement =
  sm_id :: u64
  sm_transfer :: offchain_transfer
  sm_finality_time :: u64

record offchain_config =
  oc_validator :: account_address
  oc_judge :: account_address
  oc_time_to_finality :: u64
  oc_settlement_limit :: u32

record offchain_state =
  os_config :: offchain_config
  os_next_id :: u64
  os_settlements :: "settlement list"
  os_balance_sheet :: "account_address \<rightharpoonup> u64"

datatype offchain_init_error = OffchainInitParseParams

datatype offchain_error =
    OffchainParseParams | OffchainContractSender | OffchainInsufficientFunds | InvalidTransfer | TimeOverflow
  | CounterOverflow | NotAValidator | NotAJudge | ZeroWithdrawal | SettlementQueueFull
  | OffchainTransferMissingAccount | OffchainTransferInsufficientFunds

type_synonym offchain_host = "(offchain_state, unit) contract_host"

fun offchain_error_from_transfer :: "transfer_error \<Rightarrow> offchain_error" where
  "offchain_error_from_transfer AmountTooLarge = OffchainTransferInsufficientFunds"
| "offchain_error_from_transfer MissingAccount = OffchainTransferMissingAccount"

section \<open>Entrypoints\<close>

definition offchain_parsed :: "'p option \<Rightarrow> offchain_error + 'p" where
  "offchain_parsed p = (case p of None \<Rightarrow> Inl OffchainParseParams | Some x \<Rightarrow> Inr x)"

definition offchain_init :: "offchain_config option \<Rightarrow> offchain_init_error + offchain_host" where
  "offchain_init parameter =
     (case parameter of
        None \<Rightarrow> Inl OffchainInitParseParams
      | Some config \<Rightarrow>
          Inr \<lparr>h_state = \<lparr>os_config = config, os_next_id = 0, os_settlements = [], os_balance_sheet = Map.empty\<rparr>,
            h_balance = 0, h_logs = [], h_transfers = []\<rparr>)"

text \<open>\<^verbatim>\<open>balance_sheet.entry(_).or_insert(Amount::zero())\<close> and an assignment to it.\<close>

definition sheet_entry :: "(account_address \<rightharpoonup> u64) \<Rightarrow> account_address \<Rightarrow> u64" where
  "sheet_entry m a = (case m a of None \<Rightarrow> 0 | Some b \<Rightarrow> b)"

definition sender_account :: "'p receive_context \<Rightarrow> offchain_error + account_address" where
  "sender_account ctx = (case ctx_sender ctx of Contract _ \<Rightarrow> Inl OffchainContractSender | Account a \<Rightarrow> Inr a)"

definition offchain_deposit ::
    "unit receive_context \<Rightarrow> u64 \<Rightarrow> offchain_host \<Rightarrow> offchain_error + offchain_host" where
  "offchain_deposit ctx amount h =
     try_bind (sender_account ctx) (\<lambda>sender_address.
     let st = h_state h; sheet = os_balance_sheet st
     in Inr (h\<lparr>h_state := st\<lparr>os_balance_sheet := sheet(sender_address \<mapsto> sheet_entry sheet sender_address + amount)\<rparr>\<rparr>))"

fun send_liabilities :: "address_amount list \<Rightarrow> account_address \<Rightarrow> u64 \<Rightarrow> u64" where
  "send_liabilities [] sender_address liabilities = liabilities"
| "send_liabilities (s # ss) sender_address liabilities =
     send_liabilities ss sender_address
       (if sender_address = aa_address s then liabilities + aa_amount s else liabilities)"

fun settlements_liabilities :: "settlement list \<Rightarrow> account_address \<Rightarrow> u64 \<Rightarrow> u64" where
  "settlements_liabilities [] sender_address liabilities = liabilities"
| "settlements_liabilities (s # ss) sender_address liabilities =
     settlements_liabilities ss sender_address
       (send_liabilities (ot_send_transfers (sm_transfer s)) sender_address liabilities)"

definition get_liabilities :: "settlement list \<Rightarrow> account_address \<Rightarrow> u64" where
  "get_liabilities settlements sender_address = settlements_liabilities settlements sender_address 0"

definition contract_receive_withdraw ::
    "(account_address \<Rightarrow> bool) \<Rightarrow> u64 receive_context \<Rightarrow> offchain_host \<Rightarrow> (offchain_error + offchain_host) option" where
  "contract_receive_withdraw missing ctx h =
     (case try_bind (sender_account ctx) (\<lambda>sender_address.
        try_bind (offchain_parsed (ctx_parameter ctx)) (\<lambda>payout.
        ensure (payout > 0) ZeroWithdrawal
        (let liabilities = get_liabilities (os_settlements (h_state h)) sender_address in
         case os_balance_sheet (h_state h) sender_address of
           None \<Rightarrow> Inl OffchainInsufficientFunds
         | Some b \<Rightarrow>
             ensure (b \<ge> liabilities + payout) OffchainInsufficientFunds
             (Inr (sender_address, payout,
               h\<lparr>h_state := (h_state h)\<lparr>os_balance_sheet := (os_balance_sheet (h_state h))(sender_address \<mapsto> b - payout)\<rparr>\<rparr>)))))
      of
        Inl e \<Rightarrow> Some (Inl e)
      | Inr (sender_address, payout, h) \<Rightarrow>
          (case invoke_transfer missing h sender_address payout of
             Inl _ \<Rightarrow> None
           | Inr h \<Rightarrow> Some (Inr h)))"

fun sum_amounts :: "address_amount list \<Rightarrow> u64 \<Rightarrow> u64" where
  "sum_amounts [] amount = amount"
| "sum_amounts (x # xs) amount = sum_amounts xs (amount + aa_amount x)"

definition is_transfer_valid :: "offchain_transfer \<Rightarrow> bool" where
  "is_transfer_valid t \<longleftrightarrow> sum_amounts (ot_send_transfers t) 0 = sum_amounts (ot_receive_transfers t) 0"

definition contract_receive_add_settlement ::
    "offchain_transfer receive_context \<Rightarrow> offchain_host \<Rightarrow> offchain_error + offchain_host" where
  "contract_receive_add_settlement ctx h =
     (let st = h_state h in
      ensure (ctx_sender ctx = Account (oc_validator (os_config st))) NotAValidator
      (ensure (length (os_settlements st) < unat (oc_settlement_limit (os_config st))) SettlementQueueFull
      (try_bind (offchain_parsed (ctx_parameter ctx)) (\<lambda>t.
       ensure (is_transfer_valid t) InvalidTransfer
       (case checked_add_u64 (ctx_slot_time ctx) (oc_time_to_finality (os_config st)) of
          None \<Rightarrow> Inl TimeOverflow
        | Some finality_time \<Rightarrow>
            let s = \<lparr>sm_id = os_next_id st, sm_transfer = t, sm_finality_time = finality_time\<rparr> in
            (case checked_add_u64 (os_next_id st) 1 of
               None \<Rightarrow> Inl CounterOverflow
             | Some next_id \<Rightarrow>
                 Inr (h\<lparr>h_state := st\<lparr>os_next_id := next_id, os_settlements := os_settlements st @ [s]\<rparr>\<rparr>)))))))"

definition contract_receive_veto :: "u64 receive_context \<Rightarrow> offchain_host \<Rightarrow> offchain_error + offchain_host" where
  "contract_receive_veto ctx h =
     (let st = h_state h in
      ensure (ctx_sender ctx = Account (oc_judge (os_config st))) NotAJudge
      (try_bind (offchain_parsed (ctx_parameter ctx)) (\<lambda>s_id.
       let now = ctx_slot_time ctx in
       Inr (h\<lparr>h_state := st\<lparr>os_settlements :=
         filter (\<lambda>s. sm_id s \<noteq> s_id \<or> sm_finality_time s \<le> now) (os_settlements st)\<rparr>\<rparr>))))"

text \<open>The outgoing and incoming amounts of an address, with the accumulator of the loops.\<close>

fun amounts_of :: "account_address \<Rightarrow> address_amount list \<Rightarrow> u64 \<Rightarrow> u64" where
  "amounts_of a [] amount = amount"
| "amounts_of a (x # xs) amount = amounts_of a xs (if a = aa_address x then amount + aa_amount x else amount)"

definition is_settlement_valid :: "settlement \<Rightarrow> (account_address \<rightharpoonup> u64) \<Rightarrow> bool" where
  "is_settlement_valid s sheet \<longleftrightarrow>
     list_all (\<lambda>a. let sender_balance = (case sheet a of Some b \<Rightarrow> b | None \<Rightarrow> 0);
                       outgoing_amount = amounts_of a (ot_send_transfers (sm_transfer s)) 0;
                       incoming_amount = amounts_of a (ot_receive_transfers (sm_transfer s)) 0
                   in \<not> (sender_balance + incoming_amount < outgoing_amount))
       (remdups (map aa_address (ot_send_transfers (sm_transfer s))))"

fun add_amounts :: "address_amount list \<Rightarrow> (account_address \<rightharpoonup> u64) \<Rightarrow> account_address \<rightharpoonup> u64" where
  "add_amounts [] sheet = sheet"
| "add_amounts (x # xs) sheet = add_amounts xs (sheet(aa_address x \<mapsto> sheet_entry sheet (aa_address x) + aa_amount x))"

fun subtract_amounts :: "address_amount list \<Rightarrow> (account_address \<rightharpoonup> u64) \<Rightarrow> account_address \<rightharpoonup> u64" where
  "subtract_amounts [] sheet = sheet"
| "subtract_amounts (x # xs) sheet =
     subtract_amounts xs (sheet(aa_address x \<mapsto> sheet_entry sheet (aa_address x) - aa_amount x))"

fun execute_loop :: "u64 \<Rightarrow> settlement list \<Rightarrow> (account_address \<rightharpoonup> u64) \<Rightarrow> account_address \<rightharpoonup> u64" where
  "execute_loop current_time [] sheet = sheet"
| "execute_loop current_time (s # ss) sheet =
     execute_loop current_time ss
       (if sm_finality_time s \<le> current_time \<and> is_settlement_valid s sheet
        then subtract_amounts (ot_send_transfers (sm_transfer s)) (add_amounts (ot_receive_transfers (sm_transfer s)) sheet)
        else sheet)"

definition contract_receive_execute_settlements ::
    "unit receive_context \<Rightarrow> offchain_host \<Rightarrow> offchain_error + offchain_host" where
  "contract_receive_execute_settlements ctx h =
     (let st = h_state h; current_time = ctx_slot_time ctx
      in Inr (h\<lparr>h_state := st\<lparr>os_balance_sheet := execute_loop current_time (os_settlements st) (os_balance_sheet st),
           os_settlements := filter (\<lambda>s. current_time < sm_finality_time s) (os_settlements st)\<rparr>\<rparr>))"

definition contract_available_balance_of :: "account_address receive_context \<Rightarrow> offchain_host \<Rightarrow> offchain_error + u64" where
  "contract_available_balance_of ctx h =
     try_bind (offchain_parsed (ctx_parameter ctx)) (\<lambda>a.
     let liabilities = get_liabilities (os_settlements (h_state h)) a;
         balance = (case os_balance_sheet (h_state h) a of None \<Rightarrow> 0 | Some b \<Rightarrow> b)
     in Inr (if balance - liabilities > 0 then balance - liabilities else 0))"

definition contract_get_settlement :: "u64 receive_context \<Rightarrow> offchain_host \<Rightarrow> offchain_error + settlement option" where
  "contract_get_settlement ctx h =
     try_bind (offchain_parsed (ctx_parameter ctx)) (\<lambda>s_id. Inr (find (\<lambda>s. sm_id s = s_id) (os_settlements (h_state h))))"

end
