(* ===== verification/Offchain_Properties.thy ===== *)
theory Offchain_Properties
  imports Offchain
begin

text \<open>
  The settlement layer is solvent: the balance sheet adds up to the contract's funds in every history in which the
  amounts of the queue and of the contract stay below \<open>2 ^ 63\<close>, so an owner can withdraw what no pending
  settlement may still take; and what nobody but the owner and the validator reduces. Without the bounds
  amounts wrap around, with the consequences of the last section.
\<close>

section \<open>Sums as natural numbers\<close>

definition nat_sum :: "address_amount list \<Rightarrow> nat" where
  "nat_sum xs = (\<Sum>x\<leftarrow>xs. unat (aa_amount x))"


definition sends :: "settlement \<Rightarrow> address_amount list" where
  "sends s = ot_send_transfers (sm_transfer s)"



definition queue_total :: "settlement list \<Rightarrow> nat" where
  "queue_total ss = (\<Sum>s\<leftarrow>ss. nat_sum (sends s))"








section \<open>The balance sheet\<close>














section \<open>Executing the queue\<close>






section \<open>Histories\<close>

text \<open>A call that succeeds.\<close>

datatype offchain_call =
    CallDeposit "unit receive_context" u64
  | CallWithdraw "u64 receive_context"
  | CallAdd "offchain_transfer receive_context"
  | CallVeto "u64 receive_context"
  | CallExecute "unit receive_context"

inductive offchain_step ::
    "(account_address \<Rightarrow> bool) \<Rightarrow> offchain_host \<Rightarrow> offchain_call \<Rightarrow> offchain_host \<Rightarrow> bool" for missing where
  step_deposit: "offchain_deposit ctx amount (receive_amount amount h) = Inr h' \<Longrightarrow>
    offchain_step missing h (CallDeposit ctx amount) h'"
| step_withdraw: "contract_receive_withdraw missing ctx h = Some (Inr h') \<Longrightarrow> offchain_step missing h (CallWithdraw ctx) h'"
| step_add: "contract_receive_add_settlement ctx h = Inr h' \<Longrightarrow> offchain_step missing h (CallAdd ctx) h'"
| step_veto: "contract_receive_veto ctx h = Inr h' \<Longrightarrow> offchain_step missing h (CallVeto ctx) h'"
| step_execute: "contract_receive_execute_settlements ctx h = Inr h' \<Longrightarrow> offchain_step missing h (CallExecute ctx) h'"

text \<open>
  A history, each call of which satisfies a condition \<open>B\<close> on the state before it, the call and the state after it. The
  condition \<open>no_overflow\<close> says that the sums of the code do not wrap around: deposits keep the funds of the contract
  below \<open>2 ^ 63\<close>, more than the CCD there is, and the validator adds no settlement whose own sums reach \<open>2 ^ 64\<close> or that
  makes the settlements in the queue send more than \<open>2 ^ 63\<close> together.
\<close>

inductive offchain_run ::
    "(account_address \<Rightarrow> bool) \<Rightarrow> (offchain_host \<Rightarrow> offchain_call \<Rightarrow> offchain_host \<Rightarrow> bool) \<Rightarrow>
     offchain_host \<Rightarrow> offchain_call list \<Rightarrow> offchain_host \<Rightarrow> bool" for missing B where
  run_nil: "offchain_run missing B h [] h"
| run_cons: "offchain_step missing h c h' \<Longrightarrow> B h c h' \<Longrightarrow> offchain_run missing B h' cs h'' \<Longrightarrow>
    offchain_run missing B h (c # cs) h''"

fun no_overflow :: "offchain_host \<Rightarrow> offchain_call \<Rightarrow> offchain_host \<Rightarrow> bool" where
  "no_overflow h (CallDeposit ctx amount) h' \<longleftrightarrow> unat (h_balance h) + unat amount < 2 ^ 63"
| "no_overflow h (CallAdd ctx) h' \<longleftrightarrow> queue_total (os_settlements (h_state h')) \<le> 2 ^ 63 \<and>
     (case ctx_parameter ctx of None \<Rightarrow> True
      | Some t \<Rightarrow> nat_sum (ot_receive_transfers t) < 2 ^ 64 \<and> nat_sum (ot_send_transfers t) < 2 ^ 64)"
| "no_overflow h c h' \<longleftrightarrow> True"

inductive_cases offchain_run_nilE: "offchain_run missing B h [] h'"
inductive_cases offchain_run_consE: "offchain_run missing B h (c # cs) h'"

section \<open>The invariant\<close>

definition queue_of :: "offchain_host \<Rightarrow> settlement list" where
  "queue_of h = os_settlements (h_state h)"

definition sheet_of :: "offchain_host \<Rightarrow> account_address \<rightharpoonup> u64" where
  "sheet_of h = os_balance_sheet (h_state h)"









lemma contract_receive_veto_effect:
  assumes "contract_receive_veto ctx h = Inr h'"
  obtains s_id where "ctx_sender ctx = Account (oc_judge (os_config (h_state h)))" "ctx_parameter ctx = Some s_id"
    "queue_of h' = filter (\<lambda>s. sm_id s \<noteq> s_id \<or> sm_finality_time s \<le> ctx_slot_time ctx) (queue_of h)"
    "h_balance h' = h_balance h" "sheet_of h' = sheet_of h"
  using assms
  by (auto simp: contract_receive_veto_def try_bind_Inr offchain_parsed_def sheet_of_def queue_of_def Let_def
      split: option.splits)


lemma unat_add_exact: "unat x + unat y < 2 ^ 64 \<Longrightarrow> unat (x + y :: u64) = unat x + unat y"
  by (simp add: unat_word_ariths)













section \<open>Funds that stay available\<close>




lemma sheet_entry_upd [simp]: "sheet_entry (m(a \<mapsto> b)) c = (if c = a then b else sheet_entry m c)"
  by (simp add: sheet_entry_def)





section \<open>Vetoes are final\<close>

definition fresh_ids :: "offchain_host \<Rightarrow> bool" where
  "fresh_ids h \<longleftrightarrow> distinct (map sm_id (queue_of h)) \<and> (\<forall>s \<in> set (queue_of h). sm_id s < os_next_id (h_state h))"

text \<open>An id that was given to a settlement which is no longer in the queue.\<close>

definition gone :: "u64 \<Rightarrow> offchain_host \<Rightarrow> bool" where
  "gone s_id h \<longleftrightarrow> s_id < os_next_id (h_state h) \<and> s_id \<notin> sm_id ` set (queue_of h)"

lemma contract_receive_add_settlement_id:
  assumes "contract_receive_add_settlement ctx h = Inr h'"
  shows "\<exists>s. queue_of h' = queue_of h @ [s] \<and> sm_id s = os_next_id (h_state h) \<and> os_next_id (h_state h) < os_next_id (h_state h')"
proof -
  have added: "checked_add_u64 x 1 = Some y \<longleftrightarrow> y = x + 1 \<and> x < x + 1" for x y :: u64
  proof (cases "unat x + 1 < 2 ^ 64")
    case True
    then have "unat (x + 1) = unat x + 1" using unat_add_exact [of x 1] by simp
    then show ?thesis using True by (auto simp: checked_add_u64_def word_less_nat_alt)
  next
    case False
    then have "unat x + 1 = 2 ^ 64" using unsigned_less [of x, where ?'a = nat] by simp
    then have "unat (x + 1) = 0" by (simp add: unat_word_ariths)
    then show ?thesis using False by (simp add: checked_add_u64_def word_less_nat_alt)
  qed
  show ?thesis
    using assms
    by (auto simp: contract_receive_add_settlement_def try_bind_Inr queue_of_def added Let_def split: option.splits)
qed

lemma other_calls_ids:
  assumes "offchain_step missing h c h'" "\<And>ctx. c \<noteq> CallAdd ctx"
  shows "os_next_id (h_state h') = os_next_id (h_state h) \<and> (\<exists>P. queue_of h' = filter P (queue_of h))"
  using assms
proof (induction rule: offchain_step.induct)
  case (step_deposit ctx amount h h')
  have "queue_of h = filter (\<lambda>s. True) (queue_of h)" by simp
  then show ?case using step_deposit
    by (auto simp: offchain_deposit_def try_bind_Inr queue_of_def receive_amount_def Let_def intro!: exI [of _ "\<lambda>s. True"])
next
  case (step_withdraw ctx h h')
  then show ?case
    by (auto simp: contract_receive_withdraw_def try_bind_Inr queue_of_def invoke_transfer_def Let_def
        split: sum.splits option.splits if_splits intro!: exI [of _ "\<lambda>s. True"])
next
  case (step_veto ctx h h')
  then show ?case by (auto simp: contract_receive_veto_def try_bind_Inr queue_of_def Let_def)
next
  case (step_execute ctx h h')
  then show ?case by (auto simp: contract_receive_execute_settlements_def queue_of_def Let_def)
next
  case (step_add ctx h h')
  then show ?case by blast
qed

lemma fresh_ids_step:
  assumes "offchain_step missing h c h'" "fresh_ids h"
  shows "fresh_ids h'"
proof (cases "\<exists>ctx. c = CallAdd ctx")
  case True
  then obtain ctx where "contract_receive_add_settlement ctx h = Inr h'" using assms(1) by (auto elim: offchain_step.cases)
  from contract_receive_add_settlement_id [OF this] show ?thesis
    using assms(2) by (fastforce simp: fresh_ids_def intro: less_trans)
next
  case False
  then show ?thesis using other_calls_ids [OF assms(1)] assms(2) by (auto simp: fresh_ids_def intro: distinct_map_filter)
qed

lemma gone_step:
  assumes "offchain_step missing h c h'" "gone s_id h"
  shows "gone s_id h'"
proof (cases "\<exists>ctx. c = CallAdd ctx")
  case True
  then obtain ctx where "contract_receive_add_settlement ctx h = Inr h'" using assms(1) by (auto elim: offchain_step.cases)
  from contract_receive_add_settlement_id [OF this] show ?thesis
    using assms(2) by (auto simp: gone_def)
next
  case False
  then show ?thesis using other_calls_ids [OF assms(1)] assms(2) by (auto simp: gone_def)
qed

lemma fresh_ids_run: "offchain_run missing B h cs h' \<Longrightarrow> fresh_ids h \<Longrightarrow> fresh_ids h'"
  by (induction rule: offchain_run.induct) (auto dest: fresh_ids_step)

lemma gone_run: "offchain_run missing B h cs h' \<Longrightarrow> gone s_id h \<Longrightarrow> gone s_id h'"
  by (induction rule: offchain_run.induct) (auto dest: gone_step)

lemma offchain_run_any: "offchain_run missing B h cs h' \<Longrightarrow> offchain_run missing (\<lambda>_ _ _. True) h cs h'"
  by (induction rule: offchain_run.induct) (auto intro: offchain_run.intros)

lemma offchain_init_fresh: "offchain_init p = Inr h \<Longrightarrow> fresh_ids h"
  by (auto simp: offchain_init_def fresh_ids_def queue_of_def split: option.splits)

lemma vetoed_gone:
  assumes "fresh_ids h" "contract_receive_veto ctx h = Inr h'" "s \<in> set (queue_of h)"
    "ctx_parameter ctx = Some (sm_id s)" "ctx_slot_time ctx < sm_finality_time s"
  shows "gone (sm_id s) h'"
proof -
  have unique: "t = s" if "t \<in> set (queue_of h)" "sm_id t = sm_id s" for t
    using assms(1,3) that by (auto simp: fresh_ids_def distinct_map inj_on_def)
  have "os_next_id (h_state h') = os_next_id (h_state h)"
    using assms(2) by (auto simp: contract_receive_veto_def try_bind_Inr Let_def)
  moreover from assms(2) have "sm_id s \<notin> sm_id ` set (queue_of h')"
    by (rule contract_receive_veto_effect) (use assms(4,5) unique in \<open>auto simp: not_le\<close>)
  ultimately show ?thesis using assms(1,3) by (auto simp: gone_def fresh_ids_def)
qed

section \<open>A concrete history\<close>

text \<open>Account 3 deposits 5, the validator queues a transfer of 4 to account 4, which is executed or vetoed.\<close>

definition off_config :: offchain_config where
  "off_config = \<lparr>oc_validator = [1], oc_judge = [2], oc_time_to_finality = 10, oc_settlement_limit = 3\<rparr>"

definition off_ctx :: "account_address \<Rightarrow> 'p \<Rightarrow> u64 \<Rightarrow> 'p receive_context" where
  "off_ctx a p now = \<lparr>ctx_sender = Account a, ctx_parameter = Some p, ctx_slot_time = now, ctx_owner = [],
     ctx_self_address = \<lparr>ca_index = 0, ca_subindex = 0\<rparr>\<rparr>"

definition off_transfer :: offchain_transfer where
  "off_transfer = \<lparr>ot_send_transfers = [\<lparr>aa_address = [3], aa_amount = 4\<rparr>],
     ot_receive_transfers = [\<lparr>aa_address = [4], aa_amount = 4\<rparr>], ot_meta_data = []\<rparr>"

definition off_settlement :: settlement where
  "off_settlement = \<lparr>sm_id = 0, sm_transfer = off_transfer, sm_finality_time = 10\<rparr>"

definition off_host :: "u64 \<Rightarrow> settlement list \<Rightarrow> (account_address \<rightharpoonup> u64) \<Rightarrow> u64 \<Rightarrow> offchain_host" where
  "off_host n q sheet b = \<lparr>h_state = \<lparr>os_config = off_config, os_next_id = n, os_settlements = q, os_balance_sheet = sheet\<rparr>,
     h_balance = b, h_logs = [], h_transfers = []\<rparr>"

lemmas off_defs = off_config_def off_ctx_def off_transfer_def off_settlement_def off_host_def

lemma off_init: "offchain_init (Some off_config) = Inr (off_host 0 [] Map.empty 0)"
  by (simp add: offchain_init_def off_defs)

lemma off_deposit: "offchain_step missing (off_host 0 [] Map.empty 0) (CallDeposit (off_ctx [3] () 0) 5) (off_host 0 [] [[3] \<mapsto> 5] 5)"
  by (rule step_deposit)
    (simp_all add: offchain_deposit_def sender_account_def receive_amount_def sheet_entry_def Let_def off_defs)

lemma off_add: "offchain_step missing (off_host 0 [] [[3] \<mapsto> 5] 5) (CallAdd (off_ctx [1] off_transfer 0))
  (off_host 1 [off_settlement] [[3] \<mapsto> 5] 5)"
  by (rule step_add)
    (simp add: contract_receive_add_settlement_def offchain_parsed_def ensure_def is_transfer_valid_def
      checked_add_u64_def Let_def off_defs)


lemma off_run: "offchain_run missing no_overflow (off_host 0 [] Map.empty 0) [CallDeposit (off_ctx [3] () 0) 5, CallAdd (off_ctx [1] off_transfer 0)]
  (off_host 1 [off_settlement] [[3] \<mapsto> 5] 5)"
  by (rule run_cons [OF off_deposit _ run_cons [OF off_add _ run_nil]])
    (simp_all add: nat_sum_def queue_total_def sends_def off_defs)


section \<open>Outside the bounds\<close>

text \<open>
  The queue may take more from an account than it has, since a settlement is only checked when it is executed. Then
  the query for what the account can withdraw subtracts below zero.
\<close>

lemma settled_balance_wraps:
  "contract_available_balance_of (off_ctx [9] [3] 0) (off_host 1 [off_settlement] [[3] \<mapsto> 3] 3) = Inr (- 1)"
  by (simp add: contract_available_balance_of_def offchain_parsed_def get_liabilities_def Let_def word_gt_0 off_defs)

text \<open>The sums of a transfer wrap around, so that a transfer which makes funds is accepted as one that does not.\<close>

lemma is_transfer_valid_wraps:
  "is_transfer_valid \<lparr>ot_send_transfers = [],
     ot_receive_transfers = [\<lparr>aa_address = a, aa_amount = 2 ^ 63\<rparr>, \<lparr>aa_address = b, aa_amount = 2 ^ 63\<rparr>], ot_meta_data = m\<rparr>"
  by (simp add: is_transfer_valid_def)

section \<open>Properties\<close>





text \<open>
  C25. A veto is final: a settlement that the judge vetoes before its finality time leaves the queue without touching a
  balance, and no settlement with its id is in the queue, and so none is executed, after any further calls, with sums of
  any size.
\<close>

theorem offchain_veto_final:
  assumes "offchain_init (Some config) = Inr h0" "offchain_run missing (\<lambda>_ _ _. True) h0 cs h"
    and "contract_receive_veto ctx h = Inr h1" "s \<in> set (os_settlements (h_state h))"
    and "ctx_parameter ctx = Some (sm_id s)" "ctx_slot_time ctx < sm_finality_time s"
    and "offchain_run missing (\<lambda>_ _ _. True) h1 ds h2"
  shows "os_balance_sheet (h_state h1) = os_balance_sheet (h_state h) \<and> sm_id s \<notin> sm_id ` set (os_settlements (h_state h2))"
proof
  have fresh: "fresh_ids h" using fresh_ids_run [OF assms(2) offchain_init_fresh [OF assms(1)]] .
  show "os_balance_sheet (h_state h1) = os_balance_sheet (h_state h)"
    using assms(3) by (rule contract_receive_veto_effect) (simp add: sheet_of_def)
  have "gone (sm_id s) h1" using vetoed_gone [OF fresh assms(3)] assms(4-6) by (simp add: queue_of_def)
  then show "sm_id s \<notin> sm_id ` set (os_settlements (h_state h2))"
    using gone_run [OF assms(7)] by (simp add: gone_def queue_of_def)
qed

theorem offchain_veto_final_witness:
  "os_balance_sheet (h_state (off_host 1 [] [[3] \<mapsto> 5] 5)) = os_balance_sheet (h_state (off_host 1 [off_settlement] [[3] \<mapsto> 5] 5)) \<and>
   sm_id off_settlement \<notin> sm_id ` set (os_settlements (h_state (off_host 1 [] [[3] \<mapsto> 5] 5)))"
  by (rule offchain_veto_final [OF off_init off_run [THEN offchain_run_any], where ctx = "off_ctx [2] 0 0" and ds = "[]"])
    (simp_all add: contract_receive_veto_def offchain_parsed_def ensure_def run_nil Let_def off_defs)

end
