(* ===== verification/Wallet.thy ===== *)
theory Wallet
  imports Contract_Host
begin

text \<open>
  The contract of \<^verbatim>\<open>examples/cis5-smart-contract-wallet/src/lib.rs\<close> (CIS-5): it holds CCD and tokens of any token
  contract for public keys, whose holders sign batches of withdrawals and transfers that anybody can submit.

  Calls to other contracts are an argument of the entrypoints. The serialization of the signed messages, which is
  generated, the hash and the signature check of the chain, and the addition of 256-bit numbers of the library that
  provides them are the record \<open>wallet_env\<close>; an addition that panics is \<open>None\<close>.
\<close>

section \<open>Data\<close>

type_synonym wallet_key = bytes
type_synonym u256 = "256 word"

definition TESTNET_GENESIS_HASH :: bytes where
  "TESTNET_GENESIS_HASH =
     [66, 33, 51, 45, 52, 225, 105, 65, 104, 194, 160, 192, 179, 253, 15, 39, 56, 9, 97, 44, 177, 61,
      0, 13, 92, 46, 0, 232, 95, 80, 247, 150]"

definition WALLET_SUPPORTS_STANDARDS :: "string list" where
  "WALLET_SUPPORTS_STANDARDS = [''CIS-0'', ''CIS-5'']"

record token_amount =
  ta_token_amount :: u256
  ta_token_id :: bytes
  ta_cis2_token_contract_address :: contract_address

text \<open>The events, with the fields in the order of the code.\<close>

datatype wallet_event =
    WalletNonce u64 wallet_key
  | DepositCcd u64 address wallet_key
  | DepositCis2Tokens token_amount address wallet_key
  | WithdrawCcd u64 wallet_key address
  | WithdrawCis2Tokens token_amount wallet_key address
  | TransferCcd u64 wallet_key wallet_key
  | TransferCis2Tokens token_amount wallet_key wallet_key

record wallet_state =
  wl_token_balances :: "(contract_address \<times> bytes \<times> wallet_key) \<rightharpoonup> u256"
  wl_ccd_balances :: "wallet_key \<rightharpoonup> u64"
  wl_implementors :: "string \<rightharpoonup> contract_address list"
  wl_nonces_registry :: "wallet_key \<rightharpoonup> u64"

datatype wallet_error =
    WalletParseParams | WalletLogFull | WalletLogMalformed | OnlyContract | WalletInsufficientFunds
  | WalletWrongSignature | WalletNonceMismatch | WalletExpired | WalletWrongEntryPoint | WalletUnAuthorized
  | WalletOverflow

text \<open>
  Why a call fails: an error of the contract, an error of the library that \<^verbatim>\<open>?\<close> turns into a \<^verbatim>\<open>Reject\<close>, or a panic.
\<close>

datatype wallet_failure = WalletError wallet_error | WalletLibrary "bytes library_error" | WalletPanic

type_synonym wallet_host = "(wallet_state, wallet_event) contract_host"

record 't withdraw =
  wd_to :: receiver
  wd_withdraw_amount :: 't
  wd_data :: bytes

record 't withdraw_message =
  wm_entry_point :: string
  wm_expiry_time :: u64
  wm_nonce :: u64
  wm_service_fee_recipient :: wallet_key
  wm_service_fee_amount :: 't
  wm_simple_withdraws :: "'t withdraw list"

record 't withdraw_batch =
  wb_signer :: wallet_key
  wb_signature :: bytes
  wb_message :: "'t withdraw_message"

record 't wallet_transfer =
  wt_to :: wallet_key
  wt_transfer_amount :: 't

record 't transfer_message =
  tm_entry_point :: string
  tm_expiry_time :: u64
  tm_nonce :: u64
  tm_service_fee_recipient :: wallet_key
  tm_service_fee_amount :: 't
  tm_simple_transfers :: "'t wallet_transfer list"

record 't transfer_batch =
  tb_signer :: wallet_key
  tb_signature :: bytes
  tb_message :: "'t transfer_message"

record wallet_env =
  we_hash_sha2_256 :: "bytes \<Rightarrow> bytes"
  we_verify_ed25519_signature :: "wallet_key \<Rightarrow> bytes \<Rightarrow> bytes \<Rightarrow> bool"
  we_u256_add :: "u256 \<Rightarrow> u256 \<Rightarrow> u256 option"
  we_serial_withdraw_ccd :: "u64 withdraw_message \<Rightarrow> bytes"
  we_serial_withdraw_tokens :: "token_amount withdraw_message \<Rightarrow> bytes"
  we_serial_transfer_ccd :: "u64 transfer_message \<Rightarrow> bytes"
  we_serial_transfer_tokens :: "token_amount transfer_message \<Rightarrow> bytes"

text \<open>The trait \<^verbatim>\<open>IsMessage\<close> and its two implementations, with the serialization of the message.\<close>

record 'm is_message =
  im_expiry_time :: "'m \<Rightarrow> u64"
  im_nonce :: "'m \<Rightarrow> u64"
  im_to_bytes :: "'m \<Rightarrow> bytes"

definition withdraw_is_message :: "('t withdraw_message \<Rightarrow> bytes) \<Rightarrow> 't withdraw_message is_message" where
  "withdraw_is_message to_bytes = \<lparr>im_expiry_time = wm_expiry_time, im_nonce = wm_nonce, im_to_bytes = to_bytes\<rparr>"

definition transfer_is_message :: "('t transfer_message \<Rightarrow> bytes) \<Rightarrow> 't transfer_message is_message" where
  "transfer_is_message to_bytes = \<lparr>im_expiry_time = tm_expiry_time, im_nonce = tm_nonce, im_to_bytes = to_bytes\<rparr>"

text \<open>The parameters of the calls the contract makes: raw data, or the transfer of a token contract.\<close>

datatype wallet_parameter = RawParameter bytes | Cis2TransferParameter "(bytes, u256) transfer_params list"

type_synonym wallet_call =
  "wallet_host \<Rightarrow> contract_address \<Rightarrow> wallet_parameter \<Rightarrow> string \<Rightarrow> u64 \<Rightarrow> bytes call_contract_error + wallet_host"

section \<open>Operations of the state\<close>

definition wallet_empty :: wallet_state where
  "wallet_empty = \<lparr>wl_token_balances = Map.empty, wl_ccd_balances = Map.empty, wl_implementors = Map.empty,
     wl_nonces_registry = Map.empty\<rparr>"

definition balance_ccd :: "wallet_state \<Rightarrow> wallet_key \<Rightarrow> u64" where
  "balance_ccd st k = (case wl_ccd_balances st k of Some b \<Rightarrow> b | None \<Rightarrow> 0)"

definition balance_tokens :: "wallet_state \<Rightarrow> bytes \<Rightarrow> contract_address \<Rightarrow> wallet_key \<Rightarrow> u256" where
  "balance_tokens st t c k = (case wl_token_balances st (c, t, k) of Some b \<Rightarrow> b | None \<Rightarrow> 0)"

definition wallet_log :: "wallet_event logger \<Rightarrow> wallet_event \<Rightarrow> wallet_host \<Rightarrow> wallet_failure + wallet_host" where
  "wallet_log logger ev h = map_err (\<lambda>e. WalletLibrary (LogError e)) (log_event logger ev h)"

text \<open>An entry of the balances that has to exist, less an amount.\<close>

definition debit_ccd :: "wallet_key \<Rightarrow> u64 \<Rightarrow> wallet_state \<Rightarrow> wallet_failure + wallet_state" where
  "debit_ccd k amount st =
     (case wl_ccd_balances st k of
        None \<Rightarrow> Inl (WalletError WalletInsufficientFunds)
      | Some b \<Rightarrow>
          (case checked_sub_u64 b amount of
             None \<Rightarrow> Inl (WalletError WalletInsufficientFunds)
           | Some b \<Rightarrow> Inr (st\<lparr>wl_ccd_balances := (wl_ccd_balances st)(k \<mapsto> b)\<rparr>)))"

definition credit_ccd :: "wallet_key \<Rightarrow> u64 \<Rightarrow> wallet_state \<Rightarrow> wallet_failure + wallet_state" where
  "credit_ccd k amount st =
     (case checked_add_u64 (balance_ccd st k) amount of
        None \<Rightarrow> Inl (WalletError WalletOverflow)
      | Some b \<Rightarrow> Inr (st\<lparr>wl_ccd_balances := (wl_ccd_balances st)(k \<mapsto> b)\<rparr>))"

definition debit_tokens :: "wallet_key \<Rightarrow> token_amount \<Rightarrow> wallet_state \<Rightarrow> wallet_failure + wallet_state" where
  "debit_tokens k ta st =
     (let key = (ta_cis2_token_contract_address ta, ta_token_id ta, k) in
      case wl_token_balances st key of
        None \<Rightarrow> Inl (WalletError WalletInsufficientFunds)
      | Some b \<Rightarrow>
          ensure (b \<ge> ta_token_amount ta) (WalletError WalletInsufficientFunds)
          (Inr (st\<lparr>wl_token_balances := (wl_token_balances st)(key \<mapsto> b - ta_token_amount ta)\<rparr>)))"

definition credit_tokens :: "wallet_env \<Rightarrow> wallet_key \<Rightarrow> token_amount \<Rightarrow> wallet_state \<Rightarrow> wallet_failure + wallet_state" where
  "credit_tokens E k ta st =
     (let c = ta_cis2_token_contract_address ta; t = ta_token_id ta; b = balance_tokens st t c k in
      case we_u256_add E b (ta_token_amount ta) of
        None \<Rightarrow> Inl WalletPanic
      | Some s \<Rightarrow>
          ensure (s \<ge> b) (WalletError WalletOverflow)
          (Inr (st\<lparr>wl_token_balances := (wl_token_balances st)((c, t, k) \<mapsto> s)\<rparr>)))"

text \<open>\<^verbatim>\<open>State::transfer_ccd\<close> and \<^verbatim>\<open>State::transfer_cis2_tokens\<close>, with the host as the state and the log.\<close>

definition state_transfer_ccd ::
    "wallet_event logger \<Rightarrow> wallet_key \<Rightarrow> wallet_key \<Rightarrow> u64 \<Rightarrow> wallet_host \<Rightarrow> wallet_failure + wallet_host" where
  "state_transfer_ccd logger from_key to_key ccd_amount h =
     try_bind (if ccd_amount \<noteq> 0
               then try_bind (debit_ccd from_key ccd_amount (h_state h)) (credit_ccd to_key ccd_amount)
               else Inr (h_state h)) (\<lambda>st.
     wallet_log logger (TransferCcd ccd_amount from_key to_key) (h\<lparr>h_state := st\<rparr>))"

definition state_transfer_cis2_tokens ::
    "wallet_env \<Rightarrow> wallet_event logger \<Rightarrow> wallet_key \<Rightarrow> wallet_key \<Rightarrow> token_amount \<Rightarrow> wallet_host \<Rightarrow>
     wallet_failure + wallet_host" where
  "state_transfer_cis2_tokens E logger from_key to_key ta h =
     try_bind (if ta_token_amount ta \<noteq> 0
               then try_bind (debit_tokens from_key ta (h_state h)) (credit_tokens E to_key ta)
               else Inr (h_state h)) (\<lambda>st.
     wallet_log logger (TransferCis2Tokens ta from_key to_key) (h\<lparr>h_state := st\<rparr>))"

definition wallet_have_implementors :: "wallet_state \<Rightarrow> string \<Rightarrow> support_result" where
  "wallet_have_implementors st std_id = (case wl_implementors st std_id of Some as \<Rightarrow> SupportBy as | None \<Rightarrow> NoSupport)"

definition wallet_set_implementors :: "wallet_state \<Rightarrow> string \<Rightarrow> contract_address list \<Rightarrow> wallet_state" where
  "wallet_set_implementors st std_id as = st\<lparr>wl_implementors := (wl_implementors st)(std_id \<mapsto> as)\<rparr>"

section \<open>Deposits\<close>

definition wallet_init :: wallet_host where
  "wallet_init = \<lparr>h_state = wallet_empty, h_balance = 0, h_logs = [], h_transfers = []\<rparr>"

text \<open>\<^verbatim>\<open>parameter_cursor().get()?\<close> where the error is a \<^verbatim>\<open>Reject\<close>, and where it is one of the contract.\<close>

definition wallet_get :: "'p receive_context \<Rightarrow> wallet_failure + 'p" where
  "wallet_get ctx = (case ctx_parameter ctx of None \<Rightarrow> Inl (WalletLibrary ParseError) | Some p \<Rightarrow> Inr p)"

definition wallet_parsed :: "'p receive_context \<Rightarrow> wallet_error + 'p" where
  "wallet_parsed ctx = (case ctx_parameter ctx of None \<Rightarrow> Inl WalletParseParams | Some p \<Rightarrow> Inr p)"

definition deposit_ccd ::
    "wallet_event logger \<Rightarrow> wallet_key receive_context \<Rightarrow> u64 \<Rightarrow> wallet_host \<Rightarrow> wallet_failure + wallet_host" where
  "deposit_ccd logger ctx amount h =
     try_bind (wallet_get ctx) (\<lambda>to.
     try_bind (credit_ccd to amount (h_state h)) (\<lambda>st.
     wallet_log logger (DepositCcd amount (ctx_sender ctx) to) (h\<lparr>h_state := st\<rparr>)))"

text \<open>The data of the hook's parameter is the key that the deposit is for.\<close>

definition deposit_cis2_tokens ::
    "wallet_env \<Rightarrow> wallet_event logger \<Rightarrow> (bytes, u256, wallet_key) on_receiving_cis2_data_params receive_context \<Rightarrow>
     wallet_host \<Rightarrow> wallet_failure + wallet_host" where
  "deposit_cis2_tokens E logger ctx h =
     try_bind (wallet_get ctx) (\<lambda>p.
     case ctx_sender ctx of
       Account _ \<Rightarrow> Inl (WalletError OnlyContract)
     | Contract c \<Rightarrow>
         let ta = \<lparr>ta_token_amount = od_amount p, ta_token_id = od_token_id p, ta_cis2_token_contract_address = c\<rparr> in
         try_bind (credit_tokens E (od_data p) ta (h_state h)) (\<lambda>st.
         wallet_log logger (DepositCis2Tokens ta (od_from p) (od_data p)) (h\<lparr>h_state := st\<rparr>)))"

section \<open>Signed messages\<close>

definition calculate_message_hash_from_bytes :: "wallet_env \<Rightarrow> 'p receive_context \<Rightarrow> bytes \<Rightarrow> bytes" where
  "calculate_message_hash_from_bytes E ctx message_bytes =
     we_hash_sha2_256 E ((TESTNET_GENESIS_HASH @ to_le_bytes 8 (ca_index (ctx_self_address ctx)) @
       to_le_bytes 8 (ca_subindex (ctx_self_address ctx))) @ message_bytes)"

definition wallet_nonce :: "wallet_state \<Rightarrow> wallet_key \<Rightarrow> u64" where
  "wallet_nonce st k = (case wl_nonces_registry st k of Some n \<Rightarrow> n | None \<Rightarrow> 0)"

definition increase_nonce :: "wallet_key \<Rightarrow> wallet_state \<Rightarrow> wallet_state" where
  "increase_nonce k st = st\<lparr>wl_nonces_registry := (wl_nonces_registry st)(k \<mapsto> wallet_nonce st k + 1)\<rparr>"

definition validate_signature_and_increase_nonce ::
    "wallet_env \<Rightarrow> 'm is_message \<Rightarrow> 'm \<Rightarrow> wallet_key \<Rightarrow> bytes \<Rightarrow> 'p receive_context \<Rightarrow> wallet_host \<Rightarrow>
     wallet_error + wallet_host" where
  "validate_signature_and_increase_nonce E M message signer signature ctx h =
     ensure (im_expiry_time M message > ctx_slot_time ctx) WalletExpired
     (let message_hash = calculate_message_hash_from_bytes E ctx (im_to_bytes M message) in
      ensure (im_nonce M message = wallet_nonce (h_state h) signer) WalletNonceMismatch
      (let h = h\<lparr>h_state := increase_nonce signer (h_state h)\<rparr> in
       ensure (we_verify_ed25519_signature E signer signature message_hash) WalletWrongSignature (Inr h)))"

text \<open>The four helpers that return the hash to be signed.\<close>

definition wallet_message_hash :: "wallet_env \<Rightarrow> ('m \<Rightarrow> bytes) \<Rightarrow> 'm receive_context \<Rightarrow> wallet_error + bytes" where
  "wallet_message_hash E to_bytes ctx =
     try_bind (wallet_parsed ctx) (\<lambda>param. Inr (calculate_message_hash_from_bytes E ctx (to_bytes param)))"

definition contract_get_ccd_withdraw_message_hash where
  "contract_get_ccd_withdraw_message_hash E ctx = wallet_message_hash E (we_serial_withdraw_ccd E) ctx"

definition contract_get_cis2_withdraw_message_hash where
  "contract_get_cis2_withdraw_message_hash E ctx = wallet_message_hash E (we_serial_withdraw_tokens E) ctx"

definition contract_get_ccd_transfer_message_hash where
  "contract_get_ccd_transfer_message_hash E ctx = wallet_message_hash E (we_serial_transfer_ccd E) ctx"

definition contract_get_cis2_transfer_message_hash where
  "contract_get_cis2_transfer_message_hash E ctx = wallet_message_hash E (we_serial_transfer_tokens E) ctx"

section \<open>Withdrawals\<close>

text \<open>The payment to an account or to the hook of a contract.\<close>

definition pay_ccd ::
    "(account_address \<Rightarrow> bool) \<Rightarrow> wallet_call \<Rightarrow> receiver \<Rightarrow> u64 \<Rightarrow> bytes \<Rightarrow> wallet_host \<Rightarrow> wallet_failure + wallet_host" where
  "pay_ccd missing call to amount data h =
     (case to of
        ReceiverAccount a \<Rightarrow> map_err (\<lambda>e. WalletLibrary (TransferError e)) (invoke_transfer missing h a amount)
      | ReceiverContract c function \<Rightarrow>
          map_err (\<lambda>e. WalletLibrary (CallContractError e)) (call h c (RawParameter data) function amount))"

fun withdraw_ccd_loop ::
    "wallet_event logger \<Rightarrow> (account_address \<Rightarrow> bool) \<Rightarrow> wallet_call \<Rightarrow> wallet_key \<Rightarrow> u64 withdraw list \<Rightarrow> wallet_host \<Rightarrow>
     wallet_failure + wallet_host" where
  "withdraw_ccd_loop logger missing call signer [] h = Inr h"
| "withdraw_ccd_loop logger missing call signer (w # ws) h =
     try_bind (debit_ccd signer (wd_withdraw_amount w) (h_state h)) (\<lambda>st.
     try_bind (pay_ccd missing call (wd_to w) (wd_withdraw_amount w) (wd_data w) (h\<lparr>h_state := st\<rparr>)) (\<lambda>h.
     try_bind (wallet_log logger (WithdrawCcd (wd_withdraw_amount w) signer (receiver_address (wd_to w))) h)
       (withdraw_ccd_loop logger missing call signer ws)))"

fun withdraw_ccd_batches ::
    "wallet_env \<Rightarrow> wallet_event logger \<Rightarrow> (account_address \<Rightarrow> bool) \<Rightarrow> wallet_call \<Rightarrow> 'p receive_context \<Rightarrow>
     u64 withdraw_batch list \<Rightarrow> wallet_host \<Rightarrow> wallet_failure + wallet_host" where
  "withdraw_ccd_batches E logger missing call ctx [] h = Inr h"
| "withdraw_ccd_batches E logger missing call ctx (b # bs) h =
     (let message = wb_message b; signer = wb_signer b in
      ensure (wm_entry_point message = ''withdrawCcd'') (WalletError WalletWrongEntryPoint)
      (try_bind (map_err WalletError (validate_signature_and_increase_nonce E (withdraw_is_message (we_serial_withdraw_ccd E))
         message signer (wb_signature b) ctx h)) (\<lambda>h.
       try_bind (state_transfer_ccd logger signer (wm_service_fee_recipient message) (wm_service_fee_amount message) h) (\<lambda>h.
       try_bind (withdraw_ccd_loop logger missing call signer (wm_simple_withdraws message) h) (\<lambda>h.
       try_bind (wallet_log logger (WalletNonce (wm_nonce message) signer) h)
         (withdraw_ccd_batches E logger missing call ctx bs))))))"

definition withdraw_ccd ::
    "wallet_env \<Rightarrow> wallet_event logger \<Rightarrow> (account_address \<Rightarrow> bool) \<Rightarrow> wallet_call \<Rightarrow>
     u64 withdraw_batch list receive_context \<Rightarrow> wallet_host \<Rightarrow> wallet_failure + wallet_host" where
  "withdraw_ccd E logger missing call ctx h =
     try_bind (wallet_get ctx) (\<lambda>withdraws. withdraw_ccd_batches E logger missing call ctx withdraws h)"

fun withdraw_tokens_loop ::
    "wallet_event logger \<Rightarrow> wallet_call \<Rightarrow> contract_address \<Rightarrow> wallet_key \<Rightarrow> token_amount withdraw list \<Rightarrow> wallet_host \<Rightarrow>
     wallet_failure + wallet_host" where
  "withdraw_tokens_loop logger call self signer [] h = Inr h"
| "withdraw_tokens_loop logger call self signer (w # ws) h =
     (let ta = wd_withdraw_amount w in
      try_bind (debit_tokens signer ta (h_state h)) (\<lambda>st.
      let data = [\<lparr>tp_token_id = ta_token_id ta, tp_amount = ta_token_amount ta, tp_from = Contract self, tp_to = wd_to w,
                   tp_data = wd_data w\<rparr>] in
      try_bind (map_err (\<lambda>e. WalletLibrary (CallContractError e))
        (call (h\<lparr>h_state := st\<rparr>) (ta_cis2_token_contract_address ta) (Cis2TransferParameter data) ''transfer'' 0)) (\<lambda>h.
      try_bind (wallet_log logger (WithdrawCis2Tokens ta signer (receiver_address (wd_to w))) h)
        (withdraw_tokens_loop logger call self signer ws))))"

fun withdraw_tokens_batches ::
    "wallet_env \<Rightarrow> wallet_event logger \<Rightarrow> wallet_call \<Rightarrow> 'p receive_context \<Rightarrow>
     token_amount withdraw_batch list \<Rightarrow> wallet_host \<Rightarrow> wallet_failure + wallet_host" where
  "withdraw_tokens_batches E logger call ctx [] h = Inr h"
| "withdraw_tokens_batches E logger call ctx (b # bs) h =
     (let message = wb_message b; signer = wb_signer b in
      ensure (wm_entry_point message = ''withdrawCis2Tokens'') (WalletError WalletWrongEntryPoint)
      (try_bind (map_err WalletError (validate_signature_and_increase_nonce E (withdraw_is_message (we_serial_withdraw_tokens E))
         message signer (wb_signature b) ctx h)) (\<lambda>h.
       try_bind (state_transfer_cis2_tokens E logger signer (wm_service_fee_recipient message) (wm_service_fee_amount message) h)
         (\<lambda>h.
       try_bind (withdraw_tokens_loop logger call (ctx_self_address ctx) signer (wm_simple_withdraws message) h) (\<lambda>h.
       try_bind (wallet_log logger (WalletNonce (wm_nonce message) signer) h)
         (withdraw_tokens_batches E logger call ctx bs))))))"

definition withdraw_cis2_tokens ::
    "wallet_env \<Rightarrow> wallet_event logger \<Rightarrow> wallet_call \<Rightarrow> token_amount withdraw_batch list receive_context \<Rightarrow> wallet_host \<Rightarrow>
     wallet_failure + wallet_host" where
  "withdraw_cis2_tokens E logger call ctx h =
     try_bind (wallet_get ctx) (\<lambda>withdraws. withdraw_tokens_batches E logger call ctx withdraws h)"

section \<open>Transfers between keys\<close>

fun transfer_ccd_loop ::
    "wallet_event logger \<Rightarrow> wallet_key \<Rightarrow> u64 wallet_transfer list \<Rightarrow> wallet_host \<Rightarrow> wallet_failure + wallet_host" where
  "transfer_ccd_loop logger signer [] h = Inr h"
| "transfer_ccd_loop logger signer (t # ts) h =
     try_bind (state_transfer_ccd logger signer (wt_to t) (wt_transfer_amount t) h) (transfer_ccd_loop logger signer ts)"

fun transfer_ccd_batches ::
    "wallet_env \<Rightarrow> wallet_event logger \<Rightarrow> 'p receive_context \<Rightarrow> u64 transfer_batch list \<Rightarrow> wallet_host \<Rightarrow>
     wallet_failure + wallet_host" where
  "transfer_ccd_batches E logger ctx [] h = Inr h"
| "transfer_ccd_batches E logger ctx (b # bs) h =
     (let message = tb_message b; signer = tb_signer b in
      ensure (tm_entry_point message = ''transferCcd'') (WalletError WalletWrongEntryPoint)
      (try_bind (map_err WalletError (validate_signature_and_increase_nonce E (transfer_is_message (we_serial_transfer_ccd E))
         message signer (tb_signature b) ctx h)) (\<lambda>h.
       try_bind (state_transfer_ccd logger signer (tm_service_fee_recipient message) (tm_service_fee_amount message) h) (\<lambda>h.
       try_bind (transfer_ccd_loop logger signer (tm_simple_transfers message) h) (\<lambda>h.
       try_bind (wallet_log logger (WalletNonce (tm_nonce message) signer) h)
         (transfer_ccd_batches E logger ctx bs))))))"

definition transfer_ccd ::
    "wallet_env \<Rightarrow> wallet_event logger \<Rightarrow> u64 transfer_batch list receive_context \<Rightarrow> wallet_host \<Rightarrow>
     wallet_failure + wallet_host" where
  "transfer_ccd E logger ctx h = try_bind (wallet_get ctx) (\<lambda>transfers. transfer_ccd_batches E logger ctx transfers h)"

fun transfer_tokens_loop ::
    "wallet_env \<Rightarrow> wallet_event logger \<Rightarrow> wallet_key \<Rightarrow> token_amount wallet_transfer list \<Rightarrow> wallet_host \<Rightarrow>
     wallet_failure + wallet_host" where
  "transfer_tokens_loop E logger signer [] h = Inr h"
| "transfer_tokens_loop E logger signer (t # ts) h =
     try_bind (state_transfer_cis2_tokens E logger signer (wt_to t) (wt_transfer_amount t) h)
       (transfer_tokens_loop E logger signer ts)"

fun transfer_tokens_batches ::
    "wallet_env \<Rightarrow> wallet_event logger \<Rightarrow> 'p receive_context \<Rightarrow> token_amount transfer_batch list \<Rightarrow> wallet_host \<Rightarrow>
     wallet_failure + wallet_host" where
  "transfer_tokens_batches E logger ctx [] h = Inr h"
| "transfer_tokens_batches E logger ctx (b # bs) h =
     (let message = tb_message b; signer = tb_signer b in
      ensure (tm_entry_point message = ''transferCis2Tokens'') (WalletError WalletWrongEntryPoint)
      (try_bind (map_err WalletError (validate_signature_and_increase_nonce E (transfer_is_message (we_serial_transfer_tokens E))
         message signer (tb_signature b) ctx h)) (\<lambda>h.
       try_bind (state_transfer_cis2_tokens E logger signer (tm_service_fee_recipient message) (tm_service_fee_amount message) h)
         (\<lambda>h.
       try_bind (transfer_tokens_loop E logger signer (tm_simple_transfers message) h) (\<lambda>h.
       try_bind (wallet_log logger (WalletNonce (tm_nonce message) signer) h)
         (transfer_tokens_batches E logger ctx bs))))))"

definition transfer_cis2_tokens ::
    "wallet_env \<Rightarrow> wallet_event logger \<Rightarrow> token_amount transfer_batch list receive_context \<Rightarrow> wallet_host \<Rightarrow>
     wallet_failure + wallet_host" where
  "transfer_cis2_tokens E logger ctx h =
     try_bind (wallet_get ctx) (\<lambda>transfers. transfer_tokens_batches E logger ctx transfers h)"

section \<open>Implementors and queries\<close>

definition wallet_contract_set_implementor ::
    "(string \<times> contract_address list) receive_context \<Rightarrow> wallet_host \<Rightarrow> wallet_error + wallet_host" where
  "wallet_contract_set_implementor ctx h =
     ensure (ctx_sender ctx = Account (ctx_owner ctx)) WalletUnAuthorized
     (try_bind (wallet_parsed ctx) (\<lambda>(std_id, implementors).
      Inr (h\<lparr>h_state := wallet_set_implementors (h_state h) std_id implementors\<rparr>)))"

definition wallet_contract_supports :: "string list receive_context \<Rightarrow> wallet_host \<Rightarrow> wallet_error + support_result list" where
  "wallet_contract_supports ctx h =
     try_bind (wallet_parsed ctx) (\<lambda>queries. Inr (map (\<lambda>std_id.
       if std_id \<in> set WALLET_SUPPORTS_STANDARDS then Support else wallet_have_implementors (h_state h) std_id) queries))"

definition contract_ccd_balance_of :: "wallet_key list receive_context \<Rightarrow> wallet_host \<Rightarrow> wallet_error + u64 list" where
  "contract_ccd_balance_of ctx h = try_bind (wallet_parsed ctx) (\<lambda>queries. Inr (map (balance_ccd (h_state h)) queries))"

definition contract_cis2_balance_of ::
    "(bytes \<times> contract_address \<times> wallet_key) list receive_context \<Rightarrow> wallet_host \<Rightarrow> wallet_error + u256 list" where
  "contract_cis2_balance_of ctx h =
     try_bind (wallet_parsed ctx) (\<lambda>queries. Inr (map (\<lambda>(t, c, k). balance_tokens (h_state h) t c k) queries))"

definition wallet_contract_nonce_of :: "wallet_key list receive_context \<Rightarrow> wallet_host \<Rightarrow> wallet_error + u64 list" where
  "wallet_contract_nonce_of ctx h = try_bind (wallet_parsed ctx) (\<lambda>queries. Inr (map (wallet_nonce (h_state h)) queries))"

section \<open>Reachable states\<close>

text \<open>
  \<open>wallet_steps E K C n h h'\<close>: successful calls to the entrypoints take the instance from \<open>h\<close> to \<open>h'\<close>, where
  tokens are deposited by contracts of \<open>C\<close>, and at most \<open>n\<close> batches are processed. Anybody may submit any batches,
  in the name of any key: with a forged signature, with a signature of another message, for another entrypoint or
  of a batch that was used before. All that is asked is that only keys of \<open>K\<close> have given signatures away that
  still count: a batch with a signature of its key that verifies, of a message for the called entrypoint with the
  key's current nonce and a time not yet over (\<open>live_withdraw\<close>, \<open>live_transfer\<close>), is of a key of \<open>K\<close>. What a called
  contract does in between are such calls again, at most \<open>m\<close> batches per call; it first takes the amount sent with
  the call, and the log of the caller is its own.
\<close>

definition wallet_callback_ok :: "(wallet_host \<Rightarrow> wallet_host \<Rightarrow> bool) \<Rightarrow> wallet_call \<Rightarrow> bool" where
  "wallet_callback_ok R call \<longleftrightarrow> (\<forall>x a p f amount y. call x a p f amount = Inr y \<longrightarrow>
     amount \<le> h_balance x \<and> (\<exists>z. R (x\<lparr>h_balance := h_balance x - amount\<rparr>) z \<and> y = z\<lparr>h_logs := h_logs x\<rparr>))"

lemma wallet_callback_ok_mono [mono]: "(\<And>x y. R x y \<longrightarrow> S x y) \<Longrightarrow> wallet_callback_ok R call \<longrightarrow> wallet_callback_ok S call"
  unfolding wallet_callback_ok_def by blast

text \<open>A bound on the batches processed during a call, those of the called contracts included.\<close>

definition withdraw_cost :: "nat \<Rightarrow> 't withdraw_batch list \<Rightarrow> nat" where
  "withdraw_cost m bs = (\<Sum>b\<leftarrow>bs. 1 + m * length (wm_simple_withdraws (wb_message b)))"

text \<open>A batch that its key signed, over the chain, the contract and the message, and that can still be used.\<close>

definition live_withdraw ::
    "wallet_env \<Rightarrow> ('t withdraw_message \<Rightarrow> bytes) \<Rightarrow> string \<Rightarrow> 'p receive_context \<Rightarrow> wallet_state \<Rightarrow> 't withdraw_batch \<Rightarrow> bool" where
  "live_withdraw E to_bytes entry_point ctx st b \<longleftrightarrow>
     we_verify_ed25519_signature E (wb_signer b) (wb_signature b)
       (we_hash_sha2_256 E (TESTNET_GENESIS_HASH @ to_le_bytes 8 (ca_index (ctx_self_address ctx)) @
          to_le_bytes 8 (ca_subindex (ctx_self_address ctx)) @ to_bytes (wb_message b))) \<and>
     wm_entry_point (wb_message b) = entry_point \<and> wm_nonce (wb_message b) = wallet_nonce st (wb_signer b) \<and>
     ctx_slot_time ctx < wm_expiry_time (wb_message b)"

definition live_transfer ::
    "wallet_env \<Rightarrow> ('t transfer_message \<Rightarrow> bytes) \<Rightarrow> string \<Rightarrow> 'p receive_context \<Rightarrow> wallet_state \<Rightarrow> 't transfer_batch \<Rightarrow> bool" where
  "live_transfer E to_bytes entry_point ctx st b \<longleftrightarrow>
     we_verify_ed25519_signature E (tb_signer b) (tb_signature b)
       (we_hash_sha2_256 E (TESTNET_GENESIS_HASH @ to_le_bytes 8 (ca_index (ctx_self_address ctx)) @
          to_le_bytes 8 (ca_subindex (ctx_self_address ctx)) @ to_bytes (tb_message b))) \<and>
     tm_entry_point (tb_message b) = entry_point \<and> tm_nonce (tb_message b) = wallet_nonce st (tb_signer b) \<and>
     ctx_slot_time ctx < tm_expiry_time (tb_message b)"

inductive wallet_steps ::
    "wallet_env \<Rightarrow> wallet_key set \<Rightarrow> contract_address set \<Rightarrow> nat \<Rightarrow> wallet_host \<Rightarrow> wallet_host \<Rightarrow> bool"
  for E :: wallet_env and K :: "wallet_key set" and C :: "contract_address set" where
  start: "wallet_steps E K C n h h"
| step_deposit_ccd: "wallet_steps E K C n h h1 \<Longrightarrow> unat (h_balance h1) + unat amount < 2 ^ 64 \<Longrightarrow>
    deposit_ccd logger dctx amount (receive_amount amount h1) = Inr h2 \<Longrightarrow> wallet_steps E K C n h h2"
| step_deposit_tokens: "wallet_steps E K C n h h1 \<Longrightarrow> ctx_sender tctx \<in> Contract ` C \<Longrightarrow>
    deposit_cis2_tokens E logger tctx (receive_amount 0 h1) = Inr h2 \<Longrightarrow> wallet_steps E K C n h h2"
| step_withdraw_ccd: "wallet_steps E K C n h h1 \<Longrightarrow> ctx_parameter wctx = Some ws \<Longrightarrow>
    wb_signer ` {b \<in> set ws. live_withdraw E (we_serial_withdraw_ccd E) ''withdrawCcd'' wctx (h_state h1) b} \<subseteq> K \<Longrightarrow>
    wallet_callback_ok (wallet_steps E K C m) call \<Longrightarrow>
    withdraw_ccd E logger missing call wctx (receive_amount 0 h1) = Inr h2 \<Longrightarrow>
    wallet_steps E K C (n + withdraw_cost m ws) h h2"
| step_withdraw_tokens: "wallet_steps E K C n h h1 \<Longrightarrow> ctx_parameter vctx = Some vs \<Longrightarrow>
    wb_signer ` {b \<in> set vs. live_withdraw E (we_serial_withdraw_tokens E) ''withdrawCis2Tokens'' vctx (h_state h1) b} \<subseteq> K \<Longrightarrow>
    wallet_callback_ok (wallet_steps E K C m) call \<Longrightarrow>
    withdraw_cis2_tokens E logger call vctx (receive_amount 0 h1) = Inr h2 \<Longrightarrow>
    wallet_steps E K C (n + withdraw_cost m vs) h h2"
| step_transfer_ccd: "wallet_steps E K C n h h1 \<Longrightarrow> ctx_parameter cctx = Some ts \<Longrightarrow>
    tb_signer ` {b \<in> set ts. live_transfer E (we_serial_transfer_ccd E) ''transferCcd'' cctx (h_state h1) b} \<subseteq> K \<Longrightarrow>
    transfer_ccd E logger cctx (receive_amount 0 h1) = Inr h2 \<Longrightarrow> wallet_steps E K C (n + length ts) h h2"
| step_transfer_tokens: "wallet_steps E K C n h h1 \<Longrightarrow> ctx_parameter uctx = Some us \<Longrightarrow>
    tb_signer ` {b \<in> set us. live_transfer E (we_serial_transfer_tokens E) ''transferCis2Tokens'' uctx (h_state h1) b} \<subseteq> K \<Longrightarrow>
    transfer_cis2_tokens E logger uctx (receive_amount 0 h1) = Inr h2 \<Longrightarrow> wallet_steps E K C (n + length us) h h2"
| step_set_implementor: "wallet_steps E K C n h h1 \<Longrightarrow>
    wallet_contract_set_implementor ictx (receive_amount 0 h1) = Inr h2 \<Longrightarrow> wallet_steps E K C n h h2"

end
