(* ===== verification/Wallet_Properties.thy ===== *)
theory Wallet_Properties
  imports Wallet
begin

text \<open>
  What every history of the wallet guarantees. The locale \<open>wallet_guarantee\<close> names what the single operations have to
  satisfy and lifts it to every history, the calls of other contracts included. It is interpreted for the funds of
  the contract, the holdings of the keys, their nonces, and the amounts of tokens in circulation.
\<close>

section \<open>Runs of the operations\<close>

lemma wallet_log_Inr: "wallet_log logger ev h = Inr h' \<Longrightarrow> h_state h' = h_state h \<and> h_balance h' = h_balance h"
  by (auto simp: wallet_log_def dest: log_event_Inr)

lemma wallet_get_Inr [simp]: "wallet_get ctx = Inr p \<longleftrightarrow> ctx_parameter ctx = Some p"
  by (simp add: wallet_get_def split: option.splits)

lemma wallet_parsed_Inr [simp]: "wallet_parsed ctx = Inr p \<longleftrightarrow> ctx_parameter ctx = Some p"
  by (simp add: wallet_parsed_def split: option.splits)

lemma wallet_receive_state [simp]: "h_state (receive_amount amount h) = h_state h"
  by (simp add: receive_amount_def)

lemma validate_run:
  assumes "validate_signature_and_increase_nonce E M message signer signature ctx h = Inr h'"
  shows "h' = h\<lparr>h_state := increase_nonce signer (h_state h)\<rparr>" "im_nonce M message = wallet_nonce (h_state h) signer"
    "ctx_slot_time ctx < im_expiry_time M message"
    "we_verify_ed25519_signature E signer signature (calculate_message_hash_from_bytes E ctx (im_to_bytes M message))"
  using assms by (simp_all add: validate_signature_and_increase_nonce_def Let_def)

lemma debit_ccd_run:
  "debit_ccd k amount st = Inr st' \<longleftrightarrow>
     (\<exists>b. wl_ccd_balances st k = Some b \<and> amount \<le> b \<and> st' = st\<lparr>wl_ccd_balances := (wl_ccd_balances st)(k \<mapsto> b - amount)\<rparr>)"
  by (auto simp: debit_ccd_def checked_sub_u64_def split: option.splits if_splits)

lemma credit_ccd_run:
  "credit_ccd k amount st = Inr st' \<longleftrightarrow>
     unat (balance_ccd st k) + unat amount < 2 ^ 64 \<and>
     st' = st\<lparr>wl_ccd_balances := (wl_ccd_balances st)(k \<mapsto> balance_ccd st k + amount)\<rparr>"
  by (auto simp: credit_ccd_def checked_add_u64_def split: option.splits if_splits)

lemma debit_tokens_run:
  "debit_tokens k ta st = Inr st' \<longleftrightarrow>
     (\<exists>b. wl_token_balances st (ta_cis2_token_contract_address ta, ta_token_id ta, k) = Some b \<and> ta_token_amount ta \<le> b \<and>
       st' = st\<lparr>wl_token_balances := (wl_token_balances st)
         ((ta_cis2_token_contract_address ta, ta_token_id ta, k) \<mapsto> b - ta_token_amount ta)\<rparr>)"
  by (auto simp: debit_tokens_def Let_def split: option.splits)

lemma credit_tokens_run:
  "credit_tokens E k ta st = Inr st' \<longleftrightarrow>
     (\<exists>s. we_u256_add E (balance_tokens st (ta_token_id ta) (ta_cis2_token_contract_address ta) k) (ta_token_amount ta) = Some s \<and>
       balance_tokens st (ta_token_id ta) (ta_cis2_token_contract_address ta) k \<le> s \<and>
       st' = st\<lparr>wl_token_balances := (wl_token_balances st)
         ((ta_cis2_token_contract_address ta, ta_token_id ta, k) \<mapsto> s)\<rparr>)"
  by (auto simp: credit_tokens_def Let_def split: option.splits)

text \<open>A batch that passes the checks was signed by its key and could still be used.\<close>

lemma validated_live:
  "validate_signature_and_increase_nonce E (withdraw_is_message f) (wb_message b) (wb_signer b) (wb_signature b) ctx h = Inr h' \<Longrightarrow>
     wm_entry_point (wb_message b) = e \<Longrightarrow> live_withdraw E f e ctx (h_state h) b"
  "validate_signature_and_increase_nonce E (transfer_is_message g) (tb_message c) (tb_signer c) (tb_signature c) ctx h = Inr h' \<Longrightarrow>
     tm_entry_point (tb_message c) = e \<Longrightarrow> live_transfer E g e ctx (h_state h) c"
  using validate_run(2-4) [of E "withdraw_is_message f" "wb_message b" "wb_signer b" "wb_signature b" ctx h h']
    validate_run(2-4) [of E "transfer_is_message g" "tb_message c" "tb_signer c" "tb_signature c" ctx h h']
  by (simp_all add: live_withdraw_def live_transfer_def withdraw_is_message_def transfer_is_message_def
      calculate_message_hash_from_bytes_def)

section \<open>Guarantees of histories\<close>

locale wallet_guarantee =
  fixes E :: wallet_env and K :: "wallet_key set" and C :: "contract_address set"
    and G :: "nat \<Rightarrow> wallet_host \<Rightarrow> wallet_host \<Rightarrow> bool"
  assumes G_same: "h_state h' = h_state h \<Longrightarrow> h_balance h' = h_balance h \<Longrightarrow> G n h h'"
    and G_trans: "G n h h' \<Longrightarrow> G m h' h'' \<Longrightarrow> G (n + m) h h''"
    and G_deposit_ccd: "unat (h_balance h) + unat amount < 2 ^ 64 \<Longrightarrow> credit_ccd k amount (h_state h) = Inr st \<Longrightarrow>
      G 0 h (h\<lparr>h_state := st, h_balance := h_balance h + amount\<rparr>)"
    and G_deposit_tokens: "ta_cis2_token_contract_address ta \<in> C \<Longrightarrow> credit_tokens E k ta (h_state h) = Inr st \<Longrightarrow>
      G 0 h (h\<lparr>h_state := st\<rparr>)"
    and G_nonce: "k \<in> K \<Longrightarrow> G 1 h (h\<lparr>h_state := increase_nonce k (h_state h)\<rparr>)"
    and G_transfer_ccd: "k \<in> K \<Longrightarrow> debit_ccd k amount (h_state h) = Inr st \<Longrightarrow> credit_ccd to amount st = Inr st' \<Longrightarrow>
      G 0 h (h\<lparr>h_state := st'\<rparr>)"
    and G_transfer_tokens: "k \<in> K \<Longrightarrow> debit_tokens k ta (h_state h) = Inr st \<Longrightarrow> credit_tokens E to ta st = Inr st' \<Longrightarrow>
      G 0 h (h\<lparr>h_state := st'\<rparr>)"
    and G_pay: "k \<in> K \<Longrightarrow> debit_ccd k amount (h_state h) = Inr st \<Longrightarrow> amount \<le> h_balance h \<Longrightarrow>
      G 0 h (h\<lparr>h_state := st, h_balance := h_balance h - amount\<rparr>)"
    and G_withdraw_tokens: "k \<in> K \<Longrightarrow> debit_tokens k ta (h_state h) = Inr st \<Longrightarrow> G 0 h (h\<lparr>h_state := st\<rparr>)"
    and G_implementors: "G 0 h (h\<lparr>h_state := wallet_set_implementors (h_state h) std_id addresses\<rparr>)"
    and G_others: "G n h h' \<Longrightarrow> k \<notin> K \<Longrightarrow> wallet_nonce (h_state h') k = wallet_nonce (h_state h) k"
begin

lemma G_step: "G n h h' \<Longrightarrow> G 0 h' h'' \<Longrightarrow> G n h h''"
  using G_trans [of n h h' 0 h''] by simp

lemma G_then: "G 0 h h' \<Longrightarrow> G n h' h'' \<Longrightarrow> G n h h''"
  using G_trans [of 0 h h' n h''] by simp

text \<open>Only the state and the balance matter.\<close>

lemma G_cong: "G n h h1 \<Longrightarrow> h_state h2 = h_state h1 \<Longrightarrow> h_balance h2 = h_balance h1 \<Longrightarrow> G n h h2"
  by (rule G_step) (auto intro: G_same)

lemma G_log: "wallet_log logger ev h1 = Inr h2 \<Longrightarrow> G n h h1 \<Longrightarrow> G n h h2"
  by (blast dest: wallet_log_Inr intro: G_cong)

lemma G_receive: "G n (receive_amount 0 h) h' \<Longrightarrow> G n h h'"
  by (rule G_then [OF G_same]) (auto simp: receive_amount_def)

lemma state_transfer_ccd_guarantee:
  assumes "state_transfer_ccd logger k to amount h = Inr h'" "k \<in> K"
  shows "G 0 h h'"
proof -
  obtain st where st: "(if amount \<noteq> 0 then try_bind (debit_ccd k amount (h_state h)) (credit_ccd to amount) else Inr (h_state h)) = Inr st"
    and log: "wallet_log logger (TransferCcd amount k to) (h\<lparr>h_state := st\<rparr>) = Inr h'"
    using assms(1) by (auto simp: state_transfer_ccd_def try_bind_Inr)
  have "G 0 h (h\<lparr>h_state := st\<rparr>)"
    using st assms(2) by (cases "amount = 0") (auto simp: try_bind_Inr intro: G_same G_transfer_ccd)
  then show ?thesis by (rule G_log [OF log])
qed

lemma state_transfer_cis2_tokens_guarantee:
  assumes "state_transfer_cis2_tokens E logger k to ta h = Inr h'" "k \<in> K"
  shows "G 0 h h'"
proof -
  obtain st where st: "(if ta_token_amount ta \<noteq> 0 then try_bind (debit_tokens k ta (h_state h)) (credit_tokens E to ta)
      else Inr (h_state h)) = Inr st"
    and log: "wallet_log logger (TransferCis2Tokens ta k to) (h\<lparr>h_state := st\<rparr>) = Inr h'"
    using assms(1) by (auto simp: state_transfer_cis2_tokens_def try_bind_Inr)
  have "G 0 h (h\<lparr>h_state := st\<rparr>)"
    using st assms(2) by (cases "ta_token_amount ta = 0") (auto simp: try_bind_Inr intro: G_same G_transfer_tokens)
  then show ?thesis by (rule G_log [OF log])
qed

lemma deposit_ccd_guarantee:
  assumes "deposit_ccd logger ctx amount (receive_amount amount h) = Inr h'" "unat (h_balance h) + unat amount < 2 ^ 64"
  shows "G 0 h h'"
proof -
  obtain k st where "credit_ccd k amount (h_state h) = Inr st"
    and log: "wallet_log logger (DepositCcd amount (ctx_sender ctx) k) ((receive_amount amount h)\<lparr>h_state := st\<rparr>) = Inr h'"
    using assms(1) by (auto simp: deposit_ccd_def try_bind_Inr receive_amount_def)
  then have "G 0 h (h\<lparr>h_state := st, h_balance := h_balance h + amount\<rparr>)" using assms(2) by (blast intro: G_deposit_ccd)
  then show ?thesis by (rule G_log [OF log, OF G_cong]) (simp_all add: receive_amount_def)
qed

lemma deposit_cis2_tokens_guarantee:
  assumes "deposit_cis2_tokens E logger ctx h = Inr h'" "ctx_sender ctx \<in> Contract ` C"
  shows "G 0 h h'"
proof -
  obtain k ta st ev where "credit_tokens E k ta (h_state h) = Inr st" "ta_cis2_token_contract_address ta \<in> C"
    and log: "wallet_log logger ev (h\<lparr>h_state := st\<rparr>) = Inr h'"
    using assms by (auto simp: deposit_cis2_tokens_def try_bind_Inr Let_def)
  then have "G 0 h (h\<lparr>h_state := st\<rparr>)" by (blast intro: G_deposit_tokens)
  then show ?thesis by (rule G_log [OF log])
qed

lemma wallet_callback:
  assumes "wallet_callback_ok (G m) call" "call x a p f amount = Inr y"
  shows "amount \<le> h_balance x" "G m (x\<lparr>h_balance := h_balance x - amount\<rparr>) y"
proof -
  from assms obtain z where z: "amount \<le> h_balance x" "G m (x\<lparr>h_balance := h_balance x - amount\<rparr>) z" "y = z\<lparr>h_logs := h_logs x\<rparr>"
    unfolding wallet_callback_ok_def by blast
  then show "amount \<le> h_balance x" by blast
  show "G m (x\<lparr>h_balance := h_balance x - amount\<rparr>) y" by (rule G_cong [OF z(2)]) (simp_all add: z(3))
qed

lemma pay_guarantee:
  assumes "pay_ccd missing call to amount data (h\<lparr>h_state := st\<rparr>) = Inr h'" "debit_ccd k amount (h_state h) = Inr st" "k \<in> K"
    and "wallet_callback_ok (G m) call"
  shows "G m h h'"
proof (cases to)
  case (ReceiverAccount a)
  then have "invoke_transfer missing (h\<lparr>h_state := st\<rparr>) a amount = Inr h'" using assms(1) by (simp add: pay_ccd_def)
  note run = invoke_transfer_Inr [OF this]
  have "G 0 h (h\<lparr>h_state := st, h_balance := h_balance h - amount\<rparr>)" using run(1) assms(2,3) by (simp add: G_pay)
  then have "G 0 h h'" by (rule G_cong) (simp_all add: run(3))
  then show ?thesis by (rule G_then) (rule G_same, simp_all)
next
  case (ReceiverContract c f)
  then have "call (h\<lparr>h_state := st\<rparr>) c (RawParameter data) f amount = Inr h'" using assms(1) by (simp add: pay_ccd_def)
  note run = wallet_callback [OF assms(4) this]
  have "G 0 h (h\<lparr>h_state := st, h_balance := h_balance h - amount\<rparr>)" using run(1) assms(2,3) by (simp add: G_pay)
  then show ?thesis by (rule G_then) (use run(2) in simp)
qed

lemma withdraw_ccd_loop_guarantee:
  assumes "wallet_callback_ok (G m) call" "k \<in> K"
  shows "withdraw_ccd_loop logger missing call k ws h = Inr h' \<Longrightarrow> G (m * length ws) h h'"
proof (induction ws arbitrary: h)
  case (Cons w ws)
  then obtain st h1 h2 where run: "debit_ccd k (wd_withdraw_amount w) (h_state h) = Inr st"
    "pay_ccd missing call (wd_to w) (wd_withdraw_amount w) (wd_data w) (h\<lparr>h_state := st\<rparr>) = Inr h1"
    "wallet_log logger (WithdrawCcd (wd_withdraw_amount w) k (receiver_address (wd_to w))) h1 = Inr h2"
    "withdraw_ccd_loop logger missing call k ws h2 = Inr h'"
    by (auto simp: try_bind_Inr)
  have "G m h h2" by (rule G_log [OF run(3) pay_guarantee [OF run(2,1) assms(2,1)]])
  from G_trans [OF this Cons.IH [OF run(4)]] show ?case by simp
qed (simp add: G_same)

lemma withdraw_tokens_loop_guarantee:
  assumes "wallet_callback_ok (G m) call" "k \<in> K"
  shows "withdraw_tokens_loop logger call self k ws h = Inr h' \<Longrightarrow> G (m * length ws) h h'"
proof (induction ws arbitrary: h)
  case (Cons w ws)
  let ?ta = "wd_withdraw_amount w"
  from Cons.prems obtain st h1 h2 p where run: "debit_tokens k ?ta (h_state h) = Inr st"
    "call (h\<lparr>h_state := st\<rparr>) (ta_cis2_token_contract_address ?ta) p ''transfer'' 0 = Inr h1"
    "wallet_log logger (WithdrawCis2Tokens ?ta k (receiver_address (wd_to w))) h1 = Inr h2"
    "withdraw_tokens_loop logger call self k ws h2 = Inr h'"
    by (auto simp: try_bind_Inr Let_def)
  have "G m (h\<lparr>h_state := st\<rparr>) h1" by (rule G_then [OF G_same wallet_callback(2) [OF assms(1) run(2)]]) simp_all
  then have "G m h h1" by (rule G_then [OF G_withdraw_tokens [OF assms(2) run(1)]])
  then have "G m h h2" by (rule G_log [OF run(3)])
  from G_trans [OF this Cons.IH [OF run(4)]] show ?case by simp
qed (simp add: G_same)

lemma transfer_ccd_loop_guarantee: "transfer_ccd_loop logger k ts h = Inr h' \<Longrightarrow> k \<in> K \<Longrightarrow> G 0 h h'"
proof (induction ts arbitrary: h)
  case (Cons t ts)
  then show ?case by (auto simp: try_bind_Inr intro: G_then state_transfer_ccd_guarantee)
qed (simp add: G_same)

lemma transfer_tokens_loop_guarantee: "transfer_tokens_loop E logger k ts h = Inr h' \<Longrightarrow> k \<in> K \<Longrightarrow> G 0 h h'"
proof (induction ts arbitrary: h)
  case (Cons t ts)
  then show ?case by (auto simp: try_bind_Inr intro: G_then state_transfer_cis2_tokens_guarantee)
qed (simp add: G_same)

lemma validate_guarantee: "validate_signature_and_increase_nonce E M message k sig ctx h = Inr h' \<Longrightarrow> k \<in> K \<Longrightarrow> G 1 h h'"
  using validate_run(1) [of E M message k sig ctx h h'] G_nonce by simp

text \<open>
  What nobody but the keys of \<open>K\<close> signed stays so: the nonces of the other keys do not move, so that no batch of
  theirs becomes usable.
\<close>

lemma live_before:
  assumes "G n h h'"
  shows "live_withdraw E f e ctx (h_state h') b \<Longrightarrow> wb_signer b \<in> K \<or> live_withdraw E f e ctx (h_state h) b"
    "live_transfer E g e ctx (h_state h') c \<Longrightarrow> tb_signer c \<in> K \<or> live_transfer E g e ctx (h_state h) c"
  using G_others [OF assms, of "wb_signer b"] G_others [OF assms, of "tb_signer c"]
  by (auto simp: live_withdraw_def live_transfer_def)

lemma live_kept:
  assumes "G n h h'"
  shows "wb_signer ` {b \<in> set ws. live_withdraw E f e ctx (h_state h) b} \<subseteq> K \<Longrightarrow>
      wb_signer ` {b \<in> set ws. live_withdraw E f e ctx (h_state h') b} \<subseteq> K"
    "tb_signer ` {b \<in> set ts. live_transfer E g e ctx (h_state h) b} \<subseteq> K \<Longrightarrow>
      tb_signer ` {b \<in> set ts. live_transfer E g e ctx (h_state h') b} \<subseteq> K"
  unfolding image_subset_iff using live_before [OF assms] by (metis (mono_tags, lifting) mem_Collect_eq)+

text \<open>One batch: the nonce, the fee, the actions, the event.\<close>

lemma batch_guarantee:
  assumes "validate_signature_and_increase_nonce E M message k sig ctx h = Inr h1" "k \<in> K" "G 0 h1 h2" "G n h2 h3"
    and "wallet_log logger ev h3 = Inr h4"
  shows "G (1 + n) h h4"
  using G_trans [OF validate_guarantee [OF assms(1,2)] G_then [OF assms(3) G_log [OF assms(5,4)]]] .

lemma withdraw_ccd_batches_guarantee:
  assumes "wallet_callback_ok (G m) call"
  shows "withdraw_ccd_batches E logger missing call ctx bs h = Inr h' \<Longrightarrow> 
    wb_signer ` {b \<in> set bs. live_withdraw E (we_serial_withdraw_ccd E) ''withdrawCcd'' ctx (h_state h) b} \<subseteq> K \<Longrightarrow> G (withdraw_cost m bs) h h'"
proof (induction bs arbitrary: h)
  case (Cons b bs)
  let ?k = "wb_signer b" and ?m = "wb_message b"
  from Cons.prems obtain h1 h2 h3 h4 where run:
    "validate_signature_and_increase_nonce E (withdraw_is_message (we_serial_withdraw_ccd E)) ?m ?k (wb_signature b) ctx h = Inr h1"
    "state_transfer_ccd logger ?k (wm_service_fee_recipient ?m) (wm_service_fee_amount ?m) h1 = Inr h2"
    "withdraw_ccd_loop logger missing call ?k (wm_simple_withdraws ?m) h2 = Inr h3"
    "wallet_log logger (WalletNonce (wm_nonce ?m) ?k) h3 = Inr h4" "withdraw_ccd_batches E logger missing call ctx bs h4 = Inr h'"
    by (auto simp: try_bind_Inr Let_def)
  have "wm_entry_point ?m = ''withdrawCcd''" using Cons.prems(1) by (simp add: Let_def)
  then have k: "?k \<in> K" using validated_live(1) [OF run(1)] Cons.prems(2) by auto
  have "G (1 + m * length (wm_simple_withdraws ?m)) h h4"
    by (rule batch_guarantee [OF run(1) k state_transfer_ccd_guarantee [OF run(2) k]
          withdraw_ccd_loop_guarantee [OF assms k run(3)] run(4)])
  moreover from this have "wb_signer ` {b \<in> set bs. live_withdraw E (we_serial_withdraw_ccd E) ''withdrawCcd'' ctx (h_state h4) b} \<subseteq> K"
    by (rule live_kept(1)) (use Cons.prems(2) in auto)
  ultimately show ?case using G_trans [OF _ Cons.IH [OF run(5)]] by (fastforce simp: withdraw_cost_def)
qed (simp add: G_same)

lemma withdraw_tokens_batches_guarantee:
  assumes "wallet_callback_ok (G m) call"
  shows "withdraw_tokens_batches E logger call ctx bs h = Inr h' \<Longrightarrow> 
    wb_signer ` {b \<in> set bs. live_withdraw E (we_serial_withdraw_tokens E) ''withdrawCis2Tokens'' ctx (h_state h) b} \<subseteq> K \<Longrightarrow> G (withdraw_cost m bs) h h'"
proof (induction bs arbitrary: h)
  case (Cons b bs)
  let ?k = "wb_signer b" and ?m = "wb_message b"
  from Cons.prems obtain h1 h2 h3 h4 where run:
    "validate_signature_and_increase_nonce E (withdraw_is_message (we_serial_withdraw_tokens E)) ?m ?k (wb_signature b) ctx h = Inr h1"
    "state_transfer_cis2_tokens E logger ?k (wm_service_fee_recipient ?m) (wm_service_fee_amount ?m) h1 = Inr h2"
    "withdraw_tokens_loop logger call (ctx_self_address ctx) ?k (wm_simple_withdraws ?m) h2 = Inr h3"
    "wallet_log logger (WalletNonce (wm_nonce ?m) ?k) h3 = Inr h4" "withdraw_tokens_batches E logger call ctx bs h4 = Inr h'"
    by (auto simp: try_bind_Inr Let_def)
  have "wm_entry_point ?m = ''withdrawCis2Tokens''" using Cons.prems(1) by (simp add: Let_def)
  then have k: "?k \<in> K" using validated_live(1) [OF run(1)] Cons.prems(2) by auto
  have "G (1 + m * length (wm_simple_withdraws ?m)) h h4"
    by (rule batch_guarantee [OF run(1) k state_transfer_cis2_tokens_guarantee [OF run(2) k]
          withdraw_tokens_loop_guarantee [OF assms k run(3)] run(4)])
  moreover from this have "wb_signer ` {b \<in> set bs. live_withdraw E (we_serial_withdraw_tokens E) ''withdrawCis2Tokens'' ctx (h_state h4) b} \<subseteq> K"
    by (rule live_kept(1)) (use Cons.prems(2) in auto)
  ultimately show ?case using G_trans [OF _ Cons.IH [OF run(5)]] by (fastforce simp: withdraw_cost_def)
qed (simp add: G_same)

lemma transfer_ccd_batches_guarantee:
  "transfer_ccd_batches E logger ctx bs h = Inr h' \<Longrightarrow> 
    tb_signer ` {b \<in> set bs. live_transfer E (we_serial_transfer_ccd E) ''transferCcd'' ctx (h_state h) b} \<subseteq> K \<Longrightarrow> G (length bs) h h'"
proof (induction bs arbitrary: h)
  case (Cons b bs)
  let ?k = "tb_signer b" and ?m = "tb_message b"
  from Cons.prems obtain h1 h2 h3 h4 where run:
    "validate_signature_and_increase_nonce E (transfer_is_message (we_serial_transfer_ccd E)) ?m ?k (tb_signature b) ctx h = Inr h1"
    "state_transfer_ccd logger ?k (tm_service_fee_recipient ?m) (tm_service_fee_amount ?m) h1 = Inr h2"
    "transfer_ccd_loop logger ?k (tm_simple_transfers ?m) h2 = Inr h3"
    "wallet_log logger (WalletNonce (tm_nonce ?m) ?k) h3 = Inr h4" "transfer_ccd_batches E logger ctx bs h4 = Inr h'"
    by (auto simp: try_bind_Inr Let_def)
  have "tm_entry_point ?m = ''transferCcd''" using Cons.prems(1) by (simp add: Let_def)
  then have k: "?k \<in> K" using validated_live(2) [OF run(1)] Cons.prems(2) by auto
  have "G (1 + 0) h h4"
    by (rule batch_guarantee [OF run(1) k state_transfer_ccd_guarantee [OF run(2) k]
          transfer_ccd_loop_guarantee [OF run(3) k] run(4)])
  moreover from this have "tb_signer ` {b \<in> set bs. live_transfer E (we_serial_transfer_ccd E) ''transferCcd'' ctx (h_state h4) b} \<subseteq> K"
    by (rule live_kept(2)) (use Cons.prems(2) in auto)
  ultimately show ?case using G_trans [OF _ Cons.IH [OF run(5)]] by fastforce
qed (simp add: G_same)

lemma transfer_tokens_batches_guarantee:
  "transfer_tokens_batches E logger ctx bs h = Inr h' \<Longrightarrow> 
    tb_signer ` {b \<in> set bs. live_transfer E (we_serial_transfer_tokens E) ''transferCis2Tokens'' ctx (h_state h) b} \<subseteq> K \<Longrightarrow> G (length bs) h h'"
proof (induction bs arbitrary: h)
  case (Cons b bs)
  let ?k = "tb_signer b" and ?m = "tb_message b"
  from Cons.prems obtain h1 h2 h3 h4 where run:
    "validate_signature_and_increase_nonce E (transfer_is_message (we_serial_transfer_tokens E)) ?m ?k (tb_signature b) ctx h = Inr h1"
    "state_transfer_cis2_tokens E logger ?k (tm_service_fee_recipient ?m) (tm_service_fee_amount ?m) h1 = Inr h2"
    "transfer_tokens_loop E logger ?k (tm_simple_transfers ?m) h2 = Inr h3"
    "wallet_log logger (WalletNonce (tm_nonce ?m) ?k) h3 = Inr h4" "transfer_tokens_batches E logger ctx bs h4 = Inr h'"
    by (auto simp: try_bind_Inr Let_def)
  have "tm_entry_point ?m = ''transferCis2Tokens''" using Cons.prems(1) by (simp add: Let_def)
  then have k: "?k \<in> K" using validated_live(2) [OF run(1)] Cons.prems(2) by auto
  have "G (1 + 0) h h4"
    by (rule batch_guarantee [OF run(1) k state_transfer_cis2_tokens_guarantee [OF run(2) k]
          transfer_tokens_loop_guarantee [OF run(3) k] run(4)])
  moreover from this have "tb_signer ` {b \<in> set bs. live_transfer E (we_serial_transfer_tokens E) ''transferCis2Tokens'' ctx (h_state h4) b} \<subseteq> K"
    by (rule live_kept(2)) (use Cons.prems(2) in auto)
  ultimately show ?case using G_trans [OF _ Cons.IH [OF run(5)]] by fastforce
qed (simp add: G_same)

lemma withdraw_ccd_guarantee:
  "withdraw_ccd E logger missing call ctx h = Inr h' \<Longrightarrow> ctx_parameter ctx = Some ws \<Longrightarrow> 
   wb_signer ` {b \<in> set ws. live_withdraw E (we_serial_withdraw_ccd E) ''withdrawCcd'' ctx (h_state h) b} \<subseteq> K \<Longrightarrow>
   wallet_callback_ok (G m) call \<Longrightarrow> G (withdraw_cost m ws) h h'"
  by (auto simp: withdraw_ccd_def try_bind_Inr intro: withdraw_ccd_batches_guarantee)

lemma withdraw_cis2_tokens_guarantee:
  "withdraw_cis2_tokens E logger call ctx h = Inr h' \<Longrightarrow> ctx_parameter ctx = Some ws \<Longrightarrow> 
   wb_signer ` {b \<in> set ws. live_withdraw E (we_serial_withdraw_tokens E) ''withdrawCis2Tokens'' ctx (h_state h) b} \<subseteq> K \<Longrightarrow>
   wallet_callback_ok (G m) call \<Longrightarrow> G (withdraw_cost m ws) h h'"
  by (auto simp: withdraw_cis2_tokens_def try_bind_Inr intro: withdraw_tokens_batches_guarantee)

lemma transfer_ccd_guarantee:
  "transfer_ccd E logger ctx h = Inr h' \<Longrightarrow> ctx_parameter ctx = Some ts \<Longrightarrow> 
   tb_signer ` {b \<in> set ts. live_transfer E (we_serial_transfer_ccd E) ''transferCcd'' ctx (h_state h) b} \<subseteq> K \<Longrightarrow> G (length ts) h h'"
  by (auto simp: transfer_ccd_def try_bind_Inr intro: transfer_ccd_batches_guarantee)

lemma transfer_cis2_tokens_guarantee:
  "transfer_cis2_tokens E logger ctx h = Inr h' \<Longrightarrow> ctx_parameter ctx = Some ts \<Longrightarrow> 
   tb_signer ` {b \<in> set ts. live_transfer E (we_serial_transfer_tokens E) ''transferCis2Tokens'' ctx (h_state h) b} \<subseteq> K \<Longrightarrow> G (length ts) h h'"
  by (auto simp: transfer_cis2_tokens_def try_bind_Inr intro: transfer_tokens_batches_guarantee)

lemma set_implementor_guarantee: "wallet_contract_set_implementor ctx h = Inr h' \<Longrightarrow> G 0 h h'"
  by (auto simp: wallet_contract_set_implementor_def try_bind_Inr intro: G_implementors)

lemma callback_guarantee:
  "wallet_callback_ok (\<lambda>x y. wallet_steps E K C m x y \<and> G m x y) call \<Longrightarrow> wallet_callback_ok (G m) call"
  unfolding wallet_callback_ok_def by blast

theorem wallet_steps_guarantee: "wallet_steps E K C n h h' \<Longrightarrow> G n h h'"
proof (induction rule: wallet_steps.induct)
  case (start n h)
  show ?case by (rule G_same) simp_all
next
  case (step_deposit_ccd n h h1 amount logger dctx h2)
  then show ?case by (blast intro: G_step deposit_ccd_guarantee)
next
  case (step_deposit_tokens n h h1 tctx logger h2)
  then show ?case by (blast intro: G_step G_receive deposit_cis2_tokens_guarantee)
next
  case (step_withdraw_ccd n h h1 wctx ws m call logger missing h2)
  then have "G (withdraw_cost m ws) (receive_amount 0 h1) h2"
    by (intro withdraw_ccd_guarantee callback_guarantee) simp_all
  then have "G (withdraw_cost m ws) h1 h2" by (rule G_receive)
  with step_withdraw_ccd.IH(1) show ?case by (rule G_trans)
next
  case (step_withdraw_tokens n h h1 vctx vs m call logger h2)
  then have "G (withdraw_cost m vs) (receive_amount 0 h1) h2"
    by (intro withdraw_cis2_tokens_guarantee callback_guarantee) simp_all
  then have "G (withdraw_cost m vs) h1 h2" by (rule G_receive)
  with step_withdraw_tokens.IH(1) show ?case by (rule G_trans)
next
  case (step_transfer_ccd n h h1 cctx ts logger h2)
  then have "G (length ts) (receive_amount 0 h1) h2" by (intro transfer_ccd_guarantee) simp_all
  then have "G (length ts) h1 h2" by (rule G_receive)
  with step_transfer_ccd.IH show ?case by (rule G_trans)
next
  case (step_transfer_tokens n h h1 uctx us logger h2)
  then have "G (length us) (receive_amount 0 h1) h2" by (intro transfer_cis2_tokens_guarantee) simp_all
  then have "G (length us) h1 h2" by (rule G_receive)
  with step_transfer_tokens.IH show ?case by (rule G_trans)
next
  case (step_set_implementor n h h1 ictx h2)
  then show ?case by (blast intro: G_step G_receive set_implementor_guarantee)
qed

end

text \<open>Who signed what matters for the holdings of the keys only.\<close>

lemma wallet_steps_any: "wallet_steps E K C n h h' \<Longrightarrow> wallet_steps E UNIV C n h h'"
proof (induction rule: wallet_steps.induct)
  case (start n h)
  show ?case by (rule wallet_steps.start)
next
  case (step_deposit_ccd n h h1 amount logger dctx h2)
  from step_deposit_ccd.IH step_deposit_ccd.hyps(2,3) show ?case by (rule wallet_steps.step_deposit_ccd)
next
  case (step_deposit_tokens n h h1 tctx logger h2)
  from step_deposit_tokens.IH step_deposit_tokens.hyps(2,3) show ?case by (rule wallet_steps.step_deposit_tokens)
next
  case (step_withdraw_ccd n h h1 wctx ws m call logger missing h2)
  have "wallet_callback_ok (wallet_steps E UNIV C m) call"
    using step_withdraw_ccd.IH(2) unfolding wallet_callback_ok_def by blast
  from wallet_steps.step_withdraw_ccd [OF step_withdraw_ccd.IH(1) step_withdraw_ccd.hyps(2) subset_UNIV this step_withdraw_ccd.hyps(4)]
  show ?case .
next
  case (step_withdraw_tokens n h h1 vctx vs m call logger h2)
  have "wallet_callback_ok (wallet_steps E UNIV C m) call"
    using step_withdraw_tokens.IH(2) unfolding wallet_callback_ok_def by blast
  from wallet_steps.step_withdraw_tokens [OF step_withdraw_tokens.IH(1) step_withdraw_tokens.hyps(2) subset_UNIV this
      step_withdraw_tokens.hyps(4)] show ?case .
next
  case (step_transfer_ccd n h h1 cctx ts logger h2)
  from wallet_steps.step_transfer_ccd [OF step_transfer_ccd.IH step_transfer_ccd.hyps(2) subset_UNIV step_transfer_ccd.hyps(4)]
  show ?case .
next
  case (step_transfer_tokens n h h1 uctx us logger h2)
  from wallet_steps.step_transfer_tokens [OF step_transfer_tokens.IH step_transfer_tokens.hyps(2) subset_UNIV
      step_transfer_tokens.hyps(4)] show ?case .
next
  case (step_set_implementor n h h1 ictx h2)
  from step_set_implementor.IH step_set_implementor.hyps(2) show ?case by (rule wallet_steps.step_set_implementor)
qed

section \<open>The funds\<close>

definition ccd_total :: "wallet_state \<Rightarrow> nat" where
  "ccd_total st = total unat (wl_ccd_balances st)"

definition funded :: "wallet_host \<Rightarrow> bool" where
  "funded h \<longleftrightarrow> finite (dom (wl_ccd_balances (h_state h))) \<and> ccd_total (h_state h) = unat (h_balance h)"

lemma ccd_total_upd:
  assumes "finite (dom (wl_ccd_balances st))"
  shows "ccd_total (st\<lparr>wl_ccd_balances := (wl_ccd_balances st)(k \<mapsto> v)\<rparr>) + unat (balance_ccd st k) = ccd_total st + unat v"
proof -
  have "at_key unat (wl_ccd_balances st) k = unat (balance_ccd st k)"
    by (simp add: at_key_def balance_ccd_def split: option.split)
  then show ?thesis using total_upd [OF assms, of unat k v] by (simp add: ccd_total_def)
qed

lemma unat_add_64: "unat (x :: u64) + unat y < 2 ^ 64 \<Longrightarrow> unat (x + y) = unat x + unat y"
  by (simp add: unat_word_ariths)

lemma credit_ccd_total:
  assumes "credit_ccd k amount st = Inr st'" "finite (dom (wl_ccd_balances st))"
  shows "finite (dom (wl_ccd_balances st'))" "ccd_total st' = ccd_total st + unat amount"
  using assms ccd_total_upd [OF assms(2), of k "balance_ccd st k + amount"]
  by (auto simp: credit_ccd_run unat_add_64)

lemma debit_ccd_total:
  assumes "debit_ccd k amount st = Inr st'" "finite (dom (wl_ccd_balances st))"
  shows "finite (dom (wl_ccd_balances st'))" "ccd_total st' + unat amount = ccd_total st"
proof -
  obtain b where b: "wl_ccd_balances st k = Some b" "amount \<le> b"
    and st': "st' = st\<lparr>wl_ccd_balances := (wl_ccd_balances st)(k \<mapsto> b - amount)\<rparr>"
    using assms(1) by (auto simp: debit_ccd_run)
  show "finite (dom (wl_ccd_balances st'))" using assms(2) by (simp add: st')
  have "unat (b - amount) + unat amount = unat b" using b(2) by (simp add: unat_sub word_le_nat_alt)
  then show "ccd_total st' + unat amount = ccd_total st"
    using ccd_total_upd [OF assms(2), of k "b - amount"] b(1) by (simp add: st' balance_ccd_def)
qed

lemma tokens_funds:
  "debit_tokens k ta st = Inr st' \<Longrightarrow> wl_ccd_balances st' = wl_ccd_balances st"
  "credit_tokens E k ta st = Inr st' \<Longrightarrow> wl_ccd_balances st' = wl_ccd_balances st"
  by (auto simp: debit_tokens_run credit_tokens_run)

lemma other_funds [simp]:
  "wl_ccd_balances (increase_nonce k st) = wl_ccd_balances st"
  "wl_ccd_balances (wallet_set_implementors st std_id as) = wl_ccd_balances st"
  by (simp_all add: increase_nonce_def wallet_set_implementors_def)

interpretation funds: wallet_guarantee E UNIV C "\<lambda>n h h'. funded h \<longrightarrow> funded h'" for E C
proof (unfold_locales, goal_cases)
  case (3 h amount k st)
  then show ?case by (auto simp: funded_def credit_ccd_total unat_add_64)
next
  case (6 k amount h st to st')
  then show ?case by (auto simp: funded_def debit_ccd_total(1) credit_ccd_total debit_ccd_total(2) [symmetric])
next
  case (7 k ta h st to st')
  then show ?case using tokens_funds by (simp add: funded_def ccd_total_def)
next
  case (8 k amount h st)
  then show ?case using debit_ccd_total [of k amount "h_state h" st] by (auto simp: funded_def unat_sub)
qed (auto simp: funded_def ccd_total_def dest!: tokens_funds)

section \<open>The holdings of a key\<close>

text \<open>No key outside \<open>K\<close> loses CCD or tokens, and its nonce stays.\<close>

definition kept :: "wallet_key set \<Rightarrow> wallet_state \<Rightarrow> wallet_state \<Rightarrow> bool" where
  "kept K st st' \<longleftrightarrow> (\<forall>k. k \<notin> K \<longrightarrow> balance_ccd st k \<le> balance_ccd st' k \<and>
     (\<forall>t c. balance_tokens st t c k \<le> balance_tokens st' t c k) \<and> wallet_nonce st' k = wallet_nonce st k)"

lemma kept_refl [simp]: "kept K st st"
  by (simp add: kept_def)

lemma kept_trans: "kept K st st' \<Longrightarrow> kept K st' st'' \<Longrightarrow> kept K st st''"
  by (fastforce simp: kept_def intro: order_trans)

lemma word_le_add: "unat (x :: u64) + unat y < 2 ^ 64 \<Longrightarrow> x \<le> x + y"
  by (simp add: word_le_nat_alt unat_add_64)

lemma kept_credit:
  "credit_ccd k amount st = Inr st' \<Longrightarrow> kept K st st'"
  "credit_tokens E k ta st = Inr st' \<Longrightarrow> kept K st st'"
  by (auto simp: credit_ccd_run credit_tokens_run kept_def balance_ccd_def balance_tokens_def wallet_nonce_def intro: word_le_add)

lemma kept_debit:
  "debit_ccd k amount st = Inr st' \<Longrightarrow> k \<in> K \<Longrightarrow> kept K st st'"
  "debit_tokens k ta st = Inr st' \<Longrightarrow> k \<in> K \<Longrightarrow> kept K st st'"
  by (auto simp: debit_ccd_run debit_tokens_run kept_def balance_ccd_def balance_tokens_def wallet_nonce_def)

lemma kept_other:
  "k \<in> K \<Longrightarrow> kept K st (increase_nonce k st)" "kept K st (wallet_set_implementors st std_id as)"
  by (auto simp: kept_def increase_nonce_def wallet_set_implementors_def balance_ccd_def balance_tokens_def wallet_nonce_def)

interpretation holders: wallet_guarantee E K C "\<lambda>n h h'. kept K (h_state h) (h_state h')" for E K C
proof (unfold_locales, goal_cases)
  case (11 n h h' k)
  then show ?case by (simp add: kept_def)
qed (auto intro: kept_trans kept_credit kept_debit kept_other)

section \<open>Nonces\<close>

text \<open>The nonce of a key advances by at most the number of batches.\<close>

definition advanced :: "nat \<Rightarrow> wallet_state \<Rightarrow> wallet_state \<Rightarrow> bool" where
  "advanced n st st' \<longleftrightarrow> (\<forall>k. \<exists>j \<le> n. wallet_nonce st' k = wallet_nonce st k + of_nat j)"

lemma advanced_same: "wl_nonces_registry st' = wl_nonces_registry st \<Longrightarrow> advanced n st st'"
  by (auto simp: advanced_def wallet_nonce_def intro!: exI [of _ 0])

lemma advanced_trans:
  assumes "advanced n st st'" "advanced m st' st''"
  shows "advanced (n + m) st st''"
  unfolding advanced_def
proof
  fix k
  obtain i j where "i \<le> n" "wallet_nonce st' k = wallet_nonce st k + of_nat i" "j \<le> m"
    "wallet_nonce st'' k = wallet_nonce st' k + of_nat j" using assms unfolding advanced_def by blast
  then show "\<exists>j \<le> n + m. wallet_nonce st'' k = wallet_nonce st k + of_nat j"
    by (intro exI [of _ "i + j"]) simp
qed

lemma wallet_nonce_increase [simp]:
  "wallet_nonce (increase_nonce k st) l = (if l = k then wallet_nonce st k + 1 else wallet_nonce st l)"
  by (simp add: increase_nonce_def wallet_nonce_def)

lemma advanced_increase: "advanced 1 st (increase_nonce k st)"
  unfolding advanced_def by (auto intro: exI [of _ 1] exI [of _ 0])

lemma balances_nonces:
  "debit_ccd k amount st = Inr st' \<Longrightarrow> wl_nonces_registry st' = wl_nonces_registry st"
  "credit_ccd k amount st = Inr st' \<Longrightarrow> wl_nonces_registry st' = wl_nonces_registry st"
  "debit_tokens k ta st = Inr st' \<Longrightarrow> wl_nonces_registry st' = wl_nonces_registry st"
  "credit_tokens E k ta st = Inr st' \<Longrightarrow> wl_nonces_registry st' = wl_nonces_registry st"
  by (auto simp: debit_ccd_run credit_ccd_run debit_tokens_run credit_tokens_run)

interpretation nonces: wallet_guarantee E UNIV C "\<lambda>n h h'. advanced n (h_state h) (h_state h')" for E C
proof (unfold_locales, goal_cases)
  case (2 n h h' m h'')
  then show ?case by (rule advanced_trans)
next
  case (5 k h)
  show ?case using advanced_increase [of "h_state h" k] by simp
qed (auto intro!: advanced_same simp: wallet_set_implementors_def dest!: balances_nonces)

section \<open>Tokens in circulation\<close>

text \<open>What all keys together hold of a token.\<close>

definition holdings :: "wallet_state \<Rightarrow> contract_address \<Rightarrow> bytes \<Rightarrow> wallet_key \<rightharpoonup> u256" where
  "holdings st c t = (\<lambda>k. wl_token_balances st (c, t, k))"

definition token_total :: "wallet_state \<Rightarrow> contract_address \<Rightarrow> bytes \<Rightarrow> nat" where
  "token_total st c t = total unat (holdings st c t)"

definition finite_holdings :: "wallet_state \<Rightarrow> bool" where
  "finite_holdings st \<longleftrightarrow> (\<forall>c t. finite (dom (holdings st c t)))"

text \<open>The addition returns nothing but the sum, if it does not panic.\<close>

definition u256_add_ok :: "wallet_env \<Rightarrow> bool" where
  "u256_add_ok E \<longleftrightarrow> (\<forall>x y s. we_u256_add E x y = Some s \<longrightarrow> s = x + y)"

lemma holdings_upd [simp]:
  "holdings (st\<lparr>wl_token_balances := (wl_token_balances st)((c', t', k) \<mapsto> v)\<rparr>) c t =
     (if c = c' \<and> t = t' then (holdings st c t)(k \<mapsto> v) else holdings st c t)"
  by (auto simp: holdings_def)

lemma finite_holdings_upd:
  "finite_holdings st \<Longrightarrow> finite_holdings (st\<lparr>wl_token_balances := (wl_token_balances st)((c, t, k) \<mapsto> v)\<rparr>)"
  by (simp add: finite_holdings_def)

lemma token_total_upd:
  assumes "finite_holdings st"
  shows "token_total (st\<lparr>wl_token_balances := (wl_token_balances st)((c, t, k) \<mapsto> v)\<rparr>) c t + unat (balance_tokens st t c k)
    = token_total st c t + unat v"
proof -
  have "at_key unat (holdings st c t) k = unat (balance_tokens st t c k)"
    by (simp add: at_key_def holdings_def balance_tokens_def split: option.split)
  then show ?thesis using total_upd [of "holdings st c t" unat k v] assms by (simp add: token_total_def finite_holdings_def)
qed

lemma token_total_other:
  "(c, t) \<noteq> (c', t') \<Longrightarrow>
   token_total (st\<lparr>wl_token_balances := (wl_token_balances st)((c', t', k) \<mapsto> v)\<rparr>) c t = token_total st c t"
  by (auto simp: token_total_def)

lemma debit_tokens_total:
  assumes "debit_tokens k ta st = Inr st'" "finite_holdings st"
  shows "finite_holdings st'"
    "token_total st' c t + (if c = ta_cis2_token_contract_address ta \<and> t = ta_token_id ta then unat (ta_token_amount ta) else 0) =
       token_total st c t"
proof -
  let ?c = "ta_cis2_token_contract_address ta" and ?t = "ta_token_id ta"
  obtain b where b: "wl_token_balances st (?c, ?t, k) = Some b" "ta_token_amount ta \<le> b"
    and st': "st' = st\<lparr>wl_token_balances := (wl_token_balances st)((?c, ?t, k) \<mapsto> b - ta_token_amount ta)\<rparr>"
    using assms(1) by (auto simp: debit_tokens_run)
  show "finite_holdings st'" using finite_holdings_upd [OF assms(2)] by (simp add: st')
  have "unat (b - ta_token_amount ta) + unat (ta_token_amount ta) = unat b"
    using b(2) by (simp add: unat_sub word_le_nat_alt)
  then have "token_total st' ?c ?t + unat (ta_token_amount ta) = token_total st ?c ?t"
    using token_total_upd [OF assms(2), of ?c ?t k "b - ta_token_amount ta"] b(1) by (simp add: st' balance_tokens_def)
  then show "token_total st' c t + (if c = ?c \<and> t = ?t then unat (ta_token_amount ta) else 0) = token_total st c t"
    using token_total_other [of c t ?c ?t st k] by (auto simp: st')
qed

lemma credit_tokens_total:
  assumes "credit_tokens E k ta st = Inr st'" "finite_holdings st" "u256_add_ok E"
  shows "finite_holdings st'"
    "token_total st' c t =
       token_total st c t + (if c = ta_cis2_token_contract_address ta \<and> t = ta_token_id ta then unat (ta_token_amount ta) else 0)"
proof -
  let ?c = "ta_cis2_token_contract_address ta" and ?t = "ta_token_id ta"
  let ?b = "balance_tokens st ?t ?c k"
  have sum: "?b \<le> ?b + ta_token_amount ta"
    and st': "st' = st\<lparr>wl_token_balances := (wl_token_balances st)((?c, ?t, k) \<mapsto> ?b + ta_token_amount ta)\<rparr>"
    using assms(1,3) by (auto simp: credit_tokens_run u256_add_ok_def)
  show "finite_holdings st'" unfolding st' by (rule finite_holdings_upd [OF assms(2)])
  have "unat (?b + ta_token_amount ta) = unat ?b + unat (ta_token_amount ta)"
    using sum no_olen_add_nat [of ?b "ta_token_amount ta"] unat_add_lem [of ?b "ta_token_amount ta"] by blast
  then have "token_total st' ?c ?t = token_total st ?c ?t + unat (ta_token_amount ta)"
    using token_total_upd [OF assms(2), of ?c ?t k "?b + ta_token_amount ta"] by (simp add: st')
  then show "token_total st' c t = token_total st c t + (if c = ?c \<and> t = ?t then unat (ta_token_amount ta) else 0)"
    using token_total_other [of c t ?c ?t st k] by (auto simp: st')
qed

text \<open>Without deposits of a token contract its tokens do not become more.\<close>

definition circulates :: "wallet_env \<Rightarrow> contract_address set \<Rightarrow> wallet_state \<Rightarrow> wallet_state \<Rightarrow> bool" where
  "circulates E C st st' \<longleftrightarrow> (u256_add_ok E \<longrightarrow> finite_holdings st \<longrightarrow>
     finite_holdings st' \<and> (\<forall>c t. c \<notin> C \<longrightarrow> token_total st' c t \<le> token_total st c t))"

lemma circulates_same: "wl_token_balances st' = wl_token_balances st \<Longrightarrow> circulates E C st st'"
  by (simp add: circulates_def token_total_def finite_holdings_def holdings_def)

lemma circulates_trans: "circulates E C st st' \<Longrightarrow> circulates E C st' st'' \<Longrightarrow> circulates E C st st''"
  unfolding circulates_def by (meson order_trans)

lemma ccd_tokens:
  "debit_ccd k amount st = Inr st' \<Longrightarrow> wl_token_balances st' = wl_token_balances st"
  "credit_ccd k amount st = Inr st' \<Longrightarrow> wl_token_balances st' = wl_token_balances st"
  by (auto simp: debit_ccd_run credit_ccd_run)

lemma circulates_deposit:
  assumes "credit_tokens E k ta st = Inr st'" "ta_cis2_token_contract_address ta \<in> C"
  shows "circulates E C st st'"
  using credit_tokens_total [OF assms(1)] assms(2) by (auto simp: circulates_def)

lemma circulates_withdraw: "debit_tokens k ta st = Inr st' \<Longrightarrow> circulates E C st st'"
  unfolding circulates_def using debit_tokens_total by (metis le_add1)

lemma circulates_transfer:
  assumes "debit_tokens k ta st = Inr st'" "credit_tokens E to ta st' = Inr st''"
  shows "circulates E C st st''"
proof -
  have "finite_holdings st'' \<and> token_total st'' c t = token_total st c t" if "u256_add_ok E" "finite_holdings st" for c t
    using debit_tokens_total(1) [OF assms(1) that(2)] debit_tokens_total(2) [OF assms(1) that(2), of c t]
      credit_tokens_total(1) [OF assms(2) _ that(1)] credit_tokens_total(2) [OF assms(2) _ that(1), of c t] by simp
  then show ?thesis by (simp add: circulates_def)
qed

interpretation tokens: wallet_guarantee E UNIV C "\<lambda>n h h'. circulates E C (h_state h) (h_state h')" for E C
proof (unfold_locales, goal_cases)
  case (2 n h h' m h'')
  then show ?case by (rule circulates_trans)
qed (auto intro: circulates_same circulates_deposit circulates_withdraw circulates_transfer
    simp: wallet_set_implementors_def increase_nonce_def dest!: ccd_tokens)

section \<open>Used nonces\<close>

text \<open>The calls with signed batches, as one type.\<close>

datatype signed_call =
    SignedWithdrawCcd "u64 withdraw_batch list receive_context"
  | SignedWithdrawTokens "token_amount withdraw_batch list receive_context"
  | SignedTransferCcd "u64 transfer_batch list receive_context"
  | SignedTransferTokens "token_amount transfer_batch list receive_context"

fun run_signed ::
    "wallet_env \<Rightarrow> wallet_event logger \<Rightarrow> (account_address \<Rightarrow> bool) \<Rightarrow> wallet_call \<Rightarrow> signed_call \<Rightarrow> wallet_host \<Rightarrow>
     wallet_failure + wallet_host" where
  "run_signed E logger missing call (SignedWithdrawCcd ctx) h = withdraw_ccd E logger missing call ctx h"
| "run_signed E logger missing call (SignedWithdrawTokens ctx) h = withdraw_cis2_tokens E logger call ctx h"
| "run_signed E logger missing call (SignedTransferCcd ctx) h = transfer_ccd E logger ctx h"
| "run_signed E logger missing call (SignedTransferTokens ctx) h = transfer_cis2_tokens E logger ctx h"

text \<open>The signers of a call with the nonces they signed, and a bound on the batches it processes.\<close>

definition parameter_list :: "'b list receive_context \<Rightarrow> 'b list" where
  "parameter_list ctx = (case ctx_parameter ctx of None \<Rightarrow> [] | Some bs \<Rightarrow> bs)"

fun signed_nonces :: "signed_call \<Rightarrow> (wallet_key \<times> u64) set" where
  "signed_nonces (SignedWithdrawCcd ctx) = (\<lambda>b. (wb_signer b, wm_nonce (wb_message b))) ` set (parameter_list ctx)"
| "signed_nonces (SignedWithdrawTokens ctx) = (\<lambda>b. (wb_signer b, wm_nonce (wb_message b))) ` set (parameter_list ctx)"
| "signed_nonces (SignedTransferCcd ctx) = (\<lambda>b. (tb_signer b, tm_nonce (tb_message b))) ` set (parameter_list ctx)"
| "signed_nonces (SignedTransferTokens ctx) = (\<lambda>b. (tb_signer b, tm_nonce (tb_message b))) ` set (parameter_list ctx)"

fun signed_cost :: "nat \<Rightarrow> signed_call \<Rightarrow> nat" where
  "signed_cost m (SignedWithdrawCcd ctx) = withdraw_cost m (parameter_list ctx)"
| "signed_cost m (SignedWithdrawTokens ctx) = withdraw_cost m (parameter_list ctx)"
| "signed_cost m (SignedTransferCcd ctx) = length (parameter_list ctx)"
| "signed_cost m (SignedTransferTokens ctx) = length (parameter_list ctx)"

text \<open>Between two states a nonce of a key was current and was passed.\<close>

definition used :: "wallet_key \<Rightarrow> u64 \<Rightarrow> nat \<Rightarrow> wallet_state \<Rightarrow> wallet_state \<Rightarrow> bool" where
  "used k nonce n st st' \<longleftrightarrow> (\<exists>i j. i + 1 + j \<le> n \<and> nonce = wallet_nonce st k + of_nat i \<and>
     wallet_nonce st' k = nonce + 1 + of_nat j)"

lemma used_before:
  assumes "advanced m st st'" "used k nonce n st' st''"
  shows "used k nonce (m + n) st st''"
proof -
  obtain a where "a \<le> m" "wallet_nonce st' k = wallet_nonce st k + of_nat a" using assms(1) unfolding advanced_def by blast
  moreover obtain i j where "i + 1 + j \<le> n" "nonce = wallet_nonce st' k + of_nat i" "wallet_nonce st'' k = nonce + 1 + of_nat j"
    using assms(2) unfolding used_def by blast
  ultimately show ?thesis unfolding used_def by (intro exI [of _ "a + i"] exI [of _ j]) simp
qed

lemma used_after:
  assumes "used k nonce n st st'" "advanced m st' st''"
  shows "used k nonce (n + m) st st''"
proof -
  obtain a where "a \<le> m" "wallet_nonce st'' k = wallet_nonce st' k + of_nat a" using assms(2) unfolding advanced_def by blast
  moreover obtain i j where "i + 1 + j \<le> n" "nonce = wallet_nonce st k + of_nat i" "wallet_nonce st' k = nonce + 1 + of_nat j"
    using assms(1) unfolding used_def by blast
  ultimately show ?thesis unfolding used_def by (intro exI [of _ i] exI [of _ "j + a"]) simp
qed

lemma used_validate:
  "validate_signature_and_increase_nonce E M message k sig ctx h = Inr h' \<Longrightarrow> used k (im_nonce M message) 1 (h_state h) (h_state h')"
  using validate_run(1,2) [of E M message k sig ctx h h'] by (auto simp: used_def intro!: exI [of _ 0])

text \<open>A nonce is not used twice within \<open>2 ^ 64\<close> batches.\<close>

lemma used_once:
  assumes "used k nonce n st st1" "advanced m st1 st2" "used k nonce n' st2 st3" "n + m + n' < 2 ^ 64"
  shows False
proof -
  obtain i where i: "i \<le> n + m" "wallet_nonce st2 k = nonce + 1 + of_nat i"
    using used_after [OF assms(1,2)] unfolding used_def by (meson add_leD2)
  obtain j where j: "j + 1 \<le> n'" "nonce = wallet_nonce st2 k + of_nat j"
    using assms(3) unfolding used_def by (metis add_leD1)
  have "(of_nat (i + j + 1) :: u64) = 0" using i(2) j(2) by (simp add: algebra_simps)
  moreover have "unat (of_nat (i + j + 1) :: u64) = i + j + 1"
    using i(1) j(1) assms(4) by (simp add: unat_of_nat del: of_nat_Suc of_nat_add)
  ultimately show False by (metis add_is_0 one_neq_zero unat_0)
qed

lemma log_advanced: "wallet_log logger ev h = Inr h' \<Longrightarrow> advanced n (h_state h') st \<Longrightarrow> advanced n (h_state h) st"
  by (auto dest: wallet_log_Inr)

text \<open>A batch uses its nonce; what follows in it only advances nonces.\<close>

lemma used_batch:
  assumes "validate_signature_and_increase_nonce E M message k sig ctx h = Inr h1" "advanced 0 (h_state h1) (h_state h2)"
    and "advanced n (h_state h2) (h_state h3)" "wallet_log logger ev h3 = Inr h4"
  shows "used k (im_nonce M message) (1 + n) (h_state h) (h_state h4)" "advanced (1 + n) (h_state h) (h_state h4)"
proof -
  have adv: "advanced n (h_state h1) (h_state h4)"
    using advanced_trans [OF assms(2,3)] wallet_log_Inr [OF assms(4)] by simp
  show "used k (im_nonce M message) (1 + n) (h_state h) (h_state h4)"
    by (rule used_after [OF used_validate [OF assms(1)] adv])
  show "advanced (1 + n) (h_state h) (h_state h4)"
    by (rule advanced_trans [OF nonces.validate_guarantee [OF assms(1)] adv]) simp
qed

text \<open>A list of batches, each of which uses its nonce.\<close>

lemma batches_used:
  assumes "run bs h = Inr h'" "b \<in> set bs" "\<And>h. run [] h = Inr h"
    and step: "\<And>x xs h h'. run (x # xs) h = Inr h' \<Longrightarrow>
      \<exists>h1. used (key x) (nonce x) (cost x) (h_state h) (h_state h1) \<and> advanced (cost x) (h_state h) (h_state h1) \<and>
        run xs h1 = Inr (h' :: wallet_host)"
  shows "used (key b) (nonce b) (\<Sum>x\<leftarrow>bs. cost x) (h_state h) (h_state h')"
proof -
  have adv: "run xs g = Inr h' \<Longrightarrow> advanced (\<Sum>x\<leftarrow>xs. cost x) (h_state g) (h_state h')" for xs g
  proof (induction xs arbitrary: g)
    case Nil
    then show ?case using assms(3) by (simp add: advanced_same)
  next
    case (Cons x xs)
    from step [OF Cons.prems] obtain h1 where "advanced (cost x) (h_state g) (h_state h1)" "run xs h1 = Inr h'" by blast
    from advanced_trans [OF this(1) Cons.IH [OF this(2)]] show ?case by simp
  qed
  show ?thesis using assms(1,2)
  proof (induction bs arbitrary: h)
    case (Cons x xs)
    from step [OF Cons.prems(1)] obtain h1 where x: "used (key x) (nonce x) (cost x) (h_state h) (h_state h1)"
      "advanced (cost x) (h_state h) (h_state h1)" "run xs h1 = Inr h'" by blast
    then show ?case
      using used_before [OF x(2) Cons.IH [OF x(3)]] used_after [OF x(1) adv [OF x(3)]] Cons.prems(2) by auto
  qed simp
qed

lemma callback_advanced:
  "wallet_callback_ok (wallet_steps E UNIV UNIV m) call \<Longrightarrow> wallet_callback_ok (\<lambda>x y. advanced m (h_state x) (h_state y)) call"
  using nonces.wallet_steps_guarantee [of E UNIV m] unfolding wallet_callback_ok_def by blast

lemma withdraw_ccd_batches_used:
  assumes call: "wallet_callback_ok (wallet_steps E UNIV UNIV m) call"
    and "withdraw_ccd_batches E logger missing call ctx bs h = Inr h'" "b \<in> set bs"
  shows "used (wb_signer b) (wm_nonce (wb_message b)) (withdraw_cost m bs) (h_state h) (h_state h')"
  unfolding withdraw_cost_def using assms(2,3)
proof (rule batches_used, goal_cases)
  case (2 x xs h h')
  let ?k = "wb_signer x" and ?m = "wb_message x"
  from 2 obtain h1 h2 h3 h4 where run:
    "validate_signature_and_increase_nonce E (withdraw_is_message (we_serial_withdraw_ccd E)) ?m ?k (wb_signature x) ctx h = Inr h1"
    "state_transfer_ccd logger ?k (wm_service_fee_recipient ?m) (wm_service_fee_amount ?m) h1 = Inr h2"
    "withdraw_ccd_loop logger missing call ?k (wm_simple_withdraws ?m) h2 = Inr h3"
    "wallet_log logger (WalletNonce (wm_nonce ?m) ?k) h3 = Inr h4" "withdraw_ccd_batches E logger missing call ctx xs h4 = Inr h'"
    by (auto simp: try_bind_Inr Let_def)
  from used_batch [OF run(1) nonces.state_transfer_ccd_guarantee [OF run(2), simplified]
      nonces.withdraw_ccd_loop_guarantee [OF callback_advanced [OF call] _ run(3), simplified] run(4)]
  show ?case using run(5) by (auto simp: withdraw_is_message_def)
qed simp

lemma withdraw_tokens_batches_used:
  assumes call: "wallet_callback_ok (wallet_steps E UNIV UNIV m) call"
    and "withdraw_tokens_batches E logger call ctx bs h = Inr h'" "b \<in> set bs"
  shows "used (wb_signer b) (wm_nonce (wb_message b)) (withdraw_cost m bs) (h_state h) (h_state h')"
  unfolding withdraw_cost_def using assms(2,3)
proof (rule batches_used, goal_cases)
  case (2 x xs h h')
  let ?k = "wb_signer x" and ?m = "wb_message x"
  from 2 obtain h1 h2 h3 h4 where run:
    "validate_signature_and_increase_nonce E (withdraw_is_message (we_serial_withdraw_tokens E)) ?m ?k (wb_signature x) ctx h = Inr h1"
    "state_transfer_cis2_tokens E logger ?k (wm_service_fee_recipient ?m) (wm_service_fee_amount ?m) h1 = Inr h2"
    "withdraw_tokens_loop logger call (ctx_self_address ctx) ?k (wm_simple_withdraws ?m) h2 = Inr h3"
    "wallet_log logger (WalletNonce (wm_nonce ?m) ?k) h3 = Inr h4" "withdraw_tokens_batches E logger call ctx xs h4 = Inr h'"
    by (auto simp: try_bind_Inr Let_def)
  from used_batch [OF run(1) nonces.state_transfer_cis2_tokens_guarantee [OF run(2), simplified]
      nonces.withdraw_tokens_loop_guarantee [OF callback_advanced [OF call] _ run(3), simplified] run(4)]
  show ?case using run(5) by (auto simp: withdraw_is_message_def)
qed simp

lemma transfer_ccd_batches_used:
  assumes "transfer_ccd_batches E logger ctx bs h = Inr h'" "b \<in> set bs"
  shows "used (tb_signer b) (tm_nonce (tb_message b)) (\<Sum>x\<leftarrow>bs. 1) (h_state h) (h_state h')"
  using assms
proof (rule batches_used, goal_cases)
  case (2 x xs h h')
  let ?k = "tb_signer x" and ?m = "tb_message x"
  from 2 obtain h1 h2 h3 h4 where run:
    "validate_signature_and_increase_nonce E (transfer_is_message (we_serial_transfer_ccd E)) ?m ?k (tb_signature x) ctx h = Inr h1"
    "state_transfer_ccd logger ?k (tm_service_fee_recipient ?m) (tm_service_fee_amount ?m) h1 = Inr h2"
    "transfer_ccd_loop logger ?k (tm_simple_transfers ?m) h2 = Inr h3"
    "wallet_log logger (WalletNonce (tm_nonce ?m) ?k) h3 = Inr h4" "transfer_ccd_batches E logger ctx xs h4 = Inr h'"
    by (auto simp: try_bind_Inr Let_def)
  from used_batch [OF run(1) nonces.state_transfer_ccd_guarantee [OF run(2), simplified]
      nonces.transfer_ccd_loop_guarantee [OF run(3), simplified] run(4)]
  show ?case using run(5) by (auto simp: transfer_is_message_def)
qed simp

lemma transfer_tokens_batches_used:
  assumes "transfer_tokens_batches E logger ctx bs h = Inr h'" "b \<in> set bs"
  shows "used (tb_signer b) (tm_nonce (tb_message b)) (\<Sum>x\<leftarrow>bs. 1) (h_state h) (h_state h')"
  using assms
proof (rule batches_used, goal_cases)
  case (2 x xs h h')
  let ?k = "tb_signer x" and ?m = "tb_message x"
  from 2 obtain h1 h2 h3 h4 where run:
    "validate_signature_and_increase_nonce E (transfer_is_message (we_serial_transfer_tokens E)) ?m ?k (tb_signature x) ctx h = Inr h1"
    "state_transfer_cis2_tokens E logger ?k (tm_service_fee_recipient ?m) (tm_service_fee_amount ?m) h1 = Inr h2"
    "transfer_tokens_loop E logger ?k (tm_simple_transfers ?m) h2 = Inr h3"
    "wallet_log logger (WalletNonce (tm_nonce ?m) ?k) h3 = Inr h4" "transfer_tokens_batches E logger ctx xs h4 = Inr h'"
    by (auto simp: try_bind_Inr Let_def)
  from used_batch [OF run(1) nonces.state_transfer_cis2_tokens_guarantee [OF run(2), simplified]
      nonces.transfer_tokens_loop_guarantee [OF run(3), simplified] run(4)]
  show ?case using run(5) by (auto simp: transfer_is_message_def)
qed simp

lemma run_signed_used:
  assumes "run_signed E logger missing call c h = Inr h'" "(k, nonce) \<in> signed_nonces c"
    and "wallet_callback_ok (wallet_steps E UNIV UNIV m) call"
  shows "used k nonce (signed_cost m c) (h_state h) (h_state h')"
proof (cases c)
  case (SignedWithdrawCcd ctx)
  then show ?thesis using assms
    by (auto simp: withdraw_ccd_def try_bind_Inr parameter_list_def dest: withdraw_ccd_batches_used)
next
  case (SignedWithdrawTokens ctx)
  then show ?thesis using assms
    by (auto simp: withdraw_cis2_tokens_def try_bind_Inr parameter_list_def dest: withdraw_tokens_batches_used)
next
  case (SignedTransferCcd ctx)
  then show ?thesis using assms
    by (auto simp: transfer_ccd_def try_bind_Inr parameter_list_def sum_list_triv dest: transfer_ccd_batches_used)
next
  case (SignedTransferTokens ctx)
  then show ?thesis using assms
    by (auto simp: transfer_cis2_tokens_def try_bind_Inr parameter_list_def sum_list_triv dest: transfer_tokens_batches_used)
qed

section \<open>A concrete history\<close>

text \<open>Somebody deposits 5 for key 1, whose holder signs a transfer of 2 to key 3 with a fee of 1 for key 2.\<close>

definition wal_env :: wallet_env where
  "wal_env = \<lparr>we_hash_sha2_256 = (\<lambda>b. b), we_verify_ed25519_signature = (\<lambda>k s m. s = [7]), we_u256_add = (\<lambda>x y. Some (x + y)),
     we_serial_withdraw_ccd = (\<lambda>_. []), we_serial_withdraw_tokens = (\<lambda>_. []), we_serial_transfer_ccd = (\<lambda>_. []),
     we_serial_transfer_tokens = (\<lambda>_. [])\<rparr>"

definition wal_ctx :: "address \<Rightarrow> 'p \<Rightarrow> 'p receive_context" where
  "wal_ctx a p = \<lparr>ctx_sender = a, ctx_parameter = Some p, ctx_slot_time = 0, ctx_owner = [],
     ctx_self_address = \<lparr>ca_index = 0, ca_subindex = 0\<rparr>\<rparr>"

definition wal_log :: "wallet_event logger" where
  "wal_log evs ev = None"

definition wal_host :: "(wallet_key \<rightharpoonup> u64) \<Rightarrow> (wallet_key \<rightharpoonup> u64) \<Rightarrow> u64 \<Rightarrow> wallet_event list \<Rightarrow> wallet_host" where
  "wal_host ccd nonces b logs = \<lparr>h_state = \<lparr>wl_token_balances = Map.empty, wl_ccd_balances = ccd, wl_implementors = Map.empty,
     wl_nonces_registry = nonces\<rparr>, h_balance = b, h_logs = logs, h_transfers = []\<rparr>"

definition wal_transfer :: "u64 transfer_batch" where
  "wal_transfer = \<lparr>tb_signer = [1], tb_signature = [7], tb_message = \<lparr>tm_entry_point = ''transferCcd'', tm_expiry_time = 9,
     tm_nonce = 0, tm_service_fee_recipient = [2], tm_service_fee_amount = 1,
     tm_simple_transfers = [\<lparr>wt_to = [3], wt_transfer_amount = 2\<rparr>]\<rparr>\<rparr>"

definition wal_withdraw :: "u64 withdraw_batch" where
  "wal_withdraw = \<lparr>wb_signer = [1], wb_signature = [7], wb_message = \<lparr>wm_entry_point = ''withdrawCcd'', wm_expiry_time = 9,
     wm_nonce = 0, wm_service_fee_recipient = [2], wm_service_fee_amount = 0,
     wm_simple_withdraws = [\<lparr>wd_to = ReceiverAccount [8], wd_withdraw_amount = 4, wd_data = []\<rparr>]\<rparr>\<rparr>"

definition wal_transferred :: wallet_host where
  "wal_transferred = wal_host [[1] \<mapsto> 2, [2] \<mapsto> 1, [3] \<mapsto> 2] [[1] \<mapsto> 1] 5
     [TransferCcd 1 [1] [2], TransferCcd 2 [1] [3], WalletNonce 0 [1]]"

lemmas wal_defs = wal_env_def wal_ctx_def wal_log_def wal_host_def wal_transfer_def wal_withdraw_def wal_transferred_def
  wallet_get_def wallet_log_def log_event_def receive_amount_def Let_def

lemma wal_deposit: "wallet_steps E K C 0 wallet_init (wal_host [[1] \<mapsto> 5] Map.empty 5 [DepositCcd 5 (Account [9]) [1]])"
  by (rule step_deposit_ccd [OF wallet_steps.start, where amount = 5 and dctx = "wal_ctx (Account [9]) [1]" and logger = wal_log])
    (simp_all add: deposit_ccd_def wallet_init_def wallet_empty_def credit_ccd_def balance_ccd_def checked_add_u64_def wal_defs)

lemma wal_transfer_run:
  "transfer_ccd wal_env wal_log (wal_ctx (Account [9]) [wal_transfer]) (receive_amount 0 (wal_host [[1] \<mapsto> 5] Map.empty 5 logs)) =
     Inr wal_transferred"
  by (simp add: transfer_ccd_def state_transfer_ccd_def validate_signature_and_increase_nonce_def ensure_def transfer_is_message_def
      wallet_nonce_def increase_nonce_def debit_ccd_def credit_ccd_def balance_ccd_def checked_add_u64_def checked_sub_u64_def
      map_err_def fun_upd_twist wal_defs)

lemma wal_transfer_step:
  "wallet_steps wal_env {[1]} C 1 (wal_host [[1] \<mapsto> 5] Map.empty 5 logs) wal_transferred"
proof -
  have "wallet_steps wal_env {[1]} C (0 + length [wal_transfer]) (wal_host [[1] \<mapsto> 5] Map.empty 5 logs) wal_transferred"
    by (rule step_transfer_ccd [OF wallet_steps.start _ _ wal_transfer_run]) (auto simp: wal_ctx_def wal_transfer_def)
  then show ?thesis by simp
qed

lemma wal_transferred_reached: "wallet_steps wal_env {[1]} {} 1 wallet_init wal_transferred"
proof -
  have "wallet_steps wal_env {[1]} {} (0 + length [wal_transfer]) wallet_init wal_transferred"
    by (rule step_transfer_ccd [OF wal_deposit _ _ wal_transfer_run]) (auto simp: wal_ctx_def wal_transfer_def)
  then show ?thesis by simp
qed

section \<open>Properties\<close>

lemma funded_init: "funded wallet_init"
  by (simp add: funded_def wallet_init_def wallet_empty_def ccd_total_def)

lemma funded_balance: "funded h \<Longrightarrow> balance_ccd (h_state h) k \<le> h_balance h"
  using at_key_le_total [of "wl_ccd_balances (h_state h)" unat k]
  by (auto simp: funded_def ccd_total_def at_key_def balance_ccd_def word_le_nat_alt split: option.splits)

text \<open>
  C26. In every state the wallet can reach, whatever the contracts it calls do, the CCD balances of all keys add up to
  the balance of the contract, so that no key has more than the contract can pay.
\<close>

theorem wallet_backed:
  assumes "wallet_steps E K C n wallet_init h"
  shows "ccd_total (h_state h) = unat (h_balance h) \<and> (\<forall>k. balance_ccd (h_state h) k \<le> h_balance h)"
proof -
  have "funded h" using funds.wallet_steps_guarantee [OF wallet_steps_any [OF assms]] funded_init by blast
  then show ?thesis using funded_balance by (simp add: funded_def)
qed

theorem wallet_backed_witness:
  "ccd_total (h_state wal_transferred) = unat (h_balance wal_transferred) \<and>
   (\<forall>k. balance_ccd (h_state wal_transferred) k \<le> h_balance wal_transferred)"
  by (rule wallet_backed [OF wal_transferred_reached])

text \<open>
  C30. The holder of a key can get out what the key has: in every reachable state a signed and current message that
  withdraws any positive amount up to the balance to an existing account pays exactly this amount, if the logger
  takes the events.
\<close>

theorem wallet_redeemable:
  assumes "wallet_steps E K C n wallet_init h" "0 < amount" "amount \<le> balance_ccd (h_state h) k" "\<not> missing a"
    and "ctx_parameter ctx = Some [\<lparr>wb_signer = k, wb_signature = sig, wb_message = message\<rparr>]"
    and "message = \<lparr>wm_entry_point = ''withdrawCcd'', wm_expiry_time = expiry, wm_nonce = wallet_nonce (h_state h) k,
      wm_service_fee_recipient = r, wm_service_fee_amount = 0,
      wm_simple_withdraws = [\<lparr>wd_to = ReceiverAccount a, wd_withdraw_amount = amount, wd_data = d\<rparr>]\<rparr>"
    and "ctx_slot_time ctx < expiry"
    and "we_verify_ed25519_signature E k sig (calculate_message_hash_from_bytes E ctx (we_serial_withdraw_ccd E message))"
    and "\<And>evs ev. logger evs ev = None"
  shows "\<exists>h'. withdraw_ccd E logger missing call ctx (receive_amount 0 h) = Inr h' \<and>
    h_transfers h' = h_transfers h @ [(a, amount)] \<and> balance_ccd (h_state h') k = balance_ccd (h_state h) k - amount"
proof -
  have "funded h" using funds.wallet_steps_guarantee [OF wallet_steps_any [OF assms(1)]] funded_init by blast
  then have pay: "amount \<le> h_balance h" using funded_balance assms(3) order_trans by blast
  obtain b where b: "wl_ccd_balances (h_state h) k = Some b" "amount \<le> b"
    using assms(2,3) by (cases "wl_ccd_balances (h_state h) k") (simp_all add: balance_ccd_def)
  let ?h = "receive_amount 0 h"
  let ?h1 = "?h\<lparr>h_state := increase_nonce k (h_state h)\<rparr>"
  have log: "wallet_log logger ev g = Inr (g\<lparr>h_logs := h_logs g @ [ev]\<rparr>)" for ev g
    using assms(9) by (simp add: wallet_log_def log_event_def)
  have m: "wm_entry_point message = ''withdrawCcd''" "wm_expiry_time message = expiry" "wm_nonce message = wallet_nonce (h_state h) k"
    "wm_service_fee_recipient message = r" "wm_service_fee_amount message = 0"
    "wm_simple_withdraws message = [\<lparr>wd_to = ReceiverAccount a, wd_withdraw_amount = amount, wd_data = d\<rparr>]"
    by (simp_all add: assms(6))
  have validate: "validate_signature_and_increase_nonce E (withdraw_is_message (we_serial_withdraw_ccd E)) message k sig ctx ?h =
      Inr ?h1"
    using assms(7,8) by (simp add: validate_signature_and_increase_nonce_def withdraw_is_message_def ensure_def receive_amount_def m)
  have fee: "state_transfer_ccd logger k r 0 ?h1 = Inr (?h1\<lparr>h_logs := [TransferCcd 0 k r]\<rparr>)"
    by (simp add: state_transfer_ccd_def log receive_amount_def)
  have debit: "debit_ccd k amount (increase_nonce k (h_state h)) =
      Inr ((increase_nonce k (h_state h))\<lparr>wl_ccd_balances := (wl_ccd_balances (h_state h))(k \<mapsto> b - amount)\<rparr>)"
    using b by (simp add: debit_ccd_run)
  have "withdraw_ccd_loop logger missing call k (wm_simple_withdraws message) (?h1\<lparr>h_logs := [TransferCcd 0 k r]\<rparr>) =
      Inr (?h1\<lparr>h_state := (increase_nonce k (h_state h))\<lparr>wl_ccd_balances := (wl_ccd_balances (h_state h))(k \<mapsto> b - amount)\<rparr>,
        h_balance := h_balance h - amount, h_transfers := h_transfers h @ [(a, amount)],
        h_logs := [TransferCcd 0 k r, WithdrawCcd amount k (Account a)]\<rparr>)"
    using pay assms(4) by (simp add: m debit pay_ccd_def invoke_transfer_def map_err_def log receive_amount_def)
  then show ?thesis
    using assms(5) by (simp add: withdraw_ccd_def wallet_get_def validate m(1,3-5) fee map_err_def log ensure_def balance_ccd_def b(1) Let_def)
qed

theorem wallet_redeemable_witness:
  "\<exists>h'. withdraw_ccd wal_env wal_log (\<lambda>_. False) (\<lambda>_ _ _ _ _. Inl Trap) (wal_ctx (Account [9]) [wal_withdraw])
      (receive_amount 0 (wal_host [[1] \<mapsto> 5] Map.empty 5 [DepositCcd 5 (Account [9]) [1]])) = Inr h' \<and>
    h_transfers h' = h_transfers (wal_host [[1] \<mapsto> 5] Map.empty 5 [DepositCcd 5 (Account [9]) [1]]) @ [([8], 4)] \<and>
    balance_ccd (h_state h') [1] = balance_ccd (h_state (wal_host [[1] \<mapsto> 5] Map.empty 5 [DepositCcd 5 (Account [9]) [1]])) [1] - 4"
  by (rule wallet_redeemable [OF wal_deposit, where sig = "[7]" and message = "wb_message wal_withdraw" and expiry = 9 and
        r = "[2]" and d = "[]"])
    (simp_all add: wal_defs balance_ccd_def wallet_nonce_def)

text \<open>
  C27. Nobody can take what belongs to a key: while no signature of the holder is around that verifies for a message
  with the key's current nonce, not expired and for the entrypoint called, the key loses neither CCD nor any token,
  whoever submits what batches in whoever's name, the key's own with forged or used signatures included, and
  whatever called contracts do.
\<close>

theorem wallet_no_theft:
  assumes "wallet_steps E K C n h h'" "k \<notin> K"
  shows "balance_ccd (h_state h) k \<le> balance_ccd (h_state h') k \<and>
    balance_tokens (h_state h) t c k \<le> balance_tokens (h_state h') t c k"
  using holders.wallet_steps_guarantee [OF assms(1)] assms(2) by (simp add: kept_def)

theorem wallet_no_theft_witness:
  "balance_ccd (h_state (wal_host [[1] \<mapsto> 5] Map.empty 5 [])) [3] \<le> balance_ccd (h_state wal_transferred) [3] \<and>
   balance_tokens (h_state (wal_host [[1] \<mapsto> 5] Map.empty 5 [])) [0] \<lparr>ca_index = 1, ca_subindex = 0\<rparr> [3]
     \<le> balance_tokens (h_state wal_transferred) [0] \<lparr>ca_index = 1, ca_subindex = 0\<rparr> [3]"
  by (rule wallet_no_theft [OF wal_transfer_step]) simp

text \<open>What the batches of a call carry: signer, signature, entrypoint, expiry and the serialized message.\<close>

fun signed_messages :: "wallet_env \<Rightarrow> signed_call \<Rightarrow> (wallet_key \<times> bytes \<times> string \<times> u64 \<times> bytes) set" where
  "signed_messages E (SignedWithdrawCcd ctx) = (\<lambda>b. (wb_signer b, wb_signature b, wm_entry_point (wb_message b),
     wm_expiry_time (wb_message b), we_serial_withdraw_ccd E (wb_message b))) ` set (parameter_list ctx)"
| "signed_messages E (SignedWithdrawTokens ctx) = (\<lambda>b. (wb_signer b, wb_signature b, wm_entry_point (wb_message b),
     wm_expiry_time (wb_message b), we_serial_withdraw_tokens E (wb_message b))) ` set (parameter_list ctx)"
| "signed_messages E (SignedTransferCcd ctx) = (\<lambda>b. (tb_signer b, tb_signature b, tm_entry_point (tb_message b),
     tm_expiry_time (tb_message b), we_serial_transfer_ccd E (tb_message b))) ` set (parameter_list ctx)"
| "signed_messages E (SignedTransferTokens ctx) = (\<lambda>b. (tb_signer b, tb_signature b, tm_entry_point (tb_message b),
     tm_expiry_time (tb_message b), we_serial_transfer_tokens E (tb_message b))) ` set (parameter_list ctx)"

fun signed_entrypoint :: "signed_call \<Rightarrow> string" where
  "signed_entrypoint (SignedWithdrawCcd ctx) = ''withdrawCcd''"
| "signed_entrypoint (SignedWithdrawTokens ctx) = ''withdrawCis2Tokens''"
| "signed_entrypoint (SignedTransferCcd ctx) = ''transferCcd''"
| "signed_entrypoint (SignedTransferTokens ctx) = ''transferCis2Tokens''"

fun signed_now :: "signed_call \<Rightarrow> u64" where
  "signed_now (SignedWithdrawCcd ctx) = ctx_slot_time ctx"
| "signed_now (SignedWithdrawTokens ctx) = ctx_slot_time ctx"
| "signed_now (SignedTransferCcd ctx) = ctx_slot_time ctx"
| "signed_now (SignedTransferTokens ctx) = ctx_slot_time ctx"

fun signed_hash :: "wallet_env \<Rightarrow> signed_call \<Rightarrow> bytes \<Rightarrow> bytes" where
  "signed_hash E (SignedWithdrawCcd ctx) message = calculate_message_hash_from_bytes E ctx message"
| "signed_hash E (SignedWithdrawTokens ctx) message = calculate_message_hash_from_bytes E ctx message"
| "signed_hash E (SignedTransferCcd ctx) message = calculate_message_hash_from_bytes E ctx message"
| "signed_hash E (SignedTransferTokens ctx) message = calculate_message_hash_from_bytes E ctx message"

lemma batches_validated:
  "withdraw_ccd_batches E logger missing call ctx ws h = Inr h' \<Longrightarrow> b \<in> set ws \<Longrightarrow>
     wm_entry_point (wb_message b) = ''withdrawCcd'' \<and>
     (\<exists>g g'. validate_signature_and_increase_nonce E (withdraw_is_message (we_serial_withdraw_ccd E)) (wb_message b) (wb_signer b)
        (wb_signature b) ctx g = Inr g')"
  "withdraw_tokens_batches E logger call ctx vs h = Inr h' \<Longrightarrow> c \<in> set vs \<Longrightarrow>
     wm_entry_point (wb_message c) = ''withdrawCis2Tokens'' \<and>
     (\<exists>g g'. validate_signature_and_increase_nonce E (withdraw_is_message (we_serial_withdraw_tokens E)) (wb_message c) (wb_signer c)
        (wb_signature c) ctx g = Inr g')"
  "transfer_ccd_batches E logger ctx ts h = Inr h' \<Longrightarrow> d \<in> set ts \<Longrightarrow>
     tm_entry_point (tb_message d) = ''transferCcd'' \<and>
     (\<exists>g g'. validate_signature_and_increase_nonce E (transfer_is_message (we_serial_transfer_ccd E)) (tb_message d) (tb_signer d)
        (tb_signature d) ctx g = Inr g')"
  "transfer_tokens_batches E logger ctx us h = Inr h' \<Longrightarrow> e \<in> set us \<Longrightarrow>
     tm_entry_point (tb_message e) = ''transferCis2Tokens'' \<and>
     (\<exists>g g'. validate_signature_and_increase_nonce E (transfer_is_message (we_serial_transfer_tokens E)) (tb_message e) (tb_signer e)
        (tb_signature e) ctx g = Inr g')"
  subgoal by (induction ws arbitrary: h) (auto simp: try_bind_Inr Let_def)
  subgoal by (induction vs arbitrary: h) (auto simp: try_bind_Inr Let_def)
  subgoal by (induction ts arbitrary: h) (auto simp: try_bind_Inr Let_def)
  subgoal by (induction us arbitrary: h) (auto simp: try_bind_Inr Let_def)
  done

text \<open>
  C28. Only what was signed is done: when a withdrawal or transfer is accepted, every batch in it is signed by its key
  over the chain, this contract and the whole message, for this entrypoint, and not expired.
\<close>

theorem wallet_signed:
  assumes "run_signed E logger missing call c h = Inr h'" "(k, sig, entry_point, expiry, message) \<in> signed_messages E c"
  shows "we_verify_ed25519_signature E k sig (signed_hash E c message) \<and> entry_point = signed_entrypoint c \<and> signed_now c < expiry"
proof (cases c)
  case (SignedWithdrawCcd ctx)
  then show ?thesis using assms
    by (auto simp: withdraw_ccd_def try_bind_Inr parameter_list_def withdraw_is_message_def dest!: batches_validated(1) dest: validate_run(3,4))
next
  case (SignedWithdrawTokens ctx)
  then show ?thesis using assms
    by (auto simp: withdraw_cis2_tokens_def try_bind_Inr parameter_list_def withdraw_is_message_def dest!: batches_validated(2) dest: validate_run(3,4))
next
  case (SignedTransferCcd ctx)
  then show ?thesis using assms
    by (auto simp: transfer_ccd_def try_bind_Inr parameter_list_def transfer_is_message_def dest!: batches_validated(3) dest: validate_run(3,4))
next
  case (SignedTransferTokens ctx)
  then show ?thesis using assms
    by (auto simp: transfer_cis2_tokens_def try_bind_Inr parameter_list_def transfer_is_message_def dest!: batches_validated(4) dest: validate_run(3,4))
qed

theorem wallet_signed_witness:
  "we_verify_ed25519_signature wal_env [1] [7]
     (signed_hash wal_env (SignedTransferCcd (wal_ctx (Account [9]) [wal_transfer])) (we_serial_transfer_ccd wal_env (tb_message wal_transfer))) \<and>
   ''transferCcd'' = signed_entrypoint (SignedTransferCcd (wal_ctx (Account [9]) [wal_transfer])) \<and>
   signed_now (SignedTransferCcd (wal_ctx (Account [9]) [wal_transfer])) < 9"
  by (rule wallet_signed [where h = "receive_amount 0 (wal_host [[1] \<mapsto> 5] Map.empty 5 [])" and h' = wal_transferred and logger = wal_log])
    (use wal_transfer_run in \<open>simp_all add: parameter_list_def wal_ctx_def wal_transfer_def\<close>)

text \<open>
  C29. A signed message works once: after a withdrawal or transfer of CCD or tokens was accepted, every call of any of
  the four entrypoints with a message of the same key and nonce is rejected, until \<open>2 ^ 64\<close> batches were processed.
\<close>

theorem wallet_no_replay:
  assumes "run_signed E logger missing call c h = Inr h1" "(k, nonce) \<in> signed_nonces c"
    and "wallet_steps E UNIV UNIV n h1 h2" "(k, nonce) \<in> signed_nonces c'"
    and "wallet_callback_ok (wallet_steps E UNIV UNIV m) call" "wallet_callback_ok (wallet_steps E UNIV UNIV m) call'"
    and "signed_cost m c + n + signed_cost m c' < 2 ^ 64"
  shows "isl (run_signed E logger' missing' call' c' h2)"
  unfolding isl_def
  using used_once [OF run_signed_used [OF assms(1,2,5)] nonces.wallet_steps_guarantee [OF assms(3)]
    run_signed_used [OF _ assms(4,6)] assms(7)] by (metis sum.exhaust)

theorem wallet_no_replay_witness:
  "isl (run_signed wal_env wal_log (\<lambda>_. False) (\<lambda>_ _ _ _ _. Inl Trap)
     (SignedWithdrawCcd (wal_ctx (Account [9]) [wal_withdraw])) wal_transferred)"
  by (rule wallet_no_replay [where h = "receive_amount 0 (wal_host [[1] \<mapsto> 5] Map.empty 5 [])" and k = "[1]" and nonce = 0
        and c = "SignedTransferCcd (wal_ctx (Account [9]) [wal_transfer])" and m = 0 and n = 0
        and missing = "\<lambda>_. False" and call = "\<lambda>_ _ _ _ _. Inl Trap" and ?h1.0 = wal_transferred and logger = wal_log])
    (use wal_transfer_run in \<open>simp_all add: wallet_steps.start parameter_list_def wallet_callback_ok_def withdraw_cost_def
      wal_ctx_def wal_transfer_def wal_withdraw_def\<close>)

text \<open>
  The wallet makes no tokens: as long as a token contract deposits nothing, what all keys together hold of each of
  its tokens does not grow, provided the addition of 256-bit numbers returns the sum or panics.
\<close>

lemma wallet_tokens_not_made:
  assumes "wallet_steps E K C n wallet_init h" "wallet_steps E K' C' n' h h'" "c \<notin> C'" "u256_add_ok E"
  shows "token_total (h_state h') c t \<le> token_total (h_state h) c t"
proof -
  have "finite_holdings (h_state wallet_init)"
    by (simp add: finite_holdings_def holdings_def wallet_init_def wallet_empty_def)
  then have "finite_holdings (h_state h)"
    using tokens.wallet_steps_guarantee [OF wallet_steps_any [OF assms(1)]] assms(4) by (simp add: circulates_def)
  then show ?thesis using tokens.wallet_steps_guarantee [OF wallet_steps_any [OF assms(2)]] assms(3,4) by (simp add: circulates_def)
qed

lemma wallet_tokens_not_made_sample:
  "token_total (h_state wal_transferred) \<lparr>ca_index = 1, ca_subindex = 0\<rparr> [0] \<le>
   token_total (h_state (wal_host [[1] \<mapsto> 5] Map.empty 5 [DepositCcd 5 (Account [9]) [1]])) \<lparr>ca_index = 1, ca_subindex = 0\<rparr> [0]"
  by (rule wallet_tokens_not_made [OF wal_deposit [where C = "{}"] wal_transfer_step [where C = "{}"]])
    (simp_all add: u256_add_ok_def wal_env_def)

end
