(* ===== verification/Token_Auction.thy ===== *)
theory Token_Auction
  imports Cis2_Client
begin

text \<open>
  The contract of \<^verbatim>\<open>examples/sponsored-tx-enabled-auction/src/lib.rs\<close>: auctions in which bids are tokens of one token
  contract. A bid is a transfer of tokens to the auction, whose hook is the entrypoint \<^verbatim>\<open>bid\<close>; refunds and payments go
  through the client of \<open>Cis2_Client\<close>. The codecs of the client's calls and the call itself are arguments. The
  entrypoints work on a host that may carry more, here the ledger of the token contract.
\<close>

section \<open>State\<close>

datatype item_auction_state = ItemNotSoldYet | ItemSold account_address

record item_state =
  is_auction_state :: item_auction_state
  is_highest_bidder :: "account_address option"
  is_name :: string
  is_end :: u64
  is_start :: u64
  is_highest_bid :: u64
  is_token_id :: u8
  is_creator :: account_address

record sale_state =
  sl_items :: "u16 \<rightharpoonup> item_state"
  sl_cis2_contract :: contract_address
  sl_counter :: u16

record add_item_parameter =
  ai_name :: string
  ai_end :: u64
  ai_start :: u64
  ai_minimum_bid :: u64
  ai_token_id :: u8

datatype sale_error =
    SaleParseParams | StartEndTimeError | EndTimeError | OnlyAccount | BidNotGreaterCurrentBid | BidTooLate
  | AuctionAlreadyFinalized | NoItem | AuctionStillActive | NotTokenContract | WrongTokenID | SaleInvokeContractError
  | SaleParseResult | SaleInvalidResponse | SaleAmountTooLarge | SaleMissingAccount | SaleMissingContract
  | SaleMissingEntrypoint | SaleMessageFailed | SaleLogicReject | SaleTrap | SaleLogFull | SaleLogMalformed

datatype sale_event = AddItem u16

type_synonym 'x sale_host = "(sale_state, sale_event, 'x) contract_host_scheme"

fun sale_error_from_log :: "log_error \<Rightarrow> sale_error" where
  "sale_error_from_log Full = SaleLogFull"
| "sale_error_from_log MalformedLog = SaleLogMalformed"

fun sale_error_from_call :: "'r call_contract_error \<Rightarrow> sale_error" where
  "sale_error_from_call CallAmountTooLarge = SaleAmountTooLarge"
| "sale_error_from_call CallMissingAccount = SaleMissingAccount"
| "sale_error_from_call CallMissingContract = SaleMissingContract"
| "sale_error_from_call CallMissingEntrypoint = SaleMissingEntrypoint"
| "sale_error_from_call MessageFailed = SaleMessageFailed"
| "sale_error_from_call (LogicReject _ _) = SaleLogicReject"
| "sale_error_from_call Trap = SaleTrap"

fun sale_error_from_client :: "'r cis2_client_error \<Rightarrow> sale_error" where
  "sale_error_from_client (ClientInvokeContractError _) = SaleInvokeContractError"
| "sale_error_from_client ParseResult = SaleParseResult"
| "sale_error_from_client InvalidResponse = SaleInvalidResponse"

section \<open>Entrypoints\<close>

definition sale_parsed :: "'p receive_context \<Rightarrow> sale_error + 'p" where
  "sale_parsed ctx = (case ctx_parameter ctx of None \<Rightarrow> Inl SaleParseParams | Some p \<Rightarrow> Inr p)"

definition sale_init :: "contract_address option \<Rightarrow> reject + sale_state" where
  "sale_init parameter =
     (case parameter of
        None \<Rightarrow> Inl reject_from_parse_error
      | Some contract \<Rightarrow> Inr \<lparr>sl_items = Map.empty, sl_cis2_contract = contract, sl_counter = 0\<rparr>)"

text \<open>The logger of the host, on its log.\<close>

definition sale_log :: "sale_event logger \<Rightarrow> sale_event \<Rightarrow> 'x sale_host \<Rightarrow> sale_error + 'x sale_host" where
  "sale_log logger ev h =
     (case logger (h_logs h) ev of Some e \<Rightarrow> Inl (sale_error_from_log e) | None \<Rightarrow> Inr (h\<lparr>h_logs := h_logs h @ [ev]\<rparr>))"

definition add_item ::
    "sale_event logger \<Rightarrow> add_item_parameter receive_context \<Rightarrow> 'x sale_host \<Rightarrow> sale_error + 'x sale_host" where
  "add_item logger ctx h =
     (case ctx_sender ctx of
        Contract _ \<Rightarrow> Inl OnlyAccount
      | Account sender_address \<Rightarrow>
          try_bind (sale_parsed ctx) (\<lambda>item.
          ensure (ai_start item < ai_end item) StartEndTimeError
          (ensure (ctx_slot_time ctx \<le> ai_end item) EndTimeError
          (let st = h_state h;
               item_index = sl_counter st + 1;
               s = \<lparr>is_auction_state = ItemNotSoldYet, is_highest_bidder = None, is_name = ai_name item, is_end = ai_end item,
                    is_start = ai_start item, is_highest_bid = ai_minimum_bid item, is_token_id = ai_token_id item,
                    is_creator = sender_address\<rparr>
           in sale_log logger (AddItem item_index)
                (h\<lparr>h_state := st\<lparr>sl_counter := item_index, sl_items := (sl_items st)(item_index \<mapsto> s)\<rparr>\<rparr>)))))"

definition sale_transfer ::
    "'x sale_host invoke_mutable \<Rightarrow> (u8, u64) transfer_params codec \<Rightarrow> 'r cis2_error codec \<Rightarrow> contract_address \<Rightarrow>
     contract_address \<Rightarrow> account_address \<Rightarrow> u8 \<Rightarrow> u64 \<Rightarrow> 'x sale_host \<Rightarrow> sale_error + 'x sale_host" where
  "sale_transfer invoke TC EC contract self to token_id amount h =
     (let (res, h) = client_transfer invoke TC EC (cis2_client_new contract) h
            \<lparr>tp_token_id = token_id, tp_amount = amount, tp_from = Contract self, tp_to = ReceiverAccount to, tp_data = []\<rparr>
      in try_bind (map_err sale_error_from_client res) (\<lambda>_. Inr h))"

definition sale_bid ::
    "'x sale_host invoke_mutable \<Rightarrow> (u8, u64) transfer_params codec \<Rightarrow> 'r cis2_error codec \<Rightarrow>
     (u8, u64, u16) on_receiving_cis2_data_params receive_context \<Rightarrow> 'x sale_host \<Rightarrow> sale_error + 'x sale_host" where
  "sale_bid invoke TC EC ctx h =
     (let st = h_state h; contract = sl_cis2_contract st in
      ensure (ctx_sender ctx = Contract contract) NotTokenContract
      (try_bind (sale_parsed ctx) (\<lambda>params.
       case od_from params of
         Contract _ \<Rightarrow> Inl OnlyAccount
       | Account bidder_address \<Rightarrow>
           (case sl_items st (od_data params) of
              None \<Rightarrow> Inl NoItem
            | Some item \<Rightarrow>
                ensure (is_token_id item = od_token_id params) WrongTokenID
                (ensure (is_auction_state item = ItemNotSoldYet) AuctionAlreadyFinalized
                (ensure (ctx_slot_time ctx \<le> is_end item) BidTooLate
                (ensure (od_amount params > is_highest_bid item) BidNotGreaterCurrentBid
                (let h = h\<lparr>h_state := st\<lparr>sl_items := (sl_items st)(od_data params \<mapsto>
                       item\<lparr>is_highest_bid := od_amount params, is_highest_bidder := Some bidder_address\<rparr>)\<rparr>\<rparr>
                 in case is_highest_bidder item of
                      None \<Rightarrow> Inr h
                    | Some account_address \<Rightarrow>
                        sale_transfer invoke TC EC contract (ctx_self_address ctx) account_address (is_token_id item)
                          (is_highest_bid item) h))))))))"

definition sale_finalize ::
    "'x sale_host invoke_mutable \<Rightarrow> (u8, u64) transfer_params codec \<Rightarrow> 'r cis2_error codec \<Rightarrow>
     u16 receive_context \<Rightarrow> 'x sale_host \<Rightarrow> sale_error + 'x sale_host" where
  "sale_finalize invoke TC EC ctx h =
     try_bind (sale_parsed ctx) (\<lambda>item_index.
     let st = h_state h; contract = sl_cis2_contract st in
     case sl_items st item_index of
       None \<Rightarrow> Inl NoItem
     | Some item \<Rightarrow>
         ensure (is_auction_state item = ItemNotSoldYet) AuctionAlreadyFinalized
         (ensure (ctx_slot_time ctx > is_end item) AuctionStillActive
         (case is_highest_bidder item of
            None \<Rightarrow> Inr h
          | Some account_address \<Rightarrow>
              sale_transfer invoke TC EC contract (ctx_self_address ctx) (is_creator item) (is_token_id item)
                (is_highest_bid item)
                (h\<lparr>h_state := st\<lparr>sl_items := (sl_items st)(item_index \<mapsto> item\<lparr>is_auction_state := ItemSold account_address\<rparr>)\<rparr>\<rparr>))))"

definition view_item_state :: "u16 receive_context \<Rightarrow> 'x sale_host \<Rightarrow> sale_error + item_state" where
  "view_item_state ctx h =
     try_bind (sale_parsed ctx) (\<lambda>item_index.
     case sl_items (h_state h) item_index of None \<Rightarrow> Inl NoItem | Some item \<Rightarrow> Inr item)"

end
