(* ===== verification/Spec2Isabelle.thy ===== *)
theory Spec2Isabelle
  imports BTree_Map Extern_Trie Bump_Alloc Wccd_Properties Cis2_Client Auction Two_Step_Transfer Voting
    Testing_Properties Multi_Properties Registry_Properties Offchain_Properties Wallet_Properties
    Token_Auction_Properties
begin

text \<open>
  A verification of the Concordium smart contract library for Rust (\<^verbatim>\<open>concordium-std\<close>), of the token
  library on top of it (\<^verbatim>\<open>concordium-cis2\<close>), of contracts written with them (\<^verbatim>\<open>examples\<close>) and of the library
  that runs contracts on a simulated chain in tests (\<^verbatim>\<open>contract-testing\<close>).

  \<^bold>\<open>The program.\<close> A contract keeps its state as byte strings under byte-string keys in a trie that the
  chain's host owns. \<^verbatim>\<open>HasStateApi\<close> and \<^verbatim>\<open>HasStateEntry\<close> (\<^verbatim>\<open>traits.rs\<close>) are the interface to it; on chain
  it is implemented over host primitives (\<^verbatim>\<open>ExternStateApi\<close> in \<^verbatim>\<open>impls.rs\<close>), in tests by a trie in memory
  (\<^verbatim>\<open>test_infrastructure/trie.rs\<close>). On the interface stand the containers: \<^verbatim>\<open>StateMap\<close>, \<^verbatim>\<open>StateSet\<close>,
  \<^verbatim>\<open>StateBox\<close> (\<^verbatim>\<open>impls.rs\<close>), and the ordered \<^verbatim>\<open>StateBTreeSet\<close> and \<^verbatim>\<open>StateBTreeMap\<close> (\<^verbatim>\<open>state_btree.rs\<close>). The
  host of a call (\<^verbatim>\<open>ExternHost\<close>) saves and reloads the contract's state around calls to other contracts
  and decodes their response codes. \<^verbatim>\<open>concordium-cis2\<close> defines the data of the token standard and its
  encoding. Contracts are entrypoints over all of this. \<^verbatim>\<open>contract-testing\<close> keeps a chain of accounts, modules
  and contracts: a transaction runs the contracts with the chain's engine, handles their interrupts
  (transfers, calls, upgrades, queries) on a stack of checkpoints of changes, and saves the changes.

  \<^bold>\<open>The theories.\<close>
  \<^item> \<open>Prelude\<close>: machine words, the partial operations of vectors (\<open>None\<close> is a trap), binary search,
    ascending lists.
  \<^item> \<open>BTree_Model\<close>: \<^verbatim>\<open>StateBTreeSet\<close> as the code has it, a map from node identifiers to nodes and every
    operation on it. \<open>BTree_Tree\<close> relates a store of nodes to a tree and states the B-tree invariant;
    \<open>BTree_Insert\<close>, \<open>BTree_Rebalance\<close>, \<open>BTree_Remove\<close>, \<open>BTree_Lookup\<close>, \<open>BTree_Iter\<close> prove what each
    operation does to tree and store. \<open>BTree_Set\<close> states the contract of an ordered set as the locale
    \<open>ordered_set\<close>, interprets it on the model and proves that any sequence of operations refines a
    mathematical set. \<open>BTree_Map\<close>: \<^verbatim>\<open>StateBTreeMap\<close> as a state map and an ordered set kept in step.
  \<^item> \<open>State_Api\<close>: the interface as a record of operations and the locale \<open>state_api_laws\<close> of what it
    promises, with raw entries and the root of the state proved once inside it. \<open>State_Trie\<close> and
    \<open>State_Trie_Laws\<close>: the trie of the test infrastructure with its handles, locks and iterators, on an
    explicit heap of shared cells, and its interpretation of the interface. \<open>State_Containers\<close> and
    \<open>State_Containers_Laws\<close>: the containers over any implementation of the interface.
    \<open>State_Properties\<close>: the properties of containers, locks and iterators on the trie.
  \<^item> \<open>Extern_State\<close>: \<^verbatim>\<open>StateEntry\<close>, \<^verbatim>\<open>ExternStateApi\<close> and \<^verbatim>\<open>ExternStateIter\<close> over primitives that are an
    argument; the locale \<open>host_prims\<close> states their documented behaviour and a \<open>sublocale\<close> shows that the
    interface follows. \<open>Extern_Trie\<close>: concrete primitives that meet the assumptions, and the map of a
    deployed contract.
  \<^item> \<open>Host_Codes\<close>: reject codes and the decoding of response codes, with undefined behaviour as an
    outcome. \<open>Host\<close>: committing the state, calls to other contracts, queries, logging.
  \<^item> \<open>Bump_Alloc\<close>: the allocator of the Wasm heap (\<^verbatim>\<open>bump_alloc.rs\<close>) on 32-bit addresses, with its runs as
    an inductive relation.
  \<^item> \<open>Cis2_Codec\<close> and \<open>Cis2_Properties\<close>: token amounts (LEB128) and token identifiers, against a
    reference decoder on natural numbers.
  \<^item> \<open>Contract_Host\<close>: what an entrypoint sees, and the types of the token standard. \<open>Wccd\<close> and
    \<open>Wccd_Properties\<close>: the wrapped-CCD token with re-entrant hooks. \<open>Nft\<close>: non-fungible tokens, also
    with hooks. \<open>Multi\<close> and \<open>Multi_Properties\<close>: several fungible tokens with roles, a blacklist, a pause switch and
    signed permits; the locale \<open>multi_guarantee\<close> lifts what the operations of the state keep to every
    history of calls. \<open>Credential_Registry\<close> and \<open>Registry_Properties\<close>: credentials with signed revocations, again with a
    locale of guarantees, here with the events that each operation logs. \<open>Offchain\<close> and \<open>Offchain_Properties\<close>: deposits, a queue of
    settlements with vetoes and withdrawals, as a labelled step relation. \<open>Wallet\<close> and \<open>Wallet_Properties\<close>: CCD and
    tokens held for keys whose holders sign messages, with the locale \<open>wallet_guarantee\<close> interpreted for funds, holders,
    nonces and tokens. \<open>Cis2_Client\<close>: the client with which contracts call a token contract, put together with
    \<open>Nft\<close>. \<open>Token_Auction\<close> and \<open>Token_Auction_Properties\<close>: auctions with bids in tokens, run together with a ledger of
    the token contract. \<open>Auction\<close>, \<open>Two_Step_Transfer\<close> and \<open>Voting\<close>: these contracts as state machines.
  \<^item> \<open>Testing_Changes\<close>: the changes of a transaction (\<^verbatim>\<open>invocation/types.rs\<close>, \<^verbatim>\<open>ChangeSet\<close>, \<^verbatim>\<open>AmountDelta\<close>).
    \<open>Testing_Signatures\<close>: the encoding of account signatures. \<open>Testing_Invoke\<close>: the loop of
    \<^verbatim>\<open>invoke_entrypoint\<close> with a handler for every interrupt; the engine is the record \<open>sdk\<close>.
    \<open>Testing_Balance\<close>: every step keeps the sum of the balance differences at zero, by rules for what an
    execution \<open>returns\<close>. \<open>Testing_Energy\<close>: the energy goes down and the loop ends. \<open>Testing_Chain\<close>: the
    chain and its transactions (\<^verbatim>\<open>contract-testing/src/impls.rs\<close>), with the base library of the chain as
    the record \<open>chain_lib\<close>. \<open>Testing_Conservation\<close>: saving changes and creating contracts keep the CCD
    on the chain. \<open>Testing_Script\<close>: an engine that follows a script, for concrete runs.
    \<open>Testing_Properties\<close>: the properties of the testing library.

  \<^bold>\<open>What is shown.\<close> The B-tree keeps its invariant, its length and its set of keys through insertions and
  removals, never traps while its counters are in range, answers neighbour queries with the nearest key
  and iterates in ascending order; its height is logarithmic. Containers behave as maps, sets and cells
  and do not disturb each other; iterators lock the subtree of their prefix and, in the trie for tests, the keys on the
  way to it, and give the locks back.
  The deployed state behaves as the state in tests for any primitives that meet their documentation.
  Response codes decode to what was encoded; saving and reloading the state around a call hands the
  callee the current state and takes back what the callees wrote. The allocator hands out aligned,
  pairwise disjoint blocks inside the memory. Encodings of amounts and identifiers
  are inverted by their decoders. Wrapped tokens equal the contract's funds in every reachable state and
  can be redeemed; an auction refunds every bid but the last, which goes to the owner; the two-step
  contract pays only with the agreement of enough holders; a non-fungible token has one owner, who or
  whose operator alone can move it; the client's queries return what the token
  contract holds; of several fungible tokens nobody loses any without an act of its own or its operators, permits
  cannot be replayed, and blacklisted holders and a paused contract are frozen; the events of a credential registry determine its
  state, its signed revocations cannot be replayed, and what is the issuer's to do only the issuer can do; the balance
  sheet of offchain transfers adds up to the contract's funds, what is available stays withdrawable and vetoes are final; a wallet for
  keys is backed, does only what its keys signed, and does it once; an auction
  with bids in tokens always holds the tokens it owes, accepts a higher bid and settles every item; the tally of an election is the count of its ballots.
  On a simulated chain CCD is neither created nor lost but for fees, whatever the contracts do; every
  update ends if interrupts cost energy; a failed update changes nothing but the balance that pays exactly its fee;
  energy is priced without overflow and rounded up.

  Properties of kind \<open>error\<close> and the lemmas named in the findings state where the code does not do what its
  documentation says:
  \<^verbatim>\<open>is_empty\<close> of maps and sets, the lock \<^verbatim>\<open>iter_mut\<close> leaves behind, the truncation in \<^verbatim>\<open>commit_state\<close> that
  removes nothing, the locks of an iterator beyond its subtree, bits lost in the decoding of amounts, the funds check of the two-step contract, and the parameter of
  the client's \<^verbatim>\<open>update_operator\<close>; in the testing library, changes of a failed call that are not rolled back,
  fees that are reported and not charged, and a query that loses the module of a contract; in \<open>Multi_Properties\<close> and \<open>Offchain_Properties\<close>,
  sums that wrap around; in \<open>Token_Auction_Properties\<close>, a counter that wraps around and a start that is not checked.

  \<^bold>\<open>Conventions and bounds.\<close> Arithmetic is on words of the source's width. A trap, panic or abort is
  \<open>None\<close> (in the wallet the failure \<open>WalletPanic\<close>), an error value the left summand. The loops of the B-tree are partial functions into
  \<open>option\<close> without a bound of their own, and the theorems show that they return; so is the loop of \<^verbatim>\<open>invoke_entrypoint\<close>. \<open>cap\<close> in the interface bounds the
  size of an entry, \<open>room\<close> how many handles can still be given out: 64-bit identifiers of handles, 32-bit
  identifiers of nodes. Serialization of keys, values and parameters is a codec argument, since the
  derived implementations are generated outside the sources; \<open>codec_ok\<close> says that reading inverts
  writing. Signed messages may be submitted by anybody in any name: the theorems on signatures ask only that some accounts or keys have
  given no signature away that would be accepted (\<open>live_permit\<close>, \<open>live_withdraw\<close>, \<open>live_transfer\<close>), not that
  nobody uses their names. Where sums or counters of a contract can wrap around, the bound is an assumption of its
  own: \<open>no_overflow\<close> for the offchain transfers (funds below \<open>2 ^ 63\<close>, queued settlements of at most \<open>2 ^ 63\<close>), fewer than \<open>2 ^ 16\<close>
  added items for the token auction, a supply of less than \<open>2 ^ 64\<close> for the tokens of \<open>Multi\<close>; the findings say what
  happens beyond. In contracts a collection of the state is the map or set it was shown to behave as, and a
  failed call changes nothing.

  \<^bold>\<open>Not modelled.\<close> The derive macros and the schema types (compile time only); the host's own execution
  engine, a dependency; the parts of \<^verbatim>\<open>contract-testing\<close> that query a node over the network, load files or
  print debug output; crypto primitives and context getters (calls into the host); the example contracts other than those above; templates, which repeat the examples.
\<close>

end
